(* ===== verification/Prelude.thy ===== *)
theory Prelude
  imports Main "HOL-Library.AList" "HOL-Library.Sublist" "HOL-Library.Word"
    "HOL-Library.List_Lexorder"
begin

text \<open>
  Shared vocabulary of the development: byte buffers, results that carry an error, JavaScript
  maps kept in insertion order, and the generic lemmas the component theories rest on.

  \<^item> A Node \<open>Buffer\<close> is a list of bytes. \<open>Buffer.compare\<close> is the lexicographic order
    of byte lists, which is the order \<open>HOL-Library.List_Lexorder\<close> puts on them.
  \<^item> A function that throws returns \<open>'e + 'a\<close>: \<open>Inl\<close> the thrown value, \<open>Inr\<close> the
    returned one. \<open>rbind\<close> sequences two such steps the way \<open>await\<close> does.
  \<^item> A JavaScript \<open>Map\<close> (or an object used as a dictionary) is an association list with distinct
    keys: \<open>AList.update\<close> is \<open>set\<close> (an existing key keeps its position, a new one goes
    last), \<open>AList.delete\<close> is \<open>delete\<close>, \<open>map_of\<close> is \<open>get\<close>.
\<close>

type_synonym byte = "8 word"
type_synonym buffer = "byte list"
type_synonym ident = buffer

named_theorems result_simps \<open>rewriting of results that carry an error\<close>
named_theorems store_simps \<open>lookups after updates of a store\<close>

section \<open>Results\<close>

definition rbind :: "'e + 'a \<Rightarrow> ('a \<Rightarrow> 'e + 'b) \<Rightarrow> 'e + 'b" where
  "rbind m f = (case m of Inl e \<Rightarrow> Inl e | Inr a \<Rightarrow> f a)"

lemma rbind_Inl [simp, result_simps]: "rbind (Inl e) f = Inl e"
  by (simp add: rbind_def)

lemma rbind_Inr [simp, result_simps]: "rbind (Inr a) f = f a"
  by (simp add: rbind_def)

lemma rbind_eq_Inr_iff [result_simps]:
  "rbind m f = Inr b \<longleftrightarrow> (\<exists>a. m = Inr a \<and> f a = Inr b)"
  by (cases m) auto

lemma rbind_eq_Inl_iff [result_simps]:
  "rbind m f = Inl e \<longleftrightarrow> m = Inl e \<or> (\<exists>a. m = Inr a \<and> f a = Inl e)"
  by (cases m) auto

lemma rbind_assoc: "rbind (rbind m f) g = rbind m (\<lambda>a. rbind (f a) g)"
  by (cases m) auto

fun is_ok :: "'e + 'a \<Rightarrow> bool" where
  "is_ok (Inl _) = False"
| "is_ok (Inr _) = True"

lemma is_ok_iff: "is_ok m \<longleftrightarrow> (\<exists>a. m = Inr a)"
  by (cases m) auto

text \<open>A loop that stops at the first error: \<open>for (const x of xs) await f(x)\<close>.\<close>

fun rfold :: "('s \<Rightarrow> 'x \<Rightarrow> 'e + 's) \<Rightarrow> 's \<Rightarrow> 'x list \<Rightarrow> 'e + 's" where
  "rfold f s [] = Inr s"
| "rfold f s (x # xs) = rbind (f s x) (\<lambda>s'. rfold f s' xs)"

lemma rfold_append: "rfold f s (xs @ ys) = rbind (rfold f s xs) (\<lambda>s'. rfold f s' ys)"
  by (induction xs arbitrary: s) (auto simp: rbind_assoc)

lemma rfold_invariant:
  assumes "rfold f s xs = Inr s'" and "P s"
    and "\<And>s x s'. P s \<Longrightarrow> x \<in> set xs \<Longrightarrow> f s x = Inr s' \<Longrightarrow> P s'"
  shows "P s'"
  using assms
proof (induction xs arbitrary: s)
  case Nil
  then show ?case by simp
next
  case (Cons x xs)
  from Cons.prems(1) obtain t where t: "f s x = Inr t" and rest: "rfold f t xs = Inr s'"
    by (auto simp: result_simps)
  have "P t" by (rule Cons.prems(3) [OF Cons.prems(2) _ t]) simp
  then show ?case
  proof (rule Cons.IH [OF rest])
    fix u y u'
    assume "P u" and "y \<in> set xs" and "f u y = Inr u'"
    then show "P u'" using Cons.prems(3) [of u y u'] by simp
  qed
qed

text \<open>\<open>Promise.all(xs.map(f))\<close> of pure lookups: the first rejection wins.\<close>

fun rmap :: "('x \<Rightarrow> 'e + 'y) \<Rightarrow> 'x list \<Rightarrow> 'e + 'y list" where
  "rmap f [] = Inr []"
| "rmap f (x # xs) = rbind (f x) (\<lambda>y. rbind (rmap f xs) (\<lambda>ys. Inr (y # ys)))"

lemma rmap_Inr [simp]: "rmap (\<lambda>x. Inr (f x)) xs = Inr (map f xs)"
  by (induction xs) auto

lemma rmap_length: "rmap f xs = Inr ys \<Longrightarrow> length ys = length xs"
  by (induction xs arbitrary: ys) (auto simp: result_simps)

lemma rmap_nth: "rmap f xs = Inr ys \<Longrightarrow> i < length xs \<Longrightarrow> f (xs ! i) = Inr (ys ! i)"
  by (induction xs arbitrary: ys i) (auto simp: result_simps nth_Cons split: nat.splits)

section \<open>Insertion-ordered maps\<close>

abbreviation keys :: "('k \<times> 'v) list \<Rightarrow> 'k list" where
  "keys m \<equiv> map fst m"

lemma map_of_update [store_simps]:
  "map_of (AList.update k v m) k' = (if k' = k then Some v else map_of m k')"
  by (simp add: update_conv')

lemma map_of_delete [store_simps]:
  "map_of (AList.delete k m) k' = (if k' = k then None else map_of m k')"
  by (simp add: delete_conv')

lemma distinct_keys_update [simp]:
  "distinct (keys m) \<Longrightarrow> distinct (keys (AList.update k v m))"
  by (rule distinct_update)

lemma distinct_keys_delete [simp]:
  "distinct (keys m) \<Longrightarrow> distinct (keys (AList.delete k m))"
  by (rule distinct_delete)

lemma set_keys_update [simp]: "set (keys (AList.update k v m)) = insert k (set (keys m))"
  by (induction m) auto

lemma set_keys_delete [simp]: "set (keys (AList.delete k m)) = set (keys m) - {k}"
  by (induction m) (auto simp: AList.delete_eq)

lemma map_of_None_keys: "map_of m k = None \<longleftrightarrow> k \<notin> set (keys m)"
  by (simp add: map_of_eq_None_iff)

text \<open>Setting every entry of a list, in order: later entries win.\<close>

definition set_all :: "('k \<times> 'v) list \<Rightarrow> ('k \<times> 'v) list \<Rightarrow> ('k \<times> 'v) list" where
  "set_all kvs m = fold (\<lambda>(k, v). AList.update k v) kvs m"

lemma map_of_set_all: "map_of (set_all kvs m) = map_of m ++ map_of (rev kvs)"
  unfolding set_all_def
  by (induction kvs arbitrary: m) (auto simp: map_add_def update_conv' fun_eq_iff split: option.splits)

lemma distinct_keys_set_all: "distinct (keys m) \<Longrightarrow> distinct (keys (set_all kvs m))"
  unfolding set_all_def by (induction kvs arbitrary: m) auto

lemma set_all_fresh:
  "distinct (keys (m @ kvs)) \<Longrightarrow> set_all kvs m = m @ kvs"
proof (induction kvs arbitrary: m)
  case Nil
  then show ?case by (simp add: set_all_def)
next
  case (Cons kv kvs)
  obtain k v where kv: "kv = (k, v)" by force
  have "k \<notin> set (keys m)" using Cons.prems kv by auto
  then have upd: "AList.update k v m = m @ [(k, v)]"
    by (induction m) auto
  have "set_all (kv # kvs) m = set_all kvs (m @ [(k, v)])"
    by (simp add: set_all_def kv upd)
  also have "\<dots> = m @ kv # kvs"
    using Cons.IH [of "m @ [(k, v)]"] Cons.prems kv by simp
  finally show ?case .
qed

lemma map_of_rev_distinct: "distinct (keys m) \<Longrightarrow> map_of (rev m) = map_of m"
  by (rule map_of_inject_set [THEN iffD2]) (auto simp flip: rev_map)

lemma map_of_sort_key_fst:
  "distinct (keys m) \<Longrightarrow> map_of (sort_key fst m) = map_of m"
  by (rule map_of_inject_set [THEN iffD2]) (auto simp: distinct_map inj_on_def)

section \<open>Lists\<close>

lemma filter_eq_Nil_iff: "filter P xs = [] \<longleftrightarrow> (\<forall>x \<in> set xs. \<not> P x)"
  by (simp add: filter_empty_conv)

end
