(* ===== verification/DriveErrors.thy ===== *)
theory DriveErrors
  imports Prelude
begin

text \<open>
  The exceptions of \<open>packages/js-drive/lib\<close> that the modelled operations throw, under their
  class names, and the two ways a run of JavaScript itself throws: \<open>Error msg\<close> for
  \<open>new Error(msg)\<close> (or an error of a third-party library with that message) and
  \<open>TypeError\<close> for a property access on \<open>null\<close> or \<open>undefined\<close>.
\<close>

datatype drive_error =
    Error string
  | TypeError
  | MerkDBTransactionIsAlreadyStartedError
  | MerkDBTransactionIsNotStartedError
  | LevelDBTransactionIsAlreadyStartedError
  | LevelDBTransactionIsNotStartedError
  | MongoTransactionIsAlreadyStartedError
  | MongoTransactionIsNotStartedError
  | DocumentsDBTransactionIsAlreadyStartedError
  | DocumentsDBTransactionIsNotStartedError
  | BlockExecutionStoreTransactionIsAlreadyStartedError
  | BlockExecutionStoreTransactionIsNotStartedError
  | BlockExecutionStoreTransactionIsNotDefinedError string

end
