(* ===== verification/Interfaces.thy ===== *)
theory Interfaces
  imports Prelude
begin

text \<open>
  The interfaces the components of js-drive share, as locales: a key-value store that returns
  what was last written, and a transaction that is started before it is committed or aborted.
  The clients' lemmas are proved here once; every provider interprets the locale on its own
  operations.
\<close>

section \<open>Key-value stores\<close>

locale kv_store =
  fixes lookup :: "'s \<Rightarrow> 'k \<Rightarrow> 'v option"
    and insert :: "'s \<Rightarrow> 'k \<Rightarrow> 'v \<Rightarrow> 's"
  assumes lookup_insert: "lookup (insert s k v) k' = (if k' = k then Some v else lookup s k')"
begin

lemma lookup_insert_same: "lookup (insert s k v) k = Some v"
  by (simp add: lookup_insert)

lemma lookup_insert_other: "k' \<noteq> k \<Longrightarrow> lookup (insert s k v) k' = lookup s k'"
  by (simp add: lookup_insert)

lemma insert_is_map_update: "lookup (insert s k v) = (lookup s)(k \<mapsto> v)"
  by (simp add: fun_eq_iff lookup_insert)

lemma insert_commute:
  "k \<noteq> l \<Longrightarrow> lookup (insert (insert s k v) l w) = lookup (insert (insert s l w) k v)"
  by (auto simp: fun_eq_iff lookup_insert)

lemma insert_overwrite: "lookup (insert (insert s k v) k w) = lookup (insert s k w)"
  by (simp add: fun_eq_iff lookup_insert)

lemma lookup_insert_all:
  "lookup (fold (\<lambda>(k, v) s. insert s k v) kvs s) = lookup s ++ map_of (rev kvs)"
  by (induction kvs arbitrary: s)
     (auto simp: fun_eq_iff lookup_insert map_add_def split: option.splits)

lemma lookup_insert_each:
  "lookup (fold (\<lambda>k s. insert s k v) ks s) k' = (if k' \<in> set ks then Some v else lookup s k')"
  by (induction ks arbitrary: s) (auto simp: lookup_insert)

end

section \<open>Transactions\<close>

datatype tx_call = Start | Commit | Abort

definition tx_call_step ::
  "('t \<Rightarrow> 'e + 't) \<Rightarrow> ('t \<Rightarrow> 'e + 't) \<Rightarrow> ('t \<Rightarrow> 'e + 't) \<Rightarrow> 't \<Rightarrow> tx_call \<Rightarrow> 'e + 't" where
  "tx_call_step start commit abort t c =
     (case c of Start \<Rightarrow> start t | Commit \<Rightarrow> commit t | Abort \<Rightarrow> abort t)"

text \<open>A protocol of calls that opens and closes a transaction in turn, from a state that is
  open or not, ending open or not.\<close>

fun well_bracketed :: "bool \<Rightarrow> tx_call list \<Rightarrow> bool \<Rightarrow> bool" where
  "well_bracketed b [] b' = (b = b')"
| "well_bracketed b (Start # cs) b' = (\<not> b \<and> well_bracketed True cs b')"
| "well_bracketed b (Commit # cs) b' = (b \<and> well_bracketed False cs b')"
| "well_bracketed b (Abort # cs) b' = (b \<and> well_bracketed False cs b')"

locale tx_protocol =
  fixes isStarted :: "'t \<Rightarrow> bool"
    and start :: "'t \<Rightarrow> 'e + 't"
    and commit :: "'t \<Rightarrow> 'e + 't"
    and abort :: "'t \<Rightarrow> 'e + 't"
    and alreadyStarted :: "'e"
    and notStarted :: "'e"
  assumes start_twice: "isStarted t \<Longrightarrow> start t = Inl alreadyStarted"
    and start_opens: "start t = Inr t' \<Longrightarrow> isStarted t'"
    and commit_closed: "\<not> isStarted t \<Longrightarrow> commit t = Inl notStarted"
    and commit_closes: "commit t = Inr t' \<Longrightarrow> \<not> isStarted t'"
    and abort_closed: "\<not> isStarted t \<Longrightarrow> abort t = Inl notStarted"
    and abort_closes: "abort t = Inr t' \<Longrightarrow> \<not> isStarted t'"
begin

lemma start_needs_closed: "start t = Inr t' \<Longrightarrow> \<not> isStarted t"
  using start_twice by fastforce

lemma commit_needs_open: "commit t = Inr t' \<Longrightarrow> isStarted t"
  using commit_closed by fastforce

lemma abort_needs_open: "abort t = Inr t' \<Longrightarrow> isStarted t"
  using abort_closed by fastforce

text \<open>A sequence of calls that all succeed opens and closes the transaction in turn.\<close>

lemma successful_calls_bracketed:
  "rfold (tx_call_step start commit abort) t cs = Inr t' \<Longrightarrow>
   well_bracketed (isStarted t) cs (isStarted t')"
proof (induction cs arbitrary: t)
  case Nil
  then show ?case by simp
next
  case (Cons c cs)
  then obtain u where u: "tx_call_step start commit abort t c = Inr u"
    and rest: "rfold (tx_call_step start commit abort) u cs = Inr t'"
    by (auto simp: result_simps)
  have "well_bracketed (isStarted u) cs (isStarted t')"
    by (rule Cons.IH [OF rest])
  then show ?case
    using u
    by (cases c)
       (auto simp: tx_call_step_def
         dest: start_opens start_needs_closed commit_closes commit_needs_open
           abort_closes abort_needs_open)
qed

end

end
