(* ===== verification/MerkDb.thy ===== *)
theory MerkDb
  imports DriveErrors Interfaces
begin

text \<open>
  The authenticated key-value store of js-drive: \<open>lib/merkDb/MerkDbInMemoryDecorator.js\<close>,
  \<open>MerkDbTransaction.js\<close> and \<open>MerkDbStore.js\<close>.

  The merk database itself is the package \<open>@dashevo/merk\<close>, which is not part of the
  repository: it is the parameter \<open>M\<close>, a record of the calls the code makes on it. The code
  encodes keys in hexadecimal to use them as \<open>Map\<close> keys; the encoding is injective and is
  undone before a key reaches the database, so the model keeps the buffers as keys.
\<close>

section \<open>The merk database, a parameter\<close>

datatype merk_op = MPut buffer buffer | MDel buffer

fun op_key :: "merk_op \<Rightarrow> buffer" where
  "op_key (MPut k _) = k"
| "op_key (MDel k) = k"

record 'db merk =
  m_getSync :: "'db \<Rightarrow> buffer \<Rightarrow> string + buffer"
  m_commitSync :: "'db \<Rightarrow> merk_op list \<Rightarrow> string + 'db"
  m_rootHash :: "'db \<Rightarrow> buffer"
  m_proveSync :: "'db \<Rightarrow> buffer list \<Rightarrow> string + buffer"

definition merk_lookup :: "'db merk \<Rightarrow> 'db \<Rightarrow> buffer \<Rightarrow> buffer option" where
  "merk_lookup M db k = (case m_getSync M db k of Inl _ \<Rightarrow> None | Inr v \<Rightarrow> Some v)"

fun apply_op :: "(buffer \<Rightarrow> buffer option) \<Rightarrow> merk_op \<Rightarrow> (buffer \<Rightarrow> buffer option)" where
  "apply_op f (MPut k v) = f(k \<mapsto> v)"
| "apply_op f (MDel k) = f(k := None)"

text \<open>
  What the code relies on: reading an absent key throws \<open>key not found\<close>, and a batch of
  operations with pairwise different keys that commits takes effect.
\<close>

definition merk_documented :: "'db merk \<Rightarrow> bool" where
  "merk_documented M \<longleftrightarrow>
     (\<forall>db k e. m_getSync M db k = Inl e \<longrightarrow> prefix ''key not found'' e) \<and>
     (\<forall>db ops db'. distinct (map op_key ops) \<longrightarrow> m_commitSync M db ops = Inr db' \<longrightarrow>
        merk_lookup M db' = foldl apply_op (merk_lookup M db) ops)"

section \<open>MerkDbInMemoryDecorator\<close>

record decorator =
  dec_data :: "(buffer \<times> buffer) list"
  dec_deleted :: "(buffer \<times> buffer) list"

definition new_decorator :: decorator where
  "new_decorator = \<lparr>dec_data = [], dec_deleted = []\<rparr>"

definition decorator_getSync ::
  "(buffer \<Rightarrow> string + buffer) \<Rightarrow> decorator \<Rightarrow> buffer \<Rightarrow> string + buffer" where
  "decorator_getSync dbGet d k =
     (if map_of (dec_deleted d) k \<noteq> None then Inl ''key not found''
      else case map_of (dec_data d) k of
             Some v \<Rightarrow> Inr v
           | None \<Rightarrow> dbGet k)"

definition decorator_put :: "decorator \<Rightarrow> buffer \<Rightarrow> buffer \<Rightarrow> decorator" where
  "decorator_put d k v =
     d\<lparr>dec_deleted := AList.delete k (dec_deleted d), dec_data := AList.update k v (dec_data d)\<rparr>"

definition decorator_delete ::
  "(buffer \<Rightarrow> string + buffer) \<Rightarrow> decorator \<Rightarrow> buffer \<Rightarrow> string + decorator" where
  "decorator_delete dbGet d k =
     (case dbGet k of
        Inr v \<Rightarrow> Inr (d\<lparr>dec_data := AList.delete k (dec_data d),
                       dec_deleted := AList.update k v (dec_deleted d)\<rparr>)
      | Inl msg \<Rightarrow> if \<not> prefix ''key not found'' msg then Inl msg else Inr d)"

definition decorator_reset :: "decorator \<Rightarrow> decorator" where
  "decorator_reset d = d\<lparr>dec_data := [], dec_deleted := []\<rparr>"

text \<open>The batch \<open>persist\<close> builds: the sorted writes, then the sorted deletions.\<close>

definition persist_batch :: "decorator \<Rightarrow> merk_op list" where
  "persist_batch d =
     map (\<lambda>(k, v). MPut k v) (sort_key fst (dec_data d))
     @ map MDel (sort (keys (dec_deleted d)))"

definition decorator_persist ::
  "'db merk \<Rightarrow> 'db \<Rightarrow> decorator \<Rightarrow> string + 'db \<times> decorator" where
  "decorator_persist M db d =
     (if dec_data d = [] \<and> dec_deleted d = [] then Inr (db, d)
      else case m_commitSync M db (persist_batch d) of
             Inl msg \<Rightarrow> Inl msg
           | Inr db' \<Rightarrow> Inr (db', decorator_reset d))"

section \<open>MerkDbTransaction\<close>

text \<open>
  The transaction's fields are \<open>merkDB\<close> and \<open>db\<close>; in the second, \<open>None\<close> is \<open>null\<close>: the
  transaction is not started.
\<close>

type_synonym merk_tx = "decorator option"

definition MerkDbTransaction_isStarted :: "'db \<times> merk_tx \<Rightarrow> bool" where
  "MerkDbTransaction_isStarted s \<longleftrightarrow> snd s \<noteq> None"

definition MerkDbTransaction_start :: "'db \<times> merk_tx \<Rightarrow> drive_error + 'db \<times> merk_tx" where
  "MerkDbTransaction_start s =
     (case s of
        (db, Some _) \<Rightarrow> Inl MerkDBTransactionIsAlreadyStartedError
      | (db, None) \<Rightarrow> Inr (db, Some new_decorator))"

definition MerkDbTransaction_commit ::
  "'db merk \<Rightarrow> 'db \<times> merk_tx \<Rightarrow> drive_error + 'db \<times> merk_tx" where
  "MerkDbTransaction_commit M s =
     (case s of
        (db, None) \<Rightarrow> Inl MerkDBTransactionIsNotStartedError
      | (db, Some d) \<Rightarrow>
          (case decorator_persist M db d of
             Inl msg \<Rightarrow> Inl (Error msg)
           | Inr (db', _) \<Rightarrow> Inr (db', None)))"

definition MerkDbTransaction_abort :: "'db \<times> merk_tx \<Rightarrow> drive_error + 'db \<times> merk_tx" where
  "MerkDbTransaction_abort s =
     (case s of
        (db, None) \<Rightarrow> Inl MerkDBTransactionIsNotStartedError
      | (db, Some _) \<Rightarrow> Inr (db, None))"

record merk_tx_object =
  tx_updates :: "(buffer \<times> buffer) list"
  tx_deletes :: "(buffer \<times> buffer) list"

definition MerkDbTransaction_toObject :: "'db \<times> merk_tx \<Rightarrow> drive_error + merk_tx_object" where
  "MerkDbTransaction_toObject s =
     (case snd s of
        None \<Rightarrow> Inl MerkDBTransactionIsNotStartedError
      | Some d \<Rightarrow> Inr \<lparr>tx_updates = set_all (dec_data d) [],
                      tx_deletes = set_all (dec_deleted d) []\<rparr>)"

definition MerkDbTransaction_populateFromObject ::
  "'db \<times> merk_tx \<Rightarrow> merk_tx_object \<Rightarrow> drive_error + 'db \<times> merk_tx" where
  "MerkDbTransaction_populateFromObject s obj =
     (case s of
        (db, None) \<Rightarrow> Inl MerkDBTransactionIsNotStartedError
      | (db, Some d) \<Rightarrow> Inr (db, Some (d\<lparr>dec_data := set_all (tx_updates obj) (dec_data d),
                              dec_deleted := set_all (tx_deletes obj) (dec_deleted d)\<rparr>)))"

section \<open>MerkDbStore\<close>

text \<open>
  The store's state is the database; the optional \<open>transaction\<close> argument is \<open>None\<close> when the
  caller passes none. A call on a transaction that was not started reads a property of
  \<open>null\<close>.
\<close>

definition MerkDbStore_put ::
  "'db merk \<Rightarrow> buffer \<Rightarrow> buffer \<Rightarrow> 'db \<times> merk_tx option \<Rightarrow> drive_error + 'db \<times> merk_tx option" where
  "MerkDbStore_put M k v s =
     (case s of
        (db, Some None) \<Rightarrow> Inl TypeError
      | (db, Some (Some d)) \<Rightarrow> Inr (db, Some (Some (decorator_put d k v)))
      | (db, None) \<Rightarrow>
          (case m_commitSync M db [MPut k v] of
             Inl msg \<Rightarrow> Inl (Error msg)
           | Inr db' \<Rightarrow> Inr (db', None)))"

definition absent_message :: "string \<Rightarrow> bool" where
  "absent_message msg \<longleftrightarrow> sublist ''no value found for key'' msg \<or> sublist ''key not found'' msg"

definition MerkDbStore_get ::
  "'db merk \<Rightarrow> 'db \<Rightarrow> buffer \<Rightarrow> merk_tx option \<Rightarrow> drive_error + buffer option" where
  "MerkDbStore_get M db k transaction =
     (let r = (case transaction of
                 None \<Rightarrow> Inr (m_getSync M db k)
               | Some (Some d) \<Rightarrow> Inr (decorator_getSync (m_getSync M db) d k)
               | Some None \<Rightarrow> Inl TypeError)
      in case r of
           Inl e \<Rightarrow> Inl e
         | Inr (Inr v) \<Rightarrow> Inr (Some v)
         | Inr (Inl msg) \<Rightarrow> if absent_message msg then Inr None else Inl (Error msg))"

definition MerkDbStore_delete ::
  "'db merk \<Rightarrow> buffer \<Rightarrow> 'db \<times> merk_tx option \<Rightarrow> drive_error + 'db \<times> merk_tx option" where
  "MerkDbStore_delete M k s =
     (case s of
        (db, Some None) \<Rightarrow> Inl TypeError
      | (db, Some (Some d)) \<Rightarrow>
          (case decorator_delete (m_getSync M db) d k of
             Inl msg \<Rightarrow> Inl (Error msg)
           | Inr d' \<Rightarrow> Inr (db, Some (Some d')))
      | (db, None) \<Rightarrow>
          (case m_commitSync M db [MDel k] of
             Inl msg \<Rightarrow> Inl (Error msg)
           | Inr db' \<Rightarrow> Inr (db', None)))"

definition MerkDbStore_getRootHash :: "'db merk \<Rightarrow> 'db \<Rightarrow> buffer" where
  "MerkDbStore_getRootHash M db = m_rootHash M db"

definition MerkDbStore_createTransaction :: merk_tx where
  "MerkDbStore_createTransaction = None"

definition MerkDbStore_getProof :: "'db merk \<Rightarrow> 'db \<Rightarrow> buffer list \<Rightarrow> drive_error + buffer" where
  "MerkDbStore_getProof M db ks =
     (case m_proveSync M db (sort ks) of Inl msg \<Rightarrow> Inl (Error msg) | Inr p \<Rightarrow> Inr p)"

section \<open>The decorator as a map\<close>

text \<open>
  \<open>decorator_view\<close> is what a reader of the transaction sees. The invariant: no key is
  recorded twice, and no key is both written and deleted.
\<close>

definition decorator_view :: "(buffer \<Rightarrow> string + buffer) \<Rightarrow> decorator \<Rightarrow> buffer \<Rightarrow> buffer option" where
  "decorator_view dbGet d k =
     (case decorator_getSync dbGet d k of Inl _ \<Rightarrow> None | Inr v \<Rightarrow> Some v)"

definition decorator_wf :: "decorator \<Rightarrow> bool" where
  "decorator_wf d \<longleftrightarrow> distinct (keys (dec_data d)) \<and> distinct (keys (dec_deleted d)) \<and>
     set (keys (dec_data d)) \<inter> set (keys (dec_deleted d)) = {}"

lemma decorator_wf_new [simp]: "decorator_wf new_decorator"
  by (simp add: decorator_wf_def new_decorator_def)

lemma decorator_wf_reset [simp]: "decorator_wf (decorator_reset d)"
  by (simp add: decorator_wf_def decorator_reset_def)

lemma decorator_wf_put: "decorator_wf d \<Longrightarrow> decorator_wf (decorator_put d k v)"
  by (auto simp: decorator_wf_def decorator_put_def simp del: set_map)

lemma decorator_wf_delete:
  "decorator_wf d \<Longrightarrow> decorator_delete g d k = Inr d' \<Longrightarrow> decorator_wf d'"
  by (auto simp: decorator_wf_def decorator_delete_def simp del: set_map
      split: sum.splits if_splits)

lemma decorator_view_new: "decorator_view g new_decorator k = (case g k of Inl _ \<Rightarrow> None | Inr v \<Rightarrow> Some v)"
  by (simp add: decorator_view_def decorator_getSync_def new_decorator_def)

lemma decorator_view_put [store_simps]:
  "decorator_view g (decorator_put d k v) k' = (if k' = k then Some v else decorator_view g d k')"
  by (simp add: decorator_view_def decorator_getSync_def decorator_put_def store_simps)

text \<open>Deleting a key of the underlying database hides it.\<close>

lemma decorator_view_delete_present:
  "g k = Inr v \<Longrightarrow> decorator_delete g d k = Inr d' \<Longrightarrow>
   decorator_view g d' k' = (if k' = k then None else decorator_view g d k')"
  by (auto simp: decorator_delete_def decorator_view_def decorator_getSync_def store_simps)

text \<open>Deleting a key the underlying database does not have does nothing.\<close>

lemma decorator_delete_absent:
  "g k = Inl msg \<Longrightarrow> prefix ''key not found'' msg \<Longrightarrow> decorator_delete g d k = Inr d"
  by (simp add: decorator_delete_def)

lemma decorator_view_map:
  "decorator_view (m_getSync M db) d k =
    (if k \<in> set (keys (dec_deleted d)) then None
     else case map_of (dec_data d) k of Some v \<Rightarrow> Some v | None \<Rightarrow> merk_lookup M db k)"
  unfolding decorator_view_def decorator_getSync_def merk_lookup_def map_of_None_keys
  by (simp split: option.split sum.split)

section \<open>What a commit writes\<close>

lemma foldl_apply_puts:
  "foldl apply_op f (map (\<lambda>(k, v). MPut k v) kvs) = f ++ map_of (rev kvs)"
  by (induction kvs arbitrary: f) (auto simp: map_add_def fun_eq_iff split: option.splits)

lemma foldl_apply_dels:
  "foldl apply_op f (map MDel ks) = (\<lambda>k. if k \<in> set ks then None else f k)"
  by (induction ks arbitrary: f) (auto simp: fun_eq_iff)

lemma op_keys_persist_batch:
  "map op_key (persist_batch d) = keys (sort_key fst (dec_data d)) @ sort (keys (dec_deleted d))"
  by (simp add: persist_batch_def comp_def case_prod_unfold)

lemma distinct_persist_batch: "decorator_wf d \<Longrightarrow> distinct (map op_key (persist_batch d))"
  unfolding op_keys_persist_batch
  by (auto simp: decorator_wf_def distinct_map)

lemma foldl_persist_batch:
  assumes "decorator_wf d"
  shows "foldl apply_op f (persist_batch d) k =
    (if k \<in> set (keys (dec_deleted d)) then None
     else case map_of (dec_data d) k of Some v \<Rightarrow> Some v | None \<Rightarrow> f k)"
proof -
  have "distinct (keys (sort_key fst (dec_data d)))"
    using assms by (auto simp: decorator_wf_def distinct_map)
  then have "map_of (rev (sort_key fst (dec_data d))) = map_of (dec_data d)"
    using assms by (simp add: map_of_rev_distinct map_of_sort_key_fst decorator_wf_def)
  then show ?thesis
    by (simp add: persist_batch_def foldl_apply_puts foldl_apply_dels map_add_def
        split: option.splits)
qed

lemma decorator_persist_view:
  assumes "merk_documented M" and "decorator_wf d" and "decorator_persist M db d = Inr (db', d')"
  shows "merk_lookup M db' = decorator_view (m_getSync M db) d"
proof (cases "dec_data d = [] \<and> dec_deleted d = []")
  case True
  with assms show ?thesis
    by (auto simp: decorator_persist_def fun_eq_iff decorator_view_map)
next
  case False
  with assms(3) have "m_commitSync M db (persist_batch d) = Inr db'"
    by (auto simp: decorator_persist_def split: sum.splits)
  with assms(1) distinct_persist_batch [OF assms(2)]
  have "merk_lookup M db' = foldl apply_op (merk_lookup M db) (persist_batch d)"
    by (auto simp: merk_documented_def)
  then show ?thesis
    using assms(2) by (simp add: fun_eq_iff foldl_persist_batch decorator_view_map)
qed

section \<open>The interfaces\<close>

interpretation merk_view: kv_store "decorator_view g" decorator_put for g
  by unfold_locales (simp add: store_simps)

lemmas merk_tx_defs =
  MerkDbTransaction_isStarted_def MerkDbTransaction_start_def MerkDbTransaction_commit_def
  MerkDbTransaction_abort_def

interpretation merk_transaction: tx_protocol MerkDbTransaction_isStarted MerkDbTransaction_start
  "MerkDbTransaction_commit M" MerkDbTransaction_abort
  MerkDBTransactionIsAlreadyStartedError MerkDBTransactionIsNotStartedError for M
  by unfold_locales (auto simp: merk_tx_defs split: option.splits sum.splits prod.splits)

section \<open>Properties\<close>

text \<open>A merk database that keeps a map, for the witnesses: it has the documented behaviour.\<close>

definition map_merk :: "(buffer \<Rightarrow> buffer option) merk" where
  "map_merk = \<lparr>
     m_getSync = (\<lambda>db k. case db k of None \<Rightarrow> Inl ''key not found'' | Some v \<Rightarrow> Inr v),
     m_commitSync = (\<lambda>db ops. Inr (foldl apply_op db ops)),
     m_rootHash = (\<lambda>db. []),
     m_proveSync = (\<lambda>db ks. Inr [])\<rparr>"

lemma map_merk_lookup [simp]: "merk_lookup map_merk = (\<lambda>db. db)"
  by (auto simp: merk_lookup_def map_merk_def fun_eq_iff split: option.splits)

lemma map_merk_documented: "merk_documented map_merk"
  by (auto simp: merk_documented_def) (auto simp: map_merk_def split: option.splits)

lemma absent_message_prefix: "prefix ''key not found'' msg \<Longrightarrow> absent_message msg"
  by (simp add: absent_message_def prefix_imp_sublist)

lemma MerkDbStore_get_direct:
  "merk_documented M \<Longrightarrow> MerkDbStore_get M db k None = Inr (merk_lookup M db k)"
  by (auto simp: MerkDbStore_get_def merk_lookup_def merk_documented_def absent_message_prefix
      split: sum.splits)

lemma MerkDbStore_get_in_tx:
  assumes "merk_documented M"
  shows "MerkDbStore_get M db k (Some (Some d)) = Inr (decorator_view (m_getSync M db) d k)"
proof (cases "decorator_getSync (m_getSync M db) d k")
  case (Inl msg)
  then have "prefix ''key not found'' msg"
    using assms by (auto simp: decorator_getSync_def merk_documented_def split: if_splits option.splits)
  with Inl show ?thesis
    by (simp add: MerkDbStore_get_def decorator_view_def absent_message_prefix)
next
  case (Inr v)
  then show ?thesis by (simp add: MerkDbStore_get_def decorator_view_def)
qed

text \<open>
  C34. Committing a merk transaction publishes exactly what its readers saw: after a successful
  commit the transaction is closed and reading any key without a transaction returns what
  reading it in the transaction returned before.
\<close>

theorem merk_commit_publishes_view:
  assumes "merk_documented M" and "decorator_wf d"
    and "MerkDbTransaction_commit M (db, Some d) = Inr (db', t')"
  shows "t' = None \<and>
    MerkDbStore_get M db' k None = MerkDbStore_get M db k (Some (Some d))"
proof -
  from assms(3) obtain d' where "decorator_persist M db d = Inr (db', d')" and t': "t' = None"
    by (auto simp: MerkDbTransaction_commit_def split: sum.splits)
  then have "merk_lookup M db' = decorator_view (m_getSync M db) d"
    using decorator_persist_view [OF assms(1,2)] by blast
  with t' show ?thesis
    by (simp add: MerkDbStore_get_direct [OF assms(1)] MerkDbStore_get_in_tx [OF assms(1)])
qed

theorem merk_commit_publishes_view_witness:
  "\<exists>db'. MerkDbTransaction_commit map_merk
       ([[1] \<mapsto> [10], [2] \<mapsto> [20]], Some \<lparr>dec_data = [([3], [30])], dec_deleted = [([1], [10])]\<rparr>)
     = Inr (db', None) \<and>
     MerkDbStore_get map_merk db' [3] None = Inr (Some [30]) \<and>
     MerkDbStore_get map_merk db' [1] None = Inr None"
proof -
  let ?db = "[[1] \<mapsto> [10], [2] \<mapsto> [20]] :: buffer \<Rightarrow> buffer option"
  let ?d = "\<lparr>dec_data = [([3], [30])], dec_deleted = [([1], [10])]\<rparr>"
  have wf: "decorator_wf ?d" by (simp add: decorator_wf_def)
  obtain db' where c: "MerkDbTransaction_commit map_merk (?db, Some ?d) = Inr (db', None)"
    by (simp add: MerkDbTransaction_commit_def decorator_persist_def map_merk_def)
  note pub = merk_commit_publishes_view [OF map_merk_documented wf c]
  show ?thesis
    using c pub [of "[3]"] pub [of "[1]"]
    by (auto simp: MerkDbStore_get_in_tx [OF map_merk_documented] decorator_view_map)
qed

text \<open>
  A deletion of a key that the same transaction wrote and the database does not hold is
  lost: the key stays readable in the transaction, and the commit stores it.
\<close>

theorem delete_of_new_key_is_lost:
  assumes "merk_documented M" and "merk_lookup M db k = None"
  shows "MerkDbStore_delete M k (db, Some (Some (decorator_put d k v))) =
           Inr (db, Some (Some (decorator_put d k v))) \<and>
         MerkDbStore_get M db k (Some (Some (decorator_put d k v))) = Inr (Some v)"
proof -
  from assms(2) obtain msg where msg: "m_getSync M db k = Inl msg"
    by (auto simp: merk_lookup_def split: sum.splits)
  then have "prefix ''key not found'' msg"
    using assms(1) by (auto simp: merk_documented_def)
  then show ?thesis
    using msg by (simp add: MerkDbStore_delete_def decorator_delete_absent
        MerkDbStore_get_in_tx [OF assms(1)] merk_view.lookup_insert_same)
qed

theorem delete_of_new_key_is_lost_witness:
  "MerkDbStore_delete map_merk [7] (Map.empty, Some (Some (decorator_put new_decorator [7] [1]))) =
     Inr (Map.empty, Some (Some (decorator_put new_decorator [7] [1])))"
  using delete_of_new_key_is_lost [OF map_merk_documented, of Map.empty "[7]" new_decorator "[1]"]
  by simp

text \<open>
  The snapshot of a transaction restores it: populating a freshly started transaction from
  \<open>toObject\<close> of another gives the same pending writes and deletions.
\<close>

theorem merk_tx_object_roundtrip:
  assumes "decorator_wf d"
  shows "rbind (MerkDbTransaction_toObject (db, Some d))
           (\<lambda>obj. rbind (MerkDbTransaction_start (db', None))
             (\<lambda>t. MerkDbTransaction_populateFromObject t obj)) = Inr (db', Some d)"
  using assms
  by (simp add: MerkDbTransaction_toObject_def MerkDbTransaction_start_def new_decorator_def
      MerkDbTransaction_populateFromObject_def decorator_wf_def set_all_fresh)

theorem merk_tx_object_roundtrip_witness:
  "rbind (MerkDbTransaction_toObject (0::nat, Some (decorator_put new_decorator [1] [2])))
     (\<lambda>obj. rbind (MerkDbTransaction_start (1, None))
       (\<lambda>t. MerkDbTransaction_populateFromObject t obj))
   = Inr (1::nat, Some (decorator_put new_decorator [1] [2]))"
  by (rule merk_tx_object_roundtrip) (simp add: decorator_wf_put)

end
