(* ===== verification/StoreTransactions.thy ===== *)
theory StoreTransactions
  imports MerkDb
begin

text \<open>
  The transactions a block is executed in: \<open>lib/mongoDb/MongoDBTransaction.js\<close>,
  \<open>lib/document/DocumentsIndexedTransaction.js\<close>,
  \<open>lib/blockExecution/BlockExecutionStoreTransactions.js\<close>,
  \<open>cloneToPreviousStoreTransactionsFactory.js\<close> and
  \<open>PreviousBlockExecutionStoreTransactionsRepository.js\<close>.

  An operation that fails half way leaves its effects behind, so these operations return the
  error, if any, together with the state they leave: \<open>(None, s)\<close> when the promise resolves,
  \<open>(Some e, s)\<close> when it rejects with \<open>e\<close>.
\<close>

type_synonym ('e, 's) outcome = "'e option \<times> 's"

definition settle :: "('s \<Rightarrow> 'e + 's) \<Rightarrow> 's \<Rightarrow> ('e, 's) outcome" where
  "settle f s = (case f s of Inl e \<Rightarrow> (Some e, s) | Inr s' \<Rightarrow> (None, s'))"

lemma settle_None: "settle f s = (None, s') \<longleftrightarrow> f s = Inr s'"
  by (auto simp: settle_def split: sum.splits)

lemma settle_Some: "settle f s = (Some e, s') \<longleftrightarrow> f s = Inl e \<and> s' = s"
  by (auto simp: settle_def split: sum.splits)

section \<open>MongoDBTransaction\<close>

text \<open>
  The mongo client and its session are third-party code with a state \<open>'m\<close>: a parameter
  \<open>G\<close>. A failed \<open>commitTransaction\<close> carries the labels of the error.
\<close>

datatype mongo_reply = MongoOk | MongoFailed "string list" drive_error

record 'm mongo =
  mg_connect :: "'m \<Rightarrow> (drive_error, 'm) outcome"
  mg_hasEnded :: "'m \<Rightarrow> bool"
  mg_startSession :: "'m \<Rightarrow> 'm"
  mg_startTransaction :: "'m \<Rightarrow> (drive_error, 'm) outcome"
  mg_commitTransaction :: "'m \<Rightarrow> mongo_reply \<times> 'm"
  mg_abortTransaction :: "'m \<Rightarrow> (drive_error, 'm) outcome"

record 'm mongo_tx =
  mt_world :: "'m"
  mt_hasSession :: bool
  mt_isTransactionStarted :: bool

definition MongoDBTransaction_start :: "'m mongo \<Rightarrow> 'm mongo_tx \<Rightarrow> (drive_error, 'm mongo_tx) outcome" where
  "MongoDBTransaction_start G t =
     (if mt_isTransactionStarted t then (Some MongoTransactionIsAlreadyStartedError, t)
      else case mg_connect G (mt_world t) of
             (Some e, w) \<Rightarrow> (Some e, t\<lparr>mt_world := w\<rparr>)
           | (None, w) \<Rightarrow>
               let w' = (if \<not> mt_hasSession t \<or> mg_hasEnded G w then mg_startSession G w else w);
                   t' = t\<lparr>mt_hasSession := True\<rparr>
               in case mg_startTransaction G w' of
                    (Some e, w'') \<Rightarrow> (Some e, t'\<lparr>mt_world := w''\<rparr>)
                  | (None, w'') \<Rightarrow> (None, t'\<lparr>mt_world := w'', mt_isTransactionStarted := True\<rparr>))"

text \<open>\<open>commit\<close> retries as long as mongo answers that the result of the commit is unknown; it
  may never return, hence the option.\<close>

partial_function (option) MongoDBTransaction_commit ::
  "'m mongo \<Rightarrow> 'm mongo_tx \<Rightarrow> (drive_error, 'm mongo_tx) outcome option" where
  "MongoDBTransaction_commit G t =
     (if \<not> mt_isTransactionStarted t then Some (Some MongoTransactionIsNotStartedError, t)
      else case mg_commitTransaction G (mt_world t) of
             (MongoOk, w) \<Rightarrow> Some (None, t\<lparr>mt_world := w, mt_isTransactionStarted := False\<rparr>)
           | (MongoFailed labels e, w) \<Rightarrow>
               (if ''UnknownTransactionCommitResult'' \<in> set labels
                then MongoDBTransaction_commit G (t\<lparr>mt_world := w\<rparr>)
                else Some (Some e, t\<lparr>mt_world := w\<rparr>)))"

definition MongoDBTransaction_abort :: "'m mongo \<Rightarrow> 'm mongo_tx \<Rightarrow> (drive_error, 'm mongo_tx) outcome" where
  "MongoDBTransaction_abort G t =
     (if \<not> mt_isTransactionStarted t then (Some MongoTransactionIsNotStartedError, t)
      else case mg_abortTransaction G (mt_world t) of
             (Some e, w) \<Rightarrow> (Some e, t\<lparr>mt_world := w\<rparr>)
           | (None, w) \<Rightarrow> (None, t\<lparr>mt_world := w, mt_isTransactionStarted := False\<rparr>))"

text \<open>\<open>runWithTransaction\<close> retries the function on a transient transaction error.\<close>

datatype 'a mongo_result = MongoReturned 'a | MongoThrew "string list" drive_error

partial_function (option) MongoDBTransaction_runWithTransaction ::
  "('m \<Rightarrow> 'a mongo_result \<times> 'm) \<Rightarrow> 'm mongo_tx \<Rightarrow> ((drive_error + 'a) \<times> 'm mongo_tx) option" where
  "MongoDBTransaction_runWithTransaction f t =
     (if \<not> mt_isTransactionStarted t then Some (Inl MongoTransactionIsNotStartedError, t)
      else case f (mt_world t) of
             (MongoReturned a, w) \<Rightarrow> Some (Inr a, t\<lparr>mt_world := w\<rparr>)
           | (MongoThrew labels e, w) \<Rightarrow>
               (if ''TransientTransactionError'' \<in> set labels
                then MongoDBTransaction_runWithTransaction f (t\<lparr>mt_world := w\<rparr>)
                else Some (Inl e, t\<lparr>mt_world := w\<rparr>)))"

section \<open>DocumentsIndexedTransaction\<close>

text \<open>
  The document store's transaction and the mongo transaction, which is injected: the calls on
  it are the record \<open>T\<close>.
\<close>

record 'm mongo_tx_calls =
  mtx_start :: "'m \<Rightarrow> (drive_error, 'm) outcome"
  mtx_commit :: "'m \<Rightarrow> (drive_error, 'm) outcome"
  mtx_abort :: "'m \<Rightarrow> (drive_error, 'm) outcome"

record ('db, 'm) documents_tx =
  dt_storeTransaction :: "'db \<times> merk_tx"
  dt_mongoDbTransaction :: "'m"
  dt_transactionIsStarted :: bool

definition DocumentsIndexedTransaction_start ::
  "'m mongo_tx_calls \<Rightarrow> ('db, 'm) documents_tx \<Rightarrow> (drive_error, ('db, 'm) documents_tx) outcome" where
  "DocumentsIndexedTransaction_start T t =
     (if dt_transactionIsStarted t then (Some DocumentsDBTransactionIsAlreadyStartedError, t)
      else case MerkDbTransaction_start (dt_storeTransaction t) of
             Inl e \<Rightarrow> (Some e, t)
           | Inr st \<Rightarrow>
               let t' = t\<lparr>dt_storeTransaction := st\<rparr>
               in case mtx_start T (dt_mongoDbTransaction t) of
                    (Some e, m) \<Rightarrow> (Some e, t'\<lparr>dt_mongoDbTransaction := m\<rparr>)
                  | (None, m) \<Rightarrow>
                      (None, t'\<lparr>dt_mongoDbTransaction := m, dt_transactionIsStarted := True\<rparr>))"

definition DocumentsIndexedTransaction_commit ::
  "'db merk \<Rightarrow> 'm mongo_tx_calls \<Rightarrow> ('db, 'm) documents_tx \<Rightarrow> (drive_error, ('db, 'm) documents_tx) outcome" where
  "DocumentsIndexedTransaction_commit M T t =
     (if \<not> dt_transactionIsStarted t then (Some DocumentsDBTransactionIsNotStartedError, t)
      else case mtx_commit T (dt_mongoDbTransaction t) of
             (Some e, m) \<Rightarrow> (Some e, t\<lparr>dt_mongoDbTransaction := m\<rparr>)
           | (None, m) \<Rightarrow>
               let t' = t\<lparr>dt_mongoDbTransaction := m\<rparr>
               in case MerkDbTransaction_commit M (dt_storeTransaction t) of
                    Inl e \<Rightarrow> (Some e, t')
                  | Inr st \<Rightarrow>
                      (None, t'\<lparr>dt_storeTransaction := st, dt_transactionIsStarted := False\<rparr>))"

definition DocumentsIndexedTransaction_abort ::
  "'m mongo_tx_calls \<Rightarrow> ('db, 'm) documents_tx \<Rightarrow> (drive_error, ('db, 'm) documents_tx) outcome" where
  "DocumentsIndexedTransaction_abort T t =
     (if \<not> dt_transactionIsStarted t then (Some DocumentsDBTransactionIsNotStartedError, t)
      else case mtx_abort T (dt_mongoDbTransaction t) of
             (Some e, m) \<Rightarrow> (Some e, t\<lparr>dt_mongoDbTransaction := m\<rparr>)
           | (None, m) \<Rightarrow>
               let t' = t\<lparr>dt_mongoDbTransaction := m\<rparr>
               in case MerkDbTransaction_abort (dt_storeTransaction t) of
                    Inl e \<Rightarrow> (Some e, t')
                  | Inr st \<Rightarrow>
                      (None, t'\<lparr>dt_storeTransaction := st, dt_transactionIsStarted := False\<rparr>))"

definition DocumentsIndexedTransaction_toObject ::
  "('db, 'm) documents_tx \<Rightarrow> drive_error + merk_tx_object" where
  "DocumentsIndexedTransaction_toObject t = MerkDbTransaction_toObject (dt_storeTransaction t)"

definition DocumentsIndexedTransaction_populateFromObject ::
  "('db, 'm) documents_tx \<Rightarrow> merk_tx_object \<Rightarrow> drive_error + ('db, 'm) documents_tx" where
  "DocumentsIndexedTransaction_populateFromObject t obj =
     (if \<not> dt_transactionIsStarted t then Inl DocumentsDBTransactionIsNotStartedError
      else case MerkDbTransaction_populateFromObject (dt_storeTransaction t) obj of
             Inl e \<Rightarrow> Inl e
           | Inr st \<Rightarrow> Inr (t\<lparr>dt_storeTransaction := st\<rparr>))"

section \<open>BlockExecutionStoreTransactions\<close>

text \<open>
  The object \<open>transactions\<close> maps six names to transactions: five of merk stores and the one
  of the documents. Its methods call the method of the same name on each of them.
\<close>

datatype ('db, 'm) block_tx =
    StoreTx "'db \<times> merk_tx"
  | DocumentsTx "('db, 'm) documents_tx"

fun block_tx_start :: "'m mongo_tx_calls \<Rightarrow> ('db, 'm) block_tx \<Rightarrow> (drive_error, ('db, 'm) block_tx) outcome" where
  "block_tx_start T (StoreTx t) = map_prod id StoreTx (settle MerkDbTransaction_start t)"
| "block_tx_start T (DocumentsTx t) = map_prod id DocumentsTx (DocumentsIndexedTransaction_start T t)"

fun block_tx_commit ::
  "'db merk \<Rightarrow> 'm mongo_tx_calls \<Rightarrow> ('db, 'm) block_tx \<Rightarrow> (drive_error, ('db, 'm) block_tx) outcome" where
  "block_tx_commit M T (StoreTx t) = map_prod id StoreTx (settle (MerkDbTransaction_commit M) t)"
| "block_tx_commit M T (DocumentsTx t) = map_prod id DocumentsTx (DocumentsIndexedTransaction_commit M T t)"

fun block_tx_abort :: "'m mongo_tx_calls \<Rightarrow> ('db, 'm) block_tx \<Rightarrow> (drive_error, ('db, 'm) block_tx) outcome" where
  "block_tx_abort T (StoreTx t) = map_prod id StoreTx (settle MerkDbTransaction_abort t)"
| "block_tx_abort T (DocumentsTx t) = map_prod id DocumentsTx (DocumentsIndexedTransaction_abort T t)"

fun block_tx_isStarted :: "('db, 'm) block_tx \<Rightarrow> bool" where
  "block_tx_isStarted (StoreTx t) = MerkDbTransaction_isStarted t"
| "block_tx_isStarted (DocumentsTx t) = dt_transactionIsStarted t"

fun block_tx_toObject :: "('db, 'm) block_tx \<Rightarrow> drive_error + merk_tx_object" where
  "block_tx_toObject (StoreTx t) = MerkDbTransaction_toObject t"
| "block_tx_toObject (DocumentsTx t) = DocumentsIndexedTransaction_toObject t"

fun block_tx_populateFromObject ::
  "('db, 'm) block_tx \<Rightarrow> merk_tx_object \<Rightarrow> drive_error + ('db, 'm) block_tx" where
  "block_tx_populateFromObject (StoreTx t) obj =
     map_sum id StoreTx (MerkDbTransaction_populateFromObject t obj)"
| "block_tx_populateFromObject (DocumentsTx t) obj =
     map_sum id DocumentsTx (DocumentsIndexedTransaction_populateFromObject t obj)"

record ('db, 'm) store_transactions =
  bx_transactions :: "(string \<times> ('db, 'm) block_tx) list"
  bx_isTransactionsStarted :: bool

text \<open>The six stores the constructor is given, each a merk database, and the mongo transaction
  it creates.\<close>

record ('db, 'm) stores =
  st_common :: "'db"
  st_identities :: "'db"
  st_documents :: "'db"
  st_dataContracts :: "'db"
  st_publicKeyToIdentityId :: "'db"
  st_assetLockTransactions :: "'db"
  st_mongo :: "'m"

definition new_BlockExecutionStoreTransactions :: "('db, 'm) stores \<Rightarrow> ('db, 'm) store_transactions" where
  "new_BlockExecutionStoreTransactions S =
     \<lparr>bx_transactions =
        [(''common'', StoreTx (st_common S, MerkDbStore_createTransaction)),
         (''identities'', StoreTx (st_identities S, MerkDbStore_createTransaction)),
         (''documents'', DocumentsTx \<lparr>dt_storeTransaction = (st_documents S, MerkDbStore_createTransaction),
            dt_mongoDbTransaction = st_mongo S, dt_transactionIsStarted = False\<rparr>),
         (''dataContracts'', StoreTx (st_dataContracts S, MerkDbStore_createTransaction)),
         (''publicKeyToIdentityId'', StoreTx (st_publicKeyToIdentityId S, MerkDbStore_createTransaction)),
         (''assetLockTransactions'', StoreTx (st_assetLockTransactions S, MerkDbStore_createTransaction))],
      bx_isTransactionsStarted = False\<rparr>"

text \<open>\<open>Promise.all(Object.values(o).map(f))\<close>: every call is made; the promise rejects with the
  first error.\<close>

fun promise_all ::
  "('t \<Rightarrow> (drive_error, 't) outcome) \<Rightarrow> (string \<times> 't) list \<Rightarrow> (drive_error, (string \<times> 't) list) outcome" where
  "promise_all f [] = (None, [])"
| "promise_all f ((n, t) # ts) =
     (let (e, t') = f t; (es, ts') = promise_all f ts
      in (case e of Some x \<Rightarrow> Some x | None \<Rightarrow> es, (n, t') # ts'))"

definition BlockExecutionStoreTransactions_start ::
  "'m mongo_tx_calls \<Rightarrow> ('db, 'm) store_transactions \<Rightarrow> (drive_error, ('db, 'm) store_transactions) outcome" where
  "BlockExecutionStoreTransactions_start T b =
     (if bx_isTransactionsStarted b then (Some BlockExecutionStoreTransactionIsAlreadyStartedError, b)
      else case promise_all (block_tx_start T) (bx_transactions b) of
             (Some e, ts) \<Rightarrow> (Some e, b\<lparr>bx_transactions := ts\<rparr>)
           | (None, ts) \<Rightarrow> (None, b\<lparr>bx_transactions := ts, bx_isTransactionsStarted := True\<rparr>))"

definition BlockExecutionStoreTransactions_commit ::
  "'db merk \<Rightarrow> 'm mongo_tx_calls \<Rightarrow> ('db, 'm) store_transactions \<Rightarrow> (drive_error, ('db, 'm) store_transactions) outcome" where
  "BlockExecutionStoreTransactions_commit M T b =
     (if \<not> bx_isTransactionsStarted b then (Some BlockExecutionStoreTransactionIsNotStartedError, b)
      else case promise_all (block_tx_commit M T) (bx_transactions b) of
             (Some e, ts) \<Rightarrow> (Some e, b\<lparr>bx_transactions := ts\<rparr>)
           | (None, ts) \<Rightarrow> (None, b\<lparr>bx_transactions := ts, bx_isTransactionsStarted := False\<rparr>))"

definition BlockExecutionStoreTransactions_abort ::
  "'m mongo_tx_calls \<Rightarrow> ('db, 'm) store_transactions \<Rightarrow> (drive_error, ('db, 'm) store_transactions) outcome" where
  "BlockExecutionStoreTransactions_abort T b =
     (if \<not> bx_isTransactionsStarted b then (Some BlockExecutionStoreTransactionIsNotStartedError, b)
      else case promise_all (block_tx_abort T) (bx_transactions b) of
             (Some e, ts) \<Rightarrow> (Some e, b\<lparr>bx_transactions := ts\<rparr>)
           | (None, ts) \<Rightarrow> (None, b\<lparr>bx_transactions := ts, bx_isTransactionsStarted := False\<rparr>))"

definition BlockExecutionStoreTransactions_getTransaction ::
  "('db, 'm) store_transactions \<Rightarrow> string \<Rightarrow> drive_error + ('db, 'm) block_tx" where
  "BlockExecutionStoreTransactions_getTransaction b name =
     (case map_of (bx_transactions b) name of
        None \<Rightarrow> Inl (BlockExecutionStoreTransactionIsNotDefinedError name)
      | Some t \<Rightarrow> Inr t)"

definition BlockExecutionStoreTransactions_toObject ::
  "('db, 'm) store_transactions \<Rightarrow> drive_error + (string \<times> merk_tx_object) list" where
  "BlockExecutionStoreTransactions_toObject b =
     rmap (\<lambda>(name, t). map_sum id (Pair name) (block_tx_toObject t)) (bx_transactions b)"

text \<open>Assigning into the object \<open>transactions\<close> is an in-place update of the entry.\<close>

definition BlockExecutionStoreTransactions_populateFromObject ::
  "('db, 'm) store_transactions \<Rightarrow> (string \<times> merk_tx_object) list \<Rightarrow> drive_error + ('db, 'm) store_transactions" where
  "BlockExecutionStoreTransactions_populateFromObject b objs =
     rfold (\<lambda>b (name, obj).
        (case map_of (bx_transactions b) name of
           None \<Rightarrow> Inl TypeError
         | Some t \<Rightarrow>
             (case block_tx_populateFromObject t obj of
                Inl e \<Rightarrow> Inl e
              | Inr t' \<Rightarrow> Inr (b\<lparr>bx_transactions := AList.update name t' (bx_transactions b)\<rparr>)))) b objs"

section \<open>cloneToPreviousStoreTransactions and its repository\<close>

definition outcome_result :: "('e, 's) outcome \<Rightarrow> 'e + 's" where
  "outcome_result r = (case r of (Some e, _) \<Rightarrow> Inl e | (None, s) \<Rightarrow> Inr s)"

definition cloneToPreviousStoreTransactions ::
  "'m mongo_tx_calls \<Rightarrow> ('db, 'm) stores \<Rightarrow> ('db, 'm) store_transactions \<Rightarrow> drive_error + ('db, 'm) store_transactions" where
  "cloneToPreviousStoreTransactions T previous b =
     rbind (outcome_result (BlockExecutionStoreTransactions_start T
              (new_BlockExecutionStoreTransactions previous)))
       (\<lambda>n. rbind (BlockExecutionStoreTransactions_toObject b)
         (\<lambda>objs. BlockExecutionStoreTransactions_populateFromObject n objs))"

text \<open>
  The file the previous transactions are kept in: \<open>FileDb\<close> reads and writes the whole file.
  \<open>None\<close> is a file that does not exist, which \<open>fs.readFile\<close> rejects. cbor is a third-party
  codec, the parameters \<open>encode\<close> and \<open>decode\<close>; a \<open>Buffer\<close> is a truthy value even when it
  is empty.
\<close>

type_synonym db_file = "buffer option"

definition FileDb_get :: "db_file \<Rightarrow> drive_error + buffer" where
  "FileDb_get f = (case f of None \<Rightarrow> Inl (Error ''ENOENT'') | Some b \<Rightarrow> Inr b)"

definition FileDb_set :: "db_file \<Rightarrow> buffer \<Rightarrow> db_file" where
  "FileDb_set f b = Some b"

definition FileDb_clear :: "db_file \<Rightarrow> drive_error + db_file" where
  "FileDb_clear f = (case f of None \<Rightarrow> Inl (Error ''ENOENT'') | Some _ \<Rightarrow> Inr (Some []))"

definition PreviousRepository_store ::
  "((string \<times> merk_tx_object) list \<Rightarrow> buffer) \<Rightarrow> ('db, 'm) store_transactions \<Rightarrow> db_file \<Rightarrow> drive_error + db_file" where
  "PreviousRepository_store encode b f =
     (if \<not> bx_isTransactionsStarted b then Inl BlockExecutionStoreTransactionIsNotStartedError
      else rbind (BlockExecutionStoreTransactions_toObject b)
             (\<lambda>objs. Inr (FileDb_set f (encode objs))))"

definition PreviousRepository_fetch ::
  "(buffer \<Rightarrow> drive_error + (string \<times> merk_tx_object) list) \<Rightarrow> 'm mongo_tx_calls \<Rightarrow> ('db, 'm) stores \<Rightarrow>
   db_file \<Rightarrow> drive_error + ('db, 'm) store_transactions" where
  "PreviousRepository_fetch decode T previous f =
     rbind (FileDb_get f) (\<lambda>serialized.
       rbind (outcome_result (BlockExecutionStoreTransactions_start T
                (new_BlockExecutionStoreTransactions previous)))
         (\<lambda>n. rbind (decode serialized)
           (\<lambda>objs. BlockExecutionStoreTransactions_populateFromObject n objs)))"

definition PreviousRepository_clear :: "db_file \<Rightarrow> drive_error + db_file" where
  "PreviousRepository_clear f = FileDb_clear f"

section \<open>Lemmas\<close>

lemma promise_all_state:
  "snd (promise_all f ts) = map (\<lambda>(n, t). (n, snd (f t))) ts"
  by (induction f ts rule: promise_all.induct) (auto simp: Let_def split: prod.splits)

lemma promise_all_resolves:
  "fst (promise_all f ts) = None \<longleftrightarrow> (\<forall>t \<in> snd ` set ts. fst (f t) = None)"
proof (induction ts)
  case Nil
  then show ?case by simp
next
  case (Cons nt ts)
  obtain n t where nt: "nt = (n, t)" by force
  obtain e t' where e: "f t = (e, t')" by fastforce
  obtain es ts' where es: "promise_all f ts = (es, ts')" by fastforce
  show ?case
    using Cons.IH by (cases e) (auto simp: nt e es)
qed

lemma promise_all_rejects:
  "(n, t) \<in> set ts \<Longrightarrow> fst (f t) \<noteq> None \<Longrightarrow> fst (promise_all f ts) \<noteq> None"
  unfolding promise_all_resolves by (metis image_eqI snd_conv)

lemmas block_tx_open_defs =
  settle_def merk_tx_defs DocumentsIndexedTransaction_start_def
  DocumentsIndexedTransaction_commit_def DocumentsIndexedTransaction_abort_def

lemma block_tx_commit_closed:
  "\<not> block_tx_isStarted t \<Longrightarrow> fst (block_tx_commit M T t) \<noteq> None \<and> snd (block_tx_commit M T t) = t"
  by (cases t) (auto simp: block_tx_open_defs split: prod.splits option.splits)

lemma block_tx_abort_closed:
  "\<not> block_tx_isStarted t \<Longrightarrow> fst (block_tx_abort T t) \<noteq> None \<and> snd (block_tx_abort T t) = t"
  by (cases t) (auto simp: block_tx_open_defs split: prod.splits option.splits)

section \<open>A commit that fails half way\<close>

text \<open>The transactions are open, but one of the stores' is not.\<close>

definition wedged :: "('db, 'm) store_transactions \<Rightarrow> bool" where
  "wedged b \<longleftrightarrow> bx_isTransactionsStarted b \<and>
     (\<exists>(n, t) \<in> set (bx_transactions b). \<not> block_tx_isStarted t)"

definition block_call ::
  "'db merk \<Rightarrow> 'm mongo_tx_calls \<Rightarrow> ('db, 'm) store_transactions \<Rightarrow> tx_call \<Rightarrow>
   (drive_error, ('db, 'm) store_transactions) outcome" where
  "block_call M T b c =
     (case c of
        Start \<Rightarrow> BlockExecutionStoreTransactions_start T b
      | Commit \<Rightarrow> BlockExecutionStoreTransactions_commit M T b
      | Abort \<Rightarrow> BlockExecutionStoreTransactions_abort T b)"

fun block_calls ::
  "'db merk \<Rightarrow> 'm mongo_tx_calls \<Rightarrow> ('db, 'm) store_transactions \<Rightarrow> tx_call list \<Rightarrow> drive_error option list" where
  "block_calls M T b [] = []"
| "block_calls M T b (c # cs) =
     (let (e, b') = block_call M T b c in e # block_calls M T b' cs)"

lemma promise_all_wedged:
  assumes "(n, t) \<in> set ts" and "\<not> block_tx_isStarted t"
    and "fst (f t) \<noteq> None \<and> snd (f t) = t"
  shows "\<exists>e ts'. promise_all f ts = (Some e, ts') \<and> (n, t) \<in> set ts'"
proof -
  have "fst (promise_all f ts) \<noteq> None"
    using assms promise_all_rejects by metis
  moreover have "(n, t) \<in> set (snd (promise_all f ts))"
    using assms by (force simp: promise_all_state)
  ultimately show ?thesis by (cases "promise_all f ts") auto
qed

lemma block_call_wedged:
  assumes "wedged b"
  shows "fst (block_call M T b c) \<noteq> None \<and> wedged (snd (block_call M T b c))"
proof -
  from assms obtain n t where nt: "(n, t) \<in> set (bx_transactions b)" "\<not> block_tx_isStarted t"
    and open_b: "bx_isTransactionsStarted b"
    by (auto simp: wedged_def)
  show ?thesis
  proof (cases c)
    case Start
    then show ?thesis
      using assms open_b by (simp add: block_call_def BlockExecutionStoreTransactions_start_def)
  next
    case Commit
    from promise_all_wedged [OF nt, of "block_tx_commit M T", OF block_tx_commit_closed [OF nt(2)]] Commit show ?thesis
      using open_b nt(2)
      by (fastforce simp: block_call_def BlockExecutionStoreTransactions_commit_def wedged_def)
  next
    case Abort
    from promise_all_wedged [OF nt, of "block_tx_abort T", OF block_tx_abort_closed [OF nt(2)]] Abort show ?thesis
      using open_b nt(2)
      by (fastforce simp: block_call_def BlockExecutionStoreTransactions_abort_def wedged_def)
  qed
qed

lemma block_calls_wedged: "wedged b \<Longrightarrow> None \<notin> set (block_calls M T b cs)"
proof (induction cs arbitrary: b)
  case Nil
  then show ?case by simp
next
  case (Cons c cs)
  obtain e b' where call: "block_call M T b c = (e, b')" by fastforce
  with block_call_wedged [OF Cons.prems, of M T c] have "e \<noteq> None" and "wedged b'"
    by auto
  with Cons.IH [of b'] call show ?case by auto
qed

text \<open>
  A block whose commit rejects after one of its stores has committed leaves the
  transactions stuck: whatever \<open>start\<close>, \<open>commit\<close> and \<open>abort\<close> calls follow, every one of
  them rejects.
\<close>

theorem partial_commit_wedges:
  assumes "BlockExecutionStoreTransactions_commit M T b = (Some e, b')"
    and "bx_isTransactionsStarted b"
    and "(n, t) \<in> set (bx_transactions b')" and "\<not> block_tx_isStarted t"
  shows "None \<notin> set (block_calls M T b' cs)"
proof -
  have "bx_isTransactionsStarted b'"
    using assms(1,2) by (auto simp: BlockExecutionStoreTransactions_commit_def split: prod.splits option.splits)
  then have "wedged b'"
    using assms(3,4) by (auto simp: wedged_def)
  then show ?thesis by (rule block_calls_wedged)
qed

text \<open>Witness: the second of two stores has a disk error, the first one commits.\<close>

definition failing_merk :: "nat merk" where
  "failing_merk = \<lparr>
     m_getSync = (\<lambda>db k. Inl ''key not found''),
     m_commitSync = (\<lambda>db ops. if db = 0 then Inl ''IO error'' else Inr (Suc db)),
     m_rootHash = (\<lambda>db. []),
     m_proveSync = (\<lambda>db ks. Inr [])\<rparr>"

definition idle_mongo :: "unit mongo_tx_calls" where
  "idle_mongo = \<lparr>mtx_start = Pair None, mtx_commit = Pair None, mtx_abort = Pair None\<rparr>"

definition half_committed :: "(nat, unit) store_transactions" where
  "half_committed =
     \<lparr>bx_transactions = [(''common'', StoreTx (1, Some (decorator_put new_decorator [1] [1]))),
                        (''identities'', StoreTx (0, Some (decorator_put new_decorator [1] [1])))],
      bx_isTransactionsStarted = True\<rparr>"

theorem partial_commit_wedges_witness:
  "\<exists>e b'. BlockExecutionStoreTransactions_commit failing_merk idle_mongo half_committed = (Some e, b') \<and>
     None \<notin> set (block_calls failing_merk idle_mongo b' [Abort, Start, Commit])"
proof -
  obtain b' where c: "BlockExecutionStoreTransactions_commit failing_merk idle_mongo half_committed =
      (Some (Error ''IO error''), b')" and in_b': "(''common'', StoreTx (2, None)) \<in> set (bx_transactions b')"
    by (simp add: half_committed_def BlockExecutionStoreTransactions_commit_def settle_def
        MerkDbTransaction_commit_def decorator_persist_def decorator_put_def new_decorator_def
        failing_merk_def)
  have "None \<notin> set (block_calls failing_merk idle_mongo b' [Abort, Start, Commit])"
    by (rule partial_commit_wedges [OF c _ in_b'])
       (simp_all add: half_committed_def MerkDbTransaction_isStarted_def)
  with c show ?thesis by blast
qed

section \<open>Snapshots of a block's transactions\<close>

lemma set_all_idem [simp]: "set_all (set_all kvs []) [] = set_all kvs []"
  using set_all_fresh [of "[]" "set_all kvs []"] distinct_keys_set_all [of "[]" kvs] by simp

lemma merk_toObject_cases:
  "MerkDbTransaction_toObject t = Inr obj \<Longrightarrow>
   set_all (tx_updates obj) [] = tx_updates obj \<and> set_all (tx_deletes obj) [] = tx_deletes obj"
  by (auto simp: MerkDbTransaction_toObject_def split: option.splits)

lemma block_toObject_cases:
  "block_tx_toObject t = Inr obj \<Longrightarrow>
   set_all (tx_updates obj) [] = tx_updates obj \<and> set_all (tx_deletes obj) [] = tx_deletes obj"
  by (cases t) (auto simp: DocumentsIndexedTransaction_toObject_def dest: merk_toObject_cases)

definition store_names :: "string list" where
  "store_names = [''common'', ''identities'', ''documents'', ''dataContracts'',
     ''publicKeyToIdentityId'', ''assetLockTransactions'']"

lemma map_sum_eq_Inr_iff: "map_sum f g m = Inr y \<longleftrightarrow> (\<exists>x. m = Inr x \<and> y = g x)"
  by (cases m) auto

lemma rmap_Cons_Inr:
  "rmap f (x # xs) = Inr ys \<longleftrightarrow> (\<exists>y zs. ys = y # zs \<and> f x = Inr y \<and> rmap f xs = Inr zs)"
  by (auto simp: result_simps)

text \<open>
  Cloning a block's transactions to the stores of the previous block is faithful: when
  every transaction of the block is open and the mongo transaction of the previous stores
  starts, the clone exists, is started, and its snapshot is the snapshot of the original.
\<close>

theorem clone_has_same_snapshot:
  assumes "map fst (bx_transactions b) = store_names"
    and "BlockExecutionStoreTransactions_toObject b = Inr objs"
    and "mtx_start T (st_mongo previous) = (None, m)"
  shows "\<exists>c. cloneToPreviousStoreTransactions T previous b = Inr c \<and>
     bx_isTransactionsStarted c \<and> BlockExecutionStoreTransactions_toObject c = Inr objs"
proof -
  from assms(1) obtain t1 t2 t3 t4 t5 t6 where ts: "bx_transactions b =
      [(''common'', t1), (''identities'', t2), (''documents'', t3), (''dataContracts'', t4),
       (''publicKeyToIdentityId'', t5), (''assetLockTransactions'', t6)]"
    by (auto simp: store_names_def Cons_eq_map_conv map_eq_Cons_conv)
  from assms(2) obtain o1 o2 o3 o4 o5 o6 where objs: "objs =
      [(''common'', o1), (''identities'', o2), (''documents'', o3), (''dataContracts'', o4),
       (''publicKeyToIdentityId'', o5), (''assetLockTransactions'', o6)]"
    and obs: "block_tx_toObject t1 = Inr o1" "block_tx_toObject t2 = Inr o2"
      "block_tx_toObject t3 = Inr o3" "block_tx_toObject t4 = Inr o4"
      "block_tx_toObject t5 = Inr o5" "block_tx_toObject t6 = Inr o6"
    by (auto simp: BlockExecutionStoreTransactions_toObject_def ts result_simps map_sum_eq_Inr_iff)
  note canonical = obs [THEN block_toObject_cases]
  show ?thesis
    using assms(2,3) canonical
    by (simp add: cloneToPreviousStoreTransactions_def BlockExecutionStoreTransactions_start_def
        new_BlockExecutionStoreTransactions_def settle_def MerkDbTransaction_start_def
        MerkDbStore_createTransaction_def DocumentsIndexedTransaction_start_def outcome_result_def
        objs BlockExecutionStoreTransactions_populateFromObject_def new_decorator_def
        MerkDbTransaction_populateFromObject_def DocumentsIndexedTransaction_populateFromObject_def
        BlockExecutionStoreTransactions_toObject_def MerkDbTransaction_toObject_def
        DocumentsIndexedTransaction_toObject_def)
qed

definition open_block :: "(nat, unit) store_transactions" where
  "open_block =
     \<lparr>bx_transactions =
        [(''common'', StoreTx (0, Some (decorator_put new_decorator [1] [2]))),
         (''identities'', StoreTx (0, Some new_decorator)),
         (''documents'', DocumentsTx \<lparr>dt_storeTransaction = (0, Some new_decorator),
            dt_mongoDbTransaction = (), dt_transactionIsStarted = True\<rparr>),
         (''dataContracts'', StoreTx (0, Some new_decorator)),
         (''publicKeyToIdentityId'', StoreTx (0, Some new_decorator)),
         (''assetLockTransactions'', StoreTx (0, Some new_decorator))],
      bx_isTransactionsStarted = True\<rparr>"

definition previous_stores :: "(nat, unit) stores" where
  "previous_stores = \<lparr>st_common = 9, st_identities = 9, st_documents = 9, st_dataContracts = 9,
     st_publicKeyToIdentityId = 9, st_assetLockTransactions = 9, st_mongo = ()\<rparr>"

theorem clone_has_same_snapshot_witness:
  "\<exists>objs c. BlockExecutionStoreTransactions_toObject open_block = Inr objs \<and>
     cloneToPreviousStoreTransactions idle_mongo previous_stores open_block = Inr c \<and>
     BlockExecutionStoreTransactions_toObject c = Inr objs"
proof -
  have names: "map fst (bx_transactions open_block) = store_names"
    by (simp add: open_block_def store_names_def)
  obtain objs where objs: "BlockExecutionStoreTransactions_toObject open_block = Inr objs"
    by (simp add: open_block_def BlockExecutionStoreTransactions_toObject_def
        MerkDbTransaction_toObject_def DocumentsIndexedTransaction_toObject_def)
  have mongo: "mtx_start idle_mongo (st_mongo previous_stores) = (None, ())"
    by (simp add: idle_mongo_def)
  show ?thesis
    using clone_has_same_snapshot [OF names objs mongo] objs by blast
qed

end
