(* ===== verification/JsValues.thy ===== *)
theory JsValues
  imports DriveErrors
begin

text \<open>
  JavaScript values where the code looks inside data whose shape it does not control (queries,
  documents). A string is the list of its UTF-8 bytes, a number is an integer. The functions
  below are the built-in conversions and iterations the modelled code uses.
\<close>

datatype js =
    JUndefined
  | JNull
  | JBool bool
  | JNum int
  | JStr string
  | JBuf buffer
  | JArr "js list"
  | JObj "(string \<times> js) list"

text \<open>Destructuring \<open>[a, b, c] = x\<close> iterates \<open>x\<close>: arrays, strings and buffers are iterable,
  the other values throw a \<open>TypeError\<close>. A missing element is \<open>undefined\<close>.\<close>

fun js_iter :: "js \<Rightarrow> js list option" where
  "js_iter (JArr xs) = Some xs"
| "js_iter (JStr s) = Some (map (\<lambda>c. JStr [c]) s)"
| "js_iter (JBuf b) = Some (map (\<lambda>x. JNum (uint x)) b)"
| "js_iter _ = None"

definition js_at :: "js list \<Rightarrow> nat \<Rightarrow> js" where
  "js_at xs i = (if i < length xs then xs ! i else JUndefined)"

text \<open>The decimal digits of a number.\<close>

fun nat_digits :: "nat \<Rightarrow> string" where
  "nat_digits n = (if n < 10 then [char_of (48 + n)] else nat_digits (n div 10) @ [char_of (48 + n mod 10)])"

declare nat_digits.simps [simp del]

definition int_string :: "int \<Rightarrow> string" where
  "int_string i = (if i < 0 then CHR ''-'' # nat_digits (nat (- i)) else nat_digits (nat i))"

fun join :: "string \<Rightarrow> string list \<Rightarrow> string" where
  "join sep [] = []"
| "join sep [s] = s"
| "join sep (s # ss) = s @ sep @ join sep ss"

text \<open>\<open>String(x)\<close>, which is also the property key \<open>o[x]\<close> uses.\<close>

fun js_toString :: "js \<Rightarrow> string" where
  "js_toString JUndefined = ''undefined''"
| "js_toString JNull = ''null''"
| "js_toString (JBool b) = (if b then ''true'' else ''false'')"
| "js_toString (JNum n) = int_string n"
| "js_toString (JStr s) = s"
| "js_toString (JBuf b) = map (\<lambda>x. char_of (unat x)) b"
| "js_toString (JArr xs) =
     join '','' (map (\<lambda>x. if x = JUndefined \<or> x = JNull then [] else js_toString x) xs)"
| "js_toString (JObj _) = ''[object Object]''"

text \<open>\<open>split\<close> at a character.\<close>

fun split_on :: "char \<Rightarrow> string \<Rightarrow> string list" where
  "split_on c [] = [[]]"
| "split_on c (x # xs) =
     (if x = c then [] # split_on c xs
      else (case split_on c xs of [] \<Rightarrow> [[x]] | s # ss \<Rightarrow> (x # s) # ss))"

text \<open>\<open>toLowerCase\<close> on the characters of the basic Latin block.\<close>

definition char_lower :: "char \<Rightarrow> char" where
  "char_lower c = (if 65 \<le> (of_char c :: nat) \<and> (of_char c :: nat) \<le> 90 then char_of (of_char c + (32::nat)) else c)"

definition toLowerCase :: "string \<Rightarrow> string" where
  "toLowerCase s = map char_lower s"

text \<open>What a condition such as \<open>if (x)\<close> takes for true.\<close>

fun js_truthy :: "js \<Rightarrow> bool" where
  "js_truthy JUndefined = False"
| "js_truthy JNull = False"
| "js_truthy (JBool b) = b"
| "js_truthy (JNum n) = (n \<noteq> 0)"
| "js_truthy (JStr s) = (s \<noteq> [])"
| "js_truthy _ = True"

text \<open>
  Own properties of an object literal used as a dictionary. A name that \<open>Object.prototype\<close>
  defines is found on a fresh \<open>{}\<close> too. \<open>Object.entries\<close> lists the keys that are
  array indices first, in ascending order, then the others in insertion order.
\<close>

definition object_prototype_names :: "string list" where
  "object_prototype_names =
     [''constructor'', ''__defineGetter__'', ''__defineSetter__'', ''hasOwnProperty'',
      ''__lookupGetter__'', ''__lookupSetter__'', ''isPrototypeOf'', ''propertyIsEnumerable'',
      ''toString'', ''valueOf'', ''__proto__'', ''toLocaleString'']"

definition is_digit :: "char \<Rightarrow> bool" where
  "is_digit c \<longleftrightarrow> 48 \<le> (of_char c :: nat) \<and> (of_char c :: nat) \<le> 57"

definition digits_value :: "string \<Rightarrow> nat" where
  "digits_value s = foldl (\<lambda>n c. 10 * n + (of_char c - 48)) 0 s"

definition is_array_index :: "string \<Rightarrow> bool" where
  "is_array_index s \<longleftrightarrow> s \<noteq> [] \<and> (\<forall>c \<in> set s. is_digit c) \<and>
     (s = ''0'' \<or> hd s \<noteq> CHR ''0'') \<and> digits_value s < 4294967295"

definition js_entries :: "(string \<times> 'v) list \<Rightarrow> (string \<times> 'v) list" where
  "js_entries o1 =
     sort_key (digits_value \<circ> fst) (filter (is_array_index \<circ> fst) o1)
     @ filter (Not \<circ> is_array_index \<circ> fst) o1"

lemma set_js_entries [simp]: "set (js_entries m) = set m"
  by (auto simp: js_entries_def)

lemma distinct_js_entries: "distinct (keys m) \<Longrightarrow> distinct (keys (js_entries m))"
  by (auto simp: js_entries_def distinct_map inj_on_def)

lemma js_entries_Nil_iff [simp]: "js_entries m = [] \<longleftrightarrow> m = []"
  using set_js_entries [of m] by (metis set_empty)

text \<open>\<open>filter\<close> with a callback that may throw.\<close>

fun rfilter :: "('x \<Rightarrow> 'e + bool) \<Rightarrow> 'x list \<Rightarrow> 'e + 'x list" where
  "rfilter f [] = Inr []"
| "rfilter f (x # xs) =
     rbind (f x) (\<lambda>b. rbind (rfilter f xs) (\<lambda>ys. Inr (if b then x # ys else ys)))"

lemma rfilter_Inr: "(\<forall>x \<in> set xs. f x = Inr (P x)) \<Longrightarrow> rfilter f xs = Inr (filter P xs)"
  by (induction xs) auto

lemma rmap_total: "(\<forall>x \<in> set xs. f x = Inr (g x)) \<Longrightarrow> rmap f xs = Inr (map g xs)"
  by (induction xs) auto

text \<open>
  Grouping by a string key, \<open>if (!o[k]) o[k] = []; o[k].push(x)\<close> over a fresh object: reading
  an inherited property gives a truthy value that has no method \<open>push\<close>, a \<open>TypeError\<close>.
\<close>

definition js_group_push :: "(string \<times> 'v list) list \<Rightarrow> string \<Rightarrow> 'v \<Rightarrow> drive_error + (string \<times> 'v list) list" where
  "js_group_push g k x =
     (case map_of g k of
        Some xs \<Rightarrow> Inr (AList.update k (xs @ [x]) g)
      | None \<Rightarrow> if k \<in> set object_prototype_names then Inl TypeError
                else Inr (AList.update k [x] g))"

fun js_group :: "(string \<times> 'v list) list \<Rightarrow> (string \<times> 'v) list \<Rightarrow> drive_error + (string \<times> 'v list) list" where
  "js_group g [] = Inr g"
| "js_group g ((k, x) # kxs) = rbind (js_group_push g k x) (\<lambda>g'. js_group g' kxs)"

text \<open>What grouping computes: each key with its values in order.\<close>

definition group_values :: "(string \<times> 'v) list \<Rightarrow> string \<Rightarrow> 'v list" where
  "group_values kxs k = map snd (filter (\<lambda>(k', _). k' = k) kxs)"

lemma group_values_Cons:
  "group_values ((k, x) # kxs) k' = (if k' = k then x # group_values kxs k' else group_values kxs k')"
  by (auto simp: group_values_def)

lemma js_group_lookup:
  assumes "\<forall>k \<in> set (keys kxs). k \<notin> set object_prototype_names"
    and "distinct (keys g)"
  shows "\<exists>g'. js_group g kxs = Inr g' \<and> distinct (keys g') \<and>
     (\<forall>k. map_of g' k =
        (case map_of g k of
           Some xs \<Rightarrow> Some (xs @ group_values kxs k)
         | None \<Rightarrow> if group_values kxs k = [] then None else Some (group_values kxs k)))"
  using assms
proof (induction kxs arbitrary: g)
  case Nil
  then show ?case by (auto simp: group_values_def split: option.splits)
next
  case (Cons kx kxs)
  obtain k x where kx: "kx = (k, x)" by force
  define g1 where "g1 = AList.update k (case map_of g k of Some xs \<Rightarrow> xs @ [x] | None \<Rightarrow> [x]) g"
  have push: "js_group_push g k x = Inr g1"
    using Cons.prems(1) by (auto simp: js_group_push_def g1_def kx split: option.splits)
  have "distinct (keys g1)" using Cons.prems(2) by (simp add: g1_def)
  with Cons.IH [of g1] Cons.prems(1) kx obtain g' where g': "js_group g1 kxs = Inr g'"
    and dist: "distinct (keys g')"
    and look: "\<And>k'. map_of g' k' =
        (case map_of g1 k' of
           Some xs \<Rightarrow> Some (xs @ group_values kxs k')
         | None \<Rightarrow> if group_values kxs k' = [] then None else Some (group_values kxs k'))"
    by auto
  have "map_of g' k' =
        (case map_of g k' of
           Some xs \<Rightarrow> Some (xs @ group_values (kx # kxs) k')
         | None \<Rightarrow> if group_values (kx # kxs) k' = [] then None
                  else Some (group_values (kx # kxs) k'))" for k'
    by (simp add: look g1_def kx group_values_Cons map_of_update split: option.splits)
  with push g' dist kx show ?case by auto
qed

lemma js_group_values:
  assumes "\<forall>k \<in> set (keys kxs). k \<notin> set object_prototype_names"
  shows "\<exists>g. js_group [] kxs = Inr g \<and> distinct (keys g) \<and>
     (\<forall>k xs. (k, xs) \<in> set g \<longleftrightarrow> xs = group_values kxs k \<and> xs \<noteq> [])"
proof -
  from js_group_lookup [OF assms, of "[]"] obtain g where g: "js_group [] kxs = Inr g"
    and dist: "distinct (keys g)"
    and look: "\<And>k. map_of g k = (if group_values kxs k = [] then None else Some (group_values kxs k))"
    by auto
  have "(k, xs) \<in> set g \<longleftrightarrow> xs = group_values kxs k \<and> xs \<noteq> []" for k xs
    using map_of_eq_Some_iff [OF dist, of k xs] look [of k] by (auto split: if_splits)
  with g dist show ?thesis by blast
qed

lemma js_group_inherited:
  "k \<in> set object_prototype_names \<Longrightarrow> map_of g k = None \<Longrightarrow>
   js_group g ((k, x) # kxs) = Inl TypeError"
  by (simp add: js_group_push_def)

end
