(* ===== verification/DocumentQuery.thy ===== *)
theory DocumentQuery
  imports JsValues
begin

text \<open>
  Document queries of js-drive: \<open>lib/document/query/*.js\<close> and the conversions of
  \<open>lib/document/mongoDbRepository\<close>. A condition is an array \<open>[field, operator, value]\<close>.
  The JSON schema check (the package ajv on \<open>jsonSchema.js\<close>) is the parameter \<open>ajv\<close>: the
  list of errors it finds in a query. An index property is the pair of the name and the
  direction of its one-property object.
\<close>

type_synonym index_fields = "(string \<times> string) list"

section \<open>findConflictingConditions\<close>

text \<open>Grouping: \<open>[field, operator]\<close> of each condition, the operators by field.\<close>

definition condition_field_operator :: "js \<Rightarrow> drive_error + string \<times> js" where
  "condition_field_operator c =
     (case js_iter c of
        None \<Rightarrow> Inl TypeError
      | Some xs \<Rightarrow> Inr (js_toString (js_at xs 0), js_at xs 1))"

fun operatorsByFields :: "(string \<times> js list) list \<Rightarrow> js list \<Rightarrow> drive_error + (string \<times> js list) list" where
  "operatorsByFields g [] = Inr g"
| "operatorsByFields g (c # cs) =
     rbind (condition_field_operator c) (\<lambda>(field, operator).
       rbind (js_group_push g field operator) (\<lambda>g'. operatorsByFields g' cs))"

definition starts_with :: "string \<Rightarrow> string \<Rightarrow> bool" where
  "starts_with s p \<longleftrightarrow> prefix p s"

definition ends_with :: "string \<Rightarrow> string \<Rightarrow> bool" where
  "ends_with s p \<longleftrightarrow> suffix p s"

definition operators_conflict :: "js list \<Rightarrow> drive_error + bool" where
  "operators_conflict operators =
     (if length operators = 1 then Inr False
      else if length operators > 2 then Inr True
      else case js_at operators 0 of
             JStr firstOperator \<Rightarrow>
               let isFirstLess = starts_with firstOperator ''<'';
                   isFirstGreater = starts_with firstOperator ''>''
               in if \<not> isFirstLess \<and> \<not> isFirstGreater then Inr True
                  else let allowedOperatorPrefix = (if isFirstLess then ''>'' else ''<'');
                           allowedOperators = [JStr allowedOperatorPrefix]
                             @ (if \<not> ends_with firstOperator ''=''
                                then [JStr (allowedOperatorPrefix @ ''='')] else [])
                       in Inr (js_at operators 1 \<notin> set allowedOperators)
           | _ \<Rightarrow> Inl TypeError)"

definition findConflictingConditions :: "js list \<Rightarrow> drive_error + (string \<times> js list) list" where
  "findConflictingConditions conditions =
     rbind (operatorsByFields [] conditions) (\<lambda>g.
       rfilter (\<lambda>(_, operators). operators_conflict operators) (js_entries g))"

section \<open>findNotIndexedFields\<close>

text \<open>The fields a condition reads: those of the nested conditions of an \<open>elementMatch\<close>.\<close>

definition nested_item :: "string \<Rightarrow> js \<Rightarrow> drive_error + string" where
  "nested_item field c =
     (case js_iter c of
        None \<Rightarrow> Inl TypeError
      | Some xs \<Rightarrow> Inr (field @ ''.'' @ js_toString (js_at xs 0)))"

definition condition_fields :: "js \<Rightarrow> drive_error + string list" where
  "condition_fields c =
     (case js_iter c of
        None \<Rightarrow> Inl TypeError
      | Some xs \<Rightarrow>
          (if js_at xs 1 = JStr ''elementMatch'' then
             (case js_at xs 2 of
                JArr cs \<Rightarrow> rmap (nested_item (js_toString (js_at xs 0))) cs
              | _ \<Rightarrow> Inl TypeError)
           else Inr [js_toString (js_at xs 0)]))"

definition query_fields :: "js list \<Rightarrow> drive_error + string list" where
  "query_fields conditions = rbind (rmap condition_fields conditions) (\<lambda>fss. Inr (concat fss))"

definition index_covers :: "string list \<Rightarrow> string \<Rightarrow> index_fields \<Rightarrow> bool" where
  "index_covers queryFields field index \<longleftrightarrow>
     (\<exists>i < length index. fst (index ! i) = field \<and>
        (\<forall>item \<in> set (take i index). fst item \<in> set queryFields))"

definition findNotIndexedFields :: "index_fields list \<Rightarrow> js list \<Rightarrow> drive_error + string list" where
  "findNotIndexedFields dataContractIndexFields conditions =
     rbind (query_fields conditions) (\<lambda>queryFields.
       Inr (filter (\<lambda>field. \<not> (\<exists>index \<in> set dataContractIndexFields.
                                index_covers queryFields field index)) queryFields))"

section \<open>findNotIndexedOrderByFields\<close>

definition areSortingFieldsIndexedInRightOrder :: "index_fields \<Rightarrow> index_fields \<Rightarrow> bool" where
  "areSortingFieldsIndexedInRightOrder indexedFields sortingFields \<longleftrightarrow>
     (if length sortingFields < length indexedFields then False
      else \<forall>i < length indexedFields. indexedFields ! i = sortingFields ! i)"

definition areIndexedFieldsPresentInWhereCondition :: "index_fields \<Rightarrow> string list \<Rightarrow> bool" where
  "areIndexedFieldsPresentInWhereCondition compoundIndexBefore whereFields \<longleftrightarrow>
     (\<forall>(field, _) \<in> set compoundIndexBefore. field \<in> set whereFields)"

definition reverse_direction :: "string \<Rightarrow> string" where
  "reverse_direction direction = (if direction = ''asc'' then ''desc'' else ''asc'')"

text \<open>Single-field indices can be sorted in both directions.\<close>

definition additionalIndices :: "index_fields list \<Rightarrow> index_fields list" where
  "additionalIndices indices =
     concat (map (\<lambda>compoundIndex.
       case compoundIndex of
         [(field, direction)] \<Rightarrow>
           (if [(field, reverse_direction direction)] \<in> set indices then []
            else [[(field, reverse_direction direction)]])
       | _ \<Rightarrow> []) indices)"

definition bothDirections :: "index_fields list \<Rightarrow> index_fields list" where
  "bothDirections indices = indices @ additionalIndices indices"

definition sorting_field_ok :: "index_fields list \<Rightarrow> index_fields \<Rightarrow> string list \<Rightarrow> nat \<Rightarrow> bool" where
  "sorting_field_ok indexedSortingFields sortingFields whereFields i \<longleftrightarrow>
     (\<exists>index \<in> set indexedSortingFields. \<exists>j < length index.
        fst (index ! j) = fst (sortingFields ! i) \<and>
        (areIndexedFieldsPresentInWhereCondition (take j index) whereFields
         \<or> areSortingFieldsIndexedInRightOrder (take j index) (take i sortingFields)) \<and>
        areSortingFieldsIndexedInRightOrder
          (take (length (drop i sortingFields)) (drop j index)) (drop i sortingFields))"

definition findNotIndexedOrderByFields ::
  "index_fields list \<Rightarrow> index_fields \<Rightarrow> string list \<Rightarrow> string list" where
  "findNotIndexedOrderByFields dataContractIndexFields sortingFields whereFields =
     (let indexedSortingFields =
            filter (\<lambda>compoundIndex. \<forall>f \<in> set sortingFields. f \<in> set compoundIndex)
              (bothDirections dataContractIndexFields)
      in map (\<lambda>i. fst (sortingFields ! i))
           (filter (\<lambda>i. \<not> sorting_field_ok indexedSortingFields sortingFields whereFields i)
             [0..<length sortingFields]))"

section \<open>validateQuery\<close>

record document_schema =
  schema_indices :: "(index_fields \<times> bool) list option"

text \<open>The indices of a document type, with their \<open>unique\<close> flag, and the two of \<open>$id\<close>.\<close>

definition getIndexedFieldsFromDocumentSchema :: "document_schema \<Rightarrow> index_fields list" where
  "getIndexedFieldsFromDocumentSchema s =
     map fst (case schema_indices s of None \<Rightarrow> [] | Some is \<Rightarrow> is)
     @ [[(''$id'', ''asc'')], [(''$id'', ''desc'')]]"

datatype query_error =
    JsonSchemaValidationError string
  | ConflictingConditionsError string "js list"
  | NotIndexedFieldError string
  | NestedSystemFieldError string
  | NestedElementMatchError string
  | DuplicateSortingFieldError string
  | NotIndexedOrderByError string

record query =
  q_where :: "js list option"
  q_orderBy :: "index_fields option"
  q_limit :: "int option"
  q_startAt :: "int option"
  q_startAfter :: "int option"

definition is_elementMatch :: "js \<Rightarrow> drive_error + bool" where
  "is_elementMatch c =
     (case js_iter c of None \<Rightarrow> Inl TypeError | Some xs \<Rightarrow> Inr (js_at xs 1 = JStr ''elementMatch''))"

definition starts_with_dollar :: "js \<Rightarrow> drive_error + bool" where
  "starts_with_dollar c =
     (case js_iter c of
        None \<Rightarrow> Inl TypeError
      | Some xs \<Rightarrow> (case js_at xs 0 of JStr f \<Rightarrow> Inr (starts_with f ''$'') | _ \<Rightarrow> Inl TypeError))"

text \<open>\<open>find\<close> with a callback that may throw.\<close>

fun rfind :: "('x \<Rightarrow> 'e + bool) \<Rightarrow> 'x list \<Rightarrow> 'e + 'x option" where
  "rfind f [] = Inr None"
| "rfind f (x # xs) = rbind (f x) (\<lambda>b. if b then Inr (Some x) else rfind f xs)"

definition condition_field :: "js \<Rightarrow> drive_error + string" where
  "condition_field c =
     (case js_iter c of None \<Rightarrow> Inl TypeError | Some xs \<Rightarrow> Inr (js_toString (js_at xs 0)))"

definition validate_elementMatch :: "js \<Rightarrow> drive_error + query_error list" where
  "validate_elementMatch elementMatch =
     (case js_iter elementMatch of
        None \<Rightarrow> Inl TypeError
      | Some em \<Rightarrow>
          rbind (findConflictingConditions em) (\<lambda>conflicts.
          case js_at em 2 of
            JArr elementMatchValue \<Rightarrow>
              rbind (rfilter starts_with_dollar elementMatchValue) (\<lambda>systemFields.
              rbind (rmap condition_field systemFields) (\<lambda>systemNames.
              rbind (rfind is_elementMatch elementMatchValue) (\<lambda>nested.
              rbind (case nested of
                       None \<Rightarrow> Inr []
                     | Some c \<Rightarrow> rbind (condition_field c) (\<lambda>f. Inr [NestedElementMatchError f]))
                (\<lambda>nestedErrors.
                   Inr (map (\<lambda>(f, ops). ConflictingConditionsError f ops) conflicts
                        @ map NestedSystemFieldError systemNames @ nestedErrors)))))
          | _ \<Rightarrow> Inl TypeError))"

definition validate_where :: "index_fields list \<Rightarrow> js list \<Rightarrow> drive_error + query_error list" where
  "validate_where dataContractIndexFields wh =
     rbind (findConflictingConditions wh) (\<lambda>conflicts.
     rbind (findNotIndexedFields dataContractIndexFields wh) (\<lambda>notIndexed.
     rbind (rfind is_elementMatch wh) (\<lambda>elementMatch.
     rbind (case elementMatch of None \<Rightarrow> Inr [] | Some em \<Rightarrow> validate_elementMatch em) (\<lambda>emErrors.
       Inr (map (\<lambda>(f, ops). ConflictingConditionsError f ops) conflicts
            @ map NotIndexedFieldError notIndexed @ emErrors)))))"

fun duplicate_sorting_fields :: "string set \<Rightarrow> index_fields \<Rightarrow> string list" where
  "duplicate_sorting_fields seen [] = []"
| "duplicate_sorting_fields seen ((field, _) # fs) =
     (if field \<in> seen then field # duplicate_sorting_fields seen fs
      else duplicate_sorting_fields (insert field seen) fs)"

definition validate_orderBy ::
  "index_fields list \<Rightarrow> index_fields \<Rightarrow> js list option \<Rightarrow> drive_error + query_error list" where
  "validate_orderBy dataContractIndexFields orderBy wh =
     rbind (query_fields (case wh of None \<Rightarrow> [] | Some w \<Rightarrow> w)) (\<lambda>whereFields.
       Inr (map DuplicateSortingFieldError (duplicate_sorting_fields {} orderBy)
            @ map NotIndexedOrderByError
                (findNotIndexedOrderByFields dataContractIndexFields orderBy whereFields)))"

definition validateQuery ::
  "(query \<Rightarrow> string list) \<Rightarrow> query \<Rightarrow> document_schema \<Rightarrow> drive_error + query_error list" where
  "validateQuery ajv q documentSchema =
     (if ajv q \<noteq> [] then Inr (map JsonSchemaValidationError (ajv q))
      else let dataContractIndexFields = getIndexedFieldsFromDocumentSchema documentSchema
           in rbind (case q_where q of None \<Rightarrow> Inr [] | Some w \<Rightarrow> validate_where dataContractIndexFields w)
                (\<lambda>whereErrors.
              rbind (case q_orderBy q of None \<Rightarrow> Inr []
                     | Some ob \<Rightarrow> validate_orderBy dataContractIndexFields ob (q_where q))
                (\<lambda>orderErrors. Inr (whereErrors @ orderErrors))))"

section \<open>Conditions as the schema admits them\<close>

text \<open>\<open>jsonSchema.js\<close> admits arrays of a field name, an operator name and a value.\<close>

fun cond_js :: "string \<times> string \<times> js \<Rightarrow> js" where
  "cond_js (f, opr, v) = JArr [JStr f, JStr opr, v]"

definition query_operators :: "string list" where
  "query_operators = [''<'', ''<='', ''=='', ''>'', ''>='', ''in'', ''startsWith'',
     ''elementMatch'', ''length'', ''contains'']"

lemma operatorsByFields_typed:
  "operatorsByFields g (map cond_js cs) = js_group g (map (\<lambda>(f, opr, v). (f, JStr opr)) cs)"
proof (induction cs arbitrary: g)
  case Nil
  then show ?case by simp
next
  case (Cons c cs)
  obtain f opr v where "c = (f, opr, v)" by (cases c) auto
  then show ?case using Cons.IH by (simp add: condition_field_operator_def js_at_def)
qed

definition field_operators :: "(string \<times> string \<times> js) list \<Rightarrow> string \<Rightarrow> string list" where
  "field_operators cs f = map (\<lambda>(_, opr, _). opr) (filter (\<lambda>(f', _). f' = f) cs)"

lemma group_values_field_operators:
  "group_values (map (\<lambda>(f, opr, v). (f, JStr opr)) cs) f = map JStr (field_operators cs f)"
  by (induction cs) (auto simp: group_values_def field_operators_def)

text \<open>The pairs of operators that bound a field from both sides, one of them strictly.\<close>

definition range_pairs :: "(string \<times> string) list" where
  "range_pairs = [(''<'', ''>''), (''<'', ''>=''), (''<='', ''>''),
                  (''>'', ''<''), (''>'', ''<=''), (''>='', ''<'')]"

definition compatible :: "string list \<Rightarrow> bool" where
  "compatible ops \<longleftrightarrow> length ops \<le> 1 \<or> (\<exists>p \<in> set range_pairs. ops = [fst p, snd p])"

lemma operators_conflict_pairs:
  "list_all (\<lambda>a. list_all (\<lambda>b. operators_conflict [JStr a, JStr b] = Inr (\<not> compatible [a, b]))
     query_operators) query_operators"
  by code_simp

lemma operators_conflict_typed:
  assumes "set ops \<subseteq> set query_operators" and "ops \<noteq> []"
  shows "operators_conflict (map JStr ops) = Inr (\<not> compatible ops)"
proof (cases ops)
  case Nil
  with assms(2) show ?thesis by simp
next
  case (Cons a ops1)
  show ?thesis
  proof (cases ops1)
    case Nil
    with Cons show ?thesis by (simp add: operators_conflict_def compatible_def)
  next
    case two: (Cons b ops2)
    show ?thesis
    proof (cases ops2)
      case Nil
      then show ?thesis
        using operators_conflict_pairs assms(1) Cons two by (simp add: list_all_iff)
    next
      case more: (Cons c ops3)
      then show ?thesis
        by (auto simp: operators_conflict_def compatible_def Cons two)
    qed
  qed
qed

section \<open>Conflicting conditions\<close>

definition admitted_where :: "(string \<times> string \<times> js) list \<Rightarrow> bool" where
  "admitted_where cs \<longleftrightarrow> (\<forall>(f, opr, _) \<in> set cs. opr \<in> set query_operators \<and>
     f \<notin> set object_prototype_names)"

lemma set_field_operators: "admitted_where cs \<Longrightarrow> set (field_operators cs f) \<subseteq> set query_operators"
  by (auto simp: admitted_where_def field_operators_def)

lemma findConflictingConditions_admitted:
  assumes "admitted_where cs"
  shows "\<exists>r. findConflictingConditions (map cond_js cs) = Inr r \<and>
     (\<forall>f. f \<in> fst ` set r \<longleftrightarrow> field_operators cs f \<noteq> [] \<and> \<not> compatible (field_operators cs f))"
proof -
  let ?kxs = "map (\<lambda>(f, opr, v). (f, JStr opr)) cs"
  have "\<forall>k \<in> set (keys ?kxs). k \<notin> set object_prototype_names"
    using assms by (auto simp: admitted_where_def)
  from js_group_values [OF this] obtain g where g: "js_group [] ?kxs = Inr g"
    and vals: "\<And>k xs. (k, xs) \<in> set g \<longleftrightarrow> xs = group_values ?kxs k \<and> xs \<noteq> []"
    by blast
  let ?P = "\<lambda>(k, operators). \<not> compatible (field_operators cs k)"
  have "rfilter (\<lambda>(_, operators). operators_conflict operators) (js_entries g)
      = Inr (filter ?P (js_entries g))"
  proof (rule rfilter_Inr, safe)
    fix k xs assume "(k, xs) \<in> set (js_entries g)"
    then have xs: "xs = map JStr (field_operators cs k)" "xs \<noteq> []"
      by (auto simp: vals group_values_field_operators)
    show "operators_conflict xs = Inr (\<not> compatible (field_operators cs k))"
      unfolding xs(1) by (rule operators_conflict_typed [OF set_field_operators [OF assms]]) (use xs in auto)
  qed
  moreover have "f \<in> fst ` set (filter ?P (js_entries g)) \<longleftrightarrow>
      field_operators cs f \<noteq> [] \<and> \<not> compatible (field_operators cs f)" for f
    by (force simp: vals group_values_field_operators)
  ultimately show ?thesis
    using g by (auto simp: findConflictingConditions_def operatorsByFields_typed)
qed

text \<open>
  For conditions the schema admits, \<open>findConflictingConditions\<close> returns, and it reports
  exactly the fields whose operators are neither a single one nor a lower and an upper bound of
  which at least one is strict.
\<close>

theorem findConflictingConditions_reports:
  assumes "admitted_where cs"
  shows "\<exists>r. findConflictingConditions (map cond_js cs) = Inr r \<and>
     (\<forall>f. f \<in> fst ` set r \<longleftrightarrow> field_operators cs f \<noteq> [] \<and> \<not> compatible (field_operators cs f))"
  by (rule findConflictingConditions_admitted [OF assms])

theorem findConflictingConditions_reports_witness:
  "\<exists>r. findConflictingConditions
         (map cond_js [(''a'', ''>='', JNum 1), (''b'', ''<'', JNum 2), (''a'', ''<='', JNum 3)]) = Inr r \<and>
     ''a'' \<in> fst ` set r \<and> ''b'' \<notin> fst ` set r"
proof -
  let ?cs = "[(''a'', ''>='', JNum 1), (''b'', ''<'', JNum 2), (''a'', ''<='', JNum 3)]"
  have adm: "admitted_where ?cs"
    by (simp add: admitted_where_def query_operators_def object_prototype_names_def)
  show ?thesis
    using findConflictingConditions_reports [OF adm]
    by (auto simp: field_operators_def compatible_def range_pairs_def)
qed

lemma findConflictingConditions_inherited_name:
  "f \<in> set object_prototype_names \<Longrightarrow>
   findConflictingConditions (map cond_js ((f, opr, v) # cs)) = Inl TypeError"
  unfolding findConflictingConditions_def operatorsByFields_typed
  by (simp add: js_group_push_def)

text \<open>
  A query whose first condition is on a field named like a property every JavaScript
  object inherits passes the JSON schema and then makes \<open>validateQuery\<close> throw a
  \<open>TypeError\<close> instead of returning validation errors.
\<close>

theorem inherited_field_name_crashes:
  assumes "ajv q = []" and "q_where q = Some (map cond_js ((f, opr, v) # cs))"
    and "f \<in> set object_prototype_names"
  shows "validateQuery ajv q s = Inl TypeError"
  using assms(1,2) findConflictingConditions_inherited_name [OF assms(3), of opr v cs]
  by (simp add: validateQuery_def validate_where_def)

theorem inherited_field_name_crashes_witness:
  "validateQuery (\<lambda>q. [])
     \<lparr>q_where = Some (map cond_js [(''constructor'', ''=='', JNum 1)]), q_orderBy = None,
      q_limit = None, q_startAt = None, q_startAfter = None\<rparr>
     \<lparr>schema_indices = None\<rparr> = Inl TypeError"
proof -
  have inherited: "''constructor'' \<in> set object_prototype_names"
    by (simp add: object_prototype_names_def)
  show ?thesis
    by (rule inherited_field_name_crashes [OF _ _ inherited]) simp_all
qed

section \<open>The check of elementMatch\<close>

lemma toString_cond_js_comma: "CHR '','' \<in> set (js_toString (cond_js (g, opr, v)))"
  by simp

lemma no_comma_in_inherited_names: "CHR '','' \<in> set s \<Longrightarrow> s \<notin> set object_prototype_names"
  by (auto simp: object_prototype_names_def)

lemma single_char_not_inherited: "[c] \<notin> set object_prototype_names"
  by (simp add: object_prototype_names_def)

text \<open>What \<open>validateQuery\<close> groups when it hands the condition itself, not its nested
  conditions, to \<open>findConflictingConditions\<close>: the field name is read as a condition on its first
  letter, the word \<open>elementMatch\<close> as one on \<open>e\<close>, and the list of nested conditions as one
  on the text of the first of them.\<close>

lemma operatorsByFields_elementMatch:
  "operatorsByFields [] [JStr (c # d # f), JStr ''elementMatch'', JArr (map cond_js (n1 # n2 # ns))] =
   js_group [] [([c], JStr [d]), (''e'', JStr ''l''), (js_toString (cond_js n1), cond_js n2)]"
  by (simp add: condition_field_operator_def js_at_def)

lemma em_distinct_comma: "js_toString (cond_js n1) \<noteq> [c]" if "c \<noteq> CHR '',''"
  using toString_cond_js_comma [of "fst n1" "fst (snd n1)" "snd (snd n1)"] that
  by (metis empty_set list.set(2) prod.collapse singletonD)

lemma findConflicting_elementMatch_e:
  assumes "d \<noteq> CHR ''<''" and "d \<noteq> CHR ''>''"
  shows "\<exists>r. findConflictingConditions
      [JStr (CHR ''e'' # d # f), JStr ''elementMatch'', JArr (map cond_js (n1 # n2 # ns))] = Inr r \<and>
      ''e'' \<in> fst ` set r"
proof -
  let ?k = "js_toString (cond_js n1)"
  have k: "?k \<noteq> ''e''" "?k \<notin> set object_prototype_names"
    using em_distinct_comma [of "CHR ''e''" n1] no_comma_in_inherited_names
      toString_cond_js_comma [of "fst n1" "fst (snd n1)" "snd (snd n1)"] by auto
  have grp: "js_group [] [([CHR ''e''], JStr [d]), (''e'', JStr ''l''), (?k, cond_js n2)] =
      Inr [(''e'', [JStr [d], JStr ''l'']), (?k, [cond_js n2])]"
    using k single_char_not_inherited by (simp add: js_group_push_def del: cond_js.simps js_toString.simps)
  have conf: "operators_conflict [JStr [d], JStr ''l''] = Inr True"
    using assms by (simp add: operators_conflict_def js_at_def starts_with_def Let_def)
  have one: "operators_conflict [cond_js n2] = Inr False"
    by (simp add: operators_conflict_def)
  let ?g = "[(''e'', [JStr [d], JStr ''l'']), (?k, [cond_js n2])]"
  let ?P = "\<lambda>(k, ops). k = ''e''"
  have "rfilter (\<lambda>(_, ops). operators_conflict ops) (js_entries ?g) = Inr (filter ?P (js_entries ?g))"
    by (rule rfilter_Inr) (use conf one k in \<open>auto simp del: cond_js.simps js_toString.simps\<close>)
  then show ?thesis
    unfolding findConflictingConditions_def operatorsByFields_elementMatch grp by force
qed

lemma findConflicting_elementMatch_other:
  assumes "c \<noteq> CHR ''e''" and "c \<noteq> CHR '',''"
  shows "findConflictingConditions
      [JStr (c # d # f), JStr ''elementMatch'', JArr (map cond_js (n1 # n2 # ns))] = Inr []"
proof -
  let ?k = "js_toString (cond_js n1)"
  have k: "?k \<noteq> ''e''" "?k \<noteq> [c]" "?k \<notin> set object_prototype_names"
    using em_distinct_comma [of "CHR ''e''" n1] em_distinct_comma [OF assms(2), of n1]
      no_comma_in_inherited_names
      toString_cond_js_comma [of "fst n1" "fst (snd n1)" "snd (snd n1)"] by auto
  let ?g = "[([c], [JStr [d]]), (''e'', [JStr ''l'']), (?k, [cond_js n2])]"
  have grp: "js_group [] [([c], JStr [d]), (''e'', JStr ''l''), (?k, cond_js n2)] = Inr ?g"
    using k assms(1) single_char_not_inherited
    by (simp add: js_group_push_def del: cond_js.simps js_toString.simps)
  have "rfilter (\<lambda>(_, ops). operators_conflict ops) (js_entries ?g) =
      Inr (filter (\<lambda>_. False) (js_entries ?g))"
    by (rule rfilter_Inr)
       (auto simp: operators_conflict_def simp del: cond_js.simps js_toString.simps)
  then show ?thesis
    unfolding findConflictingConditions_def operatorsByFields_elementMatch grp by simp
qed

lemma validate_where_single:
  assumes "validate_where idx [cond_js (fld, ''elementMatch'', JArr (map cond_js ns))] = Inr errs"
  shows "\<exists>em. validate_elementMatch (cond_js (fld, ''elementMatch'', JArr (map cond_js ns))) = Inr em
     \<and> set em \<subseteq> set errs"
  using assms by (auto simp: validate_where_def is_elementMatch_def js_at_def result_simps)

lemma validate_elementMatch_conflicts:
  assumes "validate_elementMatch (cond_js (fld, ''elementMatch'', JArr (map cond_js ns))) = Inr errs"
  shows "\<exists>conflicts. findConflictingConditions
       [JStr fld, JStr ''elementMatch'', JArr (map cond_js ns)] = Inr conflicts \<and>
     {f. \<exists>ops. ConflictingConditionsError f ops \<in> set errs} = fst ` set conflicts"
proof -
  from assms obtain conflicts names nested ne
    where fc: "findConflictingConditions
       [JStr fld, JStr ''elementMatch'', JArr (map cond_js ns)] = Inr conflicts"
      and ne: "(case nested of None \<Rightarrow> Inr []
         | Some c \<Rightarrow> rbind (condition_field c) (\<lambda>f. Inr [NestedElementMatchError f])) = Inr ne"
      and errs: "errs = map (\<lambda>(f, ops). ConflictingConditionsError f ops) conflicts
          @ map NestedSystemFieldError names @ ne"
    by (auto simp: validate_elementMatch_def js_at_def rbind_eq_Inr_iff)
  have only_nested: "ConflictingConditionsError f ops \<notin> set ne" for f ops
    using ne by (cases nested) (auto simp: rbind_eq_Inr_iff)
  have "ConflictingConditionsError f ops \<in> set errs \<longleftrightarrow> (f, ops) \<in> set conflicts" for f ops
    unfolding errs using only_nested by (force simp: image_iff)
  then have "{f. \<exists>ops. ConflictingConditionsError f ops \<in> set errs} = fst ` set conflicts"
    by force
  with fc show ?thesis by blast
qed

text \<open>
  A well-formed query with one \<open>elementMatch\<close> condition, on a field whose name starts
  with the letter \<open>e\<close>, is always rejected as conflicting: the check reads the condition's own
  three entries as conditions and finds two operators for the field \<open>e\<close>.
\<close>

theorem elementMatch_on_e_field_rejected:
  assumes "ajv q = []"
    and "q_where q = Some [cond_js (CHR ''e'' # d # f, ''elementMatch'', JArr (map cond_js (n1 # n2 # ns)))]"
    and "d \<noteq> CHR ''<''" and "d \<noteq> CHR ''>''"
    and "validateQuery ajv q s = Inr errs"
  shows "\<exists>ops. ConflictingConditionsError ''e'' ops \<in> set errs"
proof -
  from assms(1,2,5) obtain werrs where
    "validate_where (getIndexedFieldsFromDocumentSchema s)
       [cond_js (CHR ''e'' # d # f, ''elementMatch'', JArr (map cond_js (n1 # n2 # ns)))] = Inr werrs"
    and sub: "set werrs \<subseteq> set errs"
    by (auto simp: validateQuery_def Let_def result_simps simp del: cond_js.simps)
  from validate_where_single [OF this(1)] obtain em where
    em: "validate_elementMatch (cond_js (CHR ''e'' # d # f, ''elementMatch'', JArr (map cond_js (n1 # n2 # ns)))) = Inr em"
    and in_where: "set em \<subseteq> set werrs" by blast
  from validate_elementMatch_conflicts [OF em] findConflicting_elementMatch_e [OF assms(3,4), of f n1 n2 ns]
  have "''e'' \<in> {f. \<exists>ops. ConflictingConditionsError f ops \<in> set em}"
    by (elim exE conjE) simp
  then show ?thesis using in_where sub by blast
qed

definition elements_query :: query where
  "elements_query =
     \<lparr>q_where = Some [cond_js (''elements'', ''elementMatch'',
        JArr (map cond_js [(''x'', ''=='', JNum 1), (''y'', ''=='', JNum 2)]))],
      q_orderBy = None, q_limit = None, q_startAt = None, q_startAfter = None\<rparr>"

theorem elementMatch_on_e_field_rejected_witness:
  "\<exists>errs ops. validateQuery (\<lambda>q. []) elements_query
       \<lparr>schema_indices = Some [([(''elements.x'', ''asc''), (''elements.y'', ''asc'')], False)]\<rparr> = Inr errs \<and>
     ConflictingConditionsError ''e'' ops \<in> set errs"
proof -
  have run: "\<exists>errs. validateQuery (\<lambda>q. []) elements_query
       \<lparr>schema_indices = Some [([(''elements.x'', ''asc''), (''elements.y'', ''asc'')], False)]\<rparr> = Inr errs"
  proof -
    have "is_ok (validateQuery (\<lambda>q. []) elements_query
       \<lparr>schema_indices = Some [([(''elements.x'', ''asc''), (''elements.y'', ''asc'')], False)]\<rparr>)"
      by code_simp
    then show ?thesis by (simp add: is_ok_iff)
  qed
  then obtain errs where run: "validateQuery (\<lambda>q. []) elements_query
       \<lparr>schema_indices = Some [([(''elements.x'', ''asc''), (''elements.y'', ''asc'')], False)]\<rparr> = Inr errs" ..
  have "\<exists>ops. ConflictingConditionsError ''e'' ops \<in> set errs"
    using elementMatch_on_e_field_rejected [of "\<lambda>q. []" elements_query "CHR ''l''" "''ements''"
        "(''x'', ''=='', JNum 1)" "(''y'', ''=='', JNum 2)" "[]", OF _ _ _ _ run]
    by (simp add: elements_query_def)
  with run show ?thesis by blast
qed

text \<open>
  On every other field of two or more letters the same check is empty: nested conditions
  that contradict each other are never reported.
\<close>

theorem nested_conflicts_unreported:
  assumes "c \<noteq> CHR ''e''" and "c \<noteq> CHR '',''"
    and "validate_elementMatch (cond_js (c # d # f, ''elementMatch'', JArr (map cond_js (n1 # n2 # ns)))) = Inr errs"
  shows "ConflictingConditionsError g ops \<notin> set errs"
  using validate_elementMatch_conflicts [OF assms(3)]
    findConflicting_elementMatch_other [OF assms(1,2), of d f n1 n2 ns]
  by auto

theorem nested_conflicts_unreported_witness:
  "\<exists>errs. validate_elementMatch (cond_js (''items'', ''elementMatch'',
        JArr (map cond_js [(''x'', ''=='', JNum 1), (''x'', ''=='', JNum 2)]))) = Inr errs \<and>
     ConflictingConditionsError ''x'' [JStr ''=='', JStr ''==''] \<notin> set errs"
proof -
  let ?em = "cond_js (''items'', ''elementMatch'',
        JArr (map cond_js [(''x'', ''=='', JNum 1), (''x'', ''=='', JNum 2)]))"
  have "is_ok (validate_elementMatch ?em)" by code_simp
  then obtain errs where run: "validate_elementMatch ?em = Inr errs" by (auto simp: is_ok_iff)
  show ?thesis
    using run nested_conflicts_unreported [OF _ _ run] by auto
qed

section \<open>Sorting by an index\<close>

lemma right_order_iff:
  "areSortingFieldsIndexedInRightOrder ix srt \<longleftrightarrow> take (length ix) srt = ix"
  by (auto simp: areSortingFieldsIndexedInRightOrder_def list_eq_iff_nth_eq min_def)

lemma present_in_no_condition:
  "areIndexedFieldsPresentInWhereCondition ix [] \<longleftrightarrow> ix = []"
  by (cases ix) (auto simp: areIndexedFieldsPresentInWhereCondition_def)

lemma sorting_field_ok_prefix:
  assumes "index \<in> set ixs" and "prefix srt index" and "i < length srt"
  shows "sorting_field_ok ixs srt whereFields i"
proof -
  from assms(2) obtain rest where ix: "index = srt @ rest" by (auto simp: prefix_def)
  have "fst (index ! i) = fst (srt ! i)" and "i < length index"
    using assms(3) by (simp_all add: ix nth_append)
  moreover have "areSortingFieldsIndexedInRightOrder (take i index) (take i srt)"
    using assms(3) by (simp add: right_order_iff ix)
  moreover have "areSortingFieldsIndexedInRightOrder
      (take (length (drop i srt)) (drop i index)) (drop i srt)"
    using assms(3) by (simp add: right_order_iff ix)
  ultimately show ?thesis
    using assms(1) unfolding sorting_field_ok_def by blast
qed

lemma first_sorting_field_ok:
  assumes "sorting_field_ok ixs srt [] 0" and "srt \<noteq> []" and "distinct srt"
    and "\<forall>index \<in> set ixs. set srt \<subseteq> set index"
  shows "\<exists>index \<in> set ixs. prefix srt index"
proof -
  from assms(1) obtain index j where ix: "index \<in> set ixs" "j < length index"
    and before: "take j index = [] \<or> areSortingFieldsIndexedInRightOrder (take j index) []"
    and after: "areSortingFieldsIndexedInRightOrder (take (length srt) (drop j index)) srt"
    by (auto simp: sorting_field_ok_def present_in_no_condition)
  from before ix(2) have j: "j = 0" by (auto simp: right_order_iff)
  have "length srt \<le> length index"
    using assms(3,4) ix(1) by (metis card_length card_mono distinct_card finite_set le_trans)
  with after j have "take (length srt) index = srt"
    by (simp add: right_order_iff min_def)
  then have "prefix srt index" by (metis take_is_prefix)
  with ix(1) show ?thesis by blast
qed

text \<open>
  Without conditions to help, sorting is accepted exactly when the list of sorting fields
  is an initial part of an index of the document type, where a single-field index may also be
  read backwards.
\<close>

theorem orderBy_accepted_iff_index_prefix:
  assumes "distinct srt" and "srt \<noteq> []"
  shows "findNotIndexedOrderByFields indices srt [] = [] \<longleftrightarrow>
    (\<exists>index \<in> set (bothDirections indices). prefix srt index)"
proof -
  let ?ixs = "filter (\<lambda>ix. \<forall>f \<in> set srt. f \<in> set ix) (bothDirections indices)"
  have accepted: "findNotIndexedOrderByFields indices srt [] = [] \<longleftrightarrow>
      (\<forall>i < length srt. sorting_field_ok ?ixs srt [] i)"
    by (auto simp: findNotIndexedOrderByFields_def Let_def filter_empty_conv)
  show ?thesis
  proof
    assume "findNotIndexedOrderByFields indices srt [] = []"
    then have "sorting_field_ok ?ixs srt [] 0" using accepted assms(2) by simp
    from first_sorting_field_ok [OF this assms(2,1)] show "\<exists>index \<in> set (bothDirections indices). prefix srt index"
      by auto
  next
    assume "\<exists>index \<in> set (bothDirections indices). prefix srt index"
    then obtain index where ix: "index \<in> set (bothDirections indices)" "prefix srt index" by blast
    then have "index \<in> set ?ixs" by (auto dest: set_mono_prefix)
    with ix(2) show "findNotIndexedOrderByFields indices srt [] = []"
      using accepted sorting_field_ok_prefix by blast
  qed
qed

theorem orderBy_accepted_iff_index_prefix_witness:
  "findNotIndexedOrderByFields [[(''a'', ''asc''), (''b'', ''desc'')], [(''c'', ''asc'')]]
     [(''c'', ''desc'')] [] = []"
proof -
  have "\<exists>index \<in> set (bothDirections [[(''a'', ''asc''), (''b'', ''desc'')], [(''c'', ''asc'')]]).
      prefix [(''c'', ''desc'')] index"
    by (simp add: bothDirections_def additionalIndices_def reverse_direction_def)
  then show ?thesis
    using orderBy_accepted_iff_index_prefix
      [of "[(''c'', ''desc'')]" "[[(''a'', ''asc''), (''b'', ''desc'')], [(''c'', ''asc'')]]"]
    by simp
qed

end
