(* ===== verification/MongoQuery.thy ===== *)
theory MongoQuery
  imports DocumentQuery Interfaces
begin

text \<open>
  From a validated query to the one mongo runs:
  \<open>lib/document/mongoDbRepository/convertFieldName.js\<close>, \<open>convertWhereToMongoDbQuery.js\<close>,
  \<open>convertToMongoDbIndices.js\<close> and the options of \<open>DocumentMongoDbRepository.find\<close>.
  The package \<open>lodash.escaperegexp\<close> is the parameter \<open>escapeRegExp\<close>.
\<close>

section \<open>convertFieldName\<close>

definition systemFields :: "(string \<times> string) list" where
  "systemFields = [(''$id'', ''_id''), (''$ownerId'', ''ownerId''), (''$revision'', ''revision''),
     (''$createdAt'', ''createdAt''), (''$updatedAt'', ''updatedAt''),
     (''$protocolVersion'', ''protocolVersion'')]"

definition convertFieldName :: "string \<Rightarrow> drive_error + string" where
  "convertFieldName field =
     (if \<not> starts_with field ''$'' then Inr (''data.'' @ field)
      else case map_of systemFields field of
             None \<Rightarrow> Inl (Error (''System field '' @ field @ '' is not defined''))
           | Some f \<Rightarrow> Inr f)"

lemma convertFieldName_injective:
  "convertFieldName f = Inr m \<Longrightarrow> convertFieldName g = Inr m \<Longrightarrow> f = g"
  by (auto simp: convertFieldName_def systemFields_def split: if_splits option.splits)

section \<open>convertToMongoDbIndices\<close>

definition index_property_key :: "string \<times> string \<Rightarrow> drive_error + string \<times> int" where
  "index_property_key p =
     rbind (convertFieldName (fst p)) (\<lambda>f. Inr (f, if toLowerCase (snd p) = ''asc'' then 1 else -1))"

definition convertToMongoDbIndices ::
  "(index_fields \<times> bool) list \<Rightarrow> drive_error + ((string \<times> int) list \<times> bool) list" where
  "convertToMongoDbIndices indices =
     rmap (\<lambda>(properties, unique).
       rbind (rmap index_property_key properties) (\<lambda>ks. Inr (set_all ks [], unique))) indices"

section \<open>convertWhereToMongoDbQuery\<close>

datatype mongo_value =
    MValue js
  | MRegExp string
  | MArray "js list"
  | MDate mongo_value
  | MQuery "(string \<times> (string \<times> mongo_value) list) list"

type_synonym mongo_query = "(string \<times> (string \<times> mongo_value) list) list"

definition mongoDbOperators :: "(string \<times> string) list" where
  "mongoDbOperators = [(''<'', ''$lt''), (''<='', ''$lte''), (''=='', ''$eq''), (''>'', ''$gt''),
     (''>='', ''$gte''), (''in'', ''$in''), (''length'', ''$size''), (''startsWith'', ''$regex''),
     (''elementMatch'', ''$elemMatch''), (''contains'', ''$all'')]"

definition mongoDbOperator :: "js \<Rightarrow> string" where
  "mongoDbOperator operator =
     (case map_of mongoDbOperators (js_toString operator) of None \<Rightarrow> ''undefined'' | Some m \<Rightarrow> m)"

definition dateFieldNames :: "string list" where
  "dateFieldNames = [''createdAt'', ''updatedAt'']"

definition mongo_put :: "mongo_query \<Rightarrow> string \<times> string \<Rightarrow> mongo_value \<Rightarrow> mongo_query" where
  "mongo_put q k v =
     AList.update (fst k)
       (AList.update (snd k) v (case map_of q (fst k) of None \<Rightarrow> [] | Some ops \<Rightarrow> ops)) q"

definition mongo_get :: "mongo_query \<Rightarrow> string \<times> string \<Rightarrow> mongo_value option" where
  "mongo_get q k = (case map_of q (fst k) of None \<Rightarrow> None | Some ops \<Rightarrow> map_of ops (snd k))"

interpretation mongo_query_store: kv_store mongo_get mongo_put
  by unfold_locales (auto simp: mongo_get_def mongo_put_def store_simps split: option.splits)

text \<open>
  \<open>if (!query[field]) query[field] = {}; query[field][operator] = value\<close>: for a name every
  object inherits, the guard finds the inherited value and the assignment goes to that, not to
  the query.
\<close>

definition mongo_assign :: "mongo_query \<Rightarrow> string \<Rightarrow> string \<Rightarrow> mongo_value \<Rightarrow> mongo_query" where
  "mongo_assign q mongoDbField mongoDbOp v =
     (if map_of q mongoDbField = None \<and> mongoDbField \<in> set object_prototype_names then q
      else mongo_put q (mongoDbField, mongoDbOp) v)"

definition mongo_date :: "string \<Rightarrow> mongo_value \<Rightarrow> mongo_value" where
  "mongo_date mongoDbField v = (if mongoDbField \<in> set dateFieldNames then MDate v else v)"

definition mongo_field :: "bool \<Rightarrow> js \<Rightarrow> drive_error + string" where
  "mongo_field isNested field =
     (if isNested then Inr (js_toString field)
      else case field of JStr f \<Rightarrow> convertFieldName f | _ \<Rightarrow> Inl TypeError)"

definition mongo_plain_value :: "(string \<Rightarrow> string) \<Rightarrow> js \<Rightarrow> js \<Rightarrow> mongo_value" where
  "mongo_plain_value escapeRegExp operator value =
     (if operator = JStr ''startsWith'' then MRegExp (''^'' @ escapeRegExp (js_toString value))
      else if operator = JStr ''contains'' then
        (case value of JArr vs \<Rightarrow> MArray vs | _ \<Rightarrow> MArray [value])
      else MValue value)"

lemma js_at_size: "js_iter c = Some xs \<Longrightarrow> js_at xs i = JArr vs \<Longrightarrow> size_list size vs < size c"
proof (cases c)
  case (JArr ys)
  assume "js_iter c = Some xs" and at: "js_at xs i = JArr vs"
  with JArr have "xs = ys" by simp
  with at have "JArr vs \<in> set ys"
    by (auto simp: js_at_def split: if_splits dest: nth_mem)
  then have "size (JArr vs) \<le> size_list size ys" by (rule size_list_estimation') simp
  with JArr show ?thesis by simp
qed (auto simp: js_at_def split: if_splits)

function convertWhereToMongoDbQuery ::
  "(string \<Rightarrow> string) \<Rightarrow> bool \<Rightarrow> mongo_query \<Rightarrow> js list \<Rightarrow> drive_error + mongo_query" where
  "convertWhereToMongoDbQuery escapeRegExp isNested mongoDbQuery [] = Inr mongoDbQuery"
| "convertWhereToMongoDbQuery escapeRegExp isNested mongoDbQuery (condition # where') =
     (case js_iter condition of
        None \<Rightarrow> Inl TypeError
      | Some xs \<Rightarrow>
          rbind (mongo_field isNested (js_at xs 0)) (\<lambda>mongoDbField.
          rbind (if js_at xs 1 = JStr ''elementMatch'' then
                   (case js_at xs 2 of
                      JArr nested \<Rightarrow> map_sum id MQuery (convertWhereToMongoDbQuery escapeRegExp True [] nested)
                    | _ \<Rightarrow> Inl TypeError)
                 else Inr (mongo_plain_value escapeRegExp (js_at xs 1) (js_at xs 2)))
            (\<lambda>mongoDbValue.
               convertWhereToMongoDbQuery escapeRegExp isNested
                 (mongo_assign mongoDbQuery mongoDbField (mongoDbOperator (js_at xs 1))
                    (mongo_date mongoDbField mongoDbValue)) where')))"
  by pat_completeness auto
termination
  by (relation "measure (\<lambda>(_, _, _, cs). size_list size cs)") (auto dest: js_at_size)

section \<open>DocumentMongoDbRepository.find\<close>

record find_options =
  fo_limit :: int
  fo_skip :: "int option"
  fo_sort :: "(string \<times> int) list option"

definition js_truthy_num :: "int option \<Rightarrow> bool" where
  "js_truthy_num n \<longleftrightarrow> (\<exists>i. n = Some i \<and> i \<noteq> 0)"

definition sort_field :: "string \<times> string \<Rightarrow> drive_error + string \<times> int" where
  "sort_field p =
     rbind (convertFieldName (fst p)) (\<lambda>f. Inr (f, if snd p = ''asc'' then 1 else -1))"

datatype find_error = InvalidQueryError "query_error list" | Thrown drive_error

definition lift_thrown :: "drive_error + 'a \<Rightarrow> find_error + 'a" where
  "lift_thrown m = (case m of Inl e \<Rightarrow> Inl (Thrown e) | Inr a \<Rightarrow> Inr a)"

definition find_skip :: "query \<Rightarrow> int option" where
  "find_skip q =
     (let s = (case q_startAt q of Some n \<Rightarrow> if n \<noteq> 0 \<and> n > 1 then Some (n - 1) else None | None \<Rightarrow> None)
      in case q_startAfter q of Some n \<Rightarrow> if n \<noteq> 0 then Some n else s | None \<Rightarrow> s)"

definition find_limit :: "query \<Rightarrow> int" where
  "find_limit q = (case q_limit q of Some n \<Rightarrow> if n \<noteq> 0 then n else 100 | None \<Rightarrow> 100)"

text \<open>The query and the options handed to mongo; running them is mongo's part.\<close>

definition DocumentMongoDbRepository_find ::
  "(string \<Rightarrow> string) \<Rightarrow> (query \<Rightarrow> string list) \<Rightarrow> document_schema \<Rightarrow> query \<Rightarrow>
   find_error + mongo_query \<times> find_options" where
  "DocumentMongoDbRepository_find escapeRegExp ajv documentSchema q =
     rbind (lift_thrown (validateQuery ajv q documentSchema)) (\<lambda>errors.
     if errors \<noteq> [] then Inl (InvalidQueryError errors)
     else rbind (lift_thrown (case q_where q of
                   None \<Rightarrow> Inr []
                 | Some w \<Rightarrow> convertWhereToMongoDbQuery escapeRegExp False [] w)) (\<lambda>findQuery.
          rbind (lift_thrown (case q_orderBy q of
                   None \<Rightarrow> Inr None
                 | Some ob \<Rightarrow> map_sum id Some (rmap sort_field ob))) (\<lambda>sort.
          Inr (findQuery, \<lparr>fo_limit = find_limit q, fo_skip = find_skip q, fo_sort = sort\<rparr>))))"

section \<open>No condition is lost\<close>

text \<open>What one admitted condition becomes at the top level.\<close>

definition converted :: "(string \<Rightarrow> string) \<Rightarrow> string \<times> string \<times> js \<Rightarrow> (string \<times> string) \<times> mongo_value \<Rightarrow> bool" where
  "converted escapeRegExp c kv \<longleftrightarrow>
     (case c of (f, opr, v) \<Rightarrow>
        convertFieldName f = Inr (fst (fst kv)) \<and>
        map_of mongoDbOperators opr = Some (snd (fst kv)) \<and>
        (\<exists>mv. snd kv = mongo_date (fst (fst kv)) mv \<and>
           (if opr = ''elementMatch'' then
              \<exists>nested nq. v = JArr nested \<and> mv = MQuery nq \<and>
                convertWhereToMongoDbQuery escapeRegExp True [] nested = Inr nq
            else mv = mongo_plain_value escapeRegExp (JStr opr) v)))"

lemma convertFieldName_not_inherited:
  "convertFieldName f = Inr m \<Longrightarrow> m \<notin> set object_prototype_names"
  by (auto simp: convertFieldName_def systemFields_def object_prototype_names_def
      split: if_splits option.splits)

lemma query_operator_known:
  "opr \<in> set query_operators \<Longrightarrow> map_of mongoDbOperators opr = Some (mongoDbOperator (JStr opr))"
  by (auto simp: query_operators_def mongoDbOperators_def mongoDbOperator_def)

lemma mongoDbOperators_injective:
  "map_of mongoDbOperators a = Some m \<Longrightarrow> map_of mongoDbOperators b = Some m \<Longrightarrow> a = b"
  by (auto simp: mongoDbOperators_def split: if_splits)

lemma js_at_triple [simp]:
  "js_at [a, b, c] 0 = a" "js_at [a, b, c] (Suc 0) = b" "js_at [a, b, c] 2 = c"
  by (simp_all add: js_at_def)

lemma convertWhere_cond:
  "convertWhereToMongoDbQuery esc False q (cond_js (f, opr, v) # cs) =
     rbind (convertFieldName f) (\<lambda>F.
     rbind (if opr = ''elementMatch'' then
              (case v of
                 JArr nested \<Rightarrow> map_sum id MQuery (convertWhereToMongoDbQuery esc True [] nested)
               | _ \<Rightarrow> Inl TypeError)
            else Inr (mongo_plain_value esc (JStr opr) v)) (\<lambda>mv.
     convertWhereToMongoDbQuery esc False
       (mongo_assign q F (mongoDbOperator (JStr opr)) (mongo_date F mv)) cs))"
  by (simp add: mongo_field_def)

lemma converted_value:
  assumes "(if opr = ''elementMatch'' then
              (case v of
                 JArr nested \<Rightarrow> map_sum id MQuery (convertWhereToMongoDbQuery esc True [] nested)
               | _ \<Rightarrow> Inl TypeError)
            else Inr (mongo_plain_value esc (JStr opr) v)) = Inr mv"
    and "convertFieldName f = Inr F" and "opr \<in> set query_operators"
  shows "converted esc (f, opr, v) ((F, mongoDbOperator (JStr opr)), mongo_date F mv)"
proof (cases "opr = ''elementMatch''")
  case True
  with assms(1) obtain nested nq where "v = JArr nested"
    and "convertWhereToMongoDbQuery esc True [] nested = Inr nq" and "mv = MQuery nq"
    by (cases v) (auto simp: map_sum_def split: sum.splits)
  with True assms(2) query_operator_known [OF assms(3)] show ?thesis
    by (auto simp: converted_def)
next
  case False
  with assms(1,2) query_operator_known [OF assms(3)] show ?thesis
    by (auto simp: converted_def)
qed

lemma convertWhere_puts:
  assumes "admitted_where cs"
    and "convertWhereToMongoDbQuery esc False q (map cond_js cs) = Inr q'"
  shows "\<exists>kvs. list_all2 (converted esc) cs kvs \<and> q' = fold (\<lambda>(k, v) s. mongo_put s k v) kvs q"
  using assms
proof (induction cs arbitrary: q)
  case Nil
  then show ?case by auto
next
  case (Cons c cs)
  obtain f opr v where c: "c = (f, opr, v)" by (cases c) auto
  from Cons.prems(2) obtain F mv where F: "convertFieldName f = Inr F"
    and mv: "(if opr = ''elementMatch'' then
                   (case v of
                      JArr nested \<Rightarrow> map_sum id MQuery (convertWhereToMongoDbQuery esc True [] nested)
                    | _ \<Rightarrow> Inl TypeError)
                 else Inr (mongo_plain_value esc (JStr opr) v)) = Inr mv"
    and rest: "convertWhereToMongoDbQuery esc False
        (mongo_assign q F (mongoDbOperator (JStr opr)) (mongo_date F mv)) (map cond_js cs) = Inr q'"
    unfolding c list.map convertWhere_cond rbind_eq_Inr_iff by blast
  let ?kv = "((F, mongoDbOperator (JStr opr)), mongo_date F mv)"
  have asg: "mongo_assign q F (mongoDbOperator (JStr opr)) (mongo_date F mv) = mongo_put q (fst ?kv) (snd ?kv)"
    using convertFieldName_not_inherited [OF F] by (simp add: mongo_assign_def)
  have "opr \<in> set query_operators" and adm: "admitted_where cs"
    using Cons.prems(1) by (auto simp: c admitted_where_def)
  then have "converted esc c ?kv" unfolding c by (intro converted_value [OF mv F])
  moreover from Cons.IH [OF adm rest [unfolded asg]]
  obtain kvs where "list_all2 (converted esc) cs kvs"
    and "q' = fold (\<lambda>(k, v) s. mongo_put s k v) kvs (mongo_put q (fst ?kv) (snd ?kv))"
    by auto
  ultimately show ?case by (intro exI [of _ "?kv # kvs"]) simp
qed

lemma compatible_distinct: "compatible ops \<Longrightarrow> distinct ops"
proof -
  assume "compatible ops"
  then consider "length ops \<le> 1" | p where "p \<in> set range_pairs" "ops = [fst p, snd p]"
    by (auto simp: compatible_def)
  then show ?thesis
  proof cases
    case 1
    then show ?thesis by (cases ops rule: list.exhaust) (auto simp: le_Suc_eq)
  next
    case 2
    then show ?thesis by (auto simp: range_pairs_def)
  qed
qed

definition cond_key :: "string \<times> string \<times> js \<Rightarrow> string \<times> string" where
  "cond_key c = (fst c, fst (snd c))"

lemma distinct_cond_keys:
  assumes "\<forall>f. distinct (field_operators cs f)"
  shows "distinct (map cond_key cs)"
  using assms
proof (induction cs)
  case Nil
  then show ?case by simp
next
  case (Cons c cs)
  obtain f opr v where c: "c = (f, opr, v)" by (cases c) auto
  have "opr \<notin> set (field_operators cs f)"
    using spec [OF Cons.prems, of f] by (simp add: c field_operators_def)
  then have "cond_key c \<notin> set (map cond_key cs)"
    by (force simp: c cond_key_def field_operators_def)
  moreover have "distinct (field_operators cs g)" for g
    using spec [OF Cons.prems, of g] by (simp add: c field_operators_def split: if_splits)
  ultimately show ?case using Cons.IH by simp
qed

lemma converted_same_key:
  "converted esc c kv \<Longrightarrow> converted esc c' kv' \<Longrightarrow> fst kv = fst kv' \<Longrightarrow> cond_key c = cond_key c'"
  by (auto simp: converted_def cond_key_def dest: convertFieldName_injective mongoDbOperators_injective
      split: prod.splits)

lemma converted_distinct:
  "list_all2 (converted esc) cs kvs \<Longrightarrow> distinct (map cond_key cs) \<Longrightarrow> distinct (keys kvs)"
proof (induction cs kvs rule: list_all2_induct)
  case Nil
  then show ?case by simp
next
  case (Cons c cs kv kvs)
  have "fst kv \<notin> set (keys kvs)"
  proof
    assume "fst kv \<in> set (keys kvs)"
    then obtain i where i: "i < length kvs" "fst (kvs ! i) = fst kv"
      by (auto simp: in_set_conv_nth)
    with Cons.hyps(2) have "converted esc (cs ! i) (kvs ! i)" "i < length cs"
      by (auto simp: list_all2_conv_all_nth)
    with Cons.hyps(1) i(2) have "cond_key c = cond_key (cs ! i)" by (metis converted_same_key)
    with \<open>i < length cs\<close> Cons.prems show False by auto
  qed
  then show ?case using Cons.IH Cons.prems by simp
qed

text \<open>
  When a \<open>where\<close> clause the schema admits has no conflicting conditions and mongo's query
  is built from it, every condition is in that query, under its own field and operator and with
  its own value: no condition overwrites another.
\<close>

theorem no_condition_lost:
  assumes "admitted_where cs"
    and "findConflictingConditions (map cond_js cs) = Inr []"
    and "convertWhereToMongoDbQuery esc False [] (map cond_js cs) = Inr q"
    and "c \<in> set cs"
  shows "\<exists>k v. converted esc c (k, v) \<and> mongo_get q k = Some v"
proof -
  from findConflictingConditions_admitted [OF assms(1)] assms(2)
  have "field_operators cs f = [] \<or> compatible (field_operators cs f)" for f by simp
  then have "\<forall>f. distinct (field_operators cs f)" by (metis compatible_distinct distinct.simps(1))
  then have dist: "distinct (map cond_key cs)" by (rule distinct_cond_keys)
  from convertWhere_puts [OF assms(1,3)] obtain kvs where conv: "list_all2 (converted esc) cs kvs"
    and q: "q = fold (\<lambda>(k, v) s. mongo_put s k v) kvs []" by blast
  from assms(4) obtain i where i: "i < length cs" "cs ! i = c" by (auto simp: in_set_conv_nth)
  with conv have "converted esc c (kvs ! i)" and mem: "kvs ! i \<in> set kvs"
    by (auto simp: list_all2_conv_all_nth)
  moreover have "mongo_get q (fst (kvs ! i)) = Some (snd (kvs ! i))"
    using mem map_of_rev_distinct [OF converted_distinct [OF conv dist]]
      map_of_is_SomeI [OF converted_distinct [OF conv dist], of "fst (kvs ! i)" "snd (kvs ! i)"]
    by (simp add: q mongo_query_store.lookup_insert_all map_add_def)
  ultimately show ?thesis by (intro exI [of _ "fst (kvs ! i)"] exI [of _ "snd (kvs ! i)"]) simp
qed

theorem no_condition_lost_witness:
  "\<exists>q k v. convertWhereToMongoDbQuery id False []
       (map cond_js [(''$createdAt'', ''>'', JNum 5), (''a'', ''=='', JNum 1),
          (''$createdAt'', ''<='', JNum 9)]) = Inr q \<and>
     k = (''createdAt'', ''$lte'') \<and> mongo_get q k = Some v \<and> v = MDate (MValue (JNum 9))"
proof -
  let ?cs = "[(''$createdAt'', ''>'', JNum 5), (''a'', ''=='', JNum 1), (''$createdAt'', ''<='', JNum 9)]"
  have adm: "admitted_where ?cs"
    by (simp add: admitted_where_def query_operators_def object_prototype_names_def)
  have conf: "findConflictingConditions (map cond_js ?cs) = Inr []" by code_simp
  have "is_ok (convertWhereToMongoDbQuery id False [] (map cond_js ?cs))" by code_simp
  then obtain q where q: "convertWhereToMongoDbQuery id False [] (map cond_js ?cs) = Inr q"
    by (auto simp: is_ok_iff)
  from no_condition_lost [OF adm conf q, of "(''$createdAt'', ''<='', JNum 9)"]
  obtain k v where kv: "converted id (''$createdAt'', ''<='', JNum 9) (k, v)" "mongo_get q k = Some v"
    by auto
  from kv(1) have "k = (''createdAt'', ''$lte'')" "v = MDate (MValue (JNum 9))"
    by (auto simp: converted_def convertFieldName_def systemFields_def mongoDbOperators_def
        mongo_date_def dateFieldNames_def mongo_plain_value_def starts_with_def prod_eq_iff)
  with q kv(2) show ?thesis by blast
qed

end
