(* ===== verification/DppValues.thy ===== *)
theory DppValues
  imports JsValues
begin

text \<open>
  The data of the Dash Platform Protocol (\<open>packages/js-dpp/lib\<close>): validation results,
  identities and their keys, data contracts, documents, asset lock proofs and state transitions,
  with the errors validation reports and the errors the code throws.

  What js-dpp takes from other packages is the record \<open>env\<close> of parameters: the hash, the
  elliptic-curve operations and the transactions of \<open>@dashevo/dashcore-lib\<close>, the encoders
  \<open>cbor\<close> and \<open>bs58\<close>, \<open>lodash.get\<close>, Node's lossy UTF-8 decoding of a buffer, and the JSON schema validator.
\<close>

section \<open>Errors\<close>

text \<open>The consensus errors the modelled validators report (\<open>lib/errors/consensus/codes.js\<close>).\<close>

datatype consensus_error =
    ProtocolVersionParsingError
  | SerializedObjectParsingError
  | UnsupportedProtocolVersionError int int
  | IncompatibleProtocolVersionError int int
  | JsonSchemaError string
  | InvalidIdentifierError string
  | InvalidDataContractIdError buffer buffer
  | DataContractNotPresentError ident
  | DuplicateDocumentTransitionsWithIdsError "(js \<times> js) list"
  | DuplicateDocumentTransitionsWithIndicesError "(js \<times> js) list"
  | MissingDocumentTransitionTypeError
  | MissingDocumentTransitionActionError
  | InconsistentCompoundIndexDataError string "string list"
  | InvalidDocumentTransitionActionError js
  | InvalidDocumentTransitionIdError buffer buffer
  | InvalidDocumentTypeError string ident
  | MissingDataContractIdError
  | DuplicatedIdentityPublicKeyError "int list"
  | DuplicatedIdentityPublicKeyIdError "int list"
  | IdentityAssetLockProofLockedTransactionMismatchError buffer buffer
  | IdentityAssetLockTransactionIsNotFoundError buffer
  | IdentityAssetLockTransactionOutPointAlreadyExistsError buffer nat
  | IdentityAssetLockTransactionOutputNotFoundError nat
  | InvalidAssetLockProofCoreChainHeightError int int
  | InvalidAssetLockProofTransactionHeightError int "int option"
  | InvalidAssetLockTransactionOutputReturnSize nat
  | InvalidIdentityAssetLockTransactionError string
  | InvalidIdentityAssetLockTransactionOutputError nat
  | InvalidIdentityPublicKeyDataError int string
  | InvalidInstantAssetLockProofError string
  | InvalidIdentityAssetLockProofSignatureError
  | InvalidStateTransitionTypeError js
  | MissingStateTransitionTypeError
  | StateTransitionMaxSizeExceededError
  | IdentityNotFoundError ident
  | InvalidIdentityPublicKeyTypeError int
  | InvalidStateTransitionSignatureError
  | MissingPublicKeyError "int option"
  | BalanceIsNotEnoughError int int
  | DataContractAlreadyPresentError ident
  | DataTriggerConditionError buffer buffer string
  | DataTriggerExecutionError buffer buffer string
  | DocumentAlreadyPresentError ident
  | DocumentNotFoundError ident
  | DocumentOwnerIdMismatchError ident ident ident
  | DocumentTimestampsMismatchError ident
  | DocumentTimestampWindowViolationError string ident
  | DuplicateUniqueIndexError ident "string list"
  | InvalidDocumentRevisionError ident int
  | IdentityAlreadyExistsError ident
  | IdentityPublicKeyAlreadyExistsError buffer
  | JsonSchemaCompilationError string
  | InvalidJsonSchemaRefError string
  | DataContractMaxDepthExceedError
  | IncompatibleRe2PatternError js string string
  | UniqueIndicesLimitReachedError string
  | SystemPropertyIndexAlreadyPresentError string js string
  | UndefinedIndexPropertyError string js string
  | InvalidIndexPropertyTypeError string js string string
  | InvalidIndexedPropertyConstraintError string js string string string
  | InvalidCompoundIndexError string js
  | DuplicateIndexError string js
  | MissingDocumentTypeError

text \<open>What js-dpp and the handlers above it throw.\<close>

datatype dpp_error =
    JsError string
  | JsTypeError
  | Repository drive_error
  | ConsensusErrorThrown consensus_error
  | CoreRpcError int
  | InvalidStateTransitionError "consensus_error list"
  | CompatibleProtocolVersionIsNotDefinedError int
  | EmptyPublicKeyDataError
  | PublicKeyMismatchError
  | StateTransitionIsNotSignedError
  | MaxEncodedBytesReachedError
  | AssetLockTransactionIsNotFoundError buffer
  | AssetLockOutputNotFoundError
  | ContractNotPresent ident
  | DocumentNotProvidedError ident
  | InvalidArgumentAbciError string
  | DPPValidationAbciError string consensus_error
  | NetworkProtocolVersionIsNotSetError
  | NotSupportedNetworkProtocolVersionError int int
  | NoDPNSContractFoundError ident int
  | NoDashpayContractFoundError ident int
  | DataCorruptedError drive_error
  | NoPreviousBlockExecutionStoreTransactionsFoundError
  | MissingChainLockError
  | NotEnoughBlocksForValidSMLError int
  | QuorumsNotFoundError int
  | PublicKeyShareIsNotPresentError string
  | ValidatorSetIsNotInitializedError
  | NotFoundAbciError string
  | UnavailableAbciError

text \<open>Errors of the JavaScript run time keep their meaning across the packages.\<close>

definition lift_js :: "drive_error + 'a \<Rightarrow> dpp_error + 'a" where
  "lift_js m =
     (case m of Inr a \<Rightarrow> Inr a
      | Inl e \<Rightarrow> Inl (if e = TypeError then JsTypeError else Repository e))"

section \<open>ValidationResult\<close>

record 'd validation_result =
  vr_errors :: "consensus_error list"
  vr_data :: "'d option"

definition new_ValidationResult :: "'d validation_result" where
  "new_ValidationResult = \<lparr>vr_errors = [], vr_data = None\<rparr>"

definition ValidationResult_addError :: "consensus_error list \<Rightarrow> 'd validation_result \<Rightarrow> 'd validation_result" where
  "ValidationResult_addError es r = r\<lparr>vr_errors := vr_errors r @ es\<rparr>"

definition ValidationResult_isValid :: "'d validation_result \<Rightarrow> bool" where
  "ValidationResult_isValid r \<longleftrightarrow> vr_errors r = []"

definition ValidationResult_getFirstError :: "'d validation_result \<Rightarrow> consensus_error option" where
  "ValidationResult_getFirstError r = (case vr_errors r of [] \<Rightarrow> None | e # _ \<Rightarrow> Some e)"

definition ValidationResult_merge :: "'c validation_result \<Rightarrow> 'd validation_result \<Rightarrow> 'd validation_result" where
  "ValidationResult_merge r' r =
     (if \<not> ValidationResult_isValid r' then ValidationResult_addError (vr_errors r') r else r)"

definition ValidationResult_setData :: "'d \<Rightarrow> 'd validation_result \<Rightarrow> 'd validation_result" where
  "ValidationResult_setData d r = r\<lparr>vr_data := Some d\<rparr>"

definition with_error :: "consensus_error \<Rightarrow> 'd validation_result" where
  "with_error e = ValidationResult_addError [e] new_ValidationResult"

named_theorems vr_simps \<open>evaluation of validation results\<close>

lemmas [vr_simps] = new_ValidationResult_def ValidationResult_addError_def
  ValidationResult_isValid_def ValidationResult_merge_def ValidationResult_setData_def with_error_def

lemma errors_merge [simp]: "vr_errors (ValidationResult_merge r' r) = vr_errors r @ vr_errors r'"
  by (simp add: vr_simps)

lemma data_merge [simp]: "vr_data (ValidationResult_merge r' r) = vr_data r"
  by (simp add: vr_simps)

lemma isValid_merge [simp]:
  "ValidationResult_isValid (ValidationResult_merge r' r) \<longleftrightarrow>
   ValidationResult_isValid r \<and> ValidationResult_isValid r'"
  by (auto simp: vr_simps)

lemma isValid_new [simp]: "ValidationResult_isValid new_ValidationResult"
  by (simp add: vr_simps)

lemma not_isValid_with_error [simp]: "\<not> ValidationResult_isValid (with_error e)"
  by (simp add: vr_simps)

lemma isValid_setData [simp]:
  "ValidationResult_isValid (ValidationResult_setData d r) = ValidationResult_isValid r"
  by (simp add: vr_simps)

lemma isValid_addError [simp]:
  "ValidationResult_isValid (ValidationResult_addError es r) \<longleftrightarrow> ValidationResult_isValid r \<and> es = []"
  by (auto simp: vr_simps)

lemma data_setData [simp]: "vr_data (ValidationResult_setData d r) = Some d"
  by (simp add: vr_simps)

section \<open>Identities\<close>

record identity_public_key =
  pk_id :: int
  pk_type :: int
  pk_data :: buffer

definition ECDSA_SECP256K1 :: int where "ECDSA_SECP256K1 = 0"
definition BLS12_381 :: int where "BLS12_381 = 1"

record identity =
  id_protocolVersion :: int
  id_id :: ident
  id_publicKeys :: "identity_public_key list"
  id_balance :: int
  id_revision :: int

definition Identity_getPublicKeyById :: "identity \<Rightarrow> int option \<Rightarrow> identity_public_key option" where
  "Identity_getPublicKeyById i keyId = find (\<lambda>k. keyId = Some (pk_id k)) (id_publicKeys i)"

definition Identity_increaseBalance :: "int \<Rightarrow> identity \<Rightarrow> identity" where
  "Identity_increaseBalance amount i = i\<lparr>id_balance := id_balance i + amount\<rparr>"

definition Identity_reduceBalance :: "int \<Rightarrow> identity \<Rightarrow> identity" where
  "Identity_reduceBalance amount i = i\<lparr>id_balance := id_balance i - amount\<rparr>"

definition credits_RATIO :: int where "credits_RATIO = 1000"

definition convertSatoshiToCredits :: "int \<Rightarrow> int" where
  "convertSatoshiToCredits amount = amount * credits_RATIO"

definition convertCreditsToSatoshi :: "int \<Rightarrow> int" where
  "convertCreditsToSatoshi amount = amount div credits_RATIO"

section \<open>Data contracts and documents\<close>

type_synonym index_definition = "(string \<times> string) list \<times> bool"

record contract_document_schema =
  cs_indices :: "index_definition list option"
  cs_schema :: js

record data_contract =
  dc_protocolVersion :: int
  dc_id :: ident
  dc_ownerId :: ident
  dc_schema :: string
  dc_documents :: "(string \<times> contract_document_schema) list"
  dc_defs :: "(string \<times> js) list"

definition DataContract_isDocumentDefined :: "data_contract \<Rightarrow> string \<Rightarrow> bool" where
  "DataContract_isDocumentDefined c type \<longleftrightarrow> map_of (dc_documents c) type \<noteq> None"

definition DataContract_getDocumentSchema :: "data_contract \<Rightarrow> string \<Rightarrow> dpp_error + contract_document_schema" where
  "DataContract_getDocumentSchema c type =
     (case map_of (dc_documents c) type of
        None \<Rightarrow> Inl (ConsensusErrorThrown (InvalidDocumentTypeError type (dc_id c)))
      | Some schema \<Rightarrow> Inr schema)"

record document =
  doc_protocolVersion :: int
  doc_id :: ident
  doc_type :: string
  doc_dataContractId :: ident
  doc_ownerId :: ident
  doc_revision :: int
  doc_createdAt :: "int option"
  doc_updatedAt :: "int option"
  doc_data :: "(string \<times> js) list"

datatype action = CREATE | REPLACE | DELETE

text \<open>
  One transition of a batch. The three classes of the code share this record; \<open>tr_entropy\<close> and
  \<open>tr_createdAt\<close> belong to \<open>CREATE\<close>, \<open>tr_revision\<close> to \<open>REPLACE\<close>, \<open>tr_updatedAt\<close> and \<open>tr_data\<close>
  to both, and the fields a class has not are \<open>None\<close> or empty. A date that is present is a time
  in milliseconds.
\<close>

record document_transition =
  tr_action :: action
  tr_id :: ident
  tr_type :: string
  tr_dataContractId :: ident
  tr_entropy :: buffer
  tr_createdAt :: "int option"
  tr_updatedAt :: "int option"
  tr_revision :: int
  tr_data :: "(string \<times> js) list"

section \<open>Asset lock proofs and state transitions\<close>

record tx_output =
  out_satoshis :: int
  out_isDataOut :: bool
  out_data :: buffer

record core_transaction =
  ct_id :: buffer
  ct_outputs :: "tx_output list"

record instant_lock =
  il_txid :: buffer
  il_requestId :: buffer
  il_signature :: buffer

datatype asset_lock_proof =
    InstantAssetLockProof buffer buffer nat
  | ChainAssetLockProof int buffer

record st_base =
  stb_protocolVersion :: int
  stb_signature :: "buffer option"
  stb_signaturePublicKeyId :: "int option"

datatype state_transition =
    DataContractCreateTransition st_base data_contract buffer
  | DocumentsBatchTransition st_base ident "document_transition list"
  | IdentityCreateTransition st_base asset_lock_proof "identity_public_key list"
  | IdentityTopUpTransition st_base asset_lock_proof ident

fun st_common :: "state_transition \<Rightarrow> st_base" where
  "st_common (DataContractCreateTransition b _ _) = b"
| "st_common (DocumentsBatchTransition b _ _) = b"
| "st_common (IdentityCreateTransition b _ _) = b"
| "st_common (IdentityTopUpTransition b _ _) = b"

text \<open>The state transition without its signature: \<open>toObject({ skipSignature: true })\<close>.\<close>

fun skipSignature :: "state_transition \<Rightarrow> state_transition" where
  "skipSignature (DataContractCreateTransition b c e) =
     DataContractCreateTransition (b\<lparr>stb_signature := None, stb_signaturePublicKeyId := None\<rparr>) c e"
| "skipSignature (DocumentsBatchTransition b i ts) =
     DocumentsBatchTransition (b\<lparr>stb_signature := None, stb_signaturePublicKeyId := None\<rparr>) i ts"
| "skipSignature (IdentityCreateTransition b p ks) =
     IdentityCreateTransition (b\<lparr>stb_signature := None\<rparr>) p ks"
| "skipSignature (IdentityTopUpTransition b p i) =
     IdentityTopUpTransition (b\<lparr>stb_signature := None\<rparr>) p i"

section \<open>What other packages provide\<close>

record env =
  e_hash :: "buffer \<Rightarrow> buffer"
  e_base58 :: "buffer \<Rightarrow> string"
  e_lodashGet :: "(string \<times> js) list \<Rightarrow> string \<Rightarrow> js"
  e_utf8 :: "buffer \<Rightarrow> string"
  e_encode :: "state_transition \<Rightarrow> buffer"
  e_publicKeyHash :: "buffer \<Rightarrow> buffer"
  e_publicKeyError :: "buffer \<Rightarrow> string option"
  e_verifySignature :: "buffer \<Rightarrow> buffer \<Rightarrow> buffer \<Rightarrow> bool"
  e_verifyHashSignature :: "buffer \<Rightarrow> buffer option \<Rightarrow> buffer \<Rightarrow> bool"
  e_parseTransaction :: "buffer \<Rightarrow> string + core_transaction"
  e_outPoint :: "core_transaction \<Rightarrow> nat \<Rightarrow> buffer"
  e_parseOutPoint :: "buffer \<Rightarrow> buffer \<times> nat"
  e_parseInstantLock :: "buffer \<Rightarrow> string + instant_lock"
  e_getRawTransaction :: "buffer \<Rightarrow> int + buffer \<times> int option"
  e_verifyIsLock :: "buffer \<Rightarrow> buffer \<Rightarrow> buffer \<Rightarrow> int \<Rightarrow> int + bool"

text \<open>
  \<open>toBuffer\<close>: four bytes of version, little endian, before the canonical CBOR of the rest;
  \<open>lib/util/serializer.js\<close> refuses an encoding of 16 KiB or more.
\<close>

definition uint32_le :: "int \<Rightarrow> buffer" where
  "uint32_le v = map (\<lambda>i. word_of_int (v div 256 ^ i mod 256)) [0, 1, 2, 3]"

definition MAX_ENCODED_KBYTE_LENGTH :: nat where "MAX_ENCODED_KBYTE_LENGTH = 16"

definition serializer_encode :: "env \<Rightarrow> state_transition \<Rightarrow> dpp_error + buffer" where
  "serializer_encode env st =
     (let encodedData = e_encode env st in
      if length encodedData \<ge> MAX_ENCODED_KBYTE_LENGTH * 1024 then Inl MaxEncodedBytesReachedError
      else Inr encodedData)"

definition StateTransition_toBuffer :: "env \<Rightarrow> state_transition \<Rightarrow> dpp_error + buffer" where
  "StateTransition_toBuffer env st =
     rbind (serializer_encode env st) (\<lambda>bytes.
       Inr (uint32_le (stb_protocolVersion (st_common st)) @ bytes))"

definition PRICE_PER_BYTE :: int where "PRICE_PER_BYTE = 1"

definition calculateStateTransitionFee :: "env \<Rightarrow> state_transition \<Rightarrow> dpp_error + int" where
  "calculateStateTransitionFee env st =
     rbind (StateTransition_toBuffer env (skipSignature st))
       (\<lambda>bytes. Inr (int (length bytes) * PRICE_PER_BYTE))"

definition AssetLockProof_getOutPoint :: "env \<Rightarrow> asset_lock_proof \<Rightarrow> dpp_error + buffer" where
  "AssetLockProof_getOutPoint env p =
     (case p of
        InstantAssetLockProof _ tx outputIndex \<Rightarrow>
          (case e_parseTransaction env tx of
             Inl m \<Rightarrow> Inl (JsError m)
           | Inr t \<Rightarrow> Inr (e_outPoint env t outputIndex))
      | ChainAssetLockProof _ outPoint \<Rightarrow> Inr outPoint)"

definition AssetLockProof_createIdentifier :: "env \<Rightarrow> asset_lock_proof \<Rightarrow> dpp_error + ident" where
  "AssetLockProof_createIdentifier env p =
     rbind (AssetLockProof_getOutPoint env p) (\<lambda>outPoint. Inr (e_hash env outPoint))"

definition generateDataContractId :: "env \<Rightarrow> ident \<Rightarrow> buffer \<Rightarrow> ident" where
  "generateDataContractId env ownerId entropy = e_hash env (ownerId @ entropy)"

definition generateDocumentId :: "env \<Rightarrow> ident \<Rightarrow> ident \<Rightarrow> string \<Rightarrow> buffer \<Rightarrow> ident" where
  "generateDocumentId env contractId ownerId type entropy =
     e_hash env (contractId @ ownerId @ map (\<lambda>c. word_of_nat (of_char c)) type @ entropy)"

definition StateTransition_getOwnerId :: "env \<Rightarrow> state_transition \<Rightarrow> dpp_error + ident" where
  "StateTransition_getOwnerId env st =
     (case st of
        DataContractCreateTransition _ c _ \<Rightarrow> Inr (dc_ownerId c)
      | DocumentsBatchTransition _ ownerId _ \<Rightarrow> Inr ownerId
      | IdentityCreateTransition _ p _ \<Rightarrow> AssetLockProof_createIdentifier env p
      | IdentityTopUpTransition _ _ i \<Rightarrow> Inr i)"

lemma convert_credits_roundtrip: "convertCreditsToSatoshi (convertSatoshiToCredits n) = n"
  by (simp add: convertCreditsToSatoshi_def convertSatoshiToCredits_def credits_RATIO_def)

lemma fee_nonneg: "calculateStateTransitionFee env st = Inr fee \<Longrightarrow> fee \<ge> 4"
  by (auto simp: calculateStateTransitionFee_def StateTransition_toBuffer_def PRICE_PER_BYTE_def
      uint32_le_def result_simps)

text \<open>A fee never exceeds the price of the largest encoding the serializer lets through.\<close>

lemma fee_bounded: "calculateStateTransitionFee env st = Inr fee \<Longrightarrow> fee < 16388"
  by (auto simp: calculateStateTransitionFee_def StateTransition_toBuffer_def PRICE_PER_BYTE_def
      serializer_encode_def MAX_ENCODED_KBYTE_LENGTH_def Let_def uint32_le_def result_simps
      split: if_splits)

end
