(* ===== verification/StateRepository.thy ===== *)
theory StateRepository
  imports DppValues MerkDb
begin

text \<open>
  The state of the platform and the repository js-dpp reads and writes it through:
  \<open>js-drive/lib/dpp/DriveStateRepository.js\<close>, \<open>CachedStateRepositoryDecorator.js\<close>, the store
  repositories of \<open>lib/identity\<close> and \<open>lib/dataContract\<close>.

  \<^item> The first part models the store repositories on the merk stores, on bytes: the encoders
    and decoders of js-dpp, which rest on the package \<open>cbor\<close>, are parameters.
  \<^item> The second part is the decoded state: a \<open>vstore\<close> is a store with the changes pending in
    the block's transaction on top of what is committed. The lemma
    \<open>identity_repository_refines\<close> is the link: on any merk store and any started transaction,
    storing and fetching through bytes is updating and reading the decoded map.
\<close>

section \<open>Store repositories on bytes\<close>

definition decode_stored :: "(buffer \<Rightarrow> drive_error + 'a) \<Rightarrow> buffer option \<Rightarrow> drive_error + 'a option" where
  "decode_stored dec r =
     (case r of None \<Rightarrow> Inr None | Some b \<Rightarrow> rbind (dec b) (\<lambda>x. Inr (Some x)))"

definition IdentityStoreRepository_store ::
  "'db merk \<Rightarrow> (identity \<Rightarrow> buffer) \<Rightarrow> identity \<Rightarrow> 'db \<times> merk_tx option \<Rightarrow>
   drive_error + 'db \<times> merk_tx option" where
  "IdentityStoreRepository_store M enc i s = MerkDbStore_put M (id_id i) (enc i) s"

definition IdentityStoreRepository_fetch ::
  "'db merk \<Rightarrow> (buffer \<Rightarrow> drive_error + identity) \<Rightarrow> ident \<Rightarrow> 'db \<times> merk_tx option \<Rightarrow>
   drive_error + identity option" where
  "IdentityStoreRepository_fetch M dec k s =
     rbind (MerkDbStore_get M (fst s) k (snd s)) (decode_stored dec)"

definition DataContractStoreRepository_store ::
  "'db merk \<Rightarrow> (data_contract \<Rightarrow> buffer) \<Rightarrow> data_contract \<Rightarrow> 'db \<times> merk_tx option \<Rightarrow>
   drive_error + 'db \<times> merk_tx option" where
  "DataContractStoreRepository_store M enc c s = MerkDbStore_put M (dc_id c) (enc c) s"

definition DataContractStoreRepository_fetch ::
  "'db merk \<Rightarrow> (buffer \<Rightarrow> drive_error + data_contract) \<Rightarrow> ident \<Rightarrow> 'db \<times> merk_tx option \<Rightarrow>
   drive_error + data_contract option" where
  "DataContractStoreRepository_fetch M dec k s =
     rbind (MerkDbStore_get M (fst s) k (snd s)) (decode_stored dec)"

definition PublicKeyToIdentityIdStoreRepository_store ::
  "'db merk \<Rightarrow> buffer \<Rightarrow> ident \<Rightarrow> 'db \<times> merk_tx option \<Rightarrow> drive_error + 'db \<times> merk_tx option" where
  "PublicKeyToIdentityIdStoreRepository_store M publicKeyHash identityId s =
     MerkDbStore_put M publicKeyHash identityId s"

text \<open>\<open>new Identifier(buffer)\<close> accepts 32 bytes.\<close>

definition new_Identifier :: "buffer \<Rightarrow> drive_error + ident" where
  "new_Identifier b =
     (if length b \<noteq> 32 then Inl (Error ''Identifier must be 32 long'') else Inr b)"

definition PublicKeyToIdentityIdStoreRepository_fetch ::
  "'db merk \<Rightarrow> buffer \<Rightarrow> 'db \<times> merk_tx option \<Rightarrow> drive_error + ident option" where
  "PublicKeyToIdentityIdStoreRepository_fetch M k s =
     rbind (MerkDbStore_get M (fst s) k (snd s)) (decode_stored new_Identifier)"

definition SpentAssetLockTransactionsRepository_store ::
  "'db merk \<Rightarrow> buffer \<Rightarrow> 'db \<times> merk_tx option \<Rightarrow> drive_error + 'db \<times> merk_tx option" where
  "SpentAssetLockTransactionsRepository_store M outPoint s = MerkDbStore_put M outPoint [1] s"

definition SpentAssetLockTransactionsRepository_fetch ::
  "'db merk \<Rightarrow> buffer \<Rightarrow> 'db \<times> merk_tx option \<Rightarrow> drive_error + buffer option" where
  "SpentAssetLockTransactionsRepository_fetch M k s = MerkDbStore_get M (fst s) k (snd s)"

lemma decode_after_put:
  assumes "merk_documented M" and "dec (enc x) = Inr x"
  shows "rbind (MerkDbStore_get M db k' (Some (Some (decorator_put d k (enc x))))) (decode_stored dec) =
    (if k' = k then Inr (Some x)
     else rbind (MerkDbStore_get M db k' (Some (Some d))) (decode_stored dec))"
  using assms(2)
  by (simp add: MerkDbStore_get_in_tx [OF assms(1)] merk_view.lookup_insert decode_stored_def)

text \<open>
  On a merk store with a started transaction, storing an identity and fetching through the
  same transaction is updating and reading a map from ids to identities, for every id; and when
  the transaction commits, readers without a transaction see the same.
\<close>

theorem identity_repository_refines:
  assumes "merk_documented M" and "dec (enc i) = Inr i" and "decorator_wf d"
  shows "\<exists>d'. IdentityStoreRepository_store M enc i (db, Some (Some d)) = Inr (db, Some (Some d')) \<and>
     (\<forall>k. IdentityStoreRepository_fetch M dec k (db, Some (Some d')) =
        (if k = id_id i then Inr (Some i)
         else IdentityStoreRepository_fetch M dec k (db, Some (Some d)))) \<and>
     (\<forall>db' k. MerkDbTransaction_commit M (db, Some d') = Inr (db', None) \<longrightarrow>
        IdentityStoreRepository_fetch M dec k (db', None) =
        IdentityStoreRepository_fetch M dec k (db, Some (Some d')))"
proof (intro exI conjI allI impI)
  let ?d' = "decorator_put d (id_id i) (enc i)"
  show "IdentityStoreRepository_store M enc i (db, Some (Some d)) = Inr (db, Some (Some ?d'))"
    by (simp add: IdentityStoreRepository_store_def MerkDbStore_put_def)
  show "IdentityStoreRepository_fetch M dec k (db, Some (Some ?d')) =
        (if k = id_id i then Inr (Some i)
         else IdentityStoreRepository_fetch M dec k (db, Some (Some d)))" for k
    using decode_after_put [OF assms(1), of dec enc i db k d "id_id i"] assms(2)
    by (simp add: IdentityStoreRepository_fetch_def)
  fix db' k assume c: "MerkDbTransaction_commit M (db, Some ?d') = Inr (db', None)"
  then obtain d2 where "decorator_persist M db ?d' = Inr (db', d2)"
    by (auto simp: MerkDbTransaction_commit_def split: sum.splits)
  then have "merk_lookup M db' = decorator_view (m_getSync M db) ?d'"
    using decorator_persist_view [OF assms(1) decorator_wf_put [OF assms(3)]] by blast
  then show "IdentityStoreRepository_fetch M dec k (db', None) =
        IdentityStoreRepository_fetch M dec k (db, Some (Some ?d'))"
    by (simp add: IdentityStoreRepository_fetch_def MerkDbStore_get_direct [OF assms(1)]
        MerkDbStore_get_in_tx [OF assms(1)])
qed

theorem identity_repository_refines_witness:
  "\<exists>d'. IdentityStoreRepository_store map_merk (\<lambda>_. [9])
        \<lparr>id_protocolVersion = 1, id_id = [1], id_publicKeys = [], id_balance = 5, id_revision = 0\<rparr>
        (Map.empty, Some (Some new_decorator)) = Inr (Map.empty, Some (Some d')) \<and>
     IdentityStoreRepository_fetch map_merk
        (\<lambda>_. Inr \<lparr>id_protocolVersion = 1, id_id = [1], id_publicKeys = [], id_balance = 5, id_revision = 0\<rparr>)
        [1] (Map.empty, Some (Some d')) =
     Inr (Some \<lparr>id_protocolVersion = 1, id_id = [1], id_publicKeys = [], id_balance = 5, id_revision = 0\<rparr>)"
proof -
  let ?i = "\<lparr>id_protocolVersion = 1, id_id = [1], id_publicKeys = [], id_balance = 5, id_revision = 0\<rparr>"
  show ?thesis
    using identity_repository_refines
      [OF map_merk_documented, of "\<lambda>_. Inr ?i" "\<lambda>_. [9]" ?i new_decorator Map.empty]
    by auto
qed

section \<open>The decoded state\<close>

record 'v vstore =
  vs_db :: "(buffer \<times> 'v) list"
  vs_tx :: "(buffer \<times> 'v option) list"

definition vstore_get :: "bool \<Rightarrow> 'v vstore \<Rightarrow> buffer \<Rightarrow> 'v option" where
  "vstore_get transaction s k =
     (if transaction then
        (case map_of (vs_tx s) k of Some r \<Rightarrow> r | None \<Rightarrow> map_of (vs_db s) k)
      else map_of (vs_db s) k)"

definition vstore_put :: "bool \<Rightarrow> 'v vstore \<Rightarrow> buffer \<Rightarrow> 'v \<Rightarrow> 'v vstore" where
  "vstore_put transaction s k v =
     (if transaction then s\<lparr>vs_tx := AList.update k (Some v) (vs_tx s)\<rparr>
      else s\<lparr>vs_db := AList.update k v (vs_db s)\<rparr>)"

text \<open>As in the merk decorator, a transaction ignores the deletion of a key it only wrote.\<close>

definition vstore_delete :: "bool \<Rightarrow> 'v vstore \<Rightarrow> buffer \<Rightarrow> 'v vstore" where
  "vstore_delete transaction s k =
     (if transaction then
        (if map_of (vs_db s) k = None then s else s\<lparr>vs_tx := AList.update k None (vs_tx s)\<rparr>)
      else s\<lparr>vs_db := AList.delete k (vs_db s)\<rparr>)"

text \<open>A transaction holds one entry per key; of an association list the first entry of a key counts.\<close>

definition vstore_commit :: "'v vstore \<Rightarrow> 'v vstore" where
  "vstore_commit s =
     \<lparr>vs_db = foldr (\<lambda>(k, r). case r of Some v \<Rightarrow> AList.update k v | None \<Rightarrow> AList.delete k)
                (vs_tx s) (vs_db s),
      vs_tx = []\<rparr>"

definition vstore_abort :: "'v vstore \<Rightarrow> 'v vstore" where
  "vstore_abort s = s\<lparr>vs_tx := []\<rparr>"

definition vstore_keys :: "bool \<Rightarrow> 'v vstore \<Rightarrow> buffer set" where
  "vstore_keys transaction s =
     Set.filter (\<lambda>k. vstore_get transaction s k \<noteq> None) (set (keys (vs_tx s)) \<union> set (keys (vs_db s)))"

lemma vstore_keys_iff: "k \<in> vstore_keys tx s \<longleftrightarrow> vstore_get tx s k \<noteq> None"
  by (auto simp: vstore_keys_def vstore_get_def map_of_eq_None_iff dest: map_of_SomeD
      split: option.splits if_splits) (force dest: map_of_SomeD)+

lemma finite_vstore_keys: "finite (vstore_keys tx s)"
  by (simp add: vstore_keys_def)

lemma vstore_commit_view: "vstore_get False (vstore_commit s) k = vstore_get True s k"
proof -
  have "map_of (foldr (\<lambda>(k, r). case r of Some v \<Rightarrow> AList.update k v | None \<Rightarrow> AList.delete k) t db) k =
      (case map_of t k of Some r \<Rightarrow> r | None \<Rightarrow> map_of db k)" for t and db :: "(buffer \<times> 'a) list"
    by (induction t) (auto simp: store_simps split: option.splits)
  then show ?thesis
    by (simp add: vstore_get_def vstore_commit_def)
qed

interpretation vstore_view: kv_store "vstore_get tx" "vstore_put tx" for tx
  by unfold_locales (auto simp: vstore_get_def vstore_put_def store_simps split: option.splits)

section \<open>Ledgers\<close>

text \<open>
  A store of identities seen as a ledger of credits: its total, and how one write changes it.
\<close>

locale identity_ledger =
  kv_store lookup insert
  for lookup :: "'s \<Rightarrow> ident \<Rightarrow> identity option" and insert :: "'s \<Rightarrow> ident \<Rightarrow> identity \<Rightarrow> 's" +
  fixes ids :: "'s \<Rightarrow> ident set"
  assumes finite_ids: "finite (ids s)"
    and ids_lookup: "k \<in> ids s \<longleftrightarrow> lookup s k \<noteq> None"
begin

lemma ids_insert: "ids (insert s k i) = Set.insert k (ids s)"
  by (auto simp: ids_lookup lookup_insert split: if_splits)

lemma total_insert:
  "(\<Sum>k' \<in> ids (insert s k i). case lookup (insert s k i) k' of None \<Rightarrow> 0 | Some j \<Rightarrow> id_balance j) =
   (\<Sum>k' \<in> ids s. case lookup s k' of None \<Rightarrow> 0 | Some j \<Rightarrow> id_balance j) + id_balance i
     - (case lookup s k of None \<Rightarrow> 0 | Some j \<Rightarrow> id_balance j)"
proof -
  let ?b = "\<lambda>t k'. case lookup t k' of None \<Rightarrow> 0 | Some j \<Rightarrow> id_balance j"
  have rest: "(\<Sum>k' \<in> ids s - {k}. ?b (insert s k i) k') = (\<Sum>k' \<in> ids s - {k}. ?b s k')"
    by (rule sum.cong) (auto simp: lookup_insert)
  have "(\<Sum>k' \<in> ids (insert s k i). ?b (insert s k i) k') =
      id_balance i + (\<Sum>k' \<in> ids s - {k}. ?b s k')"
    by (simp add: ids_insert sum.insert_remove finite_ids rest lookup_insert_same)
  moreover have "(\<Sum>k' \<in> ids s. ?b s k') = ?b s k + (\<Sum>k' \<in> ids s - {k}. ?b s k')"
  proof (cases "k \<in> ids s")
    case True
    then show ?thesis by (simp add: sum.remove finite_ids)
  next
    case False
    then show ?thesis by (simp add: ids_lookup)
  qed
  ultimately show ?thesis by simp
qed

lemma nonneg_insert:
  assumes "\<And>k' j. lookup s k' = Some j \<Longrightarrow> id_balance j \<ge> 0" and "id_balance i \<ge> 0"
    and "lookup (insert s k i) k' = Some j"
  shows "id_balance j \<ge> 0"
  using assms by (auto simp: lookup_insert split: if_splits)

end

interpretation identities_view: identity_ledger "vstore_get tx" "vstore_put tx" "vstore_keys tx" for tx
  by unfold_locales (simp_all add: finite_vstore_keys vstore_keys_iff)

section \<open>DriveStateRepository\<close>

record block_header =
  hd_height :: int
  hd_coreChainLockedHeight :: int
  hd_time_seconds :: int
  hd_app_version :: int

record drive_state =
  ds_identities :: "identity vstore"
  ds_publicKeyIds :: "ident vstore"
  ds_dataContracts :: "data_contract vstore"
  ds_documents :: "document vstore"
  ds_spentOutPoints :: "buffer vstore"
  ds_header :: "block_header option"

text \<open>
  Every operation takes the flag \<open>tx\<close>: whether the repository was built with the block's
  transactions. Contracts are always read from what is committed.
\<close>

definition fetchIdentity :: "bool \<Rightarrow> drive_state \<Rightarrow> ident \<Rightarrow> identity option" where
  "fetchIdentity tx s i = vstore_get tx (ds_identities s) i"

definition storeIdentity :: "bool \<Rightarrow> identity \<Rightarrow> drive_state \<Rightarrow> drive_state" where
  "storeIdentity tx i s = s\<lparr>ds_identities := vstore_put tx (ds_identities s) (id_id i) i\<rparr>"

definition storeIdentityPublicKeyHashes :: "bool \<Rightarrow> ident \<Rightarrow> buffer list \<Rightarrow> drive_state \<Rightarrow> drive_state" where
  "storeIdentityPublicKeyHashes tx identityId publicKeyHashes s =
     s\<lparr>ds_publicKeyIds := fold (\<lambda>h t. vstore_put tx t h identityId) publicKeyHashes (ds_publicKeyIds s)\<rparr>"

definition fetchIdentityIdsByPublicKeyHashes :: "bool \<Rightarrow> drive_state \<Rightarrow> buffer list \<Rightarrow> ident option list" where
  "fetchIdentityIdsByPublicKeyHashes tx s publicKeyHashes =
     map (vstore_get tx (ds_publicKeyIds s)) publicKeyHashes"

definition markAssetLockTransactionOutPointAsUsed :: "bool \<Rightarrow> buffer \<Rightarrow> drive_state \<Rightarrow> drive_state" where
  "markAssetLockTransactionOutPointAsUsed tx outPoint s =
     s\<lparr>ds_spentOutPoints := vstore_put tx (ds_spentOutPoints s) outPoint [1]\<rparr>"

definition isAssetLockTransactionOutPointAlreadyUsed :: "bool \<Rightarrow> drive_state \<Rightarrow> buffer \<Rightarrow> bool" where
  "isAssetLockTransactionOutPointAlreadyUsed tx s outPoint \<longleftrightarrow>
     vstore_get tx (ds_spentOutPoints s) outPoint \<noteq> None"

definition fetchDataContract :: "drive_state \<Rightarrow> ident \<Rightarrow> data_contract option" where
  "fetchDataContract s i = vstore_get False (ds_dataContracts s) i"

definition storeDataContract :: "bool \<Rightarrow> data_contract \<Rightarrow> drive_state \<Rightarrow> drive_state" where
  "storeDataContract tx c s = s\<lparr>ds_dataContracts := vstore_put tx (ds_dataContracts s) (dc_id c) c\<rparr>"

definition storeDocument :: "bool \<Rightarrow> document \<Rightarrow> drive_state \<Rightarrow> drive_state" where
  "storeDocument tx d s = s\<lparr>ds_documents := vstore_put tx (ds_documents s) (doc_id d) d\<rparr>"

definition removeDocument :: "bool \<Rightarrow> ident \<Rightarrow> drive_state \<Rightarrow> drive_state" where
  "removeDocument tx i s = s\<lparr>ds_documents := vstore_delete tx (ds_documents s) i\<rparr>"

definition fetchTransaction :: "env \<Rightarrow> buffer \<Rightarrow> dpp_error + (buffer \<times> int option) option" where
  "fetchTransaction env i =
     (case e_getRawTransaction env i of
        Inr t \<Rightarrow> Inr (Some t)
      | Inl code \<Rightarrow> if code = -5 then Inr None else Inl (CoreRpcError code))"

definition fetchLatestPlatformBlockHeader :: "drive_state \<Rightarrow> block_header option" where
  "fetchLatestPlatformBlockHeader s = ds_header s"

definition verifyInstantLock :: "env \<Rightarrow> drive_state \<Rightarrow> instant_lock \<Rightarrow> dpp_error + bool" where
  "verifyInstantLock env s instantLock =
     (case fetchLatestPlatformBlockHeader s of
        None \<Rightarrow> Inl JsTypeError
      | Some header \<Rightarrow>
          (case e_verifyIsLock env (il_requestId instantLock) (il_txid instantLock)
                  (il_signature instantLock) (hd_coreChainLockedHeight header) of
             Inr isVerified \<Rightarrow> Inr isVerified
           | Inl code \<Rightarrow> if code \<in> {-8, -5, -32700} then Inr False else Inl (CoreRpcError code)))"

text \<open>The credits of all identities a reader sees.\<close>

definition total_credits :: "bool \<Rightarrow> drive_state \<Rightarrow> int" where
  "total_credits tx s =
     (\<Sum>k \<in> vstore_keys tx (ds_identities s).
        case vstore_get tx (ds_identities s) k of None \<Rightarrow> 0 | Some i \<Rightarrow> id_balance i)"

definition balances_nonneg :: "bool \<Rightarrow> drive_state \<Rightarrow> bool" where
  "balances_nonneg tx s \<longleftrightarrow> (\<forall>k i. fetchIdentity tx s k = Some i \<longrightarrow> id_balance i \<ge> 0)"

text \<open>Every identity is stored under its own id.\<close>

definition identities_keyed :: "bool \<Rightarrow> drive_state \<Rightarrow> bool" where
  "identities_keyed tx s \<longleftrightarrow> (\<forall>k i. fetchIdentity tx s k = Some i \<longrightarrow> id_id i = k)"

named_theorems repo_simps \<open>what a repository operation leaves alone and what it changes\<close>

lemma fetchIdentity_storeIdentity [repo_simps]:
  "fetchIdentity tx (storeIdentity tx i s) k = (if k = id_id i then Some i else fetchIdentity tx s k)"
  by (simp add: fetchIdentity_def storeIdentity_def vstore_view.lookup_insert)

lemma total_storeIdentity [repo_simps]:
  "total_credits tx (storeIdentity tx i s) = total_credits tx s + id_balance i
     - (case fetchIdentity tx s (id_id i) of None \<Rightarrow> 0 | Some j \<Rightarrow> id_balance j)"
  using identities_view.total_insert [of tx "ds_identities s" "id_id i" i]
  by (simp add: total_credits_def storeIdentity_def fetchIdentity_def)

lemma spent_mark [repo_simps]:
  "isAssetLockTransactionOutPointAlreadyUsed tx (markAssetLockTransactionOutPointAsUsed tx p s) q
     \<longleftrightarrow> q = p \<or> isAssetLockTransactionOutPointAlreadyUsed tx s q"
  by (simp add: isAssetLockTransactionOutPointAlreadyUsed_def markAssetLockTransactionOutPointAsUsed_def
      vstore_view.lookup_insert)

lemma publicKeyIds_store [repo_simps]:
  "fetchIdentityIdsByPublicKeyHashes tx (storeIdentityPublicKeyHashes tx i hs s) qs =
     map (\<lambda>q. if q \<in> set hs then Some i else vstore_get tx (ds_publicKeyIds s) q) qs"
  by (simp add: fetchIdentityIdsByPublicKeyHashes_def storeIdentityPublicKeyHashes_def
      vstore_view.lookup_insert_each)

lemma fetchDataContract_store_tx [repo_simps]:
  "fetchDataContract (storeDataContract True c s) k = fetchDataContract s k"
  by (simp add: fetchDataContract_def storeDataContract_def vstore_get_def vstore_put_def)

lemma fetchIdentity_frame [repo_simps]:
  "fetchIdentity tx (storeIdentityPublicKeyHashes tx i hs s) k = fetchIdentity tx s k"
  "fetchIdentity tx (markAssetLockTransactionOutPointAsUsed tx p s) k = fetchIdentity tx s k"
  "fetchIdentity tx (storeDataContract tx c s) k = fetchIdentity tx s k"
  "fetchIdentity tx (storeDocument tx d s) k = fetchIdentity tx s k"
  "fetchIdentity tx (removeDocument tx j s) k = fetchIdentity tx s k"
  by (simp_all add: fetchIdentity_def storeIdentityPublicKeyHashes_def storeDataContract_def
      markAssetLockTransactionOutPointAsUsed_def storeDocument_def removeDocument_def)

lemma total_frame [repo_simps]:
  "total_credits tx (storeIdentityPublicKeyHashes tx i hs s) = total_credits tx s"
  "total_credits tx (markAssetLockTransactionOutPointAsUsed tx p s) = total_credits tx s"
  "total_credits tx (storeDataContract tx c s) = total_credits tx s"
  "total_credits tx (storeDocument tx d s) = total_credits tx s"
  "total_credits tx (removeDocument tx j s) = total_credits tx s"
  by (simp_all add: total_credits_def storeIdentityPublicKeyHashes_def storeDataContract_def
      markAssetLockTransactionOutPointAsUsed_def storeDocument_def removeDocument_def)

lemma spent_frame [repo_simps]:
  "isAssetLockTransactionOutPointAlreadyUsed tx (storeIdentity tx i s) q =
     isAssetLockTransactionOutPointAlreadyUsed tx s q"
  "isAssetLockTransactionOutPointAlreadyUsed tx (storeIdentityPublicKeyHashes tx j hs s) q =
     isAssetLockTransactionOutPointAlreadyUsed tx s q"
  "isAssetLockTransactionOutPointAlreadyUsed tx (storeDataContract tx c s) q =
     isAssetLockTransactionOutPointAlreadyUsed tx s q"
  "isAssetLockTransactionOutPointAlreadyUsed tx (storeDocument tx d s) q =
     isAssetLockTransactionOutPointAlreadyUsed tx s q"
  "isAssetLockTransactionOutPointAlreadyUsed tx (removeDocument tx j s) q =
     isAssetLockTransactionOutPointAlreadyUsed tx s q"
  by (simp_all add: isAssetLockTransactionOutPointAlreadyUsed_def storeIdentity_def
      storeIdentityPublicKeyHashes_def storeDataContract_def storeDocument_def removeDocument_def)

lemma header_frame [simp]:
  "ds_header (storeIdentity tx i s) = ds_header s"
  "ds_header (storeIdentityPublicKeyHashes tx j hs s) = ds_header s"
  "ds_header (markAssetLockTransactionOutPointAsUsed tx p s) = ds_header s"
  "ds_header (storeDataContract tx c s) = ds_header s"
  "ds_header (storeDocument tx d s) = ds_header s"
  "ds_header (removeDocument tx j s) = ds_header s"
  by (simp_all add: storeIdentity_def storeIdentityPublicKeyHashes_def storeDataContract_def
      markAssetLockTransactionOutPointAsUsed_def storeDocument_def removeDocument_def)

section \<open>CachedStateRepositoryDecorator\<close>

text \<open>
  The decorator keeps fetched contracts in an LRU cache of another package: \<open>evict\<close> stands for
  what the cache forgets when an entry is set.
\<close>

type_synonym contract_cache = "(ident \<times> data_contract) list"

definition CachedStateRepository_fetchDataContract ::
  "(contract_cache \<Rightarrow> contract_cache) \<Rightarrow> drive_state \<times> contract_cache \<Rightarrow> ident \<Rightarrow>
   data_contract option \<times> contract_cache" where
  "CachedStateRepository_fetchDataContract evict sc i =
     (case map_of (snd sc) i of
        Some c \<Rightarrow> (Some c, snd sc)
      | None \<Rightarrow>
          (case fetchDataContract (fst sc) i of
             None \<Rightarrow> (None, snd sc)
           | Some c \<Rightarrow> (Some c, evict (AList.update i c (snd sc)))))"

definition CachedStateRepository_storeDataContract ::
  "bool \<Rightarrow> data_contract \<Rightarrow> drive_state \<times> contract_cache \<Rightarrow> drive_state \<times> contract_cache" where
  "CachedStateRepository_storeDataContract tx c sc = (storeDataContract tx c (fst sc), snd sc)"

definition cache_coherent :: "drive_state \<times> contract_cache \<Rightarrow> bool" where
  "cache_coherent sc \<longleftrightarrow>
     (\<forall>i c. map_of (snd sc) i = Some c \<longrightarrow> fetchDataContract (fst sc) i = Some c)"

text \<open>
  The contract cache is transparent: while it is coherent, the decorator returns what the
  repository returns, and both fetching and storing a contract in the block's transaction keep
  it coherent, whatever the cache evicts.
\<close>

theorem contract_cache_transparent:
  assumes "cache_coherent (s, c)" and "\<And>m. map_of (evict m) \<subseteq>\<^sub>m map_of m"
  shows "fst (CachedStateRepository_fetchDataContract evict (s, c) i) = fetchDataContract s i \<and>
    cache_coherent (s, snd (CachedStateRepository_fetchDataContract evict (s, c) i)) \<and>
    cache_coherent (CachedStateRepository_storeDataContract True contract (s, c))"
proof (intro conjI)
  show "fst (CachedStateRepository_fetchDataContract evict (s, c) i) = fetchDataContract s i"
    using assms(1)
    by (auto simp: CachedStateRepository_fetchDataContract_def cache_coherent_def split: option.splits)
  show "cache_coherent (CachedStateRepository_storeDataContract True contract (s, c))"
    using assms(1) by (simp add: cache_coherent_def CachedStateRepository_storeDataContract_def repo_simps)
  have "fetchDataContract s k = Some d"
    if "map_of (evict (AList.update i e c)) k = Some d" and "fetchDataContract s i = Some e" for k d e
  proof -
    have "map_of (AList.update i e c) k = Some d"
      using that(1) assms(2) [of "AList.update i e c"] by (auto simp: map_le_def dom_def)
    then show ?thesis
      using that(2) assms(1) by (auto simp: cache_coherent_def store_simps split: if_splits)
  qed
  then show "cache_coherent (s, snd (CachedStateRepository_fetchDataContract evict (s, c) i))"
    using assms(1)
    by (auto simp: CachedStateRepository_fetchDataContract_def cache_coherent_def split: option.splits)
qed

definition empty_vstore :: "'v vstore" where
  "empty_vstore = \<lparr>vs_db = [], vs_tx = []\<rparr>"

definition empty_state :: drive_state where
  "empty_state = \<lparr>ds_identities = empty_vstore, ds_publicKeyIds = empty_vstore,
     ds_dataContracts = empty_vstore, ds_documents = empty_vstore,
     ds_spentOutPoints = empty_vstore, ds_header = None\<rparr>"

definition sample_contract :: data_contract where
  "sample_contract = \<lparr>dc_protocolVersion = 1, dc_id = [7], dc_ownerId = [8], dc_schema = [],
     dc_documents = [], dc_defs = []\<rparr>"

theorem contract_cache_transparent_witness:
  "fst (CachedStateRepository_fetchDataContract (take 1)
      (storeDataContract False sample_contract empty_state, []) [7]) = Some sample_contract"
proof -
  let ?s = "storeDataContract False sample_contract empty_state"
  have evict: "map_of (take 1 m) \<subseteq>\<^sub>m map_of m" for m :: contract_cache
    by (cases m) (auto simp: map_le_def)
  have "fetchDataContract ?s [7] = Some sample_contract"
    by (simp add: fetchDataContract_def storeDataContract_def sample_contract_def vstore_get_def
        vstore_put_def empty_state_def empty_vstore_def)
  moreover have "cache_coherent (?s, [])" by (simp add: cache_coherent_def)
  ultimately show ?thesis using contract_cache_transparent [of ?s "[]" "take 1" "[7]"] evict by simp
qed

end
