(* ===== verification/IdentityTransitions.thy ===== *)
theory IdentityTransitions
  imports StateRepository
begin

text \<open>
  Identity state transitions of js-dpp: public keys and identities
  (\<open>lib/identity/validation\<close>), asset lock proofs
  (\<open>lib/identity/stateTransition/assetLockProof\<close>), and the validation and application of
  \<open>IdentityCreateTransition\<close> and \<open>IdentityTopUpTransition\<close>. A raw transition is modelled by its
  typed form, the shape its JSON schema enforces; the schema validator is the parameter
  \<open>ajv\<close>, which returns the messages of the errors it finds.
\<close>

section \<open>Shared checks\<close>

definition JsonSchemaValidator_validate :: "string list \<Rightarrow> 'd validation_result" where
  "JsonSchemaValidator_validate messages =
     ValidationResult_addError (map JsonSchemaError messages) new_ValidationResult"

lemma schema_valid [simp]:
  "ValidationResult_isValid (JsonSchemaValidator_validate ms) \<longleftrightarrow> ms = []"
  by (simp add: JsonSchemaValidator_validate_def vr_simps)

lemma schema_errors [simp]: "vr_errors (JsonSchemaValidator_validate ms) = map JsonSchemaError ms"
  by (simp add: JsonSchemaValidator_validate_def vr_simps)

definition latestVersion :: int where "latestVersion = 2"

definition version_compatibility :: "(int \<times> int) list" where
  "version_compatibility = [(1, 1), (2, 1)]"

definition validateProtocolVersion :: "int \<Rightarrow> int \<Rightarrow> dpp_error + unit validation_result" where
  "validateProtocolVersion dppVersion protocolVersion =
     (if protocolVersion > latestVersion then
        Inr (with_error (UnsupportedProtocolVersionError protocolVersion latestVersion))
      else
        (let maxProtocolVersion = max protocolVersion dppVersion;
             minProtocolVersion = min protocolVersion dppVersion in
         case map_of version_compatibility maxProtocolVersion of
           None \<Rightarrow> Inl (CompatibleProtocolVersionIsNotDefinedError maxProtocolVersion)
         | Some minimal \<Rightarrow>
             if minProtocolVersion < minimal then
               Inr (with_error (IncompatibleProtocolVersionError protocolVersion minimal))
             else Inr new_ValidationResult))"

definition validateIdentityExistence ::
  "bool \<Rightarrow> drive_state \<Rightarrow> ident \<Rightarrow> (identity option) validation_result" where
  "validateIdentityExistence tx s identityId =
     (let identity = fetchIdentity tx s identityId;
          result = (if identity = None then with_error (IdentityNotFoundError identityId)
                    else new_ValidationResult)
      in ValidationResult_setData identity result)"

section \<open>Public keys\<close>

text \<open>The values of \<open>f\<close> on the elements whose \<open>g\<close> occurred before, in order.\<close>

fun repeated :: "('x \<Rightarrow> 'g) \<Rightarrow> ('x \<Rightarrow> 'f) \<Rightarrow> 'g list \<Rightarrow> 'x list \<Rightarrow> 'f list" where
  "repeated g f seen [] = []"
| "repeated g f seen (x # xs) =
     (if g x \<in> set seen then f x # repeated g f (g x # seen) xs else repeated g f (g x # seen) xs)"

lemma repeated_Nil_iff:
  "repeated g f seen xs = [] \<longleftrightarrow> distinct (map g xs) \<and> set (map g xs) \<inter> set seen = {}"
  by (induction xs arbitrary: seen) auto

definition key_schema_result :: "(identity_public_key \<Rightarrow> string list) \<Rightarrow> identity_public_key list \<Rightarrow> unit validation_result" where
  "key_schema_result ajv ks =
     fold (\<lambda>k r. ValidationResult_merge (JsonSchemaValidator_validate (ajv k) :: unit validation_result) r)
       ks new_ValidationResult"

definition validatePublicKeys ::
  "env \<Rightarrow> (identity_public_key \<Rightarrow> string list) \<Rightarrow> identity_public_key list \<Rightarrow> unit validation_result" where
  "validatePublicKeys env ajv rawPublicKeys =
     (let result = key_schema_result ajv rawPublicKeys in
      if \<not> ValidationResult_isValid result then result
      else
        (let duplicatedIds = repeated pk_id pk_id [] rawPublicKeys;
             result = (if duplicatedIds \<noteq> [] then
                 ValidationResult_addError [DuplicatedIdentityPublicKeyIdError duplicatedIds] result else result);
             duplicatedKeyIds = repeated pk_data pk_id [] rawPublicKeys;
             result = (if duplicatedKeyIds \<noteq> [] then
                 ValidationResult_addError [DuplicatedIdentityPublicKeyError duplicatedKeyIds] result else result)
         in fold (\<lambda>k r. case e_publicKeyError env (pk_data k) of
                    None \<Rightarrow> r
                  | Some message \<Rightarrow>
                      ValidationResult_addError [InvalidIdentityPublicKeyDataError (pk_id k) message] r)
              rawPublicKeys result))"

lemma key_schema_valid:
  "ValidationResult_isValid (key_schema_result ajv ks) \<longleftrightarrow> (\<forall>k \<in> set ks. ajv k = [])"
proof -
  have "ValidationResult_isValid (fold (\<lambda>k r. ValidationResult_merge
      (JsonSchemaValidator_validate (ajv k) :: unit validation_result) r) ks r) \<longleftrightarrow>
      ValidationResult_isValid r \<and> (\<forall>k \<in> set ks. ajv k = [])" for r :: "unit validation_result"
    by (induction ks arbitrary: r) auto
  then show ?thesis by (simp add: key_schema_result_def)
qed

lemma key_data_valid:
  "ValidationResult_isValid (fold (\<lambda>k r. case e_publicKeyError env (pk_data k) of
        None \<Rightarrow> r
      | Some message \<Rightarrow> ValidationResult_addError [InvalidIdentityPublicKeyDataError (pk_id k) message] r) ks r)
   \<longleftrightarrow> ValidationResult_isValid r \<and> (\<forall>k \<in> set ks. e_publicKeyError env (pk_data k) = None)"
  by (induction ks arbitrary: r) (auto simp: vr_simps split: option.splits)

lemma validatePublicKeys_valid:
  "ValidationResult_isValid (validatePublicKeys env ajv ks) \<longleftrightarrow>
   (\<forall>k \<in> set ks. ajv k = [] \<and> e_publicKeyError env (pk_data k) = None) \<and>
   distinct (map pk_id ks) \<and> distinct (map pk_data ks)"
  unfolding validatePublicKeys_def Let_def
  using key_schema_valid [of ajv ks]
  by (auto simp: key_data_valid repeated_Nil_iff)

section \<open>Asset lock proofs\<close>

definition nth_output :: "core_transaction \<Rightarrow> nat \<Rightarrow> tx_output option" where
  "nth_output t i = (if i < length (ct_outputs t) then Some (ct_outputs t ! i) else None)"

definition parse_or_throw :: "env \<Rightarrow> buffer \<Rightarrow> dpp_error + core_transaction" where
  "parse_or_throw env raw =
     (case e_parseTransaction env raw of Inl m \<Rightarrow> Inl (JsError m) | Inr t \<Rightarrow> Inr t)"

definition fetchAssetLockTransactionOutput ::
  "env \<Rightarrow> asset_lock_proof \<Rightarrow> dpp_error + tx_output option" where
  "fetchAssetLockTransactionOutput env p =
     (case p of
        InstantAssetLockProof _ raw outputIndex \<Rightarrow>
          rbind (parse_or_throw env raw) (\<lambda>t. Inr (nth_output t outputIndex))
      | ChainAssetLockProof _ outPoint \<Rightarrow>
          (let (transactionHash, outputIndex) = e_parseOutPoint env outPoint in
           rbind (fetchTransaction env transactionHash) (\<lambda>raw.
             case raw of
               None \<Rightarrow> Inl (AssetLockTransactionIsNotFoundError transactionHash)
             | Some (data, _) \<Rightarrow>
                 rbind (parse_or_throw env data) (\<lambda>t. Inr (nth_output t outputIndex)))))"

definition output_satoshis :: "tx_output option \<Rightarrow> dpp_error + int" where
  "output_satoshis out = (case out of None \<Rightarrow> Inl JsTypeError | Some t \<Rightarrow> Inr (out_satoshis t))"

definition fetchAssetLockPublicKeyHash :: "env \<Rightarrow> asset_lock_proof \<Rightarrow> dpp_error + buffer" where
  "fetchAssetLockPublicKeyHash env p =
     rbind (fetchAssetLockTransactionOutput env p) (\<lambda>out.
       case out of None \<Rightarrow> Inl AssetLockOutputNotFoundError | Some t \<Rightarrow> Inr (out_data t))"

definition validateAssetLockTransaction ::
  "env \<Rightarrow> bool \<Rightarrow> drive_state \<Rightarrow> buffer \<Rightarrow> nat \<Rightarrow> (buffer \<times> core_transaction) validation_result" where
  "validateAssetLockTransaction env tx s rawTransaction outputIndex =
     (case e_parseTransaction env rawTransaction of
        Inl message \<Rightarrow> with_error (InvalidIdentityAssetLockTransactionError message)
      | Inr transaction \<Rightarrow>
          (case nth_output transaction outputIndex of
             None \<Rightarrow> with_error (IdentityAssetLockTransactionOutputNotFoundError outputIndex)
           | Some out \<Rightarrow>
               if \<not> out_isDataOut out then
                 with_error (InvalidIdentityAssetLockTransactionOutputError outputIndex)
               else if length (out_data out) \<noteq> 20 then
                 with_error (InvalidAssetLockTransactionOutputReturnSize outputIndex)
               else if isAssetLockTransactionOutPointAlreadyUsed tx s (e_outPoint env transaction outputIndex) then
                 with_error (IdentityAssetLockTransactionOutPointAlreadyExistsError (ct_id transaction) outputIndex)
               else ValidationResult_setData (out_data out, transaction) new_ValidationResult))"

definition validateInstantAssetLockProofStructure ::
  "env \<Rightarrow> (asset_lock_proof \<Rightarrow> string list) \<Rightarrow> bool \<Rightarrow> drive_state \<Rightarrow> asset_lock_proof \<Rightarrow>
   buffer \<Rightarrow> buffer \<Rightarrow> nat \<Rightarrow> dpp_error + buffer validation_result" where
  "validateInstantAssetLockProofStructure env ajv tx s p rawLock rawTransaction outputIndex =
     (let result = (JsonSchemaValidator_validate (ajv p) :: buffer validation_result) in
      if \<not> ValidationResult_isValid result then Inr result
      else case e_parseInstantLock env rawLock of
          Inl message \<Rightarrow> Inr (with_error (InvalidInstantAssetLockProofError message))
        | Inr instantLock \<Rightarrow>
            rbind (verifyInstantLock env s instantLock) (\<lambda>verified.
              if \<not> verified then Inr (with_error InvalidIdentityAssetLockProofSignatureError)
              else
                (let validated = validateAssetLockTransaction env tx s rawTransaction outputIndex;
                     result = ValidationResult_merge validated result in
                 if \<not> ValidationResult_isValid result then Inr result
                 else case vr_data validated of
                     None \<Rightarrow> Inl JsTypeError
                   | Some (publicKeyHash, transaction) \<Rightarrow>
                       if il_txid instantLock \<noteq> ct_id transaction then
                         Inr (with_error (IdentityAssetLockProofLockedTransactionMismatchError
                                (il_txid instantLock) (ct_id transaction)))
                       else Inr (ValidationResult_setData publicKeyHash result))))"

definition validateChainAssetLockProofStructure ::
  "env \<Rightarrow> (asset_lock_proof \<Rightarrow> string list) \<Rightarrow> bool \<Rightarrow> drive_state \<Rightarrow> asset_lock_proof \<Rightarrow>
   int \<Rightarrow> buffer \<Rightarrow> dpp_error + buffer validation_result" where
  "validateChainAssetLockProofStructure env ajv tx s p proofHeight outPointBuffer =
     (let result = (JsonSchemaValidator_validate (ajv p) :: buffer validation_result) in
      if \<not> ValidationResult_isValid result then Inr result
      else case fetchLatestPlatformBlockHeader s of
          None \<Rightarrow> Inl JsTypeError
        | Some header \<Rightarrow>
            (let currentHeight = hd_coreChainLockedHeight header in
             if currentHeight < proofHeight then
               Inr (with_error (InvalidAssetLockProofCoreChainHeightError proofHeight currentHeight))
             else
               (let (transactionHash, outputIndex) = e_parseOutPoint env outPointBuffer in
                rbind (fetchTransaction env transactionHash) (\<lambda>rawTransaction.
                  case rawTransaction of
                    None \<Rightarrow> Inr (with_error (IdentityAssetLockTransactionIsNotFoundError transactionHash))
                  | Some (data, height) \<Rightarrow>
                      if height = None \<or> height = Some 0 \<or> (\<exists>h \<in> set_option height. proofHeight < h) then
                        Inr (with_error (InvalidAssetLockProofTransactionHeightError proofHeight height))
                      else
                        (let validated = validateAssetLockTransaction env tx s data outputIndex;
                             result = ValidationResult_merge validated result in
                         if \<not> ValidationResult_isValid result then Inr result
                         else case vr_data validated of
                             None \<Rightarrow> Inl JsTypeError
                           | Some (publicKeyHash, _) \<Rightarrow>
                               Inr (ValidationResult_setData publicKeyHash result))))))"

text \<open>\<open>proofValidationFunctionsByType[type]\<close>, from \<open>StateTransitionFacade\<close>.\<close>

definition validateAssetLockProof ::
  "env \<Rightarrow> (asset_lock_proof \<Rightarrow> string list) \<Rightarrow> bool \<Rightarrow> drive_state \<Rightarrow> asset_lock_proof \<Rightarrow>
   dpp_error + buffer validation_result" where
  "validateAssetLockProof env ajv tx s p =
     (case p of
        InstantAssetLockProof rawLock raw outputIndex \<Rightarrow>
          validateInstantAssetLockProofStructure env ajv tx s p rawLock raw outputIndex
      | ChainAssetLockProof height outPoint \<Rightarrow>
          validateChainAssetLockProofStructure env ajv tx s p height outPoint)"

section \<open>IdentityCreateTransition\<close>

record schemas =
  sc_transition :: "state_transition \<Rightarrow> string list"
  sc_publicKey :: "identity_public_key \<Rightarrow> string list"
  sc_proof :: "asset_lock_proof \<Rightarrow> string list"

text \<open>\<open>result.merge(check)\<close>, then go on only while the result is valid.\<close>

definition and_then ::
  "dpp_error + 'd validation_result \<Rightarrow> (unit \<Rightarrow> dpp_error + 'c validation_result) \<Rightarrow>
   dpp_error + unit validation_result" where
  "and_then m f =
     rbind m (\<lambda>r.
       let result = ValidationResult_merge r new_ValidationResult in
       if \<not> ValidationResult_isValid result then Inr result
       else rbind (f ()) (\<lambda>r'. Inr (ValidationResult_merge r' result)))"

definition run_valid :: "dpp_error + 'd validation_result \<Rightarrow> bool" where
  "run_valid m \<longleftrightarrow> (case m of Inl _ \<Rightarrow> False | Inr r \<Rightarrow> ValidationResult_isValid r)"

lemma run_valid_iff: "run_valid m \<longleftrightarrow> (\<exists>r. m = Inr r \<and> ValidationResult_isValid r)"
  by (auto simp: run_valid_def split: sum.splits)

lemma run_valid_Inl [simp]: "\<not> run_valid (Inl e)"
  by (simp add: run_valid_def)

lemma run_valid_Inr [simp]: "run_valid (Inr r) \<longleftrightarrow> ValidationResult_isValid r"
  by (simp add: run_valid_def)

lemma run_valid_and_then [simp]: "run_valid (and_then m f) \<longleftrightarrow> run_valid m \<and> run_valid (f ())"
  by (cases m; cases "f ()") (auto simp: and_then_def Let_def)

definition validateIdentityCreateTransitionBasic ::
  "env \<Rightarrow> schemas \<Rightarrow> int \<Rightarrow> bool \<Rightarrow> drive_state \<Rightarrow> st_base \<Rightarrow> asset_lock_proof \<Rightarrow>
   identity_public_key list \<Rightarrow> dpp_error + unit validation_result" where
  "validateIdentityCreateTransitionBasic env sc dppVersion tx s b p publicKeys =
     and_then (Inr (JsonSchemaValidator_validate
                (sc_transition sc (IdentityCreateTransition b p publicKeys)) :: unit validation_result))
       (\<lambda>_. and_then (validateProtocolVersion dppVersion (stb_protocolVersion b))
       (\<lambda>_. and_then (Inr (validatePublicKeys env (sc_publicKey sc) publicKeys))
       (\<lambda>_. validateAssetLockProof env (sc_proof sc) tx s p)))"

definition validateIdentityPublicKeysUniqueness ::
  "env \<Rightarrow> bool \<Rightarrow> drive_state \<Rightarrow> identity_public_key list \<Rightarrow> unit validation_result" where
  "validateIdentityPublicKeysUniqueness env tx s identityPublicKeys =
     (let hashes = map (\<lambda>k. e_publicKeyHash env (pk_data k)) identityPublicKeys;
          identityIds = fetchIdentityIdsByPublicKeyHashes tx s hashes
      in fold (\<lambda>(h, i) r. if i \<noteq> None then
                 ValidationResult_addError [IdentityPublicKeyAlreadyExistsError h] r else r)
           (zip hashes identityIds) new_ValidationResult)"

definition validateIdentityCreateTransitionState ::
  "env \<Rightarrow> bool \<Rightarrow> drive_state \<Rightarrow> asset_lock_proof \<Rightarrow> identity_public_key list \<Rightarrow>
   dpp_error + unit validation_result" where
  "validateIdentityCreateTransitionState env tx s p publicKeys =
     rbind (AssetLockProof_createIdentifier env p) (\<lambda>identityId.
       let result = (if fetchIdentity tx s identityId \<noteq> None
                     then with_error (IdentityAlreadyExistsError identityId) else new_ValidationResult) in
       if \<not> ValidationResult_isValid result then Inr result
       else Inr (ValidationResult_merge (validateIdentityPublicKeysUniqueness env tx s publicKeys) result))"

definition applyIdentityCreateTransition ::
  "env \<Rightarrow> bool \<Rightarrow> st_base \<Rightarrow> asset_lock_proof \<Rightarrow> identity_public_key list \<Rightarrow> drive_state \<Rightarrow>
   dpp_error + drive_state" where
  "applyIdentityCreateTransition env tx b p publicKeys s =
     rbind (fetchAssetLockTransactionOutput env p) (\<lambda>out.
     rbind (AssetLockProof_getOutPoint env p) (\<lambda>outPoint.
     rbind (output_satoshis out) (\<lambda>satoshis.
     rbind (AssetLockProof_createIdentifier env p) (\<lambda>identityId.
       let identity = \<lparr>id_protocolVersion = stb_protocolVersion b, id_id = identityId,
             id_publicKeys = publicKeys, id_balance = convertSatoshiToCredits satoshis, id_revision = 0\<rparr>;
           s = storeIdentity tx identity s;
           publicKeyHashes = map (\<lambda>k. e_publicKeyHash env (pk_data k)) publicKeys;
           s = storeIdentityPublicKeyHashes tx identityId publicKeyHashes s
       in Inr (markAssetLockTransactionOutPointAsUsed tx outPoint s)))))"

section \<open>IdentityTopUpTransition\<close>

definition validateIdentityTopUpTransitionBasic ::
  "env \<Rightarrow> schemas \<Rightarrow> int \<Rightarrow> bool \<Rightarrow> drive_state \<Rightarrow> st_base \<Rightarrow> asset_lock_proof \<Rightarrow> ident \<Rightarrow>
   dpp_error + unit validation_result" where
  "validateIdentityTopUpTransitionBasic env sc dppVersion tx s b p identityId =
     and_then (Inr (JsonSchemaValidator_validate
                (sc_transition sc (IdentityTopUpTransition b p identityId)) :: unit validation_result))
       (\<lambda>_. and_then (validateProtocolVersion dppVersion (stb_protocolVersion b))
       (\<lambda>_. validateAssetLockProof env (sc_proof sc) tx s p))"

definition validateIdentityTopUpTransitionState :: "dpp_error + unit validation_result" where
  "validateIdentityTopUpTransitionState = Inr new_ValidationResult"

definition applyIdentityTopUpTransition ::
  "env \<Rightarrow> bool \<Rightarrow> asset_lock_proof \<Rightarrow> ident \<Rightarrow> drive_state \<Rightarrow> dpp_error + drive_state" where
  "applyIdentityTopUpTransition env tx p identityId s =
     rbind (fetchAssetLockTransactionOutput env p) (\<lambda>out.
     rbind (AssetLockProof_getOutPoint env p) (\<lambda>outPoint.
     rbind (output_satoshis out) (\<lambda>satoshis.
       case fetchIdentity tx s identityId of
         None \<Rightarrow> Inl JsTypeError
       | Some identity \<Rightarrow>
           Inr (markAssetLockTransactionOutPointAsUsed tx outPoint
                  (storeIdentity tx (Identity_increaseBalance (convertSatoshiToCredits satoshis) identity) s)))))"

section \<open>An asset lock is spent once\<close>

text \<open>
  What the code relies on in \<open>dashcore-lib\<close> and Core: the transaction Core returns for the hash
  in an outpoint, asked for its outpoint at that index, gives the outpoint back.
\<close>

definition core_documented :: "env \<Rightarrow> bool" where
  "core_documented env \<longleftrightarrow>
     (\<forall>outPoint hash i data height t. e_parseOutPoint env outPoint = (hash, i) \<longrightarrow>
        e_getRawTransaction env hash = Inr (data, height) \<longrightarrow>
        e_parseTransaction env data = Inr t \<longrightarrow> e_outPoint env t i = outPoint)"

lemma used_outpoint_rejected:
  assumes "e_parseTransaction env raw = Inr t"
    and "isAssetLockTransactionOutPointAlreadyUsed tx s (e_outPoint env t i)"
  shows "\<not> ValidationResult_isValid (validateAssetLockTransaction env tx s raw i)"
  using assms by (auto simp: validateAssetLockTransaction_def split: option.splits)

lemma unparsable_rejected:
  "e_parseTransaction env raw = Inl m \<Longrightarrow>
   \<not> ValidationResult_isValid (validateAssetLockTransaction env tx s raw i)"
  by (simp add: validateAssetLockTransaction_def)

lemma instant_needs_valid_transaction:
  "run_valid (validateInstantAssetLockProofStructure env ajv tx s p lock raw i) \<Longrightarrow>
   ValidationResult_isValid (validateAssetLockTransaction env tx s raw i)"
  by (auto simp: validateInstantAssetLockProofStructure_def Let_def run_valid_iff rbind_eq_Inr_iff
      split: sum.splits if_splits option.splits prod.splits)

lemma chain_needs_valid_transaction:
  assumes "run_valid (validateChainAssetLockProofStructure env ajv tx s p h outPoint)"
    and "e_parseOutPoint env outPoint = (hash, i)"
  shows "\<exists>data height. e_getRawTransaction env hash = Inr (data, height) \<and>
     ValidationResult_isValid (validateAssetLockTransaction env tx s data i)"
  using assms
  by (auto simp: validateChainAssetLockProofStructure_def fetchTransaction_def Let_def run_valid_iff
      rbind_eq_Inr_iff split: sum.splits if_splits option.splits prod.splits)

lemma used_proof_not_valid:
  assumes "core_documented env" and "AssetLockProof_getOutPoint env p = Inr outPoint"
    and "isAssetLockTransactionOutPointAlreadyUsed tx s outPoint"
  shows "\<not> run_valid (validateAssetLockProof env ajv tx s p)"
proof (cases p)
  case (InstantAssetLockProof lock raw i)
  with assms(2) obtain t where t: "e_parseTransaction env raw = Inr t" "outPoint = e_outPoint env t i"
    by (auto simp: AssetLockProof_getOutPoint_def split: sum.splits)
  with assms(3) have "\<not> ValidationResult_isValid (validateAssetLockTransaction env tx s raw i)"
    using used_outpoint_rejected by blast
  then show ?thesis
    using instant_needs_valid_transaction by (auto simp: validateAssetLockProof_def InstantAssetLockProof)
next
  case (ChainAssetLockProof h outPoint')
  with assms(2) have op: "outPoint' = outPoint" by (simp add: AssetLockProof_getOutPoint_def)
  obtain hash i where parsed: "e_parseOutPoint env outPoint = (hash, i)" by force
  show ?thesis
  proof
    assume "run_valid (validateAssetLockProof env ajv tx s p)"
    then have "run_valid (validateChainAssetLockProofStructure env ajv tx s p h outPoint)"
      by (simp add: validateAssetLockProof_def ChainAssetLockProof op)
    from chain_needs_valid_transaction [OF this parsed]
    obtain data height where raw: "e_getRawTransaction env hash = Inr (data, height)"
      and valid: "ValidationResult_isValid (validateAssetLockTransaction env tx s data i)"
      by blast
    then obtain t where t: "e_parseTransaction env data = Inr t"
      using unparsable_rejected by (metis sum.exhaust)
    with assms(1) parsed raw have "e_outPoint env t i = outPoint"
      unfolding core_documented_def by blast
    with t assms(3) valid used_outpoint_rejected show False by metis
  qed
qed

lemma apply_create_Inr:
  assumes "applyIdentityCreateTransition env tx b p ks s = Inr s'"
  shows "\<exists>out outPoint. fetchAssetLockTransactionOutput env p = Inr (Some out) \<and>
     AssetLockProof_getOutPoint env p = Inr outPoint \<and>
     s' = markAssetLockTransactionOutPointAsUsed tx outPoint
        (storeIdentityPublicKeyHashes tx (e_hash env outPoint)
          (map (\<lambda>k. e_publicKeyHash env (pk_data k)) ks)
          (storeIdentity tx \<lparr>id_protocolVersion = stb_protocolVersion b, id_id = e_hash env outPoint,
             id_publicKeys = ks, id_balance = convertSatoshiToCredits (out_satoshis out),
             id_revision = 0\<rparr> s))"
  using assms
  by (auto simp: applyIdentityCreateTransition_def AssetLockProof_createIdentifier_def
      output_satoshis_def Let_def rbind_eq_Inr_iff split: option.splits)

lemma apply_topup_Inr:
  assumes "applyIdentityTopUpTransition env tx p identityId s = Inr s'"
  shows "\<exists>out outPoint identity. fetchAssetLockTransactionOutput env p = Inr (Some out) \<and>
     AssetLockProof_getOutPoint env p = Inr outPoint \<and>
     fetchIdentity tx s identityId = Some identity \<and>
     s' = markAssetLockTransactionOutPointAsUsed tx outPoint
        (storeIdentity tx (Identity_increaseBalance (convertSatoshiToCredits (out_satoshis out)) identity) s)"
  using assms
  by (auto simp: applyIdentityTopUpTransition_def output_satoshis_def Let_def rbind_eq_Inr_iff
      split: option.splits)

text \<open>
  C8. An asset lock is spent once: after a create or a top-up was applied, no proof of the same
  outpoint passes validation in the resulting state, of either kind and for any identity.
\<close>

theorem asset_lock_spent_once:
  assumes "core_documented env"
    and "applyIdentityCreateTransition env tx b p ks s = Inr s' \<or>
         applyIdentityTopUpTransition env tx p i s = Inr s'"
    and "AssetLockProof_getOutPoint env p' = AssetLockProof_getOutPoint env p"
  shows "\<not> run_valid (validateIdentityCreateTransitionBasic env sc v tx s' b' p' ks') \<and>
     \<not> run_valid (validateIdentityTopUpTransitionBasic env sc v tx s' b' p' i')"
proof -
  from assms(2) obtain outPoint where "AssetLockProof_getOutPoint env p = Inr outPoint"
    and "isAssetLockTransactionOutPointAlreadyUsed tx s' outPoint"
    by (auto dest!: apply_create_Inr apply_topup_Inr simp: repo_simps)
  with used_proof_not_valid [OF assms(1), of p' outPoint tx s' "sc_proof sc"] assms(3)
  show ?thesis
    by (simp add: validateIdentityCreateTransitionBasic_def validateIdentityTopUpTransitionBasic_def)
qed

definition sample_env :: env where
  "sample_env = \<lparr>e_hash = (\<lambda>b. b), e_base58 = map (\<lambda>x. char_of (unat x)),
     e_lodashGet = (\<lambda>d p. case map_of d p of None \<Rightarrow> JUndefined | Some v \<Rightarrow> v),
     e_utf8 = map (\<lambda>x. char_of (unat x)), e_encode = (\<lambda>_. []),
     e_publicKeyHash = (\<lambda>b. b), e_publicKeyError = (\<lambda>_. None),
     e_verifySignature = (\<lambda>_ _ _. True), e_verifyHashSignature = (\<lambda>_ _ _. True),
     e_parseTransaction = (\<lambda>raw. Inr \<lparr>ct_id = raw,
        ct_outputs = [\<lparr>out_satoshis = 10, out_isDataOut = True, out_data = replicate 20 0\<rparr>]\<rparr>),
     e_outPoint = (\<lambda>t i. if i = 0 then ct_id t else ct_id t @ [of_nat i]),
     e_parseOutPoint = (\<lambda>op. (op, 0)),
     e_parseInstantLock = (\<lambda>b. Inr \<lparr>il_txid = b, il_requestId = [], il_signature = []\<rparr>),
     e_getRawTransaction = (\<lambda>h. Inr (h, Some 1)),
     e_verifyIsLock = (\<lambda>_ _ _ _. Inr True)\<rparr>"

lemma sample_env_documented: "core_documented sample_env"
  by (auto simp: core_documented_def sample_env_def)

definition sample_base :: st_base where
  "sample_base = \<lparr>stb_protocolVersion = 1, stb_signature = Some [1], stb_signaturePublicKeyId = None\<rparr>"

definition sample_key :: identity_public_key where
  "sample_key = \<lparr>pk_id = 0, pk_type = 0, pk_data = [5]\<rparr>"

lemma sample_create_ok:
  "\<exists>s'. applyIdentityCreateTransition sample_env True sample_base (ChainAssetLockProof 1 [4]) [sample_key]
     empty_state = Inr s'"
  by (simp add: applyIdentityCreateTransition_def fetchAssetLockTransactionOutput_def sample_env_def
      fetchTransaction_def parse_or_throw_def nth_output_def AssetLockProof_getOutPoint_def
      AssetLockProof_createIdentifier_def output_satoshis_def Let_def)

theorem asset_lock_spent_once_witness:
  "\<exists>s'. applyIdentityCreateTransition sample_env True sample_base (ChainAssetLockProof 1 [4])
       [sample_key] empty_state = Inr s' \<and>
     (\<forall>sc v. \<not> run_valid (validateIdentityTopUpTransitionBasic sample_env sc v True s' sample_base
         (InstantAssetLockProof [] [4] 0) [9]))"
proof -
  from sample_create_ok obtain s' where s': "applyIdentityCreateTransition sample_env True sample_base
      (ChainAssetLockProof 1 [4]) [sample_key] empty_state = Inr s'" by blast
  have same: "AssetLockProof_getOutPoint sample_env (InstantAssetLockProof [] [4] 0) =
      AssetLockProof_getOutPoint sample_env (ChainAssetLockProof 1 [4])"
    by (simp add: AssetLockProof_getOutPoint_def sample_env_def)
  show ?thesis
    using s' asset_lock_spent_once [OF sample_env_documented disjI1 [OF s'] same] by blast
qed

section \<open>Minting credits\<close>

lemma create_state_valid:
  assumes "run_valid (validateIdentityCreateTransitionState env tx s p ks)"
    and "AssetLockProof_getOutPoint env p = Inr outPoint"
  shows "fetchIdentity tx s (e_hash env outPoint) = None \<and>
    (\<forall>k \<in> set ks. vstore_get tx (ds_publicKeyIds s) (e_publicKeyHash env (pk_data k)) = None)"
proof -
  have uniq: "ValidationResult_isValid (fold (\<lambda>(h, i) r. if i \<noteq> None then
        ValidationResult_addError [IdentityPublicKeyAlreadyExistsError h] r else r) his r) \<longleftrightarrow>
      ValidationResult_isValid r \<and> (\<forall>(h, i) \<in> set his. i = None)"
    for his :: "(buffer \<times> ident option) list" and r :: "unit validation_result"
    by (induction his arbitrary: r) (auto split: if_splits)
  from assms have "fetchIdentity tx s (e_hash env outPoint) = None"
    and keys: "ValidationResult_isValid (validateIdentityPublicKeysUniqueness env tx s ks)"
    by (auto simp: validateIdentityCreateTransitionState_def AssetLockProof_createIdentifier_def
        run_valid_iff Let_def split: if_splits)
  moreover have "vstore_get tx (ds_publicKeyIds s) (e_publicKeyHash env (pk_data k)) = None"
    if "k \<in> set ks" for k
    using keys that
    unfolding validateIdentityPublicKeysUniqueness_def Let_def uniq
    by (auto simp: fetchIdentityIdsByPublicKeyHashes_def zip_map_map zip_same_conv_map)
  ultimately show ?thesis by blast
qed

text \<open>
  C7. Credits come from asset locks only, at the fixed rate: applying a create that was valid
  against the state, or a top-up, raises the total of all identities' balances by 1000 credits
  for each duff of the locked output, and marks exactly that outpoint as spent.
\<close>

theorem identity_transition_mints_locked_amount:
  assumes "applyIdentityCreateTransition env tx b p ks s = Inr s' \<and>
           run_valid (validateIdentityCreateTransitionState env tx s p ks) \<or>
         applyIdentityTopUpTransition env tx p i s = Inr s' \<and> identities_keyed tx s"
  shows "\<exists>out outPoint. fetchAssetLockTransactionOutput env p = Inr (Some out) \<and>
     AssetLockProof_getOutPoint env p = Inr outPoint \<and>
     total_credits tx s' = total_credits tx s + 1000 * out_satoshis out \<and>
     (\<forall>q. isAssetLockTransactionOutPointAlreadyUsed tx s' q \<longleftrightarrow>
        q = outPoint \<or> isAssetLockTransactionOutPointAlreadyUsed tx s q)"
  using assms
proof (elim disjE conjE)
  assume ap: "applyIdentityCreateTransition env tx b p ks s = Inr s'"
    and valid: "run_valid (validateIdentityCreateTransitionState env tx s p ks)"
  from apply_create_Inr [OF ap] create_state_valid [OF valid] show ?thesis
    by (auto simp: repo_simps convertSatoshiToCredits_def credits_RATIO_def)
next
  assume ap: "applyIdentityTopUpTransition env tx p i s = Inr s'" and keyed: "identities_keyed tx s"
  from apply_topup_Inr [OF ap] keyed show ?thesis
    by (auto simp: repo_simps convertSatoshiToCredits_def credits_RATIO_def identities_keyed_def
        Identity_increaseBalance_def)
qed

lemma sample_create_valid:
  "run_valid (validateIdentityCreateTransitionState sample_env True empty_state
     (ChainAssetLockProof 1 [4]) [sample_key])"
  by (simp add: validateIdentityCreateTransitionState_def AssetLockProof_createIdentifier_def
      AssetLockProof_getOutPoint_def sample_env_def fetchIdentity_def vstore_get_def empty_state_def
      empty_vstore_def validateIdentityPublicKeysUniqueness_def fetchIdentityIdsByPublicKeyHashes_def
      sample_key_def)

theorem identity_transition_mints_locked_amount_witness:
  "\<exists>s'. applyIdentityCreateTransition sample_env True sample_base (ChainAssetLockProof 1 [4])
       [sample_key] empty_state = Inr s' \<and>
     total_credits True s' = total_credits True empty_state + 10000"
proof -
  from sample_create_ok obtain s' where s': "applyIdentityCreateTransition sample_env True sample_base
      (ChainAssetLockProof 1 [4]) [sample_key] empty_state = Inr s'" by blast
  from identity_transition_mints_locked_amount [OF disjI1 [OF conjI [OF s' sample_create_valid]]]
  have "total_credits True s' = total_credits True empty_state + 10000"
    by (auto simp: sample_env_def fetchAssetLockTransactionOutput_def fetchTransaction_def
        parse_or_throw_def nth_output_def)
  with s' show ?thesis by blast
qed

section \<open>A public key belongs to one identity\<close>

definition key_owned :: "env \<Rightarrow> bool \<Rightarrow> drive_state \<Rightarrow> bool" where
  "key_owned env tx s \<longleftrightarrow>
     (\<forall>i identity. fetchIdentity tx s i = Some identity \<longrightarrow>
        (\<forall>k \<in> set (id_publicKeys identity).
           vstore_get tx (ds_publicKeyIds s) (e_publicKeyHash env (pk_data k)) = Some i))"

lemma publicKeyIds_frame:
  "ds_publicKeyIds (storeIdentity tx i s) = ds_publicKeyIds s"
  "ds_publicKeyIds (markAssetLockTransactionOutPointAsUsed tx p s) = ds_publicKeyIds s"
  by (simp_all add: storeIdentity_def markAssetLockTransactionOutPointAsUsed_def)

lemma publicKeyIds_stored:
  "vstore_get tx (ds_publicKeyIds (storeIdentityPublicKeyHashes tx i hs s)) q =
   (if q \<in> set hs then Some i else vstore_get tx (ds_publicKeyIds s) q)"
  by (simp add: storeIdentityPublicKeyHashes_def vstore_view.lookup_insert_each)

text \<open>
  C9. The index of public key hashes is right and keys are unique: a create that was valid
  against the state keeps the invariant that every key of every identity is indexed under that
  identity, so no two identities have a key with the same hash.
\<close>

theorem create_keeps_key_ownership:
  assumes "key_owned env tx s"
    and "run_valid (validateIdentityCreateTransitionState env tx s p ks)"
    and "applyIdentityCreateTransition env tx b p ks s = Inr s'"
  shows "key_owned env tx s' \<and>
    (\<forall>i j a c k l. fetchIdentity tx s' i = Some a \<longrightarrow> fetchIdentity tx s' j = Some c \<longrightarrow>
       k \<in> set (id_publicKeys a) \<longrightarrow> l \<in> set (id_publicKeys c) \<longrightarrow>
       e_publicKeyHash env (pk_data k) = e_publicKeyHash env (pk_data l) \<longrightarrow> i = j)"
proof
  from apply_create_Inr [OF assms(3)] create_state_valid [OF assms(2)] assms(1)
  show owned: "key_owned env tx s'"
    by (fastforce simp: key_owned_def repo_simps publicKeyIds_frame publicKeyIds_stored)
  show "\<forall>i j a c k l. fetchIdentity tx s' i = Some a \<longrightarrow> fetchIdentity tx s' j = Some c \<longrightarrow>
       k \<in> set (id_publicKeys a) \<longrightarrow> l \<in> set (id_publicKeys c) \<longrightarrow>
       e_publicKeyHash env (pk_data k) = e_publicKeyHash env (pk_data l) \<longrightarrow> i = j"
    using owned unfolding key_owned_def by (metis option.inject)
qed

theorem create_keeps_key_ownership_witness:
  "\<exists>s'. applyIdentityCreateTransition sample_env True sample_base (ChainAssetLockProof 1 [4])
       [sample_key] empty_state = Inr s' \<and> key_owned sample_env True s'"
proof -
  from sample_create_ok obtain s' where s': "applyIdentityCreateTransition sample_env True sample_base
      (ChainAssetLockProof 1 [4]) [sample_key] empty_state = Inr s'" by blast
  have "key_owned sample_env True empty_state"
    by (simp add: key_owned_def fetchIdentity_def vstore_get_def empty_state_def empty_vstore_def)
  from create_keeps_key_ownership [OF this sample_create_valid s'] s' show ?thesis by blast
qed

text \<open>
  \<open>validatePublicKeys\<close> accepts exactly the lists whose keys each satisfy the schema and are
  points of the curve, with pairwise different ids and pairwise different data.
\<close>

theorem validatePublicKeys_accepts:
  "ValidationResult_isValid (validatePublicKeys env ajv ks) \<longleftrightarrow>
   list_all (\<lambda>k. ajv k = [] \<and> e_publicKeyError env (pk_data k) = None) ks \<and>
   distinct (map pk_id ks) \<and> distinct (map pk_data ks)"
  by (simp add: validatePublicKeys_valid list_all_iff)

end
