(* ===== verification/DataTriggers.thy ===== *)
theory DataTriggers
  imports StateRepository
begin

text \<open>
  Data triggers (\<open>js-dpp/lib/dataTrigger\<close>): the checks attached to the document types of the
  system contracts, how they are selected, executed and collected
  (\<open>executeDataTriggersFactory.js\<close>).

  Reading documents is the argument \<open>F\<close>: in the code, \<open>stateRepository.fetchDocuments\<close>. A
  condition of a \<open>where\<close> clause is its triple. A trigger that meets data of a shape the
  contract's schema excludes throws a \<open>TypeError\<close>.
\<close>

type_synonym fetch_documents =
  "drive_state \<Rightarrow> ident \<Rightarrow> string \<Rightarrow> (string \<times> string \<times> js) list \<Rightarrow> dpp_error + document list"

section \<open>Execution results\<close>

type_synonym trigger_result = "consensus_error list"

definition DataTriggerExecutionResult_isOk :: "trigger_result \<Rightarrow> bool" where
  "DataTriggerExecutionResult_isOk r \<longleftrightarrow> r = []"

record trigger_context =
  cx_state :: drive_state
  cx_fetchDocuments :: fetch_documents
  cx_ownerId :: ident
  cx_dataContract :: data_contract

type_synonym trigger_function =
  "document_transition \<Rightarrow> trigger_context \<Rightarrow> ident option \<Rightarrow> dpp_error + trigger_result"

section \<open>The triggers\<close>

definition condition_error :: "document_transition \<Rightarrow> trigger_context \<Rightarrow> string \<Rightarrow> consensus_error" where
  "condition_error t cx message =
     DataTriggerConditionError (dc_id (cx_dataContract cx)) (tr_id t) message"

definition rejectDataTrigger :: trigger_function where
  "rejectDataTrigger t cx topLevelIdentity =
     Inr [DataTriggerConditionError (tr_id t) (dc_id (cx_dataContract cx)) ''Action is not allowed'']"

definition BLOCKS_WINDOW_SIZE :: int where "BLOCKS_WINDOW_SIZE = 8"

definition data_field :: "document_transition \<Rightarrow> string \<Rightarrow> js" where
  "data_field t name = (case map_of (tr_data t) name of None \<Rightarrow> JUndefined | Some v \<Rightarrow> v)"

definition createContactRequestDataTrigger :: trigger_function where
  "createContactRequestDataTrigger t cx topLevelIdentity =
     (case data_field t ''coreHeightCreatedAt'' of
        JUndefined \<Rightarrow> Inr []
      | JNum coreHeightCreatedAt \<Rightarrow>
          (case fetchLatestPlatformBlockHeader (cx_state cx) of
             None \<Rightarrow> Inl JsTypeError
           | Some header \<Rightarrow>
               (let heightWindowStart = hd_coreChainLockedHeight header - BLOCKS_WINDOW_SIZE;
                    heightWindowEnd = hd_coreChainLockedHeight header + BLOCKS_WINDOW_SIZE in
                if coreHeightCreatedAt < heightWindowStart \<or> coreHeightCreatedAt > heightWindowEnd then
                  Inr [condition_error t cx (''Core height '' @ int_string coreHeightCreatedAt
                    @ '' is out of block height window from '' @ int_string heightWindowStart
                    @ '' to '' @ int_string heightWindowEnd)]
                else Inr []))
      | _ \<Rightarrow> Inl JsTypeError)"

definition createFeatureFlagDataTrigger :: "env \<Rightarrow> trigger_function" where
  "createFeatureFlagDataTrigger env t cx topLevelIdentityId =
     (case fetchLatestPlatformBlockHeader (cx_state cx) of
        None \<Rightarrow> Inl JsTypeError
      | Some header \<Rightarrow>
          (case e_lodashGet env (tr_data t) ''enableAtHeight'' of
             JNum enableAtHeight \<Rightarrow>
               if enableAtHeight < hd_height header then
                 Inr [condition_error t cx (''Feature flag cannot be enabled in the past on block ''
                   @ int_string enableAtHeight @ ''. Current block height is ''
                   @ int_string (hd_height header))]
               else if Some (cx_ownerId cx) \<noteq> topLevelIdentityId then
                 Inr [condition_error t cx ''This identity can't activate selected feature flag'']
               else Inr []
           | _ \<Rightarrow> Inl JsTypeError))"

definition MAX_PRINTABLE_DOMAIN_NAME_LENGTH :: nat where "MAX_PRINTABLE_DOMAIN_NAME_LENGTH = 253"

definition obj_field :: "js \<Rightarrow> string \<Rightarrow> dpp_error + js" where
  "obj_field v name =
     (case v of
        JObj fs \<Rightarrow> Inr (case map_of fs name of None \<Rightarrow> JUndefined | Some w \<Rightarrow> w)
      | _ \<Rightarrow> Inl JsTypeError)"

text \<open>\<open>records.x && !ownerId.equals(records.x)\<close>: an identifier is truthy.\<close>

definition record_mismatch :: "env \<Rightarrow> document_transition \<Rightarrow> trigger_context \<Rightarrow> js \<Rightarrow> string \<Rightarrow> dpp_error + trigger_result" where
  "record_mismatch env t cx records name =
     rbind (obj_field records name) (\<lambda>v.
       if \<not> js_truthy v then Inr [] else
       case v of
         JBuf b \<Rightarrow>
           if cx_ownerId cx = b then Inr []
           else Inr [condition_error t cx (''ownerId '' @ e_base58 env (cx_ownerId cx)
                  @ '' doesn't match '' @ name @ '' '' @ e_base58 env b)]
       | _ \<Rightarrow> Inl JsTypeError)"

definition domain_name_errors ::
  "env \<Rightarrow> document_transition \<Rightarrow> trigger_context \<Rightarrow> string \<Rightarrow> string \<Rightarrow> string \<Rightarrow> trigger_result" where
  "domain_name_errors env t cx label normalizedLabel fullDomainName =
     (if length fullDomainName > MAX_PRINTABLE_DOMAIN_NAME_LENGTH then
        [condition_error t cx (''Full domain name length can not be more than 253 characters long but got ''
           @ int_string (int (length fullDomainName)))] else [])
     @ (if normalizedLabel \<noteq> toLowerCase label then
          [condition_error t cx ''Normalized label doesn't match label''] else [])"

text \<open>The parent's label and the rest of its name: \<open>split('.')\<close>, then the first segment and the
  others joined again.\<close>

definition parent_label :: "string \<Rightarrow> string" where
  "parent_label name = takeWhile (\<lambda>c. c \<noteq> CHR ''.'') name"

definition grandparent_name :: "string \<Rightarrow> string" where
  "grandparent_name name = drop 1 (dropWhile (\<lambda>c. c \<noteq> CHR ''.'') name)"

datatype parent_check = ParentMissing | ParentFound trigger_result

definition check_parent_domain ::
  "document_transition \<Rightarrow> trigger_context \<Rightarrow> string \<Rightarrow> js \<Rightarrow> dpp_error + parent_check" where
  "check_parent_domain t cx parentName subdomainRules =
     rbind (cx_fetchDocuments cx (cx_state cx) (dc_id (cx_dataContract cx)) (tr_type t)
         [(''normalizedParentDomainName'', ''=='', JStr (grandparent_name parentName)),
          (''normalizedLabel'', ''=='', JStr (parent_label parentName))]) (\<lambda>docs.
       case docs of
         [] \<Rightarrow> Inr ParentMissing
       | parentDomain # _ \<Rightarrow>
           rbind (obj_field subdomainRules ''allowSubdomains'') (\<lambda>allow.
           rbind (obj_field (case map_of (doc_data parentDomain) ''subdomainRules'' of
                               None \<Rightarrow> JUndefined | Some v \<Rightarrow> v) ''allowSubdomains'') (\<lambda>parentAllows.
             Inr (ParentFound
               ((if allow = JBool True then
                   [condition_error t cx ''Allowing subdomains registration is forbidden for non top level domains'']
                 else [])
                @ (if parentAllows = JBool False \<and> cx_ownerId cx \<noteq> doc_ownerId parentDomain then
                     [condition_error t cx ''The subdomain can be created only by the parent domain owner'']
                   else []))))))"

definition check_preorder ::
  "env \<Rightarrow> document_transition \<Rightarrow> trigger_context \<Rightarrow> buffer \<Rightarrow> string \<Rightarrow> dpp_error + trigger_result" where
  "check_preorder env t cx preorderSalt fullDomainName =
     rbind (cx_fetchDocuments cx (cx_state cx) (dc_id (cx_dataContract cx)) ''preorder''
         [(''saltedDomainHash'', ''=='',
            JBuf (e_hash env (preorderSalt @ map (\<lambda>c. word_of_nat (of_char c)) fullDomainName)))])
       (\<lambda>docs. Inr (if docs = [] then [condition_error t cx ''preorderDocument was not found''] else []))"

definition createDomainDataTrigger :: "env \<Rightarrow> trigger_function" where
  "createDomainDataTrigger env t cx topLevelIdentity =
     (case (data_field t ''label'', data_field t ''normalizedLabel'',
            data_field t ''normalizedParentDomainName'', data_field t ''preorderSalt'') of
        (JStr label, JStr normalizedLabel, JStr parentName, JBuf preorderSalt) \<Rightarrow>
          (let fullDomainName = (if parentName \<noteq> [] then normalizedLabel @ ''.'' @ parentName
                                 else normalizedLabel);
               nameErrors = domain_name_errors env t cx label normalizedLabel fullDomainName in
           rbind (record_mismatch env t cx (data_field t ''records'') ''dashUniqueIdentityId'') (\<lambda>uniqueErrors.
           rbind (record_mismatch env t cx (data_field t ''records'') ''dashAliasIdentityId'') (\<lambda>aliasErrors.
             let topErrors = (if parentName = [] \<and> Some (cx_ownerId cx) \<noteq> topLevelIdentity then
                   [condition_error t cx ''Can't create top level domain for this identity''] else []);
                 errors = nameErrors @ uniqueErrors @ aliasErrors @ topErrors in
             rbind (if parentName \<noteq> [] then check_parent_domain t cx parentName (data_field t ''subdomainRules'')
                    else Inr (ParentFound [])) (\<lambda>parent.
               case parent of
                 ParentMissing \<Rightarrow> Inr (errors @ [condition_error t cx ''Parent domain is not present''])
               | ParentFound parentErrors \<Rightarrow>
                   rbind (check_preorder env t cx preorderSalt fullDomainName) (\<lambda>preorderErrors.
                     Inr (errors @ parentErrors @ preorderErrors))))))
      | _ \<Rightarrow> Inl JsTypeError)"

section \<open>Selecting and executing\<close>

record data_trigger =
  dt_dataContractId :: ident
  dt_documentType :: string
  dt_transitionAction :: action
  dt_trigger :: trigger_function
  dt_topLevelIdentity :: "ident option"

definition DataTrigger_isMatching :: "data_trigger \<Rightarrow> ident \<Rightarrow> string \<Rightarrow> action \<Rightarrow> bool" where
  "DataTrigger_isMatching d dataContractId documentType transitionAction \<longleftrightarrow>
     dt_dataContractId d = dataContractId \<and> dt_documentType d = documentType \<and>
     dt_transitionAction d = transitionAction"

text \<open>The message of a thrown error; only errors with a message of their own carry one here.\<close>

definition error_message :: "dpp_error \<Rightarrow> string" where
  "error_message e = (case e of JsError m \<Rightarrow> m | _ \<Rightarrow> [])"

definition DataTrigger_execute :: "data_trigger \<Rightarrow> document_transition \<Rightarrow> trigger_context \<Rightarrow> trigger_result" where
  "DataTrigger_execute d t cx =
     (case dt_trigger d t cx (dt_topLevelIdentity d) of
        Inr result \<Rightarrow> result
      | Inl e \<Rightarrow> [DataTriggerExecutionError (dc_id (cx_dataContract cx)) (tr_id t) (error_message e)])"

text \<open>The environment variables with the ids of the system contracts, an empty buffer when unset.\<close>

record trigger_config =
  tc_dpnsContractId :: ident
  tc_dpnsTopLevelIdentity :: ident
  tc_dashPayContractId :: ident
  tc_featureFlagsContractId :: ident
  tc_featureFlagsTopLevelIdentity :: ident

definition dataTriggers :: "env \<Rightarrow> trigger_config \<Rightarrow> data_trigger list" where
  "dataTriggers env c =
     [\<lparr>dt_dataContractId = tc_dpnsContractId c, dt_documentType = ''domain'', dt_transitionAction = CREATE,
       dt_trigger = createDomainDataTrigger env, dt_topLevelIdentity = Some (tc_dpnsTopLevelIdentity c)\<rparr>,
      \<lparr>dt_dataContractId = tc_dpnsContractId c, dt_documentType = ''domain'', dt_transitionAction = REPLACE,
       dt_trigger = rejectDataTrigger, dt_topLevelIdentity = None\<rparr>,
      \<lparr>dt_dataContractId = tc_dpnsContractId c, dt_documentType = ''domain'', dt_transitionAction = DELETE,
       dt_trigger = rejectDataTrigger, dt_topLevelIdentity = None\<rparr>,
      \<lparr>dt_dataContractId = tc_dpnsContractId c, dt_documentType = ''preorder'', dt_transitionAction = REPLACE,
       dt_trigger = rejectDataTrigger, dt_topLevelIdentity = None\<rparr>,
      \<lparr>dt_dataContractId = tc_dpnsContractId c, dt_documentType = ''preorder'', dt_transitionAction = DELETE,
       dt_trigger = rejectDataTrigger, dt_topLevelIdentity = None\<rparr>,
      \<lparr>dt_dataContractId = tc_dashPayContractId c, dt_documentType = ''contactRequest'', dt_transitionAction = CREATE,
       dt_trigger = createContactRequestDataTrigger, dt_topLevelIdentity = None\<rparr>,
      \<lparr>dt_dataContractId = tc_dashPayContractId c, dt_documentType = ''contactRequest'', dt_transitionAction = REPLACE,
       dt_trigger = rejectDataTrigger, dt_topLevelIdentity = None\<rparr>,
      \<lparr>dt_dataContractId = tc_dashPayContractId c, dt_documentType = ''contactRequest'', dt_transitionAction = DELETE,
       dt_trigger = rejectDataTrigger, dt_topLevelIdentity = None\<rparr>,
      \<lparr>dt_dataContractId = tc_featureFlagsContractId c, dt_documentType = ''updateConsensusParams'',
       dt_transitionAction = CREATE, dt_trigger = createFeatureFlagDataTrigger env,
       dt_topLevelIdentity = Some (tc_featureFlagsTopLevelIdentity c)\<rparr>,
      \<lparr>dt_dataContractId = tc_featureFlagsContractId c, dt_documentType = ''updateConsensusParams'',
       dt_transitionAction = REPLACE, dt_trigger = rejectDataTrigger, dt_topLevelIdentity = None\<rparr>,
      \<lparr>dt_dataContractId = tc_featureFlagsContractId c, dt_documentType = ''updateConsensusParams'',
       dt_transitionAction = DELETE, dt_trigger = rejectDataTrigger, dt_topLevelIdentity = None\<rparr>,
      \<lparr>dt_dataContractId = tc_featureFlagsContractId c, dt_documentType = ''fixCumulativeFeesBug'',
       dt_transitionAction = CREATE, dt_trigger = createFeatureFlagDataTrigger env,
       dt_topLevelIdentity = Some (tc_featureFlagsTopLevelIdentity c)\<rparr>,
      \<lparr>dt_dataContractId = tc_featureFlagsContractId c, dt_documentType = ''fixCumulativeFeesBug'',
       dt_transitionAction = REPLACE, dt_trigger = rejectDataTrigger, dt_topLevelIdentity = None\<rparr>,
      \<lparr>dt_dataContractId = tc_featureFlagsContractId c, dt_documentType = ''fixCumulativeFeesBug'',
       dt_transitionAction = DELETE, dt_trigger = rejectDataTrigger, dt_topLevelIdentity = None\<rparr>]"

definition getDataTriggers :: "env \<Rightarrow> trigger_config \<Rightarrow> ident \<Rightarrow> string \<Rightarrow> action \<Rightarrow> data_trigger list" where
  "getDataTriggers env c dataContractId documentType transitionAction =
     filter (\<lambda>d. DataTrigger_isMatching d dataContractId documentType transitionAction) (dataTriggers env c)"

definition executeTriggersSequentially ::
  "document_transition \<Rightarrow> data_trigger list \<Rightarrow> trigger_context \<Rightarrow> trigger_result list \<Rightarrow> trigger_result list" where
  "executeTriggersSequentially t triggers cx results =
     results @ map (\<lambda>d. DataTrigger_execute d t cx) triggers"

definition executeDataTriggers ::
  "env \<Rightarrow> trigger_config \<Rightarrow> document_transition list \<Rightarrow> trigger_context \<Rightarrow> trigger_result list" where
  "executeDataTriggers env c documentTransitions cx =
     fold (\<lambda>t results.
         let triggers = getDataTriggers env c (dc_id (cx_dataContract cx)) (tr_type t) (tr_action t) in
         if triggers = [] then results else executeTriggersSequentially t triggers cx results)
       documentTransitions []"

section \<open>Properties\<close>

lemma mem_executeDataTriggers:
  "r \<in> set (executeDataTriggers env c ts cx) \<longleftrightarrow>
   (\<exists>t \<in> set ts. \<exists>d \<in> set (getDataTriggers env c (dc_id (cx_dataContract cx)) (tr_type t) (tr_action t)).
      r = DataTrigger_execute d t cx)"
proof -
  have "r \<in> set (fold (\<lambda>t results.
         let triggers = getDataTriggers env c (dc_id (cx_dataContract cx)) (tr_type t) (tr_action t) in
         if triggers = [] then results else executeTriggersSequentially t triggers cx results) ts acc) \<longleftrightarrow>
     r \<in> set acc \<or> (\<exists>t \<in> set ts. \<exists>d \<in> set (getDataTriggers env c (dc_id (cx_dataContract cx)) (tr_type t) (tr_action t)).
      r = DataTrigger_execute d t cx)" for acc
    by (induction ts arbitrary: acc) (auto simp: executeTriggersSequentially_def Let_def)
  then show ?thesis by (simp add: executeDataTriggers_def)
qed

lemma getDataTriggers_domain_create:
  "getDataTriggers env c (tc_dpnsContractId c) ''domain'' CREATE =
   [\<lparr>dt_dataContractId = tc_dpnsContractId c, dt_documentType = ''domain'', dt_transitionAction = CREATE,
       dt_trigger = createDomainDataTrigger env, dt_topLevelIdentity = Some (tc_dpnsTopLevelIdentity c)\<rparr>]"
  by (simp add: getDataTriggers_def dataTriggers_def DataTrigger_isMatching_def)

lemma execute_ok_iff:
  "DataTriggerExecutionResult_isOk (DataTrigger_execute d t cx) \<longleftrightarrow>
   dt_trigger d t cx (dt_topLevelIdentity d) = Inr []"
  by (auto simp: DataTriggerExecutionResult_isOk_def DataTrigger_execute_def split: sum.splits)

definition parent_allows :: "document \<Rightarrow> js" where
  "parent_allows parentDomain =
     (case obj_field (case map_of (doc_data parentDomain) ''subdomainRules'' of
                        None \<Rightarrow> JUndefined | Some v \<Rightarrow> v) ''allowSubdomains'' of
        Inl _ \<Rightarrow> JUndefined | Inr v \<Rightarrow> v)"

lemma check_parent_ok:
  assumes "check_parent_domain t cx parentName rules = Inr (ParentFound [])"
  shows "\<exists>parent docs. cx_fetchDocuments cx (cx_state cx) (dc_id (cx_dataContract cx)) (tr_type t)
         [(''normalizedParentDomainName'', ''=='', JStr (grandparent_name parentName)),
          (''normalizedLabel'', ''=='', JStr (parent_label parentName))] = Inr (parent # docs) \<and>
       obj_field rules ''allowSubdomains'' \<noteq> Inr (JBool True) \<and>
       (parent_allows parent = JBool False \<longrightarrow> cx_ownerId cx = doc_ownerId parent)"
proof -
  from assms obtain docs0 where fetched: "cx_fetchDocuments cx (cx_state cx)
      (dc_id (cx_dataContract cx)) (tr_type t)
      [(''normalizedParentDomainName'', ''=='', JStr (grandparent_name parentName)),
       (''normalizedLabel'', ''=='', JStr (parent_label parentName))] = Inr docs0"
    unfolding check_parent_domain_def rbind_eq_Inr_iff by blast
  show ?thesis
  proof (cases docs0)
    case Nil
    with assms fetched show ?thesis by (simp add: check_parent_domain_def)
  next
    case (Cons parent docs)
    with assms fetched show ?thesis
      unfolding check_parent_domain_def parent_allows_def
      by (cases "obj_field rules ''allowSubdomains''";
          cases "obj_field (case map_of (doc_data parent) ''subdomainRules'' of
              None \<Rightarrow> JUndefined | Some v \<Rightarrow> v) ''allowSubdomains''")
         (auto split: if_splits)
  qed
qed

lemma not_ParentMissing: "p \<noteq> ParentMissing \<Longrightarrow> \<exists>errors. p = ParentFound errors"
  by (cases p) auto

lemma createDomain_ok:
  assumes "createDomainDataTrigger env t cx topLevel = Inr []"
  shows "\<exists>label normalizedLabel parentName salt.
      data_field t ''label'' = JStr label \<and> data_field t ''normalizedLabel'' = JStr normalizedLabel \<and>
      data_field t ''normalizedParentDomainName'' = JStr parentName \<and>
      data_field t ''preorderSalt'' = JBuf salt \<and>
      domain_name_errors env t cx label normalizedLabel
        (if parentName \<noteq> [] then normalizedLabel @ ''.'' @ parentName else normalizedLabel) = [] \<and>
      (parentName = [] \<longrightarrow> Some (cx_ownerId cx) = topLevel) \<and>
      (parentName \<noteq> [] \<longrightarrow>
         check_parent_domain t cx parentName (data_field t ''subdomainRules'') = Inr (ParentFound [])) \<and>
      check_preorder env t cx salt
        (if parentName \<noteq> [] then normalizedLabel @ ''.'' @ parentName else normalizedLabel) = Inr []"
proof -
  from assms obtain label normalizedLabel parentName salt
    where fields: "data_field t ''label'' = JStr label" "data_field t ''normalizedLabel'' = JStr normalizedLabel"
      "data_field t ''normalizedParentDomainName'' = JStr parentName" "data_field t ''preorderSalt'' = JBuf salt"
    by (auto simp: createDomainDataTrigger_def split: js.splits)
  from assms obtain parent where
    parent: "(if parentName \<noteq> [] then check_parent_domain t cx parentName (data_field t ''subdomainRules'')
              else Inr (ParentFound [])) = Inr parent" and "parent = ParentFound []"
    and "domain_name_errors env t cx label normalizedLabel
        (if parentName \<noteq> [] then normalizedLabel @ ''.'' @ parentName else normalizedLabel) = []"
    and "parentName = [] \<longrightarrow> Some (cx_ownerId cx) = topLevel"
    and "check_preorder env t cx salt
        (if parentName \<noteq> [] then normalizedLabel @ ''.'' @ parentName else normalizedLabel) = Inr []"
    unfolding createDomainDataTrigger_def fields
    by (auto simp: Let_def rbind_eq_Inr_iff dest!: not_ParentMissing
        split: if_split_asm parent_check.split_asm)
  with fields show ?thesis by auto
qed

text \<open>
  C15. A name is registered only by its rules: when the data triggers of a batch report no error,
  every new DPNS \<open>domain\<close> has the lower-case form of its label as normalized label, a full name
  of at most 253 characters and a preorder whose hash commits to the salt and that name; a
  top-level name is created by the configured identity only, and any other name under an
  existing parent, whose owner alone may use it when the parent forbids others.
\<close>

theorem domain_registration_sound:
  assumes "dc_id (cx_dataContract cx) = tc_dpnsContractId c"
    and "t \<in> set ts" and "tr_type t = ''domain''" and "tr_action t = CREATE"
    and "list_all DataTriggerExecutionResult_isOk (executeDataTriggers env c ts cx)"
  shows "\<exists>label parentName salt fullName.
      data_field t ''label'' = JStr label \<and>
      data_field t ''normalizedLabel'' = JStr (toLowerCase label) \<and>
      data_field t ''normalizedParentDomainName'' = JStr parentName \<and>
      data_field t ''preorderSalt'' = JBuf salt \<and>
      fullName = (if parentName = [] then toLowerCase label else toLowerCase label @ ''.'' @ parentName) \<and>
      length fullName \<le> 253 \<and>
      (parentName = [] \<longrightarrow> cx_ownerId cx = tc_dpnsTopLevelIdentity c) \<and>
      (parentName \<noteq> [] \<longrightarrow> (\<exists>parent docs.
         cx_fetchDocuments cx (cx_state cx) (tc_dpnsContractId c) ''domain''
           [(''normalizedParentDomainName'', ''=='', JStr (grandparent_name parentName)),
            (''normalizedLabel'', ''=='', JStr (parent_label parentName))] = Inr (parent # docs) \<and>
         (parent_allows parent = JBool False \<longrightarrow> cx_ownerId cx = doc_ownerId parent))) \<and>
      (\<exists>preorder docs. cx_fetchDocuments cx (cx_state cx) (tc_dpnsContractId c) ''preorder''
         [(''saltedDomainHash'', ''=='',
            JBuf (e_hash env (salt @ map (\<lambda>c. word_of_nat (of_char c)) fullName)))] = Inr (preorder # docs))"
proof -
  let ?d = "\<lparr>dt_dataContractId = tc_dpnsContractId c, dt_documentType = ''domain'',
      dt_transitionAction = CREATE, dt_trigger = createDomainDataTrigger env,
      dt_topLevelIdentity = Some (tc_dpnsTopLevelIdentity c)\<rparr>"
  have "DataTrigger_execute ?d t cx \<in> set (executeDataTriggers env c ts cx)"
    using assms(1-4) getDataTriggers_domain_create [of env c]
    by (force simp: mem_executeDataTriggers)
  with assms(5) have "DataTriggerExecutionResult_isOk (DataTrigger_execute ?d t cx)"
    by (simp add: list_all_iff)
  then have ok: "createDomainDataTrigger env t cx (Some (tc_dpnsTopLevelIdentity c)) = Inr []"
    by (simp add: execute_ok_iff)
  from createDomain_ok [OF ok] obtain label normalizedLabel parentName salt
    where fields: "data_field t ''label'' = JStr label" "data_field t ''normalizedLabel'' = JStr normalizedLabel"
      "data_field t ''normalizedParentDomainName'' = JStr parentName" "data_field t ''preorderSalt'' = JBuf salt"
    and name: "domain_name_errors env t cx label normalizedLabel
        (if parentName \<noteq> [] then normalizedLabel @ ''.'' @ parentName else normalizedLabel) = []"
    and top: "parentName = [] \<longrightarrow> Some (cx_ownerId cx) = Some (tc_dpnsTopLevelIdentity c)"
    and parent: "parentName \<noteq> [] \<longrightarrow>
         check_parent_domain t cx parentName (data_field t ''subdomainRules'') = Inr (ParentFound [])"
    and pre: "check_preorder env t cx salt
        (if parentName \<noteq> [] then normalizedLabel @ ''.'' @ parentName else normalizedLabel) = Inr []"
    by blast
  from name have lower: "normalizedLabel = toLowerCase label"
    and len: "length (if parentName \<noteq> [] then normalizedLabel @ ''.'' @ parentName else normalizedLabel) \<le> 253"
    by (auto simp: domain_name_errors_def MAX_PRINTABLE_DOMAIN_NAME_LENGTH_def split: if_splits)
  from pre have "\<exists>preorder docs. cx_fetchDocuments cx (cx_state cx) (tc_dpnsContractId c) ''preorder''
      [(''saltedDomainHash'', ''=='', JBuf (e_hash env (salt @ map (\<lambda>c. word_of_nat (of_char c))
         (if parentName \<noteq> [] then normalizedLabel @ ''.'' @ parentName else normalizedLabel))))]
      = Inr (preorder # docs)"
    by (auto simp: check_preorder_def rbind_eq_Inr_iff assms(1) neq_Nil_conv split: if_splits)
  with fields top len check_parent_ok [of t cx parentName "data_field t ''subdomainRules''"] parent
  show ?thesis
    by (auto simp: lower assms(1,3))
qed

definition sample_domain_transition :: document_transition where
  "sample_domain_transition = \<lparr>tr_action = CREATE, tr_id = [1], tr_type = ''domain'',
     tr_dataContractId = [7], tr_entropy = [], tr_createdAt = None, tr_updatedAt = None, tr_revision = 1,
     tr_data = [(''label'', JStr ''Dash''), (''normalizedLabel'', JStr ''dash''),
       (''normalizedParentDomainName'', JStr []), (''preorderSalt'', JBuf [3]),
       (''records'', JObj []), (''subdomainRules'', JObj [])]\<rparr>"

definition sample_config :: trigger_config where
  "sample_config = \<lparr>tc_dpnsContractId = [7], tc_dpnsTopLevelIdentity = [8], tc_dashPayContractId = [],
     tc_featureFlagsContractId = [], tc_featureFlagsTopLevelIdentity = []\<rparr>"

definition sample_document :: document where
  "sample_document = \<lparr>doc_protocolVersion = 1, doc_id = [2], doc_type = ''preorder'', doc_dataContractId = [7],
     doc_ownerId = [8], doc_revision = 1, doc_createdAt = None, doc_updatedAt = None, doc_data = []\<rparr>"

definition sample_context :: trigger_context where
  "sample_context = \<lparr>cx_state = empty_state, cx_fetchDocuments = (\<lambda>_ _ _ _. Inr [sample_document]),
     cx_ownerId = [8], cx_dataContract = sample_contract\<rparr>"

lemma lower_Dash: "toLowerCase ''Dash'' = ''dash''"
  by code_simp

lemma sample_domain_accepted:
  "list_all DataTriggerExecutionResult_isOk
     (executeDataTriggers env sample_config [sample_domain_transition] sample_context)"
  by (simp add: executeDataTriggers_def getDataTriggers_def dataTriggers_def DataTrigger_isMatching_def
      sample_config_def sample_domain_transition_def sample_context_def sample_contract_def
      executeTriggersSequentially_def DataTrigger_execute_def createDomainDataTrigger_def data_field_def
      domain_name_errors_def lower_Dash MAX_PRINTABLE_DOMAIN_NAME_LENGTH_def
      record_mismatch_def obj_field_def check_preorder_def sample_document_def
      DataTriggerExecutionResult_isOk_def)

theorem domain_registration_sound_witness:
  "\<exists>label. data_field sample_domain_transition ''normalizedLabel'' = JStr (toLowerCase label)"
  using domain_registration_sound
    [of sample_context sample_config sample_domain_transition "[sample_domain_transition]",
     OF _ _ _ _ sample_domain_accepted]
  by (auto simp: sample_context_def sample_config_def sample_contract_def sample_domain_transition_def)

text \<open>The types of system documents that only a creation may touch.\<close>

definition immutable_types :: "trigger_config \<Rightarrow> (ident \<times> string) list" where
  "immutable_types c = [(tc_dpnsContractId c, ''domain''), (tc_dpnsContractId c, ''preorder''),
     (tc_dashPayContractId c, ''contactRequest''), (tc_featureFlagsContractId c, ''updateConsensusParams''),
     (tc_featureFlagsContractId c, ''fixCumulativeFeesBug'')]"

lemma reject_trigger_selected:
  assumes "(i, ty) \<in> set (immutable_types c)" and "a \<noteq> CREATE"
  shows "\<exists>d \<in> set (getDataTriggers env c i ty a). dt_trigger d = rejectDataTrigger"
  using assms
  by (cases a) (auto simp: immutable_types_def getDataTriggers_def dataTriggers_def DataTrigger_isMatching_def)

text \<open>
  Registered names, preorders, contact requests and feature flags cannot be changed or
  removed: for a batch that replaces or deletes such a document of its system contract, some
  data trigger reports an error.
\<close>

theorem system_documents_immutable:
  assumes "(dc_id (cx_dataContract cx), tr_type t) \<in> set (immutable_types c)"
    and "t \<in> set ts" and "tr_action t \<noteq> CREATE"
  shows "\<not> list_all DataTriggerExecutionResult_isOk (executeDataTriggers env c ts cx)"
proof -
  from reject_trigger_selected [OF assms(1,3)] obtain d
    where d: "d \<in> set (getDataTriggers env c (dc_id (cx_dataContract cx)) (tr_type t) (tr_action t))"
      "dt_trigger d = rejectDataTrigger" by blast
  then have "DataTrigger_execute d t cx \<in> set (executeDataTriggers env c ts cx)"
    using assms(2) by (auto simp: mem_executeDataTriggers)
  moreover have "\<not> DataTriggerExecutionResult_isOk (DataTrigger_execute d t cx)"
    by (simp add: execute_ok_iff d(2) rejectDataTrigger_def)
  ultimately show ?thesis by (auto simp: list_all_iff)
qed

theorem system_documents_immutable_witness:
  "\<forall>env. \<not> list_all DataTriggerExecutionResult_isOk (executeDataTriggers env sample_config
     [sample_domain_transition\<lparr>tr_action := DELETE\<rparr>] sample_context)"
  by (intro allI system_documents_immutable [of _ "sample_domain_transition\<lparr>tr_action := DELETE\<rparr>"])
     (simp_all add: immutable_types_def sample_context_def sample_contract_def sample_config_def
       sample_domain_transition_def)

end
