(* ===== verification/BatchBasicValidation.thy ===== *)
theory BatchBasicValidation
  imports IdentityTransitions DocumentQuery
begin

text \<open>
  The stateless validation of a batch of documents:
  \<open>js-dpp/lib/document/stateTransition/DocumentsBatchTransition/validation/basic\<close>.

  A raw document transition is an object of the state transition as it was decoded: the list of
  its properties. Buffers that become strings go through Node's UTF-8 decoding, the parameter
  \<open>e_utf8\<close>; reading a path goes through \<open>lodash.get\<close>, the parameter \<open>e_lodashGet\<close>.
\<close>

type_synonym raw_transition = "(string \<times> js) list"

definition raw_get :: "raw_transition \<Rightarrow> string \<Rightarrow> js" where
  "raw_get t name = (case map_of t name of None \<Rightarrow> JUndefined | Some v \<Rightarrow> v)"

definition has_own :: "raw_transition \<Rightarrow> string \<Rightarrow> bool" where
  "has_own t name \<longleftrightarrow> map_of t name \<noteq> None"

definition type_of :: "raw_transition \<Rightarrow> string" where
  "type_of t = js_toString (raw_get t ''$type'')"

text \<open>A value inside a template literal, and an element of an array that is joined.\<close>

definition template_string :: "env \<Rightarrow> js \<Rightarrow> string" where
  "template_string env v = (case v of JBuf b \<Rightarrow> e_utf8 env b | _ \<Rightarrow> js_toString v)"

definition join_string :: "env \<Rightarrow> js \<Rightarrow> string" where
  "join_string env v = (if v = JUndefined \<or> v = JNull then [] else template_string env v)"

definition ACTION_CREATE :: js where "ACTION_CREATE = JNum 0"
definition ACTION_REPLACE :: js where "ACTION_REPLACE = JNum 1"
definition ACTION_DELETE :: js where "ACTION_DELETE = JNum 3"

section \<open>findDuplicatesById\<close>

definition createFingerPrint :: "env \<Rightarrow> raw_transition \<Rightarrow> string" where
  "createFingerPrint env t =
     join '':'' [join_string env (raw_get t ''$type''), join_string env (raw_get t ''$id'')]"

definition findDuplicatesById :: "env \<Rightarrow> raw_transition list \<Rightarrow> raw_transition list" where
  "findDuplicatesById env documentTransitions =
     snd (fold (\<lambda>t (fingerprints, duplicates).
        let fingerprint = createFingerPrint env t;
            same = (case map_of fingerprints fingerprint of None \<Rightarrow> [] | Some ts \<Rightarrow> ts) @ [t]
        in (AList.update fingerprint same fingerprints,
            if length same > 1 then duplicates @ same else duplicates))
      documentTransitions ([], []))"

section \<open>findDuplicatesByIndices\<close>

definition index_hash :: "env \<Rightarrow> index_definition \<Rightarrow> raw_transition \<Rightarrow> string" where
  "index_hash env definition t =
     foldl (\<lambda>acc p. acc @ '':'' @ template_string env (raw_get t (fst p))) [] (fst definition)"

definition isDuplicateByIndices :: "env \<Rightarrow> raw_transition \<Rightarrow> raw_transition \<Rightarrow> index_definition list \<Rightarrow> bool" where
  "isDuplicateByIndices env originalTransition transitionToCheck typeIndices \<longleftrightarrow>
     (\<exists>definition \<in> set typeIndices.
        index_hash env definition originalTransition = index_hash env definition transitionToCheck)"

definition schema_indices_of :: "data_contract \<Rightarrow> string \<Rightarrow> dpp_error + index_definition list" where
  "schema_indices_of c type =
     rbind (DataContract_getDocumentSchema c type) (\<lambda>schema.
       Inr (case cs_indices schema of None \<Rightarrow> [] | Some ixs \<Rightarrow> ixs))"

definition unique_indices :: "index_definition list \<Rightarrow> index_definition list" where
  "unique_indices ixs = filter snd ixs"

definition typed_pair :: "data_contract \<Rightarrow> raw_transition \<Rightarrow> dpp_error + string \<times> raw_transition" where
  "typed_pair c t = rbind (schema_indices_of c (type_of t)) (\<lambda>_. Inr (type_of t, t))"

text \<open>
  \<open>o.$id !== transition.$id\<close> compares two buffers by reference: it leaves out the transition
  itself, here its position in the group, and nothing else.
\<close>

definition group_duplicates :: "env \<Rightarrow> index_definition list \<Rightarrow> raw_transition list \<Rightarrow> raw_transition list" where
  "group_duplicates env indices items =
     concat (map (\<lambda>i. map (nth items) (filter (\<lambda>j. j \<noteq> i \<and>
        isDuplicateByIndices env (items ! i) (items ! j) indices) [0..<length items])) [0..<length items])"

definition findDuplicatesByIndices ::
  "env \<Rightarrow> raw_transition list \<Rightarrow> data_contract \<Rightarrow> dpp_error + raw_transition list" where
  "findDuplicatesByIndices env documentTransitions c =
     rbind (rmap (typed_pair c) documentTransitions) (\<lambda>pairs.
     rbind (lift_js (js_group [] pairs)) (\<lambda>groups.
     rbind (rmap (\<lambda>(type, items).
          rbind (schema_indices_of c type) (\<lambda>ixs. Inr (unique_indices ixs, items))) (js_entries groups)) (\<lambda>gs.
       Inr (concat (map (\<lambda>(indices, items).
          if length indices > 0 \<and> length items > 1 then group_duplicates env indices items else []) gs)))))"

section \<open>validatePartialCompoundIndices\<close>

definition compound_value :: "env \<Rightarrow> js \<Rightarrow> raw_transition \<Rightarrow> string \<Rightarrow> js" where
  "compound_value env ownerId t propertyPath =
     (if propertyPath = ''$ownerId'' then ownerId
      else if starts_with propertyPath ''$'' then raw_get t propertyPath
      else e_lodashGet env t propertyPath)"

definition compound_index_ok :: "env \<Rightarrow> js \<Rightarrow> raw_transition \<Rightarrow> index_definition \<Rightarrow> bool" where
  "compound_index_ok env ownerId t definition \<longleftrightarrow>
     (let data = map (\<lambda>p. compound_value env ownerId t (fst p)) (fst definition) in
      (\<forall>v \<in> set data. v \<noteq> JUndefined) \<or> (\<forall>v \<in> set data. v = JUndefined))"

definition validatePartialCompoundIndices ::
  "env \<Rightarrow> js \<Rightarrow> raw_transition list \<Rightarrow> data_contract \<Rightarrow> dpp_error + unit validation_result" where
  "validatePartialCompoundIndices env ownerId rawDocumentTransitions c =
     rfold (\<lambda>r t.
        rbind (schema_indices_of c (type_of t)) (\<lambda>ixs.
          Inr (ValidationResult_addError
            (map (\<lambda>definition. InconsistentCompoundIndexDataError (type_of t) (map fst (fst definition)))
              (filter (\<lambda>definition. \<not> compound_index_ok env ownerId t definition)
                (filter (\<lambda>definition. snd definition \<and> length (fst definition) > 1) ixs))) r)))
      new_ValidationResult rawDocumentTransitions"

section \<open>validateDocumentsBatchTransitionBasic\<close>

text \<open>
  The JSON schema validator with the contract enriched for the action (or the base schema, for
  a deletion): the argument \<open>ajv\<close>.
\<close>

type_synonym transition_schema = "js \<Rightarrow> data_contract \<Rightarrow> raw_transition \<Rightarrow> string list"

definition validate_id_generation :: "env \<Rightarrow> data_contract \<Rightarrow> ident \<Rightarrow> raw_transition \<Rightarrow> dpp_error + consensus_error list" where
  "validate_id_generation env c ownerId t =
     (case (raw_get t ''$entropy'', raw_get t ''$id'') of
        (JBuf entropy, JBuf i) \<Rightarrow>
          (let documentId = generateDocumentId env (dc_id c) ownerId (type_of t) entropy in
           Inr (if i = documentId then [] else [InvalidDocumentTransitionIdError documentId i]))
      | _ \<Rightarrow> Inl JsTypeError)"

definition validate_transition_basic ::
  "env \<Rightarrow> transition_schema \<Rightarrow> data_contract \<Rightarrow> ident \<Rightarrow> raw_transition \<Rightarrow> dpp_error + consensus_error list" where
  "validate_transition_basic env ajv c ownerId t =
     (if \<not> has_own t ''$type'' then Inr [MissingDocumentTransitionTypeError]
      else if \<not> DataContract_isDocumentDefined c (type_of t) then
        Inr [InvalidDocumentTypeError (type_of t) (dc_id c)]
      else if \<not> has_own t ''$action'' then Inr [MissingDocumentTransitionActionError]
      else
        (let action = raw_get t ''$action''; schemaErrors = map JsonSchemaError (ajv action c t) in
         if action = ACTION_CREATE \<or> action = ACTION_REPLACE then
           (if schemaErrors \<noteq> [] then Inr schemaErrors
            else if action = ACTION_CREATE then validate_id_generation env c ownerId t
            else Inr [])
         else if action = ACTION_DELETE then Inr schemaErrors
         else Inr [InvalidDocumentTransitionActionError action]))"

definition type_id_pairs :: "raw_transition list \<Rightarrow> (js \<times> js) list" where
  "type_id_pairs ts = map (\<lambda>t. (raw_get t ''$type'', raw_get t ''$id'')) ts"

definition validateDocumentTransitions_basic ::
  "env \<Rightarrow> transition_schema \<Rightarrow> data_contract \<Rightarrow> ident \<Rightarrow> raw_transition list \<Rightarrow>
   dpp_error + unit validation_result" where
  "validateDocumentTransitions_basic env ajv c ownerId rawDocumentTransitions =
     rbind (rmap (validate_transition_basic env ajv c ownerId) rawDocumentTransitions) (\<lambda>errs.
       let result = ValidationResult_addError (concat errs) new_ValidationResult in
       if \<not> ValidationResult_isValid result then Inr result
       else
         (let duplicateTransitions = findDuplicatesById env rawDocumentTransitions;
              result = (if duplicateTransitions \<noteq> [] then
                ValidationResult_addError
                  [DuplicateDocumentTransitionsWithIdsError (type_id_pairs duplicateTransitions)] result
                else result) in
          rbind (findDuplicatesByIndices env rawDocumentTransitions c) (\<lambda>duplicatesByIndices.
            let result = (if duplicatesByIndices \<noteq> [] then
                  ValidationResult_addError
                    [DuplicateDocumentTransitionsWithIndicesError (type_id_pairs duplicatesByIndices)] result
                  else result);
                nonDelete = filter (\<lambda>t. raw_get t ''$action'' \<noteq> ACTION_DELETE) rawDocumentTransitions in
            if nonDelete \<noteq> [] then
              rbind (validatePartialCompoundIndices env (JBuf ownerId) nonDelete c)
                (\<lambda>r. Inr (ValidationResult_merge r result))
            else Inr result)))"

text \<open>\<open>createAndValidateIdentifier\<close>: a buffer of 32 bytes, or an error in the result.\<close>

definition group_by_contract ::
  "raw_transition list \<Rightarrow> consensus_error list \<times> (ident \<times> raw_transition list) list" where
  "group_by_contract ts =
     fold (\<lambda>t (errors, groups).
        if \<not> has_own t ''$dataContractId'' then (errors @ [MissingDataContractIdError], groups)
        else case raw_get t ''$dataContractId'' of
          JBuf i \<Rightarrow>
            if length i = 32 then
              (errors, AList.update i ((case map_of groups i of None \<Rightarrow> [] | Some us \<Rightarrow> us) @ [t]) groups)
            else (errors @ [InvalidIdentifierError ''$dataContractId''], groups)
        | _ \<Rightarrow> (errors @ [InvalidIdentifierError ''$dataContractId''], groups))
      ts ([], [])"

definition validateDocumentsBatchTransitionBasic ::
  "env \<Rightarrow> string list \<Rightarrow> transition_schema \<Rightarrow> int \<Rightarrow> drive_state \<Rightarrow> st_base \<Rightarrow> ident \<Rightarrow>
   raw_transition list \<Rightarrow> dpp_error + unit validation_result" where
  "validateDocumentsBatchTransitionBasic env schemaMessages ajv dppVersion s b ownerId transitions =
     (let result = (JsonSchemaValidator_validate schemaMessages :: unit validation_result) in
      if \<not> ValidationResult_isValid result then Inr result
      else rbind (validateProtocolVersion dppVersion (stb_protocolVersion b)) (\<lambda>versionResult.
        let result = ValidationResult_merge versionResult result in
        if \<not> ValidationResult_isValid result then Inr result
        else
          (let (errors, groups) = group_by_contract transitions;
               result = ValidationResult_addError errors result in
           rbind (rmap (\<lambda>(dataContractId, documentTransitions).
                case fetchDataContract s dataContractId of
                  None \<Rightarrow> Inr (with_error (DataContractNotPresentError dataContractId))
                | Some c \<Rightarrow> rbind (validateDocumentTransitions_basic env ajv c ownerId documentTransitions)
                    (\<lambda>r. Inr (ValidationResult_merge r (new_ValidationResult :: unit validation_result)))) groups)
             (\<lambda>results. Inr (fold ValidationResult_merge results result)))))"

section \<open>Duplicates by id\<close>

definition fingerprints_step ::
  "env \<Rightarrow> raw_transition \<Rightarrow> (string \<times> raw_transition list) list \<times> raw_transition list \<Rightarrow>
   (string \<times> raw_transition list) list \<times> raw_transition list" where
  "fingerprints_step env t st =
     (let fingerprint = createFingerPrint env t;
          same = (case map_of (fst st) fingerprint of None \<Rightarrow> [] | Some ts \<Rightarrow> ts) @ [t]
      in (AList.update fingerprint same (fst st), if length same > 1 then snd st @ same else snd st))"

lemma findDuplicatesById_fold: "findDuplicatesById env ts = snd (fold (fingerprints_step env) ts ([], []))"
  by (simp add: findDuplicatesById_def fingerprints_step_def [abs_def] split_def)

lemma fingerprints_fold:
  assumes "\<forall>k us. map_of g k = Some us \<longrightarrow> us \<noteq> []"
  shows "snd (fold (fingerprints_step env) ts (g, ds)) = [] \<longleftrightarrow>
    ds = [] \<and> distinct (map (createFingerPrint env) ts) \<and>
    (\<forall>t \<in> set ts. map_of g (createFingerPrint env t) = None)"
  using assms
proof (induction ts arbitrary: g ds)
  case Nil
  then show ?case by simp
next
  case (Cons t ts)
  let ?k = "createFingerPrint env t"
  let ?same = "(case map_of g ?k of None \<Rightarrow> [] | Some us \<Rightarrow> us) @ [t]"
  have long: "length ?same > 1 \<longleftrightarrow> map_of g ?k \<noteq> None"
    using Cons.prems by (auto split: option.splits)
  have inv: "\<forall>k us. map_of (AList.update ?k ?same g) k = Some us \<longrightarrow> us \<noteq> []"
    using Cons.prems by (auto simp: store_simps)
  have "fingerprints_step env t (g, ds) =
      (AList.update ?k ?same g, if map_of g ?k \<noteq> None then ds @ ?same else ds)"
    using long by (simp add: fingerprints_step_def Let_def)
  then have "snd (fold (fingerprints_step env) (t # ts) (g, ds)) = [] \<longleftrightarrow>
      (if map_of g ?k \<noteq> None then ds @ ?same else ds) = [] \<and> distinct (map (createFingerPrint env) ts) \<and>
      (\<forall>u \<in> set ts. map_of (AList.update ?k ?same g) (createFingerPrint env u) = None)"
    using Cons.IH [OF inv] by simp
  then show ?case
    by (auto simp: map_of_update image_iff split: if_splits)
qed

lemma findDuplicatesById_Nil:
  "findDuplicatesById env ts = [] \<longleftrightarrow> distinct (map (createFingerPrint env) ts)"
  by (simp add: findDuplicatesById_fold fingerprints_fold)

lemma distinct_map_via:
  assumes "distinct (map f xs)" and "\<And>x y. g x = g y \<Longrightarrow> f x = f y"
  shows "distinct (map g xs)"
  unfolding distinct_map
proof
  show "distinct xs" using assms(1) by (simp add: distinct_map)
  show "inj_on g (set xs)"
    using assms(1) unfolding distinct_map inj_on_def by (metis assms(2))
qed

lemma rfold_partial_valid:
  "run_valid (rfold (\<lambda>r t.
        rbind (schema_indices_of c (type_of t)) (\<lambda>ixs.
          Inr (ValidationResult_addError
            (map (\<lambda>definition. InconsistentCompoundIndexDataError (type_of t) (map fst (fst definition)))
              (filter (\<lambda>definition. \<not> compound_index_ok env ownerId t definition)
                (filter (\<lambda>definition. snd definition \<and> length (fst definition) > 1) ixs))) r))) r ts) \<longleftrightarrow>
   ValidationResult_isValid r \<and>
   (\<forall>t \<in> set ts. \<exists>ixs. schema_indices_of c (type_of t) = Inr ixs \<and>
      (\<forall>definition \<in> set ixs. snd definition \<and> length (fst definition) > 1 \<longrightarrow>
         compound_index_ok env ownerId t definition))"
proof (induction ts arbitrary: r)
  case Nil
  then show ?case by simp
next
  case (Cons t ts)
  show ?case
  proof (cases "schema_indices_of c (type_of t)")
    case (Inl e)
    then show ?thesis by simp
  next
    case (Inr ixs)
    then show ?thesis using Cons.IH by (auto simp: filter_empty_conv)
  qed
qed

lemma validatePartialCompoundIndices_valid:
  "run_valid (validatePartialCompoundIndices env ownerId ts c) \<longleftrightarrow>
   (\<forall>t \<in> set ts. \<exists>ixs. schema_indices_of c (type_of t) = Inr ixs \<and>
      (\<forall>definition \<in> set ixs. snd definition \<and> length (fst definition) > 1 \<longrightarrow>
         compound_index_ok env ownerId t definition))"
  unfolding validatePartialCompoundIndices_def rfold_partial_valid by simp

lemma batch_basic_valid:
  assumes "run_valid (validateDocumentTransitions_basic env ajv c ownerId ts)"
  shows "list_all (\<lambda>t. validate_transition_basic env ajv c ownerId t = Inr []) ts \<and>
    findDuplicatesById env ts = [] \<and> findDuplicatesByIndices env ts c = Inr [] \<and>
    (let nonDelete = filter (\<lambda>t. raw_get t ''$action'' \<noteq> ACTION_DELETE) ts in
     nonDelete = [] \<or> run_valid (validatePartialCompoundIndices env (JBuf ownerId) nonDelete c))"
proof -
  have all: "list_all (\<lambda>t. f t = Inr []) us" if "rmap f us = Inr es" and "concat es = []"
    for f :: "raw_transition \<Rightarrow> dpp_error + consensus_error list" and us es
    using that by (induction us arbitrary: es) (auto simp: rbind_eq_Inr_iff)
  from assms obtain errs where errs: "rmap (validate_transition_basic env ajv c ownerId) ts = Inr errs"
    and empty: "concat errs = []"
    by (auto simp: validateDocumentTransitions_basic_def run_valid_iff Let_def rbind_eq_Inr_iff
        split: if_splits)
  let ?nonDelete = "filter (\<lambda>t. raw_get t ''$action'' \<noteq> ACTION_DELETE) ts"
  have rest: "findDuplicatesById env ts = [] \<and> findDuplicatesByIndices env ts c = Inr [] \<and>
      (?nonDelete = [] \<or> run_valid (validatePartialCompoundIndices env (JBuf ownerId) ?nonDelete c))"
    using assms errs empty
    by (cases "findDuplicatesByIndices env ts c";
        cases "validatePartialCompoundIndices env (JBuf ownerId) ?nonDelete c")
       (simp_all add: validateDocumentTransitions_basic_def Let_def del: concat_eq_Nil_conv filter_False
         split: if_split_asm)
  show ?thesis
    using all [OF errs empty] rest by (simp add: Let_def)
qed

text \<open>
  A batch that passes the basic validation has no two transitions of the same type and id,
  and every document it creates has the id its contract, owner, type and entropy hash to.
\<close>

theorem basic_batch_ids:
  assumes "run_valid (validateDocumentTransitions_basic env ajv c ownerId ts)"
  shows "distinct (type_id_pairs ts) \<and>
    list_all (\<lambda>t. raw_get t ''$action'' = ACTION_CREATE \<longrightarrow>
      (\<exists>entropy. raw_get t ''$entropy'' = JBuf entropy \<and>
         raw_get t ''$id'' = JBuf (generateDocumentId env (dc_id c) ownerId (type_of t) entropy))) ts"
proof
  from batch_basic_valid [OF assms] have "distinct (map (createFingerPrint env) ts)"
    by (simp add: findDuplicatesById_Nil)
  then show "distinct (type_id_pairs ts)"
    unfolding type_id_pairs_def by (rule distinct_map_via) (simp add: createFingerPrint_def)
  have "\<exists>entropy. raw_get t ''$entropy'' = JBuf entropy \<and>
         raw_get t ''$id'' = JBuf (generateDocumentId env (dc_id c) ownerId (type_of t) entropy)"
    if "validate_transition_basic env ajv c ownerId t = Inr []" and "raw_get t ''$action'' = ACTION_CREATE" for t
    using that
    by (auto simp: validate_transition_basic_def validate_id_generation_def Let_def
        split: if_splits js.splits)
  with batch_basic_valid [OF assms]
  show "list_all (\<lambda>t. raw_get t ''$action'' = ACTION_CREATE \<longrightarrow>
      (\<exists>entropy. raw_get t ''$entropy'' = JBuf entropy \<and>
         raw_get t ''$id'' = JBuf (generateDocumentId env (dc_id c) ownerId (type_of t) entropy))) ts"
    by (auto simp: list_all_iff)
qed

definition sample_batch_contract :: data_contract where
  "sample_batch_contract = sample_contract\<lparr>dc_documents :=
     [(''note'', \<lparr>cs_indices = Some [([(''$ownerId'', ''asc''), (''$createdAt'', ''asc'')], True),
                                     ([(''title'', ''asc'')], True)], cs_schema = JUndefined\<rparr>)]\<rparr>"

definition sample_raw_create :: raw_transition where
  "sample_raw_create = [(''$action'', ACTION_CREATE), (''$type'', JStr ''note''), (''$entropy'', JBuf [2]),
     (''$id'', JBuf (generateDocumentId sample_env [7] [9] ''note'' [2])), (''$createdAt'', JNum 5),
     (''title'', JStr ''t'')]"

lemma sample_batch_valid:
  "run_valid (validateDocumentTransitions_basic sample_env (\<lambda>_ _ _. []) sample_batch_contract [9] [sample_raw_create])"
  by code_simp

theorem basic_batch_ids_witness:
  "distinct (type_id_pairs [sample_raw_create]) \<and>
   raw_get sample_raw_create ''$id'' = JBuf (generateDocumentId sample_env [7] [9] ''note'' [2])"
  using basic_batch_ids [OF sample_batch_valid]
  by (simp add: sample_raw_create_def raw_get_def ACTION_CREATE_def sample_batch_contract_def
      sample_contract_def type_of_def)

section \<open>Batches that are rejected although they are fine\<close>

definition delete_transition :: "ident \<Rightarrow> string \<Rightarrow> ident \<Rightarrow> raw_transition" where
  "delete_transition i type contractId =
     [(''$id'', JBuf i), (''$type'', JStr type), (''$action'', ACTION_DELETE),
      (''$dataContractId'', JBuf contractId)]"

lemma index_hash_eq:
  "\<forall>p \<in> set (fst definition). raw_get t (fst p) = raw_get u (fst p) \<Longrightarrow>
   index_hash env definition t = index_hash env definition u"
  unfolding index_hash_def by (rule foldl_cong) auto

lemma delete_has_no_data:
  "\<not> starts_with name ''$'' \<Longrightarrow> raw_get (delete_transition i type cid) name = JUndefined"
  by (auto simp: delete_transition_def raw_get_def starts_with_def)

lemma deletes_duplicate_by_index:
  assumes "map_of (dc_documents c) type = Some schema" and "cs_indices schema = Some ixs"
    and "(props, True) \<in> set ixs" and "\<forall>p \<in> set props. \<not> starts_with (fst p) ''$''"
    and "type \<notin> set object_prototype_names"
  shows "findDuplicatesByIndices env [delete_transition i type cid, delete_transition j type cid'] c \<noteq> Inr []"
proof -
  let ?a = "delete_transition i type cid" and ?b = "delete_transition j type cid'"
  have ty: "type_of ?a = type" "type_of ?b = type"
    by (simp_all add: type_of_def raw_get_def delete_transition_def)
  have ixs: "schema_indices_of c type = Inr ixs"
    by (simp add: schema_indices_of_def DataContract_getDocumentSchema_def assms(1,2))
  have uniq: "(props, True) \<in> set (unique_indices ixs)"
    using assms(3) by (simp add: unique_indices_def)
  have grp: "js_group [] [(type, ?a), (type, ?b)] = Inr [(type, [?a, ?b])]"
    using assms(5) by (simp add: js_group_push_def)
  have ent: "js_entries [(type, [?a, ?b])] = [(type, [?a, ?b])]"
    by (simp add: js_entries_def)
  have hash: "index_hash env (props, True) ?a = index_hash env (props, True) ?b"
    by (rule index_hash_eq) (use assms(4) in \<open>auto simp: delete_has_no_data\<close>)
  then have dup: "isDuplicateByIndices env ?a ?b (unique_indices ixs)"
      "isDuplicateByIndices env ?b ?a (unique_indices ixs)"
    using uniq by (auto simp: isDuplicateByIndices_def intro: bexI [of _ "(props, True)"])
  have "findDuplicatesByIndices env [?a, ?b] c = Inr (group_duplicates env (unique_indices ixs) [?a, ?b])"
    using uniq
    by (auto simp: findDuplicatesByIndices_def typed_pair_def ty ixs lift_js_def grp ent simp del: js_group.simps)
  moreover have "group_duplicates env (unique_indices ixs) [?a, ?b] \<noteq> []"
    using dup by (simp add: group_duplicates_def upt_rec)
  ultimately show ?thesis by simp
qed

text \<open>
  Two deletions of documents of one type cannot share a batch when the type has a unique
  index on properties of its data: the transitions carry no data, so the missing values count
  as equal and the batch is rejected as a duplicate.
\<close>

theorem two_deletions_rejected:
  assumes "map_of (dc_documents c) type = Some schema" and "cs_indices schema = Some ixs"
    and "(props, True) \<in> set ixs" and "\<forall>p \<in> set props. \<not> starts_with (fst p) ''$''"
    and "type \<notin> set object_prototype_names"
  shows "\<not> run_valid (validateDocumentTransitions_basic env ajv c ownerId
    [delete_transition i type cid, delete_transition j type cid'])"
  using deletes_duplicate_by_index [OF assms, of env i cid j cid'] batch_basic_valid by blast

theorem two_deletions_rejected_witness:
  "\<not> run_valid (validateDocumentTransitions_basic sample_env (\<lambda>_ _ _. []) sample_batch_contract [9]
    [delete_transition [1] ''note'' [7], delete_transition [2] ''note'' [7]])"
proof -
  let ?schema = "\<lparr>cs_indices = Some [([(''$ownerId'', ''asc''), (''$createdAt'', ''asc'')], True),
                                     ([(''title'', ''asc'')], True)], cs_schema = JUndefined\<rparr>"
  have "map_of (dc_documents sample_batch_contract) ''note'' = Some ?schema"
    by (simp add: sample_batch_contract_def)
  from two_deletions_rejected [OF this, of _ "[(''title'', ''asc'')]"] show ?thesis
    by (simp add: starts_with_def object_prototype_names_def)
qed

text \<open>
  A document whose type has a unique index on \<open>$ownerId\<close> and \<open>$createdAt\<close> can never be
  replaced: a replace transition has no creation time, so the index counts as partly undefined
  and the batch is rejected.
\<close>

theorem replace_with_createdAt_index_rejected:
  assumes "map_of (dc_documents c) (type_of t) = Some schema" and "cs_indices schema = Some ixs"
    and "(props, True) \<in> set ixs" and "{''$ownerId'', ''$createdAt''} \<subseteq> fst ` set props"
    and "t \<in> set ts" and "raw_get t ''$action'' = ACTION_REPLACE" and "\<not> has_own t ''$createdAt''"
  shows "\<not> run_valid (validateDocumentTransitions_basic env ajv c ownerId ts)"
proof
  assume valid: "run_valid (validateDocumentTransitions_basic env ajv c ownerId ts)"
  have nonDelete: "t \<in> set (filter (\<lambda>t. raw_get t ''$action'' \<noteq> ACTION_DELETE) ts)"
    using assms(5,6) by (simp add: ACTION_REPLACE_def ACTION_DELETE_def)
  then have "filter (\<lambda>t. raw_get t ''$action'' \<noteq> ACTION_DELETE) ts \<noteq> []"
    by (metis empty_iff empty_set)
  then have partial: "run_valid (validatePartialCompoundIndices env (JBuf ownerId)
      (filter (\<lambda>t. raw_get t ''$action'' \<noteq> ACTION_DELETE) ts) c)"
    using batch_basic_valid [OF valid] by (simp add: Let_def)
  have "schema_indices_of c (type_of t) = Inr ixs"
    using assms(1,2) by (simp add: schema_indices_of_def DataContract_getDocumentSchema_def)
  then have idx: "\<forall>definition \<in> set ixs. snd definition \<and> length (fst definition) > 1 \<longrightarrow>
         compound_index_ok env (JBuf ownerId) t definition"
    using bspec [OF partial [unfolded validatePartialCompoundIndices_valid] nonDelete] by auto
  have len: "length props > 1"
  proof -
    have "card {''$ownerId'', ''$createdAt''} \<le> card (fst ` set props)"
      by (rule card_mono) (use assms(4) in auto)
    also have "\<dots> \<le> length props" by (metis card_image_le card_length finite_set le_trans)
    finally show ?thesis by simp
  qed
  from assms(4) obtain a b where "(''$ownerId'', a) \<in> set props" "(''$createdAt'', b) \<in> set props" by auto
  moreover have "compound_value env (JBuf ownerId) t ''$ownerId'' = JBuf ownerId"
    "compound_value env (JBuf ownerId) t ''$createdAt'' = JUndefined"
    using assms(7) by (simp_all add: compound_value_def raw_get_def has_own_def starts_with_def)
  ultimately have "\<not> compound_index_ok env (JBuf ownerId) t (props, True)"
    by (force simp: compound_index_ok_def)
  with idx assms(3) len show False by auto
qed

definition sample_raw_replace :: raw_transition where
  "sample_raw_replace = [(''$action'', ACTION_REPLACE), (''$type'', JStr ''note''), (''$revision'', JNum 2),
     (''$id'', JBuf [1]), (''$updatedAt'', JNum 6), (''title'', JStr ''t'')]"

theorem replace_with_createdAt_index_rejected_witness:
  "\<not> run_valid (validateDocumentTransitions_basic sample_env (\<lambda>_ _ _. []) sample_batch_contract [9] [sample_raw_replace])"
proof -
  let ?ixs = "[([(''$ownerId'', ''asc''), (''$createdAt'', ''asc'')], True), ([(''title'', ''asc'')], True)]"
  have schema: "map_of (dc_documents sample_batch_contract) (type_of sample_raw_replace)
      = Some \<lparr>cs_indices = Some ?ixs, cs_schema = JUndefined\<rparr>"
    by (simp add: sample_batch_contract_def sample_raw_replace_def type_of_def raw_get_def)
  show ?thesis
    by (rule replace_with_createdAt_index_rejected [OF schema, of ?ixs
          "[(''$ownerId'', ''asc''), (''$createdAt'', ''asc'')]"])
       (simp_all add: sample_raw_replace_def raw_get_def has_own_def)
qed

end
