(* ===== verification/DocumentsBatch.thy ===== *)
theory DocumentsBatch
  imports DataTriggers IdentityTransitions
begin

text \<open>
  Validation of a batch of documents against the state and its application:
  \<open>js-dpp/lib/document/stateTransition/DocumentsBatchTransition/validation/state\<close> and
  \<open>applyDocumentsBatchTransitionFactory.js\<close>. Times are milliseconds.
\<close>

section \<open>fetchDocuments\<close>

definition group_key :: "env \<Rightarrow> document_transition \<Rightarrow> string" where
  "group_key env t = e_base58 env (tr_dataContractId t) @ tr_type t"

definition group_by :: "('x \<Rightarrow> 'k) \<Rightarrow> 'x list \<Rightarrow> ('k \<times> 'x list) list" where
  "group_by f xs =
     fold (\<lambda>x g. AList.update (f x) ((case map_of g (f x) of None \<Rightarrow> [] | Some ys \<Rightarrow> ys) @ [x]) g) xs []"

definition id_in :: "ident list \<Rightarrow> (string \<times> string \<times> js) list" where
  "id_in is = [(''$id'', ''in'', JArr (map JBuf is))]"

definition batch_fetchDocuments ::
  "env \<Rightarrow> fetch_documents \<Rightarrow> drive_state \<Rightarrow> document_transition list \<Rightarrow> dpp_error + document list" where
  "batch_fetchDocuments env F s documentTransitions =
     rbind (rmap (\<lambda>(_, transitions).
          F s (tr_dataContractId (hd transitions)) (tr_type (hd transitions)) (id_in (map tr_id transitions)))
        (group_by (group_key env) documentTransitions)) (\<lambda>fetched. Inr (concat fetched))"

section \<open>validateDocumentsUniquenessByIndices\<close>

definition optional_number :: "int option \<Rightarrow> js" where
  "optional_number n = (case n of None \<Rightarrow> JUndefined | Some i \<Rightarrow> JNum i)"

definition index_property_value :: "env \<Rightarrow> ident \<Rightarrow> document_transition \<Rightarrow> string \<Rightarrow> js" where
  "index_property_value env ownerId t propertyName =
     (if propertyName = ''$ownerId'' then JBuf ownerId
      else if propertyName = ''$createdAt'' then
        (if tr_action t = CREATE then optional_number (tr_createdAt t) else JUndefined)
      else if propertyName = ''$updatedAt'' then optional_number (tr_updatedAt t)
      else e_lodashGet env (tr_data t) propertyName)"

definition index_where :: "env \<Rightarrow> ident \<Rightarrow> document_transition \<Rightarrow> index_definition \<Rightarrow> (string \<times> string \<times> js) list" where
  "index_where env ownerId t indexDefinition =
     map (\<lambda>n. (n, ''=='', index_property_value env ownerId t n))
       (filter (\<lambda>n. index_property_value env ownerId t n \<noteq> JUndefined) (map fst (fst indexDefinition)))"

record index_query =
  iq_indexDefinition :: index_definition
  iq_documentTransition :: document_transition
  iq_where :: "(string \<times> string \<times> js) list"

definition index_queries ::
  "env \<Rightarrow> ident \<Rightarrow> data_contract \<Rightarrow> document_transition \<Rightarrow> dpp_error + index_query list" where
  "index_queries env ownerId c t =
     rbind (DataContract_getDocumentSchema c (tr_type t)) (\<lambda>schema.
       Inr (case cs_indices schema of
              None \<Rightarrow> []
            | Some ixs \<Rightarrow>
                map (\<lambda>definition. \<lparr>iq_indexDefinition = definition, iq_documentTransition = t,
                       iq_where = index_where env ownerId t definition\<rparr>) (filter snd ixs)))"

definition is_duplicate_fetch :: "document_transition \<Rightarrow> document list \<Rightarrow> bool" where
  "is_duplicate_fetch t docs \<longleftrightarrow>
     docs \<noteq> [] \<and> \<not> (length docs = 1 \<and> doc_id (hd docs) = tr_id t)"

definition validateDocumentsUniquenessByIndices ::
  "env \<Rightarrow> fetch_documents \<Rightarrow> drive_state \<Rightarrow> ident \<Rightarrow> document_transition list \<Rightarrow> data_contract \<Rightarrow>
   dpp_error + unit validation_result" where
  "validateDocumentsUniquenessByIndices env F s ownerId documentTransitions c =
     rbind (rmap (index_queries env ownerId c) documentTransitions) (\<lambda>queries.
     rbind (rmap (\<lambda>q. rbind (F s (dc_id c) (tr_type (iq_documentTransition q)) (iq_where q))
                        (\<lambda>docs. Inr (q, docs)))
              (filter (\<lambda>q. iq_where q \<noteq> []) (concat queries))) (\<lambda>fetched.
       Inr (ValidationResult_addError
         (map (\<lambda>(q, docs). DuplicateUniqueIndexError (tr_id (iq_documentTransition q))
                             (map fst (fst (iq_indexDefinition q))))
           (filter (\<lambda>(q, docs). is_duplicate_fetch (iq_documentTransition q) docs) fetched))
         new_ValidationResult)))"

section \<open>validateDocumentsBatchTransitionState\<close>

definition BLOCK_TIME_WINDOW_MINUTES :: int where "BLOCK_TIME_WINDOW_MINUTES = 5"

definition time_window :: "block_header \<Rightarrow> int \<times> int" where
  "time_window header =
     (let lastBlockHeaderTime = hd_time_seconds header * 1000 in
      (lastBlockHeaderTime - BLOCK_TIME_WINDOW_MINUTES * 60000,
       lastBlockHeaderTime + BLOCK_TIME_WINDOW_MINUTES * 60000))"

definition window_error :: "int \<times> int \<Rightarrow> string \<Rightarrow> ident \<Rightarrow> int option \<Rightarrow> consensus_error list" where
  "window_error window name i time =
     (case time of
        None \<Rightarrow> []
      | Some t \<Rightarrow> if t < fst window \<or> t > snd window
                  then [DocumentTimestampWindowViolationError name i] else [])"

definition existing_document_errors :: "ident \<Rightarrow> document_transition \<Rightarrow> document option \<Rightarrow> consensus_error list" where
  "existing_document_errors ownerId t fetchedDocument =
     (case fetchedDocument of
        None \<Rightarrow> [DocumentNotFoundError (tr_id t)]
      | Some d \<Rightarrow> if doc_ownerId d \<noteq> ownerId
                  then [DocumentOwnerIdMismatchError (tr_id t) ownerId (doc_ownerId d)] else [])"

definition transition_state_errors ::
  "int \<times> int \<Rightarrow> ident \<Rightarrow> document list \<Rightarrow> document_transition \<Rightarrow> consensus_error list" where
  "transition_state_errors window ownerId fetchedDocuments t =
     (let fetchedDocument = find (\<lambda>d. tr_id t = doc_id d) fetchedDocuments in
      case tr_action t of
        CREATE \<Rightarrow>
          (if tr_createdAt t \<noteq> None \<and> tr_updatedAt t \<noteq> None \<and> tr_createdAt t \<noteq> tr_updatedAt t
           then [DocumentTimestampsMismatchError (tr_id t)] else [])
          @ window_error window ''createdAt'' (tr_id t) (tr_createdAt t)
          @ window_error window ''updatedAt'' (tr_id t) (tr_updatedAt t)
          @ (if fetchedDocument \<noteq> None then [DocumentAlreadyPresentError (tr_id t)] else [])
      | REPLACE \<Rightarrow>
          window_error window ''updatedAt'' (tr_id t) (tr_updatedAt t)
          @ (case fetchedDocument of
               None \<Rightarrow> []
             | Some d \<Rightarrow> if tr_revision t \<noteq> doc_revision d + 1
                         then [InvalidDocumentRevisionError (tr_id t) (doc_revision d)] else [])
          @ existing_document_errors ownerId t fetchedDocument
      | DELETE \<Rightarrow> existing_document_errors ownerId t fetchedDocument)"

definition validateDocumentTransitions_state ::
  "env \<Rightarrow> trigger_config \<Rightarrow> fetch_documents \<Rightarrow> drive_state \<Rightarrow> ident \<Rightarrow> ident \<Rightarrow>
   document_transition list \<Rightarrow> dpp_error + unit validation_result" where
  "validateDocumentTransitions_state env config F s dataContractId ownerId documentTransitions =
     (case fetchDataContract s dataContractId of
        None \<Rightarrow> Inl (ContractNotPresent dataContractId)
      | Some c \<Rightarrow>
          rbind (batch_fetchDocuments env F s documentTransitions) (\<lambda>fetchedDocuments.
            case fetchLatestPlatformBlockHeader s of
              None \<Rightarrow> Inl JsTypeError
            | Some header \<Rightarrow>
                (let result = ValidationResult_addError
                       (concat (map (transition_state_errors (time_window header) ownerId fetchedDocuments)
                          documentTransitions)) new_ValidationResult in
                 if \<not> ValidationResult_isValid result then Inr result
                 else
                   (let nonDelete = filter (\<lambda>t. tr_action t \<noteq> DELETE) documentTransitions in
                    rbind (if nonDelete \<noteq> [] then validateDocumentsUniquenessByIndices env F s ownerId nonDelete c
                           else Inr new_ValidationResult) (\<lambda>uniqueness.
                      let result = ValidationResult_merge uniqueness result in
                      if \<not> ValidationResult_isValid result then Inr result
                      else
                        (let context = \<lparr>cx_state = s, cx_fetchDocuments = F, cx_ownerId = ownerId,
                                        cx_dataContract = c\<rparr>;
                             executed = executeDataTriggers env config documentTransitions context
                         in Inr (ValidationResult_addError (concat executed) result)))))))"

definition validateDocumentsBatchTransitionState ::
  "env \<Rightarrow> trigger_config \<Rightarrow> fetch_documents \<Rightarrow> drive_state \<Rightarrow> ident \<Rightarrow> document_transition list \<Rightarrow>
   dpp_error + unit validation_result" where
  "validateDocumentsBatchTransitionState env config F s ownerId transitions =
     rbind (rmap (\<lambda>(dataContractId, documentTransitions).
          validateDocumentTransitions_state env config F s dataContractId ownerId documentTransitions)
        (group_by tr_dataContractId transitions)) (\<lambda>results.
       Inr (fold ValidationResult_merge results new_ValidationResult))"

section \<open>applyDocumentsBatchTransition\<close>

text \<open>
  The code applies the transitions concurrently, \<open>Promise.all(transitions.map(...))\<close>; each
  works on the document of its own id, and the ids of a batch are different, so the order does
  not matter and the model takes the order of the list. The first error is thrown.
\<close>

definition INITIAL_REVISION :: int where "INITIAL_REVISION = 1"

definition created_document :: "int \<Rightarrow> ident \<Rightarrow> document_transition \<Rightarrow> document" where
  "created_document protocolVersion ownerId t =
     \<lparr>doc_protocolVersion = protocolVersion, doc_id = tr_id t, doc_type = tr_type t,
      doc_dataContractId = tr_dataContractId t, doc_ownerId = ownerId, doc_revision = INITIAL_REVISION,
      doc_createdAt = tr_createdAt t, doc_updatedAt = tr_updatedAt t, doc_data = tr_data t\<rparr>"

definition replaced_document :: "document_transition \<Rightarrow> document \<Rightarrow> document" where
  "replaced_document t d =
     d\<lparr>doc_revision := tr_revision t, doc_data := tr_data t,
       doc_updatedAt := (if tr_updatedAt t \<noteq> None then tr_updatedAt t else doc_updatedAt d)\<rparr>"

definition apply_document_transition ::
  "bool \<Rightarrow> int \<Rightarrow> ident \<Rightarrow> (ident \<times> document) list \<Rightarrow> drive_state \<Rightarrow> document_transition \<Rightarrow>
   dpp_error + drive_state" where
  "apply_document_transition tx protocolVersion ownerId fetchedDocumentsById s t =
     (case tr_action t of
        CREATE \<Rightarrow>
          (case fetchDataContract s (tr_dataContractId t) of
             None \<Rightarrow> Inl (ContractNotPresent (tr_dataContractId t))
           | Some _ \<Rightarrow> Inr (storeDocument tx (created_document protocolVersion ownerId t) s))
      | REPLACE \<Rightarrow>
          (case map_of fetchedDocumentsById (tr_id t) of
             None \<Rightarrow> Inl (DocumentNotProvidedError (tr_id t))
           | Some d \<Rightarrow> Inr (storeDocument tx (replaced_document t d) s))
      | DELETE \<Rightarrow> Inr (removeDocument tx (tr_id t) s))"

definition applyDocumentsBatchTransition ::
  "env \<Rightarrow> fetch_documents \<Rightarrow> bool \<Rightarrow> st_base \<Rightarrow> ident \<Rightarrow> document_transition list \<Rightarrow> drive_state \<Rightarrow>
   dpp_error + drive_state" where
  "applyDocumentsBatchTransition env F tx b ownerId transitions s =
     rbind (batch_fetchDocuments env F s (filter (\<lambda>t. tr_action t = REPLACE) transitions)) (\<lambda>fetched.
       let fetchedDocumentsById = set_all (map (\<lambda>d. (doc_id d, d)) fetched) [] in
       rfold (apply_document_transition tx (stb_protocolVersion b) ownerId fetchedDocumentsById) s transitions)"

section \<open>Groups\<close>

lemma group_by_map_of:
  "distinct (keys (group_by f xs)) \<and>
   map_of (group_by f xs) k =
     (if filter (\<lambda>x. f x = k) xs = [] then None else Some (filter (\<lambda>x. f x = k) xs))"
proof (induction xs rule: rev_induct)
  case Nil
  then show ?case by (simp add: group_by_def)
next
  case (snoc x xs)
  have step: "group_by f (xs @ [x]) = AList.update (f x)
      ((case map_of (group_by f xs) (f x) of None \<Rightarrow> [] | Some ys \<Rightarrow> ys) @ [x]) (group_by f xs)"
    by (simp add: group_by_def)
  show ?case
  proof (cases "f x = k")
    case True
    with snoc show ?thesis unfolding step map_of_update by (simp split: if_splits)
  next
    case False
    with snoc show ?thesis unfolding step map_of_update by simp
  qed
qed

lemma group_by_values:
  "(k, ys) \<in> set (group_by f xs) \<longleftrightarrow> ys = filter (\<lambda>x. f x = k) xs \<and> ys \<noteq> []"
proof -
  have "distinct (keys (group_by f xs))" using group_by_map_of [of f xs k] by blast
  then have "(k, ys) \<in> set (group_by f xs) \<longleftrightarrow> map_of (group_by f xs) k = Some ys"
    by (simp add: map_of_eq_Some_iff)
  then show ?thesis using group_by_map_of [of f xs k] by auto
qed

lemma group_by_member:
  "x \<in> set xs \<Longrightarrow> \<exists>ys. (f x, ys) \<in> set (group_by f xs) \<and> x \<in> set ys"
  by (intro exI [of _ "filter (\<lambda>y. f y = f x) xs"]) (auto simp: group_by_values filter_empty_conv)

lemma group_by_hd: "(k, ys) \<in> set (group_by f xs) \<Longrightarrow> ys \<noteq> [] \<and> (\<forall>y \<in> set ys. f y = k \<and> y \<in> set xs)"
  by (auto simp: group_by_values)

section \<open>What a valid batch does\<close>

definition doc_view :: "drive_state \<Rightarrow> ident \<Rightarrow> document option" where
  "doc_view s i = vstore_get True (ds_documents s) i"

definition doc_committed :: "drive_state \<Rightarrow> ident \<Rightarrow> bool" where
  "doc_committed s i \<longleftrightarrow> map_of (vs_db (ds_documents s)) i \<noteq> None"

text \<open>
  What the code relies on when it fetches documents by their ids: it gets the documents of that
  contract and type with these ids, as the block's transaction sees them, and nothing else.
\<close>

definition fetch_documented :: "fetch_documents \<Rightarrow> drive_state \<Rightarrow> bool" where
  "fetch_documented F s \<longleftrightarrow>
     (\<forall>cid type is docs. F s cid type (id_in is) = Inr docs \<longrightarrow>
        (\<forall>d. d \<in> set docs \<longleftrightarrow>
           doc_id d \<in> set is \<and> doc_view s (doc_id d) = Some d \<and> doc_type d = type \<and>
           doc_dataContractId d = cid))"

definition documents_keyed :: "drive_state \<Rightarrow> bool" where
  "documents_keyed s \<longleftrightarrow> (\<forall>i d. doc_view s i = Some d \<longrightarrow> doc_id d = i)"

text \<open>The ids of the batch, which are hashes of contract, owner, type and entropy, do not collide
  with those of documents of other contracts or types.\<close>

definition no_id_collision :: "drive_state \<Rightarrow> document_transition list \<Rightarrow> bool" where
  "no_id_collision s ts \<longleftrightarrow>
     (\<forall>t \<in> set ts. \<forall>d. doc_view s (tr_id t) = Some d \<longrightarrow>
        doc_type d = tr_type t \<and> doc_dataContractId d = tr_dataContractId t)"

lemma rmap_member:
  "rmap f xs = Inr ys \<Longrightarrow> x \<in> set xs \<Longrightarrow> \<exists>y \<in> set ys. f x = Inr y"
  by (induction xs arbitrary: ys) (auto simp: rbind_eq_Inr_iff)

lemma rmap_source:
  "rmap f xs = Inr ys \<Longrightarrow> y \<in> set ys \<Longrightarrow> \<exists>x \<in> set xs. f x = Inr y"
  by (induction xs arbitrary: ys) (auto simp: rbind_eq_Inr_iff)

lemma batch_fetch_sound:
  assumes "fetch_documented F s" and "batch_fetchDocuments env F s ts = Inr docs" and "d \<in> set docs"
  shows "doc_view s (doc_id d) = Some d"
proof -
  from assms(2) obtain fetched where f: "rmap (\<lambda>(_, transitions).
          F s (tr_dataContractId (hd transitions)) (tr_type (hd transitions)) (id_in (map tr_id transitions)))
        (group_by (group_key env) ts) = Inr fetched" and "docs = concat fetched"
    by (auto simp: batch_fetchDocuments_def rbind_eq_Inr_iff)
  with assms(3) obtain ds where "ds \<in> set fetched" "d \<in> set ds" by auto
  from rmap_source [OF f this(1)] have "\<exists>us :: document_transition list. F s (tr_dataContractId (hd us)) (tr_type (hd us))
      (id_in (map tr_id us)) = Inr ds"
    by (auto simp: split_def)
  with assms(1) \<open>d \<in> set ds\<close> show ?thesis unfolding fetch_documented_def by blast
qed

lemma batch_fetch_complete:
  assumes "fetch_documented F s" and "batch_fetchDocuments env F s ts = Inr docs"
    and "\<forall>t \<in> set ts. tr_dataContractId t = cid" and "documents_keyed s" and "no_id_collision s ts"
    and "t \<in> set ts" and "doc_view s (tr_id t) = Some d"
  shows "d \<in> set docs"
proof -
  from assms(2) obtain fetched where f: "rmap (\<lambda>(_, transitions).
          F s (tr_dataContractId (hd transitions)) (tr_type (hd transitions)) (id_in (map tr_id transitions)))
        (group_by (group_key env) ts) = Inr fetched" and docs: "docs = concat fetched"
    by (auto simp: batch_fetchDocuments_def rbind_eq_Inr_iff)
  from group_by_member [OF assms(6)] obtain us
    where us: "(group_key env t, us) \<in> set (group_by (group_key env) ts)" "t \<in> set us" by blast
  from rmap_member [OF f us(1)] obtain ds where ds: "ds \<in> set fetched"
    "F s (tr_dataContractId (hd us)) (tr_type (hd us)) (id_in (map tr_id us)) = Inr ds" by auto
  have "hd us \<in> set us" using us(2) by (cases us) auto
  with group_by_hd [OF us(1)] have "group_key env (hd us) = group_key env t" "hd us \<in> set ts" by auto
  with assms(3,6) have hd: "tr_dataContractId (hd us) = tr_dataContractId t" "tr_type (hd us) = tr_type t"
    by (auto simp: group_key_def)
  have "doc_id d = tr_id t" using assms(4,7) by (simp add: documents_keyed_def)
  moreover have "doc_type d = tr_type t" "doc_dataContractId d = tr_dataContractId t"
    using assms(5-7) by (auto simp: no_id_collision_def)
  ultimately have "d \<in> set ds"
    using assms(1,7) ds(2) hd us(2) unfolding fetch_documented_def by auto
  with ds(1) docs show ?thesis by auto
qed

lemma find_fetched:
  assumes "fetch_documented F s" and "batch_fetchDocuments env F s ts = Inr docs"
    and "\<forall>t \<in> set ts. tr_dataContractId t = cid" and "documents_keyed s" and "no_id_collision s ts"
    and "t \<in> set ts"
  shows "find (\<lambda>d. tr_id t = doc_id d) docs = doc_view s (tr_id t)"
proof (cases "find (\<lambda>d. tr_id t = doc_id d) docs")
  case None
  have "doc_view s (tr_id t) = None"
  proof (rule ccontr)
    assume "doc_view s (tr_id t) \<noteq> None"
    then obtain d where d: "doc_view s (tr_id t) = Some d" by blast
    with assms(4) have "doc_id d = tr_id t" by (simp add: documents_keyed_def)
    with None batch_fetch_complete [OF assms d] show False by (auto simp: find_None_iff)
  qed
  with None show ?thesis by simp
next
  case (Some d)
  then have "d \<in> set docs" "doc_id d = tr_id t" by (auto simp: find_Some_iff)
  with batch_fetch_sound [OF assms(1,2)] Some show ?thesis by metis
qed

text \<open>What the state validation guarantees of one transition, against the document it is about.\<close>

definition transition_allowed :: "ident \<Rightarrow> document_transition \<Rightarrow> document option \<Rightarrow> bool" where
  "transition_allowed ownerId t existing =
     (case tr_action t of
        CREATE \<Rightarrow> existing = None
      | REPLACE \<Rightarrow> (case existing of None \<Rightarrow> False
                   | Some d \<Rightarrow> doc_ownerId d = ownerId \<and> tr_revision t = doc_revision d + 1)
      | DELETE \<Rightarrow> (case existing of None \<Rightarrow> False | Some d \<Rightarrow> doc_ownerId d = ownerId))"

lemma transition_state_errors_allowed:
  "transition_state_errors window ownerId docs t = [] \<Longrightarrow>
   transition_allowed ownerId t (find (\<lambda>d. tr_id t = doc_id d) docs)"
  by (auto simp: transition_state_errors_def transition_allowed_def existing_document_errors_def Let_def
      split: action.splits option.splits if_splits)

lemma merged_valid:
  "ValidationResult_isValid (fold ValidationResult_merge rs r) \<longleftrightarrow>
   ValidationResult_isValid r \<and> (\<forall>r' \<in> set rs. ValidationResult_isValid r')"
  by (induction rs arbitrary: r) auto

lemma validate_group_fetch:
  assumes "run_valid (validateDocumentTransitions_state env config F s cid ownerId ts)"
  shows "\<exists>docs window. batch_fetchDocuments env F s ts = Inr docs \<and>
    (\<forall>t \<in> set ts. transition_state_errors window ownerId docs t = [])"
proof -
  from assms obtain c where c: "fetchDataContract s cid = Some c"
    by (cases "fetchDataContract s cid") (auto simp: validateDocumentTransitions_state_def)
  from assms c obtain docs where docs: "batch_fetchDocuments env F s ts = Inr docs"
    by (cases "batch_fetchDocuments env F s ts") (auto simp: validateDocumentTransitions_state_def)
  from assms c docs obtain header where h: "fetchLatestPlatformBlockHeader s = Some header"
    by (cases "fetchLatestPlatformBlockHeader s") (auto simp: validateDocumentTransitions_state_def)
  from assms have "concat (map (transition_state_errors (time_window header) ownerId docs) ts) = []"
    by (rule contrapos_pp) (simp add: validateDocumentTransitions_state_def c docs h Let_def)
  then have "\<forall>t \<in> set ts. transition_state_errors (time_window header) ownerId docs t = []" by simp
  with docs show ?thesis by blast
qed

lemma valid_batch_allowed:
  assumes "run_valid (validateDocumentsBatchTransitionState env config F s ownerId ts)"
    and "fetch_documented F s" and "documents_keyed s" and "no_id_collision s ts" and "t \<in> set ts"
  shows "transition_allowed ownerId t (doc_view s (tr_id t))"
proof -
  from assms(1) obtain results where r: "rmap (\<lambda>(dataContractId, documentTransitions).
          validateDocumentTransitions_state env config F s dataContractId ownerId documentTransitions)
        (group_by tr_dataContractId ts) = Inr results"
    and valid: "\<forall>r \<in> set results. ValidationResult_isValid r"
    by (auto simp: validateDocumentsBatchTransitionState_def run_valid_iff rbind_eq_Inr_iff merged_valid)
  from group_by_member [OF assms(5)] obtain us
    where us: "(tr_dataContractId t, us) \<in> set (group_by tr_dataContractId ts)" "t \<in> set us" by blast
  from rmap_member [OF r us(1)] valid
  have "run_valid (validateDocumentTransitions_state env config F s (tr_dataContractId t) ownerId us)"
    by (auto simp: run_valid_iff)
  from validate_group_fetch [OF this] obtain docs window
    where docs: "batch_fetchDocuments env F s us = Inr docs"
      and ok: "transition_state_errors window ownerId docs t = []" using us(2) by blast
  have same: "\<forall>u \<in> set us. tr_dataContractId u = tr_dataContractId t"
    and sub: "\<forall>u \<in> set us. u \<in> set ts" using group_by_hd [OF us(1)] by auto
  have "no_id_collision s us" using assms(4) sub unfolding no_id_collision_def by blast
  from find_fetched [OF assms(2) docs same assms(3) this us(2)] transition_state_errors_allowed [OF ok]
  show ?thesis by simp
qed

text \<open>What applying one transition leaves in place of the document it is about.\<close>

definition transition_effect ::
  "int \<Rightarrow> ident \<Rightarrow> drive_state \<Rightarrow> document_transition \<Rightarrow> document option" where
  "transition_effect protocolVersion ownerId s t =
     (case tr_action t of
        CREATE \<Rightarrow> Some (created_document protocolVersion ownerId t)
      | REPLACE \<Rightarrow> map_option (replaced_document t) (doc_view s (tr_id t))
      | DELETE \<Rightarrow> if doc_committed s (tr_id t) then None else doc_view s (tr_id t))"

lemma doc_view_store: "doc_view (storeDocument True d s) i = (if i = doc_id d then Some d else doc_view s i)"
  by (simp add: doc_view_def storeDocument_def vstore_view.lookup_insert)

lemma doc_view_remove:
  "doc_view (removeDocument True j s) i = (if i = j \<and> doc_committed s j then None else doc_view s i)"
  by (auto simp: doc_view_def removeDocument_def vstore_delete_def vstore_get_def doc_committed_def
      map_of_update split: option.splits)

lemma doc_committed_frame:
  "doc_committed (storeDocument True d s) i = doc_committed s i"
  "doc_committed (removeDocument True j s) i = doc_committed s i"
  by (auto simp: doc_committed_def storeDocument_def removeDocument_def vstore_put_def vstore_delete_def)

lemma apply_one:
  assumes "apply_document_transition True v ownerId fetched s t = Inr s'"
    and "\<forall>i d. map_of fetched i = Some d \<longrightarrow> doc_id d = i"
  shows "(\<forall>i. i \<noteq> tr_id t \<longrightarrow> doc_view s' i = doc_view s i) \<and>
    (\<forall>i. doc_committed s' i = doc_committed s i) \<and>
    doc_view s' (tr_id t) = (case tr_action t of
        CREATE \<Rightarrow> Some (created_document v ownerId t)
      | REPLACE \<Rightarrow> map_option (replaced_document t) (map_of fetched (tr_id t))
      | DELETE \<Rightarrow> if doc_committed s (tr_id t) then None else doc_view s (tr_id t))"
  using assms
  by (auto simp: apply_document_transition_def doc_view_store doc_view_remove doc_committed_frame
      created_document_def replaced_document_def split: action.splits option.splits)

lemma apply_all:
  assumes "rfold (apply_document_transition True v ownerId fetched) s ts = Inr s'"
    and "\<forall>i d. map_of fetched i = Some d \<longrightarrow> doc_id d = i" and "distinct (map tr_id ts)"
  shows "(\<forall>i. i \<notin> tr_id ` set ts \<longrightarrow> doc_view s' i = doc_view s i) \<and>
    (\<forall>t \<in> set ts. doc_view s' (tr_id t) = (case tr_action t of
        CREATE \<Rightarrow> Some (created_document v ownerId t)
      | REPLACE \<Rightarrow> map_option (replaced_document t) (map_of fetched (tr_id t))
      | DELETE \<Rightarrow> if doc_committed s (tr_id t) then None else doc_view s (tr_id t)))"
  using assms
proof (induction ts arbitrary: s)
  case Nil
  then show ?case by simp
next
  case (Cons t ts)
  from Cons.prems(1) obtain u where u: "apply_document_transition True v ownerId fetched s t = Inr u"
    and rest: "rfold (apply_document_transition True v ownerId fetched) u ts = Inr s'"
    by (auto simp: rbind_eq_Inr_iff)
  note one = apply_one [OF u Cons.prems(2)]
  from Cons.prems(3) have fresh: "tr_id t \<notin> tr_id ` set ts" and dist: "distinct (map tr_id ts)" by auto
  note IH = Cons.IH [OF rest Cons.prems(2) dist]
  have "doc_view u (tr_id t') = doc_view s (tr_id t')" if "t' \<in> set ts" for t'
    using one fresh that by (metis image_eqI)
  then show ?case using IH one fresh by (auto split: action.splits)
qed

lemma map_of_rev_id:
  assumes "\<And>d. d \<in> set docs \<Longrightarrow> doc_view s (doc_id d) = Some d"
  shows "map_of (set_all (map (\<lambda>d. (doc_id d, d)) docs) []) i =
    (if i \<in> doc_id ` set docs then doc_view s i else None)"
proof -
  have "map_of (rev (map (\<lambda>d. (doc_id d, d)) docs)) i = Some d \<longleftrightarrow> d \<in> set docs \<and> doc_id d = i" for d
  proof
    assume "map_of (rev (map (\<lambda>d. (doc_id d, d)) docs)) i = Some d"
    then show "d \<in> set docs \<and> doc_id d = i" by (auto dest!: map_of_SomeD)
  next
    assume d: "d \<in> set docs \<and> doc_id d = i"
    then have "map_of (rev (map (\<lambda>d. (doc_id d, d)) docs)) i \<noteq> None"
      by (auto simp: map_of_eq_None_iff image_image)
    then obtain e where e: "map_of (rev (map (\<lambda>d. (doc_id d, d)) docs)) i = Some e" by blast
    then have "e \<in> set docs \<and> doc_id e = i" by (auto dest!: map_of_SomeD)
    with d assms have "e = d" by (metis option.inject)
    with e show "map_of (rev (map (\<lambda>d. (doc_id d, d)) docs)) i = Some d" by simp
  qed
  then have look: "map_of (set_all (map (\<lambda>d. (doc_id d, d)) docs) []) i = Some d \<longleftrightarrow>
      d \<in> set docs \<and> doc_id d = i" for d
    by (simp add: map_of_set_all)
  show ?thesis
  proof (cases "i \<in> doc_id ` set docs")
    case True
    then obtain d where "d \<in> set docs" "doc_id d = i" by auto
    with look [of d] assms [of d] True show ?thesis by simp
  next
    case False
    then have "map_of (set_all (map (\<lambda>d. (doc_id d, d)) docs) []) i \<noteq> Some d" for d
      using look [of d] by blast
    then have "map_of (set_all (map (\<lambda>d. (doc_id d, d)) docs) []) i = None" by fast
    with False show ?thesis by simp
  qed
qed

lemma apply_replaces_fetched:
  "rfold (apply_document_transition tx v ownerId fetched) s ts = Inr s' \<Longrightarrow> t \<in> set ts \<Longrightarrow>
   tr_action t = REPLACE \<Longrightarrow> map_of fetched (tr_id t) \<noteq> None"
  by (induction ts arbitrary: s)
     (auto simp: rbind_eq_Inr_iff apply_document_transition_def split: option.splits)

lemma apply_batch_effect:
  assumes "fetch_documented F s" and "distinct (map tr_id ts)"
    and "applyDocumentsBatchTransition env F True b ownerId ts s = Inr s'"
  shows "(\<forall>i. i \<notin> tr_id ` set ts \<longrightarrow> doc_view s' i = doc_view s i) \<and>
    (\<forall>t \<in> set ts. doc_view s' (tr_id t) = transition_effect (stb_protocolVersion b) ownerId s t)"
proof -
  from assms(3) obtain docs where
    docs: "batch_fetchDocuments env F s (filter (\<lambda>t. tr_action t = REPLACE) ts) = Inr docs"
    and run: "rfold (apply_document_transition True (stb_protocolVersion b) ownerId
       (set_all (map (\<lambda>d. (doc_id d, d)) docs) [])) s ts = Inr s'"
    by (auto simp: applyDocumentsBatchTransition_def rbind_eq_Inr_iff Let_def)
  have look: "map_of (set_all (map (\<lambda>d. (doc_id d, d)) docs) []) i =
    (if i \<in> doc_id ` set docs then doc_view s i else None)" for i
    by (rule map_of_rev_id) (rule batch_fetch_sound [OF assms(1) docs])
  have keyed: "\<forall>i d. map_of (set_all (map (\<lambda>d. (doc_id d, d)) docs) []) i = Some d \<longrightarrow> doc_id d = i"
    using batch_fetch_sound [OF assms(1) docs] by (auto simp: look split: if_splits)
  have "map_of (set_all (map (\<lambda>d. (doc_id d, d)) docs) []) (tr_id t) = doc_view s (tr_id t)"
    if "t \<in> set ts" "tr_action t = REPLACE" for t
    using apply_replaces_fetched [OF run that] by (simp add: look split: if_splits)
  with apply_all [OF run keyed assms(2)] show ?thesis
    by (auto simp: transition_effect_def split: action.splits)
qed


definition sample_fetch :: fetch_documents where
  "sample_fetch s cid type w =
     Inr (case w of
        [(f, _, JArr vs)] \<Rightarrow>
          if f = ''$id'' then
            filter (\<lambda>d. JBuf (doc_id d) \<in> set vs \<and> doc_type d = type \<and> doc_dataContractId d = cid)
              (List.map_filter (doc_view s) (keys (vs_tx (ds_documents s)) @ keys (vs_db (ds_documents s))))
          else []
      | _ \<Rightarrow> [])"

lemma doc_view_keys:
  "doc_view s i = Some d \<Longrightarrow> i \<in> set (keys (vs_tx (ds_documents s))) \<or> i \<in> set (keys (vs_db (ds_documents s)))"
  by (force simp: doc_view_def vstore_get_def dest: map_of_SomeD split: option.splits)

lemma sample_fetch_documented: "documents_keyed s \<Longrightarrow> fetch_documented sample_fetch s"
proof -
  assume keyed: "documents_keyed s"
  let ?ks = "keys (vs_tx (ds_documents s)) @ keys (vs_db (ds_documents s))"
  have mf: "d \<in> set (List.map_filter f xs) \<longleftrightarrow> (\<exists>x \<in> set xs. f x = Some d)"
    for d :: document and f :: "ident \<Rightarrow> document option" and xs
    by (induction xs) (auto simp: List.map_filter_simps split: option.splits)
  have "d \<in> set (List.map_filter (doc_view s) ?ks) \<longleftrightarrow> doc_view s (doc_id d) = Some d" for d
  proof
    assume "d \<in> set (List.map_filter (doc_view s) ?ks)"
    with keyed show "doc_view s (doc_id d) = Some d" unfolding mf documents_keyed_def by metis
  next
    assume v: "doc_view s (doc_id d) = Some d"
    with doc_view_keys [OF v] have "doc_id d \<in> set ?ks" by simp
    with v show "d \<in> set (List.map_filter (doc_view s) ?ks)" unfolding mf by blast
  qed
  then show ?thesis by (auto simp: fetch_documented_def sample_fetch_def id_in_def)
qed

definition sample_note :: document where
  "sample_note = \<lparr>doc_protocolVersion = 1, doc_id = [1], doc_type = ''note'', doc_dataContractId = [7],
     doc_ownerId = [9], doc_revision = 1, doc_createdAt = Some 1000, doc_updatedAt = Some 1000,
     doc_data = []\<rparr>"

definition sample_note_contract :: data_contract where
  "sample_note_contract = sample_contract\<lparr>dc_documents :=
     [(''note'', \<lparr>cs_indices = None, cs_schema = JUndefined\<rparr>)]\<rparr>"

definition sample_state :: drive_state where
  "sample_state = empty_state\<lparr>
     ds_dataContracts := \<lparr>vs_db = [([7], sample_note_contract)], vs_tx = []\<rparr>,
     ds_documents := \<lparr>vs_db = [([1], sample_note)], vs_tx = []\<rparr>,
     ds_header := Some \<lparr>hd_height = 3, hd_coreChainLockedHeight = 10, hd_time_seconds = 1,
                         hd_app_version = 1\<rparr>\<rparr>"

definition sample_replace :: document_transition where
  "sample_replace = \<lparr>tr_action = REPLACE, tr_id = [1], tr_type = ''note'', tr_dataContractId = [7],
     tr_entropy = [], tr_createdAt = None, tr_updatedAt = Some 2000, tr_revision = 2,
     tr_data = [(''title'', JStr ''t'')]\<rparr>"

definition no_system_contracts :: trigger_config where
  "no_system_contracts = \<lparr>tc_dpnsContractId = [], tc_dpnsTopLevelIdentity = [], tc_dashPayContractId = [],
     tc_featureFlagsContractId = [], tc_featureFlagsTopLevelIdentity = []\<rparr>"

lemma sample_state_view: "doc_view sample_state i = (if i = [1] then Some sample_note else None)"
  by (simp add: doc_view_def sample_state_def vstore_get_def)

lemma sample_state_keyed: "documents_keyed sample_state"
  by (simp add: documents_keyed_def sample_state_view sample_note_def)

lemma sample_replace_no_collision: "no_id_collision sample_state [sample_replace]"
  by (simp add: no_id_collision_def sample_state_view sample_note_def sample_replace_def)

lemma sample_replace_valid:
  "run_valid (validateDocumentsBatchTransitionState sample_env no_system_contracts sample_fetch
     sample_state [9] [sample_replace])"
  by code_simp

lemma sample_replace_applies:
  "\<exists>s'. applyDocumentsBatchTransition sample_env sample_fetch True sample_base [9] [sample_replace]
     sample_state = Inr s'"
proof -
  have "is_ok (applyDocumentsBatchTransition sample_env sample_fetch True sample_base [9] [sample_replace]
     sample_state)" by code_simp
  then show ?thesis by (simp add: is_ok_iff)
qed




end
