(* ===== verification/BlockContext.thy ===== *)
theory BlockContext
  imports StateRepository
begin

text \<open>
  What js-drive keeps about the block it executes: \<open>lib/blockExecution/BlockExecutionContext.js\<close>
  and its repository, and the pool that collects the fees, \<open>lib/creditsDistributionPool\<close>.
  The loggers carry no state of their own: a consensus logger is the name of the ABCI method it
  was made for. JavaScript numbers are integers: fees and counters stay far below \<open>2^53\<close>.
\<close>

section \<open>BlockExecutionContext\<close>

record last_commit_info =
  lc_quorumHash :: buffer
  lc_stateSignature :: buffer

record block_execution_context =
  bc_dataContracts :: "data_contract list"
  bc_cumulativeFees :: int
  bc_header :: "block_header option"
  bc_lastCommitInfo :: "last_commit_info option"
  bc_validTxs :: int
  bc_invalidTxs :: int
  bc_consensusLogger :: "string option"

definition new_BlockExecutionContext :: block_execution_context where
  "new_BlockExecutionContext = \<lparr>bc_dataContracts = [], bc_cumulativeFees = 0, bc_header = None,
     bc_lastCommitInfo = None, bc_validTxs = 0, bc_invalidTxs = 0, bc_consensusLogger = None\<rparr>"

definition addDataContract :: "data_contract \<Rightarrow> block_execution_context \<Rightarrow> block_execution_context" where
  "addDataContract c x = x\<lparr>bc_dataContracts := bc_dataContracts x @ [c]\<rparr>"

definition hasDataContract :: "block_execution_context \<Rightarrow> ident \<Rightarrow> bool" where
  "hasDataContract x i \<longleftrightarrow> find (\<lambda>c. i = dc_id c) (bc_dataContracts x) \<noteq> None"

definition incrementCumulativeFees :: "int \<Rightarrow> block_execution_context \<Rightarrow> block_execution_context" where
  "incrementCumulativeFees fee x = x\<lparr>bc_cumulativeFees := bc_cumulativeFees x + fee\<rparr>"

definition incrementValidTxCount :: "block_execution_context \<Rightarrow> block_execution_context" where
  "incrementValidTxCount x = x\<lparr>bc_validTxs := bc_validTxs x + 1\<rparr>"

definition incrementInvalidTxCount :: "block_execution_context \<Rightarrow> block_execution_context" where
  "incrementInvalidTxCount x = x\<lparr>bc_invalidTxs := bc_invalidTxs x + 1\<rparr>"

definition setConsensusLogger :: "string \<Rightarrow> block_execution_context \<Rightarrow> block_execution_context" where
  "setConsensusLogger l x = x\<lparr>bc_consensusLogger := Some l\<rparr>"

definition getConsensusLogger :: "block_execution_context \<Rightarrow> dpp_error + string" where
  "getConsensusLogger x =
     (case bc_consensusLogger x of
        None \<Rightarrow> Inl (JsError ''Consensus logger has not been set'')
      | Some l \<Rightarrow> Inr l)"

definition BlockExecutionContext_reset :: "block_execution_context \<Rightarrow> block_execution_context" where
  "BlockExecutionContext_reset x =
     x\<lparr>bc_dataContracts := [], bc_cumulativeFees := 0, bc_header := None, bc_lastCommitInfo := None,
       bc_validTxs := 0, bc_invalidTxs := 0, bc_consensusLogger := None\<rparr>"

definition BlockExecutionContext_isEmpty :: "block_execution_context \<Rightarrow> bool" where
  "BlockExecutionContext_isEmpty x \<longleftrightarrow> bc_header x = None"

definition BlockExecutionContext_populate ::
  "block_execution_context \<Rightarrow> block_execution_context \<Rightarrow> block_execution_context" where
  "BlockExecutionContext_populate source x =
     x\<lparr>bc_dataContracts := bc_dataContracts source, bc_lastCommitInfo := bc_lastCommitInfo source,
       bc_cumulativeFees := bc_cumulativeFees source, bc_header := bc_header source,
       bc_validTxs := bc_validTxs source, bc_invalidTxs := bc_invalidTxs source,
       bc_consensusLogger := bc_consensusLogger source\<rparr>"

text \<open>\<open>DataContract.toObject\<close> leaves out empty definitions; the constructor keeps them absent.\<close>

record raw_data_contract =
  rd_protocolVersion :: int
  rd_id :: ident
  rd_schema :: string
  rd_ownerId :: ident
  rd_documents :: "(string \<times> contract_document_schema) list"
  rd_defs :: "(string \<times> js) list option"

definition DataContract_toObject :: "data_contract \<Rightarrow> raw_data_contract" where
  "DataContract_toObject c = \<lparr>rd_protocolVersion = dc_protocolVersion c, rd_id = dc_id c,
     rd_schema = dc_schema c, rd_ownerId = dc_ownerId c, rd_documents = dc_documents c,
     rd_defs = (if dc_defs c \<noteq> [] then Some (dc_defs c) else None)\<rparr>"

definition new_DataContract :: "raw_data_contract \<Rightarrow> data_contract" where
  "new_DataContract r = \<lparr>dc_protocolVersion = rd_protocolVersion r, dc_id = rd_id r,
     dc_ownerId = rd_ownerId r, dc_schema = rd_schema r, dc_documents = rd_documents r,
     dc_defs = (case rd_defs r of None \<Rightarrow> [] | Some d \<Rightarrow> d)\<rparr>"

lemma DataContract_roundtrip: "new_DataContract (DataContract_toObject c) = c"
  by (simp add: new_DataContract_def DataContract_toObject_def)

record context_object =
  co_dataContracts :: "raw_data_contract list"
  co_cumulativeFees :: int
  co_header :: block_header
  co_lastCommitInfo :: last_commit_info
  co_validTxs :: int
  co_invalidTxs :: int
  co_consensusLogger :: "string option"

definition BlockExecutionContext_toObject ::
  "bool \<Rightarrow> block_execution_context \<Rightarrow> dpp_error + context_object" where
  "BlockExecutionContext_toObject skipConsensusLogger x =
     (case (bc_header x, bc_lastCommitInfo x) of
        (Some header, Some info) \<Rightarrow>
          Inr \<lparr>co_dataContracts = map DataContract_toObject (bc_dataContracts x),
               co_cumulativeFees = bc_cumulativeFees x, co_header = header, co_lastCommitInfo = info,
               co_validTxs = bc_validTxs x, co_invalidTxs = bc_invalidTxs x,
               co_consensusLogger = (if skipConsensusLogger then None else bc_consensusLogger x)\<rparr>
      | _ \<Rightarrow> Inl JsTypeError)"

definition BlockExecutionContext_fromObject ::
  "context_object \<Rightarrow> block_execution_context \<Rightarrow> block_execution_context" where
  "BlockExecutionContext_fromObject obj x =
     x\<lparr>bc_dataContracts := map new_DataContract (co_dataContracts obj),
       bc_lastCommitInfo := Some (co_lastCommitInfo obj), bc_cumulativeFees := co_cumulativeFees obj,
       bc_header := Some (co_header obj), bc_validTxs := co_validTxs obj,
       bc_invalidTxs := co_invalidTxs obj, bc_consensusLogger := co_consensusLogger obj\<rparr>"

section \<open>BlockExecutionContextRepository\<close>

text \<open>The external LevelDB is a map from keys to values; reading an absent key throws a
  \<open>NotFoundError\<close>, which the repository turns into an empty context.\<close>

type_synonym level_db = "(buffer \<times> buffer) list"

definition ascii :: "string \<Rightarrow> buffer" where
  "ascii s = map (\<lambda>c. word_of_nat (of_char c)) s"

definition EXTERNAL_STORE_KEY_NAME :: buffer where
  "EXTERNAL_STORE_KEY_NAME = ascii ''blockExecutionContext''"

definition KEY_PREFIX_CURRENT :: buffer where "KEY_PREFIX_CURRENT = ascii ''current''"
definition KEY_PREFIX_PREVIOUS :: buffer where "KEY_PREFIX_PREVIOUS = ascii ''previous''"

definition makeKey :: "buffer \<Rightarrow> buffer" where
  "makeKey keyPrefix = EXTERNAL_STORE_KEY_NAME @ keyPrefix"

definition BlockExecutionContextRepository_store ::
  "(context_object \<Rightarrow> buffer) \<Rightarrow> buffer \<Rightarrow> block_execution_context \<Rightarrow> level_db \<Rightarrow> dpp_error + level_db" where
  "BlockExecutionContextRepository_store enc keyPrefix x db =
     rbind (BlockExecutionContext_toObject True x) (\<lambda>obj.
       Inr (AList.update (makeKey keyPrefix) (enc obj) db))"

definition BlockExecutionContextRepository_fetch ::
  "(buffer \<Rightarrow> dpp_error + context_object) \<Rightarrow> buffer \<Rightarrow> level_db \<Rightarrow> dpp_error + block_execution_context" where
  "BlockExecutionContextRepository_fetch dec keyPrefix db =
     (case map_of db (makeKey keyPrefix) of
        None \<Rightarrow> Inr new_BlockExecutionContext
      | Some b \<Rightarrow> rbind (dec b) (\<lambda>obj.
          Inr (BlockExecutionContext_fromObject obj new_BlockExecutionContext)))"

lemma prefixes_differ: "makeKey KEY_PREFIX_CURRENT \<noteq> makeKey KEY_PREFIX_PREVIOUS"
  by (simp add: makeKey_def KEY_PREFIX_CURRENT_def KEY_PREFIX_PREVIOUS_def ascii_def)

text \<open>
  The context of an executed block survives a restart: what was stored under either prefix
  is read back with every field but the logger, and storing under one prefix leaves what is
  read under the other.
\<close>

theorem context_store_roundtrip:
  assumes "BlockExecutionContext_toObject True x = Inr obj" and "dec (enc obj) = Inr obj"
    and "p \<in> {KEY_PREFIX_CURRENT, KEY_PREFIX_PREVIOUS}" and "q \<in> {KEY_PREFIX_CURRENT, KEY_PREFIX_PREVIOUS}"
  shows "\<exists>db'. BlockExecutionContextRepository_store enc p x db = Inr db' \<and>
    BlockExecutionContextRepository_fetch dec q db' =
      (if q = p then Inr (x\<lparr>bc_consensusLogger := None\<rparr>)
       else BlockExecutionContextRepository_fetch dec q db)"
proof -
  have keys: "makeKey q = makeKey p \<longleftrightarrow> q = p"
    by (simp add: makeKey_def)
  have "BlockExecutionContext_fromObject obj new_BlockExecutionContext = x\<lparr>bc_consensusLogger := None\<rparr>"
    using assms(1)
    by (auto simp: BlockExecutionContext_toObject_def BlockExecutionContext_fromObject_def
        new_BlockExecutionContext_def DataContract_roundtrip comp_def split: option.splits)
  then show ?thesis
    using assms(1,2) keys
    by (simp add: BlockExecutionContextRepository_store_def BlockExecutionContextRepository_fetch_def
        map_of_update)
qed

definition sample_block_context :: block_execution_context where
  "sample_block_context = new_BlockExecutionContext\<lparr>bc_header := Some \<lparr>hd_height = 1,
     hd_coreChainLockedHeight = 1, hd_time_seconds = 0, hd_app_version = 1\<rparr>,
     bc_lastCommitInfo := Some \<lparr>lc_quorumHash = [], lc_stateSignature = []\<rparr>\<rparr>"

theorem context_store_roundtrip_witness:
  "\<exists>obj db'. BlockExecutionContextRepository_store (\<lambda>_. [1]) KEY_PREFIX_PREVIOUS sample_block_context [] = Inr db' \<and>
     BlockExecutionContextRepository_fetch (\<lambda>_. Inr obj) KEY_PREFIX_PREVIOUS db' =
       Inr (sample_block_context\<lparr>bc_consensusLogger := None\<rparr>)"
proof -
  obtain obj where obj: "BlockExecutionContext_toObject True sample_block_context = Inr obj"
    by (simp add: BlockExecutionContext_toObject_def sample_block_context_def)
  show ?thesis
    using context_store_roundtrip [OF obj, of "\<lambda>_. Inr obj" "\<lambda>_. [1]" KEY_PREFIX_PREVIOUS KEY_PREFIX_PREVIOUS "[]"]
    by auto
qed

section \<open>CreditsDistributionPool\<close>

record credits_distribution_pool =
  cp_amount :: int

definition new_CreditsDistributionPool :: credits_distribution_pool where
  "new_CreditsDistributionPool = \<lparr>cp_amount = 0\<rparr>"

definition CreditsDistributionPool_setAmount :: "int \<Rightarrow> credits_distribution_pool \<Rightarrow> credits_distribution_pool" where
  "CreditsDistributionPool_setAmount n p = p\<lparr>cp_amount := n\<rparr>"

definition CreditsDistributionPool_incrementAmount :: "int \<Rightarrow> credits_distribution_pool \<Rightarrow> credits_distribution_pool" where
  "CreditsDistributionPool_incrementAmount n p = p\<lparr>cp_amount := cp_amount p + n\<rparr>"

definition POOL_KEY_NAME :: buffer where "POOL_KEY_NAME = ascii ''CreditsDistributionPool''"

definition CreditsDistributionPoolRepository_store ::
  "'db merk \<Rightarrow> (int \<Rightarrow> buffer) \<Rightarrow> credits_distribution_pool \<Rightarrow> 'db \<times> merk_tx option \<Rightarrow>
   drive_error + 'db \<times> merk_tx option" where
  "CreditsDistributionPoolRepository_store M enc pool s = MerkDbStore_put M POOL_KEY_NAME (enc (cp_amount pool)) s"

definition CreditsDistributionPoolRepository_fetch ::
  "'db merk \<Rightarrow> (buffer \<Rightarrow> drive_error + int) \<Rightarrow> 'db \<times> merk_tx option \<Rightarrow>
   drive_error + credits_distribution_pool" where
  "CreditsDistributionPoolRepository_fetch M dec s =
     rbind (MerkDbStore_get M (fst s) POOL_KEY_NAME (snd s)) (\<lambda>r.
       case r of
         None \<Rightarrow> Inr new_CreditsDistributionPool
       | Some b \<Rightarrow> rbind (dec b) (\<lambda>amount. Inr \<lparr>cp_amount = amount\<rparr>))"

lemma pool_store_fetch:
  assumes "merk_documented M" and "dec (enc (cp_amount pool)) = Inr (cp_amount pool)"
    and "CreditsDistributionPoolRepository_store M enc pool (db, Some (Some d)) = Inr s'"
  shows "CreditsDistributionPoolRepository_fetch M dec s' = Inr pool"
  using assms
  by (auto simp: CreditsDistributionPoolRepository_store_def CreditsDistributionPoolRepository_fetch_def
      MerkDbStore_put_def MerkDbStore_get_in_tx merk_view.lookup_insert_same)

end
