(* ===== verification/StateTransitions.thy ===== *)
theory StateTransitions
  imports BatchBasicValidation DocumentsBatch
begin

text \<open>
  State transitions as a whole (\<open>js-dpp/lib/stateTransition\<close>, \<open>lib/dataContract/stateTransition\<close>,
  \<open>lib/decodeProtocolEntityFactory.js\<close>): decoding and creation, dispatch of validation and
  application by type, signatures and fees; and the function of js-drive that admits one to the
  mempool and to a block, \<open>abci/handlers/stateTransition/unserializeStateTransitionFactory.js\<close>.

  A raw state transition is what decoding gives: the raw transitions of a batch, the typed form
  of the others, or an object without a known type.
\<close>

datatype raw_state_transition =
    RawDocumentsBatch st_base ident "raw_transition list"
  | RawTyped state_transition
  | RawUnknown "js option"

section \<open>Data contracts\<close>

definition validateDataContractCreateTransitionBasic ::
  "env \<Rightarrow> schemas \<Rightarrow> (data_contract \<Rightarrow> dpp_error + unit validation_result) \<Rightarrow> int \<Rightarrow> st_base \<Rightarrow>
   data_contract \<Rightarrow> buffer \<Rightarrow> dpp_error + unit validation_result" where
  "validateDataContractCreateTransitionBasic env sc validateDataContract dppVersion b c entropy =
     and_then (Inr (JsonSchemaValidator_validate
                 (sc_transition sc (DataContractCreateTransition b c entropy)) :: unit validation_result))
       (\<lambda>_. and_then (validateProtocolVersion dppVersion (stb_protocolVersion b))
       (\<lambda>_. and_then (validateDataContract c)
       (\<lambda>_. let generatedId = generateDataContractId env (dc_ownerId c) entropy in
            Inr (if generatedId \<noteq> dc_id c
                 then with_error (InvalidDataContractIdError generatedId (dc_id c)) :: unit validation_result
                 else new_ValidationResult))))"

definition validateDataContractCreateTransitionState ::
  "drive_state \<Rightarrow> data_contract \<Rightarrow> dpp_error + unit validation_result" where
  "validateDataContractCreateTransitionState s c =
     Inr (if fetchDataContract s (dc_id c) \<noteq> None
          then with_error (DataContractAlreadyPresentError (dc_id c)) else new_ValidationResult)"

definition applyDataContractCreateTransition :: "bool \<Rightarrow> data_contract \<Rightarrow> drive_state \<Rightarrow> dpp_error + drive_state" where
  "applyDataContractCreateTransition tx c s = Inr (storeDataContract tx c s)"

section \<open>Creation\<close>

definition raw_ident :: "raw_transition \<Rightarrow> string \<Rightarrow> dpp_error + ident" where
  "raw_ident t name =
     (case raw_get t name of
        JBuf b \<Rightarrow> if length b = 32 then Inr b else Inl (JsError ''Identifier must be 32 long'')
      | _ \<Rightarrow> Inl (JsError ''Identifier expects Buffer''))"

definition raw_time :: "raw_transition \<Rightarrow> string \<Rightarrow> int option" where
  "raw_time t name = (case raw_get t name of JNum n \<Rightarrow> Some n | _ \<Rightarrow> None)"

definition raw_action :: "raw_transition \<Rightarrow> dpp_error + action" where
  "raw_action t =
     (let a = raw_get t ''$action'' in
      if a = ACTION_CREATE then Inr CREATE
      else if a = ACTION_REPLACE then Inr REPLACE
      else if a = ACTION_DELETE then Inr DELETE
      else Inl JsTypeError)"

text \<open>The constructors of the three transition classes.\<close>

definition new_DocumentTransition :: "raw_transition \<Rightarrow> dpp_error + document_transition" where
  "new_DocumentTransition t =
     rbind (raw_action t) (\<lambda>action.
     rbind (raw_ident t ''$id'') (\<lambda>i.
     rbind (raw_ident t ''$dataContractId'') (\<lambda>cid.
       Inr \<lparr>tr_action = action, tr_id = i, tr_type = type_of t, tr_dataContractId = cid,
            tr_entropy = (case raw_get t ''$entropy'' of JBuf e \<Rightarrow> if action = CREATE then e else [] | _ \<Rightarrow> []),
            tr_createdAt = (if action = CREATE then raw_time t ''$createdAt'' else None),
            tr_updatedAt = (if action \<noteq> DELETE then raw_time t ''$updatedAt'' else None),
            tr_revision = (case raw_get t ''$revision'' of JNum n \<Rightarrow> if action = REPLACE then n else 0 | _ \<Rightarrow> 0),
            tr_data = (if action = DELETE then []
                       else filter (\<lambda>(name, _). \<not> starts_with name ''$'') t)\<rparr>)))"

definition createStateTransition :: "drive_state \<Rightarrow> raw_state_transition \<Rightarrow> dpp_error + state_transition" where
  "createStateTransition s raw =
     (case raw of
        RawUnknown type \<Rightarrow> Inl (ConsensusErrorThrown (InvalidStateTransitionTypeError
                                 (case type of None \<Rightarrow> JUndefined | Some v \<Rightarrow> v)))
      | RawTyped st \<Rightarrow> Inr st
      | RawDocumentsBatch b ownerId transitions \<Rightarrow>
          rbind (rmap (\<lambda>t.
              if \<not> has_own t ''$dataContractId'' then Inl (ConsensusErrorThrown MissingDataContractIdError)
              else rbind (raw_ident t ''$dataContractId'') (\<lambda>cid.
                case fetchDataContract s cid of
                  None \<Rightarrow> Inl (ConsensusErrorThrown (DataContractNotPresentError cid))
                | Some c \<Rightarrow> Inr c)) transitions) (\<lambda>_.
            rbind (rmap new_DocumentTransition transitions) (\<lambda>ts.
              Inr (DocumentsBatchTransition b ownerId ts))))"

section \<open>Basic validation\<close>

record validators =
  va_schemas :: schemas
  va_batchSchema :: "raw_state_transition \<Rightarrow> string list"
  va_documentSchema :: transition_schema
  va_dataContract :: "data_contract \<Rightarrow> dpp_error + unit validation_result"
  va_dppVersion :: int

definition validate_by_type_basic ::
  "env \<Rightarrow> validators \<Rightarrow> bool \<Rightarrow> drive_state \<Rightarrow> raw_state_transition \<Rightarrow> dpp_error + unit validation_result" where
  "validate_by_type_basic env va tx s raw =
     (case raw of
        RawDocumentsBatch b ownerId transitions \<Rightarrow>
          validateDocumentsBatchTransitionBasic env (va_batchSchema va raw) (va_documentSchema va)
            (va_dppVersion va) s b ownerId transitions
      | RawTyped (DataContractCreateTransition b c entropy) \<Rightarrow>
          validateDataContractCreateTransitionBasic env (va_schemas va) (va_dataContract va) (va_dppVersion va) b c entropy
      | RawTyped (IdentityCreateTransition b p ks) \<Rightarrow>
          validateIdentityCreateTransitionBasic env (va_schemas va) (va_dppVersion va) tx s b p ks
      | RawTyped (IdentityTopUpTransition b p i) \<Rightarrow>
          validateIdentityTopUpTransitionBasic env (va_schemas va) (va_dppVersion va) tx s b p i
      | RawTyped (DocumentsBatchTransition b ownerId ts) \<Rightarrow> Inl JsTypeError
      | RawUnknown None \<Rightarrow> Inr (with_error MissingStateTransitionTypeError)
      | RawUnknown (Some type) \<Rightarrow> Inr (with_error (InvalidStateTransitionTypeError type)))"

definition validateStateTransitionBasic ::
  "env \<Rightarrow> validators \<Rightarrow> bool \<Rightarrow> drive_state \<Rightarrow> raw_state_transition \<Rightarrow> dpp_error + unit validation_result" where
  "validateStateTransitionBasic env va tx s raw =
     and_then (validate_by_type_basic env va tx s raw) (\<lambda>_.
       rbind (createStateTransition s raw) (\<lambda>st.
         case StateTransition_toBuffer env st of
           Inr _ \<Rightarrow> Inr (new_ValidationResult :: unit validation_result)
         | Inl e \<Rightarrow> if e = MaxEncodedBytesReachedError
                    then Inr (with_error StateTransitionMaxSizeExceededError) else Inl e))"

text \<open>\<open>decodeProtocolEntity\<close> and \<open>StateTransitionFactory\<close>: \<open>decode\<close> is CBOR.\<close>

definition decodeProtocolEntity ::
  "(buffer \<Rightarrow> (int \<Rightarrow> raw_state_transition) option) \<Rightarrow> buffer \<Rightarrow> consensus_error + raw_state_transition" where
  "decodeProtocolEntity decode bytes =
     (if length bytes < 4 then Inl ProtocolVersionParsingError
      else case decode (drop 4 bytes) of
             None \<Rightarrow> Inl SerializedObjectParsingError
           | Some rawEntity \<Rightarrow>
               Inr (rawEntity (\<Sum>i \<leftarrow> [0, 1, 2, 3]. uint (bytes ! i) * 256 ^ i)))"

definition createFromObject ::
  "env \<Rightarrow> validators \<Rightarrow> bool \<Rightarrow> drive_state \<Rightarrow> bool \<Rightarrow> raw_state_transition \<Rightarrow> dpp_error + state_transition" where
  "createFromObject env va tx s skipValidation raw =
     rbind (if skipValidation then Inr () else
              rbind (validateStateTransitionBasic env va tx s raw) (\<lambda>result.
                if \<not> ValidationResult_isValid result
                then Inl (InvalidStateTransitionError (vr_errors result)) else Inr ()))
       (\<lambda>_. createStateTransition s raw)"

definition createFromBuffer ::
  "env \<Rightarrow> validators \<Rightarrow> (buffer \<Rightarrow> (int \<Rightarrow> raw_state_transition) option) \<Rightarrow> bool \<Rightarrow> drive_state \<Rightarrow>
   bool \<Rightarrow> buffer \<Rightarrow> dpp_error + state_transition" where
  "createFromBuffer env va decode tx s skipValidation bytes =
     (case decodeProtocolEntity decode bytes of
        Inl e \<Rightarrow> Inl (InvalidStateTransitionError [e])
      | Inr raw \<Rightarrow> createFromObject env va tx s skipValidation raw)"

section \<open>Signatures\<close>

definition verifySignature ::
  "env \<Rightarrow> state_transition \<Rightarrow> identity_public_key \<Rightarrow> dpp_error + bool" where
  "verifySignature env st publicKey =
     (case stb_signature (st_common st) of
        None \<Rightarrow> Inl StateTransitionIsNotSignedError
      | Some signature \<Rightarrow>
          if stb_signaturePublicKeyId (st_common st) \<noteq> Some (pk_id publicKey) then Inl PublicKeyMismatchError
          else rbind (StateTransition_toBuffer env (skipSignature st)) (\<lambda>data.
            Inr (e_verifySignature env data signature (pk_data publicKey))))"

definition validateStateTransitionIdentitySignature ::
  "env \<Rightarrow> bool \<Rightarrow> drive_state \<Rightarrow> ident \<Rightarrow> state_transition \<Rightarrow> dpp_error + unit validation_result" where
  "validateStateTransitionIdentitySignature env tx s ownerId st =
     (let result = validateIdentityExistence tx s ownerId in
      if \<not> ValidationResult_isValid result then
        Inr (ValidationResult_addError (vr_errors result) new_ValidationResult)
      else case vr_data result of
          Some (Some identity) \<Rightarrow>
            (case Identity_getPublicKeyById identity (stb_signaturePublicKeyId (st_common st)) of
               None \<Rightarrow> Inr (with_error (MissingPublicKeyError (stb_signaturePublicKeyId (st_common st))))
             | Some publicKey \<Rightarrow>
                 if pk_type publicKey \<noteq> ECDSA_SECP256K1 then
                   Inr (with_error (InvalidIdentityPublicKeyTypeError (pk_type publicKey)))
                 else rbind (verifySignature env st publicKey) (\<lambda>signatureIsValid.
                   Inr (if \<not> signatureIsValid then with_error InvalidStateTransitionSignatureError
                        else new_ValidationResult)))
        | _ \<Rightarrow> Inl JsTypeError)"

definition validateStateTransitionKeySignature ::
  "env \<Rightarrow> asset_lock_proof \<Rightarrow> state_transition \<Rightarrow> dpp_error + unit validation_result" where
  "validateStateTransitionKeySignature env p st =
     rbind (StateTransition_toBuffer env (skipSignature st)) (\<lambda>bytes.
     rbind (fetchAssetLockPublicKeyHash env p) (\<lambda>publicKeyHash.
       Inr (if \<not> e_verifyHashSignature env (e_hash env bytes) (stb_signature (st_common st)) publicKeyHash
            then with_error InvalidStateTransitionSignatureError else new_ValidationResult)))"

definition validateSignature ::
  "env \<Rightarrow> bool \<Rightarrow> drive_state \<Rightarrow> state_transition \<Rightarrow> dpp_error + unit validation_result" where
  "validateSignature env tx s st =
     (case st of
        DataContractCreateTransition _ c _ \<Rightarrow> validateStateTransitionIdentitySignature env tx s (dc_ownerId c) st
      | DocumentsBatchTransition _ ownerId _ \<Rightarrow> validateStateTransitionIdentitySignature env tx s ownerId st
      | IdentityCreateTransition _ p _ \<Rightarrow> validateStateTransitionKeySignature env p st
      | IdentityTopUpTransition _ p _ \<Rightarrow> validateStateTransitionKeySignature env p st)"

section \<open>Fees\<close>

definition identity_balance :: "bool \<Rightarrow> drive_state \<Rightarrow> ident \<Rightarrow> dpp_error + int" where
  "identity_balance tx s i =
     (case fetchIdentity tx s i of None \<Rightarrow> Inl JsTypeError | Some identity \<Rightarrow> Inr (id_balance identity))"

definition locked_credits :: "env \<Rightarrow> asset_lock_proof \<Rightarrow> dpp_error + int" where
  "locked_credits env p =
     rbind (fetchAssetLockTransactionOutput env p) (\<lambda>out.
     rbind (output_satoshis out) (\<lambda>satoshis. Inr (convertSatoshiToCredits satoshis)))"

definition available_balance :: "env \<Rightarrow> bool \<Rightarrow> drive_state \<Rightarrow> state_transition \<Rightarrow> dpp_error + int" where
  "available_balance env tx s st =
     (case st of
        IdentityCreateTransition _ p _ \<Rightarrow> locked_credits env p
      | IdentityTopUpTransition _ p i \<Rightarrow>
          rbind (locked_credits env p) (\<lambda>credits.
          rbind (identity_balance tx s i) (\<lambda>balance. Inr (credits + balance)))
      | DataContractCreateTransition _ c _ \<Rightarrow> identity_balance tx s (dc_ownerId c)
      | DocumentsBatchTransition _ ownerId _ \<Rightarrow> identity_balance tx s ownerId)"

definition validateStateTransitionFee ::
  "env \<Rightarrow> bool \<Rightarrow> drive_state \<Rightarrow> state_transition \<Rightarrow> dpp_error + unit validation_result" where
  "validateStateTransitionFee env tx s st =
     rbind (calculateStateTransitionFee env st) (\<lambda>feeSize.
     rbind (available_balance env tx s st) (\<lambda>balance.
       Inr (if balance < feeSize then with_error (BalanceIsNotEnoughError balance feeSize)
            else new_ValidationResult)))"

section \<open>State validation and application\<close>

definition validateStateTransitionState ::
  "env \<Rightarrow> trigger_config \<Rightarrow> fetch_documents \<Rightarrow> bool \<Rightarrow> drive_state \<Rightarrow> state_transition \<Rightarrow>
   dpp_error + unit validation_result" where
  "validateStateTransitionState env config F tx s st =
     (case st of
        DataContractCreateTransition _ c _ \<Rightarrow> validateDataContractCreateTransitionState s c
      | DocumentsBatchTransition _ ownerId ts \<Rightarrow> validateDocumentsBatchTransitionState env config F s ownerId ts
      | IdentityCreateTransition _ p ks \<Rightarrow> validateIdentityCreateTransitionState env tx s p ks
      | IdentityTopUpTransition _ _ _ \<Rightarrow> validateIdentityTopUpTransitionState)"

definition applyStateTransition ::
  "env \<Rightarrow> fetch_documents \<Rightarrow> bool \<Rightarrow> state_transition \<Rightarrow> drive_state \<Rightarrow> dpp_error + drive_state" where
  "applyStateTransition env F tx st s =
     (case st of
        DataContractCreateTransition _ c _ \<Rightarrow> applyDataContractCreateTransition tx c s
      | DocumentsBatchTransition b ownerId ts \<Rightarrow> applyDocumentsBatchTransition env F tx b ownerId ts s
      | IdentityCreateTransition b p ks \<Rightarrow> applyIdentityCreateTransition env tx b p ks s
      | IdentityTopUpTransition _ p i \<Rightarrow> applyIdentityTopUpTransition env tx p i s)"

text \<open>\<open>StateTransitionFacade.validate\<close> with its options; each stage runs only after valid ones.\<close>

definition StateTransition_validate ::
  "env \<Rightarrow> trigger_config \<Rightarrow> fetch_documents \<Rightarrow> validators \<Rightarrow> bool \<Rightarrow> drive_state \<Rightarrow>
   bool \<times> bool \<times> bool \<times> bool \<Rightarrow> raw_state_transition \<Rightarrow> dpp_error + unit validation_result" where
  "StateTransition_validate env config F va tx s opts raw =
     (let (basic, signature, fee, state) = opts; skip = Inr (new_ValidationResult :: unit validation_result) in
      rbind (createStateTransition s raw) (\<lambda>st.
        and_then (if basic then validateStateTransitionBasic env va tx s raw else skip)
          (\<lambda>_. and_then (if signature then validateSignature env tx s st else skip)
          (\<lambda>_. and_then (if fee then validateStateTransitionFee env tx s st else skip)
          (\<lambda>_. if state then validateStateTransitionState env config F tx s st else skip)))))"

section \<open>unserializeStateTransition\<close>

definition fail_invalid ::
  "string \<Rightarrow> dpp_error + unit validation_result \<Rightarrow> dpp_error + unit" where
  "fail_invalid message m =
     rbind m (\<lambda>result. case vr_errors result of
        [] \<Rightarrow> Inr ()
      | e # _ \<Rightarrow> Inl (DPPValidationAbciError message e))"

definition unserializeStateTransition ::
  "env \<Rightarrow> validators \<Rightarrow> (buffer \<Rightarrow> (int \<Rightarrow> raw_state_transition) option) \<Rightarrow> bool \<Rightarrow> drive_state \<Rightarrow>
   buffer option \<Rightarrow> dpp_error + state_transition" where
  "unserializeStateTransition env va decode tx s stateTransitionByteArray =
     (case stateTransitionByteArray of
        None \<Rightarrow> Inl (InvalidArgumentAbciError ''State Transition is not specified'')
      | Some bytes \<Rightarrow>
          rbind (case createFromBuffer env va decode tx s False bytes of
                   Inl (InvalidStateTransitionError (e # _)) \<Rightarrow>
                     Inl (DPPValidationAbciError ''Invalid state transition'' e)
                 | r \<Rightarrow> r) (\<lambda>st.
          rbind (fail_invalid ''Invalid state transition signature'' (validateSignature env tx s st)) (\<lambda>_.
          rbind (fail_invalid ''Insufficient funds to process state transition''
                   (validateStateTransitionFee env tx s st)) (\<lambda>_. Inr st))))"

lemma fail_invalid_ok: "fail_invalid m r = Inr () \<longleftrightarrow> run_valid r"
  by (cases r) (auto simp: fail_invalid_def vr_simps split: list.splits)

lemma unserialize_ok:
  assumes "unserializeStateTransition env va decode tx s bytes = Inr st"
  shows "\<exists>raw. createStateTransition s raw = Inr st \<and>
    run_valid (validateStateTransitionBasic env va tx s raw) \<and>
    run_valid (validateSignature env tx s st) \<and> run_valid (validateStateTransitionFee env tx s st)"
proof -
  from assms obtain bs where bs: "createFromBuffer env va decode tx s False bs = Inr st"
    and "run_valid (validateSignature env tx s st)" "run_valid (validateStateTransitionFee env tx s st)"
    unfolding unserializeStateTransition_def
    by (auto simp: rbind_eq_Inr_iff fail_invalid_ok
        split: option.splits sum.splits dpp_error.splits list.splits)
  moreover from bs obtain raw where "createStateTransition s raw = Inr st"
    "run_valid (validateStateTransitionBasic env va tx s raw)"
    by (auto simp: createFromBuffer_def createFromObject_def run_valid_iff rbind_eq_Inr_iff
        split: sum.splits if_splits)
  ultimately show ?thesis by blast
qed

section \<open>Effects of an applied transition\<close>

lemma fetchIdentity_storeDocument [repo_simps]:
  "fetchIdentity tx (s\<lparr>ds_documents := d\<rparr>) k = fetchIdentity tx s k"
  by (simp add: fetchIdentity_def)

text \<open>What a batch or a new contract leaves alone.\<close>

definition same_ledger :: "bool \<Rightarrow> drive_state \<Rightarrow> drive_state \<Rightarrow> bool" where
  "same_ledger tx s s' \<longleftrightarrow> ds_identities s' = ds_identities s \<and>
     ds_publicKeyIds s' = ds_publicKeyIds s \<and> ds_spentOutPoints s' = ds_spentOutPoints s \<and>
     ds_header s' = ds_header s"

lemma same_ledger_fetch:
  "same_ledger tx s s' \<Longrightarrow> fetchIdentity tx' s' k = fetchIdentity tx' s k \<and>
   total_credits tx' s' = total_credits tx' s \<and>
   isAssetLockTransactionOutPointAlreadyUsed tx' s' q = isAssetLockTransactionOutPointAlreadyUsed tx' s q"
  by (simp add: same_ledger_def fetchIdentity_def total_credits_def
      isAssetLockTransactionOutPointAlreadyUsed_def)

lemma apply_document_same_ledger:
  "apply_document_transition tx v ownerId fetched s t = Inr s' \<Longrightarrow> same_ledger tx s s'"
  by (auto simp: apply_document_transition_def same_ledger_def storeDocument_def removeDocument_def
      split: action.splits option.splits)

lemma apply_batch_same_ledger:
  assumes "applyDocumentsBatchTransition env F tx b ownerId ts s = Inr s'"
  shows "same_ledger tx s s'"
proof -
  from assms obtain fetched where
    "rfold (apply_document_transition tx (stb_protocolVersion b) ownerId fetched) s ts = Inr s'"
    by (auto simp: applyDocumentsBatchTransition_def Let_def rbind_eq_Inr_iff)
  then show ?thesis
    by (rule rfold_invariant) (auto simp: same_ledger_def dest!: apply_document_same_ledger)
qed

lemma apply_contract_same_ledger:
  "applyDataContractCreateTransition tx c s = Inr s' \<Longrightarrow> same_ledger tx s s'"
  by (auto simp: applyDataContractCreateTransition_def same_ledger_def storeDataContract_def)

text \<open>The credits a transition mints, by the output its proof locks.\<close>

definition minted :: "env \<Rightarrow> state_transition \<Rightarrow> int" where
  "minted env st =
     (case (case st of
              IdentityCreateTransition _ p _ \<Rightarrow> locked_credits env p
            | IdentityTopUpTransition _ p _ \<Rightarrow> locked_credits env p
            | _ \<Rightarrow> Inr 0) of Inl _ \<Rightarrow> 0 | Inr n \<Rightarrow> n)"

definition spends :: "env \<Rightarrow> state_transition \<Rightarrow> buffer option" where
  "spends env st =
     (case (case st of
              IdentityCreateTransition _ p _ \<Rightarrow> AssetLockProof_getOutPoint env p
            | IdentityTopUpTransition _ p _ \<Rightarrow> AssetLockProof_getOutPoint env p
            | _ \<Rightarrow> Inl JsTypeError) of Inl _ \<Rightarrow> None | Inr q \<Rightarrow> Some q)"

lemma locked_credits_of_output:
  "fetchAssetLockTransactionOutput env p = Inr (Some out) \<Longrightarrow>
   locked_credits env p = Inr (1000 * out_satoshis out)"
  by (simp add: locked_credits_def output_satoshis_def convertSatoshiToCredits_def credits_RATIO_def)

lemma fee_valid:
  "run_valid (validateStateTransitionFee env tx s st) \<Longrightarrow>
   \<exists>fee balance. calculateStateTransitionFee env st = Inr fee \<and>
     available_balance env tx s st = Inr balance \<and> fee \<le> balance"
  by (cases "calculateStateTransitionFee env st"; cases "available_balance env tx s st")
     (auto simp: validateStateTransitionFee_def split: if_splits)

lemma apply_effect:
  assumes "applyStateTransition env F tx st s = Inr s'"
    and "run_valid (validateStateTransitionState env config F tx s st)"
    and "identities_keyed tx s"
  shows "total_credits tx s' = total_credits tx s + minted env st \<and>
    (\<forall>q. isAssetLockTransactionOutPointAlreadyUsed tx s' q \<longleftrightarrow>
       spends env st = Some q \<or> isAssetLockTransactionOutPointAlreadyUsed tx s q) \<and>
    ds_header s' = ds_header s \<and> identities_keyed tx s'"
proof (cases st)
  case (DataContractCreateTransition b c e)
  with assms(1) have "same_ledger tx s s'"
    by (auto simp: applyStateTransition_def dest: apply_contract_same_ledger)
  with assms(3) show ?thesis
    using same_ledger_fetch [of tx s s' tx]
    by (simp add: DataContractCreateTransition minted_def spends_def identities_keyed_def same_ledger_def)
next
  case (DocumentsBatchTransition b i ts)
  with assms(1) have "same_ledger tx s s'"
    by (auto simp: applyStateTransition_def dest: apply_batch_same_ledger)
  with assms(3) show ?thesis
    using same_ledger_fetch [of tx s s' tx]
    by (simp add: DocumentsBatchTransition minted_def spends_def identities_keyed_def same_ledger_def)
next
  case (IdentityCreateTransition b p ks)
  with assms(1) have ap: "applyIdentityCreateTransition env tx b p ks s = Inr s'"
    by (simp add: applyStateTransition_def)
  from assms(2) have valid: "run_valid (validateIdentityCreateTransitionState env tx s p ks)"
    by (simp add: IdentityCreateTransition validateStateTransitionState_def)
  from apply_create_Inr [OF ap] create_state_valid [OF valid] assms(3) show ?thesis
    by (auto simp: IdentityCreateTransition minted_def spends_def locked_credits_of_output repo_simps
        convertSatoshiToCredits_def credits_RATIO_def identities_keyed_def split: if_splits)
next
  case (IdentityTopUpTransition b p i)
  with assms(1) have ap: "applyIdentityTopUpTransition env tx p i s = Inr s'"
    by (simp add: applyStateTransition_def)
  from apply_topup_Inr [OF ap] assms(3) show ?thesis
    by (auto simp: IdentityTopUpTransition minted_def spends_def locked_credits_of_output repo_simps
        convertSatoshiToCredits_def credits_RATIO_def identities_keyed_def Identity_increaseBalance_def
        split: if_splits)
qed

text \<open>After a transition whose fee was covered is applied, its owner can pay the fee.\<close>

lemma apply_owner_can_pay:
  assumes "applyStateTransition env F tx st s = Inr s'"
    and "run_valid (validateStateTransitionFee env tx s st)" and "identities_keyed tx s"
    and "StateTransition_getOwnerId env st = Inr owner"
  shows "\<exists>fee identity. calculateStateTransitionFee env st = Inr fee \<and>
    fetchIdentity tx s' owner = Some identity \<and> fee \<le> id_balance identity \<and> id_id identity = owner"
proof -
  from fee_valid [OF assms(2)] obtain fee balance where fee: "calculateStateTransitionFee env st = Inr fee"
    and bal: "available_balance env tx s st = Inr balance" and le: "fee \<le> balance" by blast
  show ?thesis
  proof (cases st)
    case (DataContractCreateTransition b c e)
    with assms(1) have "same_ledger tx s s'"
      by (auto simp: applyStateTransition_def dest: apply_contract_same_ledger)
    then have "fetchIdentity tx s' owner = fetchIdentity tx s owner"
      using same_ledger_fetch [of tx s s' tx owner] by blast
    with fee bal le assms(3,4) show ?thesis
      by (auto simp: DataContractCreateTransition available_balance_def identity_balance_def
          StateTransition_getOwnerId_def identities_keyed_def split: option.splits)
  next
    case (DocumentsBatchTransition b i ts)
    with assms(1) have "same_ledger tx s s'"
      by (auto simp: applyStateTransition_def dest: apply_batch_same_ledger)
    then have "fetchIdentity tx s' owner = fetchIdentity tx s owner"
      using same_ledger_fetch [of tx s s' tx owner] by blast
    with fee bal le assms(3,4) show ?thesis
      by (auto simp: DocumentsBatchTransition available_balance_def identity_balance_def
          StateTransition_getOwnerId_def identities_keyed_def split: option.splits)
  next
    case (IdentityCreateTransition b p ks)
    with assms(1) have ap: "applyIdentityCreateTransition env tx b p ks s = Inr s'"
      by (simp add: applyStateTransition_def)
    from apply_create_Inr [OF ap] fee bal le assms(4) show ?thesis
      by (auto simp: IdentityCreateTransition available_balance_def locked_credits_of_output repo_simps
          StateTransition_getOwnerId_def AssetLockProof_createIdentifier_def
          convertSatoshiToCredits_def credits_RATIO_def)
  next
    case (IdentityTopUpTransition b p i)
    with assms(1) have ap: "applyIdentityTopUpTransition env tx p i s = Inr s'"
      by (simp add: applyStateTransition_def)
    from apply_topup_Inr [OF ap] fee bal le assms(3,4) show ?thesis
      by (auto simp: IdentityTopUpTransition available_balance_def locked_credits_of_output repo_simps
          identity_balance_def StateTransition_getOwnerId_def convertSatoshiToCredits_def
          credits_RATIO_def identities_keyed_def Identity_increaseBalance_def)
  qed
qed

definition output_amounts_nonneg :: "env \<Rightarrow> bool" where
  "output_amounts_nonneg env \<longleftrightarrow>
     (\<forall>raw t. e_parseTransaction env raw = Inr t \<longrightarrow> (\<forall>out \<in> set (ct_outputs t). out_satoshis out \<ge> 0))"

lemma fetched_output_parsed:
  assumes "fetchAssetLockTransactionOutput env p = Inr (Some out)"
  shows "\<exists>raw t. e_parseTransaction env raw = Inr t \<and> out \<in> set (ct_outputs t)"
proof -
  have mem: "out \<in> set (ct_outputs t)" if "nth_output t i = Some out" for t i
    using that by (auto simp: nth_output_def split: if_splits)
  have parsed: "e_parseTransaction env raw = Inr t" if "parse_or_throw env raw = Inr t" for raw t
    using that by (auto simp: parse_or_throw_def split: sum.splits)
  show ?thesis
  proof (cases p)
    case (InstantAssetLockProof lock raw i)
    with assms mem parsed show ?thesis
      by (fastforce simp: fetchAssetLockTransactionOutput_def rbind_eq_Inr_iff)
  next
    case (ChainAssetLockProof h op)
    with assms obtain data i t where "parse_or_throw env data = Inr t" "nth_output t i = Some out"
      by (auto simp: fetchAssetLockTransactionOutput_def Let_def rbind_eq_Inr_iff
          split: prod.splits option.splits)
    with mem parsed show ?thesis by blast
  qed
qed

lemma fetched_output_nonneg:
  "output_amounts_nonneg env \<Longrightarrow> fetchAssetLockTransactionOutput env p = Inr (Some out) \<Longrightarrow>
   out_satoshis out \<ge> 0"
  using fetched_output_parsed unfolding output_amounts_nonneg_def by blast

lemma apply_keeps_nonneg:
  assumes "applyStateTransition env F tx st s = Inr s'" and "balances_nonneg tx s"
    and "output_amounts_nonneg env"
  shows "balances_nonneg tx s'"
proof (cases st)
  case (DataContractCreateTransition b c e)
  with assms(1) have "same_ledger tx s s'"
    by (auto simp: applyStateTransition_def dest: apply_contract_same_ledger)
  with assms(2) show ?thesis
    using same_ledger_fetch [of tx s s' tx] by (simp add: balances_nonneg_def)
next
  case (DocumentsBatchTransition b i ts)
  with assms(1) have "same_ledger tx s s'"
    by (auto simp: applyStateTransition_def dest: apply_batch_same_ledger)
  with assms(2) show ?thesis
    using same_ledger_fetch [of tx s s' tx] by (simp add: balances_nonneg_def)
next
  case (IdentityCreateTransition b p ks)
  with assms(1) have ap: "applyIdentityCreateTransition env tx b p ks s = Inr s'"
    by (simp add: applyStateTransition_def)
  from apply_create_Inr [OF ap] assms(2) fetched_output_nonneg [OF assms(3)] show ?thesis
    by (auto simp: balances_nonneg_def repo_simps convertSatoshiToCredits_def credits_RATIO_def
        split: if_splits)
next
  case (IdentityTopUpTransition b p i)
  with assms(1) have ap: "applyIdentityTopUpTransition env tx p i s = Inr s'"
    by (simp add: applyStateTransition_def)
  from apply_topup_Inr [OF ap] obtain out outPoint identity where
    "fetchAssetLockTransactionOutput env p = Inr (Some out)" "fetchIdentity tx s i = Some identity"
    and s': "s' = markAssetLockTransactionOutPointAsUsed tx outPoint
        (storeIdentity tx (Identity_increaseBalance (convertSatoshiToCredits (out_satoshis out)) identity) s)"
    by blast
  with fetched_output_nonneg [OF assms(3)] assms(2)
  have "id_balance identity \<ge> 0" "out_satoshis out \<ge> 0" by (auto simp: balances_nonneg_def)
  with assms(2) show ?thesis
    by (auto simp: s' balances_nonneg_def repo_simps convertSatoshiToCredits_def credits_RATIO_def
        Identity_increaseBalance_def split: if_splits)
qed

end
