(* ===== verification/DeliverTx.thy ===== *)
theory DeliverTx
  imports StateTransitions BlockContext
begin

text \<open>
  Executing the transactions of a block: \<open>js-drive/lib/abci/handlers/deliverTxHandlerFactory.js\<close>,
  \<open>checkTxHandlerFactory.js\<close> and the wrapper \<open>abci/errors/wrapInErrorHandlerFactory.js\<close> that
  turns exceptions into responses or lets them stop Drive. Everything runs on the transactional
  view of the state. What a run that stops Drive leaves behind is not modelled.
\<close>

section \<open>wrapInErrorHandler\<close>

text \<open>The codes of \<open>js-dpp/lib/errors/consensus/codes.js\<close>.\<close>

fun consensus_code :: "consensus_error \<Rightarrow> nat" where
  "consensus_code ProtocolVersionParsingError = 1000"
| "consensus_code SerializedObjectParsingError = 1001"
| "consensus_code (UnsupportedProtocolVersionError _ _) = 1002"
| "consensus_code (IncompatibleProtocolVersionError _ _) = 1003"
| "consensus_code (JsonSchemaCompilationError _) = 1004"
| "consensus_code (JsonSchemaError _) = 1005"
| "consensus_code (InvalidIdentifierError _) = 1006"
| "consensus_code DataContractMaxDepthExceedError = 1007"
| "consensus_code (DuplicateIndexError _ _) = 1008"
| "consensus_code (IncompatibleRe2PatternError _ _ _) = 1009"
| "consensus_code (InvalidCompoundIndexError _ _) = 1010"
| "consensus_code (InvalidDataContractIdError _ _) = 1011"
| "consensus_code (InvalidIndexedPropertyConstraintError _ _ _ _ _) = 1012"
| "consensus_code (InvalidIndexPropertyTypeError _ _ _ _) = 1013"
| "consensus_code (InvalidJsonSchemaRefError _) = 1014"
| "consensus_code (SystemPropertyIndexAlreadyPresentError _ _ _) = 1015"
| "consensus_code (UndefinedIndexPropertyError _ _ _) = 1016"
| "consensus_code (UniqueIndicesLimitReachedError _) = 1017"
| "consensus_code (DataContractNotPresentError _) = 1018"
| "consensus_code (DuplicateDocumentTransitionsWithIdsError _) = 1019"
| "consensus_code (DuplicateDocumentTransitionsWithIndicesError _) = 1020"
| "consensus_code (InconsistentCompoundIndexDataError _ _) = 1021"
| "consensus_code (InvalidDocumentTransitionActionError _) = 1022"
| "consensus_code (InvalidDocumentTransitionIdError _ _) = 1023"
| "consensus_code (InvalidDocumentTypeError _ _) = 1024"
| "consensus_code MissingDataContractIdError = 1025"
| "consensus_code MissingDocumentTransitionActionError = 1026"
| "consensus_code MissingDocumentTransitionTypeError = 1027"
| "consensus_code MissingDocumentTypeError = 1028"
| "consensus_code (DuplicatedIdentityPublicKeyError _) = 1029"
| "consensus_code (DuplicatedIdentityPublicKeyIdError _) = 1030"
| "consensus_code (IdentityAssetLockProofLockedTransactionMismatchError _ _) = 1031"
| "consensus_code (IdentityAssetLockTransactionIsNotFoundError _) = 1032"
| "consensus_code (IdentityAssetLockTransactionOutPointAlreadyExistsError _ _) = 1033"
| "consensus_code (IdentityAssetLockTransactionOutputNotFoundError _) = 1034"
| "consensus_code (InvalidAssetLockProofCoreChainHeightError _ _) = 1035"
| "consensus_code (InvalidAssetLockProofTransactionHeightError _ _) = 1036"
| "consensus_code (InvalidAssetLockTransactionOutputReturnSize _) = 1037"
| "consensus_code (InvalidIdentityAssetLockTransactionError _) = 1038"
| "consensus_code (InvalidIdentityAssetLockTransactionOutputError _) = 1039"
| "consensus_code (InvalidIdentityPublicKeyDataError _ _) = 1040"
| "consensus_code (InvalidInstantAssetLockProofError _) = 1041"
| "consensus_code InvalidIdentityAssetLockProofSignatureError = 1042"
| "consensus_code (InvalidStateTransitionTypeError _) = 1043"
| "consensus_code MissingStateTransitionTypeError = 1044"
| "consensus_code StateTransitionMaxSizeExceededError = 1045"
| "consensus_code (IdentityNotFoundError _) = 2000"
| "consensus_code (InvalidIdentityPublicKeyTypeError _) = 2001"
| "consensus_code InvalidStateTransitionSignatureError = 2002"
| "consensus_code (MissingPublicKeyError _) = 2003"
| "consensus_code (BalanceIsNotEnoughError _ _) = 3000"
| "consensus_code (DataContractAlreadyPresentError _) = 4000"
| "consensus_code (DataTriggerConditionError _ _ _) = 4001"
| "consensus_code (DataTriggerExecutionError _ _ _) = 4002"
| "consensus_code (DocumentAlreadyPresentError _) = 4004"
| "consensus_code (DocumentNotFoundError _) = 4005"
| "consensus_code (DocumentOwnerIdMismatchError _ _ _) = 4006"
| "consensus_code (DocumentTimestampsMismatchError _) = 4007"
| "consensus_code (DocumentTimestampWindowViolationError _ _) = 4008"
| "consensus_code (DuplicateUniqueIndexError _ _) = 4009"
| "consensus_code (InvalidDocumentRevisionError _ _) = 4010"
| "consensus_code (IdentityAlreadyExistsError _) = 4011"
| "consensus_code (IdentityPublicKeyAlreadyExistsError _) = 4012"

datatype 'a abci_result =
    Response 'a
  | ErrorResponse nat
  | Halt dpp_error

definition abci_code :: "dpp_error \<Rightarrow> nat option" where
  "abci_code e =
     (case e of
        InvalidArgumentAbciError _ \<Rightarrow> Some 3
      | NotFoundAbciError _ \<Rightarrow> Some 5
      | UnavailableAbciError \<Rightarrow> Some 14
      | DPPValidationAbciError _ ce \<Rightarrow> Some (consensus_code ce)
      | _ \<Rightarrow> None)"

definition INTERNAL_code :: nat where "INTERNAL_code = 13"

definition wrapInErrorHandler :: "bool \<Rightarrow> dpp_error + 'a \<Rightarrow> 'a abci_result" where
  "wrapInErrorHandler respondWithInternalError outcome =
     (case outcome of
        Inr r \<Rightarrow> Response r
      | Inl e \<Rightarrow>
          (case abci_code e of
             Some code \<Rightarrow> ErrorResponse code
           | None \<Rightarrow> if \<not> respondWithInternalError then Halt e else ErrorResponse INTERNAL_code))"

section \<open>checkTx and deliverTx\<close>

record platform =
  pf_env :: env
  pf_validators :: validators
  pf_decode :: "buffer \<Rightarrow> (int \<Rightarrow> raw_state_transition) option"
  pf_triggers :: trigger_config
  pf_fetchDocuments :: fetch_documents

definition checkTxHandler :: "platform \<Rightarrow> drive_state \<Rightarrow> buffer option \<Rightarrow> dpp_error + unit" where
  "checkTxHandler pf s bytes =
     rbind (unserializeStateTransition (pf_env pf) (pf_validators pf) (pf_decode pf) False s bytes)
       (\<lambda>_. Inr ())"

text \<open>What follows a valid transition: it is applied, then its owner pays the fee.\<close>

definition apply_and_charge ::
  "platform \<Rightarrow> state_transition \<Rightarrow> drive_state \<Rightarrow> block_execution_context \<Rightarrow>
   dpp_error + drive_state \<times> block_execution_context" where
  "apply_and_charge pf st s ctx =
     rbind (applyStateTransition (pf_env pf) (pf_fetchDocuments pf) True st s) (\<lambda>s.
       let ctx = incrementValidTxCount ctx in
     rbind (calculateStateTransitionFee (pf_env pf) st) (\<lambda>stateTransitionFee.
     rbind (StateTransition_getOwnerId (pf_env pf) st) (\<lambda>ownerId.
       case fetchIdentity True s ownerId of
         None \<Rightarrow> Inl JsTypeError
       | Some identity \<Rightarrow>
           (let s = storeIdentity True (Identity_reduceBalance stateTransitionFee identity) s;
                ctx = incrementCumulativeFees stateTransitionFee ctx;
                ctx = (case st of DataContractCreateTransition _ c _ \<Rightarrow> addDataContract c ctx | _ \<Rightarrow> ctx)
            in Inr (s, ctx)))))"

definition deliverTxHandler ::
  "platform \<Rightarrow> drive_state \<times> block_execution_context \<Rightarrow> buffer option \<Rightarrow>
   (dpp_error + unit) \<times> drive_state \<times> block_execution_context" where
  "deliverTxHandler pf st0 bytes =
     (let (s, ctx) = st0 in
      if bc_header ctx = None then (Inl JsTypeError, s, ctx)
      else
        (let ctx = setConsensusLogger ''deliverTx'' ctx; s = s\<lparr>ds_header := bc_header ctx\<rparr> in
         case unserializeStateTransition (pf_env pf) (pf_validators pf) (pf_decode pf) True s bytes of
           Inl e \<Rightarrow> (Inl e, s, incrementInvalidTxCount ctx)
         | Inr st \<Rightarrow>
             (case validateStateTransitionState (pf_env pf) (pf_triggers pf) (pf_fetchDocuments pf) True s st of
                Inl e \<Rightarrow> (Inl e, s, ctx)
              | Inr result \<Rightarrow>
                  (case ValidationResult_getFirstError result of
                     Some e \<Rightarrow>
                       (Inl (DPPValidationAbciError ''State transition is invalid against the state'' e), s,
                        incrementInvalidTxCount ctx)
                   | None \<Rightarrow>
                       (case apply_and_charge pf st s ctx of
                          Inl e \<Rightarrow> (Inl e, s, ctx)
                        | Inr (s', ctx') \<Rightarrow> (Inr (), s', ctx'))))))"

definition deliverTx ::
  "platform \<Rightarrow> drive_state \<times> block_execution_context \<Rightarrow> buffer option \<Rightarrow>
   unit abci_result \<times> drive_state \<times> block_execution_context" where
  "deliverTx pf st0 bytes =
     (let (outcome, s, ctx) = deliverTxHandler pf st0 bytes in (wrapInErrorHandler False outcome, s, ctx))"

section \<open>One transaction\<close>

lemma deliverTx_accepted:
  assumes "deliverTxHandler pf (s, ctx) bytes = (Inr (), s', ctx')"
  shows "\<exists>st. unserializeStateTransition (pf_env pf) (pf_validators pf) (pf_decode pf) True
        (s\<lparr>ds_header := bc_header ctx\<rparr>) bytes = Inr st \<and>
     run_valid (validateStateTransitionState (pf_env pf) (pf_triggers pf) (pf_fetchDocuments pf) True
        (s\<lparr>ds_header := bc_header ctx\<rparr>) st) \<and>
     apply_and_charge pf st (s\<lparr>ds_header := bc_header ctx\<rparr>) (setConsensusLogger ''deliverTx'' ctx) = Inr (s', ctx')"
  using assms
  by (auto simp: deliverTxHandler_def Let_def setConsensusLogger_def run_valid_iff
      ValidationResult_getFirstError_def ValidationResult_isValid_def
      split: if_split_asm sum.split_asm list.split_asm option.split_asm prod.split_asm)

lemma deliverTx_rejected:
  assumes "deliverTxHandler pf (s, ctx) bytes = (Inl e, s', ctx')"
  shows "s' = s \<or> s' = s\<lparr>ds_header := bc_header ctx\<rparr>"
    and "bc_cumulativeFees ctx' = bc_cumulativeFees ctx" and "bc_dataContracts ctx' = bc_dataContracts ctx"
  using assms
  by (auto simp: deliverTxHandler_def Let_def setConsensusLogger_def incrementInvalidTxCount_def
      split: if_split_asm sum.split_asm option.split_asm prod.split_asm)

lemma ledger_of_header [simp]:
  "fetchIdentity tx (s\<lparr>ds_header := h\<rparr>) = fetchIdentity tx s"
  "total_credits tx (s\<lparr>ds_header := h\<rparr>) = total_credits tx s"
  "isAssetLockTransactionOutPointAlreadyUsed tx (s\<lparr>ds_header := h\<rparr>) =
     isAssetLockTransactionOutPointAlreadyUsed tx s"
  "identities_keyed tx (s\<lparr>ds_header := h\<rparr>) = identities_keyed tx s"
  "balances_nonneg tx (s\<lparr>ds_header := h\<rparr>) = balances_nonneg tx s"
  by (simp_all add: fun_eq_iff fetchIdentity_def total_credits_def identities_keyed_def
      balances_nonneg_def isAssetLockTransactionOutPointAlreadyUsed_def)

text \<open>What holds of the state between transactions.\<close>

definition ledger_ok :: "drive_state \<Rightarrow> bool" where
  "ledger_ok s \<longleftrightarrow> balances_nonneg True s \<and> identities_keyed True s"

lemma ledger_ok_header [simp]: "ledger_ok (s\<lparr>ds_header := h\<rparr>) = ledger_ok s"
  by (simp add: ledger_ok_def)

lemma ctx_simps [simp]:
  "bc_cumulativeFees (incrementValidTxCount x) = bc_cumulativeFees x"
  "bc_cumulativeFees (setConsensusLogger l x) = bc_cumulativeFees x"
  "bc_cumulativeFees (incrementCumulativeFees n x) = bc_cumulativeFees x + n"
  "bc_cumulativeFees (addDataContract c x) = bc_cumulativeFees x"
  "bc_validTxs (incrementValidTxCount x) = bc_validTxs x + 1"
  "bc_validTxs (setConsensusLogger l x) = bc_validTxs x"
  "bc_validTxs (incrementCumulativeFees n x) = bc_validTxs x"
  "bc_validTxs (addDataContract c x) = bc_validTxs x"
  by (simp_all add: incrementValidTxCount_def setConsensusLogger_def incrementCumulativeFees_def
      addDataContract_def)

lemma accepted_transaction:
  assumes "ledger_ok s" and "output_amounts_nonneg (pf_env pf)"
    and "deliverTxHandler pf (s, ctx) bytes = (Inr (), s', ctx')"
  shows "\<exists>st fee owner i i'.
    unserializeStateTransition (pf_env pf) (pf_validators pf) (pf_decode pf) True
      (s\<lparr>ds_header := bc_header ctx\<rparr>) bytes = Inr st \<and>
    calculateStateTransitionFee (pf_env pf) st = Inr fee \<and> fee > 0 \<and>
    total_credits True s' = total_credits True s + minted (pf_env pf) st - fee \<and>
    bc_cumulativeFees ctx' = bc_cumulativeFees ctx + fee \<and>
    bc_validTxs ctx' = bc_validTxs ctx + 1 \<and> ledger_ok s' \<and>
    (\<forall>q. isAssetLockTransactionOutPointAlreadyUsed True s' q \<longleftrightarrow>
       spends (pf_env pf) st = Some q \<or> isAssetLockTransactionOutPointAlreadyUsed True s q)"
proof -
  let ?s = "s\<lparr>ds_header := bc_header ctx\<rparr>" and ?env = "pf_env pf"
  from deliverTx_accepted [OF assms(3)] obtain st where
    un: "unserializeStateTransition ?env (pf_validators pf) (pf_decode pf) True ?s bytes = Inr st"
    and valid: "run_valid (validateStateTransitionState ?env (pf_triggers pf) (pf_fetchDocuments pf) True ?s st)"
    and ap: "apply_and_charge pf st ?s (setConsensusLogger ''deliverTx'' ctx) = Inr (s', ctx')"
    by blast
  from unserialize_ok [OF un] have feeOk: "run_valid (validateStateTransitionFee ?env True ?s st)"
    by blast
  from ap obtain u fee owner identity where
    u: "applyStateTransition ?env (pf_fetchDocuments pf) True st ?s = Inr u"
    and fee: "calculateStateTransitionFee ?env st = Inr fee"
    and owner: "StateTransition_getOwnerId ?env st = Inr owner"
    and ident: "fetchIdentity True u owner = Some identity"
    and s': "s' = storeIdentity True (Identity_reduceBalance fee identity) u"
    and cum: "bc_cumulativeFees ctx' = bc_cumulativeFees ctx + fee"
    and cnt: "bc_validTxs ctx' = bc_validTxs ctx + 1"
    by (auto simp: apply_and_charge_def Let_def rbind_eq_Inr_iff split: option.split_asm state_transition.split_asm)
  have keyed: "identities_keyed True ?s" and nonneg: "balances_nonneg True ?s"
    using assms(1) by (auto simp: ledger_ok_def)
  from apply_owner_can_pay [OF u feeOk keyed owner] fee ident
  have pay: "fee \<le> id_balance identity" "id_id identity = owner" by auto
  note eff = apply_effect [OF u valid keyed]
  have nonneg': "balances_nonneg True u" by (rule apply_keeps_nonneg [OF u nonneg assms(2)])
  have "ledger_ok s'"
    using eff nonneg' pay
    by (auto simp: s' ledger_ok_def balances_nonneg_def identities_keyed_def repo_simps
        Identity_reduceBalance_def split: if_splits)
  moreover have "total_credits True s' = total_credits True s + minted ?env st - fee"
    using eff ident pay by (simp add: s' repo_simps Identity_reduceBalance_def)
  moreover have "isAssetLockTransactionOutPointAlreadyUsed True s' q \<longleftrightarrow>
       spends ?env st = Some q \<or> isAssetLockTransactionOutPointAlreadyUsed True s q" for q
    using eff by (simp add: s' repo_simps)
  ultimately show ?thesis
    using un fee fee_nonneg [OF fee] cum cnt by auto
qed

section \<open>The transactions of a block\<close>

text \<open>
  Tendermint delivers the transactions of a block in order; \<open>None\<close> is a run that stopped
  Drive.
\<close>

fun deliver_all ::
  "platform \<Rightarrow> drive_state \<times> block_execution_context \<Rightarrow> buffer option list \<Rightarrow>
   ((drive_state \<times> block_execution_context) \<times> unit abci_result list) option" where
  "deliver_all pf st [] = Some (st, [])"
| "deliver_all pf st (b # bs) =
     (case deliverTx pf st b of
        (Halt e, _) \<Rightarrow> None
      | (r, st') \<Rightarrow> map_option (\<lambda>(st'', rs). (st'', r # rs)) (deliver_all pf st' bs))"

text \<open>The credits that the accepted transactions mint.\<close>

definition minted_by :: "platform \<Rightarrow> drive_state \<times> block_execution_context \<Rightarrow> buffer option \<Rightarrow> int" where
  "minted_by pf st b =
     (case deliverTxHandler pf st b of
        (Inl _, _) \<Rightarrow> 0
      | (Inr _, _) \<Rightarrow>
          (case unserializeStateTransition (pf_env pf) (pf_validators pf) (pf_decode pf) True
                  ((fst st)\<lparr>ds_header := bc_header (snd st)\<rparr>) b of
             Inl _ \<Rightarrow> 0
           | Inr t \<Rightarrow> minted (pf_env pf) t))"

fun minted_in_block ::
  "platform \<Rightarrow> drive_state \<times> block_execution_context \<Rightarrow> buffer option list \<Rightarrow> int" where
  "minted_in_block pf st [] = 0"
| "minted_in_block pf st (b # bs) = minted_by pf st b + minted_in_block pf (snd (deliverTx pf st b)) bs"

lemma deliverTx_cases:
  assumes "deliverTx pf (s, ctx) b = (r, s', ctx')" and "\<nexists>e. r = Halt e"
  shows "(deliverTxHandler pf (s, ctx) b = (Inr (), s', ctx') \<and> r = Response ()) \<or>
    (\<exists>e c. deliverTxHandler pf (s, ctx) b = (Inl e, s', ctx') \<and> abci_code e = Some c \<and> r = ErrorResponse c)"
  using assms
  by (auto simp: deliverTx_def wrapInErrorHandler_def split: prod.splits sum.splits option.splits)

lemma deliver_all_Cons:
  assumes "deliver_all pf st (b # bs) = Some (st'', rs)"
  shows "\<exists>r st' rs'. deliverTx pf st b = (r, st') \<and> (\<nexists>e. r = Halt e) \<and>
     deliver_all pf st' bs = Some (st'', rs') \<and> rs = r # rs'"
  using assms by (auto split: prod.splits abci_result.splits)

lemma deliver_step_ledger:
  assumes "ledger_ok s" and "output_amounts_nonneg (pf_env pf)"
    and "deliverTx pf (s, ctx) b = (r, s', ctx')" and "\<nexists>e. r = Halt e"
  shows "total_credits True s' + bc_cumulativeFees ctx' =
      total_credits True s + bc_cumulativeFees ctx + minted_by pf (s, ctx) b \<and> ledger_ok s' \<and>
    (\<forall>q. isAssetLockTransactionOutPointAlreadyUsed True s q \<longrightarrow>
       isAssetLockTransactionOutPointAlreadyUsed True s' q)"
  using deliverTx_cases [OF assms(3,4)]
proof (elim disjE exE conjE)
  assume acc: "deliverTxHandler pf (s, ctx) b = (Inr (), s', ctx')"
  from accepted_transaction [OF assms(1,2) acc] show ?thesis
    by (auto simp: minted_by_def acc)
next
  fix e c assume rej: "deliverTxHandler pf (s, ctx) b = (Inl e, s', ctx')"
  from deliverTx_rejected [OF rej] assms(1) show ?thesis
    by (auto simp: minted_by_def rej)
qed

lemma block_ledger:
  assumes "ledger_ok s" and "output_amounts_nonneg (pf_env pf)"
    and "deliver_all pf (s, ctx) bs = Some ((s', ctx'), rs)"
  shows "total_credits True s' + bc_cumulativeFees ctx' =
      total_credits True s + bc_cumulativeFees ctx + minted_in_block pf (s, ctx) bs \<and> ledger_ok s' \<and>
    (\<forall>q. isAssetLockTransactionOutPointAlreadyUsed True s q \<longrightarrow>
       isAssetLockTransactionOutPointAlreadyUsed True s' q)"
  using assms(1,3)
proof (induction bs arbitrary: s ctx rs)
  case Nil
  then show ?case by simp
next
  case (Cons b bs)
  from deliver_all_Cons [OF Cons.prems(2)] obtain r s1 ctx1 rs' where
    d: "deliverTx pf (s, ctx) b = (r, s1, ctx1)" "\<nexists>e. r = Halt e"
    and rest: "deliver_all pf (s1, ctx1) bs = Some ((s', ctx'), rs')" by auto
  note step = deliver_step_ledger [OF Cons.prems(1) assms(2) d]
  with Cons.IH [OF _ rest] show ?case by (auto simp: d)
qed

text \<open>
  C1. Credits are conserved while a block executes: for any sequence of transactions, the
  balances of all identities plus the fees collected grow by exactly what the accepted
  transactions mint from asset locks; and no balance ever becomes negative.
\<close>

theorem block_conserves_credits:
  assumes "ledger_ok s" and "output_amounts_nonneg (pf_env pf)"
    and "deliver_all pf (s, ctx) bs = Some ((s', ctx'), rs)"
  shows "total_credits True s' + bc_cumulativeFees ctx' =
      total_credits True s + bc_cumulativeFees ctx + minted_in_block pf (s, ctx) bs \<and>
    balances_nonneg True s'"
  using block_ledger [OF assms] by (simp add: ledger_ok_def)

lemma sample_env_amounts: "output_amounts_nonneg sample_env"
  by (simp add: output_amounts_nonneg_def sample_env_def)

definition sample_platform :: platform where
  "sample_platform = \<lparr>pf_env = sample_env,
     pf_validators = \<lparr>va_schemas = \<lparr>sc_transition = (\<lambda>_. []), sc_publicKey = (\<lambda>_. []), sc_proof = (\<lambda>_. [])\<rparr>,
        va_batchSchema = (\<lambda>_. []), va_documentSchema = (\<lambda>_ _ _. []),
        va_dataContract = (\<lambda>_. Inr new_ValidationResult), va_dppVersion = 1\<rparr>,
     pf_decode = (\<lambda>bytes. case bytes of
         [] \<Rightarrow> None
       | [x] \<Rightarrow> Some (\<lambda>v. RawTyped (IdentityCreateTransition
           \<lparr>stb_protocolVersion = v, stb_signature = Some [1], stb_signaturePublicKeyId = None\<rparr>
           (ChainAssetLockProof 5 [x]) [\<lparr>pk_id = 0, pk_type = 0, pk_data = [x]\<rparr>]))
       | [x, y] \<Rightarrow> Some (\<lambda>v. RawTyped (IdentityTopUpTransition
           \<lparr>stb_protocolVersion = v, stb_signature = Some [1], stb_signaturePublicKeyId = None\<rparr>
           (ChainAssetLockProof 5 [y]) [x]))
       | _ \<Rightarrow> None),
     pf_triggers = no_system_contracts,
     pf_fetchDocuments = (\<lambda>_ _ _ _. Inr [])\<rparr>"

definition sample_ctx :: block_execution_context where
  "sample_ctx = new_BlockExecutionContext\<lparr>bc_header := Some \<lparr>hd_height = 2, hd_coreChainLockedHeight = 9,
     hd_time_seconds = 0, hd_app_version = 1\<rparr>\<rparr>"

text \<open>The state after the sample platform executed the creation of an identity.\<close>

definition sample_state :: drive_state where
  "sample_state = empty_state\<lparr>
     ds_identities := \<lparr>vs_db = [], vs_tx = [([6], Some \<lparr>id_protocolVersion = 1, id_id = [6],
        id_publicKeys = [\<lparr>pk_id = 0, pk_type = 0, pk_data = [6]\<rparr>], id_balance = 9996, id_revision = 0\<rparr>)]\<rparr>,
     ds_publicKeyIds := \<lparr>vs_db = [], vs_tx = [([6], Some [6])]\<rparr>,
     ds_spentOutPoints := \<lparr>vs_db = [], vs_tx = [([6], Some [1])]\<rparr>,
     ds_header := bc_header sample_ctx\<rparr>"

definition sample_ctx_after :: block_execution_context where
  "sample_ctx_after = sample_ctx\<lparr>bc_cumulativeFees := 4, bc_validTxs := 1,
     bc_consensusLogger := Some ''deliverTx''\<rparr>"

lemma sample_first_tx:
  "deliverTxHandler sample_platform (empty_state, sample_ctx) (Some [1, 0, 0, 0, 6]) =
     (Inr (), sample_state, sample_ctx_after)"
  by code_simp

lemma sample_second_tx:
  "deliverTx sample_platform (sample_state, sample_ctx_after) (Some [1, 0]) =
     (ErrorResponse 1000, sample_state, incrementInvalidTxCount sample_ctx_after)"
  by code_simp

lemma sample_block_runs:
  "deliver_all sample_platform (empty_state, sample_ctx) [Some [1, 0, 0, 0, 6], Some [1, 0]] =
     Some ((sample_state, incrementInvalidTxCount sample_ctx_after), [Response (), ErrorResponse 1000])"
  by (simp add: sample_first_tx sample_second_tx deliverTx_def [of _ "(empty_state, sample_ctx)"]
      wrapInErrorHandler_def)

lemma empty_ledger_ok: "ledger_ok empty_state"
  by (simp add: ledger_ok_def balances_nonneg_def identities_keyed_def fetchIdentity_def vstore_get_def
      empty_state_def empty_vstore_def)

theorem block_conserves_credits_witness:
  "total_credits True sample_state + bc_cumulativeFees (incrementInvalidTxCount sample_ctx_after) =
     total_credits True empty_state + bc_cumulativeFees sample_ctx +
     minted_in_block sample_platform (empty_state, sample_ctx) [Some [1, 0, 0, 0, 6], Some [1, 0]]"
  using block_conserves_credits [OF empty_ledger_ok _ sample_block_runs]
  by (simp add: sample_platform_def sample_env_amounts)

lemma deliver_step_counts:
  assumes "deliverTx pf (s, ctx) b = (r, s', ctx')" and "\<nexists>e. r = Halt e"
  shows "bc_validTxs ctx' = bc_validTxs ctx + (if r = Response () then 1 else 0) \<and>
    bc_invalidTxs ctx \<le> bc_invalidTxs ctx' \<and>
    bc_invalidTxs ctx' \<le> bc_invalidTxs ctx + (if r = Response () then 0 else 1)"
  using deliverTx_cases [OF assms]
proof (elim disjE exE conjE)
  assume acc: "deliverTxHandler pf (s, ctx) b = (Inr (), s', ctx')" and r: "r = Response ()"
  from deliverTx_accepted [OF acc] obtain st where
    "apply_and_charge pf st (s\<lparr>ds_header := bc_header ctx\<rparr>) (setConsensusLogger ''deliverTx'' ctx) = Inr (s', ctx')"
    by blast
  then show ?thesis
    by (auto simp: r apply_and_charge_def Let_def rbind_eq_Inr_iff incrementValidTxCount_def
        incrementCumulativeFees_def addDataContract_def setConsensusLogger_def
        split: option.split_asm state_transition.split_asm)
next
  fix e c assume rej: "deliverTxHandler pf (s, ctx) b = (Inl e, s', ctx')" and r: "r = ErrorResponse c"
  from rej show ?thesis
    by (auto simp: r deliverTxHandler_def Let_def setConsensusLogger_def incrementInvalidTxCount_def
        split: if_split_asm sum.split_asm option.split_asm prod.split_asm)
qed

text \<open>
  The counters of the block are right: over any sequence of transactions the counter of
  valid ones grows by exactly the number of successful answers, and the counter of invalid ones
  by at most the number of the others.
\<close>

theorem block_counts:
  assumes "deliver_all pf (s, ctx) bs = Some ((s', ctx'), rs)"
  shows "length rs = length bs \<and>
    bc_validTxs ctx' = bc_validTxs ctx + int (length (filter (\<lambda>r. r = Response ()) rs)) \<and>
    bc_invalidTxs ctx \<le> bc_invalidTxs ctx' \<and>
    bc_invalidTxs ctx' \<le> bc_invalidTxs ctx + int (length (filter (\<lambda>r. r \<noteq> Response ()) rs))"
  using assms
proof (induction bs arbitrary: s ctx rs)
  case Nil
  then show ?case by auto
next
  case (Cons b bs)
  from deliver_all_Cons [OF Cons.prems] obtain r s1 ctx1 rs' where
    d: "deliverTx pf (s, ctx) b = (r, s1, ctx1)" "\<nexists>e. r = Halt e"
    and rest: "deliver_all pf (s1, ctx1) bs = Some ((s', ctx'), rs')" and rs: "rs = r # rs'" by auto
  from deliver_step_counts [OF d] Cons.IH [OF rest] show ?case by (auto simp: rs)
qed

theorem block_counts_witness:
  "bc_validTxs (incrementInvalidTxCount sample_ctx_after) = bc_validTxs sample_ctx + 1 \<and>
   bc_invalidTxs (incrementInvalidTxCount sample_ctx_after) \<le> bc_invalidTxs sample_ctx + 1"
  using block_counts [OF sample_block_runs] by simp

section \<open>No asset lock is spent twice\<close>

lemma accepted_spends_fresh:
  assumes "core_documented (pf_env pf)"
    and "unserializeStateTransition (pf_env pf) va dec True s b = Inr st"
    and "spends (pf_env pf) st = Some q"
  shows "\<not> isAssetLockTransactionOutPointAlreadyUsed True s q"
proof
  assume used: "isAssetLockTransactionOutPointAlreadyUsed True s q"
  from unserialize_ok [OF assms(2)] obtain raw where
    raw: "createStateTransition s raw = Inr st"
    and valid: "run_valid (validateStateTransitionBasic (pf_env pf) va True s raw)" by blast
  from assms(3) obtain p where p: "AssetLockProof_getOutPoint (pf_env pf) p = Inr q"
    and st: "(\<exists>b ks. st = IdentityCreateTransition b p ks) \<or> (\<exists>b i. st = IdentityTopUpTransition b p i)"
    by (auto simp: spends_def split: state_transition.split_asm sum.split_asm)
  from raw st have "raw = RawTyped st"
    by (auto simp: createStateTransition_def rbind_eq_Inr_iff split: raw_state_transition.split_asm)
  with valid st have "run_valid (validateAssetLockProof (pf_env pf) (sc_proof (va_schemas va)) True s p)"
    by (auto simp: validateStateTransitionBasic_def validate_by_type_basic_def
        validateIdentityCreateTransitionBasic_def validateIdentityTopUpTransitionBasic_def)
  with used_proof_not_valid [OF assms(1) p used] show False by simp
qed

text \<open>
  C2. No asset lock is spent twice: once a block accepted a transition that spends an outpoint,
  no later transaction of the block is accepted that spends the same one, whatever was executed
  in between.
\<close>

theorem no_double_spend_in_block:
  assumes "core_documented (pf_env pf)" and "output_amounts_nonneg (pf_env pf)" and "ledger_ok s"
    and "deliverTxHandler pf (s, ctx) b = (Inr (), s1, ctx1)"
    and "unserializeStateTransition (pf_env pf) (pf_validators pf) (pf_decode pf) True
           (s\<lparr>ds_header := bc_header ctx\<rparr>) b = Inr st" and "spends (pf_env pf) st = Some q"
    and "deliver_all pf (s1, ctx1) bs = Some ((s2, ctx2), rs)"
    and "unserializeStateTransition (pf_env pf) (pf_validators pf) (pf_decode pf) True
           (s2\<lparr>ds_header := bc_header ctx2\<rparr>) b' = Inr st'"
  shows "spends (pf_env pf) st' \<noteq> Some q"
proof
  assume again: "spends (pf_env pf) st' = Some q"
  from accepted_transaction [OF assms(3,2,4)] assms(5,6)
  have used: "isAssetLockTransactionOutPointAlreadyUsed True s1 q" and ok: "ledger_ok s1" by auto
  from block_ledger [OF ok assms(2,7)] used
  have "isAssetLockTransactionOutPointAlreadyUsed True s2 q" by blast
  then show False using accepted_spends_fresh [OF assms(1,8) again] by simp
qed

lemma sample_unserialize:
  "unserializeStateTransition (pf_env sample_platform) (pf_validators sample_platform)
     (pf_decode sample_platform) True (empty_state\<lparr>ds_header := bc_header sample_ctx\<rparr>)
     (Some [1, 0, 0, 0, 6]) = Inr (IdentityCreateTransition sample_base (ChainAssetLockProof 5 [6])
        [\<lparr>pk_id = 0, pk_type = 0, pk_data = [6]\<rparr>])"
  "unserializeStateTransition (pf_env sample_platform) (pf_validators sample_platform)
     (pf_decode sample_platform) True
     (sample_state\<lparr>ds_header := bc_header (incrementInvalidTxCount sample_ctx_after)\<rparr>)
     (Some [1, 0, 0, 0, 7]) = Inr (IdentityCreateTransition sample_base (ChainAssetLockProof 5 [7])
        [\<lparr>pk_id = 0, pk_type = 0, pk_data = [7]\<rparr>])"
  by code_simp+

lemma sample_spends:
  "spends (pf_env sample_platform) (IdentityCreateTransition sample_base (ChainAssetLockProof 5 [6])
        [\<lparr>pk_id = 0, pk_type = 0, pk_data = [6]\<rparr>]) = Some [6]"
  by code_simp

theorem no_double_spend_in_block_witness:
  "spends (pf_env sample_platform) (IdentityCreateTransition sample_base (ChainAssetLockProof 5 [7])
        [\<lparr>pk_id = 0, pk_type = 0, pk_data = [7]\<rparr>]) \<noteq> Some [6]"
proof (rule no_double_spend_in_block [OF _ _ empty_ledger_ok sample_first_tx sample_unserialize(1)
      sample_spends _ sample_unserialize(2)])
  show "core_documented (pf_env sample_platform)" "output_amounts_nonneg (pf_env sample_platform)"
    by (simp_all add: sample_platform_def sample_env_amounts sample_env_documented)
  show "deliver_all sample_platform (sample_state, sample_ctx_after) [Some [1, 0]] =
      Some ((sample_state, incrementInvalidTxCount sample_ctx_after), [ErrorResponse 1000])"
    by (simp add: sample_second_tx)
qed

section \<open>What a block cannot see\<close>

lemma apply_same_contracts:
  assumes "applyStateTransition env F True st s = Inr s'"
  shows "fetchDataContract s' = fetchDataContract s"
proof (cases st)
  case (DataContractCreateTransition b c e)
  with assms show ?thesis
    by (auto simp: applyStateTransition_def applyDataContractCreateTransition_def repo_simps)
next
  case (DocumentsBatchTransition b i ts)
  with assms obtain fetched where
    "rfold (apply_document_transition True (stb_protocolVersion b) i fetched) s ts = Inr s'"
    by (auto simp: applyStateTransition_def applyDocumentsBatchTransition_def Let_def rbind_eq_Inr_iff)
  then show ?thesis
    by (rule rfold_invariant)
      (auto simp: apply_document_transition_def storeDocument_def removeDocument_def fetchDataContract_def
        fun_eq_iff split: action.splits option.splits)
next
  case (IdentityCreateTransition b p ks)
  with assms have "applyIdentityCreateTransition env True b p ks s = Inr s'"
    by (simp add: applyStateTransition_def)
  from apply_create_Inr [OF this] show ?thesis
    by (auto simp: storeIdentity_def storeIdentityPublicKeyHashes_def
        markAssetLockTransactionOutPointAsUsed_def fetchDataContract_def)
next
  case (IdentityTopUpTransition b p i)
  with assms have "applyIdentityTopUpTransition env True p i s = Inr s'"
    by (simp add: applyStateTransition_def)
  from apply_topup_Inr [OF this] show ?thesis
    by (auto simp: storeIdentity_def markAssetLockTransactionOutPointAsUsed_def fetchDataContract_def)
qed

lemma deliver_step_same_contracts:
  assumes "deliverTx pf (s, ctx) b = (r, s', ctx')" and "\<nexists>e. r = Halt e"
  shows "fetchDataContract s' = fetchDataContract s"
  using deliverTx_cases [OF assms]
proof (elim disjE exE conjE)
  assume "deliverTxHandler pf (s, ctx) b = (Inr (), s', ctx')"
  from deliverTx_accepted [OF this] obtain st u i fee where
    "applyStateTransition (pf_env pf) (pf_fetchDocuments pf) True st (s\<lparr>ds_header := bc_header ctx\<rparr>) = Inr u"
    and "s' = storeIdentity True (Identity_reduceBalance fee i) u"
    by (auto simp: apply_and_charge_def Let_def rbind_eq_Inr_iff split: option.split_asm)
  with apply_same_contracts [OF this(1)] show ?thesis
    by (simp add: fun_eq_iff storeIdentity_def fetchDataContract_def)
next
  fix e c assume "deliverTxHandler pf (s, ctx) b = (Inl e, s', ctx')"
  from deliverTx_rejected(1) [OF this] show ?thesis
    by (auto simp: fun_eq_iff fetchDataContract_def)
qed

text \<open>
  The contracts created by a block are invisible until it commits: whatever transactions
  the block executed, a contract is fetched exactly as before the block. So the check that a
  contract is not already present passes for a contract that the same block already created:
  two creations of one contract can both be accepted.
\<close>

theorem contracts_invisible_in_block:
  assumes "deliver_all pf (s, ctx) bs = Some ((s', ctx'), rs)"
  shows "fetchDataContract s' = fetchDataContract s \<and>
    (run_valid (validateDataContractCreateTransitionState s' c) \<longleftrightarrow>
     run_valid (validateDataContractCreateTransitionState s c))"
proof -
  have "fetchDataContract s' = fetchDataContract s"
    using assms
  proof (induction bs arbitrary: s ctx rs)
    case Nil
    then show ?case by simp
  next
    case (Cons b bs)
    from deliver_all_Cons [OF Cons.prems] obtain r s1 ctx1 rs' where
      d: "deliverTx pf (s, ctx) b = (r, s1, ctx1)" "\<nexists>e. r = Halt e"
      and rest: "deliver_all pf (s1, ctx1) bs = Some ((s', ctx'), rs')" by auto
    from deliver_step_same_contracts [OF d] Cons.IH [OF rest] show ?case by simp
  qed
  then show ?thesis by (simp add: validateDataContractCreateTransitionState_def)
qed

text \<open>A creator with a funded identity, and its contract delivered twice.\<close>

definition contract_platform :: platform where
  "contract_platform = sample_platform\<lparr>
     pf_decode := (\<lambda>bytes. Some (\<lambda>v. RawTyped (DataContractCreateTransition
        \<lparr>stb_protocolVersion = v, stb_signature = Some [1], stb_signaturePublicKeyId = Some 0\<rparr>
        (sample_contract\<lparr>dc_id := generateDataContractId sample_env [8] [3], dc_ownerId := [8]\<rparr>) [3])))\<rparr>"

definition creator_state :: drive_state where
  "creator_state = storeIdentity False
     \<lparr>id_protocolVersion = 1, id_id = [8], id_publicKeys = [sample_key], id_balance = 1000, id_revision = 0\<rparr> empty_state"

text \<open>The state and the context after \<open>n\<close> creations.\<close>

definition created_state :: "int \<Rightarrow> drive_state" where
  "created_state n = creator_state\<lparr>
     ds_identities := \<lparr>vs_db = vs_db (ds_identities creator_state), vs_tx = [([8], Some
        \<lparr>id_protocolVersion = 1, id_id = [8], id_publicKeys = [sample_key], id_balance = 1000 - 4 * n,
         id_revision = 0\<rparr>)]\<rparr>,
     ds_dataContracts := \<lparr>vs_db = [], vs_tx = [([8, 3],
        Some (sample_contract\<lparr>dc_id := [8, 3], dc_ownerId := [8]\<rparr>))]\<rparr>,
     ds_header := bc_header sample_ctx\<rparr>"

definition created_ctx :: "int \<Rightarrow> block_execution_context" where
  "created_ctx n = sample_ctx\<lparr>
     bc_dataContracts := replicate (nat n) (sample_contract\<lparr>dc_id := [8, 3], dc_ownerId := [8]\<rparr>),
     bc_cumulativeFees := 4 * n, bc_validTxs := n, bc_consensusLogger := Some ''deliverTx''\<rparr>"

lemma contract_created_once:
  "deliverTx contract_platform (creator_state, sample_ctx) (Some [1, 0, 0, 0]) =
     (Response (), created_state 1, created_ctx 1)"
  by code_simp

lemma contract_created_again:
  "deliverTx contract_platform (created_state 1, created_ctx 1) (Some [1, 0, 0, 0]) =
     (Response (), created_state 2, created_ctx 2)"
  by code_simp

lemma contract_created_twice_run:
  "deliver_all contract_platform (creator_state, sample_ctx) [Some [1, 0, 0, 0], Some [1, 0, 0, 0]] =
     Some ((created_state 2, created_ctx 2), [Response (), Response ()])"
  by (simp add: contract_created_once contract_created_again)

theorem contracts_invisible_in_block_witness:
  "fetchDataContract (created_state 2) [8, 3] = None \<and>
   run_valid (validateDataContractCreateTransitionState (created_state 2)
     (sample_contract\<lparr>dc_id := [8, 3], dc_ownerId := [8]\<rparr>))"
  using contracts_invisible_in_block [OF contract_created_twice_run,
      of "sample_contract\<lparr>dc_id := [8, 3], dc_ownerId := [8]\<rparr>"]
  by (simp add: validateDataContractCreateTransitionState_def creator_state_def storeIdentity_def
      fetchDataContract_def vstore_get_def empty_state_def empty_vstore_def sample_contract_def)

section \<open>A top-up that stops Drive\<close>

lemma deliver_uncaught:
  assumes "bc_header ctx \<noteq> None"
    and "unserializeStateTransition (pf_env pf) (pf_validators pf) (pf_decode pf) True
           (s\<lparr>ds_header := bc_header ctx\<rparr>) b = Inl e" and "abci_code e = None"
  shows "\<exists>s' ctx'. deliverTx pf (s, ctx) b = (Halt e, s', ctx')"
  using assms by (auto simp: deliverTx_def deliverTxHandler_def Let_def setConsensusLogger_def
      wrapInErrorHandler_def split: prod.splits)

text \<open>
  A top-up of an identity that does not exist stops Drive: no validator checks that the
  identity exists, and the fee validator reads its balance. The exception is not an ABCI error,
  so that executing the transaction ends in it instead of an error answer.
\<close>

theorem topup_to_missing_identity_halts:
  assumes "bc_header ctx \<noteq> None" and "s' = s\<lparr>ds_header := bc_header ctx\<rparr>"
    and "decodeProtocolEntity (pf_decode pf) bytes = Inr (RawTyped (IdentityTopUpTransition b p i))"
    and "run_valid (validateStateTransitionBasic (pf_env pf) (pf_validators pf) True s'
           (RawTyped (IdentityTopUpTransition b p i)))"
    and "run_valid (validateSignature (pf_env pf) True s' (IdentityTopUpTransition b p i))"
    and "calculateStateTransitionFee (pf_env pf) (IdentityTopUpTransition b p i) = Inr fee"
    and "locked_credits (pf_env pf) p = Inr credits" and "fetchIdentity True s i = None"
  shows "\<exists>s'' ctx''. deliverTx pf (s, ctx) (Some bytes) = (Halt JsTypeError, s'', ctx'')"
proof -
  have "createFromBuffer (pf_env pf) (pf_validators pf) (pf_decode pf) True s' False bytes =
      Inr (IdentityTopUpTransition b p i)"
    using assms(3,4) by (auto simp: createFromBuffer_def createFromObject_def run_valid_iff
        createStateTransition_def)
  moreover have "fail_invalid m (validateSignature (pf_env pf) True s' (IdentityTopUpTransition b p i)) = Inr ()" for m
    using assms(5) by (simp add: fail_invalid_ok)
  moreover have "validateStateTransitionFee (pf_env pf) True s' (IdentityTopUpTransition b p i) = Inl JsTypeError"
    using assms(2,6-8) by (simp add: validateStateTransitionFee_def available_balance_def identity_balance_def)
  ultimately have "unserializeStateTransition (pf_env pf) (pf_validators pf) (pf_decode pf) True s' (Some bytes) =
      Inl JsTypeError"
    by (simp add: unserializeStateTransition_def fail_invalid_def)
  with deliver_uncaught [OF assms(1)] assms(2) show ?thesis by (simp add: abci_code_def)
qed

theorem topup_to_missing_identity_halts_witness:
  "\<exists>s'' ctx''. deliverTx sample_platform (empty_state, sample_ctx) (Some [1, 0, 0, 0, 5, 6]) =
     (Halt JsTypeError, s'', ctx'')"
proof (rule topup_to_missing_identity_halts [OF _ refl])
  show "bc_header sample_ctx \<noteq> None" by (simp add: sample_ctx_def)
  show "decodeProtocolEntity (pf_decode sample_platform) [1, 0, 0, 0, 5, 6] =
      Inr (RawTyped (IdentityTopUpTransition sample_base (ChainAssetLockProof 5 [6]) [5]))"
    by (simp add: decodeProtocolEntity_def sample_platform_def sample_base_def)
  show "run_valid (validateStateTransitionBasic (pf_env sample_platform) (pf_validators sample_platform) True
      (empty_state\<lparr>ds_header := bc_header sample_ctx\<rparr>)
      (RawTyped (IdentityTopUpTransition sample_base (ChainAssetLockProof 5 [6]) [5])))"
    by code_simp
  show "run_valid (validateSignature (pf_env sample_platform) True
      (empty_state\<lparr>ds_header := bc_header sample_ctx\<rparr>)
      (IdentityTopUpTransition sample_base (ChainAssetLockProof 5 [6]) [5]))"
    by code_simp
  show "calculateStateTransitionFee (pf_env sample_platform)
      (IdentityTopUpTransition sample_base (ChainAssetLockProof 5 [6]) [5]) = Inr 4"
    by code_simp
  show "locked_credits (pf_env sample_platform) (ChainAssetLockProof 5 [6]) = Inr 10000"
    by code_simp
  show "fetchIdentity True empty_state [5] = None"
    by code_simp
qed

end
