(* ===== verification/CoreChain.thy ===== *)
theory CoreChain
  imports DppValues
begin

text \<open>
  What Drive follows of the Core chain (\<open>js-drive/lib/core\<close>): the latest chain lock and the
  functions that wait for one, and the simplified masternode list that is kept up to date block
  by block. Events of the ZMQ socket are the list of those still to come; a promise that the
  given events never settle is \<open>None\<close>. Core's RPC calls are parameters.
\<close>

section \<open>LatestCoreChainLock\<close>

record chain_lock =
  cl_height :: int
  cl_blockHash :: buffer
  cl_signature :: buffer

type_synonym latest_chain_lock = "chain_lock option"

definition LatestCoreChainLock_update :: "chain_lock \<Rightarrow> latest_chain_lock \<Rightarrow> latest_chain_lock" where
  "LatestCoreChainLock_update l latest = Some l"

definition LatestCoreChainLock_getChainLock :: "latest_chain_lock \<Rightarrow> chain_lock option" where
  "LatestCoreChainLock_getChainLock latest = latest"

section \<open>waitForChainLockedHeight\<close>

text \<open>
  The listener sees every update; the promise resolves with the first one that reaches the
  height. The result is the chain lock and the updates left when the promise resolves.
\<close>

fun await_update :: "int \<Rightarrow> chain_lock list \<Rightarrow> (latest_chain_lock \<times> chain_lock list) option" where
  "await_update coreHeight [] = None"
| "await_update coreHeight (l # updates) =
     (if coreHeight > cl_height l then await_update coreHeight updates
      else Some (LatestCoreChainLock_update l None, updates))"

definition waitForChainLockedHeight ::
  "int \<Rightarrow> latest_chain_lock \<Rightarrow> chain_lock list \<Rightarrow>
   (dpp_error + latest_chain_lock \<times> chain_lock list) option" where
  "waitForChainLockedHeight coreHeight latest updates =
     (case LatestCoreChainLock_getChainLock latest of
        None \<Rightarrow> Some (Inl MissingChainLockError)
      | Some existing \<Rightarrow>
          if coreHeight > cl_height existing then map_option Inr (await_update coreHeight updates)
          else Some (Inr (latest, updates)))"

lemma await_update_Some:
  "await_update h updates = Some (latest, rest) \<longleftrightarrow>
   (\<exists>before l. updates = before @ l # rest \<and> latest = Some l \<and> cl_height l \<ge> h \<and>
      (\<forall>l' \<in> set before. cl_height l' < h))"
proof (induction updates)
  case Nil
  then show ?case by simp
next
  case (Cons x updates)
  show ?case
  proof (cases "h > cl_height x")
    case True
    then show ?thesis using Cons.IH
      by (auto simp: Cons_eq_append_conv intro: exI [of _ "x # _"])
  next
    case False
    then show ?thesis
      by (auto simp: LatestCoreChainLock_update_def Cons_eq_append_conv)
  qed
qed

lemma await_update_reached:
  "await_update h updates = Some (latest, rest) \<Longrightarrow> \<exists>l \<in> set updates. latest = Some l \<and> cl_height l \<ge> h"
  by (auto simp: await_update_Some)

lemma await_update_None: "await_update h updates = None \<longleftrightarrow> (\<forall>l \<in> set updates. cl_height l < h)"
  by (induction updates) auto

text \<open>
  Waiting for a height returns exactly when a chain lock of that height is known or comes:
  with no chain lock it throws at once; otherwise it returns if and only if the known chain lock
  or one of the updates reaches the height, and then the latest chain lock is at that height or
  above it.
\<close>

theorem waitForChainLockedHeight_returns:
  "waitForChainLockedHeight h None updates = Some (Inl MissingChainLockError) \<and>
   ((\<exists>r. waitForChainLockedHeight h (Some l) updates = Some r) \<longleftrightarrow>
      (\<exists>l' \<in> set (l # updates). cl_height l' \<ge> h)) \<and>
   (\<forall>l' rest. waitForChainLockedHeight h (Some l) updates = Some (Inr (Some l', rest)) \<longrightarrow>
      cl_height l' \<ge> h \<and> l' \<in> set (l # updates))"
proof -
  have "(\<exists>r. await_update h updates = Some r) \<longleftrightarrow> (\<exists>l' \<in> set updates. cl_height l' \<ge> h)"
    using await_update_None [of h updates] by (auto simp: not_less dest: leD)
  then show ?thesis
    by (auto simp: waitForChainLockedHeight_def LatestCoreChainLock_getChainLock_def dest!: await_update_reached)
qed

theorem waitForChainLockedHeight_returns_witness:
  "\<exists>l' rest. waitForChainLockedHeight 5 (Some \<lparr>cl_height = 3, cl_blockHash = [], cl_signature = []\<rparr>)
     [\<lparr>cl_height = 4, cl_blockHash = [], cl_signature = []\<rparr>,
      \<lparr>cl_height = 7, cl_blockHash = [], cl_signature = []\<rparr>] = Some (Inr (Some l', rest)) \<and>
   cl_height l' \<ge> 5"
proof -
  have "waitForChainLockedHeight 5 (Some \<lparr>cl_height = 3, cl_blockHash = [], cl_signature = []\<rparr>)
     [\<lparr>cl_height = 4, cl_blockHash = [], cl_signature = []\<rparr>,
      \<lparr>cl_height = 7, cl_blockHash = [], cl_signature = []\<rparr>] =
     Some (Inr (Some \<lparr>cl_height = 7, cl_blockHash = [], cl_signature = []\<rparr>, []))"
    by (simp add: waitForChainLockedHeight_def LatestCoreChainLock_getChainLock_def LatestCoreChainLock_update_def)
  with waitForChainLockedHeight_returns show ?thesis by blast
qed

section \<open>waitForCoreSync\<close>

text \<open>
  The loop polls Core until it reports that it is synced: \<open>status\<close> is the reply at each poll,
  \<open>info\<close> the block and header counts for the progress callback. Ten seconds pass between polls.
\<close>

partial_function (option) waitForCoreSync_from ::
  "(nat \<Rightarrow> dpp_error + bool) \<Rightarrow> (nat \<Rightarrow> dpp_error + int \<times> int) \<Rightarrow> nat \<Rightarrow> (int \<times> int) list \<Rightarrow>
   (dpp_error option \<times> (int \<times> int) list) option" where
  "waitForCoreSync_from status info n progress =
     (case status n of
        Inl e \<Rightarrow> Some (Some e, progress)
      | Inr isBlockchainSynced \<Rightarrow>
          if isBlockchainSynced then Some (None, progress)
          else case info n of
                 Inl e \<Rightarrow> Some (Some e, progress)
               | Inr counts \<Rightarrow> waitForCoreSync_from status info (Suc n) (progress @ [counts]))"

definition waitForCoreSync ::
  "(nat \<Rightarrow> dpp_error + bool) \<Rightarrow> (nat \<Rightarrow> dpp_error + int \<times> int) \<Rightarrow> (dpp_error option \<times> (int \<times> int) list) option" where
  "waitForCoreSync status info = waitForCoreSync_from status info 0 []"

text \<open>A poll is the last one when Core answers that it is synced, or fails.\<close>

definition sync_ends :: "(nat \<Rightarrow> dpp_error + bool) \<Rightarrow> (nat \<Rightarrow> dpp_error + int \<times> int) \<Rightarrow> nat \<Rightarrow> bool" where
  "sync_ends status info n \<longleftrightarrow> status n \<noteq> Inr False \<or> \<not> is_ok (info n)"

lemma waitForCoreSync_reaches:
  assumes "sync_ends status info (n + k)" and "\<forall>j < k. \<not> sync_ends status info (n + j)"
  shows "\<exists>e ps. waitForCoreSync_from status info n progress = Some (e, progress @ ps) \<and> length ps = k \<and>
     (e = None \<longleftrightarrow> status (n + k) = Inr True)"
  using assms
proof (induction k arbitrary: n progress)
  case 0
  then show ?case
    by (subst waitForCoreSync_from.simps)
       (auto simp: sync_ends_def is_ok_iff split: sum.splits)
next
  case (Suc k)
  from Suc.prems(2) have n: "status n = Inr False" "is_ok (info n)"
    by (auto simp: sync_ends_def dest: spec [of _ 0])
  then obtain counts where counts: "info n = Inr counts" by (auto simp: is_ok_iff)
  have "sync_ends status info (Suc n + k)" "\<forall>j < k. \<not> sync_ends status info (Suc n + j)"
    using Suc.prems by auto
  from Suc.IH [OF this, of "progress @ [counts]"] show ?case
    by (subst waitForCoreSync_from.simps) (fastforce simp: n(1) counts)
qed

lemma waitForCoreSync_from_ends:
  assumes "waitForCoreSync_from status info n progress = Some r"
  shows "\<exists>k. sync_ends status info (n + k)"
proof (rule waitForCoreSync_from.raw_induct
    [where P = "\<lambda>status info n progress r. \<exists>k. sync_ends status info (n + k)", OF _ assms])
  fix rec :: "(nat \<Rightarrow> dpp_error + bool) \<Rightarrow> (nat \<Rightarrow> dpp_error + int \<times> int) \<Rightarrow> nat \<Rightarrow> (int \<times> int) list \<Rightarrow>
      (dpp_error option \<times> (int \<times> int) list) option"
  fix status info n progress r
  assume IH: "\<And>status info n progress r. rec status info n progress = Some r \<Longrightarrow>
      \<exists>k. sync_ends status info (n + k)"
    and body: "(case status n of
        Inl e \<Rightarrow> Some (Some e, progress)
      | Inr isBlockchainSynced \<Rightarrow>
          if isBlockchainSynced then Some (None, progress)
          else case info n of
                 Inl e \<Rightarrow> Some (Some e, progress)
               | Inr counts \<Rightarrow> rec status info (Suc n) (progress @ [counts])) = Some r"
  show "\<exists>k. sync_ends status info (n + k)"
  proof (cases "sync_ends status info n")
    case True
    then show ?thesis by (intro exI [of _ 0]) simp
  next
    case False
    then obtain counts where "status n = Inr False" "info n = Inr counts"
      by (auto simp: sync_ends_def is_ok_iff)
    with body have "rec status info (Suc n) (progress @ [counts]) = Some r" by simp
    from IH [OF this] obtain k where "sync_ends status info (Suc n + k)" by blast
    then show ?thesis by (intro exI [of _ "Suc k"]) simp
  qed
qed

text \<open>
  Waiting for Core ends exactly when some poll ends it: when Core answers at some point
  that it is synced, or fails, the wait returns after the first such poll, having reported the
  progress once for every earlier one, and without an error only if that answer was that Core
  is synced; when no poll ends it, it never returns.
\<close>

theorem waitForCoreSync_ends:
  "if \<exists>n. sync_ends status info n
   then \<exists>e ps. waitForCoreSync status info = Some (e, ps) \<and>
          length ps = (LEAST n. sync_ends status info n) \<and>
          (e = None \<longleftrightarrow> status (LEAST n. sync_ends status info n) = Inr True)
   else waitForCoreSync status info = None"
proof (cases "\<exists>n. sync_ends status info n")
  case True
  let ?n = "LEAST n. sync_ends status info n"
  from True have "sync_ends status info (0 + ?n)" "\<forall>j < ?n. \<not> sync_ends status info (0 + j)"
    by (auto intro: LeastI_ex dest: not_less_Least)
  from waitForCoreSync_reaches [OF this, of "[]"] True show ?thesis
    by (auto simp: waitForCoreSync_def)
next
  case False
  have "waitForCoreSync_from status info 0 [] = None"
  proof (cases "waitForCoreSync_from status info 0 []")
    case (Some r)
    with waitForCoreSync_from_ends False show ?thesis by blast
  qed simp
  with False show ?thesis by (simp add: waitForCoreSync_def)
qed

section \<open>waitForCoreChainLockSync\<close>

text \<open>
  The listener on the ZMQ socket updates the latest chain lock with every message it can parse;
  a message it cannot parse is logged and dropped. \<open>best\<close> is the answer to the call for the best
  chain lock, \<open>None\<close> when Core knows none (error -32603), \<open>block\<close> the answer to the call for its
  block (error -5 when the block is not known yet). The events of the socket come before the
  answer (\<open>before\<close>) or after it.
\<close>

datatype zmq_event =
    RawChainLockSig "chain_lock option"
  | HashBlock buffer

fun on_zmq_event :: "zmq_event \<Rightarrow> latest_chain_lock \<Rightarrow> latest_chain_lock" where
  "on_zmq_event (RawChainLockSig (Some l)) latest = LatestCoreChainLock_update l latest"
| "on_zmq_event (RawChainLockSig None) latest = latest"
| "on_zmq_event (HashBlock h) latest = latest"

fun is_first_chain_lock :: "zmq_event \<Rightarrow> bool" where
  "is_first_chain_lock (RawChainLockSig (Some _)) = True"
| "is_first_chain_lock _ = False"

text \<open>Awaiting the first event with a property, while the listener goes on.\<close>

fun await_event ::
  "(zmq_event \<Rightarrow> bool) \<Rightarrow> latest_chain_lock \<Rightarrow> zmq_event list \<Rightarrow> (latest_chain_lock \<times> zmq_event list) option" where
  "await_event p latest [] = None"
| "await_event p latest (e # es) =
     (if p e then Some (on_zmq_event e latest, es) else await_event p (on_zmq_event e latest) es)"

definition ensureBlock ::
  "buffer \<Rightarrow> int option \<Rightarrow> latest_chain_lock \<Rightarrow> zmq_event list \<Rightarrow>
   (dpp_error + latest_chain_lock \<times> zmq_event list) option" where
  "ensureBlock hash getBlockError latest events =
     (case getBlockError of
        None \<Rightarrow> Some (Inr (latest, events))
      | Some code \<Rightarrow>
          if code = -5 then map_option Inr (await_event (\<lambda>e. e = HashBlock hash) latest events)
          else Some (Inl (CoreRpcError code)))"

definition waitForCoreChainLockSync ::
  "int + chain_lock \<Rightarrow> int option \<Rightarrow> latest_chain_lock \<Rightarrow> zmq_event list \<Rightarrow> zmq_event list \<Rightarrow>
   (dpp_error + latest_chain_lock) option" where
  "waitForCoreChainLockSync best getBlockError latest before events =
     (let latest = fold on_zmq_event before latest in
      case best of
        Inl code \<Rightarrow>
          if code = -32603 then
            (if \<exists>e \<in> set before. is_first_chain_lock e then Some (Inr latest)
             else map_option (\<lambda>(latest, _). Inr latest) (await_event is_first_chain_lock latest events))
          else Some (Inl (CoreRpcError code))
      | Inr chainLock \<Rightarrow>
          map_option (\<lambda>r. case r of
              Inl e \<Rightarrow> Inl e
            | Inr (latest, _) \<Rightarrow> Inr (LatestCoreChainLock_update chainLock latest))
            (ensureBlock (cl_blockHash chainLock) getBlockError latest events))"

lemma first_chain_lock_sets: "is_first_chain_lock e \<Longrightarrow> \<exists>l. on_zmq_event e latest = Some l"
  by (cases e rule: is_first_chain_lock.cases) (auto simp: LatestCoreChainLock_update_def)

lemma on_zmq_event_keeps: "\<exists>l'. on_zmq_event e (Some l) = Some l'"
  by (cases "(e, Some l)" rule: on_zmq_event.cases) (auto simp: LatestCoreChainLock_update_def)

lemma fold_events_keep: "\<exists>l'. fold on_zmq_event es (Some l) = Some l'"
proof (induction es arbitrary: l)
  case (Cons e es)
  from on_zmq_event_keeps [of e l] Cons.IH show ?case by auto
qed simp

lemma fold_events_set:
  "\<exists>e \<in> set es. is_first_chain_lock e \<Longrightarrow> \<exists>l. fold on_zmq_event es latest = Some l"
proof (induction es arbitrary: latest)
  case (Cons e es)
  show ?case
  proof (cases "is_first_chain_lock e")
    case True
    from first_chain_lock_sets [OF this, of latest] fold_events_keep [of es] show ?thesis by auto
  next
    case False
    with Cons show ?thesis by simp
  qed
qed simp

lemma await_first_chain_lock:
  "await_event is_first_chain_lock latest es = Some (latest', rest) \<Longrightarrow> \<exists>l. latest' = Some l"
  by (induction is_first_chain_lock latest es rule: await_event.induct)
     (auto dest: first_chain_lock_sets split: if_splits)

lemma sync_with_best:
  assumes "waitForCoreChainLockSync (Inr chainLock) getBlockError latest before events = Some (Inr latest')"
  shows "latest' = Some chainLock"
proof -
  let ?update = "\<lambda>r. case r of Inl e \<Rightarrow> Inl e
      | Inr (latest, _) \<Rightarrow> Inr (LatestCoreChainLock_update chainLock latest)"
  from assms have "\<exists>r. ensureBlock (cl_blockHash chainLock) getBlockError (fold on_zmq_event before latest) events
      = Some r \<and> ?update r = Inr latest'"
    by (simp add: waitForCoreChainLockSync_def Let_def)
  then show ?thesis
  proof (elim exE conjE)
    fix r :: "dpp_error + latest_chain_lock \<times> zmq_event list"
    assume "?update r = Inr latest'"
    then show ?thesis by (cases r) (auto simp: LatestCoreChainLock_update_def)
  qed
qed

text \<open>
  After Drive has synced with Core a chain lock is known, so that waiting for a height
  never throws for the lack of one. But the chain lock known then is the one of the call's
  answer, whatever arrived on the socket in the meantime: a newer one is overwritten.
\<close>

theorem chain_lock_after_sync:
  assumes "waitForCoreChainLockSync best getBlockError latest before events = Some (Inr latest')"
  shows "(\<exists>l. latest' = Some l) \<and> waitForChainLockedHeight h latest' updates \<noteq> Some (Inl MissingChainLockError) \<and>
     (\<forall>chainLock. best = Inr chainLock \<longrightarrow> latest' = Some chainLock)"
proof -
  have known: "\<exists>l. latest' = Some l"
  proof (cases best)
    case (Inl code)
    then show ?thesis
      using assms fold_events_set [of before latest]
      by (auto simp: waitForCoreChainLockSync_def Let_def dest: await_first_chain_lock split: if_splits)
  next
    case (Inr chainLock)
    with assms sync_with_best show ?thesis by blast
  qed
  moreover have "\<forall>chainLock. best = Inr chainLock \<longrightarrow> latest' = Some chainLock"
    using assms sync_with_best by blast
  moreover from known have "waitForChainLockedHeight h latest' updates \<noteq> Some (Inl MissingChainLockError)"
    by (auto simp: waitForChainLockedHeight_def LatestCoreChainLock_getChainLock_def split: if_splits)
  ultimately show ?thesis by auto
qed

definition lock_at :: "int \<Rightarrow> chain_lock" where
  "lock_at h = \<lparr>cl_height = h, cl_blockHash = [1], cl_signature = []\<rparr>"

theorem chain_lock_after_sync_witness:
  "waitForCoreChainLockSync (Inr (lock_at 7)) (Some (-5)) None [RawChainLockSig (Some (lock_at 8))]
     [RawChainLockSig (Some (lock_at 9)), HashBlock [1]] = Some (Inr (Some (lock_at 7))) \<and>
   waitForChainLockedHeight 8 (Some (lock_at 7)) [] \<noteq> Some (Inl MissingChainLockError)"
proof -
  have "waitForCoreChainLockSync (Inr (lock_at 7)) (Some (-5)) None [RawChainLockSig (Some (lock_at 8))]
     [RawChainLockSig (Some (lock_at 9)), HashBlock [1]] = Some (Inr (Some (lock_at 7)))"
    by (simp add: waitForCoreChainLockSync_def ensureBlock_def LatestCoreChainLock_update_def lock_at_def)
  with chain_lock_after_sync [OF this] show ?thesis by blast
qed

section \<open>The simplified masternode list\<close>

text \<open>
  \<open>SimplifiedMNListStore\<close> is a class of the dashcore package: it is the list of the diffs it was
  made from and given. \<open>protx\<close> is the RPC call that returns the diff between two heights.
\<close>

type_synonym 'd sml = "'d list option"

definition SimplifiedMasternodeList_applyDiffs :: "'d list \<Rightarrow> 'd sml \<Rightarrow> 'd sml" where
  "SimplifiedMasternodeList_applyDiffs smlDiffs store =
     (case store of
        None \<Rightarrow> Some smlDiffs
      | Some applied \<Rightarrow> Some (foldl (\<lambda>applied diff. applied @ [diff]) applied smlDiffs))"

definition SimplifiedMasternodeList_reset :: "'d sml \<Rightarrow> 'd sml" where
  "SimplifiedMasternodeList_reset store = None"

record 'd sml_updater =
  su_latestRequestedHeight :: int
  su_store :: "'d sml"

definition new_sml_updater :: "'d sml_updater" where
  "new_sml_updater = \<lparr>su_latestRequestedHeight = 1, su_store = None\<rparr>"

function fetchDiffsPerBlock :: "(int \<Rightarrow> int \<Rightarrow> dpp_error + 'd) \<Rightarrow> int \<Rightarrow> int \<Rightarrow> dpp_error + 'd list" where
  "fetchDiffsPerBlock protx height toHeight =
     (if height < toHeight then
        rbind (protx height (height + 1)) (\<lambda>diff.
        rbind (fetchDiffsPerBlock protx (height + 1) toHeight) (\<lambda>diffs. Inr (diff # diffs)))
      else Inr [])"
  by pat_completeness auto
termination by (relation "measure (\<lambda>(_, height, toHeight). nat (toHeight - height))") auto

declare fetchDiffsPerBlock.simps [simp del]

definition updateSimplifiedMasternodeList ::
  "(int \<Rightarrow> int \<Rightarrow> dpp_error + 'd) \<Rightarrow> int \<Rightarrow> int \<Rightarrow> 'd sml_updater \<Rightarrow> dpp_error option \<times> 'd sml_updater" where
  "updateSimplifiedMasternodeList protx smlMaxListsLimit coreHeight u =
     (if coreHeight < smlMaxListsLimit + 1 then (Some (NotEnoughBlocksForValidSMLError coreHeight), u)
      else
        let u = (if coreHeight - su_latestRequestedHeight u > smlMaxListsLimit
                 then u\<lparr>su_latestRequestedHeight := 1,
                        su_store := SimplifiedMasternodeList_reset (su_store u)\<rparr>
                 else u)
        in if su_latestRequestedHeight u = 1 then
             (let startHeight = coreHeight - smlMaxListsLimit in
              case rbind (protx (su_latestRequestedHeight u) startHeight) (\<lambda>diff.
                     rbind (fetchDiffsPerBlock protx startHeight coreHeight) (\<lambda>diffs. Inr (diff # diffs))) of
                Inl e \<Rightarrow> (Some e, u)
              | Inr initialSmlDiffs \<Rightarrow>
                  (None, u\<lparr>su_store := SimplifiedMasternodeList_applyDiffs initialSmlDiffs (su_store u),
                           su_latestRequestedHeight := coreHeight\<rparr>))
           else if su_latestRequestedHeight u < coreHeight then
             (case fetchDiffsPerBlock protx (su_latestRequestedHeight u) coreHeight of
                Inl e \<Rightarrow> (Some e, u)
              | Inr smlDiffs \<Rightarrow>
                  (None, u\<lparr>su_store := SimplifiedMasternodeList_applyDiffs smlDiffs (su_store u),
                           su_latestRequestedHeight := coreHeight\<rparr>))
           else (None, u))"

text \<open>The updaters that calls with any heights lead to, failed calls included.\<close>

inductive sml_reachable ::
  "(int \<Rightarrow> int \<Rightarrow> dpp_error + 'd) \<Rightarrow> int \<Rightarrow> 'd sml_updater \<Rightarrow> bool"
  for protx :: "int \<Rightarrow> int \<Rightarrow> dpp_error + 'd" and smlMaxListsLimit :: int where
  sml_init: "sml_reachable protx smlMaxListsLimit new_sml_updater"
| sml_update: "sml_reachable protx smlMaxListsLimit u \<Longrightarrow>
    updateSimplifiedMasternodeList protx smlMaxListsLimit coreHeight u = (e, u') \<Longrightarrow>
    sml_reachable protx smlMaxListsLimit u'"

text \<open>The heights each diff spans, one after the other without a gap.\<close>

fun contiguous :: "int \<Rightarrow> (int \<times> int) list \<Rightarrow> int \<Rightarrow> bool" where
  "contiguous a [] b \<longleftrightarrow> a = b"
| "contiguous a ((x, y) # rs) b \<longleftrightarrow> x = a \<and> contiguous y rs b"

lemma contiguous_append: "contiguous a (rs @ qs) c \<longleftrightarrow> (\<exists>b. contiguous a rs b \<and> contiguous b qs c)"
  by (induction rs arbitrary: a) auto

lemma fetchDiffs_ranges:
  assumes "\<forall>x y d. protx x y = Inr d \<longrightarrow> span d = (x, y)" and "a \<le> b"
    and "fetchDiffsPerBlock protx a b = Inr ds"
  shows "contiguous a (map span ds) b \<and> length ds = nat (b - a)"
  using assms
proof (induction protx a b arbitrary: ds rule: fetchDiffsPerBlock.induct)
  case (1 protx a b)
  show ?case
  proof (cases "a < b")
    case True
    with "1.prems"(3) obtain d ds' where d: "protx a (a + 1) = Inr d"
      and ds': "fetchDiffsPerBlock protx (a + 1) b = Inr ds'" and ds: "ds = d # ds'"
      by (subst (asm) fetchDiffsPerBlock.simps) (auto simp: rbind_eq_Inr_iff)
    have "contiguous (a + 1) (map span ds') b \<and> length ds' = nat (b - (a + 1))"
      by (rule "1.IH" [OF True "1.prems"(1) _ ds']) (use True in simp)
    with "1.prems"(1) d True show ?thesis
      by (auto simp: ds)
  next
    case False
    with "1.prems" show ?thesis
      by (subst (asm) fetchDiffsPerBlock.simps) auto
  qed
qed

text \<open>What holds of the list between the calls.\<close>

definition sml_ok :: "('d \<Rightarrow> int \<times> int) \<Rightarrow> int \<Rightarrow> 'd sml_updater \<Rightarrow> bool" where
  "sml_ok span limit u \<longleftrightarrow>
     (case su_store u of
        None \<Rightarrow> su_latestRequestedHeight u = 1
      | Some ds \<Rightarrow> su_latestRequestedHeight u > limit \<and>
          contiguous 1 (map span ds) (su_latestRequestedHeight u) \<and>
          limit < int (length ds) \<and> (\<forall>d \<in> set (tl ds). snd (span d) = fst (span d) + 1))"

lemma foldl_snoc: "foldl (\<lambda>xs x. xs @ [x]) ys xs = ys @ xs"
  by (induction xs arbitrary: ys) auto

lemma applyDiffs_cases:
  "SimplifiedMasternodeList_applyDiffs ds None = Some ds"
  "SimplifiedMasternodeList_applyDiffs ds (Some old) = Some (old @ ds)"
  by (simp_all add: SimplifiedMasternodeList_applyDiffs_def foldl_snoc)

lemma fetchDiffs_single:
  assumes "\<forall>x y d. protx x y = Inr d \<longrightarrow> span d = (x, y)"
    and "fetchDiffsPerBlock protx a b = Inr ds" and "d \<in> set ds"
  shows "snd (span d) = fst (span d) + 1"
  using assms
proof (induction protx a b arbitrary: ds rule: fetchDiffsPerBlock.induct)
  case (1 protx a b)
  show ?case
  proof (cases "a < b")
    case True
    with "1.prems"(2) obtain e ds' where e: "protx a (a + 1) = Inr e"
      and ds': "fetchDiffsPerBlock protx (a + 1) b = Inr ds'" and ds: "ds = e # ds'"
      by (subst (asm) fetchDiffsPerBlock.simps) (auto simp: rbind_eq_Inr_iff)
    with "1.IH" [OF True "1.prems"(1) ds'] "1.prems"(1,3) show ?thesis
      by (auto simp: ds)
  next
    case False
    with "1.prems" show ?thesis
      by (subst (asm) fetchDiffsPerBlock.simps) auto
  qed
qed

lemma sml_update_ok:
  assumes span: "\<forall>x y d. protx x y = Inr d \<longrightarrow> span d = (x, y)" and limit: "limit \<ge> 1"
    and "sml_ok span limit u" and "updateSimplifiedMasternodeList protx limit h u = (e, u')"
  shows "sml_ok span limit u' \<and> (e = None \<longrightarrow> h \<le> su_latestRequestedHeight u')"
proof -
  have init: "sml_ok span limit (v\<lparr>su_store := SimplifiedMasternodeList_applyDiffs (d # ds) None,
      su_latestRequestedHeight := h\<rparr>)"
    if "limit + 1 \<le> h" "protx 1 (h - limit) = Inr d" "fetchDiffsPerBlock protx (h - limit) h = Inr ds" for v d ds
    using that fetchDiffs_ranges [OF span _ that(3)] fetchDiffs_single [OF span that(3)] span limit
    by (auto simp: sml_ok_def applyDiffs_cases)
  have step: "sml_ok span limit (v\<lparr>su_store := SimplifiedMasternodeList_applyDiffs ds (su_store v),
      su_latestRequestedHeight := h\<rparr>)"
    if "sml_ok span limit v" "su_latestRequestedHeight v \<noteq> 1" "su_latestRequestedHeight v < h"
      "fetchDiffsPerBlock protx (su_latestRequestedHeight v) h = Inr ds" for v ds
    using that fetchDiffs_ranges [OF span _ that(4)] fetchDiffs_single [OF span that(4)]
    by (auto simp: sml_ok_def applyDiffs_cases contiguous_append tl_append split: option.splits list.splits)
  define v where "v = (if h - su_latestRequestedHeight u > limit
      then u\<lparr>su_latestRequestedHeight := 1, su_store := SimplifiedMasternodeList_reset (su_store u)\<rparr> else u)"
  have v: "sml_ok span limit v"
    using assms(3) by (auto simp: v_def sml_ok_def SimplifiedMasternodeList_reset_def)
  then have one: "su_latestRequestedHeight v = 1 \<Longrightarrow> su_store v = None"
    using limit by (auto simp: sml_ok_def split: option.splits)
  have call: "(if h < limit + 1 then (Some (NotEnoughBlocksForValidSMLError h), u)
      else if su_latestRequestedHeight v = 1 then
        (case rbind (protx (su_latestRequestedHeight v) (h - limit)) (\<lambda>diff.
                rbind (fetchDiffsPerBlock protx (h - limit) h) (\<lambda>diffs. Inr (diff # diffs))) of
           Inl e \<Rightarrow> (Some e, v)
         | Inr ds \<Rightarrow> (None, v\<lparr>su_store := SimplifiedMasternodeList_applyDiffs ds (su_store v),
                             su_latestRequestedHeight := h\<rparr>))
      else if su_latestRequestedHeight v < h then
        (case fetchDiffsPerBlock protx (su_latestRequestedHeight v) h of
           Inl e \<Rightarrow> (Some e, v)
         | Inr ds \<Rightarrow> (None, v\<lparr>su_store := SimplifiedMasternodeList_applyDiffs ds (su_store v),
                             su_latestRequestedHeight := h\<rparr>))
      else (None, v)) = (e, u')"
    using assms(4) unfolding updateSimplifiedMasternodeList_def Let_def v_def by simp
  consider "h < limit + 1" | "h \<ge> limit + 1" "su_latestRequestedHeight v = 1"
    | "h \<ge> limit + 1" "su_latestRequestedHeight v \<noteq> 1"
    by linarith
  then show ?thesis
  proof cases
    case 1
    with call assms(3) show ?thesis by auto
  next
    case 2
    with call v init one show ?thesis
      by (auto simp: rbind_eq_Inr_iff split: sum.split_asm)
  next
    case 3
    with call v step show ?thesis
      by (auto split: if_split_asm sum.split_asm)
  qed
qed

text \<open>
  The masternode list has no gaps: after any sequence of updates to any heights, failed ones
  included, the list is either not there yet or made of diffs that follow each other from the
  first block to the last height requested, block by block after the first diff and more of them
  than the limit; and an update that succeeds covers the height it was asked for.
\<close>

theorem sml_contiguous:
  assumes "\<forall>x y d. protx x y = Inr d \<longrightarrow> span d = (x, y)" and "smlMaxListsLimit \<ge> 1"
    and "sml_reachable protx smlMaxListsLimit u"
  shows "sml_ok span smlMaxListsLimit u \<and>
    (\<forall>coreHeight u'. updateSimplifiedMasternodeList protx smlMaxListsLimit coreHeight u = (None, u') \<longrightarrow>
       coreHeight \<le> su_latestRequestedHeight u')"
proof -
  from assms(3) have ok: "sml_ok span smlMaxListsLimit u"
  proof (induction rule: sml_reachable.induct)
    case sml_init
    then show ?case by (simp add: sml_ok_def new_sml_updater_def)
  next
    case (sml_update u coreHeight e u')
    from sml_update_ok [OF assms(1,2) sml_update.IH sml_update.hyps(2)] show ?case by blast
  qed
  with sml_update_ok [OF assms(1,2) ok] show ?thesis by blast
qed

theorem sml_contiguous_witness:
  "\<exists>u. sml_reachable (\<lambda>x y. Inr (x, y)) 2 u \<and> su_store u = Some [(1, 3), (3, 4), (4, 5), (5, 6)] \<and>
     sml_ok id 2 u"
proof -
  let ?protx = "\<lambda>x y. Inr (x, y)"
  let ?u = "snd (updateSimplifiedMasternodeList ?protx 2 5 new_sml_updater) :: (int \<times> int) sml_updater"
  let ?u' = "snd (updateSimplifiedMasternodeList ?protx 2 6 ?u)"
  have reach: "sml_reachable ?protx 2 ?u'"
    by (metis sml_init sml_update prod.collapse)
  have "su_store ?u' = Some [(1, 3), (3, 4), (4, 5), (5, 6)]"
    by (simp add: updateSimplifiedMasternodeList_def new_sml_updater_def fetchDiffsPerBlock.simps
        SimplifiedMasternodeList_reset_def applyDiffs_cases)
  moreover have "sml_ok id 2 ?u'"
    using sml_contiguous [OF _ _ reach, of id] by simp
  ultimately show ?thesis using reach by blast
qed

end
