(* ===== verification/Validators.thy ===== *)
theory Validators
  imports CoreChain "HOL-Library.List_Lexorder"
begin

text \<open>
  The validator set (\<open>js-drive/lib/validator\<close>, \<open>lib/core/getRandomQuorum.js\<close>,
  \<open>lib/core/fetchQuorumMembersFactory.js\<close>, \<open>abci/handlers/validator/createValidatorSetUpdate.js\<close>):
  the quorum chosen by the entropy of the chain, its members, and the update Tendermint gets.
  The masternode list of the dashcore package and Core's RPC calls are parameters.
\<close>

section \<open>Hexadecimal strings\<close>

text \<open>\<open>buffer.toString('hex')\<close>, and \<open>Buffer.from(text, 'hex')\<close>, which stops at the first pair
  that is not hexadecimal.\<close>

definition hex_digit :: "nat \<Rightarrow> char" where
  "hex_digit n = ''0123456789abcdef'' ! n"

definition hex_value :: "char \<Rightarrow> nat option" where
  "hex_value c =
     map_of (zip ''0123456789abcdefABCDEF'' ([0..<16] @ [10..<16])) c"

definition hex_encode :: "buffer \<Rightarrow> string" where
  "hex_encode bytes = concat (map (\<lambda>b. [hex_digit (unat b div 16), hex_digit (unat b mod 16)]) bytes)"

fun hex_decode :: "string \<Rightarrow> buffer" where
  "hex_decode (c # d # text) =
     (case (hex_value c, hex_value d) of
        (Some h, Some l) \<Rightarrow> word_of_nat (16 * h + l) # hex_decode text
      | _ \<Rightarrow> [])"
| "hex_decode _ = []"

lemma hex_value_digit: "n < 16 \<Longrightarrow> hex_value (hex_digit n) = Some n"
proof -
  have "list_all (\<lambda>n. hex_value (hex_digit n) = Some n) [0..<16]"
    by code_simp
  then show "n < 16 \<Longrightarrow> ?thesis" by (simp add: list_all_iff)
qed

lemma hex_decode_encode: "hex_decode (hex_encode bytes) = bytes"
proof (induction bytes)
  case Nil
  then show ?case by (simp add: hex_encode_def)
next
  case (Cons b bytes)
  have "unat b < 2 ^ LENGTH(8)" by (rule unsigned_less)
  then have "unat b < 256" by simp
  then have "hex_value (hex_digit (unat b div 16)) = Some (unat b div 16)"
    "hex_value (hex_digit (unat b mod 16)) = Some (unat b mod 16)"
    by (simp_all add: hex_value_digit less_mult_imp_div_less)
  with Cons show ?case
    by (simp add: hex_encode_def)
qed

section \<open>getRandomQuorum\<close>

record quorum =
  qr_quorumHash :: string
  qr_quorumPublicKey :: string

record member =
  mb_proTxHash :: string
  mb_valid :: bool
  mb_pubKeyShare :: "string option"

record 'sml quorum_calls =
  qc_sha256 :: "buffer \<Rightarrow> buffer"
  qc_getSMLbyHeight :: "int \<Rightarrow> dpp_error + 'sml"
  qc_blockHash :: "'sml \<Rightarrow> string"
  qc_getQuorumsOfType :: "'sml \<Rightarrow> int \<Rightarrow> quorum list"
  qc_getQuorum :: "'sml \<Rightarrow> int \<Rightarrow> string \<Rightarrow> quorum option"
  qc_quorumInfo :: "int \<Rightarrow> string \<Rightarrow> int + member list"
  qc_masternodeStatus :: "int + string"

definition calculateQuorumHashScores ::
  "(buffer \<Rightarrow> buffer) \<Rightarrow> buffer list \<Rightarrow> buffer \<Rightarrow> (buffer \<times> buffer) list" where
  "calculateQuorumHashScores sha256 quorumHashes modifier =
     map (\<lambda>hash. (sha256 (hash @ modifier), hash)) quorumHashes"

definition getRandomQuorum ::
  "'sml quorum_calls \<Rightarrow> 'sml \<Rightarrow> int \<Rightarrow> buffer \<Rightarrow> dpp_error + quorum option" where
  "getRandomQuorum qc sml quorumType entropy =
     (let validatorQuorums = qc_getQuorumsOfType qc sml quorumType in
      if validatorQuorums = [] then Inl (QuorumsNotFoundError quorumType)
      else
        (let validatorQuorumHashes = map (\<lambda>q. hex_decode (qr_quorumHash q)) validatorQuorums;
             scoredHashes = sort_key fst (calculateQuorumHashScores (qc_sha256 qc) validatorQuorumHashes entropy);
             quorumHash = hex_encode (snd (hd scoredHashes))
         in Inr (qc_getQuorum qc sml quorumType quorumHash)))"

lemma hd_sort_key:
  assumes "xs \<noteq> []"
  shows "hd (sort_key f xs) \<in> set xs" and "\<forall>x \<in> set xs. f (hd (sort_key f xs)) \<le> f x"
proof -
  have ne: "sort_key f xs \<noteq> []" using assms by (metis length_0_conv length_sort)
  then show "hd (sort_key f xs) \<in> set xs" by (metis hd_in_set set_sort)
  have "sorted (map f (sort_key f xs))" by simp
  with ne have "\<forall>y \<in> set (sort_key f xs). f (hd (sort_key f xs)) \<le> f y"
    by (cases "sort_key f xs") auto
  then show "\<forall>x \<in> set xs. f (hd (sort_key f xs)) \<le> f x" by simp
qed

text \<open>The lookup of a quorum finds the one with that hash, and hashes are lower-case
  hexadecimal: what the masternode list documents.\<close>

definition quorums_documented :: "'sml quorum_calls \<Rightarrow> 'sml \<Rightarrow> int \<Rightarrow> bool" where
  "quorums_documented qc sml quorumType \<longleftrightarrow>
     (\<forall>q \<in> set (qc_getQuorumsOfType qc sml quorumType).
        hex_encode (hex_decode (qr_quorumHash q)) = qr_quorumHash q \<and>
        qc_getQuorum qc sml quorumType (qr_quorumHash q) = Some q)"

definition quorum_score :: "'sml quorum_calls \<Rightarrow> buffer \<Rightarrow> quorum \<Rightarrow> buffer" where
  "quorum_score qc entropy q = qc_sha256 qc (hex_decode (qr_quorumHash q) @ entropy)"

lemma getRandomQuorum_least:
  assumes "quorums_documented qc sml quorumType" and "qc_getQuorumsOfType qc sml quorumType \<noteq> []"
  shows "\<exists>q \<in> set (qc_getQuorumsOfType qc sml quorumType).
    getRandomQuorum qc sml quorumType entropy = Inr (Some q) \<and>
    (\<forall>q' \<in> set (qc_getQuorumsOfType qc sml quorumType).
       quorum_score qc entropy q \<le> quorum_score qc entropy q')"
proof -
  let ?qs = "qc_getQuorumsOfType qc sml quorumType"
  let ?scored = "map (\<lambda>q. (quorum_score qc entropy q, hex_decode (qr_quorumHash q))) ?qs"
  have scored: "calculateQuorumHashScores (qc_sha256 qc) (map (\<lambda>q. hex_decode (qr_quorumHash q)) ?qs) entropy = ?scored"
    by (simp add: calculateQuorumHashScores_def quorum_score_def)
  have "?scored \<noteq> []" using assms(2) by simp
  from hd_sort_key [OF this, of fst] obtain q where q: "q \<in> set ?qs"
    and hd: "hd (sort_key fst ?scored) = (quorum_score qc entropy q, hex_decode (qr_quorumHash q))"
    and least: "\<forall>q' \<in> set ?qs. quorum_score qc entropy q \<le> quorum_score qc entropy q'"
    by auto
  have "getRandomQuorum qc sml quorumType entropy = Inr (Some q)"
    using assms q unfolding getRandomQuorum_def Let_def scored hd
    by (simp add: quorums_documented_def)
  with q least show ?thesis by blast
qed

text \<open>
  Every node chooses the same quorum: the quorum is one of the list with the least score
  for the entropy, and two masternode lists that hold the same quorums in any order give the
  same one, as long as no two of the quorums have the same score.
\<close>

theorem getRandomQuorum_deterministic:
  assumes "quorums_documented qc sml quorumType" and "quorums_documented qc sml' quorumType"
    and "qc_getQuorumsOfType qc sml quorumType \<noteq> []"
    and same: "set (qc_getQuorumsOfType qc sml quorumType) = set (qc_getQuorumsOfType qc sml' quorumType)"
    and "inj_on (quorum_score qc entropy) (set (qc_getQuorumsOfType qc sml quorumType))"
  shows "getRandomQuorum qc sml quorumType entropy = getRandomQuorum qc sml' quorumType entropy \<and>
    (\<exists>q \<in> set (qc_getQuorumsOfType qc sml quorumType).
       getRandomQuorum qc sml quorumType entropy = Inr (Some q) \<and>
       (\<forall>q' \<in> set (qc_getQuorumsOfType qc sml quorumType).
          quorum_score qc entropy q \<le> quorum_score qc entropy q'))"
proof -
  have "qc_getQuorumsOfType qc sml' quorumType \<noteq> []"
    using assms(3) same by auto
  from getRandomQuorum_least [OF assms(2) this, of entropy] obtain q' where
    q': "q' \<in> set (qc_getQuorumsOfType qc sml quorumType)"
      "getRandomQuorum qc sml' quorumType entropy = Inr (Some q')"
      "\<forall>p \<in> set (qc_getQuorumsOfType qc sml quorumType).
         quorum_score qc entropy q' \<le> quorum_score qc entropy p"
    unfolding same by blast
  from getRandomQuorum_least [OF assms(1,3), of entropy] obtain q where
    q: "q \<in> set (qc_getQuorumsOfType qc sml quorumType)"
      "getRandomQuorum qc sml quorumType entropy = Inr (Some q)"
      "\<forall>p \<in> set (qc_getQuorumsOfType qc sml quorumType).
         quorum_score qc entropy q \<le> quorum_score qc entropy p"
    by blast
  from q(1,3) q'(1,3) have "quorum_score qc entropy q = quorum_score qc entropy q'"
    by (meson antisym)
  with q(1) q'(1) assms(5) have "q = q'" by (auto dest: inj_onD)
  with q q' show ?thesis by auto
qed

section \<open>ValidatorSet\<close>

text \<open>\<open>if (member.pubKeyShare)\<close> is false of the empty string.\<close>

record validator =
  vl_proTxHash :: buffer
  vl_pubKeyShare :: "buffer option"

definition DEFAULT_DASH_VOTING_POWER :: int where "DEFAULT_DASH_VOTING_POWER = 100"

definition Validator_createFromQuorumMember :: "member \<Rightarrow> bool \<Rightarrow> dpp_error + validator" where
  "Validator_createFromQuorumMember m pubKeyShareRequired =
     (case mb_pubKeyShare m of
        Some (c # share) \<Rightarrow> Inr \<lparr>vl_proTxHash = hex_decode (mb_proTxHash m),
                                vl_pubKeyShare = Some (hex_decode (c # share))\<rparr>
      | _ \<Rightarrow> if pubKeyShareRequired then Inl (PublicKeyShareIsNotPresentError (mb_proTxHash m))
             else Inr \<lparr>vl_proTxHash = hex_decode (mb_proTxHash m), vl_pubKeyShare = None\<rparr>)"

definition fetchQuorumMembers :: "'sml quorum_calls \<Rightarrow> int \<Rightarrow> string \<Rightarrow> dpp_error + member list" where
  "fetchQuorumMembers qc quorumType quorumHash =
     (case qc_quorumInfo qc quorumType quorumHash of
        Inr members \<Rightarrow> Inr members
      | Inl code \<Rightarrow>
          if code = -8 then Inl (JsError (''The quorum of type '' @ int_string quorumType @
              '' and quorumHash '' @ quorumHash @ '' doesn't exist''))
          else Inl (CoreRpcError code))"

record validator_set =
  vset_quorum :: "quorum option"
  vset_validators :: "validator list"

definition new_ValidatorSet :: validator_set where
  "new_ValidatorSet = \<lparr>vset_quorum = None, vset_validators = []\<rparr>"

definition ValidatorSet_getQuorum :: "validator_set \<Rightarrow> dpp_error + quorum" where
  "ValidatorSet_getQuorum v =
     (case vset_quorum v of None \<Rightarrow> Inl ValidatorSetIsNotInitializedError | Some q \<Rightarrow> Inr q)"

definition ValidatorSet_getValidators :: "validator_set \<Rightarrow> dpp_error + validator list" where
  "ValidatorSet_getValidators v =
     (if vset_validators v = [] then Inl ValidatorSetIsNotInitializedError else Inr (vset_validators v))"

text \<open>The node's own masternode; error -32603 says it is not one.\<close>

definition own_proTxHash :: "'sml quorum_calls \<Rightarrow> dpp_error + string option" where
  "own_proTxHash qc =
     (case qc_masternodeStatus qc of
        Inr proTxHash \<Rightarrow> Inr (Some proTxHash)
      | Inl code \<Rightarrow> if code \<noteq> -32603 then Inl (CoreRpcError code) else Inr None)"

definition validators_of ::
  "'sml quorum_calls \<Rightarrow> int \<Rightarrow> quorum \<Rightarrow> dpp_error + validator list" where
  "validators_of qc llmqType quorum =
     rbind (fetchQuorumMembers qc llmqType (qr_quorumHash quorum)) (\<lambda>quorumMembers.
     rbind (own_proTxHash qc) (\<lambda>proTxHash.
       let isThisNodeMember = (find (\<lambda>m. mb_valid m \<and> Some (mb_proTxHash m) = proTxHash) quorumMembers \<noteq> None)
       in rmap (\<lambda>m. Validator_createFromQuorumMember m isThisNodeMember) (filter mb_valid quorumMembers)))"

text \<open>The quorum is set before its members are fetched.\<close>

definition switchToRandomQuorum ::
  "'sml quorum_calls \<Rightarrow> int \<Rightarrow> 'sml \<Rightarrow> buffer \<Rightarrow> validator_set \<Rightarrow> dpp_error option \<times> validator_set" where
  "switchToRandomQuorum qc llmqType sml rotationEntropy v =
     (case getRandomQuorum qc sml llmqType rotationEntropy of
        Inl e \<Rightarrow> (Some e, v)
      | Inr None \<Rightarrow> (Some JsTypeError, v\<lparr>vset_quorum := None\<rparr>)
      | Inr (Some quorum) \<Rightarrow>
          (case validators_of qc llmqType quorum of
             Inl e \<Rightarrow> (Some e, v\<lparr>vset_quorum := Some quorum\<rparr>)
           | Inr validators \<Rightarrow> (None, v\<lparr>vset_quorum := Some quorum, vset_validators := validators\<rparr>)))"

definition ValidatorSet_initialize ::
  "'sml quorum_calls \<Rightarrow> int \<Rightarrow> int \<Rightarrow> validator_set \<Rightarrow> dpp_error option \<times> validator_set" where
  "ValidatorSet_initialize qc llmqType coreHeight v =
     (case qc_getSMLbyHeight qc coreHeight of
        Inl e \<Rightarrow> (Some e, v)
      | Inr sml \<Rightarrow> switchToRandomQuorum qc llmqType sml (hex_decode (qc_blockHash qc sml)) v)"

definition ROTATION_BLOCK_INTERVAL :: int where "ROTATION_BLOCK_INTERVAL = 15"

definition ValidatorSet_rotate ::
  "'sml quorum_calls \<Rightarrow> int \<Rightarrow> int \<Rightarrow> int \<Rightarrow> buffer \<Rightarrow> validator_set \<Rightarrow> (dpp_error + bool) \<times> validator_set" where
  "ValidatorSet_rotate qc llmqType height coreHeight rotationEntropy v =
     (case qc_getSMLbyHeight qc coreHeight of
        Inl e \<Rightarrow> (Inl e, v)
      | Inr sml \<Rightarrow>
          if height mod ROTATION_BLOCK_INTERVAL \<noteq> 0 then (Inr False, v)
          else (case switchToRandomQuorum qc llmqType sml rotationEntropy v of
                  (Some e, v') \<Rightarrow> (Inl e, v')
                | (None, v') \<Rightarrow> (Inr True, v')))"

record validator_update =
  vu_power :: int
  vu_proTxHash :: buffer
  vu_pubKey :: "buffer option"

record validator_set_update =
  vsu_validatorUpdates :: "validator_update list"
  vsu_thresholdPublicKey :: buffer
  vsu_quorumHash :: buffer

definition createValidatorSetUpdate :: "validator_set \<Rightarrow> dpp_error + validator_set_update" where
  "createValidatorSetUpdate v =
     rbind (ValidatorSet_getValidators v) (\<lambda>validators.
     let validatorUpdates = map (\<lambda>x. \<lparr>vu_power = DEFAULT_DASH_VOTING_POWER, vu_proTxHash = vl_proTxHash x,
                                     vu_pubKey = vl_pubKeyShare x\<rparr>) validators
     in rbind (ValidatorSet_getQuorum v) (\<lambda>q.
       Inr \<lparr>vsu_validatorUpdates = validatorUpdates,
            vsu_thresholdPublicKey = hex_decode (qr_quorumPublicKey q),
            vsu_quorumHash = hex_decode (qr_quorumHash q)\<rparr>))"

lemma createFromQuorumMember_Inr:
  "Validator_createFromQuorumMember m required = Inr x \<Longrightarrow>
   vl_proTxHash x = hex_decode (mb_proTxHash m) \<and> (required \<longrightarrow> vl_pubKeyShare x \<noteq> None)"
  by (auto simp: Validator_createFromQuorumMember_def split: option.splits list.splits if_splits)

lemma rmap_created:
  "rmap (\<lambda>m. Validator_createFromQuorumMember m required) ms = Inr xs \<Longrightarrow>
   map vl_proTxHash xs = map (\<lambda>m. hex_decode (mb_proTxHash m)) ms \<and>
   (required \<longrightarrow> (\<forall>x \<in> set xs. vl_pubKeyShare x \<noteq> None))"
  by (induction ms arbitrary: xs) (auto simp: rbind_eq_Inr_iff dest: createFromQuorumMember_Inr)

text \<open>An update of Tendermint's validators that is the one of the quorum of an entropy.\<close>

definition update_of_quorum :: "'sml quorum_calls \<Rightarrow> int \<Rightarrow> 'sml \<Rightarrow> buffer \<Rightarrow> validator_set_update \<Rightarrow> bool" where
  "update_of_quorum qc llmqType sml entropy update \<longleftrightarrow>
     (\<exists>quorum members own.
         getRandomQuorum qc sml llmqType entropy = Inr (Some quorum) \<and>
         fetchQuorumMembers qc llmqType (qr_quorumHash quorum) = Inr members \<and>
         own_proTxHash qc = Inr own \<and>
         vsu_quorumHash update = hex_decode (qr_quorumHash quorum) \<and>
         vsu_thresholdPublicKey update = hex_decode (qr_quorumPublicKey quorum) \<and>
         map vu_proTxHash (vsu_validatorUpdates update) =
           map (\<lambda>m. hex_decode (mb_proTxHash m)) (filter mb_valid members) \<and>
         (\<forall>x \<in> set (vsu_validatorUpdates update). vu_power x = 100) \<and>
         ((\<exists>m \<in> set members. mb_valid m \<and> own = Some (mb_proTxHash m)) \<longrightarrow>
            (\<forall>x \<in> set (vsu_validatorUpdates update). vu_pubKey x \<noteq> None)))"

lemma switched_update:
  assumes "switchToRandomQuorum qc llmqType sml entropy v = (None, v')"
    and upd: "createValidatorSetUpdate v' = Inr update"
  shows "update_of_quorum qc llmqType sml entropy update"
proof -
  from assms(1) obtain q validators where q: "getRandomQuorum qc sml llmqType entropy = Inr (Some q)"
    and validators: "validators_of qc llmqType q = Inr validators"
    and v': "v' = v\<lparr>vset_quorum := Some q, vset_validators := validators\<rparr>"
    by (auto simp: switchToRandomQuorum_def split: sum.split_asm option.split_asm)
  from validators obtain members own where members: "fetchQuorumMembers qc llmqType (qr_quorumHash q) = Inr members"
    and own: "own_proTxHash qc = Inr own"
    and created: "rmap (\<lambda>m. Validator_createFromQuorumMember m
        (find (\<lambda>m. mb_valid m \<and> Some (mb_proTxHash m) = own) members \<noteq> None)) (filter mb_valid members) =
        Inr validators"
    by (auto simp: validators_of_def rbind_eq_Inr_iff Let_def)
  have member: "find (\<lambda>m. mb_valid m \<and> Some (mb_proTxHash m) = own) members \<noteq> None"
    if "\<exists>m \<in> set members. mb_valid m \<and> own = Some (mb_proTxHash m)"
    using that by (auto simp: find_None_iff)
  have update: "update = \<lparr>vsu_validatorUpdates = map (\<lambda>x. \<lparr>vu_power = DEFAULT_DASH_VOTING_POWER,
        vu_proTxHash = vl_proTxHash x, vu_pubKey = vl_pubKeyShare x\<rparr>) validators,
      vsu_thresholdPublicKey = hex_decode (qr_quorumPublicKey q),
      vsu_quorumHash = hex_decode (qr_quorumHash q)\<rparr>"
    using upd by (auto simp: v' createValidatorSetUpdate_def ValidatorSet_getValidators_def
        ValidatorSet_getQuorum_def rbind_eq_Inr_iff Let_def split: if_split_asm)
  show ?thesis
    unfolding update_of_quorum_def
    using q members own rmap_created [OF created] member
    by (intro exI [of _ q] exI [of _ members] exI [of _ own])
       (simp add: update comp_def DEFAULT_DASH_VOTING_POWER_def)
qed

text \<open>
  A successful rotation happens at multiples of fifteen blocks only, and then the update
  for Tendermint is that of the quorum it chose: its hash and threshold key, and its valid
  members in their order with equal power; on a node that is one of them each comes with its
  key share. At other heights the set stays as it was.
\<close>

theorem rotation_updates_validators:
  assumes "ValidatorSet_rotate qc llmqType height coreHeight entropy v = (Inr rotated, v')"
    and "qc_getSMLbyHeight qc coreHeight = Inr sml"
  shows "rotated = (height mod 15 = 0) \<and> (\<not> rotated \<longrightarrow> v' = v) \<and>
    (rotated \<longrightarrow> createValidatorSetUpdate v' = Inr update \<longrightarrow>
       update_of_quorum qc llmqType sml entropy update)"
proof (cases "height mod ROTATION_BLOCK_INTERVAL = 0")
  case True
  with assms have "rotated" and "switchToRandomQuorum qc llmqType sml entropy v = (None, v')"
    by (auto simp: ValidatorSet_rotate_def split: prod.split_asm option.split_asm)
  with switched_update [OF this(2)] True show ?thesis
    by (auto simp: ROTATION_BLOCK_INTERVAL_def)
next
  case False
  with assms show ?thesis
    by (auto simp: ValidatorSet_rotate_def ROTATION_BLOCK_INTERVAL_def)
qed

definition sample_quorum :: "string \<Rightarrow> quorum" where
  "sample_quorum h = \<lparr>qr_quorumHash = h, qr_quorumPublicKey = ''0b''\<rparr>"

definition sample_quorum_calls :: "bool quorum_calls" where
  "sample_quorum_calls = \<lparr>qc_sha256 = (\<lambda>b. b), qc_getSMLbyHeight = Inr \<circ> (\<lambda>h. h > 5), qc_blockHash = (\<lambda>_. ''07''),
     qc_getQuorumsOfType = (\<lambda>rev _. map sample_quorum (if rev then [''02'', ''01''] else [''01'', ''02''])),
     qc_getQuorum = (\<lambda>_ _ h. Some (sample_quorum h)),
     qc_quorumInfo = (\<lambda>_ _. Inr [\<lparr>mb_proTxHash = ''0a'', mb_valid = True, mb_pubKeyShare = Some ''0c''\<rparr>,
        \<lparr>mb_proTxHash = ''0d'', mb_valid = False, mb_pubKeyShare = None\<rparr>]),
     qc_masternodeStatus = Inr ''0a''\<rparr>"

lemma sample_quorums_documented: "quorums_documented sample_quorum_calls sml 100"
  by (cases sml) (simp_all add: quorums_documented_def sample_quorum_calls_def sample_quorum_def
      hex_value_def hex_encode_def hex_digit_def upt_rec)

theorem getRandomQuorum_deterministic_witness:
  "getRandomQuorum sample_quorum_calls True 100 [9] = getRandomQuorum sample_quorum_calls False 100 [9]"
proof -
  have "inj_on (quorum_score sample_quorum_calls [9]) (set (qc_getQuorumsOfType sample_quorum_calls True 100))"
    by (simp add: sample_quorum_calls_def quorum_score_def sample_quorum_def hex_value_def upt_rec)
  then show ?thesis
    using getRandomQuorum_deterministic
      [OF sample_quorums_documented sample_quorums_documented, of True False "[9]"]
    by (auto simp: sample_quorum_calls_def insert_commute)
qed

theorem rotation_updates_validators_witness:
  "\<exists>v' update. ValidatorSet_rotate sample_quorum_calls 100 30 6 [9] new_ValidatorSet = (Inr True, v') \<and>
     createValidatorSetUpdate v' = Inr update \<and> update_of_quorum sample_quorum_calls 100 True [9] update"
proof -
  have run: "ValidatorSet_rotate sample_quorum_calls 100 30 6 [9] new_ValidatorSet =
      (Inr True, \<lparr>vset_quorum = Some (sample_quorum ''01''),
        vset_validators = [\<lparr>vl_proTxHash = [10], vl_pubKeyShare = Some [12]\<rparr>]\<rparr>)"
    by code_simp
  have upd: "createValidatorSetUpdate \<lparr>vset_quorum = Some (sample_quorum ''01''),
        vset_validators = [\<lparr>vl_proTxHash = [10], vl_pubKeyShare = Some [12]\<rparr>]\<rparr> =
      Inr \<lparr>vsu_validatorUpdates = [\<lparr>vu_power = 100, vu_proTxHash = [10], vu_pubKey = Some [12]\<rparr>],
           vsu_thresholdPublicKey = [11], vsu_quorumHash = [1]\<rparr>"
    by code_simp
  have "qc_getSMLbyHeight sample_quorum_calls 6 = Inr True"
    by (simp add: sample_quorum_calls_def)
  from rotation_updates_validators [OF run this] run upd show ?thesis by auto
qed

end
