(* ===== verification/AbciHandlers.thy ===== *)
theory AbciHandlers
  imports DeliverTx Validators DocumentQuery
begin

text \<open>
  The block handlers of js-drive (\<open>lib/abci/handlers\<close>): initChain, info, beginBlock, endBlock and
  commit, with the feature flags they read (\<open>lib/featureFlag\<close>). The node is the state of the
  container's singletons. Disk, MongoDB and Core are parameters of the configuration; a call that
  fails leaves its error, and the state is the one reached so far. \<open>None\<close> is a handler that waits
  for an event that does not come.
\<close>

section \<open>Outcomes\<close>

definition obind :: "'e option \<times> 's \<Rightarrow> ('s \<Rightarrow> 'e option \<times> 's) \<Rightarrow> 'e option \<times> 's" where
  "obind m f = (case m of (Some e, s) \<Rightarrow> (Some e, s) | (None, s) \<Rightarrow> f s)"

definition attempt :: "'e option \<Rightarrow> 's \<Rightarrow> 'e option \<times> 's" where
  "attempt failure s = (failure, s)"

lemma obind_None: "obind m f = (None, s') \<longleftrightarrow> (\<exists>s. m = (None, s) \<and> f s = (None, s'))"
  by (cases m) (auto simp: obind_def split: option.splits)

lemma attempt_None: "attempt failure s = (None, s') \<longleftrightarrow> failure = None \<and> s' = s"
  by (auto simp: attempt_def)

section \<open>The stores of a node and their transactions\<close>

text \<open>What the transactions hold: the writes of the stores of identities, public keys, contracts,
  documents, outpoints and of the common store.\<close>

record snapshot =
  sn_identities :: "(buffer \<times> identity option) list"
  sn_publicKeyIds :: "(buffer \<times> ident option) list"
  sn_dataContracts :: "(buffer \<times> data_contract option) list"
  sn_documents :: "(buffer \<times> document option) list"
  sn_spentOutPoints :: "(buffer \<times> buffer option) list"
  sn_common :: "(buffer \<times> credits_distribution_pool option) list"

record chain_stores =
  cs_state :: drive_state
  cs_common :: "credits_distribution_pool vstore"
  cs_isStarted :: bool

definition stores_toObject :: "chain_stores \<Rightarrow> snapshot" where
  "stores_toObject c =
     \<lparr>sn_identities = vs_tx (ds_identities (cs_state c)),
      sn_publicKeyIds = vs_tx (ds_publicKeyIds (cs_state c)),
      sn_dataContracts = vs_tx (ds_dataContracts (cs_state c)),
      sn_documents = vs_tx (ds_documents (cs_state c)),
      sn_spentOutPoints = vs_tx (ds_spentOutPoints (cs_state c)),
      sn_common = vs_tx (cs_common c)\<rparr>"

definition stores_populate :: "snapshot \<Rightarrow> chain_stores \<Rightarrow> chain_stores" where
  "stores_populate w c = c\<lparr>
     cs_state := (cs_state c)\<lparr>
        ds_identities := (ds_identities (cs_state c))\<lparr>vs_tx := sn_identities w\<rparr>,
        ds_publicKeyIds := (ds_publicKeyIds (cs_state c))\<lparr>vs_tx := sn_publicKeyIds w\<rparr>,
        ds_dataContracts := (ds_dataContracts (cs_state c))\<lparr>vs_tx := sn_dataContracts w\<rparr>,
        ds_documents := (ds_documents (cs_state c))\<lparr>vs_tx := sn_documents w\<rparr>,
        ds_spentOutPoints := (ds_spentOutPoints (cs_state c))\<lparr>vs_tx := sn_spentOutPoints w\<rparr>\<rparr>,
     cs_common := (cs_common c)\<lparr>vs_tx := sn_common w\<rparr>\<rparr>"

definition empty_snapshot :: snapshot where
  "empty_snapshot = \<lparr>sn_identities = [], sn_publicKeyIds = [], sn_dataContracts = [], sn_documents = [],
     sn_spentOutPoints = [], sn_common = []\<rparr>"

definition stores_clear :: "chain_stores \<Rightarrow> chain_stores" where
  "stores_clear c = stores_populate empty_snapshot c"

definition stores_publish :: "chain_stores \<Rightarrow> chain_stores" where
  "stores_publish c = c\<lparr>
     cs_state := (cs_state c)\<lparr>
        ds_identities := vstore_commit (ds_identities (cs_state c)),
        ds_publicKeyIds := vstore_commit (ds_publicKeyIds (cs_state c)),
        ds_dataContracts := vstore_commit (ds_dataContracts (cs_state c)),
        ds_documents := vstore_commit (ds_documents (cs_state c)),
        ds_spentOutPoints := vstore_commit (ds_spentOutPoints (cs_state c))\<rparr>,
     cs_common := vstore_commit (cs_common c)\<rparr>"

text \<open>\<open>BlockExecutionStoreTransactions\<close> on these stores, when no store fails.\<close>

definition stores_start :: "chain_stores \<Rightarrow> dpp_error + chain_stores" where
  "stores_start c =
     (if cs_isStarted c then Inl (Repository BlockExecutionStoreTransactionIsAlreadyStartedError)
      else Inr ((stores_clear c)\<lparr>cs_isStarted := True\<rparr>))"

definition stores_commit :: "chain_stores \<Rightarrow> dpp_error + chain_stores" where
  "stores_commit c =
     (if \<not> cs_isStarted c then Inl (Repository BlockExecutionStoreTransactionIsNotStartedError)
      else Inr ((stores_publish c)\<lparr>cs_isStarted := False\<rparr>))"

definition stores_abort :: "chain_stores \<Rightarrow> dpp_error + chain_stores" where
  "stores_abort c =
     (if \<not> cs_isStarted c then Inl (Repository BlockExecutionStoreTransactionIsNotStartedError)
      else Inr ((stores_clear c)\<lparr>cs_isStarted := False\<rparr>))"

interpretation chain_tx: tx_protocol cs_isStarted stores_start stores_commit stores_abort
    "Repository BlockExecutionStoreTransactionIsAlreadyStartedError"
    "Repository BlockExecutionStoreTransactionIsNotStartedError"
  by unfold_locales (auto simp: stores_start_def stores_commit_def stores_abort_def split: if_splits)

text \<open>What can be read of the stores, inside and outside the transaction.\<close>

definition stores_view :: "bool \<Rightarrow> chain_stores \<Rightarrow>
  (ident \<Rightarrow> identity option) \<times> (buffer \<Rightarrow> ident option) \<times> (ident \<Rightarrow> data_contract option) \<times>
  (buffer \<Rightarrow> document option) \<times> (buffer \<Rightarrow> buffer option) \<times> (buffer \<Rightarrow> credits_distribution_pool option)" where
  "stores_view tx c =
     (vstore_get tx (ds_identities (cs_state c)), vstore_get tx (ds_publicKeyIds (cs_state c)),
      vstore_get tx (ds_dataContracts (cs_state c)), vstore_get tx (ds_documents (cs_state c)),
      vstore_get tx (ds_spentOutPoints (cs_state c)), vstore_get tx (cs_common c))"

lemma vstore_get_cleared: "vstore_get True (v\<lparr>vs_tx := []\<rparr>) = vstore_get False v"
  by (simp add: fun_eq_iff vstore_get_def)

lemma vstore_get_committed: "vstore_get False (v\<lparr>vs_tx := t\<rparr>) = vstore_get False v"
  by (simp add: fun_eq_iff vstore_get_def)

lemma stores_view_simps:
  "stores_view False (stores_publish c) = stores_view True c"
  "stores_view False (stores_populate w c) = stores_view False c"
  "stores_view True (stores_clear c) = stores_view False c"
  "stores_view False (stores_clear c) = stores_view False c"
  "stores_view tx (c\<lparr>cs_isStarted := b\<rparr>) = stores_view tx c"
  by (simp_all add: stores_view_def stores_publish_def stores_populate_def stores_clear_def
      empty_snapshot_def fun_eq_iff vstore_commit_view vstore_get_cleared vstore_get_committed)

text \<open>The same writes on stores that look the same give stores that look the same.\<close>

lemma vstore_get_overlay:
  "vstore_get False u = vstore_get False v \<Longrightarrow> vs_tx v = t \<Longrightarrow>
   vstore_get True (u\<lparr>vs_tx := t\<rparr>) = vstore_get True v"
  by (simp add: fun_eq_iff vstore_get_def split: option.splits)

lemma stores_view_replay:
  "stores_view False p = stores_view False c \<Longrightarrow>
   stores_view True (stores_populate (stores_toObject c) p) = stores_view True c"
  by (simp add: stores_view_def stores_populate_def stores_toObject_def vstore_get_overlay)

section \<open>Feature flags\<close>

type_synonym flag_fetch = "drive_state \<Rightarrow> ident \<Rightarrow> string \<Rightarrow> query \<Rightarrow> dpp_error + document list"

definition document_get :: "document \<Rightarrow> string \<Rightarrow> js" where
  "document_get d name = (case map_of (doc_data d) name of None \<Rightarrow> JUndefined | Some v \<Rightarrow> v)"

definition getFeatureFlagForHeight ::
  "ident option \<Rightarrow> flag_fetch \<Rightarrow> drive_state \<Rightarrow> string \<Rightarrow> int \<Rightarrow> dpp_error + document option" where
  "getFeatureFlagForHeight featureFlagDataContractId F s flagType blockHeight =
     (case featureFlagDataContractId of
        None \<Rightarrow> Inr None
      | Some cid \<Rightarrow>
          rbind (F s cid flagType \<lparr>q_where = Some [cond_js (''enableAtHeight'', ''=='', JNum blockHeight)],
                   q_orderBy = None, q_limit = None, q_startAt = None, q_startAfter = None\<rparr>) (\<lambda>documents.
            Inr (case documents of [] \<Rightarrow> None | d # _ \<Rightarrow> Some d)))"

definition getLatestFeatureFlag ::
  "ident option \<Rightarrow> int \<Rightarrow> flag_fetch \<Rightarrow> drive_state \<Rightarrow> string \<Rightarrow> int \<Rightarrow> dpp_error + document option" where
  "getLatestFeatureFlag featureFlagDataContractId featureFlagDataContractBlockHeight F s flagType blockHeight =
     (case featureFlagDataContractId of
        None \<Rightarrow> Inr None
      | Some cid \<Rightarrow>
          if blockHeight \<le> featureFlagDataContractBlockHeight then Inr None
          else
            rbind (F s cid flagType \<lparr>q_where = Some [cond_js (''enableAtHeight'', ''<='', JNum blockHeight)],
                     q_orderBy = Some [(''enableAtHeight'', ''desc'')], q_limit = Some 1, q_startAt = None,
                     q_startAfter = None\<rparr>) (\<lambda>documents.
              Inr (case documents of [] \<Rightarrow> None | d # _ \<Rightarrow> Some d)))"

section \<open>The node\<close>

record io_failures =
  io_createDatabase :: "data_contract \<Rightarrow> dpp_error option"
  io_dropDatabase :: "data_contract \<Rightarrow> dpp_error option"
  io_storePool :: "dpp_error option"
  io_clone :: "dpp_error option"
  io_start :: "dpp_error option"
  io_commit :: "(dpp_error \<times> chain_stores) option"
  io_abort :: "(dpp_error \<times> chain_stores) option"
  io_storeContext :: "buffer \<Rightarrow> dpp_error option"
  io_createPreviousDatabase :: "data_contract \<Rightarrow> dpp_error option"
  io_populatePrevious :: "dpp_error option"
  io_commitPrevious :: "(dpp_error \<times> chain_stores) option"
  io_storePreviousFile :: "drive_error option"

record ('d, 'sml) node_config =
  nc_latestProtocolVersion :: int
  nc_initialCoreChainLockedHeight :: int
  nc_smlMaxListsLimit :: int
  nc_protx :: "int \<Rightarrow> int \<Rightarrow> dpp_error + 'd"
  nc_quorums :: "'d sml \<Rightarrow> 'sml quorum_calls"
  nc_llmqType :: int
  nc_dpnsContractId :: "ident option"
  nc_dpnsContractBlockHeight :: int
  nc_dashpayContractId :: "ident option"
  nc_dashpayContractBlockHeight :: int
  nc_featureFlagContractId :: "ident option"
  nc_featureFlagContractBlockHeight :: int
  nc_fetchFlags :: flag_fetch
  nc_encodeContext :: "context_object \<Rightarrow> buffer"
  nc_decodeContext :: "buffer \<Rightarrow> dpp_error + context_object"
  nc_rootHash :: "chain_stores \<Rightarrow> buffer"
  nc_io :: io_failures

record 'd node =
  nd_stores :: chain_stores
  nd_pool :: credits_distribution_pool
  nd_context :: block_execution_context
  nd_previousContext :: block_execution_context
  nd_contextDb :: level_db
  nd_databases :: "ident list"
  nd_rootTree :: buffer
  nd_previousStores :: chain_stores
  nd_previousTransactions :: "snapshot option"
  nd_previousDatabases :: "ident list"
  nd_previousFile :: "snapshot option"
  nd_previousRootTree :: buffer
  nd_latestChainLock :: latest_chain_lock
  nd_sml :: "'d sml_updater"
  nd_validatorSet :: validator_set
  nd_protocolVersion :: "int option"

definition node_updateSml ::
  "('d, 'sml) node_config \<Rightarrow> int \<Rightarrow> 'd node \<Rightarrow> dpp_error option \<times> 'd node" where
  "node_updateSml cfg coreHeight n =
     (let (e, u) = updateSimplifiedMasternodeList (nc_protx cfg) (nc_smlMaxListsLimit cfg) coreHeight (nd_sml n)
      in (e, n\<lparr>nd_sml := u\<rparr>))"

definition node_quorums :: "('d, 'sml) node_config \<Rightarrow> 'd node \<Rightarrow> 'sml quorum_calls" where
  "node_quorums cfg n = nc_quorums cfg (su_store (nd_sml n))"

text \<open>What the stores have committed, as a new process finds it; the root tree hashes that.\<close>

definition committed_stores :: "chain_stores \<Rightarrow> chain_stores" where
  "committed_stores c =
     \<lparr>cs_state = (cs_state (stores_clear c))\<lparr>ds_header := None\<rparr>, cs_common = cs_common (stores_clear c),
      cs_isStarted = False\<rparr>"

definition root_hash :: "('d, 'sml) node_config \<Rightarrow> chain_stores \<Rightarrow> buffer" where
  "root_hash cfg c = nc_rootHash cfg (committed_stores c)"

section \<open>initChain\<close>

definition initChainHandler ::
  "('d, 'sml) node_config \<Rightarrow> 'd node \<Rightarrow> (dpp_error + validator_set_update) \<times> 'd node" where
  "initChainHandler cfg n =
     (case node_updateSml cfg (nc_initialCoreChainLockedHeight cfg) n of
        (Some e, n) \<Rightarrow> (Inl e, n)
      | (None, n) \<Rightarrow>
          (let (e, v) = ValidatorSet_initialize (node_quorums cfg n) (nc_llmqType cfg)
                          (nc_initialCoreChainLockedHeight cfg) (nd_validatorSet n);
               n = n\<lparr>nd_validatorSet := v\<rparr>
           in case e of
                Some e \<Rightarrow> (Inl e, n)
              | None \<Rightarrow> (rbind (ValidatorSet_getQuorum v) (\<lambda>_. createValidatorSetUpdate v), n)))"

section \<open>beginBlock\<close>

definition node_abort :: "('d, 'sml) node_config \<Rightarrow> 'd node \<Rightarrow> dpp_error option \<times> 'd node" where
  "node_abort cfg n =
     (case io_abort (nc_io cfg) of
        Some (e, c) \<Rightarrow> (Some e, n\<lparr>nd_stores := c\<rparr>)
      | None \<Rightarrow>
          (case stores_abort (nd_stores n) of
             Inl e \<Rightarrow> (Some e, n)
           | Inr c \<Rightarrow> (None, n\<lparr>nd_stores := c\<rparr>)))"

definition node_start :: "('d, 'sml) node_config \<Rightarrow> 'd node \<Rightarrow> dpp_error option \<times> 'd node" where
  "node_start cfg n =
     (case stores_start (nd_stores n) of
        Inl e \<Rightarrow> (Some e, n)
      | Inr c \<Rightarrow>
          (case io_start (nc_io cfg) of
             Some e \<Rightarrow> (Some e, n)
           | None \<Rightarrow> (None, n\<lparr>nd_stores := c\<rparr>)))"

definition beginBlockHandler ::
  "('d, 'sml) node_config \<Rightarrow> block_header \<Rightarrow> last_commit_info \<Rightarrow> chain_lock list \<Rightarrow> 'd node \<Rightarrow>
   (dpp_error option \<times> 'd node) option" where
  "beginBlockHandler cfg header lastCommitInfo updates n =
     (if hd_app_version header = 0 then Some (Some NetworkProtocolVersionIsNotSetError, n)
      else if hd_app_version header > nc_latestProtocolVersion cfg then
        Some (Some (NotSupportedNetworkProtocolVersionError (hd_app_version header) (nc_latestProtocolVersion cfg)), n)
      else
        let previousContext = BlockExecutionContext_populate (nd_context n)
                                (BlockExecutionContext_reset (nd_previousContext n));
            context = setConsensusLogger ''beginBlock'' (BlockExecutionContext_reset (nd_context n));
            n = n\<lparr>nd_previousContext := previousContext,
                  nd_context := context\<lparr>bc_header := Some header, bc_lastCommitInfo := Some lastCommitInfo\<rparr>\<rparr>
        in case waitForChainLockedHeight (hd_coreChainLockedHeight header) (nd_latestChainLock n) updates of
             None \<Rightarrow> None
           | Some (Inl e) \<Rightarrow> Some (Some e, n)
           | Some (Inr (latest, _)) \<Rightarrow>
               Some (obind (node_updateSml cfg (hd_coreChainLockedHeight header) (n\<lparr>nd_latestChainLock := latest\<rparr>)) (\<lambda>n.
                     obind (if cs_isStarted (nd_stores n) then node_abort cfg n else (None, n)) (\<lambda>n.
                     obind (node_start cfg n) (\<lambda>n.
                       (None, n\<lparr>nd_protocolVersion := Some (hd_app_version header)\<rparr>))))))"

section \<open>endBlock\<close>

text \<open>The height is a \<open>Long\<close> and the configured one a number: \<open>===\<close> of an object and a number.\<close>

definition strictly_equal :: "js \<Rightarrow> js \<Rightarrow> bool" where
  "strictly_equal a b \<longleftrightarrow>
     (case (a, b) of
        (JNum x, JNum y) \<Rightarrow> x = y
      | (JStr x, JStr y) \<Rightarrow> x = y
      | (JBool x, JBool y) \<Rightarrow> x = y
      | (JNull, JNull) \<Rightarrow> True
      | (JUndefined, JUndefined) \<Rightarrow> True
      | _ \<Rightarrow> False)"

definition Long :: "int \<Rightarrow> js" where
  "Long n = JObj [(''low'', JNum ((n + 2 ^ 31) mod 2 ^ 32 - 2 ^ 31)), (''high'', JNum (n div 2 ^ 32)), (''unsigned'', JBool False)]"

definition missing_system_contract ::
  "ident option \<Rightarrow> int \<Rightarrow> int \<Rightarrow> block_execution_context \<Rightarrow> bool" where
  "missing_system_contract contractId contractBlockHeight height ctx \<longleftrightarrow>
     (case contractId of
        None \<Rightarrow> False
      | Some i \<Rightarrow> strictly_equal (Long height) (JNum contractBlockHeight) \<and> \<not> hasDataContract ctx i)"

record response_end_block =
  re_consensusParamUpdates :: "(js \<times> js \<times> js) option"
  re_validatorSetUpdate :: "validator_set_update option"
  re_nextCoreChainLockUpdate :: "chain_lock option"

definition rotate_validators ::
  "('d, 'sml) node_config \<Rightarrow> int \<Rightarrow> 'd node \<Rightarrow> (dpp_error + validator_set_update option) \<times> 'd node" where
  "rotate_validators cfg height n =
     (case (bc_lastCommitInfo (nd_context n), nd_latestChainLock n) of
        (Some info, Some coreChainLock) \<Rightarrow>
          (case ValidatorSet_rotate (node_quorums cfg n) (nc_llmqType cfg) height (cl_height coreChainLock)
                  (lc_stateSignature info) (nd_validatorSet n) of
             (Inl e, v) \<Rightarrow> (Inl e, n\<lparr>nd_validatorSet := v\<rparr>)
           | (Inr rotated, v) \<Rightarrow>
               (if rotated then rbind (createValidatorSetUpdate v) (\<lambda>u. Inr (Some u)) else Inr None,
                n\<lparr>nd_validatorSet := v\<rparr>))
      | _ \<Rightarrow> (Inl JsTypeError, n))"

text \<open>\<open>appVersion\<close> is the version of the header unless the flag carries one.\<close>

definition consensus_params :: "block_header \<Rightarrow> document \<Rightarrow> js \<times> js \<times> js" where
  "consensus_params header flag =
     (let version = document_get flag ''version'' in
      (document_get flag ''block'', document_get flag ''evidence'',
       if js_truthy version then version else JObj [(''appVersion'', Long (hd_app_version header))]))"

definition endBlockHandler ::
  "('d, 'sml) node_config \<Rightarrow> int \<Rightarrow> 'd node \<Rightarrow> (dpp_error + response_end_block) \<times> 'd node" where
  "endBlockHandler cfg height n =
     (let n = n\<lparr>nd_context := setConsensusLogger ''endBlock'' (nd_context n)\<rparr>; ctx = nd_context n in
      if missing_system_contract (nc_dpnsContractId cfg) (nc_dpnsContractBlockHeight cfg) height ctx then
        (Inl (NoDPNSContractFoundError (the (nc_dpnsContractId cfg)) (nc_dpnsContractBlockHeight cfg)), n)
      else if missing_system_contract (nc_dashpayContractId cfg) (nc_dashpayContractBlockHeight cfg) height ctx then
        (Inl (NoDashpayContractFoundError (the (nc_dashpayContractId cfg)) (nc_dashpayContractBlockHeight cfg)), n)
      else
        (case rotate_validators cfg height n of
           (Inl e, n) \<Rightarrow> (Inl e, n)
         | (Inr validatorSetUpdate, n) \<Rightarrow>
             (case bc_header ctx of
                None \<Rightarrow> (Inl JsTypeError, n)
              | Some header \<Rightarrow>
                  (rbind (getFeatureFlagForHeight (nc_featureFlagContractId cfg) (nc_fetchFlags cfg)
                            (cs_state (nd_stores n)) ''updateConsensusParams'' height) (\<lambda>flag.
                     Inr \<lparr>re_consensusParamUpdates = map_option (consensus_params header) flag,
                          re_validatorSetUpdate = validatorSetUpdate,
                          re_nextCoreChainLockUpdate =
                            (case nd_latestChainLock n of
                               None \<Rightarrow> None
                             | Some l \<Rightarrow> if cl_height l > hd_coreChainLockedHeight header then Some l else None)\<rparr>),
                   n))))"

section \<open>commit\<close>

fun create_databases :: "(data_contract \<Rightarrow> dpp_error option) \<Rightarrow> data_contract list \<Rightarrow> ident list \<Rightarrow>
  dpp_error option \<times> ident list" where
  "create_databases failure [] dbs = (None, dbs)"
| "create_databases failure (c # cs) dbs =
     (case failure c of
        Some e \<Rightarrow> (Some e, dbs)
      | None \<Rightarrow> create_databases failure cs (List.insert (dc_id c) dbs))"

fun drop_databases :: "(data_contract \<Rightarrow> dpp_error option) \<Rightarrow> data_contract list \<Rightarrow> ident list \<Rightarrow>
  dpp_error option \<times> ident list" where
  "drop_databases failure [] dbs = (None, dbs)"
| "drop_databases failure (c # cs) dbs =
     (case failure c of
        Some e \<Rightarrow> (Some e, dbs)
      | None \<Rightarrow> drop_databases failure cs (removeAll (dc_id c) dbs))"

definition set_databases :: "'d node \<Rightarrow> dpp_error option \<times> ident list \<Rightarrow> dpp_error option \<times> 'd node" where
  "set_databases n r = (fst r, n\<lparr>nd_databases := snd r\<rparr>)"

definition update_pool :: "document option \<Rightarrow> int \<Rightarrow> credits_distribution_pool \<Rightarrow> credits_distribution_pool" where
  "update_pool flag fees pool =
     (case flag of
        Some d \<Rightarrow> if js_truthy (document_get d ''enabled'') then CreditsDistributionPool_incrementAmount fees pool
                  else CreditsDistributionPool_setAmount fees pool
      | None \<Rightarrow> CreditsDistributionPool_setAmount fees pool)"

definition store_pool :: "('d, 'sml) node_config \<Rightarrow> 'd node \<Rightarrow> dpp_error option \<times> 'd node" where
  "store_pool cfg n =
     (case io_storePool (nc_io cfg) of
        Some e \<Rightarrow> (Some e, n)
      | None \<Rightarrow> (None, n\<lparr>nd_stores := (nd_stores n)\<lparr>cs_common :=
                    vstore_put True (cs_common (nd_stores n)) POOL_KEY_NAME (nd_pool n)\<rparr>\<rparr>))"

definition node_commit :: "('d, 'sml) node_config \<Rightarrow> 'd node \<Rightarrow> dpp_error option \<times> 'd node" where
  "node_commit cfg n =
     (case io_commit (nc_io cfg) of
        Some (e, c) \<Rightarrow> (Some e, n\<lparr>nd_stores := c\<rparr>)
      | None \<Rightarrow>
          (case stores_commit (nd_stores n) of
             Inl e \<Rightarrow> (Some e, n)
           | Inr c \<Rightarrow> (None, n\<lparr>nd_stores := c\<rparr>)))"

definition store_context ::
  "('d, 'sml) node_config \<Rightarrow> buffer \<Rightarrow> block_execution_context \<Rightarrow> 'd node \<Rightarrow> dpp_error option \<times> 'd node" where
  "store_context cfg keyPrefix ctx n =
     (case io_storeContext (nc_io cfg) keyPrefix of
        Some e \<Rightarrow> (Some e, n)
      | None \<Rightarrow>
          (case BlockExecutionContextRepository_store (nc_encodeContext cfg) keyPrefix ctx (nd_contextDb n) of
             Inl e \<Rightarrow> (Some e, n)
           | Inr db \<Rightarrow> (None, n\<lparr>nd_contextDb := db\<rparr>)))"

text \<open>The \<open>try\<close> block, with the transactions cloned for the previous stores.\<close>

definition commit_block ::
  "('d, 'sml) node_config \<Rightarrow> int \<Rightarrow> 'd node \<Rightarrow> dpp_error option \<times> 'd node \<times> snapshot" where
  "commit_block cfg blockHeight n =
     (case obind (set_databases n (create_databases (io_createDatabase (nc_io cfg))
                                     (bc_dataContracts (nd_context n)) (nd_databases n))) (\<lambda>n.
             case getLatestFeatureFlag (nc_featureFlagContractId cfg) (nc_featureFlagContractBlockHeight cfg)
                    (nc_fetchFlags cfg) (cs_state (nd_stores n)) ''fixCumulativeFeesBug'' blockHeight of
               Inl e \<Rightarrow> (Some e, n)
             | Inr flag \<Rightarrow>
                 obind (store_pool cfg (n\<lparr>nd_pool := update_pool flag (bc_cumulativeFees (nd_context n)) (nd_pool n)\<rparr>))
                   (\<lambda>n. attempt (io_clone (nc_io cfg)) n)) of
        (Some e, n) \<Rightarrow> (Some e, n, empty_snapshot)
      | (None, n) \<Rightarrow>
          (let (e, n') = obind (node_commit cfg n) (\<lambda>n.
                 obind (store_context cfg KEY_PREFIX_CURRENT (nd_context n) n) (\<lambda>n.
                   if BlockExecutionContext_isEmpty (nd_previousContext n) then (None, n)
                   else store_context cfg KEY_PREFIX_PREVIOUS (nd_previousContext n) n))
           in (e, n', stores_toObject (nd_stores n))))"

text \<open>The \<open>catch\<close> block: what it throws is the error of the abort or of a drop, or \<open>e\<close>.\<close>

definition commit_failed :: "('d, 'sml) node_config \<Rightarrow> dpp_error \<Rightarrow> 'd node \<Rightarrow> dpp_error option \<times> 'd node" where
  "commit_failed cfg e n =
     obind (if cs_isStarted (nd_stores n) then node_abort cfg n else (None, n)) (\<lambda>n.
     obind (set_databases n (drop_databases (io_dropDatabase (nc_io cfg))
                               (bc_dataContracts (nd_context n)) (nd_databases n))) (\<lambda>n.
       (Some e, n)))"

definition commit_previous :: "('d, 'sml) node_config \<Rightarrow> 'd node \<Rightarrow> dpp_error option \<times> 'd node" where
  "commit_previous cfg n =
     (case nd_previousTransactions n of
        None \<Rightarrow> (None, n)
      | Some writes \<Rightarrow>
          obind (let (e, dbs) = create_databases (io_createPreviousDatabase (nc_io cfg))
                       (List.map_filter snd (sn_dataContracts writes)) (nd_previousDatabases n)
                 in (e, n\<lparr>nd_previousDatabases := dbs\<rparr>)) (\<lambda>n.
          obind (attempt (io_populatePrevious (nc_io cfg)) n) (\<lambda>n.
            case io_commitPrevious (nc_io cfg) of
              Some (e, c) \<Rightarrow> (Some e, n\<lparr>nd_previousStores := c\<rparr>)
            | None \<Rightarrow>
                (let c = stores_publish (stores_populate writes (nd_previousStores n))
                 in (None, n\<lparr>nd_previousStores := c, nd_previousRootTree := root_hash cfg c\<rparr>)))))"

definition commitHandler :: "('d, 'sml) node_config \<Rightarrow> 'd node \<Rightarrow> (dpp_error + buffer) \<times> 'd node" where
  "commitHandler cfg n =
     (case bc_header (nd_context n) of
        None \<Rightarrow> (Inl JsTypeError, n)
      | Some header \<Rightarrow>
          (case commit_block cfg (hd_height header) (n\<lparr>nd_context := setConsensusLogger ''commit'' (nd_context n)\<rparr>) of
             (Some e, n, _) \<Rightarrow>
               (case commit_failed cfg e n of (Some e, n) \<Rightarrow> (Inl e, n) | (None, n) \<Rightarrow> (Inl e, n))
           | (None, n, writes) \<Rightarrow>
               (case commit_previous cfg (n\<lparr>nd_rootTree := root_hash cfg (nd_stores n)\<rparr>) of
                  (Some e, n) \<Rightarrow> (Inl e, n)
                | (None, n) \<Rightarrow>
                    (let n = n\<lparr>nd_previousTransactions := Some writes\<rparr> in
                     case io_storePreviousFile (nc_io cfg) of
                       Some e \<Rightarrow> (Inl (DataCorruptedError e), n)
                     | None \<Rightarrow> (Inr (nd_rootTree n), n\<lparr>nd_previousFile := Some writes\<rparr>)))))"

section \<open>Starting and info\<close>

text \<open>
  \<open>scripts/abci.js\<close>: a process starts from what the last one persisted. The singletons are new,
  the contexts and the pool are fetched from their repositories.
\<close>

definition start_node :: "('d, 'sml) node_config \<Rightarrow> 'd node \<Rightarrow> dpp_error + 'd node" where
  "start_node cfg n =
     rbind (BlockExecutionContextRepository_fetch (nc_decodeContext cfg) KEY_PREFIX_CURRENT (nd_contextDb n)) (\<lambda>current.
     rbind (BlockExecutionContextRepository_fetch (nc_decodeContext cfg) KEY_PREFIX_PREVIOUS (nd_contextDb n)) (\<lambda>previous.
       Inr \<lparr>nd_stores = committed_stores (nd_stores n),
            nd_pool = (case vstore_get False (cs_common (nd_stores n)) POOL_KEY_NAME of
                         None \<Rightarrow> new_CreditsDistributionPool | Some p \<Rightarrow> p),
            nd_context = BlockExecutionContext_populate current new_BlockExecutionContext,
            nd_previousContext = BlockExecutionContext_populate previous new_BlockExecutionContext,
            nd_contextDb = nd_contextDb n,
            nd_databases = nd_databases n,
            nd_rootTree = root_hash cfg (nd_stores n),
            nd_previousStores = committed_stores (nd_previousStores n),
            nd_previousTransactions = None,
            nd_previousDatabases = nd_previousDatabases n,
            nd_previousFile = nd_previousFile n,
            nd_previousRootTree = root_hash cfg (nd_previousStores n),
            nd_latestChainLock = None,
            nd_sml = new_sml_updater,
            nd_validatorSet = new_ValidatorSet,
            nd_protocolVersion = None\<rparr>))"

record response_info =
  ri_lastBlockHeight :: int
  ri_lastBlockAppHash :: buffer
  ri_lastCoreChainLockedHeight :: int

definition infoHandler :: "('d, 'sml) node_config \<Rightarrow> 'd node \<Rightarrow> (dpp_error + response_info) \<times> 'd node" where
  "infoHandler cfg n =
     (case bc_header (nd_context n) of
        None \<Rightarrow> (Inr \<lparr>ri_lastBlockHeight = 0, ri_lastBlockAppHash = nd_rootTree n,
                      ri_lastCoreChainLockedHeight = 0\<rparr>, n)
      | Some lastHeader \<Rightarrow>
          (let (e, n) = obind
               (case nd_previousTransactions n of
                  Some _ \<Rightarrow> (None, n)
                | None \<Rightarrow>
                    (case nd_previousFile n of
                       None \<Rightarrow> (Some (Repository (Error ''ENOENT'')), n)
                     | Some writes \<Rightarrow> (None, n\<lparr>nd_previousTransactions := Some writes\<rparr>)))
               (node_updateSml cfg (hd_coreChainLockedHeight lastHeader))
           in case e of
                Some e \<Rightarrow> (Inl e, n)
              | None \<Rightarrow>
                  (Inr \<lparr>ri_lastBlockHeight = hd_height lastHeader, ri_lastBlockAppHash = nd_rootTree n,
                        ri_lastCoreChainLockedHeight = hd_coreChainLockedHeight lastHeader\<rparr>, n)))"

section \<open>What the handlers change\<close>

lemma stores_clear_again:
  "stores_clear ((stores_clear c)\<lparr>cs_isStarted := b\<rparr>) = (stores_clear c)\<lparr>cs_isStarted := b\<rparr>"
  by (simp add: stores_clear_def stores_populate_def)

lemma node_updateSml_changes:
  "node_updateSml cfg h n = (e, n') \<Longrightarrow> n' = n\<lparr>nd_sml := nd_sml n'\<rparr>"
  by (auto simp: node_updateSml_def split: prod.split_asm)

lemma populate_all: "BlockExecutionContext_populate source x = source"
  by (cases x, cases source) (simp add: BlockExecutionContext_populate_def)

lemma reset_all: "BlockExecutionContext_reset x = new_BlockExecutionContext"
  by (cases x) (simp add: BlockExecutionContext_reset_def new_BlockExecutionContext_def)

lemma node_abort_changes:
  "node_abort cfg n = (None, n') \<Longrightarrow>
   n' = n\<lparr>nd_stores := (stores_clear (nd_stores n))\<lparr>cs_isStarted := False\<rparr>\<rparr>"
  by (auto simp: node_abort_def stores_abort_def split: option.split_asm if_split_asm)

lemma node_start_changes:
  "node_start cfg n = (None, n') \<Longrightarrow>
   n' = n\<lparr>nd_stores := (stores_clear (nd_stores n))\<lparr>cs_isStarted := True\<rparr>\<rparr>"
  by (auto simp: node_start_def stores_start_def split: option.split_asm if_split_asm)

definition begun_context :: "block_header \<Rightarrow> last_commit_info \<Rightarrow> block_execution_context" where
  "begun_context header info = (setConsensusLogger ''beginBlock'' new_BlockExecutionContext)
     \<lparr>bc_header := Some header, bc_lastCommitInfo := Some info\<rparr>"

lemma beginBlock_changes:
  assumes "beginBlockHandler cfg header info updates n = Some (None, n')"
  shows "n' = n\<lparr>nd_stores := (stores_clear (nd_stores n))\<lparr>cs_isStarted := True\<rparr>,
      nd_context := begun_context header info,
      nd_previousContext := nd_context n, nd_latestChainLock := nd_latestChainLock n',
      nd_sml := nd_sml n', nd_protocolVersion := Some (hd_app_version header)\<rparr>"
proof -
  let ?n = "n\<lparr>nd_previousContext := nd_context n, nd_context := begun_context header info\<rparr>"
  from assms obtain latest rest where "obind (node_updateSml cfg (hd_coreChainLockedHeight header)
        (?n\<lparr>nd_latestChainLock := latest\<rparr>)) (\<lambda>n.
      obind (if cs_isStarted (nd_stores n) then node_abort cfg n else (None, n)) (\<lambda>n.
      obind (node_start cfg n) (\<lambda>n.
        (None, n\<lparr>nd_protocolVersion := Some (hd_app_version header)\<rparr>)))) = (None, n')"
    by (auto simp: beginBlockHandler_def Let_def populate_all reset_all begun_context_def
        split: if_split_asm option.split_asm sum.split_asm prod.split_asm)
  then obtain n1 n2 n3 where n1: "node_updateSml cfg (hd_coreChainLockedHeight header)
        (?n\<lparr>nd_latestChainLock := latest\<rparr>) = (None, n1)"
    and n2: "(if cs_isStarted (nd_stores n1) then node_abort cfg n1 else (None, n1)) = (None, n2)"
    and n3: "node_start cfg n2 = (None, n3)"
    and n': "n' = n3\<lparr>nd_protocolVersion := Some (hd_app_version header)\<rparr>"
    by (auto simp: obind_None simp del: split_paired_Ex)
  have "n2 = n1 \<or> n2 = n1\<lparr>nd_stores := (stores_clear (nd_stores n1))\<lparr>cs_isStarted := False\<rparr>\<rparr>"
    using n2 by (auto split: if_split_asm dest: node_abort_changes)
  then have "n3 = n1\<lparr>nd_stores := (stores_clear (nd_stores n1))\<lparr>cs_isStarted := True\<rparr>\<rparr>"
    using node_start_changes [OF n3] by (auto simp: stores_clear_again)
  moreover from node_updateSml_changes [OF n1] obtain u where
    "n1 = ?n\<lparr>nd_latestChainLock := latest, nd_sml := u\<rparr>" by blast
  ultimately show ?thesis
    using n' by simp
qed

lemma rotate_changes:
  "rotate_validators cfg h n = (r, n') \<Longrightarrow> n' = n\<lparr>nd_validatorSet := nd_validatorSet n'\<rparr>"
  by (auto simp: rotate_validators_def split: option.split_asm prod.split_asm sum.split_asm)

lemma endBlock_changes:
  "endBlockHandler cfg h n = (r, n') \<Longrightarrow>
   n' = n\<lparr>nd_context := setConsensusLogger ''endBlock'' (nd_context n), nd_validatorSet := nd_validatorSet n'\<rparr>"
  by (auto simp: endBlockHandler_def Let_def dest!: rotate_changes
      split: if_split_asm prod.split_asm sum.split_asm option.split_asm)

lemma never_missing: "\<not> missing_system_contract i contractHeight height ctx"
  by (simp add: missing_system_contract_def strictly_equal_def Long_def split: option.split)

lemma rotate_frame:
  "rotate_validators (cfg\<lparr>nc_dpnsContractId := i\<rparr>) height n = rotate_validators cfg height n"
  "rotate_validators (cfg\<lparr>nc_dpnsContractBlockHeight := h\<rparr>) height n = rotate_validators cfg height n"
  "rotate_validators (cfg\<lparr>nc_dashpayContractId := i\<rparr>) height n = rotate_validators cfg height n"
  "rotate_validators (cfg\<lparr>nc_dashpayContractBlockHeight := h\<rparr>) height n = rotate_validators cfg height n"
  by (simp_all add: rotate_validators_def node_quorums_def cong: option.case_cong)

text \<open>
  The checks for the system contracts never run: endBlock answers the same whatever
  contracts and heights are configured, also at a configured height at which the contract was
  not created.
\<close>

theorem endBlock_ignores_system_contracts:
  "endBlockHandler (cfg\<lparr>nc_dpnsContractId := i, nc_dpnsContractBlockHeight := h1,
      nc_dashpayContractId := j, nc_dashpayContractBlockHeight := h2\<rparr>) height n =
   endBlockHandler (cfg\<lparr>nc_dpnsContractId := None, nc_dashpayContractId := None\<rparr>) height n"
  by (simp add: endBlockHandler_def never_missing rotate_frame
      cong: prod.case_cong sum.case_cong option.case_cong)

section \<open>What a successful commit does\<close>

definition latest_fees_flag :: "('d, 'sml) node_config \<Rightarrow> drive_state \<Rightarrow> int \<Rightarrow> dpp_error + document option" where
  "latest_fees_flag cfg s h = getLatestFeatureFlag (nc_featureFlagContractId cfg)
     (nc_featureFlagContractBlockHeight cfg) (nc_fetchFlags cfg) s ''fixCumulativeFeesBug'' h"

definition with_pool :: "credits_distribution_pool \<Rightarrow> chain_stores \<Rightarrow> chain_stores" where
  "with_pool pool c = c\<lparr>cs_common := vstore_put True (cs_common c) POOL_KEY_NAME pool\<rparr>"

lemma create_databases_cases:
  "create_databases failure cs dbs = (None, dbs') \<Longrightarrow> set dbs' = set dbs \<union> dc_id ` set cs"
  by (induction failure cs dbs rule: create_databases.induct) (auto split: option.split_asm)

lemma drop_databases_cases:
  "drop_databases failure cs dbs = (None, dbs') \<Longrightarrow> set dbs' = set dbs - dc_id ` set cs"
  by (induction failure cs dbs rule: drop_databases.induct) (auto split: option.split_asm)

lemma create_step:
  "set_databases n (create_databases failure cs (nd_databases n)) = (None, n') \<Longrightarrow>
   \<exists>dbs. n' = n\<lparr>nd_databases := dbs\<rparr> \<and> set dbs = set (nd_databases n) \<union> dc_id ` set cs"
  by (cases "create_databases failure cs (nd_databases n)")
     (auto simp: set_databases_def dest: create_databases_cases)

lemma store_pool_step:
  "store_pool cfg n = (None, n') \<Longrightarrow> n' = n\<lparr>nd_stores := with_pool (nd_pool n) (nd_stores n)\<rparr>"
  by (auto simp: store_pool_def with_pool_def split: option.split_asm)

lemma node_commit_step:
  "node_commit cfg n = (None, n') \<Longrightarrow> cs_isStarted (nd_stores n) \<and>
   n' = n\<lparr>nd_stores := (stores_publish (nd_stores n))\<lparr>cs_isStarted := False\<rparr>\<rparr>"
  by (auto simp: node_commit_def stores_commit_def split: option.split_asm if_split_asm)

lemma store_context_step:
  "store_context cfg p ctx n = (None, n') \<Longrightarrow>
   \<exists>db. BlockExecutionContextRepository_store (nc_encodeContext cfg) p ctx (nd_contextDb n) = Inr db \<and>
     n' = n\<lparr>nd_contextDb := db\<rparr>"
  by (auto simp: store_context_def split: option.split_asm sum.split_asm)

text \<open>The contexts a commit stores.\<close>

definition stores_contexts ::
  "('d, 'sml) node_config \<Rightarrow> block_execution_context \<Rightarrow> block_execution_context \<Rightarrow> level_db \<Rightarrow> level_db \<Rightarrow> bool" where
  "stores_contexts cfg ctx previous db db' \<longleftrightarrow>
     (\<exists>db1. BlockExecutionContextRepository_store (nc_encodeContext cfg) KEY_PREFIX_CURRENT ctx db = Inr db1 \<and>
        (if BlockExecutionContext_isEmpty previous then db' = db1
         else BlockExecutionContextRepository_store (nc_encodeContext cfg) KEY_PREFIX_PREVIOUS previous db1 = Inr db'))"

lemma commit_block_changes:
  assumes "commit_block cfg h n = (None, n', writes)"
  shows "\<exists>flag dbs db. latest_fees_flag cfg (cs_state (nd_stores n)) h = Inr flag \<and>
    (let pool = update_pool flag (bc_cumulativeFees (nd_context n)) (nd_pool n);
         c = with_pool pool (nd_stores n)
     in cs_isStarted (nd_stores n) \<and> writes = stores_toObject c \<and>
        stores_contexts cfg (nd_context n) (nd_previousContext n) (nd_contextDb n) db \<and>
        set dbs = set (nd_databases n) \<union> dc_id ` set (bc_dataContracts (nd_context n)) \<and>
        n' = n\<lparr>nd_stores := (stores_publish c)\<lparr>cs_isStarted := False\<rparr>, nd_pool := pool,
               nd_databases := dbs, nd_contextDb := db\<rparr>)"
proof -
  let ?flag = "latest_fees_flag cfg (cs_state (nd_stores n)) h"
  have prepare: "\<exists>n1. obind (set_databases n (create_databases (io_createDatabase (nc_io cfg))
                                     (bc_dataContracts (nd_context n)) (nd_databases n))) (\<lambda>n.
             case latest_fees_flag cfg (cs_state (nd_stores n)) h of
               Inl e \<Rightarrow> (Some e, n)
             | Inr flag \<Rightarrow>
                 obind (store_pool cfg (n\<lparr>nd_pool := update_pool flag (bc_cumulativeFees (nd_context n)) (nd_pool n)\<rparr>))
                   (\<lambda>n. attempt (io_clone (nc_io cfg)) n)) = (None, n1) \<and>
      writes = stores_toObject (nd_stores n1) \<and>
      obind (node_commit cfg n1) (\<lambda>n.
                 obind (store_context cfg KEY_PREFIX_CURRENT (nd_context n) n) (\<lambda>n.
                   if BlockExecutionContext_isEmpty (nd_previousContext n) then (None, n)
                   else store_context cfg KEY_PREFIX_PREVIOUS (nd_previousContext n) n)) = (None, n')"
    (is "\<exists>n1. ?prepare = (None, n1) \<and> _")
  proof (cases ?prepare)
    case (Pair e n1)
    with assms show ?thesis
      unfolding commit_block_def latest_fees_flag_def Let_def
      by (cases e) (auto split: prod.split_asm)
  qed
  then obtain n1 where p: "?prepare = (None, n1)" and w: "writes = stores_toObject (nd_stores n1)"
    and c: "obind (node_commit cfg n1) (\<lambda>n.
                 obind (store_context cfg KEY_PREFIX_CURRENT (nd_context n) n) (\<lambda>n.
                   if BlockExecutionContext_isEmpty (nd_previousContext n) then (None, n)
                   else store_context cfg KEY_PREFIX_PREVIOUS (nd_previousContext n) n)) = (None, n')"
    by blast
  from p obtain n0 where n0: "set_databases n (create_databases (io_createDatabase (nc_io cfg))
         (bc_dataContracts (nd_context n)) (nd_databases n)) = (None, n0)"
    and rest: "(case latest_fees_flag cfg (cs_state (nd_stores n0)) h of
          Inl e \<Rightarrow> (Some e, n0)
        | Inr flag \<Rightarrow>
            obind (store_pool cfg (n0\<lparr>nd_pool := update_pool flag (bc_cumulativeFees (nd_context n0)) (nd_pool n0)\<rparr>))
              (\<lambda>n. attempt (io_clone (nc_io cfg)) n)) = (None, n1)"
    by (simp only: obind_None) blast
  from create_step [OF n0] obtain dbs where n0': "n0 = n\<lparr>nd_databases := dbs\<rparr>"
    and dbs: "set dbs = set (nd_databases n) \<union> dc_id ` set (bc_dataContracts (nd_context n))" by blast
  have "\<exists>flag. ?flag = Inr flag \<and>
      n1 = n\<lparr>nd_databases := dbs, nd_pool := update_pool flag (bc_cumulativeFees (nd_context n)) (nd_pool n),
        nd_stores := with_pool (update_pool flag (bc_cumulativeFees (nd_context n)) (nd_pool n)) (nd_stores n)\<rparr>"
    using rest n0' by (cases ?flag) (auto simp: obind_None attempt_None simp del: split_paired_Ex dest!: store_pool_step)
  then obtain flag where flag: "?flag = Inr flag"
    and n1: "n1 = n\<lparr>nd_databases := dbs, nd_pool := update_pool flag (bc_cumulativeFees (nd_context n)) (nd_pool n),
        nd_stores := with_pool (update_pool flag (bc_cumulativeFees (nd_context n)) (nd_pool n)) (nd_stores n)\<rparr>" by blast
  let ?n2 = "n1\<lparr>nd_stores := (stores_publish (nd_stores n1))\<lparr>cs_isStarted := False\<rparr>\<rparr>"
  from c node_commit_step obtain n3 where started: "cs_isStarted (nd_stores n1)"
    and n3: "store_context cfg KEY_PREFIX_CURRENT (nd_context ?n2) ?n2 = (None, n3)"
    and n': "(if BlockExecutionContext_isEmpty (nd_previousContext n3) then (None, n3)
              else store_context cfg KEY_PREFIX_PREVIOUS (nd_previousContext n3) n3) = (None, n')"
    by (simp only: obind_None) blast
  from store_context_step [OF n3] obtain db1 where db1: "BlockExecutionContextRepository_store (nc_encodeContext cfg)
      KEY_PREFIX_CURRENT (nd_context n1) (nd_contextDb n1) = Inr db1" and n3': "n3 = ?n2\<lparr>nd_contextDb := db1\<rparr>"
    by auto
  have "\<exists>db. stores_contexts cfg (nd_context n1) (nd_previousContext n1) (nd_contextDb n1) db \<and>
      n' = ?n2\<lparr>nd_contextDb := db\<rparr>"
    using n' n3' db1 by (auto simp: stores_contexts_def split: if_split_asm dest: store_context_step)
  then obtain db where "stores_contexts cfg (nd_context n1) (nd_previousContext n1) (nd_contextDb n1) db"
    and "n' = n1\<lparr>nd_stores := (stores_publish (nd_stores n1))\<lparr>cs_isStarted := False\<rparr>, nd_contextDb := db\<rparr>"
    by auto
  with n1 w dbs flag started show ?thesis
    by (intro exI [of _ flag] exI [of _ dbs] exI [of _ db]) (simp add: Let_def with_pool_def)
qed

text \<open>The previous stores, and their databases, move on by the writes of the block before.\<close>

definition advance_previous :: "snapshot option \<Rightarrow> chain_stores \<Rightarrow> chain_stores" where
  "advance_previous writes p = (case writes of None \<Rightarrow> p | Some w \<Rightarrow> stores_publish (stores_populate w p))"

lemma commit_previous_changes:
  assumes "commit_previous cfg n = (None, n')"
  shows "\<exists>dbs. n' = n\<lparr>nd_previousDatabases := dbs,
      nd_previousStores := advance_previous (nd_previousTransactions n) (nd_previousStores n),
      nd_previousRootTree := nd_previousRootTree n'\<rparr>"
proof (cases "nd_previousTransactions n")
  case None
  with assms show ?thesis
    by (intro exI [of _ "nd_previousDatabases n"]) (simp add: commit_previous_def advance_previous_def)
next
  case (Some w)
  with assms show ?thesis
    by (auto simp: commit_previous_def obind_None attempt_None Let_def advance_previous_def
        simp del: split_paired_Ex split: option.split_asm prod.split_asm)
qed

text \<open>A successful commit, in one equation.\<close>

lemma commitHandler_changes:
  assumes "commitHandler cfg n = (Inr h, n')"
  shows "\<exists>header flag. bc_header (nd_context n) = Some header \<and>
    latest_fees_flag cfg (cs_state (nd_stores n)) (hd_height header) = Inr flag \<and>
    (let pool = update_pool flag (bc_cumulativeFees (nd_context n)) (nd_pool n);
         c = with_pool pool (nd_stores n)
     in cs_isStarted (nd_stores n) \<and> h = root_hash cfg (stores_publish c) \<and>
        nd_stores n' = (stores_publish c)\<lparr>cs_isStarted := False\<rparr> \<and> nd_pool n' = pool \<and>
        nd_context n' = setConsensusLogger ''commit'' (nd_context n) \<and>
        nd_previousContext n' = nd_previousContext n \<and> nd_rootTree n' = h \<and>
        stores_contexts cfg (nd_context n') (nd_previousContext n) (nd_contextDb n) (nd_contextDb n') \<and>
        nd_previousStores n' = advance_previous (nd_previousTransactions n) (nd_previousStores n) \<and>
        nd_previousTransactions n' = Some (stores_toObject c) \<and> nd_previousFile n' = Some (stores_toObject c) \<and>
        set (nd_databases n') = set (nd_databases n) \<union> dc_id ` set (bc_dataContracts (nd_context n)))"
proof -
  let ?n = "n\<lparr>nd_context := setConsensusLogger ''commit'' (nd_context n)\<rparr>"
  from assms obtain header where header: "bc_header (nd_context n) = Some header"
    by (auto simp: commitHandler_def split: option.split_asm)
  obtain e n1 writes where run: "commit_block cfg (hd_height header) ?n = (e, n1, writes)"
    by (metis prod_cases3)
  with assms header have e: "e = None"
    by (cases e) (auto simp: commitHandler_def split: prod.split_asm option.split_asm)
  obtain e' n2 where previous: "commit_previous cfg (n1\<lparr>nd_rootTree := root_hash cfg (nd_stores n1)\<rparr>) = (e', n2)"
    by (metis surj_pair)
  with assms header run e have e': "e' = None"
    by (cases e') (auto simp: commitHandler_def)
  have n': "n' = n2\<lparr>nd_previousTransactions := Some writes, nd_previousFile := Some writes\<rparr>" and h: "h = nd_rootTree n2"
    using assms header run previous e e' by (auto simp: commitHandler_def Let_def split: option.split_asm)
  from commit_block_changes [OF run [unfolded e]] obtain flag dbs db where
    flag: "latest_fees_flag cfg (cs_state (nd_stores n)) (hd_height header) = Inr flag"
    and n1: "let pool = update_pool flag (bc_cumulativeFees (nd_context n)) (nd_pool n);
         c = with_pool pool (nd_stores n)
     in cs_isStarted (nd_stores n) \<and> writes = stores_toObject c \<and>
        stores_contexts cfg (nd_context ?n) (nd_previousContext n) (nd_contextDb n) db \<and>
        set dbs = set (nd_databases n) \<union> dc_id ` set (bc_dataContracts (nd_context n)) \<and>
        n1 = ?n\<lparr>nd_stores := (stores_publish c)\<lparr>cs_isStarted := False\<rparr>, nd_pool := pool,
               nd_databases := dbs, nd_contextDb := db\<rparr>"
    by (auto simp: setConsensusLogger_def)
  from commit_previous_changes [OF previous [unfolded e']] obtain pdbs prt where
    n2: "n2 = n1\<lparr>nd_rootTree := root_hash cfg (nd_stores n1), nd_previousDatabases := pdbs,
      nd_previousStores := advance_previous (nd_previousTransactions n1) (nd_previousStores n1),
      nd_previousRootTree := prt\<rparr>" by auto
  have clear: "root_hash cfg (c\<lparr>cs_isStarted := False\<rparr>) = root_hash cfg c" for c
    by (simp add: root_hash_def committed_stores_def stores_clear_def stores_populate_def)
  define pool c where "pool = update_pool flag (bc_cumulativeFees (nd_context n)) (nd_pool n)"
    and "c = with_pool pool (nd_stores n)"
  with n1 have n1': "cs_isStarted (nd_stores n)" "writes = stores_toObject c"
      "stores_contexts cfg (setConsensusLogger ''commit'' (nd_context n)) (nd_previousContext n) (nd_contextDb n) db"
      "set dbs = set (nd_databases n) \<union> dc_id ` set (bc_dataContracts (nd_context n))"
      "n1 = ?n\<lparr>nd_stores := (stores_publish c)\<lparr>cs_isStarted := False\<rparr>, nd_pool := pool,
               nd_databases := dbs, nd_contextDb := db\<rparr>"
    by (simp_all add: Let_def)
  show ?thesis
    unfolding Let_def pool_def [symmetric] c_def [symmetric]
    by (intro exI [of _ header] exI [of _ flag])
       (simp add: header flag pool_def [symmetric] c_def [symmetric] n' h n2 n1' clear)
qed

end
