(* ===== verification/BlockLifecycle.thy ===== *)
theory BlockLifecycle
  imports AbciHandlers
begin

text \<open>
  The life of a node: blocks that are executed and committed, blocks that are begun and never
  committed, and restarts of the process, as a step relation over the handlers. The history
  lists what each commit left, the latest first.
\<close>

section \<open>Executing a block\<close>

record block =
  bl_header :: block_header
  bl_lastCommitInfo :: last_commit_info
  bl_chainLocks :: "chain_lock list"
  bl_txs :: "buffer option list"

definition deliver_node :: "platform \<Rightarrow> buffer option list \<Rightarrow> 'd node \<Rightarrow> 'd node option" where
  "deliver_node pf txs n =
     map_option (\<lambda>((s, ctx), _). n\<lparr>nd_stores := (nd_stores n)\<lparr>cs_state := s\<rparr>, nd_context := ctx\<rparr>)
       (deliver_all pf (cs_state (nd_stores n), nd_context n) txs)"

definition begin_and_deliver :: "platform \<Rightarrow> ('d, 'sml) node_config \<Rightarrow> block \<Rightarrow> 'd node \<Rightarrow> 'd node option" where
  "begin_and_deliver pf cfg bl n =
     (case beginBlockHandler cfg (bl_header bl) (bl_lastCommitInfo bl) (bl_chainLocks bl) n of
        Some (None, n) \<Rightarrow> deliver_node pf (bl_txs bl) n
      | _ \<Rightarrow> None)"

text \<open>\<open>None\<close> is a block on which some handler failed or Drive stopped.\<close>

definition execute_block :: "platform \<Rightarrow> ('d, 'sml) node_config \<Rightarrow> block \<Rightarrow> 'd node \<Rightarrow> (buffer \<times> 'd node) option" where
  "execute_block pf cfg bl n =
     (case begin_and_deliver pf cfg bl n of
        None \<Rightarrow> None
      | Some n \<Rightarrow>
          (case endBlockHandler cfg (hd_height (bl_header bl)) n of
             (Inl _, _) \<Rightarrow> None
           | (Inr _, n) \<Rightarrow>
               (case commitHandler cfg n of
                  (Inl _, _) \<Rightarrow> None
                | (Inr h, n) \<Rightarrow> Some (h, n))))"

definition restart :: "('d, 'sml) node_config \<Rightarrow> 'd node \<Rightarrow> (response_info \<times> 'd node) option" where
  "restart cfg n =
     (case start_node cfg n of
        Inl _ \<Rightarrow> None
      | Inr n \<Rightarrow>
          (case infoHandler cfg n of
             (Inl _, _) \<Rightarrow> None
           | (Inr r, n) \<Rightarrow> Some (r, n)))"

section \<open>Transactions leave alone what is committed\<close>

lemma vs_db_tx [simp]:
  "vs_db (vstore_put True v k x) = vs_db v" "vs_db (vstore_delete True v k) = vs_db v"
  by (simp_all add: vstore_put_def vstore_delete_def)

lemma vs_db_fold_put: "vs_db (fold (\<lambda>h t. vstore_put True t h i) hs v) = vs_db v"
  by (induction hs arbitrary: v) simp_all

definition committed_dbs where
  "committed_dbs s = (vs_db (ds_identities s), vs_db (ds_publicKeyIds s), vs_db (ds_dataContracts s),
     vs_db (ds_documents s), vs_db (ds_spentOutPoints s))"

lemma committed_dbs_ops [simp]:
  "committed_dbs (storeIdentity True i s) = committed_dbs s"
  "committed_dbs (storeIdentityPublicKeyHashes True j hs s) = committed_dbs s"
  "committed_dbs (storeDataContract True c s) = committed_dbs s"
  "committed_dbs (storeDocument True d s) = committed_dbs s"
  "committed_dbs (removeDocument True j s) = committed_dbs s"
  "committed_dbs (markAssetLockTransactionOutPointAsUsed True q s) = committed_dbs s"
  "committed_dbs (s\<lparr>ds_header := x\<rparr>) = committed_dbs s"
  by (simp_all add: committed_dbs_def storeIdentity_def storeIdentityPublicKeyHashes_def storeDataContract_def
      storeDocument_def removeDocument_def markAssetLockTransactionOutPointAsUsed_def vs_db_fold_put)

lemma apply_commits_nothing:
  assumes "applyStateTransition env F True st s = Inr s'"
  shows "committed_dbs s' = committed_dbs s"
proof (cases st)
  case (DataContractCreateTransition b c e)
  with assms show ?thesis
    by (auto simp: applyStateTransition_def applyDataContractCreateTransition_def)
next
  case (DocumentsBatchTransition b i ts)
  with assms obtain fetched where
    "rfold (apply_document_transition True (stb_protocolVersion b) i fetched) s ts = Inr s'"
    by (auto simp: applyStateTransition_def applyDocumentsBatchTransition_def Let_def rbind_eq_Inr_iff)
  then show ?thesis
    by (rule rfold_invariant) (auto simp: apply_document_transition_def split: action.splits option.splits)
next
  case (IdentityCreateTransition b p ks)
  with assms have "applyIdentityCreateTransition env True b p ks s = Inr s'"
    by (simp add: applyStateTransition_def)
  from apply_create_Inr [OF this] show ?thesis by auto
next
  case (IdentityTopUpTransition b p i)
  with assms have "applyIdentityTopUpTransition env True p i s = Inr s'"
    by (simp add: applyStateTransition_def)
  from apply_topup_Inr [OF this] show ?thesis by auto
qed

lemma deliver_step_commits_nothing:
  assumes "deliverTx pf (s, ctx) b = (r, s', ctx')" and "\<nexists>e. r = Halt e"
  shows "committed_dbs s' = committed_dbs s \<and> bc_header ctx' = bc_header ctx \<and>
    bc_lastCommitInfo ctx' = bc_lastCommitInfo ctx"
  using deliverTx_cases [OF assms]
proof (elim disjE exE conjE)
  assume acc: "deliverTxHandler pf (s, ctx) b = (Inr (), s', ctx')"
  from deliverTx_accepted [OF this] obtain st u i fee ctx1 where
    "applyStateTransition (pf_env pf) (pf_fetchDocuments pf) True st (s\<lparr>ds_header := bc_header ctx\<rparr>) = Inr u"
    and "s' = storeIdentity True (Identity_reduceBalance fee i) u" and "bc_header ctx' = bc_header ctx"
      "bc_lastCommitInfo ctx' = bc_lastCommitInfo ctx"
    by (auto simp: apply_and_charge_def Let_def rbind_eq_Inr_iff incrementValidTxCount_def setConsensusLogger_def
        incrementCumulativeFees_def addDataContract_def split: option.split_asm state_transition.split_asm)
  with apply_commits_nothing [OF this(1)] show ?thesis by simp
next
  fix e c assume rej: "deliverTxHandler pf (s, ctx) b = (Inl e, s', ctx')"
  then have "bc_header ctx' = bc_header ctx \<and> bc_lastCommitInfo ctx' = bc_lastCommitInfo ctx"
    by (auto simp: deliverTxHandler_def Let_def setConsensusLogger_def incrementInvalidTxCount_def
        apply_and_charge_def split: if_split_asm sum.split_asm option.split_asm prod.split_asm)
  with deliverTx_rejected(1) [OF rej] show ?thesis by auto
qed

lemma deliver_commits_nothing:
  "deliver_all pf (s, ctx) txs = Some ((s', ctx'), rs) \<Longrightarrow>
   committed_dbs s' = committed_dbs s \<and> bc_header ctx' = bc_header ctx \<and>
   bc_lastCommitInfo ctx' = bc_lastCommitInfo ctx"
proof (induction txs arbitrary: s ctx rs)
  case Nil
  then show ?case by simp
next
  case (Cons b txs)
  from deliver_all_Cons [OF Cons.prems] obtain r s1 ctx1 rs' where
    d: "deliverTx pf (s, ctx) b = (r, s1, ctx1)" "\<nexists>e. r = Halt e"
    and rest: "deliver_all pf (s1, ctx1) txs = Some ((s', ctx'), rs')" by auto
  from deliver_step_commits_nothing [OF d] Cons.IH [OF rest] show ?case by simp
qed

section \<open>What is committed\<close>

lemma committed_stores_eq:
  "committed_stores c = committed_stores c' \<longleftrightarrow>
   committed_dbs (cs_state c) = committed_dbs (cs_state c') \<and> vs_db (cs_common c) = vs_db (cs_common c')"
proof -
  have vstore: "v\<lparr>vs_tx := []\<rparr> = v'\<lparr>vs_tx := []\<rparr> \<longleftrightarrow> vs_db v = vs_db v'" for v v' :: "'a vstore"
    by (cases v, cases v') simp
  show ?thesis
    by (cases "cs_state c", cases "cs_state c'")
       (auto simp: committed_stores_def stores_clear_def stores_populate_def empty_snapshot_def committed_dbs_def vstore)
qed

lemma committed_stores_simps [simp]:
  "committed_stores (committed_stores c) = committed_stores c"
  "committed_stores (c\<lparr>cs_isStarted := b\<rparr>) = committed_stores c"
  "committed_stores (stores_populate w c) = committed_stores c"
  "committed_stores (stores_clear c) = committed_stores c"
  "committed_stores (with_pool pool c) = committed_stores c"
  "cs_isStarted (committed_stores c) = False"
  by (simp_all add: committed_stores_eq committed_dbs_def committed_stores_def stores_clear_def
      stores_populate_def with_pool_def)

text \<open>The same writes on the same committed data.\<close>

lemma replay_writes:
  "committed_stores p = committed_stores c \<Longrightarrow>
   committed_stores (stores_publish (stores_populate (stores_toObject c) p)) = committed_stores (stores_publish c)"
  by (simp add: committed_stores_eq committed_dbs_def stores_publish_def stores_populate_def stores_toObject_def
      vstore_commit_def)

lemma replay_same:
  "committed_stores p = committed_stores p' \<Longrightarrow>
   committed_stores (stores_publish (stores_populate w p)) = committed_stores (stores_publish (stores_populate w p'))"
  by (simp add: committed_stores_eq committed_dbs_def stores_publish_def stores_populate_def vstore_commit_def)

lemma root_hash_committed:
  "committed_stores c = committed_stores c' \<Longrightarrow> root_hash cfg c = root_hash cfg c'"
  by (simp add: root_hash_def)

section \<open>What the steps change\<close>

definition same_but_running :: "'d node \<Rightarrow> 'd node \<Rightarrow> bool" where
  "same_but_running n n' \<longleftrightarrow>
     committed_stores (nd_stores n') = committed_stores (nd_stores n) \<and> nd_pool n' = nd_pool n \<and>
     nd_contextDb n' = nd_contextDb n \<and> nd_previousStores n' = nd_previousStores n \<and>
     nd_previousTransactions n' = nd_previousTransactions n \<and> nd_previousFile n' = nd_previousFile n \<and>
     nd_databases n' = nd_databases n \<and> nd_rootTree n' = nd_rootTree n"

lemma begin_and_deliver_changes:
  assumes "begin_and_deliver pf cfg bl n = Some n'"
  shows "\<exists>s ctx rs. deliver_all pf (cs_state (stores_clear (nd_stores n)),
      begun_context (bl_header bl) (bl_lastCommitInfo bl)) (bl_txs bl) = Some ((s, ctx), rs) \<and>
    nd_stores n' = (stores_clear (nd_stores n))\<lparr>cs_state := s, cs_isStarted := True\<rparr> \<and>
    nd_context n' = ctx \<and> nd_previousContext n' = nd_context n \<and> same_but_running n n' \<and>
    bc_header (nd_context n') = Some (bl_header bl) \<and> bc_lastCommitInfo (nd_context n') = Some (bl_lastCommitInfo bl)"
proof -
  from assms obtain n1 where n1: "beginBlockHandler cfg (bl_header bl) (bl_lastCommitInfo bl) (bl_chainLocks bl) n = Some (None, n1)"
    and n': "deliver_node pf (bl_txs bl) n1 = Some n'"
    by (auto simp: begin_and_deliver_def split: option.split_asm prod.split_asm)
  from beginBlock_changes [OF n1] obtain lock list where
    n1': "n1 = n\<lparr>nd_stores := (stores_clear (nd_stores n))\<lparr>cs_isStarted := True\<rparr>,
      nd_context := begun_context (bl_header bl) (bl_lastCommitInfo bl), nd_previousContext := nd_context n,
      nd_latestChainLock := lock, nd_sml := list, nd_protocolVersion := Some (hd_app_version (bl_header bl))\<rparr>" by blast
  from n' obtain s ctx rs where run: "deliver_all pf (cs_state (stores_clear (nd_stores n)),
      begun_context (bl_header bl) (bl_lastCommitInfo bl)) (bl_txs bl) = Some ((s, ctx), rs)"
    and eq: "n' = n1\<lparr>nd_stores := (nd_stores n1)\<lparr>cs_state := s\<rparr>, nd_context := ctx\<rparr>"
    by (auto simp: deliver_node_def n1')
  from deliver_commits_nothing [OF run] have "committed_dbs s = committed_dbs (cs_state (nd_stores n))"
    and "bc_header ctx = Some (bl_header bl)" "bc_lastCommitInfo ctx = Some (bl_lastCommitInfo bl)"
    by (simp_all add: stores_clear_def stores_populate_def committed_dbs_def begun_context_def)
  then show ?thesis
    using run eq n1'
    by (simp add: same_but_running_def committed_stores_eq stores_clear_def stores_populate_def)
qed

lemma endBlock_same:
  assumes "endBlockHandler cfg h n = (r, n')"
  shows "same_but_running n n'" "nd_stores n' = nd_stores n" "nd_previousContext n' = nd_previousContext n"
    "nd_context n' = setConsensusLogger ''endBlock'' (nd_context n)"
proof -
  from endBlock_changes [OF assms] obtain v where
    "n' = n\<lparr>nd_context := setConsensusLogger ''endBlock'' (nd_context n), nd_validatorSet := v\<rparr>" by blast
  then show "same_but_running n n'" "nd_stores n' = nd_stores n" "nd_previousContext n' = nd_previousContext n"
    "nd_context n' = setConsensusLogger ''endBlock'' (nd_context n)"
    by (simp_all add: same_but_running_def)
qed

lemma execute_block_changes:
  assumes "execute_block pf cfg bl n = Some (h, n')"
  shows "\<exists>n1 n2 r flag. begin_and_deliver pf cfg bl n = Some n1 \<and>
    endBlockHandler cfg (hd_height (bl_header bl)) n1 = (Inr r, n2) \<and> commitHandler cfg n2 = (Inr h, n') \<and>
    latest_fees_flag cfg (cs_state (nd_stores n1)) (hd_height (bl_header bl)) = Inr flag \<and>
    (let pool = update_pool flag (bc_cumulativeFees (nd_context n1)) (nd_pool n);
         c = with_pool pool (nd_stores n1)
     in committed_stores (nd_stores n') = committed_stores (stores_publish c) \<and>
        stores_view False (nd_stores n') = stores_view True c \<and>
        h = root_hash cfg (nd_stores n') \<and> nd_rootTree n' = h \<and> nd_pool n' = pool \<and>
        bc_header (nd_context n') = Some (bl_header bl) \<and>
        bc_lastCommitInfo (nd_context n') = Some (bl_lastCommitInfo bl) \<and> nd_previousContext n' = nd_context n \<and>
        stores_contexts cfg (nd_context n') (nd_context n) (nd_contextDb n) (nd_contextDb n') \<and>
        nd_previousStores n' = advance_previous (nd_previousTransactions n) (nd_previousStores n) \<and>
        nd_previousTransactions n' = Some (stores_toObject c) \<and> nd_previousFile n' = Some (stores_toObject c))"
proof -
  from assms obtain n1 r n2 where n1: "begin_and_deliver pf cfg bl n = Some n1"
    and n2: "endBlockHandler cfg (hd_height (bl_header bl)) n1 = (Inr r, n2)"
    and n': "commitHandler cfg n2 = (Inr h, n')"
    by (auto simp: execute_block_def split: option.split_asm prod.split_asm sum.split_asm)
  note begun = begin_and_deliver_changes [OF n1] and ended = endBlock_same [OF n2]
  from commitHandler_changes [OF n'] obtain header flag where
    header: "bc_header (nd_context n2) = Some header"
    and flag: "latest_fees_flag cfg (cs_state (nd_stores n2)) (hd_height header) = Inr flag"
    and changes: "let pool = update_pool flag (bc_cumulativeFees (nd_context n2)) (nd_pool n2);
         c = with_pool pool (nd_stores n2)
     in cs_isStarted (nd_stores n2) \<and> h = root_hash cfg (stores_publish c) \<and>
        nd_stores n' = (stores_publish c)\<lparr>cs_isStarted := False\<rparr> \<and> nd_pool n' = pool \<and>
        nd_context n' = setConsensusLogger ''commit'' (nd_context n2) \<and>
        nd_previousContext n' = nd_previousContext n2 \<and> nd_rootTree n' = h \<and>
        stores_contexts cfg (nd_context n') (nd_previousContext n2) (nd_contextDb n2) (nd_contextDb n') \<and>
        nd_previousStores n' = advance_previous (nd_previousTransactions n2) (nd_previousStores n2) \<and>
        nd_previousTransactions n' = Some (stores_toObject c) \<and> nd_previousFile n' = Some (stores_toObject c) \<and>
        set (nd_databases n') = set (nd_databases n2) \<union> dc_id ` set (bc_dataContracts (nd_context n2))"
    by blast
  have same: "header = bl_header bl" "nd_stores n2 = nd_stores n1" "nd_pool n2 = nd_pool n"
    "bc_cumulativeFees (nd_context n2) = bc_cumulativeFees (nd_context n1)"
    "bc_lastCommitInfo (nd_context n2) = Some (bl_lastCommitInfo bl)"
    "nd_previousContext n2 = nd_context n" "nd_contextDb n2 = nd_contextDb n"
    "nd_previousTransactions n2 = nd_previousTransactions n" "nd_previousStores n2 = nd_previousStores n"
    using begun ended header by (auto simp: same_but_running_def setConsensusLogger_def)
  have hash: "root_hash cfg (c\<lparr>cs_isStarted := b\<rparr>) = root_hash cfg c" for c b
    by (simp add: root_hash_def)
  define pool c where "pool = update_pool flag (bc_cumulativeFees (nd_context n1)) (nd_pool n)"
    and "c = with_pool pool (nd_stores n1)"
  with changes same have c: "h = root_hash cfg (stores_publish c)"
      "nd_stores n' = (stores_publish c)\<lparr>cs_isStarted := False\<rparr>" "nd_pool n' = pool"
      "nd_context n' = setConsensusLogger ''commit'' (nd_context n2)" "nd_rootTree n' = h"
      "nd_previousContext n' = nd_context n"
      "stores_contexts cfg (nd_context n') (nd_context n) (nd_contextDb n) (nd_contextDb n')"
      "nd_previousStores n' = advance_previous (nd_previousTransactions n) (nd_previousStores n)"
      "nd_previousTransactions n' = Some (stores_toObject c)" "nd_previousFile n' = Some (stores_toObject c)"
    by (auto simp: Let_def)
  have "bc_header (nd_context n') = Some (bl_header bl)" "bc_lastCommitInfo (nd_context n') = Some (bl_lastCommitInfo bl)"
    using c(4) header same(1,5) by (simp_all add: setConsensusLogger_def)
  moreover have "stores_view False (nd_stores n') = stores_view True c"
    by (simp add: c(2) stores_view_simps)
  moreover have "root_hash cfg (nd_stores n') = h"
    by (simp add: c(2) hash c(1))
  ultimately show ?thesis
    unfolding Let_def
    by (rule_tac exI [of _ n1], rule_tac exI [of _ n2], rule_tac exI [of _ r], rule_tac exI [of _ flag])
       (use n1 n2 n' flag c(2,3,5-10) same in \<open>simp add: pool_def [symmetric] c_def [symmetric]\<close>)
qed

section \<open>Histories\<close>

record committed =
  cm_stores :: chain_stores
  cm_context :: block_execution_context
  cm_previousContext :: block_execution_context
  cm_pool :: credits_distribution_pool

definition last_committed :: "'d node \<Rightarrow> committed" where
  "last_committed n = \<lparr>cm_stores = committed_stores (nd_stores n), cm_context = nd_context n,
     cm_previousContext = nd_previousContext n, cm_pool = nd_pool n\<rparr>"

definition fresh_node :: "'d node \<Rightarrow> bool" where
  "fresh_node n \<longleftrightarrow>
     committed_stores (nd_stores n) = \<lparr>cs_state = empty_state, cs_common = empty_vstore, cs_isStarted = False\<rparr> \<and>
     nd_previousStores n = nd_stores n \<and> nd_pool n = new_CreditsDistributionPool \<and>
     nd_context n = new_BlockExecutionContext \<and> nd_contextDb n = [] \<and>
     nd_previousTransactions n = None \<and> nd_previousFile n = None"

text \<open>
  A node that executes blocks, begins blocks that are never committed and is restarted at any of
  these points, with what its commits left.
\<close>

inductive node_reachable ::
  "platform \<Rightarrow> ('d, 'sml) node_config \<Rightarrow> 'd node \<Rightarrow> committed list \<Rightarrow> bool" for pf cfg where
  genesis: "fresh_node n \<Longrightarrow> node_reachable pf cfg n [last_committed n]"
| executed: "node_reachable pf cfg n hist \<Longrightarrow> execute_block pf cfg bl n = Some (h, n') \<Longrightarrow>
    node_reachable pf cfg n' (last_committed n' # hist)"
| abandoned: "node_reachable pf cfg n hist \<Longrightarrow> begin_and_deliver pf cfg bl n = Some n' \<Longrightarrow>
    node_reachable pf cfg n' hist"
| restarted: "node_reachable pf cfg n hist \<Longrightarrow> restart cfg n = Some (r, n') \<Longrightarrow>
    node_reachable pf cfg n' hist"

text \<open>What the encoding of the contexts (the CBOR package) promises of those that were stored.\<close>

definition decodes :: "('d, 'sml) node_config \<Rightarrow> block_execution_context \<Rightarrow> bool" where
  "decodes cfg x \<longleftrightarrow> (\<forall>obj. BlockExecutionContext_toObject True x = Inr obj \<longrightarrow>
     nc_decodeContext cfg (nc_encodeContext cfg obj) = Inr obj)"

definition contexts_decode :: "('d, 'sml) node_config \<Rightarrow> committed list \<Rightarrow> bool" where
  "contexts_decode cfg hist \<longleftrightarrow> (\<forall>c \<in> set hist. decodes cfg (cm_context c) \<and> decodes cfg (cm_previousContext c))"

lemma context_fetch_stored:
  assumes "BlockExecutionContextRepository_store (nc_encodeContext cfg) p x db = Inr db'" and "decodes cfg x"
  shows "BlockExecutionContextRepository_fetch (nc_decodeContext cfg) q db' =
    (if q = p then Inr (x\<lparr>bc_consensusLogger := None\<rparr>)
     else BlockExecutionContextRepository_fetch (nc_decodeContext cfg) q db)"
proof -
  from assms(1) obtain obj where obj: "BlockExecutionContext_toObject True x = Inr obj"
    and db': "db' = AList.update (makeKey p) (nc_encodeContext cfg obj) db"
    by (auto simp: BlockExecutionContextRepository_store_def rbind_eq_Inr_iff)
  have "BlockExecutionContext_fromObject obj new_BlockExecutionContext = x\<lparr>bc_consensusLogger := None\<rparr>"
    using obj
    by (auto simp: BlockExecutionContext_toObject_def BlockExecutionContext_fromObject_def
        new_BlockExecutionContext_def DataContract_roundtrip comp_def split: option.splits)
  then show ?thesis
    using assms(2) obj
    by (simp add: db' BlockExecutionContextRepository_fetch_def map_of_update makeKey_def decodes_def)
qed

lemma prefixes_distinct: "KEY_PREFIX_CURRENT \<noteq> KEY_PREFIX_PREVIOUS"
  using prefixes_differ by auto

lemma stores_contexts_fetch:
  assumes "stores_contexts cfg ctx previous db db'" and "decodes cfg ctx" and "decodes cfg previous"
  shows "BlockExecutionContextRepository_fetch (nc_decodeContext cfg) KEY_PREFIX_CURRENT db' =
      Inr (ctx\<lparr>bc_consensusLogger := None\<rparr>)"
    and "BlockExecutionContextRepository_fetch (nc_decodeContext cfg) KEY_PREFIX_PREVIOUS db' =
      (if BlockExecutionContext_isEmpty previous
       then BlockExecutionContextRepository_fetch (nc_decodeContext cfg) KEY_PREFIX_PREVIOUS db
       else Inr (previous\<lparr>bc_consensusLogger := None\<rparr>))"
proof -
  from assms(1) obtain db1 where
    db1: "BlockExecutionContextRepository_store (nc_encodeContext cfg) KEY_PREFIX_CURRENT ctx db = Inr db1"
    and db': "if BlockExecutionContext_isEmpty previous then db' = db1
      else BlockExecutionContextRepository_store (nc_encodeContext cfg) KEY_PREFIX_PREVIOUS previous db1 = Inr db'"
    by (auto simp: stores_contexts_def)
  note current = context_fetch_stored [OF db1 assms(2)]
    and previous = context_fetch_stored [OF _ assms(3), of KEY_PREFIX_PREVIOUS db1 db']
  show "BlockExecutionContextRepository_fetch (nc_decodeContext cfg) KEY_PREFIX_CURRENT db' =
      Inr (ctx\<lparr>bc_consensusLogger := None\<rparr>)"
    using db' current [of KEY_PREFIX_CURRENT] previous [of KEY_PREFIX_CURRENT] prefixes_distinct
    by (auto split: if_split_asm)
  show "BlockExecutionContextRepository_fetch (nc_decodeContext cfg) KEY_PREFIX_PREVIOUS db' =
      (if BlockExecutionContext_isEmpty previous
       then BlockExecutionContextRepository_fetch (nc_decodeContext cfg) KEY_PREFIX_PREVIOUS db
       else Inr (previous\<lparr>bc_consensusLogger := None\<rparr>))"
    using db' current [of KEY_PREFIX_PREVIOUS] previous [of KEY_PREFIX_PREVIOUS] prefixes_distinct
    by (auto split: if_split_asm)
qed

lemma infoHandler_changes:
  assumes "infoHandler cfg n = (Inr r, n')"
  shows "\<exists>list. n' = n\<lparr>nd_previousTransactions := (if bc_header (nd_context n) = None \<or> nd_previousTransactions n \<noteq> None
      then nd_previousTransactions n else nd_previousFile n), nd_sml := list\<rparr>"
    and "ri_lastBlockAppHash r = nd_rootTree n"
    and "ri_lastBlockHeight r = (case bc_header (nd_context n) of None \<Rightarrow> 0 | Some h \<Rightarrow> hd_height h)"
proof -
  have "(\<exists>list. n' = n\<lparr>nd_previousTransactions := (if bc_header (nd_context n) = None \<or> nd_previousTransactions n \<noteq> None
      then nd_previousTransactions n else nd_previousFile n), nd_sml := list\<rparr>) \<and>
    ri_lastBlockAppHash r = nd_rootTree n \<and>
    ri_lastBlockHeight r = (case bc_header (nd_context n) of None \<Rightarrow> 0 | Some h \<Rightarrow> hd_height h)"
  proof (cases "bc_header (nd_context n)")
    case None
    with assms show ?thesis
      by (auto simp: infoHandler_def intro!: exI [of _ "nd_sml n"])
  next
    case (Some header)
    let ?writes = "if nd_previousTransactions n \<noteq> None then nd_previousTransactions n else nd_previousFile n"
    let ?n = "n\<lparr>nd_previousTransactions := ?writes\<rparr>"
    from assms Some have upd: "node_updateSml cfg (hd_coreChainLockedHeight header) ?n = (None, n')"
      and r: "r = \<lparr>ri_lastBlockHeight = hd_height header, ri_lastBlockAppHash = nd_rootTree n',
                 ri_lastCoreChainLockedHeight = hd_coreChainLockedHeight header\<rparr>"
      by (auto simp: infoHandler_def obind_def Let_def split: option.split_asm prod.split_asm)
    from node_updateSml_changes [OF upd] obtain list where n': "n' = ?n\<lparr>nd_sml := list\<rparr>" by blast
    show ?thesis
      by (intro conjI exI [of _ list]) (simp_all add: n' r Some)
  qed
  then show "\<exists>list. n' = n\<lparr>nd_previousTransactions := (if bc_header (nd_context n) = None \<or> nd_previousTransactions n \<noteq> None
      then nd_previousTransactions n else nd_previousFile n), nd_sml := list\<rparr>"
    and "ri_lastBlockAppHash r = nd_rootTree n"
    and "ri_lastBlockHeight r = (case bc_header (nd_context n) of None \<Rightarrow> 0 | Some h \<Rightarrow> hd_height h)"
    by blast+
qed

section \<open>The invariant of a node\<close>

definition stored_pool :: "chain_stores \<Rightarrow> credits_distribution_pool" where
  "stored_pool c = (case vstore_get False (cs_common c) POOL_KEY_NAME of
     None \<Rightarrow> new_CreditsDistributionPool | Some p \<Rightarrow> p)"

definition node_inv :: "('d, 'sml) node_config \<Rightarrow> 'd node \<Rightarrow> committed \<Rightarrow> committed list \<Rightarrow> bool" where
  "node_inv cfg n c older \<longleftrightarrow>
     committed_stores (nd_stores n) = cm_stores c \<and> nd_pool n = cm_pool c \<and> stored_pool (nd_stores n) = cm_pool c \<and>
     (\<exists>prev. BlockExecutionContextRepository_fetch (nc_decodeContext cfg) KEY_PREFIX_PREVIOUS (nd_contextDb n) = Inr prev) \<and>
     BlockExecutionContextRepository_fetch (nc_decodeContext cfg) KEY_PREFIX_CURRENT (nd_contextDb n) =
       Inr ((cm_context c)\<lparr>bc_consensusLogger := None\<rparr>) \<and>
     (case older of
        [] \<Rightarrow> bc_header (cm_context c) = None \<and> nd_previousTransactions n = None \<and>
          committed_stores (nd_previousStores n) = cm_stores c
      | u # _ \<Rightarrow> bc_header (cm_context c) \<noteq> None \<and> committed_stores (nd_previousStores n) = cm_stores u \<and>
          (\<exists>w. nd_previousTransactions n = Some w \<and> nd_previousFile n = Some w \<and>
             committed_stores (stores_publish (stores_populate w (nd_previousStores n))) = cm_stores c))"

lemma stored_pool_committed:
  "committed_stores c = committed_stores c' \<Longrightarrow> stored_pool c = stored_pool c'"
  by (simp add: stored_pool_def committed_stores_eq vstore_get_def)

lemma stored_pool_commit: "stored_pool (stores_publish (with_pool pool c)) = pool"
  by (simp add: stored_pool_def stores_publish_def with_pool_def vstore_commit_view)
     (simp add: vstore_get_def vstore_put_def map_of_update)

lemma inv_genesis: "fresh_node n \<Longrightarrow> node_inv cfg n (last_committed n) []"
  by (auto simp: fresh_node_def node_inv_def last_committed_def BlockExecutionContextRepository_fetch_def
      new_BlockExecutionContext_def)
     (metis (no_types, lifting) chain_stores.select_convs(2) committed_stores_simps(1) empty_vstore_def map_of.simps(1)
       option.case(1) stored_pool_committed stored_pool_def vstore.select_convs(1) vstore_get_def)

lemma inv_same: "same_but_running n n' \<Longrightarrow> node_inv cfg n c older \<Longrightarrow> node_inv cfg n' c older"
  using stored_pool_committed [of "nd_stores n'" "nd_stores n"]
  by (cases older) (auto simp: node_inv_def same_but_running_def)

lemma inv_executed:
  assumes inv: "node_inv cfg n c older" and run: "execute_block pf cfg bl n = Some (h, n')"
    and "decodes cfg (cm_context (last_committed n'))" "decodes cfg (cm_previousContext (last_committed n'))"
  shows "node_inv cfg n' (last_committed n') (c # older)"
proof -
  from execute_block_changes [OF run] obtain n1 c1 where
    n1: "begin_and_deliver pf cfg bl n = Some n1" and
    stores: "committed_stores (nd_stores n') = committed_stores (stores_publish (with_pool (nd_pool n') c1))"
      "c1 = nd_stores n1"
    and header: "bc_header (nd_context n') = Some (bl_header bl)" "nd_previousContext n' = nd_context n"
    and ctx: "stores_contexts cfg (nd_context n') (nd_context n) (nd_contextDb n) (nd_contextDb n')"
    and previous: "nd_previousStores n' = advance_previous (nd_previousTransactions n) (nd_previousStores n)"
      "nd_previousTransactions n' = Some (stores_toObject (with_pool (nd_pool n') c1))"
      "nd_previousFile n' = Some (stores_toObject (with_pool (nd_pool n') c1))"
    by (auto simp: Let_def)
  have c1: "committed_stores c1 = cm_stores c"
    using begin_and_deliver_changes [OF n1] inv stores(2) by (auto simp: same_but_running_def node_inv_def)
  have prev: "committed_stores (nd_previousStores n') = cm_stores c"
    using inv previous(1) by (auto simp: node_inv_def advance_previous_def split: list.split_asm)
  have replay: "committed_stores (stores_publish (stores_populate (stores_toObject (with_pool (nd_pool n') c1))
      (nd_previousStores n'))) = committed_stores (nd_stores n')"
    by (subst stores(1), rule replay_writes) (simp add: prev c1)
  have "stored_pool (nd_stores n') = nd_pool n'"
    using stored_pool_committed [OF stores(1)] by (simp add: stored_pool_commit)
  then show ?thesis
    using stores_contexts_fetch [OF ctx] assms(3,4) inv header prev replay previous
    by (auto simp: node_inv_def last_committed_def)
qed

lemma restart_cases:
  assumes "node_inv cfg n c older"
  obtains n1 where "start_node cfg n = Inr n1" and "node_inv cfg (n1\<lparr>nd_previousTransactions :=
      (if bc_header (nd_context n1) = None then None else nd_previousFile n1)\<rparr>) c older"
    and "nd_context n1 = (cm_context c)\<lparr>bc_consensusLogger := None\<rparr>" and "nd_previousTransactions n1 = None"
    and "nd_rootTree n1 = root_hash cfg (cm_stores c)" and "nd_pool n1 = cm_pool c"
    and "bc_header (nd_context n1) \<noteq> None \<longrightarrow> nd_previousFile n1 \<noteq> None" and "nd_sml n1 = new_sml_updater"
proof -
  from assms obtain prev where
    prev: "BlockExecutionContextRepository_fetch (nc_decodeContext cfg) KEY_PREFIX_PREVIOUS (nd_contextDb n) = Inr prev"
    and cur: "BlockExecutionContextRepository_fetch (nc_decodeContext cfg) KEY_PREFIX_CURRENT (nd_contextDb n) =
       Inr ((cm_context c)\<lparr>bc_consensusLogger := None\<rparr>)"
    by (auto simp: node_inv_def)
  obtain n1 where n1: "start_node cfg n = Inr n1"
    by (simp add: start_node_def prev cur)
  then have eq: "nd_stores n1 = committed_stores (nd_stores n)" "nd_pool n1 = stored_pool (nd_stores n)"
    "nd_context n1 = (cm_context c)\<lparr>bc_consensusLogger := None\<rparr>" "nd_contextDb n1 = nd_contextDb n"
    "nd_rootTree n1 = root_hash cfg (nd_stores n)" "nd_previousTransactions n1 = None"
    "nd_sml n1 = new_sml_updater" "nd_previousFile n1 = nd_previousFile n" "nd_previousStores n1 = committed_stores (nd_previousStores n)"
    by (auto simp: start_node_def prev cur populate_all stored_pool_def)
  have idem: "committed_stores (cm_stores u) = cm_stores u" if "committed_stores x = cm_stores u" for x u
    by (simp flip: that)
  have fixed: "committed_stores (cm_stores c) = cm_stores c"
    by (rule idem [of "nd_stores n"]) (use assms in \<open>simp add: node_inv_def\<close>)
  have older: "committed_stores (cm_stores u) = cm_stores u" if "older = u # us" for u us
    by (rule idem [of "nd_previousStores n"]) (use assms that in \<open>simp add: node_inv_def\<close>)
  have "committed_stores (stores_publish (stores_populate w (committed_stores (nd_previousStores n)))) =
      committed_stores (stores_publish (stores_populate w (nd_previousStores n)))" for w
    by (rule replay_same) simp
  moreover have "stored_pool (committed_stores (nd_stores n)) = stored_pool (nd_stores n)"
    by (rule stored_pool_committed) simp
  ultimately have inv: "node_inv cfg (n1\<lparr>nd_previousTransactions :=
      (if bc_header (nd_context n1) = None then None else nd_previousFile n1)\<rparr>) c older"
    using assms eq fixed older by (cases older) (auto simp: node_inv_def)
  have hash: "root_hash cfg (nd_stores n) = root_hash cfg (cm_stores c)"
    by (rule root_hash_committed) (use assms fixed in \<open>simp add: node_inv_def\<close>)
  have filed: "bc_header (nd_context n1) \<noteq> None \<longrightarrow> nd_previousFile n1 \<noteq> None"
    using assms eq by (cases older) (auto simp: node_inv_def)
  have pool: "nd_pool n1 = cm_pool c"
    using assms eq(2) by (simp add: node_inv_def)
  show thesis
    by (rule that [OF n1 inv eq(3) eq(6) _ pool filed eq(7)]) (simp add: eq(5) hash)
qed

lemma inv_sml: "node_inv cfg n c older \<Longrightarrow> node_inv cfg (n\<lparr>nd_sml := x\<rparr>) c older"
  by (cases older) (simp_all add: node_inv_def)

lemma inv_restarted:
  assumes "node_inv cfg n c older" and "restart cfg n = Some (r, n')"
  shows "node_inv cfg n' c older"
proof -
  from restart_cases [OF assms(1)] obtain n1 where n1: "start_node cfg n = Inr n1"
    and inv: "node_inv cfg (n1\<lparr>nd_previousTransactions :=
      (if bc_header (nd_context n1) = None then None else nd_previousFile n1)\<rparr>) c older"
    and none: "nd_previousTransactions n1 = None" by metis
  from assms(2) n1 have "infoHandler cfg n1 = (Inr r, n')"
    by (auto simp: restart_def split: prod.split_asm sum.split_asm)
  from infoHandler_changes(1) [OF this] obtain list where
    "n' = n1\<lparr>nd_previousTransactions := (if bc_header (nd_context n1) = None then None else nd_previousFile n1),
              nd_sml := list\<rparr>" by (auto simp: none cong: if_cong)
  with inv_sml [OF inv] show ?thesis by blast
qed

lemma reachable_inv:
  assumes "node_reachable pf cfg n hist" and "contexts_decode cfg hist"
  shows "\<exists>c older. hist = c # older \<and> node_inv cfg n c older"
  using assms
proof (induction rule: node_reachable.induct)
  case (genesis n)
  then show ?case by (auto intro: inv_genesis)
next
  case (executed n hist bl h n')
  from executed.IH executed.prems obtain c older where "hist = c # older" "node_inv cfg n c older"
    by (auto simp: contexts_decode_def)
  with inv_executed [OF _ executed.hyps(2)] executed.prems show ?case
    by (auto simp: contexts_decode_def)
next
  case (abandoned n hist bl n')
  with begin_and_deliver_changes [OF abandoned.hyps(2)] show ?case by (auto intro: inv_same)
next
  case (restarted n hist r n')
  then show ?case by (auto intro: inv_restarted)
qed

section \<open>Properties of the whole\<close>

text \<open>
  C3. The stores that proofs are read from are one block behind: after any sequence of blocks,
  abandoned blocks and restarts the node has committed what the last commit left, and its previous
  stores hold what the commit before left, which is the state that the last block's signature
  is about.
\<close>

theorem previous_stores_lag:
  assumes "node_reachable pf cfg n hist" and "contexts_decode cfg hist"
  shows "committed_stores (nd_stores n) = cm_stores (hd hist) \<and>
    committed_stores (nd_previousStores n) = cm_stores (if tl hist = [] then hd hist else hd (tl hist))"
proof -
  from reachable_inv [OF assms] obtain c older where "hist = c # older" and "node_inv cfg n c older" by blast
  then show ?thesis by (cases older) (auto simp: node_inv_def)
qed

text \<open>
  C4. A restart resumes the chain: from any reachable state, also in the middle of a block, a
  new process starts, has the pool of the last commit, and tells Tendermint the height and the
  root hash of the last committed block, unless Core fails to give the masternode list.
\<close>

theorem restart_resumes:
  assumes "node_reachable pf cfg n hist" and "contexts_decode cfg hist"
  shows "\<exists>n1. start_node cfg n = Inr n1 \<and> nd_pool n1 = cm_pool (hd hist) \<and>
    (case infoHandler cfg n1 of
       (Inr r, _) \<Rightarrow> ri_lastBlockAppHash r = root_hash cfg (cm_stores (hd hist)) \<and>
         ri_lastBlockHeight r = (case bc_header (cm_context (hd hist)) of None \<Rightarrow> 0 | Some h \<Rightarrow> hd_height h)
     | (Inl e, _) \<Rightarrow> \<exists>h u. bc_header (cm_context (hd hist)) = Some h \<and>
         updateSimplifiedMasternodeList (nc_protx cfg) (nc_smlMaxListsLimit cfg) (hd_coreChainLockedHeight h)
           new_sml_updater = (Some e, u))"
proof -
  from reachable_inv [OF assms] obtain c older where hist: "hist = c # older" and inv: "node_inv cfg n c older"
    by blast
  from restart_cases [OF inv] obtain n1 where n1: "start_node cfg n = Inr n1"
    and ctx: "nd_context n1 = (cm_context c)\<lparr>bc_consensusLogger := None\<rparr>"
    and root: "nd_rootTree n1 = root_hash cfg (cm_stores c)" and pool: "nd_pool n1 = cm_pool c"
    and filed: "bc_header (nd_context n1) \<noteq> None \<longrightarrow> nd_previousFile n1 \<noteq> None"
    and sml: "nd_sml n1 = new_sml_updater" and none: "nd_previousTransactions n1 = None" by metis
  obtain r n2 where run: "infoHandler cfg n1 = (r, n2)" by (metis surj_pair)
  show ?thesis
  proof (cases r)
    case (Inl e)
    with run ctx filed sml none show ?thesis
      by (auto simp: hist n1 pool infoHandler_def obind_def node_updateSml_def Let_def
          split: option.split_asm prod.split_asm)
  next
    case (Inr x)
    with run infoHandler_changes(2,3) [of cfg n1 x n2] show ?thesis
      by (simp add: hist n1 pool root ctx)
  qed
qed

text \<open>The credits of the committed state.\<close>

lemma total_credits_same:
  assumes "vstore_get tx (ds_identities s) = vstore_get tx' (ds_identities s')"
  shows "total_credits tx s = total_credits tx' s'"
proof -
  have "vstore_keys tx (ds_identities s) = vstore_keys tx' (ds_identities s')"
    by (rule set_eqI) (simp add: vstore_keys_iff assms)
  then show ?thesis by (simp add: total_credits_def assms)
qed

lemma total_credits_clear: "total_credits True (cs_state (stores_clear c)) = total_credits False (cs_state c)"
  by (rule total_credits_same)
     (simp add: stores_clear_def stores_populate_def empty_snapshot_def vstore_get_cleared)

lemma total_credits_view:
  "stores_view False c' = stores_view True c \<Longrightarrow> total_credits False (cs_state c') = total_credits True (cs_state c)"
  by (rule total_credits_same) (simp add: stores_view_def)

text \<open>
  C5. Credits over a whole block, beginBlock to commit: the balances and the pool together grow
  by what the accepted transactions mint; but while the flag that fixes the cumulative fees is not
  enabled the pool is overwritten with the fees of the block, and what it held is lost.
\<close>

theorem committed_block_credits:
  assumes "execute_block pf cfg bl n = Some (h, n')" and "output_amounts_nonneg (pf_env pf)"
    and "ledger_ok (cs_state (stores_clear (nd_stores n)))"
  shows "\<exists>n1 flag. begin_and_deliver pf cfg bl n = Some n1 \<and>
    latest_fees_flag cfg (cs_state (nd_stores n1)) (hd_height (bl_header bl)) = Inr flag \<and>
    total_credits False (cs_state (nd_stores n')) + cp_amount (nd_pool n') =
      total_credits False (cs_state (nd_stores n)) +
      minted_in_block pf (cs_state (stores_clear (nd_stores n)), begun_context (bl_header bl) (bl_lastCommitInfo bl))
        (bl_txs bl) +
      (case flag of Some d \<Rightarrow> if js_truthy (document_get d ''enabled'') then cp_amount (nd_pool n) else 0 | None \<Rightarrow> 0)"
proof -
  from execute_block_changes [OF assms(1)] obtain n1 flag where n1: "begin_and_deliver pf cfg bl n = Some n1"
    and flag: "latest_fees_flag cfg (cs_state (nd_stores n1)) (hd_height (bl_header bl)) = Inr flag"
    and view: "stores_view False (nd_stores n') = stores_view True (with_pool (nd_pool n') (nd_stores n1))"
    and pool: "nd_pool n' = update_pool flag (bc_cumulativeFees (nd_context n1)) (nd_pool n)"
    by (auto simp: Let_def)
  from begin_and_deliver_changes [OF n1] obtain s rs where
    run: "deliver_all pf (cs_state (stores_clear (nd_stores n)),
      begun_context (bl_header bl) (bl_lastCommitInfo bl)) (bl_txs bl) = Some ((s, nd_context n1), rs)"
    and s: "cs_state (nd_stores n1) = s" by auto
  have "total_credits False (cs_state (nd_stores n')) = total_credits True s"
    using total_credits_view [OF view] s by (simp add: with_pool_def)
  moreover have "bc_cumulativeFees (begun_context (bl_header bl) (bl_lastCommitInfo bl)) = 0"
    by (simp add: begun_context_def new_BlockExecutionContext_def)
  ultimately show ?thesis
    using block_ledger [OF assms(3,2) run]
    by (intro exI [of _ n1] exI [of _ flag])
       (auto simp: n1 flag total_credits_clear pool update_pool_def CreditsDistributionPool_incrementAmount_def
         CreditsDistributionPool_setAmount_def split: option.split)
qed

lemma create_all: "\<exists>dbs'. create_databases (\<lambda>_. None) cs dbs = (None, dbs')"
  by (induction cs arbitrary: dbs) simp_all

lemma drop_all: "\<exists>dbs'. drop_databases (\<lambda>_. None) cs dbs = (None, dbs')"
  by (induction cs arbitrary: dbs) simp_all

text \<open>
  C6. The commit is not atomic: when the stores are committed and storing the block's context
  fails, the new root hash is the committed one, but a new process finds the context of the block
  before, and the databases of the contracts that the block created are gone.
\<close>

theorem failed_context_store_keeps_block:
  assumes "bc_header (nd_context n) = Some header" and "cs_isStarted (nd_stores n)"
    and "latest_fees_flag cfg (cs_state (nd_stores n)) (hd_height header) = Inr flag"
    and "nc_io cfg = io\<lparr>io_storeContext := (\<lambda>_. Some e)\<rparr>" and "io_createDatabase io = (\<lambda>_. None)"
    and "io_dropDatabase io = (\<lambda>_. None)" and "io_storePool io = None" and "io_clone io = None" and "io_commit io = None"
  shows "\<exists>n'. commitHandler cfg n = (Inl e, n') \<and>
    (let c = stores_publish (with_pool (update_pool flag (bc_cumulativeFees (nd_context n)) (nd_pool n)) (nd_stores n)) in
    committed_stores (nd_stores n') = committed_stores c \<and>
    set (nd_databases n') = set (nd_databases n) - dc_id ` set (bc_dataContracts (nd_context n)) \<and>
    (\<forall>m. start_node cfg n' = Inr m \<longrightarrow> nd_rootTree m = root_hash cfg c \<and>
       BlockExecutionContextRepository_fetch (nc_decodeContext cfg) KEY_PREFIX_CURRENT (nd_contextDb n) =
         Inr (nd_context m)))"
proof -
  let ?n = "n\<lparr>nd_context := setConsensusLogger ''commit'' (nd_context n)\<rparr>"
  let ?pool = "update_pool flag (bc_cumulativeFees (nd_context n)) (nd_pool n)"
  let ?c = "with_pool ?pool (nd_stores n)" and ?cs = "bc_dataContracts (nd_context n)"
  obtain dbs where dbs: "create_databases (\<lambda>_. None) ?cs (nd_databases n) = (None, dbs)"
    using create_all by blast
  obtain dbs' where dbs': "drop_databases (\<lambda>_. None) ?cs dbs = (None, dbs')"
    using drop_all by blast
  let ?n1 = "?n\<lparr>nd_databases := dbs, nd_pool := ?pool, nd_stores := (stores_publish ?c)\<lparr>cs_isStarted := False\<rparr>\<rparr>"
  have block: "commit_block cfg (hd_height header) ?n = (Some e, ?n1, stores_toObject ?c)"
    using assms(2-) dbs
    by (simp add: commit_block_def obind_def set_databases_def setConsensusLogger_def latest_fees_flag_def store_pool_def
        attempt_def node_commit_def stores_commit_def store_context_def with_pool_def)
  have failed: "commit_failed cfg e ?n1 = (Some e, ?n1\<lparr>nd_databases := dbs'\<rparr>)"
    using assms(4-) dbs' by (simp add: commit_failed_def obind_def set_databases_def setConsensusLogger_def)
  have "commitHandler cfg n = (Inl e, ?n1\<lparr>nd_databases := dbs'\<rparr>)"
    using assms(1) block failed by (simp add: commitHandler_def)
  moreover have "set dbs' = set (nd_databases n) - dc_id ` set ?cs"
    using create_databases_cases [OF dbs] drop_databases_cases [OF dbs'] by auto
  moreover have "root_hash cfg ((stores_publish ?c)\<lparr>cs_isStarted := False\<rparr>) = root_hash cfg (stores_publish ?c)"
    by (simp add: root_hash_def)
  ultimately show ?thesis
    by (intro exI conjI) (auto simp: Let_def start_node_def rbind_eq_Inr_iff populate_all)
qed

definition no_failures :: io_failures where
  "no_failures = \<lparr>io_createDatabase = (\<lambda>_. None), io_dropDatabase = (\<lambda>_. None), io_storePool = None,
     io_clone = None, io_start = None, io_commit = None, io_abort = None, io_storeContext = (\<lambda>_. None),
     io_createPreviousDatabase = (\<lambda>_. None), io_populatePrevious = None, io_commitPrevious = None,
     io_storePreviousFile = None\<rparr>"

definition sample_info :: last_commit_info where
  "sample_info = \<lparr>lc_quorumHash = [3], lc_stateSignature = [9]\<rparr>"

definition sample_header :: block_header where
  "sample_header = \<lparr>hd_height = 2, hd_coreChainLockedHeight = 9, hd_time_seconds = 0, hd_app_version = 1\<rparr>"

definition sample_block :: block where
  "sample_block = \<lparr>bl_header = sample_header, bl_lastCommitInfo = sample_info, bl_chainLocks = [],
     bl_txs = [Some [1, 0, 0, 0, 6]]\<rparr>"

definition lifecycle_config :: "(unit, bool) node_config" where
  "lifecycle_config = \<lparr>nc_latestProtocolVersion = 1, nc_initialCoreChainLockedHeight = 9, nc_smlMaxListsLimit = 2,
     nc_protx = (\<lambda>_ _. Inr ()), nc_quorums = (\<lambda>_. sample_quorum_calls), nc_llmqType = 100,
     nc_dpnsContractId = None, nc_dpnsContractBlockHeight = 0, nc_dashpayContractId = None,
     nc_dashpayContractBlockHeight = 0, nc_featureFlagContractId = None, nc_featureFlagContractBlockHeight = 0,
     nc_fetchFlags = (\<lambda>_ _ _ _. Inr []), nc_encodeContext = (\<lambda>_. [1]),
     nc_decodeContext = (\<lambda>_. Inr \<lparr>co_dataContracts = [], co_cumulativeFees = 4, co_header = sample_header,
        co_lastCommitInfo = sample_info, co_validTxs = 1, co_invalidTxs = 0, co_consensusLogger = None\<rparr>),
     nc_rootHash = (\<lambda>c. concat (map fst (vs_db (ds_identities (cs_state c))))),
     nc_io = no_failures\<rparr>"

definition sample_stores :: chain_stores where
  "sample_stores = \<lparr>cs_state = empty_state, cs_common = empty_vstore, cs_isStarted = False\<rparr>"

definition sample_node :: "unit node" where
  "sample_node = \<lparr>nd_stores = sample_stores, nd_pool = new_CreditsDistributionPool,
     nd_context = new_BlockExecutionContext, nd_previousContext = new_BlockExecutionContext,
     nd_contextDb = [], nd_databases = [], nd_rootTree = [], nd_previousStores = sample_stores,
     nd_previousTransactions = None, nd_previousDatabases = [], nd_previousFile = None, nd_previousRootTree = [],
     nd_latestChainLock = Some \<lparr>cl_height = 9, cl_blockHash = [], cl_signature = []\<rparr>,
     nd_sml = new_sml_updater, nd_validatorSet = new_ValidatorSet, nd_protocolVersion = None\<rparr>"

definition delivered_ctx :: block_execution_context where
  "delivered_ctx = sample_ctx_after\<lparr>bc_lastCommitInfo := Some sample_info\<rparr>"
lemma sample_deliver:
  "deliverTx sample_platform (empty_state, begun_context sample_header sample_info) (Some [1, 0, 0, 0, 6]) =
     (Response (), sample_state, delivered_ctx)"
  by code_simp

definition delivered_node :: "unit node" where
  "delivered_node = sample_node\<lparr>nd_stores := sample_stores\<lparr>cs_state := sample_state, cs_isStarted := True\<rparr>,
     nd_context := delivered_ctx, nd_sml := \<lparr>su_latestRequestedHeight = 9, su_store = Some [(), (), ()]\<rparr>,
     nd_protocolVersion := Some 1\<rparr>"

lemma sample_begin: "beginBlockHandler lifecycle_config sample_header sample_info [] sample_node =
   Some (None, sample_node\<lparr>nd_stores := sample_stores\<lparr>cs_isStarted := True\<rparr>,
     nd_context := begun_context sample_header sample_info,
     nd_sml := \<lparr>su_latestRequestedHeight = 9, su_store = Some [(), (), ()]\<rparr>,
     nd_protocolVersion := Some 1\<rparr>)"
  by code_simp

lemma sample_begin_and_deliver:
  "begin_and_deliver sample_platform lifecycle_config sample_block sample_node = Some delivered_node"
  by (simp add: begin_and_deliver_def sample_block_def sample_begin)
     (simp add: deliver_node_def sample_node_def sample_stores_def sample_deliver delivered_node_def)

lemma sample_end: "endBlockHandler lifecycle_config 2 delivered_node =
   (Inr \<lparr>re_consensusParamUpdates = None, re_validatorSetUpdate = None, re_nextCoreChainLockUpdate = None\<rparr>,
    delivered_node\<lparr>nd_context := setConsensusLogger ''endBlock'' delivered_ctx\<rparr>)"
  by code_simp

lemma sample_commit:
  "map_prod (map_sum (\<lambda>_. ()) id) (\<lambda>n. (nd_context n, nd_previousContext n)) (commitHandler lifecycle_config
    (delivered_node\<lparr>nd_context := setConsensusLogger ''endBlock'' delivered_ctx\<rparr>)) =
   (Inr [6], setConsensusLogger ''commit'' delivered_ctx, new_BlockExecutionContext)"
  by code_simp

lemma sample_executes:
  obtains n where "execute_block sample_platform lifecycle_config sample_block sample_node = Some ([6], n)"
    and "nd_context n = setConsensusLogger ''commit'' delivered_ctx" and "nd_previousContext n = new_BlockExecutionContext"
proof -
  obtain n where "commitHandler lifecycle_config
      (delivered_node\<lparr>nd_context := setConsensusLogger ''endBlock'' delivered_ctx\<rparr>) = (Inr [6], n)"
    and ctx: "nd_context n = setConsensusLogger ''commit'' delivered_ctx" "nd_previousContext n = new_BlockExecutionContext"
    using sample_commit by (auto simp: map_prod_def map_sum_def split: prod.split_asm sum.split_asm)
  then have "execute_block sample_platform lifecycle_config sample_block sample_node = Some ([6], n)"
    using sample_end by (simp add: execute_block_def sample_begin_and_deliver) (simp add: sample_block_def sample_header_def)
  with ctx that show thesis by blast
qed

lemma sample_fresh: "fresh_node sample_node"
  by (simp add: fresh_node_def sample_node_def sample_stores_def committed_stores_def stores_clear_def
      stores_populate_def empty_snapshot_def empty_state_def empty_vstore_def)

lemma sample_history:
  obtains n where "node_reachable sample_platform lifecycle_config n [last_committed n, last_committed sample_node]"
    and "contexts_decode lifecycle_config [last_committed n, last_committed sample_node]"
    and "nd_context n = setConsensusLogger ''commit'' delivered_ctx"
proof -
  from sample_executes obtain n where run: "execute_block sample_platform lifecycle_config sample_block sample_node = Some ([6], n)"
    and ctx: "nd_context n = setConsensusLogger ''commit'' delivered_ctx" "nd_previousContext n = new_BlockExecutionContext"
    by blast
  have "decodes lifecycle_config (setConsensusLogger ''commit'' delivered_ctx)"
    by (simp add: decodes_def BlockExecutionContext_toObject_def setConsensusLogger_def delivered_ctx_def
        lifecycle_config_def sample_ctx_after_def sample_ctx_def new_BlockExecutionContext_def sample_header_def)
  moreover have "decodes lifecycle_config new_BlockExecutionContext"
    by (simp add: decodes_def BlockExecutionContext_toObject_def new_BlockExecutionContext_def)
  ultimately have "contexts_decode lifecycle_config [last_committed n, last_committed sample_node]"
    using ctx by (simp add: contexts_decode_def last_committed_def sample_node_def)
  with that executed [OF genesis [OF sample_fresh] run] ctx(1) show thesis by blast
qed

theorem previous_stores_lag_witness:
  "\<exists>n :: unit node. committed_stores (nd_stores n) = cm_stores (last_committed n) \<and>
     committed_stores (nd_previousStores n) = cm_stores (last_committed sample_node)"
proof -
  from sample_history obtain n where
    "node_reachable sample_platform lifecycle_config n [last_committed n, last_committed sample_node]"
    "contexts_decode lifecycle_config [last_committed n, last_committed sample_node]" by blast
  from previous_stores_lag [OF this] show ?thesis by (intro exI [of _ n]) simp
qed

theorem restart_resumes_witness:
  "\<exists>n n1. start_node lifecycle_config n = Inr n1 \<and>
     (\<exists>r n2. infoHandler lifecycle_config n1 = (Inr r, n2) \<and> ri_lastBlockHeight r = 2)"
proof -
  from sample_history obtain n where
    reach: "node_reachable sample_platform lifecycle_config n [last_committed n, last_committed sample_node]"
    "contexts_decode lifecycle_config [last_committed n, last_committed sample_node]"
    and ctx: "nd_context n = setConsensusLogger ''commit'' delivered_ctx" by blast
  obtain n1 where n1: "start_node lifecycle_config n = Inr n1"
    and info: "case infoHandler lifecycle_config n1 of
       (Inr r, _) \<Rightarrow> ri_lastBlockAppHash r = root_hash lifecycle_config (cm_stores (last_committed n)) \<and>
         ri_lastBlockHeight r = (case bc_header (cm_context (last_committed n)) of None \<Rightarrow> 0 | Some h \<Rightarrow> hd_height h)
     | (Inl e, _) \<Rightarrow> \<exists>h u. bc_header (cm_context (last_committed n)) = Some h \<and>
         updateSimplifiedMasternodeList (nc_protx lifecycle_config) (nc_smlMaxListsLimit lifecycle_config)
           (hd_coreChainLockedHeight h) new_sml_updater = (Some e, u)"
    using restart_resumes [OF reach, unfolded list.sel] by (elim exE conjE) rule
  have header: "bc_header (cm_context (last_committed n)) = Some sample_header"
    by (simp add: last_committed_def ctx setConsensusLogger_def delivered_ctx_def sample_ctx_after_def sample_ctx_def
        sample_header_def)
  have "updateSimplifiedMasternodeList (nc_protx lifecycle_config) (nc_smlMaxListsLimit lifecycle_config)
      (hd_coreChainLockedHeight sample_header) new_sml_updater =
      (None, \<lparr>su_latestRequestedHeight = 9, su_store = Some [(), (), ()]\<rparr>)"
    by code_simp
  with info header have "\<exists>r n2. infoHandler lifecycle_config n1 = (Inr r, n2) \<and> ri_lastBlockHeight r = 2"
    by (cases "infoHandler lifecycle_config n1"; cases "fst (infoHandler lifecycle_config n1)")
       (auto simp: sample_header_def)
  with n1 show ?thesis by blast
qed

theorem committed_block_credits_witness:
  "\<exists>n' :: unit node. total_credits False (cs_state (nd_stores n')) + cp_amount (nd_pool n') =
     minted_in_block sample_platform (cs_state (stores_clear sample_stores), begun_context sample_header sample_info)
       [Some [1, 0, 0, 0, 6]]"
proof -
  from sample_executes obtain n' where
    run: "execute_block sample_platform lifecycle_config sample_block sample_node = Some ([6], n')" by blast
  have ok: "ledger_ok (cs_state (stores_clear (nd_stores sample_node)))"
    by (simp add: ledger_ok_def balances_nonneg_def identities_keyed_def fetchIdentity_def vstore_get_def
        stores_clear_def stores_populate_def empty_snapshot_def sample_node_def sample_stores_def empty_state_def empty_vstore_def)
  have start: "total_credits False (cs_state sample_stores) = 0" "cp_amount (nd_pool sample_node) = 0"
    "nd_stores sample_node = sample_stores"
    by (simp_all add: sample_node_def sample_stores_def total_credits_def vstore_keys_def empty_state_def
        empty_vstore_def new_CreditsDistributionPool_def)
  have "output_amounts_nonneg (pf_env sample_platform)"
    by (simp add: sample_platform_def sample_env_amounts)
  from committed_block_credits [OF run this ok] obtain flag where
    "total_credits False (cs_state (nd_stores n')) + cp_amount (nd_pool n') =
      minted_in_block sample_platform (cs_state (stores_clear sample_stores), begun_context sample_header sample_info)
        [Some [1, 0, 0, 0, 6]] +
      (case flag of Some d \<Rightarrow> if js_truthy (document_get d ''enabled'') then cp_amount (nd_pool sample_node) else 0
       | None \<Rightarrow> 0)"
    by (auto simp: start(1,3) sample_block_def)
  then show ?thesis using start(2) by (auto split: option.split_asm if_split_asm)
qed

theorem failed_context_store_keeps_block_witness:
  "\<exists>n'. commitHandler (lifecycle_config\<lparr>nc_io := no_failures\<lparr>io_storeContext := (\<lambda>_. Some JsTypeError)\<rparr>\<rparr>)
     delivered_node = (Inl JsTypeError, n') \<and> fetchIdentity False (cs_state (nd_stores n')) [6] \<noteq> None"
proof -
  let ?cfg = "lifecycle_config\<lparr>nc_io := no_failures\<lparr>io_storeContext := (\<lambda>_. Some JsTypeError)\<rparr>\<rparr>"
  have "bc_header (nd_context delivered_node) = Some sample_header" "cs_isStarted (nd_stores delivered_node)"
    "latest_fees_flag ?cfg (cs_state (nd_stores delivered_node)) (hd_height sample_header) = Inr None"
    by (simp_all add: delivered_node_def delivered_ctx_def sample_ctx_after_def sample_ctx_def sample_header_def
        sample_stores_def latest_fees_flag_def getLatestFeatureFlag_def lifecycle_config_def)
  from failed_context_store_keeps_block [OF this, where io = no_failures and e = JsTypeError] obtain n' where
    run: "commitHandler ?cfg delivered_node = (Inl JsTypeError, n')"
    and same: "committed_stores (nd_stores n') = committed_stores (stores_publish (with_pool
        (update_pool None (bc_cumulativeFees (nd_context delivered_node)) (nd_pool delivered_node)) (nd_stores delivered_node)))"
    by (auto simp: no_failures_def Let_def)
  from same have "vs_db (ds_identities (cs_state (nd_stores n'))) =
      vs_db (vstore_commit (ds_identities sample_state))"
    by (simp add: committed_stores_eq committed_dbs_def stores_publish_def with_pool_def delivered_node_def)
  then have "fetchIdentity False (cs_state (nd_stores n')) [6] \<noteq> None"
    by (simp add: fetchIdentity_def vstore_get_def vstore_commit_def sample_state_def)
  with run show ?thesis by blast
qed

end
