(* ===== verification/RootTree.thy ===== *)
theory RootTree
  imports MerkDb
begin

text \<open>
  The tree over the six stores of js-drive, \<open>lib/rootTree/RootTree.js\<close>, with its leaves
  (\<open>CommonStoreRootTreeLeaf.js\<close> and the leaves of identities, public keys, contracts, documents
  and spent outpoints). The merkle tree is the package \<open>js-merkle\<close>, a parameter; the hashes and
  the proofs of a store come from the merk database.
\<close>

section \<open>The stores and their leaves\<close>

record 'db root_stores =
  rs_common :: 'db
  rs_identities :: 'db
  rs_publicKeyToIdentityId :: 'db
  rs_dataContracts :: 'db
  rs_documents :: 'db
  rs_spentAssetLockTransactions :: 'db

datatype root_tree_error =
    InvalidLeafIndexError nat nat
  | StoreError drive_error

record 'db root_tree_leaf =
  lf_index :: nat
  lf_store :: "'db root_stores \<Rightarrow> 'db"
  lf_hasProof :: bool

definition CommonStoreRootTreeLeaf :: "'db root_tree_leaf" where
  "CommonStoreRootTreeLeaf = \<lparr>lf_index = 0, lf_store = rs_common, lf_hasProof = False\<rparr>"

definition IdentitiesStoreRootTreeLeaf :: "'db root_tree_leaf" where
  "IdentitiesStoreRootTreeLeaf = \<lparr>lf_index = 1, lf_store = rs_identities, lf_hasProof = True\<rparr>"

definition PublicKeyToIdentityIdStoreRootTreeLeaf :: "'db root_tree_leaf" where
  "PublicKeyToIdentityIdStoreRootTreeLeaf =
     \<lparr>lf_index = 2, lf_store = rs_publicKeyToIdentityId, lf_hasProof = True\<rparr>"

definition DataContractsStoreRootTreeLeaf :: "'db root_tree_leaf" where
  "DataContractsStoreRootTreeLeaf = \<lparr>lf_index = 3, lf_store = rs_dataContracts, lf_hasProof = True\<rparr>"

definition DocumentsStoreRootTreeLeaf :: "'db root_tree_leaf" where
  "DocumentsStoreRootTreeLeaf = \<lparr>lf_index = 4, lf_store = rs_documents, lf_hasProof = True\<rparr>"

definition SpentAssetLockTransactionsStoreRootTreeLeaf :: "'db root_tree_leaf" where
  "SpentAssetLockTransactionsStoreRootTreeLeaf =
     \<lparr>lf_index = 5, lf_store = rs_spentAssetLockTransactions, lf_hasProof = True\<rparr>"

definition leaf_getHash :: "'db merk \<Rightarrow> 'db root_stores \<Rightarrow> 'db root_tree_leaf \<Rightarrow> buffer" where
  "leaf_getHash M s leaf = MerkDbStore_getRootHash M (lf_store leaf s)"

text \<open>The leaf of the common store inherits \<open>getProof\<close>, which throws.\<close>

definition leaf_getProof ::
  "'db merk \<Rightarrow> 'db root_stores \<Rightarrow> 'db root_tree_leaf \<Rightarrow> buffer list \<Rightarrow> root_tree_error + buffer" where
  "leaf_getProof M s leaf leafKeys =
     (if \<not> lf_hasProof leaf then Inl (StoreError (Error ''Is not implemented''))
      else map_sum StoreError id (MerkDbStore_getProof M (lf_store leaf s) leafKeys))"

section \<open>RootTree\<close>

record merkle_package =
  mt_getRoot :: "buffer list \<Rightarrow> buffer"
  mt_getProof :: "buffer list \<Rightarrow> nat list \<Rightarrow> buffer"

record 'db root_tree =
  rt_leaves :: "'db root_tree_leaf list"
  rt_leafHashes :: "buffer list"

definition RootTree_rebuild :: "'db merk \<Rightarrow> 'db root_stores \<Rightarrow> 'db root_tree \<Rightarrow> 'db root_tree" where
  "RootTree_rebuild M s t = t\<lparr>rt_leafHashes := map (leaf_getHash M s) (rt_leaves t)\<rparr>"

fun check_leaf_indices :: "nat \<Rightarrow> 'db root_tree_leaf list \<Rightarrow> root_tree_error + unit" where
  "check_leaf_indices index [] = Inr ()"
| "check_leaf_indices index (leaf # leaves) =
     (if lf_index leaf \<noteq> index then Inl (InvalidLeafIndexError (lf_index leaf) index)
      else check_leaf_indices (Suc index) leaves)"

definition new_RootTree ::
  "'db merk \<Rightarrow> 'db root_stores \<Rightarrow> 'db root_tree_leaf list \<Rightarrow> root_tree_error + 'db root_tree" where
  "new_RootTree M s leaves =
     rbind (check_leaf_indices 0 leaves) (\<lambda>_.
       Inr (RootTree_rebuild M s \<lparr>rt_leaves = leaves, rt_leafHashes = []\<rparr>))"

definition zero_hash :: "buffer \<Rightarrow> bool" where
  "zero_hash hash \<longleftrightarrow> hash = replicate (length hash) 0"

definition RootTree_getRootHash :: "merkle_package \<Rightarrow> 'db root_tree \<Rightarrow> buffer" where
  "RootTree_getRootHash mt t =
     (if find (\<lambda>hash. \<not> zero_hash hash) (rt_leafHashes t) = None then []
      else mt_getRoot mt (rt_leafHashes t))"

definition RootTree_getProof :: "merkle_package \<Rightarrow> 'db root_tree \<Rightarrow> 'db root_tree_leaf list \<Rightarrow> buffer" where
  "RootTree_getProof mt t leaves = mt_getProof mt (rt_leafHashes t) (map lf_index leaves)"

record full_proof =
  fp_rootTreeProof :: buffer
  fp_storeTreeProof :: buffer

definition RootTree_getFullProofForOneLeaf ::
  "'db merk \<Rightarrow> merkle_package \<Rightarrow> 'db root_stores \<Rightarrow> 'db root_tree \<Rightarrow> 'db root_tree_leaf \<Rightarrow> buffer list \<Rightarrow>
   root_tree_error + full_proof" where
  "RootTree_getFullProofForOneLeaf M mt s t leaf leafKeys =
     rbind (leaf_getProof M s leaf leafKeys) (\<lambda>storeTreeProof.
       Inr \<lparr>fp_rootTreeProof = RootTree_getProof mt t [leaf], fp_storeTreeProof = storeTreeProof\<rparr>)"

text \<open>The trees of the container: the six leaves, in the order of their indices.\<close>

definition drive_leaves :: "'db root_tree_leaf list" where
  "drive_leaves = [CommonStoreRootTreeLeaf, IdentitiesStoreRootTreeLeaf, PublicKeyToIdentityIdStoreRootTreeLeaf,
     DataContractsStoreRootTreeLeaf, DocumentsStoreRootTreeLeaf, SpentAssetLockTransactionsStoreRootTreeLeaf]"

lemmas leaf_defs = CommonStoreRootTreeLeaf_def IdentitiesStoreRootTreeLeaf_def
  PublicKeyToIdentityIdStoreRootTreeLeaf_def DataContractsStoreRootTreeLeaf_def DocumentsStoreRootTreeLeaf_def
  SpentAssetLockTransactionsStoreRootTreeLeaf_def

lemma check_leaf_indices_iff:
  "check_leaf_indices n leaves = Inr () \<longleftrightarrow> map lf_index leaves = [n ..< n + length leaves]"
  by (induction n leaves rule: check_leaf_indices.induct) (auto simp: upt_rec)

lemma drive_tree_builds:
  "new_RootTree M s drive_leaves =
     Inr \<lparr>rt_leaves = drive_leaves, rt_leafHashes = map (leaf_getHash M s) drive_leaves\<rparr>"
  by (simp add: new_RootTree_def RootTree_rebuild_def drive_leaves_def leaf_defs)

lemma root_hash_empty_iff:
  "RootTree_getRootHash mt t = [] \<longleftrightarrow>
   (\<forall>h \<in> set (rt_leafHashes t). zero_hash h) \<or> mt_getRoot mt (rt_leafHashes t) = []"
  by (auto simp: RootTree_getRootHash_def find_None_iff)

section \<open>What a full proof proves\<close>

text \<open>
  What the two packages promise: a verifier of merkle proofs accepts the proof of some leaves
  of a tree with their hashes, and only hashes that the tree has there; a verifier of merk
  proofs accepts the proof of some keys with what the database holds under them, and nothing else.
\<close>

definition merkle_documented ::
  "merkle_package \<Rightarrow> (buffer \<Rightarrow> buffer \<Rightarrow> nat \<Rightarrow> (nat \<times> buffer) list \<Rightarrow> bool) \<Rightarrow> bool" where
  "merkle_documented mt verify \<longleftrightarrow>
     (\<forall>hs is lhs. set is \<subseteq> {..< length hs} \<and> map fst lhs = is \<longrightarrow>
        (verify (mt_getProof mt hs is) (mt_getRoot mt hs) (length hs) lhs \<longleftrightarrow> map snd lhs = map ((!) hs) is))"

definition merk_proofs_documented ::
  "'db merk \<Rightarrow> (buffer \<Rightarrow> buffer \<Rightarrow> (buffer \<times> buffer option) list \<Rightarrow> bool) \<Rightarrow> bool" where
  "merk_proofs_documented M verify \<longleftrightarrow>
     (\<forall>db ks p kvs. m_proveSync M db ks = Inr p \<and> map fst kvs = ks \<longrightarrow>
        (verify p (m_rootHash M db) kvs \<longleftrightarrow> map snd kvs = map (merk_lookup M db) ks))"

text \<open>
  What a client checks: the values against some hash of the store, and that hash against the
  root hash that the block's signature covers.
\<close>

definition client_accepts ::
  "(buffer \<Rightarrow> buffer \<Rightarrow> nat \<Rightarrow> (nat \<times> buffer) list \<Rightarrow> bool) \<Rightarrow>
   (buffer \<Rightarrow> buffer \<Rightarrow> (buffer \<times> buffer option) list \<Rightarrow> bool) \<Rightarrow> buffer \<Rightarrow> nat \<Rightarrow> full_proof \<Rightarrow>
   buffer \<Rightarrow> (buffer \<times> buffer option) list \<Rightarrow> bool" where
  "client_accepts vRoot vStore rootHash index p storeHash kvs \<longleftrightarrow>
     vRoot (fp_rootTreeProof p) rootHash 6 [(index, storeHash)] \<and> vStore (fp_storeTreeProof p) storeHash kvs"

lemma drive_leaf_index:
  "leaf \<in> set drive_leaves \<Longrightarrow> lf_index leaf < 6 \<and> drive_leaves ! lf_index leaf = leaf"
  by (auto simp: drive_leaves_def leaf_defs)

text \<open>
  C33. A full proof of a leaf, made from the stores over which the tree was built, convinces a
  client of exactly what the store holds: the claim that the sorted keys have some values is
  accepted, under the root hash and the hash of that store, if and only if the store holds them.
\<close>

theorem full_proof_sound_and_complete:
  assumes "merkle_documented mt vRoot" and "merk_proofs_documented M vStore"
    and "new_RootTree M s drive_leaves = Inr t" and "leaf \<in> set drive_leaves"
    and "RootTree_getFullProofForOneLeaf M mt s t leaf ks = Inr p" and "RootTree_getRootHash mt t \<noteq> []"
    and "map fst kvs = sort ks"
  shows "(\<exists>h. client_accepts vRoot vStore (RootTree_getRootHash mt t) (lf_index leaf) p h kvs) \<longleftrightarrow>
    map snd kvs = map (merk_lookup M (lf_store leaf s)) (sort ks)"
proof -
  have t: "t = \<lparr>rt_leaves = drive_leaves, rt_leafHashes = map (leaf_getHash M s) drive_leaves\<rparr>"
    using assms(3) by (simp add: drive_tree_builds)
  have six: "length (rt_leafHashes t) = 6" by (simp add: t drive_leaves_def)
  have root: "RootTree_getRootHash mt t = mt_getRoot mt (rt_leafHashes t)"
    using assms(6) by (auto simp: RootTree_getRootHash_def split: if_split_asm)
  from assms(5) obtain sp where sp: "m_proveSync M (lf_store leaf s) (sort ks) = Inr sp"
    and p: "p = \<lparr>fp_rootTreeProof = mt_getProof mt (rt_leafHashes t) [lf_index leaf], fp_storeTreeProof = sp\<rparr>"
    by (auto simp: RootTree_getFullProofForOneLeaf_def rbind_eq_Inr_iff leaf_getProof_def MerkDbStore_getProof_def
        RootTree_getProof_def map_sum_def split: if_split_asm sum.split_asm)
  have "vRoot (fp_rootTreeProof p) (RootTree_getRootHash mt t) 6 [(lf_index leaf, h)] \<longleftrightarrow>
      h = m_rootHash M (lf_store leaf s)" for h
  proof -
    have "set [lf_index leaf] \<subseteq> {..< length (rt_leafHashes t)} \<and>
        map fst [(lf_index leaf, h)] = [lf_index leaf]"
      using drive_leaf_index [OF assms(4)] six by simp
    with assms(1) [unfolded merkle_documented_def, rule_format, of "[lf_index leaf]" "rt_leafHashes t" "[(lf_index leaf, h)]"]
    have "vRoot (mt_getProof mt (rt_leafHashes t) [lf_index leaf]) (mt_getRoot mt (rt_leafHashes t))
        (length (rt_leafHashes t)) [(lf_index leaf, h)] \<longleftrightarrow>
        map snd [(lf_index leaf, h)] = map ((!) (rt_leafHashes t)) [lf_index leaf]" by simp
    moreover have "rt_leafHashes t ! lf_index leaf = m_rootHash M (lf_store leaf s)"
      using drive_leaf_index [OF assms(4)] six
      by (simp add: t nth_map leaf_getHash_def MerkDbStore_getRootHash_def)
    moreover have "fp_rootTreeProof p = mt_getProof mt (rt_leafHashes t) [lf_index leaf]" by (simp add: p)
    ultimately show ?thesis by (simp add: root six)
  qed
  moreover have "vStore sp (m_rootHash M (lf_store leaf s)) kvs \<longleftrightarrow>
      map snd kvs = map (merk_lookup M (lf_store leaf s)) (sort ks)"
    using assms(2,7) sp unfolding merk_proofs_documented_def by blast
  ultimately show ?thesis
    by (simp add: client_accepts_def p)
qed

text \<open>A tree whose root spells out its hashes, and a database of one optional entry.\<close>

definition spell :: "buffer \<Rightarrow> buffer" where
  "spell b = replicate (length b) 1 @ 0 # b"

fun unspell :: "nat \<Rightarrow> buffer \<Rightarrow> buffer list" where
  "unspell 0 bs = []"
| "unspell (Suc n) bs =
     (let k = length (takeWhile (\<lambda>x. x = 1) bs); rest = drop (Suc k) bs
      in take k rest # unspell n (drop k rest))"

definition spelled_merkle :: merkle_package where
  "spelled_merkle = \<lparr>mt_getRoot = (\<lambda>hs. concat (map spell hs)), mt_getProof = (\<lambda>_ _. [])\<rparr>"

definition spelled_verify :: "buffer \<Rightarrow> buffer \<Rightarrow> nat \<Rightarrow> (nat \<times> buffer) list \<Rightarrow> bool" where
  "spelled_verify p root n lhs \<longleftrightarrow> (\<forall>(i, h) \<in> set lhs. i < n \<and> unspell n root ! i = h)"

definition entry_merk :: "bool merk" where
  "entry_merk = \<lparr>m_getSync = (\<lambda>db k. if db \<and> k = [1] then Inr [7] else Inl ''key not found''),
     m_commitSync = (\<lambda>db ops. Inr db), m_rootHash = (\<lambda>db. if db then [1] else [0]), m_proveSync = (\<lambda>db ks. Inr [])\<rparr>"

definition entry_verify :: "buffer \<Rightarrow> buffer \<Rightarrow> (buffer \<times> buffer option) list \<Rightarrow> bool" where
  "entry_verify p root kvs \<longleftrightarrow> map snd kvs = map (\<lambda>(k, _). if root = [1] \<and> k = [1] then Some [7] else None) kvs"

lemma take_ones: "takeWhile (\<lambda>x. x = 1) (replicate n 1 @ 0 # bs) = replicate n (1 :: byte)"
  by (induction n) simp_all

lemma unspell_spell: "unspell (Suc n) (spell b @ rest) = b # unspell n rest"
proof -
  have "takeWhile (\<lambda>x. x = 1) (spell b @ rest) = replicate (length b) 1"
    by (simp add: spell_def take_ones)
  then show ?thesis by (simp add: spell_def)
qed

lemma unspell_root: "unspell (length hs) (concat (map spell hs)) = hs"
  by (induction hs) (simp_all add: unspell_spell del: unspell.simps(2))

lemma spelled_merkle_documented: "merkle_documented spelled_merkle spelled_verify"
  unfolding merkle_documented_def
proof (intro allI impI)
  fix hs :: "buffer list" and indices and lhs :: "(nat \<times> buffer) list"
  assume "set indices \<subseteq> {..< length hs} \<and> map fst lhs = indices"
  then have inside: "\<forall>x \<in> set lhs. fst x < length hs" and indices: "indices = map fst lhs" by force+
  show "spelled_verify (mt_getProof spelled_merkle hs indices) (mt_getRoot spelled_merkle hs) (length hs) lhs \<longleftrightarrow>
      map snd lhs = map ((!) hs) indices"
    using inside by (auto simp: indices spelled_verify_def spelled_merkle_def unspell_root split_def)
qed

lemma entry_merk_documented: "merk_proofs_documented entry_merk entry_verify"
  by (auto simp: merk_proofs_documented_def entry_merk_def entry_verify_def merk_lookup_def split_def)

definition entry_stores :: "bool root_stores" where
  "entry_stores = \<lparr>rs_common = False, rs_identities = True, rs_publicKeyToIdentityId = False,
     rs_dataContracts = False, rs_documents = False, rs_spentAssetLockTransactions = False\<rparr>"

theorem full_proof_sound_and_complete_witness:
  "\<exists>t p. new_RootTree entry_merk entry_stores drive_leaves = Inr t \<and>
     RootTree_getFullProofForOneLeaf entry_merk spelled_merkle entry_stores t IdentitiesStoreRootTreeLeaf [[2], [1]] = Inr p \<and>
     (\<exists>h. client_accepts spelled_verify entry_verify (RootTree_getRootHash spelled_merkle t) 1 p h
        [([1], Some [7]), ([2], None)])"
proof -
  let ?t = "\<lparr>rt_leaves = drive_leaves, rt_leafHashes = map (leaf_getHash entry_merk entry_stores) drive_leaves\<rparr>"
  obtain p where p: "RootTree_getFullProofForOneLeaf entry_merk spelled_merkle entry_stores ?t
      IdentitiesStoreRootTreeLeaf [[2], [1]] = Inr p"
    by (simp add: RootTree_getFullProofForOneLeaf_def leaf_getProof_def MerkDbStore_getProof_def entry_merk_def leaf_defs)
  have root: "RootTree_getRootHash spelled_merkle ?t \<noteq> []"
    by (simp add: root_hash_empty_iff drive_leaves_def leaf_defs leaf_getHash_def MerkDbStore_getRootHash_def
        entry_merk_def entry_stores_def zero_hash_def spelled_merkle_def spell_def)
  have member: "IdentitiesStoreRootTreeLeaf \<in> set drive_leaves" by (simp add: drive_leaves_def)
  have sorted: "map fst [([1::byte], Some [7::byte]), ([2], None)] = sort [[2], [1]]" by simp
  have held: "map snd [([1::byte], Some [7::byte]), ([2], None)] =
      map (merk_lookup entry_merk (lf_store IdentitiesStoreRootTreeLeaf entry_stores)) (sort [[2], [1]])"
    by (simp add: merk_lookup_def entry_merk_def entry_stores_def leaf_defs)
  from full_proof_sound_and_complete [OF spelled_merkle_documented entry_merk_documented drive_tree_builds member p root sorted]
    held p show ?thesis by (auto simp: drive_tree_builds leaf_defs)
qed

end
