(* ===== verification/DocumentRepository.thy ===== *)
theory DocumentRepository
  imports IdentityTransitions MongoQuery
begin

text \<open>
  Documents and their index: \<open>lib/document/DocumentIndexedStoreRepository.js\<close> keeps every
  document twice, in the authenticated store and in a MongoDB collection that is searched
  (\<open>mongoDbRepository/DocumentMongoDbRepository.js\<close>, \<open>createDocumentMongoDbRepositoryFactory.js\<close>,
  \<open>DocumentDatabaseManager.js\<close>), and \<open>fetchDocumentsFactory.js\<close> searches it for the handlers.
  The MongoDB client is a parameter; \<open>lodash.set\<close> is the parameter \<open>lodashSet\<close>.
\<close>

section \<open>MongoDB, a parameter\<close>

text \<open>A collection is named by the id of a contract, for its database, and its own name.\<close>

type_synonym collection = "ident \<times> string"

record mongo_document =
  md_ownerId :: ident
  md_revision :: int
  md_protocolVersion :: int
  md_data :: "(string \<times> js) list"
  md_createdAt :: "int option"
  md_updatedAt :: "int option"

record 'm mongo_client =
  mg_find :: "'m \<Rightarrow> collection \<Rightarrow> mongo_query \<Rightarrow> find_options \<Rightarrow> drive_error + ident list"
  mg_updateOne :: "'m \<Rightarrow> collection \<Rightarrow> ident \<Rightarrow> mongo_document \<Rightarrow> drive_error + 'm"
  mg_deleteOne :: "'m \<Rightarrow> collection \<Rightarrow> ident \<Rightarrow> drive_error + 'm"
  mg_createCollection :: "'m \<Rightarrow> collection \<Rightarrow> drive_error + 'm"
  mg_createIndexes :: "'m \<Rightarrow> collection \<Rightarrow> ((string \<times> int) list \<times> bool \<times> string list) list \<Rightarrow> drive_error + 'm"
  mg_dropDatabase :: "'m \<Rightarrow> ident \<Rightarrow> drive_error + 'm"

section \<open>DocumentMongoDbRepository\<close>

datatype document_query_error =
    QueryError query_error
  | InvalidContractIdError js
  | InvalidTypeError string

datatype documents_error =
    InvalidQuery "document_query_error list"
  | UnknownContract ident
  | Dpp dpp_error
  | Drive drive_error

record mongo_repository =
  mr_dataContract :: data_contract
  mr_documentType :: string

definition getCollectionName :: "mongo_repository \<Rightarrow> string" where
  "getCollectionName r = ''documents_'' @ mr_documentType r"

definition repository_collection :: "mongo_repository \<Rightarrow> collection" where
  "repository_collection r = (dc_id (mr_dataContract r), getCollectionName r)"

definition mongo_schema :: "contract_document_schema \<Rightarrow> document_schema" where
  "mongo_schema s = \<lparr>schema_indices = cs_indices s\<rparr>"

text \<open>The indexed properties with the values they have; system fields have columns of their own.\<close>

definition indexed_properties :: "contract_document_schema \<Rightarrow> string list" where
  "indexed_properties s =
     filter (\<lambda>field. \<not> starts_with field ''$'')
       (remdups (concat (map (map fst) (getIndexedFieldsFromDocumentSchema (mongo_schema s)))))"

definition createMongoDBDocument ::
  "env \<Rightarrow> ((string \<times> js) list \<Rightarrow> string \<Rightarrow> js \<Rightarrow> (string \<times> js) list) \<Rightarrow> mongo_repository \<Rightarrow> document \<Rightarrow>
   dpp_error + mongo_document" where
  "createMongoDBDocument env lodashSet r d =
     rbind (DataContract_getDocumentSchema (mr_dataContract r) (doc_type d)) (\<lambda>documentSchema.
       Inr \<lparr>md_ownerId = doc_ownerId d, md_revision = doc_revision d, md_protocolVersion = doc_protocolVersion d,
            md_data = fold (\<lambda>path props.
                let v = e_lodashGet env (doc_data d) path
                in if v = JUndefined then props else lodashSet props path v) (indexed_properties documentSchema) [],
            md_createdAt = doc_createdAt d, md_updatedAt = doc_updatedAt d\<rparr>)"

definition MongoRepository_store ::
  "'m mongo_client \<Rightarrow> env \<Rightarrow> ((string \<times> js) list \<Rightarrow> string \<Rightarrow> js \<Rightarrow> (string \<times> js) list) \<Rightarrow> mongo_repository \<Rightarrow>
   document \<Rightarrow> 'm \<Rightarrow> documents_error + 'm" where
  "MongoRepository_store mg env lodashSet r d m =
     (if doc_type d \<noteq> mr_documentType r \<or> doc_dataContractId d \<noteq> dc_id (mr_dataContract r)
      then Inl (Drive TypeError)
      else rbind (map_sum Dpp id (createMongoDBDocument env lodashSet r d)) (\<lambda>md.
             map_sum Drive id (mg_updateOne mg m (repository_collection r) (doc_id d) md)))"

definition MongoRepository_delete ::
  "'m mongo_client \<Rightarrow> mongo_repository \<Rightarrow> ident \<Rightarrow> 'm \<Rightarrow> documents_error + 'm" where
  "MongoRepository_delete mg r i m = map_sum Drive id (mg_deleteOne mg m (repository_collection r) i)"

definition find_failure :: "find_error \<Rightarrow> documents_error" where
  "find_failure e = (case e of InvalidQueryError es \<Rightarrow> InvalidQuery (map QueryError es) | Thrown x \<Rightarrow> Drive x)"

definition MongoRepository_find ::
  "'m mongo_client \<Rightarrow> (string \<Rightarrow> string) \<Rightarrow> (query \<Rightarrow> string list) \<Rightarrow> mongo_repository \<Rightarrow> query \<Rightarrow> 'm \<Rightarrow>
   documents_error + ident list" where
  "MongoRepository_find mg escapeRegExp ajv r q m =
     rbind (map_sum Dpp id (DataContract_getDocumentSchema (mr_dataContract r) (mr_documentType r))) (\<lambda>documentSchema.
     rbind (map_sum find_failure id
              (DocumentMongoDbRepository_find escapeRegExp ajv (mongo_schema documentSchema) q)) (\<lambda>(findQuery, findOptions).
       map_sum Drive id (mg_find mg m (repository_collection r) findQuery findOptions)))"

text \<open>An index also demands that its fields exist.\<close>

definition MongoRepository_createIndices ::
  "'m mongo_client \<Rightarrow> mongo_repository \<Rightarrow> ((string \<times> int) list \<times> bool) list \<Rightarrow> 'm \<Rightarrow> documents_error + 'm" where
  "MongoRepository_createIndices mg r indices m =
     map_sum Drive id (mg_createIndexes mg m (repository_collection r)
       (map (\<lambda>(key, unique). (key, unique, map fst key)) indices))"

definition MongoRepository_createCollection ::
  "'m mongo_client \<Rightarrow> mongo_repository \<Rightarrow> ((string \<times> int) list \<times> bool) list option \<Rightarrow> 'm \<Rightarrow> documents_error + 'm" where
  "MongoRepository_createCollection mg r indices m =
     rbind (map_sum Drive id (mg_createCollection mg m (repository_collection r))) (\<lambda>m.
       case indices of None \<Rightarrow> Inr m | Some is \<Rightarrow> MongoRepository_createIndices mg r is m)"

section \<open>createDocumentMongoDbRepository, DocumentDatabaseManager\<close>

text \<open>The contract is read inside the transaction unless the caller says otherwise.\<close>

definition createDocumentMongoDbRepository ::
  "bool option \<Rightarrow> drive_state \<Rightarrow> ident \<Rightarrow> string \<Rightarrow> documents_error + mongo_repository" where
  "createDocumentMongoDbRepository isTransactional s dataContractId documentType =
     (let transactional = (case isTransactional of None \<Rightarrow> True | Some b \<Rightarrow> b) in
      case vstore_get transactional (ds_dataContracts s) dataContractId of
        None \<Rightarrow> Inl (UnknownContract dataContractId)
      | Some c \<Rightarrow> Inr \<lparr>mr_dataContract = c, mr_documentType = documentType\<rparr>)"

definition create_collection ::
  "'m mongo_client \<Rightarrow> drive_state \<Rightarrow> data_contract \<Rightarrow> string \<Rightarrow> 'm \<Rightarrow> documents_error + 'm" where
  "create_collection mg s c documentType m =
     rbind (map_sum Dpp id (DataContract_getDocumentSchema c documentType)) (\<lambda>documentSchema.
     rbind (case cs_indices documentSchema of
              None \<Rightarrow> Inr None
            | Some is \<Rightarrow> map_sum Drive Some (convertToMongoDbIndices is)) (\<lambda>indices.
     rbind (createDocumentMongoDbRepository None s (dc_id c) documentType) (\<lambda>r.
       MongoRepository_createCollection mg r indices m)))"

text \<open>The collections of a contract are created concurrently; one order stands for all.\<close>

definition DocumentDatabaseManager_create ::
  "'m mongo_client \<Rightarrow> drive_state \<Rightarrow> data_contract \<Rightarrow> 'm \<Rightarrow> documents_error + 'm" where
  "DocumentDatabaseManager_create mg s c m =
     rfold (\<lambda>m documentType. create_collection mg s c documentType m) m (map fst (dc_documents c))"

definition DocumentDatabaseManager_drop ::
  "'m mongo_client \<Rightarrow> data_contract \<Rightarrow> 'm \<Rightarrow> documents_error + 'm" where
  "DocumentDatabaseManager_drop mg c m = map_sum Drive id (mg_dropDatabase mg m (dc_id c))"

section \<open>DocumentIndexedStoreRepository\<close>

record 'm documents_state =
  dm_state :: drive_state
  dm_mongo :: 'm

definition fetchDocument :: "bool \<Rightarrow> drive_state \<Rightarrow> ident \<Rightarrow> document option" where
  "fetchDocument tx s i = vstore_get tx (ds_documents s) i"

definition DocumentIndexedStoreRepository_store ::
  "'m mongo_client \<Rightarrow> env \<Rightarrow> ((string \<times> js) list \<Rightarrow> string \<Rightarrow> js \<Rightarrow> (string \<times> js) list) \<Rightarrow> bool \<Rightarrow> document \<Rightarrow>
   'm documents_state \<Rightarrow> documents_error + 'm documents_state" where
  "DocumentIndexedStoreRepository_store mg env lodashSet tx d s =
     rbind (createDocumentMongoDbRepository (Some tx) (dm_state s) (doc_dataContractId d) (doc_type d)) (\<lambda>r.
     rbind (MongoRepository_store mg env lodashSet r d (dm_mongo s)) (\<lambda>m.
       Inr \<lparr>dm_state = storeDocument tx d (dm_state s), dm_mongo = m\<rparr>))"

definition DocumentIndexedStoreRepository_find ::
  "'m mongo_client \<Rightarrow> (string \<Rightarrow> string) \<Rightarrow> (query \<Rightarrow> string list) \<Rightarrow> bool \<Rightarrow> ident \<Rightarrow> string \<Rightarrow> query \<Rightarrow>
   'm documents_state \<Rightarrow> documents_error + document list" where
  "DocumentIndexedStoreRepository_find mg escapeRegExp ajv tx dataContractId documentType q s =
     rbind (createDocumentMongoDbRepository (Some tx) (dm_state s) dataContractId documentType) (\<lambda>r.
     rbind (MongoRepository_find mg escapeRegExp ajv r q (dm_mongo s)) (\<lambda>documentIds.
       Inr (List.map_filter (fetchDocument tx (dm_state s)) documentIds)))"

definition DocumentIndexedStoreRepository_delete ::
  "'m mongo_client \<Rightarrow> bool \<Rightarrow> ident \<Rightarrow> string \<Rightarrow> ident \<Rightarrow> 'm documents_state \<Rightarrow> documents_error + 'm documents_state" where
  "DocumentIndexedStoreRepository_delete mg tx dataContractId documentType documentId s =
     rbind (createDocumentMongoDbRepository (Some tx) (dm_state s) dataContractId documentType) (\<lambda>r.
     rbind (MongoRepository_delete mg r documentId (dm_mongo s)) (\<lambda>m.
       Inr \<lparr>dm_state = removeDocument tx documentId (dm_state s), dm_mongo = m\<rparr>))"

section \<open>fetchDocuments\<close>

definition new_Identifier :: "js \<Rightarrow> ident option" where
  "new_Identifier v = (case v of JBuf b \<Rightarrow> if length b = 32 then Some b else None | _ \<Rightarrow> None)"

definition fetchDocuments ::
  "'m mongo_client \<Rightarrow> (string \<Rightarrow> string) \<Rightarrow> (query \<Rightarrow> string list) \<Rightarrow> (contract_cache \<Rightarrow> contract_cache) \<Rightarrow>
   bool \<Rightarrow> js \<Rightarrow> string \<Rightarrow> query \<Rightarrow> 'm documents_state \<Rightarrow> contract_cache \<Rightarrow>
   (documents_error + document list) \<times> contract_cache" where
  "fetchDocuments mg escapeRegExp ajv evict tx contractId type q s cache =
     (case new_Identifier contractId of
        None \<Rightarrow> (Inl (InvalidQuery [InvalidContractIdError contractId]), cache)
      | Some contractIdIdentifier \<Rightarrow>
          (let (found, cache) =
             (case map_of cache contractIdIdentifier of
                Some c \<Rightarrow> (Some c, cache)
              | None \<Rightarrow>
                  (case fetchDataContract (dm_state s) contractIdIdentifier of
                     None \<Rightarrow> (None, cache)
                   | Some c \<Rightarrow> (Some c, evict (AList.update contractIdIdentifier c cache))))
           in case found of
                None \<Rightarrow> (Inl (InvalidQuery [InvalidContractIdError (JBuf contractIdIdentifier)]), cache)
              | Some dataContract \<Rightarrow>
                  if \<not> DataContract_isDocumentDefined dataContract type
                  then (Inl (InvalidQuery [InvalidTypeError type]), cache)
                  else (DocumentIndexedStoreRepository_find mg escapeRegExp ajv tx contractIdIdentifier type q s, cache)))"

section \<open>Index and store\<close>

lemma map_sum_id_Inr: "map_sum f id m = Inr a \<longleftrightarrow> m = Inr a"
  by (cases m) simp_all

text \<open>
  What MongoDB promises, with \<open>content\<close> the documents of a collection and \<open>matches\<close> its reading
  of queries: an upsert sets the given fields and leaves the others, a deletion removes the
  document, and a search returns documents of the collection that match, all of them when
  neither limit nor offset cuts them off.
\<close>

definition set_fields :: "mongo_document option \<Rightarrow> mongo_document \<Rightarrow> mongo_document" where
  "set_fields old new = (case old of
     None \<Rightarrow> new
   | Some o' \<Rightarrow> new\<lparr>md_createdAt := (if md_createdAt new = None then md_createdAt o' else md_createdAt new),
                  md_updatedAt := (if md_updatedAt new = None then md_updatedAt o' else md_updatedAt new)\<rparr>)"

type_synonym 'm content = "'m \<Rightarrow> collection \<Rightarrow> ident \<Rightarrow> mongo_document option"

definition mongo_documented ::
  "'m mongo_client \<Rightarrow> 'm content \<Rightarrow> (mongo_query \<Rightarrow> mongo_document \<Rightarrow> bool) \<Rightarrow> bool" where
  "mongo_documented mg content matches \<longleftrightarrow>
     (\<forall>m c i md m'. mg_updateOne mg m c i md = Inr m' \<longrightarrow>
        content m' = (content m)(c := (content m c)(i := Some (set_fields (content m c i) md)))) \<and>
     (\<forall>m c i m'. mg_deleteOne mg m c i = Inr m' \<longrightarrow> content m' = (content m)(c := (content m c)(i := None))) \<and>
     (\<forall>m c q opts is. mg_find mg m c q opts = Inr is \<longrightarrow>
        distinct is \<and> (\<forall>i \<in> set is. \<exists>md. content m c i = Some md \<and> matches q md) \<and>
        (fo_skip opts = None \<and> length is < nat (fo_limit opts) \<longrightarrow>
           (\<forall>i md. content m c i = Some md \<and> matches q md \<longrightarrow> i \<in> set is)))"

definition document_collection :: "document \<Rightarrow> collection" where
  "document_collection d = (doc_dataContractId d, ''documents_'' @ doc_type d)"

text \<open>The index holds the documents of the store, each in its collection with its own values.\<close>

definition index_consistent ::
  "'m content \<Rightarrow> (document \<Rightarrow> (string \<times> js) list) \<Rightarrow> bool \<Rightarrow> 'm documents_state \<Rightarrow> bool" where
  "index_consistent content indexed tx s \<longleftrightarrow>
     (\<forall>c i. (\<exists>md. content (dm_mongo s) c i = Some md) \<longleftrightarrow>
        (\<exists>d. fetchDocument tx (dm_state s) i = Some d \<and> document_collection d = c)) \<and>
     (\<forall>i d md. fetchDocument tx (dm_state s) i = Some d \<longrightarrow>
        content (dm_mongo s) (document_collection d) i = Some md \<longrightarrow>
        md_data md = indexed d \<and> md_ownerId md = doc_ownerId d \<and> md_revision md = doc_revision d)"

lemma index_member:
  "index_consistent content indexed tx s \<Longrightarrow>
   content (dm_mongo s) c i = None \<longleftrightarrow>
   (\<forall>d. fetchDocument tx (dm_state s) i = Some d \<longrightarrow> document_collection d \<noteq> c)"
  unfolding index_consistent_def by (metis not_Some_eq)

lemma fetch_after_store:
  "fetchDocument tx (storeDocument tx d s) i = (if i = doc_id d then Some d else fetchDocument tx s i)"
  by (simp add: fetchDocument_def storeDocument_def vstore_get_def vstore_put_def map_of_update split: option.split)

lemma fetch_after_remove:
  "fetchDocument tx (removeDocument tx j s) i =
     (if i = j \<and> (\<not> tx \<or> map_of (vs_db (ds_documents s)) j \<noteq> None) then None else fetchDocument tx s i)"
  by (auto simp: fetchDocument_def removeDocument_def vstore_get_def vstore_delete_def map_of_update map_of_delete
      split: option.split)

text \<open>The indexed data of a document under its contract.\<close>

definition indexed_data ::
  "env \<Rightarrow> ((string \<times> js) list \<Rightarrow> string \<Rightarrow> js \<Rightarrow> (string \<times> js) list) \<Rightarrow> (ident \<Rightarrow> data_contract option) \<Rightarrow>
   document \<Rightarrow> (string \<times> js) list" where
  "indexed_data env lodashSet contracts d =
     (case contracts (doc_dataContractId d) of
        None \<Rightarrow> []
      | Some c \<Rightarrow>
          (case createMongoDBDocument env lodashSet \<lparr>mr_dataContract = c, mr_documentType = doc_type d\<rparr> d of
             Inl _ \<Rightarrow> [] | Inr md \<Rightarrow> md_data md))"

text \<open>A document stays in its collection: an id is not reused for another type or contract.\<close>

definition keeps_collection :: "bool \<Rightarrow> document \<Rightarrow> 'm documents_state \<Rightarrow> bool" where
  "keeps_collection tx d s \<longleftrightarrow>
     (\<forall>old. fetchDocument tx (dm_state s) (doc_id d) = Some old \<longrightarrow> document_collection old = document_collection d)"

definition contracts_keyed :: "bool \<Rightarrow> drive_state \<Rightarrow> bool" where
  "contracts_keyed tx s \<longleftrightarrow> (\<forall>i c. vstore_get tx (ds_dataContracts s) i = Some c \<longrightarrow> dc_id c = i)"

lemma set_fields_simps [simp]:
  "md_data (set_fields old new) = md_data new" "md_ownerId (set_fields old new) = md_ownerId new"
  "md_revision (set_fields old new) = md_revision new"
  by (simp_all add: set_fields_def split: option.split)

lemma store_effect:
  assumes "DocumentIndexedStoreRepository_store mg env lodashSet tx d s = Inr s'"
    and "mongo_documented mg content matches"
  shows "\<exists>md. dm_state s' = storeDocument tx d (dm_state s) \<and>
    content (dm_mongo s') = (content (dm_mongo s))(document_collection d :=
      (content (dm_mongo s) (document_collection d))(doc_id d := Some md)) \<and>
    md_data md = indexed_data env lodashSet (vstore_get tx (ds_dataContracts (dm_state s))) d \<and>
    md_ownerId md = doc_ownerId d \<and> md_revision md = doc_revision d"
proof -
  from assms(1) obtain c md m where c: "vstore_get tx (ds_dataContracts (dm_state s)) (doc_dataContractId d) = Some c"
    and id: "doc_dataContractId d = dc_id c"
    and md: "createMongoDBDocument env lodashSet \<lparr>mr_dataContract = c, mr_documentType = doc_type d\<rparr> d = Inr md"
    and m: "mg_updateOne mg (dm_mongo s) (document_collection d) (doc_id d) md = Inr m"
    and s': "s' = \<lparr>dm_state = storeDocument tx d (dm_state s), dm_mongo = m\<rparr>"
    by (auto simp: DocumentIndexedStoreRepository_store_def createDocumentMongoDbRepository_def MongoRepository_store_def
        rbind_eq_Inr_iff map_sum_id_Inr repository_collection_def getCollectionName_def document_collection_def
        split: option.split_asm sum.split_asm if_split_asm)
  from md have fields: "md_ownerId md = doc_ownerId d" "md_revision md = doc_revision d"
    by (auto simp: createMongoDBDocument_def rbind_eq_Inr_iff)
  have "content m = (content (dm_mongo s))(document_collection d := (content (dm_mongo s) (document_collection d))
      (doc_id d := Some (set_fields (content (dm_mongo s) (document_collection d) (doc_id d)) md)))"
    using assms(2) m unfolding mongo_documented_def by blast
  then show ?thesis
    using c md fields by (auto simp: s' indexed_data_def)
qed

lemma delete_effect:
  assumes "DocumentIndexedStoreRepository_delete mg tx contractId type i s = Inr s'"
    and "mongo_documented mg content matches" and "contracts_keyed tx (dm_state s)"
  shows "dm_state s' = removeDocument tx i (dm_state s) \<and>
    content (dm_mongo s') = (content (dm_mongo s))((contractId, ''documents_'' @ type) :=
      (content (dm_mongo s) (contractId, ''documents_'' @ type))(i := None))"
proof -
  from assms(1) obtain c m where c: "vstore_get tx (ds_dataContracts (dm_state s)) contractId = Some c"
    and m: "mg_deleteOne mg (dm_mongo s) (dc_id c, ''documents_'' @ type) i = Inr m"
    and s': "s' = \<lparr>dm_state = removeDocument tx i (dm_state s), dm_mongo = m\<rparr>"
    by (auto simp: DocumentIndexedStoreRepository_delete_def createDocumentMongoDbRepository_def MongoRepository_delete_def
        rbind_eq_Inr_iff map_sum_id_Inr repository_collection_def getCollectionName_def
        split: option.split_asm sum.split_asm)
  from c assms(3) have "dc_id c = contractId" by (simp add: contracts_keyed_def)
  with assms(2) m s' show ?thesis unfolding mongo_documented_def by simp
qed

text \<open>
  Storing a document keeps its index consistent with the authenticated store.
\<close>

theorem store_keeps_index:
  assumes "index_consistent content (indexed_data env lodashSet (vstore_get tx (ds_dataContracts (dm_state s)))) tx s"
    and "DocumentIndexedStoreRepository_store mg env lodashSet tx d s = Inr s'"
    and "mongo_documented mg content matches" and "keeps_collection tx d s"
  shows "index_consistent content (indexed_data env lodashSet (vstore_get tx (ds_dataContracts (dm_state s')))) tx s'"
proof -
  from store_effect [OF assms(2,3)] obtain md where state: "dm_state s' = storeDocument tx d (dm_state s)"
    and mongo: "content (dm_mongo s') = (content (dm_mongo s))(document_collection d :=
      (content (dm_mongo s) (document_collection d))(doc_id d := Some md))"
    and md: "md_data md = indexed_data env lodashSet (vstore_get tx (ds_dataContracts (dm_state s))) d"
      "md_ownerId md = doc_ownerId d" "md_revision md = doc_revision d" by blast
  have "ds_dataContracts (dm_state s') = ds_dataContracts (dm_state s)"
    by (simp add: state storeDocument_def)
  then have same: "indexed_data env lodashSet (vstore_get tx (ds_dataContracts (dm_state s'))) =
      indexed_data env lodashSet (vstore_get tx (ds_dataContracts (dm_state s)))" by simp
  show ?thesis
    unfolding index_consistent_def same
  proof (intro conjI allI impI)
    fix c i
    have "content (dm_mongo s') c i = None \<longleftrightarrow>
        (\<forall>d. fetchDocument tx (dm_state s') i = Some d \<longrightarrow> document_collection d \<noteq> c)"
      using assms(4) index_member [OF assms(1), of c i]
      by (cases "i = doc_id d"; cases "c = document_collection d")
         (auto simp: state mongo fetch_after_store keeps_collection_def)
    then show "(\<exists>md. content (dm_mongo s') c i = Some md) \<longleftrightarrow>
        (\<exists>d. fetchDocument tx (dm_state s') i = Some d \<and> document_collection d = c)"
      by (metis not_Some_eq)
  next
    fix i d' md'
    assume "fetchDocument tx (dm_state s') i = Some d'" "content (dm_mongo s') (document_collection d') i = Some md'"
    then show "md_data md' = indexed_data env lodashSet (vstore_get tx (ds_dataContracts (dm_state s))) d'"
      "md_ownerId md' = doc_ownerId d'" "md_revision md' = doc_revision d'"
      using assms(1) md by (auto simp: state mongo fetch_after_store index_consistent_def split: if_split_asm)
  qed
qed

text \<open>
  Deleting a document keeps the index consistent unless the document is new in the
  transaction: then the index loses it while the store keeps it, to be published by the commit.
\<close>

theorem delete_keeps_index_iff:
  assumes "index_consistent content indexed tx s"
    and "DocumentIndexedStoreRepository_delete mg tx contractId type i s = Inr s'"
    and "mongo_documented mg content matches" and "contracts_keyed tx (dm_state s)"
    and "fetchDocument tx (dm_state s) i = Some d" and "document_collection d = (contractId, ''documents_'' @ type)"
  shows "index_consistent content indexed tx s' \<longleftrightarrow>
    \<not> tx \<or> map_of (vs_db (ds_documents (dm_state s))) i \<noteq> None"
proof -
  from delete_effect [OF assms(2-4)] have state: "dm_state s' = removeDocument tx i (dm_state s)"
    and mongo: "content (dm_mongo s') = (content (dm_mongo s))(document_collection d :=
      (content (dm_mongo s) (document_collection d))(i := None))" using assms(6) by simp_all
  show ?thesis
  proof (cases "\<not> tx \<or> map_of (vs_db (ds_documents (dm_state s))) i \<noteq> None")
    case True
    then have fetch: "fetchDocument tx (dm_state s') j = (if j = i then None else fetchDocument tx (dm_state s) j)" for j
      by (simp add: state fetch_after_remove)
    have "index_consistent content indexed tx s'"
      unfolding index_consistent_def
    proof (intro conjI allI impI)
      fix c j
      have "content (dm_mongo s') c j = None \<longleftrightarrow>
          (\<forall>d. fetchDocument tx (dm_state s') j = Some d \<longrightarrow> document_collection d \<noteq> c)"
        using assms(5) index_member [OF assms(1), of c j]
        by (cases "j = i"; cases "c = document_collection d") (simp_all add: fetch mongo)
      then show "(\<exists>md. content (dm_mongo s') c j = Some md) \<longleftrightarrow>
          (\<exists>d. fetchDocument tx (dm_state s') j = Some d \<and> document_collection d = c)"
        by (metis not_Some_eq)
    next
      fix j d' md'
      assume "fetchDocument tx (dm_state s') j = Some d'" "content (dm_mongo s') (document_collection d') j = Some md'"
      then show "md_data md' = indexed d'" "md_ownerId md' = doc_ownerId d'" "md_revision md' = doc_revision d'"
        using assms(1) by (auto simp: fetch mongo index_consistent_def split: if_split_asm)
    qed
    with True show ?thesis by simp
  next
    case False
    then have "fetchDocument tx (dm_state s') i = Some d"
      using assms(5) by (simp add: state fetch_after_remove)
    moreover have "content (dm_mongo s') (document_collection d) i = None"
      by (simp add: mongo)
    ultimately have "\<not> index_consistent content indexed tx s'"
      using index_member [of content indexed tx s' "document_collection d" i] by auto
    with False show ?thesis by simp
  qed
qed

lemma map_filter_all: "\<forall>x \<in> set xs. f x \<noteq> None \<Longrightarrow> List.map_filter f xs = map (the \<circ> f) xs"
  by (induction xs) (auto simp: List.map_filter_simps)

text \<open>
  A search finds what the store holds: from a consistent index it answers with documents of
  the store, one for each id that MongoDB returns, of the contract and the type that were asked
  for, whose indexed data match the converted query; and with all of them when they are fewer
  than the limit and no offset was given.
\<close>

theorem find_returns_stored_documents:
  assumes "index_consistent content indexed tx s" and "mongo_documented mg content matches"
    and "contracts_keyed tx (dm_state s)"
    and "DocumentIndexedStoreRepository_find mg escapeRegExp ajv tx contractId type q s = Inr ds"
  shows "\<exists>c sch findQuery opts ids.
    vstore_get tx (ds_dataContracts (dm_state s)) contractId = Some c \<and>
    DataContract_getDocumentSchema c type = Inr sch \<and>
    DocumentMongoDbRepository_find escapeRegExp ajv (mongo_schema sch) q = Inr (findQuery, opts) \<and>
    length ds = length ids \<and> distinct ids \<and>
    (\<forall>n < length ids. fetchDocument tx (dm_state s) (ids ! n) = Some (ds ! n)) \<and>
    (\<forall>d \<in> set ds. document_collection d = (contractId, ''documents_'' @ type) \<and>
       (\<exists>md. matches findQuery md \<and> md_data md = indexed d)) \<and>
    (find_skip q = None \<and> length ds < nat (find_limit q) \<longrightarrow>
       (\<forall>i d md. fetchDocument tx (dm_state s) i = Some d \<and>
          document_collection d = (contractId, ''documents_'' @ type) \<and>
          content (dm_mongo s) (document_collection d) i = Some md \<and> matches findQuery md \<longrightarrow> d \<in> set ds))"
proof -
  let ?c = "(contractId, ''documents_'' @ type)"
  from assms(4) obtain c sch findQuery opts ids where
    c: "vstore_get tx (ds_dataContracts (dm_state s)) contractId = Some c"
    and sch: "DataContract_getDocumentSchema c type = Inr sch"
    and opts: "DocumentMongoDbRepository_find escapeRegExp ajv (mongo_schema sch) q = Inr (findQuery, opts)"
    and ids: "mg_find mg (dm_mongo s) (dc_id c, ''documents_'' @ type) findQuery opts = Inr ids"
    and ds: "ds = List.map_filter (fetchDocument tx (dm_state s)) ids"
    by (auto simp: DocumentIndexedStoreRepository_find_def createDocumentMongoDbRepository_def MongoRepository_find_def
        rbind_eq_Inr_iff map_sum_id_Inr repository_collection_def getCollectionName_def
        split: option.split_asm sum.split_asm prod.split_asm)
  from opts have cut: "fo_skip opts = find_skip q" "fo_limit opts = find_limit q"
    by (auto simp: DocumentMongoDbRepository_find_def rbind_eq_Inr_iff split: if_split_asm)
  have id: "dc_id c = contractId" using c assms(3) by (simp add: contracts_keyed_def)
  note found = assms(2) [unfolded mongo_documented_def, THEN conjunct2, THEN conjunct2, rule_format, OF ids [unfolded id]]
  have fetched: "\<exists>d. fetchDocument tx (dm_state s) i = Some d \<and> document_collection d = ?c \<and>
      (\<exists>md. matches findQuery md \<and> md_data md = indexed d)" if "i \<in> set ids" for i
  proof -
    from that found obtain md where md: "content (dm_mongo s) ?c i = Some md" "matches findQuery md" by blast
    with index_member [OF assms(1), of ?c i] obtain d where
      d: "fetchDocument tx (dm_state s) i = Some d" "document_collection d = ?c" by auto
    with md assms(1) have "md_data md = indexed d" by (auto simp: index_consistent_def)
    with md d show ?thesis by blast
  qed
  have ds': "ds = map (the \<circ> fetchDocument tx (dm_state s)) ids"
    unfolding ds by (rule map_filter_all) (use fetched in auto)
  show ?thesis
  proof (intro exI conjI)
    show "vstore_get tx (ds_dataContracts (dm_state s)) contractId = Some c" by (rule c)
    show "DataContract_getDocumentSchema c type = Inr sch" by (rule sch)
    show "DocumentMongoDbRepository_find escapeRegExp ajv (mongo_schema sch) q = Inr (findQuery, opts)" by (rule opts)
    show "length ds = length ids" by (simp add: ds')
    show "distinct ids" using found by blast
    have at: "fetchDocument tx (dm_state s) (ids ! n) = Some (ds ! n)" if "n < length ids" for n
      using fetched [of "ids ! n"] that by (auto simp: ds')
    then show "\<forall>n < length ids. fetchDocument tx (dm_state s) (ids ! n) = Some (ds ! n)" by blast
    show "\<forall>d \<in> set ds. document_collection d = ?c \<and> (\<exists>md. matches findQuery md \<and> md_data md = indexed d)"
    proof
      fix d assume "d \<in> set ds"
      then obtain i where "i \<in> set ids" "d = the (fetchDocument tx (dm_state s) i)" by (auto simp: ds')
      with fetched [of i] show "document_collection d = ?c \<and> (\<exists>md. matches findQuery md \<and> md_data md = indexed d)"
        by auto
    qed
    show "find_skip q = None \<and> length ds < nat (find_limit q) \<longrightarrow>
       (\<forall>i d md. fetchDocument tx (dm_state s) i = Some d \<and> document_collection d = ?c \<and>
          content (dm_mongo s) (document_collection d) i = Some md \<and> matches findQuery md \<longrightarrow> d \<in> set ds)"
    proof (intro impI allI)
      fix i d md
      assume "find_skip q = None \<and> length ds < nat (find_limit q)"
        and d: "fetchDocument tx (dm_state s) i = Some d \<and> document_collection d = ?c \<and>
          content (dm_mongo s) (document_collection d) i = Some md \<and> matches findQuery md"
      with found have "i \<in> set ids" by (auto simp: cut ds')
      with d show "d \<in> set ds" by (force simp: ds')
    qed
  qed
qed

section \<open>A client over a list\<close>

type_synonym list_mongo = "((collection \<times> ident) \<times> mongo_document) list"

definition list_content :: "list_mongo content" where
  "list_content m c i = map_of m (c, i)"

definition list_client :: "list_mongo mongo_client" where
  "list_client = \<lparr>
     mg_find = (\<lambda>m c q opts. Inr (take (nat (fo_limit opts))
        (drop (case fo_skip opts of None \<Rightarrow> 0 | Some n \<Rightarrow> nat n)
           (remdups (map snd (filter (\<lambda>k. fst k = c) (map fst m))))))),
     mg_updateOne = (\<lambda>m c i md. Inr (AList.update (c, i) (set_fields (map_of m (c, i)) md) m)),
     mg_deleteOne = (\<lambda>m c i. Inr (AList.delete (c, i) m)),
     mg_createCollection = (\<lambda>m _. Inr m), mg_createIndexes = (\<lambda>m _ _. Inr m),
     mg_dropDatabase = (\<lambda>m i. Inr (filter (\<lambda>((c, _), _). fst c \<noteq> i) m))\<rparr>"

lemma list_client_documented: "mongo_documented list_client list_content (\<lambda>_ _. True)"
proof -
  have some: "(\<exists>md. map_of m (c, i) = Some md) \<longleftrightarrow> (c, i) \<in> fst ` set m" for m :: list_mongo and c i
    by (metis map_of_eq_None_iff not_None_eq)
  have ids: "i \<in> set (map snd (filter (\<lambda>k. fst k = c) (map fst m))) \<longleftrightarrow> (c, i) \<in> fst ` set m"
    for m :: list_mongo and c i by force
  show ?thesis
    unfolding mongo_documented_def
  proof (intro conjI allI impI)
    fix m c q opts "is"
    assume find: "mg_find list_client m c q opts = Inr is"
    then have eq: "is = take (nat (fo_limit opts)) (drop (case fo_skip opts of None \<Rightarrow> 0 | Some n \<Rightarrow> nat n)
           (remdups (map snd (filter (\<lambda>k. fst k = c) (map fst m)))))" by (simp add: list_client_def)
    show "distinct is" by (simp add: eq)
    show "\<forall>i \<in> set is. \<exists>md. list_content m c i = Some md \<and> True"
      using ids [of _ c m] some [of m c]
      by (auto simp: eq list_content_def simp del: set_map set_filter dest!: in_set_takeD in_set_dropD)
    fix i md
    assume "fo_skip opts = None \<and> length is < nat (fo_limit opts)" "list_content m c i = Some md \<and> True"
    then show "i \<in> set is"
      using ids [of i c m] some [of m c i] by (auto simp: eq list_content_def simp del: set_map set_filter)
  qed (auto simp: list_client_def list_content_def fun_eq_iff map_of_update map_of_delete)
qed

definition note_contract :: data_contract where
  "note_contract = sample_contract\<lparr>dc_documents := [(''note'',
     \<lparr>cs_indices = Some [([(''name'', ''asc'')], False)], cs_schema = JUndefined\<rparr>)]\<rparr>"

definition sample_note :: document where
  "sample_note = \<lparr>doc_protocolVersion = 1, doc_id = [1], doc_type = ''note'', doc_dataContractId = [7], doc_ownerId = [8],
     doc_revision = 1, doc_createdAt = None, doc_updatedAt = None, doc_data = [(''name'', JStr ''a'')]\<rparr>"

definition note_state :: "list_mongo documents_state" where
  "note_state = \<lparr>dm_state = storeDataContract False note_contract empty_state, dm_mongo = []\<rparr>"

abbreviation put_property :: "(string \<times> js) list \<Rightarrow> string \<Rightarrow> js \<Rightarrow> (string \<times> js) list" where
  "put_property props path v \<equiv> AList.update path v props"

definition noted_state :: "list_mongo documents_state" where
  "noted_state = \<lparr>dm_state = storeDocument True sample_note (dm_state note_state),
     dm_mongo = [((([7], ''documents_note''), [1]), \<lparr>md_ownerId = [8], md_revision = 1, md_protocolVersion = 1,
        md_data = [(''name'', JStr ''a'')], md_createdAt = None, md_updatedAt = None\<rparr>)]\<rparr>"

lemma note_stored:
  "DocumentIndexedStoreRepository_store list_client sample_env put_property True sample_note note_state = Inr noted_state"
  by code_simp

lemma note_fetched: "fetchDocument True (dm_state noted_state) i = (if i = [1] then Some sample_note else None)"
  by (simp add: noted_state_def fetch_after_store)
     (simp add: sample_note_def note_state_def storeDataContract_def fetchDocument_def empty_state_def empty_vstore_def
        vstore_get_def)

lemma note_contract_read:
  "vstore_get True (ds_dataContracts (dm_state note_state)) i = (if i = [7] then Some note_contract else None)"
  "ds_dataContracts (dm_state noted_state) = ds_dataContracts (dm_state note_state)"
  by (auto simp: note_state_def noted_state_def storeDataContract_def storeDocument_def empty_state_def empty_vstore_def
      vstore_get_def vstore_put_def note_contract_def sample_contract_def map_of_update)

abbreviation note_indexed :: "document \<Rightarrow> (string \<times> js) list" where
  "note_indexed \<equiv> indexed_data sample_env put_property (vstore_get True (ds_dataContracts (dm_state note_state)))"

lemma empty_index: "index_consistent list_content note_indexed True note_state"
  by (simp add: index_consistent_def note_state_def list_content_def fetchDocument_def storeDataContract_def
      empty_state_def empty_vstore_def vstore_get_def)

lemma noted_index: "index_consistent list_content note_indexed True noted_state"
proof -
  have "note_indexed sample_note = [(''name'', JStr ''a'')]"
    by code_simp
  then show ?thesis
    unfolding index_consistent_def note_fetched
    by (auto simp: list_content_def noted_state_def document_collection_def sample_note_def split: if_splits)
qed

theorem store_keeps_index_witness:
  "index_consistent list_content (indexed_data sample_env put_property
     (vstore_get True (ds_dataContracts (dm_state noted_state)))) True noted_state"
proof -
  have "keeps_collection True sample_note note_state"
    by (simp add: keeps_collection_def note_state_def fetchDocument_def storeDataContract_def empty_state_def
        empty_vstore_def vstore_get_def)
  from store_keeps_index [OF empty_index note_stored list_client_documented this] show ?thesis .
qed

theorem delete_keeps_index_iff_witness:
  "\<exists>s. DocumentIndexedStoreRepository_delete list_client True [7] ''note'' [1] noted_state = Inr s \<and>
     \<not> index_consistent list_content note_indexed True s"
proof -
  obtain s where s: "DocumentIndexedStoreRepository_delete list_client True [7] ''note'' [1] noted_state = Inr s"
    by (simp add: DocumentIndexedStoreRepository_delete_def createDocumentMongoDbRepository_def note_contract_read
        MongoRepository_delete_def list_client_def)
  have keyed: "contracts_keyed True (dm_state noted_state)"
    by (simp add: contracts_keyed_def note_contract_read note_contract_def sample_contract_def)
  have "map_of (vs_db (ds_documents (dm_state noted_state))) [1] = None"
    by (simp add: noted_state_def note_state_def storeDocument_def storeDataContract_def empty_state_def empty_vstore_def
        vstore_put_def)
  with delete_keeps_index_iff [OF noted_index s list_client_documented keyed, of sample_note] s show ?thesis
    by (auto simp: note_fetched document_collection_def sample_note_def)
qed

theorem find_returns_stored_documents_witness:
  "DocumentIndexedStoreRepository_find list_client id (\<lambda>_. []) True [7] ''note''
     \<lparr>q_where = None, q_orderBy = None, q_limit = None, q_startAt = None, q_startAfter = None\<rparr> noted_state = Inr [sample_note] \<and>
   fetchDocument True (dm_state noted_state) [1] = Some sample_note"
proof -
  have run: "DocumentIndexedStoreRepository_find list_client id (\<lambda>_. []) True [7] ''note''
     \<lparr>q_where = None, q_orderBy = None, q_limit = None, q_startAt = None, q_startAfter = None\<rparr> noted_state = Inr [sample_note]"
    by code_simp
  have keyed: "contracts_keyed True (dm_state noted_state)"
    by (simp add: contracts_keyed_def note_contract_read note_contract_def sample_contract_def)
  from find_returns_stored_documents [OF noted_index list_client_documented keyed run]
  have "\<exists>ids. length ids = 1 \<and> (\<forall>n < length ids. fetchDocument True (dm_state noted_state) (ids ! n) = Some ([sample_note] ! n))"
    by (elim exE conjE, intro exI conjI) auto
  with run show ?thesis by (simp add: note_fetched split: if_splits)
qed

end
