(* ===== verification/Queries.thy ===== *)
theory Queries
  imports BlockLifecycle RootTree DocumentRepository
begin

text \<open>
  The ABCI queries of js-drive: \<open>lib/abci/handlers/queryHandlerFactory.js\<close>, the handlers of
  \<open>handlers/query\<close> and \<open>util/sanitizeUrl.js\<close>. They read the previous stores of the node, prove with
  the previous root tree, and date their answers with the previous block execution context. The
  protobuf and CBOR encodings, the router and Core's verification are parameters. The arguments
  are taken where the handlers have them, after decoding.
\<close>

section \<open>What the handlers use\<close>

record 'db query_env =
  qe_merk :: "'db merk"
  qe_merkle :: merkle_package
  qe_dbs :: "chain_stores \<Rightarrow> 'db root_stores"
  qe_identityBuffer :: "identity \<Rightarrow> buffer"
  qe_dataContractBuffer :: "data_contract \<Rightarrow> buffer"
  qe_documentBuffer :: "document \<Rightarrow> buffer"
  qe_maxIdentitiesPerRequest :: nat

record query_response =
  qs_metadata :: "int \<times> int"
  qs_signature :: "(buffer \<times> buffer) option"
  qs_rootTreeProof :: "buffer option"
  qs_storeTreeProofs :: "(string \<times> buffer) list"
  qs_values :: "buffer list"

definition empty_response :: query_response where
  "empty_response = \<lparr>qs_metadata = (0, 0), qs_signature = None, qs_rootTreeProof = None,
     qs_storeTreeProofs = [], qs_values = []\<rparr>"

definition has_signed_state :: "'d node \<Rightarrow> bool" where
  "has_signed_state n \<longleftrightarrow>
     \<not> (BlockExecutionContext_isEmpty (nd_context n) \<or> BlockExecutionContext_isEmpty (nd_previousContext n))"

definition createQueryResponse :: "bool \<Rightarrow> 'd node \<Rightarrow> dpp_error + query_response" where
  "createQueryResponse prove n =
     (case bc_header (nd_previousContext n) of
        None \<Rightarrow> Inl JsTypeError
      | Some header \<Rightarrow>
          (let response = empty_response\<lparr>qs_metadata := (hd_height header, hd_coreChainLockedHeight header)\<rparr> in
           if \<not> prove then Inr response
           else (case bc_lastCommitInfo (nd_context n) of
                   None \<Rightarrow> Inl JsTypeError
                 | Some info \<Rightarrow>
                     Inr (response\<lparr>qs_signature := Some (lc_quorumHash info, lc_stateSignature info)\<rparr>))))"

definition tree_error :: "root_tree_error \<Rightarrow> dpp_error" where
  "tree_error e = (case e of
     StoreError x \<Rightarrow> Repository x
   | InvalidLeafIndexError i j \<Rightarrow> JsError ''Leaf index must correspond to the position in leaves array'')"

definition full_proof ::
  "'db query_env \<Rightarrow> 'db root_tree \<Rightarrow> 'd node \<Rightarrow> 'db root_tree_leaf \<Rightarrow> buffer list \<Rightarrow> dpp_error + full_proof" where
  "full_proof qe t n leaf ks =
     map_sum tree_error id (RootTree_getFullProofForOneLeaf (qe_merk qe) (qe_merkle qe)
       (qe_dbs qe (nd_previousStores n)) t leaf ks)"

definition with_full_proof :: "string \<Rightarrow> full_proof \<Rightarrow> query_response \<Rightarrow> query_response" where
  "with_full_proof name p r =
     r\<lparr>qs_rootTreeProof := Some (fp_rootTreeProof p), qs_storeTreeProofs := [(name, fp_storeTreeProof p)]\<rparr>"

definition previous_state :: "'d node \<Rightarrow> drive_state" where
  "previous_state n = cs_state (nd_previousStores n)"

section \<open>Identities and data contracts\<close>

definition identityQueryHandler ::
  "'db query_env \<Rightarrow> 'db root_tree \<Rightarrow> bool \<Rightarrow> ident \<Rightarrow> 'd node \<Rightarrow> dpp_error + query_response" where
  "identityQueryHandler qe t prove i n =
     (if \<not> has_signed_state n then Inl (NotFoundAbciError ''Identity not found'')
      else rbind (createQueryResponse prove n) (\<lambda>response.
        let identity = fetchIdentity False (previous_state n) i in
        if identity = None \<and> \<not> prove then Inl (NotFoundAbciError ''Identity not found'')
        else if prove then
          rbind (full_proof qe t n IdentitiesStoreRootTreeLeaf [i]) (\<lambda>p.
            Inr (with_full_proof ''identities'' p response))
        else Inr (response\<lparr>qs_values := [qe_identityBuffer qe (the identity)]\<rparr>)))"

definition dataContractQueryHandler ::
  "'db query_env \<Rightarrow> 'db root_tree \<Rightarrow> bool \<Rightarrow> ident \<Rightarrow> 'd node \<Rightarrow> dpp_error + query_response" where
  "dataContractQueryHandler qe t prove i n =
     (if \<not> has_signed_state n then Inl (NotFoundAbciError ''Data Contract not found'')
      else rbind (createQueryResponse prove n) (\<lambda>response.
        let dataContract = fetchDataContract (previous_state n) i in
        if dataContract = None \<and> \<not> prove then Inl (NotFoundAbciError ''Data Contract not found'')
        else if prove then
          rbind (full_proof qe t n DataContractsStoreRootTreeLeaf [i]) (\<lambda>p.
            Inr (with_full_proof ''dataContracts'' p response))
        else Inr (response\<lparr>qs_values := [qe_dataContractBuffer qe (the dataContract)]\<rparr>)))"

text \<open>The hashes of a request are an array of buffers or absent; mapping over what is absent throws.\<close>

definition too_many_hashes :: "'db query_env \<Rightarrow> buffer list option \<Rightarrow> bool" where
  "too_many_hashes qe publicKeyHashes \<longleftrightarrow>
     (case publicKeyHashes of None \<Rightarrow> False | Some hs \<Rightarrow> length hs > qe_maxIdentitiesPerRequest qe)"

definition previous_identity_ids :: "'d node \<Rightarrow> buffer list \<Rightarrow> ident option list" where
  "previous_identity_ids n hs = map (vstore_get False (ds_publicKeyIds (previous_state n))) hs"

definition identityIdsByPublicKeyHashesQueryHandler ::
  "'db query_env \<Rightarrow> 'db root_tree \<Rightarrow> bool \<Rightarrow> buffer list option \<Rightarrow> 'd node \<Rightarrow> dpp_error + query_response" where
  "identityIdsByPublicKeyHashesQueryHandler qe t prove publicKeyHashes n =
     (if too_many_hashes qe publicKeyHashes
      then Inl (InvalidArgumentAbciError ''Maximum number of requested items exceeded.'')
      else if \<not> has_signed_state n then
        (case publicKeyHashes of
           None \<Rightarrow> Inl JsTypeError
         | Some hs \<Rightarrow> Inr (empty_response\<lparr>qs_values := map (\<lambda>_. []) hs\<rparr>))
      else rbind (createQueryResponse prove n) (\<lambda>response.
        case publicKeyHashes of
          None \<Rightarrow> Inl JsTypeError
        | Some hs \<Rightarrow>
            if prove then
              rbind (full_proof qe t n PublicKeyToIdentityIdStoreRootTreeLeaf hs) (\<lambda>p.
                Inr (with_full_proof ''publicKeyHashesToIdentityIds'' p response))
            else Inr (response\<lparr>qs_values :=
                   map (\<lambda>i. case i of None \<Rightarrow> [] | Some b \<Rightarrow> b) (previous_identity_ids n hs)\<rparr>)))"

definition not_found_hashes :: "'d node \<Rightarrow> buffer list \<Rightarrow> buffer list" where
  "not_found_hashes n hs = map fst (filter (\<lambda>(h, i). i = None) (zip hs (previous_identity_ids n hs)))"

definition found_ids :: "'d node \<Rightarrow> buffer list \<Rightarrow> ident list" where
  "found_ids n hs = List.map_filter id (previous_identity_ids n hs)"

definition identitiesByPublicKeyHashesQueryHandler ::
  "'db query_env \<Rightarrow> 'db root_tree \<Rightarrow> bool \<Rightarrow> buffer list option \<Rightarrow> 'd node \<Rightarrow> dpp_error + query_response" where
  "identitiesByPublicKeyHashesQueryHandler qe t prove publicKeyHashes n =
     (if too_many_hashes qe publicKeyHashes
      then Inl (InvalidArgumentAbciError ''Maximum number of requested items exceeded.'')
      else if \<not> has_signed_state n then
        (case publicKeyHashes of
           None \<Rightarrow> Inl JsTypeError
         | Some hs \<Rightarrow> Inr (empty_response\<lparr>qs_values := map (\<lambda>_. []) hs\<rparr>))
      else rbind (createQueryResponse prove n) (\<lambda>response.
        case publicKeyHashes of
          None \<Rightarrow> Inl JsTypeError
        | Some hs \<Rightarrow>
            if prove then
              (let s = qe_dbs qe (nd_previousStores n) in
               rbind (map_sum tree_error id (leaf_getProof (qe_merk qe) s IdentitiesStoreRootTreeLeaf (found_ids n hs)))
                 (\<lambda>identitiesStoreTreeProof.
               rbind (map_sum tree_error id (leaf_getProof (qe_merk qe) s PublicKeyToIdentityIdStoreRootTreeLeaf
                                               (not_found_hashes n hs))) (\<lambda>publicKeyStoreTreeProof.
                 Inr (response\<lparr>qs_rootTreeProof := Some (RootTree_getProof (qe_merkle qe) t
                                  [IdentitiesStoreRootTreeLeaf, PublicKeyToIdentityIdStoreRootTreeLeaf]),
                        qs_storeTreeProofs := [(''identities'', identitiesStoreTreeProof),
                                               (''publicKeyHashesToIdentityIds'', publicKeyStoreTreeProof)]\<rparr>))))
            else
              rbind (rmap (\<lambda>i. case i of
                        None \<Rightarrow> Inr []
                      | Some identityId \<Rightarrow>
                          (case fetchIdentity False (previous_state n) identityId of
                             None \<Rightarrow> Inl JsTypeError
                           | Some identity \<Rightarrow> Inr (qe_identityBuffer qe identity)))
                       (previous_identity_ids n hs)) (\<lambda>identityBuffers.
                Inr (response\<lparr>qs_values := identityBuffers\<rparr>))))"

section \<open>Documents\<close>

text \<open>What an error of the search becomes: the first of a query's errors, or the error itself.\<close>

definition documents_failure :: "documents_error \<Rightarrow> dpp_error" where
  "documents_failure e = (case e of
     InvalidQuery es \<Rightarrow> InvalidArgumentAbciError ''Invalid query''
   | UnknownContract i \<Rightarrow> ContractNotPresent i
   | Dpp x \<Rightarrow> x
   | Drive x \<Rightarrow> (if x = TypeError then JsTypeError else Repository x))"

text \<open>
  The transactions of the block before are registered once a block was committed or the info
  handler loaded them, and started until the next commit, which ends by registering new ones.
\<close>

definition documentQueryHandler ::
  "'db query_env \<Rightarrow> 'm mongo_client \<Rightarrow> (string \<Rightarrow> string) \<Rightarrow> (query \<Rightarrow> string list) \<Rightarrow>
   (contract_cache \<Rightarrow> contract_cache) \<Rightarrow> 'db root_tree \<Rightarrow> bool \<Rightarrow> js \<Rightarrow> string \<Rightarrow> query \<Rightarrow> 'd node \<Rightarrow> 'm \<Rightarrow>
   contract_cache \<Rightarrow> (dpp_error + query_response) \<times> contract_cache" where
  "documentQueryHandler qe mg escapeRegExp ajv evict t prove contractId type q n m cache =
     (if \<not> has_signed_state n then (Inr empty_response, cache)
      else if nd_previousTransactions n = None then (Inl UnavailableAbciError, cache)
      else (case createQueryResponse prove n of
              Inl e \<Rightarrow> (Inl e, cache)
            | Inr response \<Rightarrow>
                (case fetchDocuments mg escapeRegExp ajv evict False contractId type q
                        \<lparr>dm_state = previous_state n, dm_mongo = m\<rparr> cache of
                   (Inl e, cache) \<Rightarrow> (Inl (documents_failure e), cache)
                 | (Inr documents, cache) \<Rightarrow>
                     (if prove then
                        rbind (full_proof qe t n DocumentsStoreRootTreeLeaf (map doc_id documents)) (\<lambda>p.
                          Inr (with_full_proof ''documents'' p response))
                      else Inr (response\<lparr>qs_values := map (qe_documentBuffer qe) documents\<rparr>), cache))))"

section \<open>getProofs\<close>

record proofs_response =
  ps_documentsProof :: "(buffer \<times> buffer \<times> full_proof) option"
  ps_identitiesProof :: "(buffer \<times> buffer \<times> full_proof) option"
  ps_dataContractsProof :: "(buffer \<times> buffer \<times> full_proof) option"
  ps_metadata :: "int \<times> int"

definition proofs_of ::
  "'db query_env \<Rightarrow> 'db root_tree \<Rightarrow> 'd node \<Rightarrow> last_commit_info \<Rightarrow> 'db root_tree_leaf \<Rightarrow> buffer list \<Rightarrow>
   dpp_error + (buffer \<times> buffer \<times> full_proof) option" where
  "proofs_of qe t n info leaf ids =
     (if ids = [] then Inr None
      else rbind (full_proof qe t n leaf ids) (\<lambda>p. Inr (Some (lc_quorumHash info, lc_stateSignature info, p))))"

definition getProofsQueryHandler ::
  "'db query_env \<Rightarrow> 'db root_tree \<Rightarrow> ident list \<Rightarrow> ident list \<Rightarrow> ident list \<Rightarrow> 'd node \<Rightarrow> dpp_error + proofs_response" where
  "getProofsQueryHandler qe t identityIds documentIds dataContractIds n =
     (if \<not> has_signed_state n then
        Inr \<lparr>ps_documentsProof = None, ps_identitiesProof = None, ps_dataContractsProof = None, ps_metadata = (0, 0)\<rparr>
      else
        (case (bc_header (nd_previousContext n), bc_lastCommitInfo (nd_context n)) of
           (Some header, Some info) \<Rightarrow>
             rbind (proofs_of qe t n info DocumentsStoreRootTreeLeaf documentIds) (\<lambda>documentsProof.
             rbind (proofs_of qe t n info IdentitiesStoreRootTreeLeaf identityIds) (\<lambda>identitiesProof.
             rbind (proofs_of qe t n info DataContractsStoreRootTreeLeaf dataContractIds) (\<lambda>dataContractsProof.
               Inr \<lparr>ps_documentsProof = documentsProof, ps_identitiesProof = identitiesProof,
                    ps_dataContractsProof = dataContractsProof,
                    ps_metadata = (hd_height header, hd_coreChainLockedHeight header)\<rparr>)))
         | _ \<Rightarrow> Inl JsTypeError))"

section \<open>verifyChainLock\<close>

text \<open>\<open>return false\<close> is an answer that is no \<open>ResponseQuery\<close>.\<close>

datatype verify_answer = EmptyResponseQuery | FalseAnswer

definition verifyChainLockQueryHandler ::
  "(buffer \<Rightarrow> chain_lock option) \<Rightarrow> (chain_lock \<Rightarrow> int + bool) \<Rightarrow> buffer \<Rightarrow> dpp_error + verify_answer" where
  "verifyChainLockQueryHandler decodeChainLock verifyChainLock data =
     (case decodeChainLock data of
        None \<Rightarrow> Inl (InvalidArgumentAbciError ''Invalid ChainLock format'')
      | Some chainLock \<Rightarrow>
          (case verifyChainLock chainLock of
             Inl code \<Rightarrow> if code \<in> {-8, -32700} then Inr FalseAnswer else Inl (CoreRpcError code)
           | Inr isVerified \<Rightarrow>
               if \<not> isVerified then Inl (InvalidArgumentAbciError ''ChainLock verification failed'')
               else Inr EmptyResponseQuery))"

section \<open>queryHandler\<close>

definition sanitizeUrl :: "string \<Rightarrow> string" where
  "sanitizeUrl url = takeWhile (\<lambda>c. of_char c \<notin> {63, 59, 35 :: nat}) url"

datatype query_data = EmptyData | RawData buffer | DecodedData js

definition is_object :: "js \<Rightarrow> bool" where
  "is_object v \<longleftrightarrow> (case v of JArr _ \<Rightarrow> True | JBuf _ \<Rightarrow> True | JObj _ \<Rightarrow> True | _ \<Rightarrow> False)"

definition queryHandler ::
  "(string \<Rightarrow> (bool \<times> (query_data \<Rightarrow> dpp_error + 'r)) option) \<Rightarrow> (buffer \<Rightarrow> js option) \<Rightarrow> string \<Rightarrow> buffer \<Rightarrow>
   dpp_error + 'r" where
  "queryHandler findRoute cborDecode path data =
     (case findRoute (sanitizeUrl path) of
        None \<Rightarrow> Inl (InvalidArgumentAbciError ''Invalid path'')
      | Some (rawData, handler) \<Rightarrow>
          if data = [] then handler EmptyData
          else if rawData then handler (RawData data)
          else (case cborDecode data of
                  None \<Rightarrow> Inl (InvalidArgumentAbciError ''Invalid data format: it should be cbor encoded object.'')
                | Some v \<Rightarrow>
                    if \<not> is_object v
                    then Inl (InvalidArgumentAbciError ''Invalid data format: it should be cbor encoded object.'')
                    else handler (DecodedData v)))"

definition abci_query :: "(string \<Rightarrow> (bool \<times> (query_data \<Rightarrow> dpp_error + 'r)) option) \<Rightarrow> (buffer \<Rightarrow> js option) \<Rightarrow> string \<Rightarrow>
  buffer \<Rightarrow> 'r abci_result" where
  "abci_query findRoute cborDecode path data = wrapInErrorHandler True (queryHandler findRoute cborDecode path data)"

section \<open>Which block the answers are about\<close>

lemma queryResponse_metadata:
  "createQueryResponse prove n = Inr r \<Longrightarrow>
   \<exists>header. bc_header (nd_previousContext n) = Some header \<and>
     qs_metadata r = (hd_height header, hd_coreChainLockedHeight header) \<and>
     (prove \<longrightarrow> (\<exists>info. bc_lastCommitInfo (nd_context n) = Some info \<and>
        qs_signature r = Some (lc_quorumHash info, lc_stateSignature info)))"
  by (auto simp: createQueryResponse_def Let_def split: option.split_asm if_split_asm)

text \<open>
  C18. The answers of a node that rests after a block are dated with the block before, signed with
  what that block's successor carries, and read from what it committed. But while the next block
  is executed they are dated and signed as if they were about the last block, although the
  previous stores, that they are read from and proved with, still hold the block before.
\<close>

theorem answers_dated_one_block_ahead_while_executing:
  assumes "node_reachable pf cfg n0 (u # older)" and "bc_header (nd_context n0) = bc_header (cm_context u)"
    and "execute_block pf cfg bl n0 = Some (h, n)" and "contexts_decode cfg (last_committed n # u # older)"
    and "bc_header (cm_context u) = Some header" and "createQueryResponse True n = Inr r"
    and "begin_and_deliver pf cfg next n = Some n'" and "createQueryResponse True n' = Inr r'"
  shows "committed_stores (nd_previousStores n) = cm_stores u \<and>
    qs_metadata r = (hd_height header, hd_coreChainLockedHeight header) \<and>
    qs_signature r = Some (lc_quorumHash (bl_lastCommitInfo bl), lc_stateSignature (bl_lastCommitInfo bl)) \<and>
    committed_stores (nd_previousStores n') = cm_stores u \<and>
    qs_metadata r' = (hd_height (bl_header bl), hd_coreChainLockedHeight (bl_header bl)) \<and>
    qs_signature r' = Some (lc_quorumHash (bl_lastCommitInfo next), lc_stateSignature (bl_lastCommitInfo next))"
proof -
  from reachable_inv [OF executed [OF assms(1,3)] assms(4)] have inv: "node_inv cfg n (last_committed n) (u # older)"
    by auto
  then have previous: "committed_stores (nd_previousStores n) = cm_stores u" by (simp add: node_inv_def)
  from execute_block_changes [OF assms(3)] have n: "nd_previousContext n = nd_context n0"
    "bc_header (nd_context n) = Some (bl_header bl)" "bc_lastCommitInfo (nd_context n) = Some (bl_lastCommitInfo bl)"
    by (auto simp: Let_def)
  from begin_and_deliver_changes [OF assms(7)] have n': "nd_previousContext n' = nd_context n"
    "bc_lastCommitInfo (nd_context n') = Some (bl_lastCommitInfo next)" "nd_previousStores n' = nd_previousStores n"
    by (auto simp: same_but_running_def)
  from queryResponse_metadata [OF assms(6)] queryResponse_metadata [OF assms(8)] show ?thesis
    using previous n n' assms(2,5) by auto
qed

section \<open>Identities by public key hashes\<close>

lemma rmap_lookups:
  "rmap (\<lambda>i. case i of None \<Rightarrow> Inr [] | Some j \<Rightarrow> (case F j of None \<Rightarrow> Inl e | Some x \<Rightarrow> Inr (b x))) is =
     (if \<forall>j. Some j \<in> set is \<longrightarrow> F j \<noteq> None
      then Inr (map (\<lambda>i. case i of None \<Rightarrow> [] | Some j \<Rightarrow> b (the (F j))) is) else Inl e)"
  by (induction "is") (auto simp: result_simps split: option.split)

text \<open>
  The identities of given public key hashes: the answer has an entry for every hash, in
  order, the identity's encoding or nothing; unless some hash is registered for an identity that
  is not stored, and then the request fails.
\<close>

theorem identities_by_hashes:
  assumes "has_signed_state n" and "length hs \<le> qe_maxIdentitiesPerRequest qe"
  shows "(if \<forall>h \<in> set hs. \<forall>i. vstore_get False (ds_publicKeyIds (previous_state n)) h = Some i \<longrightarrow>
            fetchIdentity False (previous_state n) i \<noteq> None
     then \<exists>r. identitiesByPublicKeyHashesQueryHandler qe t False (Some hs) n = Inr r \<and>
       length (qs_values r) = length hs \<and>
       (\<forall>k < length hs. qs_values r ! k =
          (case vstore_get False (ds_publicKeyIds (previous_state n)) (hs ! k) of
             None \<Rightarrow> [] | Some i \<Rightarrow> qe_identityBuffer qe (the (fetchIdentity False (previous_state n) i))))
     else identitiesByPublicKeyHashesQueryHandler qe t False (Some hs) n = Inl JsTypeError)"
proof -
  obtain header where "bc_header (nd_previousContext n) = Some header"
    using assms(1) by (auto simp: has_signed_state_def BlockExecutionContext_isEmpty_def)
  then obtain response where response: "createQueryResponse False n = Inr response"
    by (simp add: createQueryResponse_def)
  have handler: "identitiesByPublicKeyHashesQueryHandler qe t False (Some hs) n =
      rbind (rmap (\<lambda>i. case i of None \<Rightarrow> Inr [] | Some identityId \<Rightarrow>
          (case fetchIdentity False (previous_state n) identityId of
             None \<Rightarrow> Inl JsTypeError | Some identity \<Rightarrow> Inr (qe_identityBuffer qe identity)))
        (previous_identity_ids n hs)) (\<lambda>bs. Inr (response\<lparr>qs_values := bs\<rparr>))"
    using assms response by (simp add: identitiesByPublicKeyHashesQueryHandler_def too_many_hashes_def)
  have members: "Some j \<in> set (previous_identity_ids n hs) \<longleftrightarrow>
      (\<exists>h \<in> set hs. vstore_get False (ds_publicKeyIds (previous_state n)) h = Some j)" for j
    by (force simp: previous_identity_ids_def)
  show ?thesis
    unfolding handler rmap_lookups members
    by (auto simp: previous_identity_ids_def split: option.split)
qed

definition resting_node :: "unit node" where
  "resting_node = sample_node\<lparr>
     nd_context := setConsensusLogger ''commit'' delivered_ctx,
     nd_previousContext := setConsensusLogger ''commit'' delivered_ctx,
     nd_previousStores := sample_stores\<lparr>cs_state := storeIdentityPublicKeyHashes False [6] [[1], [3]]
       (storeIdentity False \<lparr>id_protocolVersion = 1, id_id = [6], id_publicKeys = [], id_balance = 0, id_revision = 0\<rparr>
          empty_state)\<rparr>\<rparr>"

definition sample_query_env :: "bool query_env" where
  "sample_query_env = \<lparr>qe_merk = entry_merk, qe_merkle = spelled_merkle, qe_dbs = (\<lambda>_. entry_stores),
     qe_identityBuffer = id_id, qe_dataContractBuffer = dc_id, qe_documentBuffer = doc_id, qe_maxIdentitiesPerRequest = 5\<rparr>"

theorem identities_by_hashes_witness:
  "\<exists>(t :: bool root_tree) r. identitiesByPublicKeyHashesQueryHandler sample_query_env t False (Some [[1], [2], [3]]) resting_node = Inr r \<and>
     qs_values r ! 2 = [6] \<and> qs_values r ! 1 = []"
proof -
  have signed: "has_signed_state resting_node"
    by (simp add: has_signed_state_def resting_node_def sample_node_def BlockExecutionContext_isEmpty_def
        setConsensusLogger_def delivered_ctx_def sample_ctx_after_def sample_ctx_def)
  have ids: "vstore_get False (ds_publicKeyIds (previous_state resting_node)) h = (if h \<in> {[1], [3]} then Some [6] else None)" for h
    by (auto simp: previous_state_def resting_node_def sample_node_def sample_stores_def storeIdentityPublicKeyHashes_def
        storeIdentity_def vstore_get_def vstore_put_def empty_state_def empty_vstore_def)
  have stored: "fetchIdentity False (previous_state resting_node) [6] =
      Some \<lparr>id_protocolVersion = 1, id_id = [6], id_publicKeys = [], id_balance = 0, id_revision = 0\<rparr>"
    by (simp add: previous_state_def resting_node_def sample_node_def sample_stores_def storeIdentityPublicKeyHashes_def
        storeIdentity_def fetchIdentity_def vstore_get_def vstore_put_def empty_state_def empty_vstore_def)
  have all: "\<forall>h \<in> set [[1], [2], [3]]. \<forall>i. vstore_get False (ds_publicKeyIds (previous_state resting_node)) h = Some i \<longrightarrow>
      fetchIdentity False (previous_state resting_node) i \<noteq> None"
    by (simp add: ids stored)
  have few: "length [[1], [2], [3 :: byte]] \<le> qe_maxIdentitiesPerRequest sample_query_env"
    by (simp add: sample_query_env_def)
  let ?t = "\<lparr>rt_leaves = drive_leaves, rt_leafHashes = []\<rparr> :: bool root_tree"
  from identities_by_hashes [OF signed few, of ?t] all obtain r where
    "identitiesByPublicKeyHashesQueryHandler sample_query_env ?t False (Some [[1], [2], [3]]) resting_node = Inr r"
    "\<forall>k < 3. qs_values r ! k = (case vstore_get False (ds_publicKeyIds (previous_state resting_node)) ([[1], [2], [3]] ! k) of
             None \<Rightarrow> [] | Some i \<Rightarrow> qe_identityBuffer sample_query_env (the (fetchIdentity False (previous_state resting_node) i)))"
    by auto
  then show ?thesis
    by (intro exI [of _ ?t] exI [of _ r]) (simp add: ids stored sample_query_env_def)
qed

definition empty_block :: "int \<Rightarrow> block" where
  "empty_block h = \<lparr>bl_header = sample_header\<lparr>hd_height := h\<rparr>, bl_lastCommitInfo = \<lparr>lc_quorumHash = [3], lc_stateSignature = [word_of_int h]\<rparr>,
     bl_chainLocks = [], bl_txs = []\<rparr>"

definition empty_object :: "int \<Rightarrow> context_object" where
  "empty_object h = \<lparr>co_dataContracts = [], co_cumulativeFees = 0, co_header = bl_header (empty_block h),
     co_lastCommitInfo = bl_lastCommitInfo (empty_block h), co_validTxs = 0, co_invalidTxs = 0, co_consensusLogger = None\<rparr>"

definition empty_config :: "(unit, bool) node_config" where
  "empty_config = lifecycle_config\<lparr>nc_encodeContext := (\<lambda>obj. [word_of_int (hd_height (co_header obj))]),
     nc_decodeContext := (\<lambda>b. Inr (empty_object (uint (hd b))))\<rparr>"

definition three_blocks :: "(unit node \<times> unit node \<times> unit node) option" where
  "three_blocks =
     (case execute_block sample_platform empty_config (empty_block 2) sample_node of
        None \<Rightarrow> None
      | Some (_, n1) \<Rightarrow>
          (case execute_block sample_platform empty_config (empty_block 3) n1 of
             None \<Rightarrow> None
           | Some (_, n2) \<Rightarrow>
               map_option (\<lambda>n3. (n1, n2, n3)) (begin_and_deliver sample_platform empty_config (empty_block 4) n2)))"

lemma three_blocks_run:
  "map_option (\<lambda>(n1, n2, n3). (BlockExecutionContext_toObject True (nd_context n1),
     BlockExecutionContext_toObject True (nd_context n2), BlockExecutionContext_toObject True (nd_previousContext n1),
     BlockExecutionContext_toObject True (nd_previousContext n2))) three_blocks =
   Some (Inr (empty_object 2), Inr (empty_object 3), Inl JsTypeError, Inr (empty_object 2))"
  by code_simp

lemma empty_decodes: "BlockExecutionContext_toObject True x = Inr (empty_object h) \<Longrightarrow> h \<in> {0 ..< 256} \<Longrightarrow>
  decodes empty_config x"
  by (simp add: decodes_def empty_config_def lifecycle_config_def empty_object_def empty_block_def uint_word_of_int)

lemma toObject_header: "BlockExecutionContext_toObject True x = Inr obj \<Longrightarrow>
  bc_header x = Some (co_header obj) \<and> bc_lastCommitInfo x = Some (co_lastCommitInfo obj)"
  by (auto simp: BlockExecutionContext_toObject_def split: option.split_asm)

theorem answers_dated_one_block_ahead_while_executing_witness:
  "\<exists>(n :: unit node) (n' :: unit node) r r'. createQueryResponse True n = Inr r \<and> qs_metadata r = (2, 9) \<and>
     createQueryResponse True n' = Inr r' \<and> qs_metadata r' = (3, 9) \<and>
     committed_stores (nd_previousStores n') = committed_stores (nd_previousStores n)"
proof -
  from three_blocks_run obtain n1 n2 n3 where run: "three_blocks = Some (n1, n2, n3)" and
    objs: "BlockExecutionContext_toObject True (nd_context n1) = Inr (empty_object 2)"
      "BlockExecutionContext_toObject True (nd_context n2) = Inr (empty_object 3)"
      "BlockExecutionContext_toObject True (nd_previousContext n1) = Inl JsTypeError"
      "BlockExecutionContext_toObject True (nd_previousContext n2) = Inr (empty_object 2)"
    by (auto simp: map_option_case split: option.split_asm)
  from run obtain h1 h2 where runs:
    "execute_block sample_platform empty_config (empty_block 2) sample_node = Some (h1, n1)"
    "execute_block sample_platform empty_config (empty_block 3) n1 = Some (h2, n2)"
    "begin_and_deliver sample_platform empty_config (empty_block 4) n2 = Some n3"
    by (auto simp: three_blocks_def split: option.split_asm prod.split_asm)
  have reach: "node_reachable sample_platform empty_config n1 [last_committed n1, last_committed sample_node]"
    by (rule executed [OF genesis [OF sample_fresh] runs(1)])
  have "decodes empty_config new_BlockExecutionContext" "decodes empty_config (nd_previousContext n1)"
    using objs(3) by (simp_all add: decodes_def BlockExecutionContext_toObject_def new_BlockExecutionContext_def)
  then have dec: "contexts_decode empty_config [last_committed n2, last_committed n1, last_committed sample_node]"
    using objs(1,2,4)
    by (auto simp: contexts_decode_def last_committed_def sample_node_def intro: empty_decodes)
  note headers = toObject_header [OF objs(1)] toObject_header [OF objs(2)] toObject_header [OF objs(4)]
  from begin_and_deliver_changes [OF runs(3)] have n3: "nd_previousContext n3 = nd_context n2"
    "bc_lastCommitInfo (nd_context n3) = Some (bl_lastCommitInfo (empty_block 4))" by auto
  obtain r r' where rr: "createQueryResponse True n2 = Inr r" "createQueryResponse True n3 = Inr r'"
    using headers n3 by (auto simp: createQueryResponse_def)
  have "bc_header (cm_context (last_committed n1)) = Some (bl_header (empty_block 2))"
    using headers by (simp add: last_committed_def empty_object_def)
  from answers_dated_one_block_ahead_while_executing [OF reach _ runs(2) dec this rr(1) runs(3) rr(2)]
  have "qs_metadata r = (2, 9)" "qs_metadata r' = (3, 9)"
    "committed_stores (nd_previousStores n3) = committed_stores (nd_previousStores n2)"
    by (simp_all add: last_committed_def empty_block_def sample_header_def)
  with rr show ?thesis by blast
qed

end
