(* ===== verification/DataContractValidation.thy ===== *)
theory DataContractValidation
  imports DeliverTx
begin

text \<open>
  Validation of a data contract, \<open>js-dpp/lib/dataContract\<close>: the depth of its schemas
  (\<open>validation/validateDataContractMaxDepthFactory.js\<close>), their patterns
  (\<open>validateDataContractPatternsFactory.js\<close>), the schemas with the base schema merged in
  (\<open>enrichDataContractWithBaseSchema.js\<close>), and the indices (\<open>validateDataContractFactory.js\<close> with
  \<open>getPropertyDefinitionByPathFactory.js\<close>). A raw contract is the JavaScript value CBOR decoding gave.

  The JSON schema validator ajv, the reference parser, the traversal of a schema and the regular
  expressions of RE2 are parameters.
\<close>

section \<open>Properties of JavaScript values\<close>

text \<open>
  \<open>v.name\<close> for the names and values schemas have: own properties of objects, and what every
  object inherits, which is truthy and has none of the keywords of a schema. Reading from
  \<open>undefined\<close> or \<open>null\<close> throws.
\<close>

definition inherited :: js where "inherited = JObj []"

definition js_member :: "js \<Rightarrow> string \<Rightarrow> dpp_error + js" where
  "js_member v name =
     (let missing = (if name \<in> set object_prototype_names then inherited else JUndefined) in
      case v of
        JUndefined \<Rightarrow> Inl JsTypeError
      | JNull \<Rightarrow> Inl JsTypeError
      | JObj o' \<Rightarrow> Inr (case map_of o' name of Some x \<Rightarrow> x | None \<Rightarrow> missing)
      | _ \<Rightarrow> Inr missing)"

definition js_elements :: "js \<Rightarrow> dpp_error + js list" where
  "js_elements v = (case v of JArr xs \<Rightarrow> Inr xs | _ \<Rightarrow> Inl JsTypeError)"

definition js_own :: "js \<Rightarrow> dpp_error + (string \<times> js) list" where
  "js_own v = (case v of JObj o' \<Rightarrow> Inr o' | _ \<Rightarrow> Inl JsTypeError)"

text \<open>\<open>typeof v === 'object'\<close>.\<close>

fun typeof_object :: "js \<Rightarrow> bool" where
  "typeof_object JNull = True"
| "typeof_object (JArr _) = True"
| "typeof_object (JBuf _) = True"
| "typeof_object (JObj _) = True"
| "typeof_object _ = False"

section \<open>Depth\<close>

definition MAX_DEPTH :: nat where "MAX_DEPTH = 500"

text \<open>\<open>Object.keys\<close> with the values; of \<open>null\<close> it throws.\<close>

fun object_values :: "js \<Rightarrow> dpp_error + js list" where
  "object_values JUndefined = Inl JsTypeError"
| "object_values JNull = Inl JsTypeError"
| "object_values (JArr xs) = Inr xs"
| "object_values (JObj o') = Inr (map snd (js_entries o'))"
| "object_values (JBuf b) = Inr (map (\<lambda>x. JNum (uint x)) b)"
| "object_values (JStr s) = Inr (map (\<lambda>c. JStr [c]) s)"
| "object_values _ = Inr []"

lemma rfold_cong [fundef_cong]:
  assumes "xs = ys" and "s = t" and "\<And>u y. y \<in> set ys \<Longrightarrow> f u y = g u y"
  shows "rfold f s xs = rfold g t ys"
proof -
  have "rfold f s ys = rfold g s ys" if "\<forall>y \<in> set ys. \<forall>u. f u y = g u y"
    using that by (induction ys arbitrary: s) (auto simp: rbind_def split: sum.split)
  with assms show ?thesis by auto
qed

lemma rbind_cong [fundef_cong]:
  "m = m' \<Longrightarrow> (\<And>a. m' = Inr a \<Longrightarrow> f a = g a) \<Longrightarrow> rbind m f = rbind m' g"
  by (cases m') auto

lemma object_values_smaller: "object_values v = Inr xs \<Longrightarrow> x \<in> set xs \<Longrightarrow> typeof_object x \<Longrightarrow> size x < size v"
proof (cases v)
  case (JObj o')
  assume "object_values v = Inr xs" and x: "x \<in> set xs"
  with JObj have "x \<in> snd ` set o'" by auto
  then obtain k where "(k, x) \<in> set o'" by auto
  then have "size_prod (\<lambda>_. 0) size (k, x) \<le> size_list (size_prod (\<lambda>_. 0) size) o'"
    by (rule size_list_estimation') simp
  with JObj show ?thesis by simp
qed (auto simp: size_list_estimation' less_Suc_eq_le)

function checkMaxDepth :: "js \<Rightarrow> dpp_error + nat" where
  "checkMaxDepth json =
     rbind (object_values json) (\<lambda>vs.
     rbind (rfold (\<lambda>depth v.
         if typeof_object v then rbind (checkMaxDepth v) (\<lambda>tmpDepth. Inr (max depth (tmpDepth + 1)))
         else Inr depth) 1 vs) (\<lambda>depth.
       if depth > MAX_DEPTH then Inl (ConsensusErrorThrown DataContractMaxDepthExceedError) else Inr depth))"
  by pat_completeness auto
termination
  by (relation "measure size") (auto dest: object_values_smaller)

declare checkMaxDepth.simps [simp del]

record contract_env =
  cv_metaSchema :: "js \<Rightarrow> string list"
  cv_dereference :: "js \<Rightarrow> string + js"
  cv_traverse :: "js \<Rightarrow> (js \<times> string) list"
  cv_re2 :: "js \<Rightarrow> string option"
  cv_compile :: "js \<Rightarrow> buffer \<Rightarrow> string \<Rightarrow> consensus_error list"
  cv_base58 :: "string \<Rightarrow> buffer option"
  cv_dppVersion :: int

definition validateDataContractMaxDepth :: "contract_env \<Rightarrow> js \<Rightarrow> dpp_error + unit validation_result" where
  "validateDataContractMaxDepth cv rawDataContract =
     (case cv_dereference cv rawDataContract of
        Inl message \<Rightarrow> Inr (with_error (InvalidJsonSchemaRefError message))
      | Inr dereferencedDataContract \<Rightarrow>
          (case checkMaxDepth dereferencedDataContract of
             Inr _ \<Rightarrow> Inr new_ValidationResult
           | Inl e \<Rightarrow> if e = ConsensusErrorThrown DataContractMaxDepthExceedError
                      then Inr (with_error DataContractMaxDepthExceedError) else Inl e))"

section \<open>Patterns\<close>

text \<open>\<open>cv_traverse\<close> lists the schemas of a value with their paths, \<open>cv_re2\<close> says why RE2 refuses.\<close>

definition item_patterns :: "js \<Rightarrow> js list" where
  "item_patterns item = (case item of JObj o' \<Rightarrow> map snd (filter (\<lambda>(key, _). key = ''pattern'') (js_entries o')) | _ \<Rightarrow> [])"

definition validateDataContractPatterns :: "contract_env \<Rightarrow> js \<Rightarrow> unit validation_result" where
  "validateDataContractPatterns cv rawDataContract =
     ValidationResult_addError
       (concat (map (\<lambda>(item, path). List.map_filter (\<lambda>value.
            map_option (IncompatibleRe2PatternError value path) (cv_re2 cv value)) (item_patterns item))
          (cv_traverse cv rawDataContract)))
       new_ValidationResult"

section \<open>The base schema\<close>

text \<open>The properties and the required ones of \<open>schema/document/documentBase.json\<close>.\<close>

definition identifier_schema :: js where
  "identifier_schema = JObj [(''type'', JStr ''array''), (''byteArray'', JBool True), (''minItems'', JNum 32),
     (''maxItems'', JNum 32), (''contentMediaType'', JStr ''application/x.dash.dpp.identifier'')]"

definition base_properties :: "(string \<times> js) list" where
  "base_properties =
     [(''$protocolVersion'', JObj [(''type'', JStr ''integer''), (''$comment'', JStr ''Maximum is the latest protocol version'')]),
      (''$id'', identifier_schema), (''$type'', JObj [(''type'', JStr ''string'')]),
      (''$revision'', JObj [(''type'', JStr ''integer''), (''minimum'', JNum 1)]),
      (''$dataContractId'', identifier_schema), (''$ownerId'', identifier_schema),
      (''$createdAt'', JObj [(''type'', JStr ''integer''), (''minimum'', JNum 0)]),
      (''$updatedAt'', JObj [(''type'', JStr ''integer''), (''minimum'', JNum 0)])]"

definition base_required :: "string list" where
  "base_required = [''$protocolVersion'', ''$id'', ''$type'', ''$revision'', ''$dataContractId'', ''$ownerId'']"

text \<open>
  One document type. Setting a property of a \<open>properties\<close> that is not there throws; the JSON
  schema of contracts makes it an object and \<open>required\<close> an array of strings.
\<close>

definition enrich_document ::
  "(string \<times> js) list \<Rightarrow> string list \<Rightarrow> string list \<Rightarrow> js \<Rightarrow> dpp_error + js" where
  "enrich_document baseProperties baseRequired excludeProperties document =
     rbind (js_own document) (\<lambda>d.
     rbind (js_member document ''required'') (\<lambda>required.
     rbind (js_member document ''properties'') (\<lambda>properties.
     rbind (js_own properties) (\<lambda>ps.
     rbind (if js_truthy required then js_elements required else Inr []) (\<lambda>rs.
       let d = AList.update ''properties'' (JObj (set_all baseProperties ps)) d;
           d = filter (\<lambda>(name, _). name \<notin> set excludeProperties) d;
           required = filter (\<lambda>r. r \<notin> JStr ` set excludeProperties) (rs @ map JStr baseRequired)
       in Inr (JObj (AList.update ''required'' (JArr required) d)))))))"

record enriched_contract =
  ec_id :: buffer
  ec_documents :: "(string \<times> js) list"

definition enrichDataContractWithBaseSchema ::
  "(string \<times> js) list \<Rightarrow> string list \<Rightarrow> byte \<Rightarrow> string list \<Rightarrow> buffer \<Rightarrow> (string \<times> js) list \<Rightarrow>
   dpp_error + enriched_contract" where
  "enrichDataContractWithBaseSchema baseProperties baseRequired schemaIdBytePrefix excludeProperties i documents =
     rbind (rmap (\<lambda>(type, d).
         rbind (enrich_document baseProperties baseRequired excludeProperties d) (\<lambda>d. Inr (type, d))) documents)
       (\<lambda>documents.
       Inr \<lparr>ec_id = i[0 := schemaIdBytePrefix, 1 := schemaIdBytePrefix, 2 := schemaIdBytePrefix, 4 := schemaIdBytePrefix],
            ec_documents = documents\<rparr>)"

section \<open>Indices\<close>

definition allowedSystemProperties :: "string list" where
  "allowedSystemProperties = [''$id'', ''$ownerId'', ''$createdAt'', ''$updatedAt'']"

definition prebuiltIndices :: "string list" where "prebuiltIndices = [''$id'']"

definition MAX_INDEXED_STRING_PROPERTY_LENGTH :: int where "MAX_INDEXED_STRING_PROPERTY_LENGTH = 1024"

definition UNIQUE_INDEX_LIMIT :: nat where "UNIQUE_INDEX_LIMIT = 3"

text \<open>The path is split at its dots; the empty list, which splitting never gives, finds nothing.\<close>

fun getPropertyDefinitionByPath :: "js \<Rightarrow> string list \<Rightarrow> dpp_error + js" where
  "getPropertyDefinitionByPath documentDefinition [] = Inr JUndefined"
| "getPropertyDefinitionByPath documentDefinition (currentSegment # rest) =
     rbind (js_member documentDefinition ''properties'') (\<lambda>properties.
     rbind (js_member (if js_truthy properties then properties else JObj []) currentSegment) (\<lambda>propertyDefinition.
       if \<not> js_truthy propertyDefinition then Inr JUndefined
       else if rest = [] then Inr propertyDefinition
       else rbind (js_member propertyDefinition ''type'') (\<lambda>type.
         if type = JStr ''array'' then
           rbind (js_member propertyDefinition ''items'') (\<lambda>itemsDefinition.
           rbind (js_member itemsDefinition ''type'') (\<lambda>itemType.
             if itemType = JStr ''object'' then getPropertyDefinitionByPath itemsDefinition rest
             else Inr JUndefined))
         else if type = JStr ''object'' then getPropertyDefinitionByPath propertyDefinition rest
         else Inr JUndefined)))"

definition index_property_names :: "js \<Rightarrow> dpp_error + string list" where
  "index_property_names indexDefinition =
     rbind (js_member indexDefinition ''properties'') (\<lambda>properties.
     rbind (js_elements properties) (\<lambda>ps.
       rmap (\<lambda>property. rbind (js_own property) (\<lambda>p.
         case js_entries p of [] \<Rightarrow> Inl JsTypeError | (name, _) # _ \<Rightarrow> Inr name)) ps))"

definition container_type :: "js \<Rightarrow> bool" where
  "container_type type \<longleftrightarrow> type = JStr ''object'' \<or> type = JStr ''array''"

fun some_container :: "js list \<Rightarrow> dpp_error + bool" where
  "some_container [] = Inr False"
| "some_container (prefixItem # xs) =
     rbind (js_member prefixItem ''type'') (\<lambda>type. if container_type type then Inr True else some_container xs)"

text \<open>\<open>===\<close> on the types of different items: a list of types equals no other one.\<close>

definition same_type :: "js \<Rightarrow> js \<Rightarrow> bool" where
  "same_type a b \<longleftrightarrow> a = b \<and> (a = JNull \<or> \<not> typeof_object a)"

definition invalid_prefix_items :: "js \<Rightarrow> dpp_error + bool" where
  "invalid_prefix_items prefixItems =
     rbind (js_elements prefixItems) (\<lambda>xs.
     rbind (some_container xs) (\<lambda>some.
       if some then Inr True
       else rbind (rmap (\<lambda>prefixItem. js_member prefixItem ''type'') xs) (\<lambda>types.
         Inr (\<exists>t \<in> set (tl types). \<not> same_type t (hd types)))))"

definition invalid_property_type :: "js \<Rightarrow> dpp_error + string option" where
  "invalid_property_type propertyDefinition =
     rbind (js_member propertyDefinition ''type'') (\<lambda>propertyType.
     rbind (js_member propertyDefinition ''byteArray'') (\<lambda>isByteArray.
       if propertyType = JStr ''array'' \<and> \<not> js_truthy isByteArray then
         rbind (js_member propertyDefinition ''items'') (\<lambda>items.
         rbind (js_member propertyDefinition ''prefixItems'') (\<lambda>prefixItems.
         rbind (if js_truthy prefixItems then invalid_prefix_items prefixItems else Inr False) (\<lambda>isInvalidPrefixItems.
         rbind (js_member items ''type'') (\<lambda>itemType.
           Inr (if isInvalidPrefixItems \<or> container_type itemType then Some ''array'' else None)))))
       else Inr (if propertyType = JStr ''object'' then Some ''object'' else None)))"

definition max_length_errors :: "string \<Rightarrow> js \<Rightarrow> string \<Rightarrow> js \<Rightarrow> consensus_error list" where
  "max_length_errors documentType indexDefinition propertyName maxLength =
     (case maxLength of
        JUndefined \<Rightarrow> [InvalidIndexedPropertyConstraintError documentType indexDefinition propertyName ''maxLength'' ''should be set'']
      | JNum n \<Rightarrow>
          (if n > MAX_INDEXED_STRING_PROPERTY_LENGTH
           then [InvalidIndexedPropertyConstraintError documentType indexDefinition propertyName ''maxLength''
                   ''should be less or equal 1024'']
           else [])
      | _ \<Rightarrow> [])"

definition property_errors :: "string \<Rightarrow> js \<Rightarrow> string \<times> js \<Rightarrow> dpp_error + consensus_error list" where
  "property_errors documentType indexDefinition = (\<lambda>(propertyName, propertyDefinition).
     rbind (invalid_property_type propertyDefinition) (\<lambda>invalidPropertyType.
     rbind (js_member propertyDefinition ''type'') (\<lambda>propertyType.
     rbind (js_member propertyDefinition ''maxLength'') (\<lambda>maxLength.
       Inr ((case invalidPropertyType of
               None \<Rightarrow> []
             | Some t \<Rightarrow> [InvalidIndexPropertyTypeError documentType indexDefinition propertyName t]) @
            (if propertyType = JStr ''string''
             then max_length_errors documentType indexDefinition propertyName maxLength else []))))))"

definition required_fields :: "js \<Rightarrow> dpp_error + js list" where
  "required_fields documentSchema =
     rbind (js_member documentSchema ''required'') (\<lambda>required.
       if js_truthy required then js_elements required else Inr [])"

definition compound_errors :: "string \<Rightarrow> js \<Rightarrow> js \<Rightarrow> string list \<Rightarrow> dpp_error + consensus_error list" where
  "compound_errors documentType documentSchema indexDefinition indexPropertyNames =
     (if length indexPropertyNames > 1 then
        rbind (required_fields documentSchema) (\<lambda>requiredFields.
          let allAreRequired = (\<forall>name \<in> set indexPropertyNames. JStr name \<in> set requiredFields);
              allAreNotRequired = (\<forall>name \<in> set indexPropertyNames. JStr name \<notin> set requiredFields)
          in Inr (if \<not> allAreRequired \<and> \<not> allAreNotRequired
                  then [InvalidCompoundIndexError documentType indexDefinition] else []))
      else Inr [])"

record index_scan =
  ix_fingerprints :: "js list"
  ix_uniqueCount :: nat
  ix_limitReached :: bool
  ix_errors :: "consensus_error list"

definition count_unique :: "string \<Rightarrow> js \<Rightarrow> index_scan \<Rightarrow> index_scan" where
  "count_unique documentType unique u =
     (if \<not> ix_limitReached u \<and> js_truthy unique then
        (let n = Suc (ix_uniqueCount u) in
         if n > UNIQUE_INDEX_LIMIT then
           u\<lparr>ix_uniqueCount := n, ix_limitReached := True,
             ix_errors := ix_errors u @ [UniqueIndicesLimitReachedError documentType]\<rparr>
         else u\<lparr>ix_uniqueCount := n\<rparr>)
      else u)"

definition index_definitions :: "js \<Rightarrow> string list \<Rightarrow> dpp_error + (string \<times> js) list" where
  "index_definitions documentSchema indexPropertyNames =
     rmap (\<lambda>propertyName.
         rbind (getPropertyDefinitionByPath documentSchema (split_on (CHR ''.'') propertyName)) (\<lambda>d.
           Inr (propertyName, d)))
       (filter (\<lambda>name. name \<notin> set allowedSystemProperties) indexPropertyNames)"

text \<open>What is reported of one index by itself, and whether its check went on to the end.\<close>

definition index_errors :: "string \<Rightarrow> js \<Rightarrow> js \<Rightarrow> string list \<Rightarrow> dpp_error + consensus_error list \<times> bool" where
  "index_errors documentType documentSchema indexDefinition indexPropertyNames =
     (let systemErrors = concat (map (\<lambda>propertyName. if indexPropertyNames = [propertyName]
               then [SystemPropertyIndexAlreadyPresentError documentType indexDefinition propertyName] else [])
               prebuiltIndices) in
      rbind (index_definitions documentSchema indexPropertyNames) (\<lambda>propertyDefinitionEntities.
        let undefinedProperties = map fst (filter (\<lambda>(_, d). \<not> js_truthy d) propertyDefinitionEntities) in
        if undefinedProperties \<noteq> [] then
          Inr (systemErrors @ map (UndefinedIndexPropertyError documentType indexDefinition) undefinedProperties, False)
        else
          rbind (rmap (property_errors documentType indexDefinition) propertyDefinitionEntities) (\<lambda>propertyErrors.
          rbind (compound_errors documentType documentSchema indexDefinition indexPropertyNames) (\<lambda>compoundErrors.
            Inr (systemErrors @ concat propertyErrors @ compoundErrors, True)))))"

text \<open>\<open>JSON.stringify\<close> tells the values apart that the JSON schema allows; they are their fingerprints.\<close>

definition check_index :: "string \<Rightarrow> js \<Rightarrow> index_scan \<Rightarrow> js \<Rightarrow> dpp_error + index_scan" where
  "check_index documentType documentSchema u indexDefinition =
     rbind (index_property_names indexDefinition) (\<lambda>indexPropertyNames.
     rbind (js_member indexDefinition ''unique'') (\<lambda>unique.
     rbind (js_member indexDefinition ''properties'') (\<lambda>fingerprint.
     rbind (index_errors documentType documentSchema indexDefinition indexPropertyNames) (\<lambda>(errors, complete).
       let u = count_unique documentType unique u;
           u = u\<lparr>ix_errors := ix_errors u @ errors\<rparr>
       in Inr (if \<not> complete then u
               else u\<lparr>ix_errors := ix_errors u @
                        (if fingerprint \<in> set (ix_fingerprints u)
                         then [DuplicateIndexError documentType indexDefinition] else []),
                      ix_fingerprints := ix_fingerprints u @ [fingerprint]\<rparr>)))))"

definition new_scan :: index_scan where
  "new_scan = \<lparr>ix_fingerprints = [], ix_uniqueCount = 0, ix_limitReached = False, ix_errors = []\<rparr>"

definition check_document_indices :: "string \<times> js \<Rightarrow> dpp_error + consensus_error list" where
  "check_document_indices = (\<lambda>(documentType, documentSchema).
     rbind (js_own documentSchema) (\<lambda>d.
       case map_of d ''indices'' of
         None \<Rightarrow> Inr []
       | Some indices \<Rightarrow>
           rbind (js_elements indices) (\<lambda>is.
           rbind (rfold (check_index documentType documentSchema) new_scan is) (\<lambda>u. Inr (ix_errors u)))))"

section \<open>validateDataContract\<close>

definition Identifier_from :: "contract_env \<Rightarrow> js \<Rightarrow> dpp_error + buffer" where
  "Identifier_from cv value =
     (let identifier = (\<lambda>b. if length b = 32 then Inr b else Inl (JsError ''Identifier must be 32 long'')) in
      case value of
        JBuf b \<Rightarrow> identifier b
      | JStr s \<Rightarrow> (case cv_base58 cv s of None \<Rightarrow> Inl (JsError ''Non-base58 character'') | Some b \<Rightarrow> identifier b)
      | _ \<Rightarrow> Inl (JsError ''Identifier expects Buffer''))"

definition validate_documents :: "contract_env \<Rightarrow> js \<Rightarrow> dpp_error + unit validation_result" where
  "validate_documents cv rawDataContract =
     rbind (js_member rawDataContract ''$id'') (\<lambda>i.
     rbind (Identifier_from cv i) (\<lambda>i.
     rbind (js_member rawDataContract ''ownerId'') (\<lambda>ownerId.
     rbind (Identifier_from cv ownerId) (\<lambda>_.
     rbind (js_member rawDataContract ''documents'') (\<lambda>documents.
     rbind (js_own documents) (\<lambda>documents.
     rbind (enrichDataContractWithBaseSchema base_properties base_required 0 [] i (js_entries documents)) (\<lambda>enriched.
       let schemaErrors = concat (map (cv_compile cv rawDataContract (ec_id enriched)) (keys (ec_documents enriched))) in
       if schemaErrors \<noteq> [] then Inr (ValidationResult_addError schemaErrors new_ValidationResult)
       else rbind (rmap check_document_indices (ec_documents enriched)) (\<lambda>indexErrors.
         Inr (ValidationResult_addError (concat indexErrors) new_ValidationResult)))))))))"

definition validateDataContract :: "contract_env \<Rightarrow> js \<Rightarrow> dpp_error + unit validation_result" where
  "validateDataContract cv rawDataContract =
     and_then (Inr (JsonSchemaValidator_validate (cv_metaSchema cv rawDataContract) :: unit validation_result))
       (\<lambda>_. and_then
         (rbind (js_member rawDataContract ''protocolVersion'') (\<lambda>v.
            case v of JNum n \<Rightarrow> validateProtocolVersion (cv_dppVersion cv) n | _ \<Rightarrow> Inl JsTypeError))
       (\<lambda>_. and_then
         (rbind (validateDataContractMaxDepth cv rawDataContract) (\<lambda>depthResult.
            Inr (ValidationResult_merge (validateDataContractPatterns cv rawDataContract) depthResult)))
       (\<lambda>_. validate_documents cv rawDataContract)))"

section \<open>The depth of a contract\<close>

definition object_children :: "js \<Rightarrow> js list" where
  "object_children v = (case object_values v of Inl _ \<Rightarrow> [] | Inr vs \<Rightarrow> filter typeof_object vs)"

lemma object_children_smaller: "x \<in> set (object_children v) \<Longrightarrow> size x < size v"
  by (cases "object_values v") (auto simp: object_children_def dest: object_values_smaller)

function js_depth :: "js \<Rightarrow> nat" where
  "js_depth v = Suc (fold max (map js_depth (object_children v)) 0)"
  by pat_completeness auto
termination
  by (relation "measure size") (auto dest: object_children_smaller)

function holds_null :: "js \<Rightarrow> bool" where
  "holds_null v \<longleftrightarrow> v = JNull \<or> list_ex holds_null (object_children v)"
  by pat_completeness auto
termination
  by (relation "measure size") (auto dest: object_children_smaller)

declare js_depth.simps [simp del] holds_null.simps [simp del]

lemma fold_max_ge: "x \<in> set xs \<Longrightarrow> x \<le> fold max xs (n :: nat)" "n \<le> fold max xs (n :: nat)"
proof -
  have "n \<le> fold max xs n \<and> (\<forall>x \<in> set xs. x \<le> fold max xs n)" for n :: nat
    by (induction xs arbitrary: n) (auto intro: le_trans [OF max.cobounded2] le_trans [OF max.cobounded1])
  then show "x \<in> set xs \<Longrightarrow> x \<le> fold max xs n" "n \<le> fold max xs n" by auto
qed

lemma child_depth: "x \<in> set (object_children v) \<Longrightarrow> js_depth x < js_depth v"
  by (subst js_depth.simps [of v]) (simp add: less_Suc_eq_le fold_max_ge)

lemma js_depth_le_size: "js_depth v \<le> Suc (size v)"
proof (induction v rule: js_depth.induct)
  case (1 v)
  have le: "n \<le> m \<Longrightarrow> (\<forall>x \<in> set xs. x \<le> m) \<Longrightarrow> fold max xs n \<le> m" for xs and n m :: nat
    by (induction xs arbitrary: n) auto
  have "js_depth x \<le> size v" if "x \<in> set (object_children v)" for x
    using 1 [OF that] object_children_smaller [OF that] by linarith
  then show ?case by (subst js_depth.simps) (auto intro!: le)
qed

lemma object_values_Inr: "typeof_object v \<Longrightarrow> v \<noteq> JNull \<Longrightarrow> \<exists>vs. object_values v = Inr vs"
  by (cases v) auto

abbreviation depth_exceeded :: dpp_error where
  "depth_exceeded \<equiv> ConsensusErrorThrown DataContractMaxDepthExceedError"

lemma rfold_filter: "rfold (\<lambda>s x. if P x then f s x else Inr s) s xs = rfold f s (filter P xs)"
proof (induction xs arbitrary: s)
  case (Cons x xs)
  then show ?case by (cases "f s x") simp_all
qed simp

lemma depth_loop_ok:
  "rfold (\<lambda>depth v. rbind (f v) (\<lambda>t. Inr (max depth (Suc t)))) (Suc n) vs = Inr d \<Longrightarrow>
   \<forall>v \<in> set vs. \<forall>t. f v = Inr t \<longrightarrow> t = js_depth v \<Longrightarrow>
   d = Suc (fold max (map js_depth vs) n) \<and> (\<forall>v \<in> set vs. f v = Inr (js_depth v))"
proof (induction vs arbitrary: n)
  case (Cons v vs)
  from Cons.prems(1) obtain t where t: "f v = Inr t"
    and rest: "rfold (\<lambda>depth v. rbind (f v) (\<lambda>t. Inr (max depth (Suc t)))) (Suc (max n t)) vs = Inr d"
    by (cases "f v") simp_all
  have eq: "t = js_depth v" using Cons.prems(2) t by (meson list.set_intros(1))
  have "\<forall>v \<in> set vs. \<forall>t. f v = Inr t \<longrightarrow> t = js_depth v" using Cons.prems(2) by (meson list.set_intros(2))
  from Cons.IH [OF rest this] t eq show ?case by (simp add: max.commute)
qed simp

lemma depth_loop_error:
  "rfold (\<lambda>depth v. rbind (f v) (\<lambda>t. Inr (max depth (Suc t)))) n vs = Inl e \<Longrightarrow> \<exists>v \<in> set vs. f v = Inl e"
  by (induction vs arbitrary: n) (auto simp: rbind_eq_Inl_iff)

lemma checkMaxDepth_spec:
  "typeof_object v \<Longrightarrow>
   (case checkMaxDepth v of
      Inr d \<Rightarrow> \<not> holds_null v \<and> d = js_depth v \<and> js_depth v \<le> MAX_DEPTH
    | Inl e \<Rightarrow> e = JsTypeError \<and> holds_null v \<or> e = depth_exceeded \<and> js_depth v > MAX_DEPTH)"
proof (induction v rule: js_depth.induct)
  case (1 v)
  show ?case
  proof (cases "v = JNull")
    case True
    then show ?thesis by (simp add: checkMaxDepth.simps holds_null.simps)
  next
    case False
    with 1 obtain vs where vs: "object_values v = Inr vs" using object_values_Inr by blast
    then have children: "object_children v = filter typeof_object vs" by (simp add: object_children_def)
    let ?loop = "rfold (\<lambda>depth v. rbind (checkMaxDepth v) (\<lambda>t. Inr (max depth (Suc t)))) (Suc 0) (object_children v)"
    have run: "checkMaxDepth v = rbind ?loop (\<lambda>depth. if depth > MAX_DEPTH then Inl depth_exceeded else Inr depth)"
      by (subst checkMaxDepth.simps) (simp add: vs rfold_filter children)
    have below: "case checkMaxDepth x of
        Inr d \<Rightarrow> \<not> holds_null x \<and> d = js_depth x \<and> js_depth x \<le> MAX_DEPTH
      | Inl e \<Rightarrow> e = JsTypeError \<and> holds_null x \<or> e = depth_exceeded \<and> js_depth x > MAX_DEPTH"
      if "x \<in> set (object_children v)" for x
      using "1.IH" [OF that] that children by simp
    show ?thesis
    proof (cases ?loop)
      case (Inl e)
      with depth_loop_error [OF Inl] obtain x where x: "x \<in> set (object_children v)" "checkMaxDepth x = Inl e" by blast
      with below [OF x(1)] child_depth [OF x(1)] show ?thesis
        by (auto simp: run Inl holds_null.simps [of v] list_ex_iff)
    next
      case (Inr d)
      have "t = js_depth x" if "x \<in> set (object_children v)" "checkMaxDepth x = Inr t" for x t
        using below [OF that(1)] that(2) by simp
      with depth_loop_ok [OF Inr] have d: "d = Suc (fold max (map js_depth (object_children v)) 0)"
        and "\<forall>x \<in> set (object_children v). checkMaxDepth x = Inr (js_depth x)" by blast+
      moreover have "d = js_depth v" using d by (simp add: js_depth.simps [of v])
      ultimately have "d = js_depth v" "\<forall>x \<in> set (object_children v). checkMaxDepth x = Inr (js_depth x)" by auto
      with below False show ?thesis
        by (auto simp: run Inr holds_null.simps [of v] list_ex_iff)
    qed
  qed
qed

text \<open>
  The depth check of a contract without \<open>null\<close> is exact: it passes when no chain of nested objects
  is longer than 500 and reports the depth otherwise. A \<open>null\<close> anywhere in a contract that is not too
  deep, which the JSON schema allows as a constant, throws a \<open>TypeError\<close>.
\<close>

theorem max_depth_exact:
  assumes "cv_dereference cv raw = Inr v" and "typeof_object v"
  shows "(\<not> holds_null v \<longrightarrow> validateDataContractMaxDepth cv raw =
       Inr (if js_depth v \<le> MAX_DEPTH then new_ValidationResult else with_error DataContractMaxDepthExceedError)) \<and>
    (holds_null v \<and> js_depth v \<le> MAX_DEPTH \<longrightarrow> validateDataContractMaxDepth cv raw = Inl JsTypeError)"
  using checkMaxDepth_spec [OF assms(2)] assms(1)
  by (auto simp: validateDataContractMaxDepth_def split: sum.split_asm)

section \<open>What an accepted contract is\<close>

definition indexable :: "js \<Rightarrow> bool" where
  "indexable d \<longleftrightarrow> invalid_property_type d = Inr None \<and>
     (js_member d ''type'' = Inr (JStr ''string'') \<longrightarrow>
        (\<exists>m. js_member d ''maxLength'' = Inr m \<and> m \<noteq> JUndefined \<and>
           (\<forall>n. m = JNum n \<longrightarrow> n \<le> MAX_INDEXED_STRING_PROPERTY_LENGTH)))"

definition index_ok :: "js \<Rightarrow> js \<Rightarrow> bool" where
  "index_ok documentSchema indexDefinition \<longleftrightarrow>
     (\<exists>names. index_property_names indexDefinition = Inr names \<and> names \<noteq> [''$id''] \<and>
        (\<forall>name \<in> set names - set allowedSystemProperties. \<exists>d.
           getPropertyDefinitionByPath documentSchema (split_on (CHR ''.'') name) = Inr d \<and> js_truthy d \<and> indexable d) \<and>
        (length names > 1 \<longrightarrow> (\<exists>rs. required_fields documentSchema = Inr rs \<and>
           (JStr ` set names \<subseteq> set rs \<or> JStr ` set names \<inter> set rs = {}))))"

definition index_unique :: "js \<Rightarrow> bool" where
  "index_unique ix \<longleftrightarrow> (case js_member ix ''unique'' of Inr v \<Rightarrow> js_truthy v | Inl _ \<Rightarrow> False)"

definition index_key :: "js \<Rightarrow> js" where
  "index_key ix = (case js_member ix ''properties'' of Inr v \<Rightarrow> v | Inl _ \<Rightarrow> JUndefined)"

lemma js_member_Inr: "js_member v a = Inr x \<Longrightarrow> \<exists>y. js_member v b = Inr y"
  by (cases v) (auto simp: js_member_def Let_def)

lemma property_errors_Nil: "property_errors t ix (name, d) = Inr [] \<longleftrightarrow> indexable d"
proof (cases "invalid_property_type d")
  case (Inr x)
  then obtain type where type: "js_member d ''type'' = Inr type"
    by (auto simp: invalid_property_type_def rbind_eq_Inr_iff)
  moreover obtain m where "js_member d ''maxLength'' = Inr m" using js_member_Inr [OF type] by blast
  ultimately show ?thesis
    using Inr by (auto simp: property_errors_def indexable_def max_length_errors_def split: js.splits option.splits)
qed (simp add: property_errors_def indexable_def)

lemma rmap_all_Nil:
  "(\<exists>yss. rmap f xs = Inr yss \<and> concat yss = []) \<longleftrightarrow> (\<forall>x \<in> set xs. f x = Inr [])"
proof (induction xs)
  case (Cons x xs)
  then show ?case by (cases "f x"; cases "rmap f xs") auto
qed simp

lemma compound_errors_Nil:
  "compound_errors t schema ix names = Inr [] \<longleftrightarrow>
   (length names > 1 \<longrightarrow> (\<exists>rs. required_fields schema = Inr rs \<and>
      (JStr ` set names \<subseteq> set rs \<or> JStr ` set names \<inter> set rs = {})))"
  by (cases "required_fields schema") (auto simp: compound_errors_def Let_def)

lemma rmap_pair:
  "rmap (\<lambda>x. rbind (f x) (\<lambda>d. Inr (x, d))) xs = Inr ys \<longleftrightarrow>
   (\<forall>x \<in> set xs. \<exists>d. f x = Inr d) \<and> ys = map (\<lambda>x. (x, projr (f x))) xs"
  by (induction xs arbitrary: ys) (auto simp: rbind_eq_Inr_iff)

lemma index_definitions_Inr:
  "index_definitions schema names = Inr entities \<longleftrightarrow>
   (\<forall>name \<in> set names - set allowedSystemProperties. \<exists>d.
      getPropertyDefinitionByPath schema (split_on (CHR ''.'') name) = Inr d) \<and>
   entities = map (\<lambda>name. (name, projr (getPropertyDefinitionByPath schema (split_on (CHR ''.'') name))))
     (filter (\<lambda>name. name \<notin> set allowedSystemProperties) names)"
  unfolding index_definitions_def rmap_pair by auto

lemma lookups_all:
  assumes "\<And>n d. (n, d) \<in> E \<longleftrightarrow> n \<in> S \<and> L n = Inr d" and "\<forall>n \<in> S. \<exists>d. L n = Inr d"
  shows "(\<forall>n \<in> S. \<exists>d. L n = Inr d \<and> P d) \<longleftrightarrow> (\<forall>x \<in> E. P (snd x))"
proof (intro iffI ballI)
  fix x assume "\<forall>n \<in> S. \<exists>d. L n = Inr d \<and> P d" "x \<in> E"
  then show "P (snd x)" using assms(1) [of "fst x" "snd x"] by force
next
  fix n assume all: "\<forall>x \<in> E. P (snd x)" and n: "n \<in> S"
  then obtain d where "L n = Inr d" using assms(2) by blast
  with all n assms(1) [of n d] show "\<exists>d. L n = Inr d \<and> P d" by force
qed

lemma index_errors_Nil:
  assumes "index_property_names ix = Inr names"
  shows "index_errors t schema ix names = Inr ([], complete) \<longleftrightarrow> index_ok schema ix \<and> complete"
proof (cases "index_definitions schema names")
  case (Inl e)
  then have "\<not> (\<forall>name \<in> set names - set allowedSystemProperties. \<exists>d.
      getPropertyDefinitionByPath schema (split_on (CHR ''.'') name) = Inr d)"
    using index_definitions_Inr [of schema names] by auto
  then show ?thesis by (auto simp: index_errors_def Inl index_ok_def assms)
next
  case (Inr entities)
  note defs = iffD1 [OF index_definitions_Inr Inr]
  have in_entities: "(name, d) \<in> set entities \<longleftrightarrow> name \<in> set names - set allowedSystemProperties \<and>
      getPropertyDefinitionByPath schema (split_on (CHR ''.'') name) = Inr d" for name d
    using defs by (force simp: image_iff)
  have "(\<forall>name \<in> set names - set allowedSystemProperties. \<exists>d.
      getPropertyDefinitionByPath schema (split_on (CHR ''.'') name) = Inr d \<and> js_truthy d \<and> indexable d) \<longleftrightarrow>
      (\<forall>x \<in> set entities. js_truthy (snd x) \<and> indexable (snd x))"
    by (rule lookups_all [OF in_entities conjunct1 [OF defs]])
  moreover have "property_errors t ix x = Inr [] \<longleftrightarrow> indexable (snd x)" for x
    by (cases x) (simp add: property_errors_Nil)
  ultimately have ok: "index_ok schema ix \<longleftrightarrow> names \<noteq> [''$id''] \<and>
      (\<forall>(name, d) \<in> set entities. js_truthy d) \<and> (\<forall>x \<in> set entities. property_errors t ix x = Inr []) \<and>
      compound_errors t schema ix names = Inr []"
    unfolding index_ok_def assms compound_errors_Nil by auto
  show ?thesis
  proof (cases "\<forall>(name, d) \<in> set entities. js_truthy d")
    case False
    then have "filter (\<lambda>(_, d). \<not> js_truthy d) entities \<noteq> []" by (auto simp: filter_empty_conv)
    with False ok show ?thesis by (auto simp: index_errors_def Inr Let_def)
  next
    case True
    then have "filter (\<lambda>(_, d). \<not> js_truthy d) entities = []" by (auto simp: filter_empty_conv)
    then have "index_errors t schema ix names = Inr ([], complete) \<longleftrightarrow> complete \<and> names \<noteq> [''$id''] \<and>
        (\<exists>yss. rmap (property_errors t ix) entities = Inr yss \<and> concat yss = []) \<and>
        compound_errors t schema ix names = Inr []"
      by (auto simp: index_errors_def Inr Let_def rbind_eq_Inr_iff prebuiltIndices_def)
    also have "(\<exists>yss. rmap (property_errors t ix) entities = Inr yss \<and> concat yss = []) \<longleftrightarrow>
        (\<forall>x \<in> set entities. property_errors t ix x = Inr [])"
      by (rule rmap_all_Nil)
    finally show ?thesis using True ok by auto
  qed
qed

text \<open>One index: the scan goes on without an error exactly when the index is fine and new.\<close>

definition scanned :: "index_scan \<Rightarrow> js \<Rightarrow> index_scan" where
  "scanned u ix = u\<lparr>ix_fingerprints := ix_fingerprints u @ [index_key ix],
     ix_uniqueCount := ix_uniqueCount u + (if index_unique ix then 1 else 0)\<rparr>"

lemma check_index_Inr:
  assumes "index_property_names ix = Inr names" "js_member ix ''unique'' = Inr unique" "js_member ix ''properties'' = Inr key"
  shows "check_index t schema u ix = rbind (index_errors t schema ix names) (\<lambda>(errors, complete).
      let u = count_unique t unique u; u = u\<lparr>ix_errors := ix_errors u @ errors\<rparr>
      in Inr (if \<not> complete then u
              else u\<lparr>ix_errors := ix_errors u @ (if key \<in> set (ix_fingerprints u) then [DuplicateIndexError t ix] else []),
                     ix_fingerprints := ix_fingerprints u @ [key]\<rparr>))"
  by (simp add: check_index_def assms)

lemma count_unique_errors:
  "ix_errors (count_unique t v u) = ix_errors u @
     (if \<not> ix_limitReached u \<and> js_truthy v \<and> ix_uniqueCount u \<ge> UNIQUE_INDEX_LIMIT
      then [UniqueIndicesLimitReachedError t] else [])"
  "ix_fingerprints (count_unique t v u) = ix_fingerprints u"
  by (auto simp: count_unique_def Let_def)

lemma index_names_properties:
  "index_property_names ix = Inr names \<Longrightarrow> \<exists>key unique. js_member ix ''properties'' = Inr key \<and> js_member ix ''unique'' = Inr unique"
  using js_member_Inr by (auto simp: index_property_names_def rbind_eq_Inr_iff)

lemma check_index_clean:
  assumes "ix_errors u = []" and "\<not> ix_limitReached u"
  shows "check_index t schema u ix = Inr u' \<and> ix_errors u' = [] \<longleftrightarrow>
    index_ok schema ix \<and> index_key ix \<notin> set (ix_fingerprints u) \<and>
    (index_unique ix \<longrightarrow> ix_uniqueCount u < UNIQUE_INDEX_LIMIT) \<and> u' = scanned u ix"
proof (cases "index_property_names ix")
  case (Inl e)
  then show ?thesis by (auto simp: check_index_def index_ok_def)
next
  case (Inr names)
  then obtain key unique where key: "js_member ix ''properties'' = Inr key" and unique: "js_member ix ''unique'' = Inr unique"
    using index_names_properties by blast
  have "check_index t schema u ix = Inr u' \<and> ix_errors u' = [] \<longleftrightarrow>
      index_errors t schema ix names = Inr ([], True) \<and> key \<notin> set (ix_fingerprints u) \<and>
      (js_truthy unique \<longrightarrow> ix_uniqueCount u < UNIQUE_INDEX_LIMIT) \<and> u' = scanned u ix"
  proof (cases "index_errors t schema ix names")
    case (Inr r)
    obtain errors complete where r: "r = (errors, complete)" by force
    from index_errors_Nil [OF \<open>index_property_names ix = Inr names\<close>, of t schema False] Inr r
    have complete: "errors = [] \<Longrightarrow> complete" by auto
    have step: "check_index t schema u ix = Inr (let v = count_unique t unique u; v = v\<lparr>ix_errors := ix_errors v @ errors\<rparr> in
        if \<not> complete then v
        else v\<lparr>ix_errors := ix_errors v @ (if key \<in> set (ix_fingerprints v) then [DuplicateIndexError t ix] else []),
               ix_fingerprints := ix_fingerprints v @ [key]\<rparr>)"
      by (simp add: check_index_Inr [OF \<open>index_property_names ix = Inr names\<close> unique key] Inr r Let_def)
    show ?thesis
    proof (cases "errors = [] \<and> (js_truthy unique \<longrightarrow> ix_uniqueCount u < UNIQUE_INDEX_LIMIT) \<and> key \<notin> set (ix_fingerprints u)")
      case True
      then have "check_index t schema u ix = Inr (scanned u ix)"
        using assms complete unfolding step
        by (cases u) (auto simp: Let_def count_unique_def scanned_def index_key_def key index_unique_def unique)
      with True complete assms Inr r show ?thesis by (auto simp: scanned_def)
    next
      case False
      then have "check_index t schema u ix = Inr v \<Longrightarrow> ix_errors v \<noteq> []" for v
        using assms complete by (auto simp: step Let_def count_unique_errors split: if_split_asm)
      with False Inr r show ?thesis by auto
    qed
  qed (simp add: check_index_Inr [OF Inr unique key])
  then show ?thesis
    by (simp add: index_errors_Nil [OF Inr] index_key_def key index_unique_def unique)
qed

lemma check_index_keeps_errors:
  assumes "check_index t schema u ix = Inr u'" and "ix_errors u' = []"
  shows "ix_errors u = []"
proof -
  from assms(1) obtain names where names: "index_property_names ix = Inr names"
    by (cases "index_property_names ix") (auto simp: check_index_def)
  then obtain key unique where key: "js_member ix ''properties'' = Inr key" "js_member ix ''unique'' = Inr unique"
    using index_names_properties by blast
  show ?thesis
    using assms by (cases "index_errors t schema ix names")
      (auto simp: check_index_Inr [OF names key(2,1)] Let_def count_unique_errors split: if_split_asm)
qed

lemma scan_keeps_errors: "rfold (check_index t schema) u is = Inr u' \<Longrightarrow> ix_errors u' = [] \<Longrightarrow> ix_errors u = []"
proof (induction "is" arbitrary: u)
  case (Cons ix "is")
  then obtain v where "check_index t schema u ix = Inr v" "rfold (check_index t schema) v is = Inr u'"
    by (auto simp: rbind_eq_Inr_iff)
  with Cons check_index_keeps_errors show ?case by blast
qed simp

lemma scanned_simps [simp]:
  "ix_errors (scanned u ix) = ix_errors u" "ix_limitReached (scanned u ix) = ix_limitReached u"
  "ix_fingerprints (scanned u ix) = ix_fingerprints u @ [index_key ix]"
  "ix_uniqueCount (scanned u ix) = ix_uniqueCount u + (if index_unique ix then 1 else 0)"
  by (simp_all add: scanned_def)

lemma scan_clean:
  assumes "ix_errors u = []" and "\<not> ix_limitReached u" and "ix_uniqueCount u \<le> UNIQUE_INDEX_LIMIT"
  shows "(\<exists>u'. rfold (check_index t schema) u is = Inr u' \<and> ix_errors u' = []) \<longleftrightarrow>
    (\<forall>ix \<in> set is. index_ok schema ix) \<and> ix_uniqueCount u + length (filter index_unique is) \<le> UNIQUE_INDEX_LIMIT \<and>
    distinct (map index_key is) \<and> index_key ` set is \<inter> set (ix_fingerprints u) = {}"
  using assms
proof (induction "is" arbitrary: u)
  case Nil
  then show ?case by simp
next
  case (Cons ix "is")
  note step = check_index_clean [OF Cons.prems(1,2), of t schema ix]
  show ?case
  proof (cases "check_index t schema u ix = Inr (scanned u ix)")
    case True
    with step [of "scanned u ix"] Cons.prems(1)
    have ok: "index_ok schema ix" "index_key ix \<notin> set (ix_fingerprints u)"
      "index_unique ix \<longrightarrow> ix_uniqueCount u < UNIQUE_INDEX_LIMIT" by auto
    have "ix_uniqueCount (scanned u ix) \<le> UNIQUE_INDEX_LIMIT" using ok(3) Cons.prems(3) by auto
    from Cons.IH [OF _ _ this] Cons.prems(1,2) True ok show ?thesis by auto
  next
    case False
    have no: "\<not> (\<exists>u'. rfold (check_index t schema) u (ix # is) = Inr u' \<and> ix_errors u' = [])"
    proof (intro notI, elim exE conjE)
      fix u' assume run: "rfold (check_index t schema) u (ix # is) = Inr u'" "ix_errors u' = []"
      then obtain v where v: "check_index t schema u ix = Inr v" "rfold (check_index t schema) v is = Inr u'"
        by (auto simp: rbind_eq_Inr_iff)
      with scan_keeps_errors [OF v(2) run(2)] step [of v] False show False by auto
    qed
    from step [of "scanned u ix"] False Cons.prems(1) have "\<not> (index_ok schema ix \<and> index_key ix \<notin> set (ix_fingerprints u) \<and>
        (index_unique ix \<longrightarrow> ix_uniqueCount u < UNIQUE_INDEX_LIMIT))" by auto
    with no show ?thesis by auto
  qed
qed

text \<open>The indices of a document type that are accepted.\<close>

definition indices_ok :: "js \<Rightarrow> js list \<Rightarrow> bool" where
  "indices_ok schema is \<longleftrightarrow> (\<forall>ix \<in> set is. index_ok schema ix) \<and>
     length (filter index_unique is) \<le> UNIQUE_INDEX_LIMIT \<and> distinct (map index_key is)"

lemma check_document_indices_Nil:
  "check_document_indices (t, JObj d) = Inr [] \<longleftrightarrow>
   (\<forall>v. map_of d ''indices'' = Some v \<longrightarrow> (\<exists>is. v = JArr is \<and> indices_ok (JObj d) is))"
proof (cases "map_of d ''indices''")
  case (Some v)
  show ?thesis
  proof (cases "\<exists>is. v = JArr is")
    case True
    then obtain "is" where v: "v = JArr is" by blast
    have "check_document_indices (t, JObj d) = Inr [] \<longleftrightarrow>
        (\<exists>u. rfold (check_index t (JObj d)) new_scan is = Inr u \<and> ix_errors u = [])"
      by (auto simp: check_document_indices_def js_own_def Some v js_elements_def rbind_eq_Inr_iff)
    also have "\<dots> \<longleftrightarrow> indices_ok (JObj d) is"
      by (subst scan_clean) (auto simp: new_scan_def indices_ok_def)
    finally show ?thesis by (simp add: Some v)
  next
    case False
    then have "js_elements v = Inl JsTypeError" by (cases v) (auto simp: js_elements_def)
    with False show ?thesis by (auto simp: check_document_indices_def js_own_def Some)
  qed
qed (simp add: check_document_indices_def js_own_def)

definition enriched_document :: "js \<Rightarrow> dpp_error + js" where
  "enriched_document = enrich_document base_properties base_required []"

definition document_accepted :: "js \<Rightarrow> bool" where
  "document_accepted d \<longleftrightarrow> (\<exists>schema. enriched_document d = Inr (JObj schema) \<and>
     (\<forall>v. map_of schema ''indices'' = Some v \<longrightarrow> (\<exists>is. v = JArr is \<and> indices_ok (JObj schema) is)))"

definition prefixed_id :: "byte \<Rightarrow> buffer \<Rightarrow> buffer" where
  "prefixed_id p i = i[0 := p, 1 := p, 2 := p, 4 := p]"

definition documents_accepted :: "contract_env \<Rightarrow> js \<Rightarrow> bool" where
  "documents_accepted cv raw \<longleftrightarrow>
     (\<exists>i ownerId documents. rbind (js_member raw ''$id'') (Identifier_from cv) = Inr i \<and>
        rbind (js_member raw ''ownerId'') (Identifier_from cv) = Inr ownerId \<and>
        js_member raw ''documents'' = Inr (JObj documents) \<and>
        (\<forall>(type, d) \<in> set documents. document_accepted d \<and> cv_compile cv raw (prefixed_id 0 i) type = []))"

lemma enrich_all:
  "rmap (\<lambda>(type, d). rbind (f d) (\<lambda>d. Inr (type, d))) ds = Inr es \<longleftrightarrow>
   (\<forall>(type, d) \<in> set ds. \<exists>d'. f d = Inr d') \<and> es = map (\<lambda>(type, d). (type, projr (f d))) ds"
  by (induction ds arbitrary: es) (auto simp: rbind_eq_Inr_iff)

lemma enrich_document_object: "enrich_document bp br ex d = Inr d' \<Longrightarrow> \<exists>schema. d' = JObj schema"
  by (auto simp: enrich_document_def Let_def rbind_eq_Inr_iff)

lemma document_accepted_iff:
  "document_accepted d \<longleftrightarrow> (\<exists>d'. enriched_document d = Inr d' \<and> check_document_indices (type, d') = Inr [])"
  unfolding document_accepted_def
  using enrich_document_object [of base_properties base_required "[]" d]
  by (auto simp: enriched_document_def check_document_indices_Nil)

lemma js_own_Inr: "js_own v = Inr o' \<longleftrightarrow> v = JObj o'"
  by (cases v) (auto simp: js_own_def)

lemma validate_documents_run:
  assumes "rbind (js_member raw ''$id'') (Identifier_from cv) = Inr i"
    and "rbind (js_member raw ''ownerId'') (Identifier_from cv) = Inr ownerId"
    and "js_member raw ''documents'' = Inr (JObj ds)"
  shows "validate_documents cv raw =
    rbind (rmap (\<lambda>(type, d). rbind (enriched_document d) (\<lambda>d. Inr (type, d))) (js_entries ds)) (\<lambda>es.
      let errors = concat (map (cv_compile cv raw (prefixed_id 0 i)) (keys es)) in
      if errors \<noteq> [] then Inr (ValidationResult_addError errors new_ValidationResult)
      else rbind (rmap check_document_indices es) (\<lambda>indexErrors.
        Inr (ValidationResult_addError (concat indexErrors) new_ValidationResult)))"
proof -
  let ?enriched = "rmap (\<lambda>(type, d). rbind (enriched_document d) (\<lambda>d. Inr (type, d))) (js_entries ds)"
  from assms obtain v w where "js_member raw ''$id'' = Inr v" "Identifier_from cv v = Inr i"
    "js_member raw ''ownerId'' = Inr w" "Identifier_from cv w = Inr ownerId"
    by (auto simp: rbind_eq_Inr_iff)
  then show ?thesis
    using assms(3) by (cases ?enriched) (simp_all add: validate_documents_def js_own_def
        enrichDataContractWithBaseSchema_def prefixed_id_def enriched_document_def Let_def)
qed

lemma validate_documents_valid: "run_valid (validate_documents cv raw) \<longleftrightarrow> documents_accepted cv raw"
proof (cases "\<exists>i ownerId documents. rbind (js_member raw ''$id'') (Identifier_from cv) = Inr i \<and>
        rbind (js_member raw ''ownerId'') (Identifier_from cv) = Inr ownerId \<and>
        js_member raw ''documents'' = Inr (JObj documents)")
  case False
  then have "\<not> documents_accepted cv raw" by (auto simp: documents_accepted_def)
  moreover have "\<not> run_valid (validate_documents cv raw)"
    using False by (auto simp: validate_documents_def run_valid_def rbind_def js_own_def split: sum.splits js.splits)
  ultimately show ?thesis by simp
next
  case True
  then obtain i ownerId ds where ids: "rbind (js_member raw ''$id'') (Identifier_from cv) = Inr i"
    "rbind (js_member raw ''ownerId'') (Identifier_from cv) = Inr ownerId" "js_member raw ''documents'' = Inr (JObj ds)" by blast
  let ?enriched = "rmap (\<lambda>(type, d). rbind (enriched_document d) (\<lambda>d. Inr (type, d))) (js_entries ds)"
  note run = validate_documents_run [OF ids]
  have accepted: "documents_accepted cv raw \<longleftrightarrow>
      (\<forall>(type, d) \<in> set ds. document_accepted d \<and> cv_compile cv raw (prefixed_id 0 i) type = [])"
    using ids by (auto simp: documents_accepted_def)
  show ?thesis
  proof (cases ?enriched)
    case (Inl e)
    then have "\<not> (\<forall>(type, d) \<in> set (js_entries ds). \<exists>d'. enriched_document d = Inr d')"
      using enrich_all [of enriched_document "js_entries ds"] by (metis Inl_Inr_False)
    then obtain type d where d: "(type, d) \<in> set ds" "\<forall>d'. enriched_document d \<noteq> Inr d'"
      unfolding set_js_entries by blast
    then have "\<not> document_accepted d" by (simp add: document_accepted_def)
    with d(1) have "\<not> documents_accepted cv raw" unfolding accepted by blast
    then show ?thesis by (simp add: run Inl run_valid_def)
  next
    case (Inr es)
    note es = iffD1 [OF enrich_all Inr, unfolded set_js_entries]
    have valid: "run_valid (validate_documents cv raw) \<longleftrightarrow>
        (\<forall>type \<in> set (keys es). cv_compile cv raw (prefixed_id 0 i) type = []) \<and>
        (\<forall>x \<in> set es. check_document_indices x = Inr [])"
      unfolding run Inr rbind_Inr Let_def rmap_all_Nil [symmetric]
      by (cases "rmap check_document_indices es") (auto simp: run_valid_def)
    have one: "check_document_indices (type, projr (enriched_document d)) = Inr [] \<longleftrightarrow> document_accepted d"
      if "(type, d) \<in> set ds" for type d
    proof -
      from es that obtain d' where "enriched_document d = Inr d'" by blast
      then show ?thesis by (simp add: document_accepted_iff [of d type])
    qed
    have "set es = (\<lambda>(type, d). (type, projr (enriched_document d))) ` set ds" using es by simp
    then have "(\<forall>x \<in> set es. check_document_indices x = Inr []) \<longleftrightarrow> (\<forall>(type, d) \<in> set ds. document_accepted d)"
      using one by (auto simp: split_paired_Ball_Sigma split: prod.split)
    moreover have "keys es = keys (js_entries ds)" using es by (auto simp: case_prod_beta)
    ultimately show ?thesis unfolding valid accepted by (auto simp: image_iff)
  qed
qed

text \<open>
  C17. A data contract is valid exactly when its JSON schema and version are, it holds no \<open>null\<close> and is not
  too deep, RE2 accepts its patterns, its document types compile, and every document type has at most
  three unique indices, no two alike, whose properties are defined, of an indexable type, bounded when
  they are strings, and all required or all optional when the index is compound.
\<close>

theorem validateDataContract_accepts_iff:
  assumes "\<And>v. cv_dereference cv raw = Inr v \<Longrightarrow> typeof_object v"
  shows "run_valid (validateDataContract cv raw) \<longleftrightarrow>
    cv_metaSchema cv raw = [] \<and>
    (\<exists>n. js_member raw ''protocolVersion'' = Inr (JNum n) \<and> run_valid (validateProtocolVersion (cv_dppVersion cv) n)) \<and>
    (\<exists>v. cv_dereference cv raw = Inr v \<and> \<not> holds_null v \<and> js_depth v \<le> MAX_DEPTH) \<and>
    (\<forall>(item, path) \<in> set (cv_traverse cv raw). \<forall>value \<in> set (item_patterns item). cv_re2 cv value = None) \<and>
    documents_accepted cv raw"
proof -
  have depth: "run_valid (rbind (validateDataContractMaxDepth cv raw) (\<lambda>depthResult.
        Inr (ValidationResult_merge (validateDataContractPatterns cv raw) depthResult))) \<longleftrightarrow>
      (\<exists>v. cv_dereference cv raw = Inr v \<and> \<not> holds_null v \<and> js_depth v \<le> MAX_DEPTH) \<and>
      ValidationResult_isValid (validateDataContractPatterns cv raw)"
  proof (cases "cv_dereference cv raw")
    case (Inr v)
    from checkMaxDepth_spec [OF assms [OF Inr]] show ?thesis
      by (auto simp: validateDataContractMaxDepth_def Inr run_valid_def split: sum.split_asm)
  qed (simp add: validateDataContractMaxDepth_def run_valid_def)
  have patterns: "ValidationResult_isValid (validateDataContractPatterns cv raw) \<longleftrightarrow>
      (\<forall>(item, path) \<in> set (cv_traverse cv raw). \<forall>value \<in> set (item_patterns item). cv_re2 cv value = None)"
    by (auto simp: validateDataContractPatterns_def List.map_filter_def filter_empty_conv)
  have version: "run_valid (rbind (js_member raw ''protocolVersion'') (\<lambda>v.
        case v of JNum n \<Rightarrow> validateProtocolVersion (cv_dppVersion cv) n | _ \<Rightarrow> Inl JsTypeError)) \<longleftrightarrow>
      (\<exists>n. js_member raw ''protocolVersion'' = Inr (JNum n) \<and> run_valid (validateProtocolVersion (cv_dppVersion cv) n))"
  proof (cases "js_member raw ''protocolVersion''")
    case (Inr v)
    then show ?thesis by (cases v) (simp_all add: run_valid_def)
  qed (simp add: run_valid_def)
  have schema: "run_valid (Inr (JsonSchemaValidator_validate (cv_metaSchema cv raw) :: unit validation_result)) \<longleftrightarrow>
      cv_metaSchema cv raw = []"
    by (simp add: run_valid_def JsonSchemaValidator_validate_def)
  show ?thesis
    unfolding validateDataContract_def run_valid_and_then schema version depth patterns validate_documents_valid by blast
qed

section \<open>What the checks of the indices do not see\<close>

lemma split_on_single: "c \<notin> set s \<Longrightarrow> split_on c s = [s]"
  by (induction s) auto

lemma js_member_JObj:
  "js_member (JObj d) name = Inr (case map_of d name of Some x \<Rightarrow> x
     | None \<Rightarrow> if name \<in> set object_prototype_names then inherited else JUndefined)"
  by (simp add: js_member_def Let_def)

lemma keywords_not_inherited:
  "''type'' \<notin> set object_prototype_names" "''byteArray'' \<notin> set object_prototype_names"
  "''properties'' \<notin> set object_prototype_names" "''items'' \<notin> set object_prototype_names"
  "''required'' \<notin> set object_prototype_names" "''indices'' \<notin> set object_prototype_names"
  by (simp_all add: object_prototype_names_def)

text \<open>
  An index over one property is accepted although no index on it can work: when the property is
  declared by a reference or with a list of types, whatever it is, an object or a string of any length;
  and when it is not declared at all but its name is one that every JavaScript object inherits.
\<close>

theorem index_checks_blind:
  assumes "map_of d ''properties'' = Some (JObj ps)"
    and "index_property_names ix = Inr [name]" and "name \<notin> set allowedSystemProperties" and "CHR ''.'' \<notin> set name"
    and "map_of ps name = None \<and> name \<in> set object_prototype_names \<or>
      (\<exists>p. map_of ps name = Some (JObj p) \<and> (map_of p ''type'' = None \<or> (\<exists>types. map_of p ''type'' = Some (JArr types))))"
  shows "index_ok (JObj d) ix"
proof -
  obtain p where found: "getPropertyDefinitionByPath (JObj d) [name] = Inr (JObj p)"
    and type: "map_of p ''type'' = None \<or> (\<exists>types. map_of p ''type'' = Some (JArr types))"
    using assms(1,5) by (auto simp: js_member_JObj keywords_not_inherited inherited_def)
  from type have "indexable (JObj p)"
    by (auto simp: indexable_def invalid_property_type_def js_member_JObj keywords_not_inherited)
  with found assms(2-4) show ?thesis
    by (auto simp: index_ok_def split_on_single allowedSystemProperties_def)
qed

section \<open>Contracts that stop the validation\<close>

text \<open>The only thing the checks throw is a \<open>TypeError\<close>.\<close>

definition only_type_errors :: "dpp_error + 'a \<Rightarrow> bool" where
  "only_type_errors m \<longleftrightarrow> (\<forall>e. m = Inl e \<longrightarrow> e = JsTypeError)"

named_theorems type_errors \<open>what throws nothing but type errors\<close>

lemma type_errors_base [type_errors]:
  "only_type_errors (Inr a)" "only_type_errors (Inl JsTypeError)" "only_type_errors (js_member v k)"
  "only_type_errors (js_own v)" "only_type_errors (js_elements v)"
  by (auto simp: only_type_errors_def js_member_def js_own_def js_elements_def Let_def split: js.split_asm)

lemma type_errors_bind [type_errors]:
  "only_type_errors m \<Longrightarrow> (\<And>a. m = Inr a \<Longrightarrow> only_type_errors (f a)) \<Longrightarrow> only_type_errors (rbind m f)"
  by (cases m) (auto simp: only_type_errors_def)

lemma type_errors_if [type_errors]:
  "(b \<Longrightarrow> only_type_errors m) \<Longrightarrow> (\<not> b \<Longrightarrow> only_type_errors m') \<Longrightarrow> only_type_errors (if b then m else m')"
  by simp

lemma type_errors_rmap [type_errors]: "(\<And>x. x \<in> set xs \<Longrightarrow> only_type_errors (f x)) \<Longrightarrow> only_type_errors (rmap f xs)"
proof (induction xs)
  case (Cons x xs)
  show ?case unfolding rmap.simps by (intro type_errors Cons) simp_all
qed (simp add: type_errors)

lemma type_errors_rfold [type_errors]:
  "(\<And>s x. x \<in> set xs \<Longrightarrow> only_type_errors (f s x)) \<Longrightarrow> only_type_errors (rfold f s xs)"
proof (induction xs arbitrary: s)
  case (Cons x xs)
  show ?case unfolding rfold.simps by (intro type_errors Cons) simp_all
qed (simp add: type_errors)

lemma type_errors_path [type_errors]: "only_type_errors (getPropertyDefinitionByPath d path)"
proof (induction d path rule: getPropertyDefinitionByPath.induct)
  case (2 d segment rest)
  show ?case unfolding getPropertyDefinitionByPath.simps by (intro type_errors 2) simp_all
qed (simp add: type_errors)

lemma type_errors_names [type_errors]: "only_type_errors (index_property_names ix)"
  unfolding index_property_names_def by (intro type_errors) (auto intro: type_errors split: list.split prod.split)

lemma type_errors_some_container [type_errors]: "only_type_errors (some_container xs)"
proof (induction xs)
  case (Cons x xs)
  show ?case unfolding some_container.simps by (intro type_errors Cons)
qed (simp add: type_errors)

lemma type_errors_property [type_errors]: "only_type_errors (property_errors t ix x)"
  by (cases x) (simp only: property_errors_def invalid_property_type_def invalid_prefix_items_def case_prod_conv,
    intro type_errors)

lemma type_errors_compound [type_errors]: "only_type_errors (compound_errors t d ix names)"
  unfolding compound_errors_def required_fields_def Let_def by (intro type_errors)

lemma type_errors_definitions [type_errors]: "only_type_errors (index_definitions d names)"
  unfolding index_definitions_def by (intro type_errors)

lemma type_errors_index [type_errors]: "only_type_errors (index_errors t d ix names)"
  unfolding index_errors_def Let_def by (intro type_errors)

lemma type_errors_check_index [type_errors]: "only_type_errors (check_index t d u ix)"
  unfolding check_index_def Let_def by (intro type_errors) (auto intro: type_errors split: prod.split)

lemma type_errors_document [type_errors]: "only_type_errors (check_document_indices x)"
  unfolding check_document_indices_def
  by (cases x, simp only: case_prod_conv, intro type_errors) (auto intro!: type_errors split: option.split)

lemma type_errors_enrich [type_errors]: "only_type_errors (enrich_document bp br ex d)"
  unfolding enrich_document_def Let_def by (intro type_errors)

lemma rmap_throws:
  assumes "x \<in> set xs" and "\<nexists>y. f x = Inr y" and "only_type_errors (rmap f xs)"
  shows "rmap f xs = Inl JsTypeError"
proof (cases "rmap f xs")
  case (Inr ys)
  with assms(1) have "\<exists>y. f x = Inr y" by (induction xs arbitrary: ys) (auto simp: rbind_eq_Inr_iff)
  with assms(2) show ?thesis by simp
qed (use assms(3) in \<open>simp add: only_type_errors_def\<close>)

text \<open>
  A document type without properties of its own, one that only refers to another schema, and an
  index below a property that is an array of bytes, which has no items.
\<close>

definition refers_only :: "js \<Rightarrow> bool" where
  "refers_only d \<longleftrightarrow> (\<exists>o'. d = JObj o' \<and> map_of o' ''properties'' = None)"

definition indexes_below_bytes :: "js \<Rightarrow> bool" where
  "indexes_below_bytes d \<longleftrightarrow> (\<exists>schema ps is ix names name segment rest p.
     enriched_document d = Inr (JObj schema) \<and> map_of schema ''properties'' = Some (JObj ps) \<and>
     map_of schema ''indices'' = Some (JArr is) \<and> ix \<in> set is \<and> index_property_names ix = Inr names \<and>
     name \<in> set names \<and> split_on (CHR ''.'') name = segment # rest \<and> rest \<noteq> [] \<and> name \<notin> set allowedSystemProperties \<and>
     map_of ps segment = Some (JObj p) \<and> map_of p ''type'' = Some (JStr ''array'') \<and> map_of p ''items'' = None)"

lemma refers_only_throws: "refers_only d \<Longrightarrow> enriched_document d = Inl JsTypeError"
  by (auto simp: refers_only_def enriched_document_def enrich_document_def js_own_def js_member_JObj
      keywords_not_inherited rbind_def split: sum.split option.split)

lemma indexes_below_bytes_throws:
  assumes "indexes_below_bytes d"
  shows "\<exists>d'. enriched_document d = Inr d' \<and> check_document_indices (t, d') = Inl JsTypeError"
proof -
  from assms obtain schema ps "is" ix names name segment rest p where d: "enriched_document d = Inr (JObj schema)"
    and schema: "map_of schema ''properties'' = Some (JObj ps)" "map_of schema ''indices'' = Some (JArr is)"
    and ix: "ix \<in> set is" "index_property_names ix = Inr names"
    and name: "name \<in> set names" "split_on (CHR ''.'') name = segment # rest" "rest \<noteq> []" "name \<notin> set allowedSystemProperties"
    and p: "map_of ps segment = Some (JObj p)" "map_of p ''type'' = Some (JStr ''array'')" "map_of p ''items'' = None"
    unfolding indexes_below_bytes_def by blast
  have "getPropertyDefinitionByPath (JObj schema) (split_on (CHR ''.'') name) = Inl JsTypeError"
    using schema p name(3) by (auto simp: name(2) js_member_JObj keywords_not_inherited js_member_def Let_def)
  then have "\<nexists>es. index_definitions (JObj schema) names = Inr es"
    using name(1,4) by (auto simp: index_definitions_Inr simp del: getPropertyDefinitionByPath.simps intro!: bexI [of _ name])
  then have "\<nexists>v. check_index t (JObj schema) u ix = Inr v" for u
    using ix(2) by (auto simp: check_index_def rbind_eq_Inr_iff index_errors_def Let_def)
  then have "\<nexists>v. rfold (check_index t (JObj schema)) u is = Inr v" for u
    using ix(1) by (induction "is" arbitrary: u) (auto simp: rbind_eq_Inr_iff)
  then have "\<nexists>es. check_document_indices (t, JObj schema) = Inr es"
    using schema(2) by (auto simp: check_document_indices_def js_own_def js_elements_def rbind_eq_Inr_iff)
  then have "check_document_indices (t, JObj schema) = Inl JsTypeError"
    using type_errors_document [of "(t, JObj schema)"]
    by (cases "check_document_indices (t, JObj schema)") (auto simp: only_type_errors_def)
  with d show ?thesis by blast
qed

lemma validate_documents_throws:
  assumes "rbind (js_member raw ''$id'') (Identifier_from cv) = Inr i"
    and "rbind (js_member raw ''ownerId'') (Identifier_from cv) = Inr ownerId"
    and "js_member raw ''documents'' = Inr (JObj ds)" and "(t, d) \<in> set ds"
    and "refers_only d \<or> indexes_below_bytes d \<and> (\<forall>type. cv_compile cv raw (prefixed_id 0 i) type = [])"
  shows "validate_documents cv raw = Inl JsTypeError"
proof -
  let ?f = "\<lambda>(type, d). rbind (enriched_document d) (\<lambda>d. Inr (type, d))"
  note run = validate_documents_run [OF assms(1-3)]
  have te: "only_type_errors (rmap ?f (js_entries ds))"
    unfolding enriched_document_def by (intro type_errors) (auto intro: type_errors split: prod.split)
  from assms(5) show ?thesis
  proof (elim disjE conjE)
    assume "refers_only d"
    then have "\<nexists>y. ?f (t, d) = Inr y" by (simp add: refers_only_throws)
    with rmap_throws [OF _ _ te, of "(t, d)"] assms(4) show ?thesis by (simp add: run)
  next
    assume bytes: "indexes_below_bytes d" and compile: "\<forall>type. cv_compile cv raw (prefixed_id 0 i) type = []"
    show ?thesis
    proof (cases "rmap ?f (js_entries ds)")
      case (Inl e)
      with te show ?thesis by (simp add: run only_type_errors_def)
    next
      case (Inr es)
      note es = iffD1 [OF enrich_all Inr, unfolded set_js_entries]
      from indexes_below_bytes_throws [OF bytes, of t] obtain d' where
        d': "enriched_document d = Inr d'" "check_document_indices (t, d') = Inl JsTypeError" by blast
      from es assms(4) d'(1) have "(t, d') \<in> set es" by (force simp: image_iff)
      with d'(2) have "rmap check_document_indices es = Inl JsTypeError"
        by (intro rmap_throws [of "(t, d')"] type_errors) simp_all
      with compile Inr show ?thesis by (simp add: run)
    qed
  qed
qed

lemma and_then_throws:
  "m = Inl e \<Longrightarrow> and_then m f = Inl e" "run_valid m \<Longrightarrow> f () = Inl e \<Longrightarrow> and_then m f = Inl e"
  by (cases m; simp add: and_then_def run_valid_def)+

text \<open>A contract as the object CBOR gives: \<open>DataContract.toObject\<close>.\<close>

definition raw_contract :: "data_contract \<Rightarrow> js" where
  "raw_contract c = JObj
     ([(''protocolVersion'', JNum (dc_protocolVersion c)), (''$id'', JBuf (dc_id c)), (''$schema'', JStr (dc_schema c)),
       (''ownerId'', JBuf (dc_ownerId c)),
       (''documents'', JObj (map (\<lambda>(type, s). (type, cs_schema s)) (dc_documents c)))] @
      (if dc_defs c = [] then [] else [(''$defs'', JObj (dc_defs c))]))"

lemma raw_contract_members [simp]:
  "js_member (raw_contract c) ''protocolVersion'' = Inr (JNum (dc_protocolVersion c))"
  "js_member (raw_contract c) ''$id'' = Inr (JBuf (dc_id c))"
  "js_member (raw_contract c) ''ownerId'' = Inr (JBuf (dc_ownerId c))"
  "js_member (raw_contract c) ''documents'' = Inr (JObj (map (\<lambda>(type, s). (type, cs_schema s)) (dc_documents c)))"
  by (simp_all add: js_member_def raw_contract_def)

text \<open>
  C16. A contract that the JSON schema admits can stop Drive: one that holds a \<open>null\<close>, one with a document
  type that only refers to another schema, or one with an index below an array of bytes. Its validation
  throws a \<open>TypeError\<close>, which is not an answer to Tenderdash, so that executing the transaction ends in it.
\<close>

theorem contract_halts_drive:
  assumes "bc_header ctx \<noteq> None"
    and "decodeProtocolEntity (pf_decode pf) bytes = Inr (RawTyped (DataContractCreateTransition b c entropy))"
    and "va_dataContract (pf_validators pf) = (\<lambda>c. validateDataContract cv (raw_contract c))"
    and "sc_transition (va_schemas (pf_validators pf)) (DataContractCreateTransition b c entropy) = []"
    and "run_valid (validateProtocolVersion (va_dppVersion (pf_validators pf)) (stb_protocolVersion b))"
    and "cv_metaSchema cv (raw_contract c) = []"
    and "run_valid (validateProtocolVersion (cv_dppVersion cv) (dc_protocolVersion c))"
    and "cv_dereference cv (raw_contract c) = Inr v" and "typeof_object v" and "js_depth v \<le> MAX_DEPTH"
    and "holds_null v \<or>
      ValidationResult_isValid (validateDataContractPatterns cv (raw_contract c)) \<and>
      length (dc_id c) = 32 \<and> length (dc_ownerId c) = 32 \<and>
      (\<exists>(type, s) \<in> set (dc_documents c). refers_only (cs_schema s) \<or>
         indexes_below_bytes (cs_schema s) \<and> (\<forall>type. cv_compile cv (raw_contract c) (prefixed_id 0 (dc_id c)) type = []))"
  shows "\<exists>s' ctx'. deliverTx pf (s, ctx) (Some bytes) = (Halt JsTypeError, s', ctx')"
proof -
  let ?raw = "raw_contract c"
  have schema: "run_valid (Inr (JsonSchemaValidator_validate []) :: dpp_error + unit validation_result)"
    by (simp add: run_valid_def JsonSchemaValidator_validate_def)
  have "validateDataContract cv ?raw = Inl JsTypeError"
  proof (cases "holds_null v")
    case True
    with max_depth_exact [OF assms(8,9)] assms(10)
    have "validateDataContractMaxDepth cv ?raw = Inl JsTypeError" by blast
    then show ?thesis
      unfolding validateDataContract_def assms(6)
      by (intro and_then_throws(2) [OF schema] and_then_throws(2) [OF _ and_then_throws(1)]) (simp_all add: assms(7))
  next
    case False
    with assms(11) obtain type sch where valid: "ValidationResult_isValid (validateDataContractPatterns cv ?raw)"
      and ids: "Identifier_from cv (JBuf (dc_id c)) = Inr (dc_id c)" "Identifier_from cv (JBuf (dc_ownerId c)) = Inr (dc_ownerId c)"
      and d: "(type, sch) \<in> set (dc_documents c)" "refers_only (cs_schema sch) \<or> indexes_below_bytes (cs_schema sch) \<and>
          (\<forall>type. cv_compile cv ?raw (prefixed_id 0 (dc_id c)) type = [])"
      by (auto simp: Identifier_from_def)
    have "validate_documents cv ?raw = Inl JsTypeError"
      by (rule validate_documents_throws [where t = type and d = "cs_schema sch"]) (use ids d in \<open>force+\<close>)
    moreover have "validateDataContractMaxDepth cv ?raw = Inr new_ValidationResult"
      using False max_depth_exact [OF assms(8,9)] assms(10) by simp
    ultimately show ?thesis
      unfolding validateDataContract_def assms(6)
      by (intro and_then_throws(2) [OF schema] and_then_throws(2) [OF _ and_then_throws(2)])
         (use assms(7) in \<open>simp_all add: run_valid_def valid\<close>)
  qed
  then have "validateStateTransitionBasic (pf_env pf) (pf_validators pf) True s'
      (RawTyped (DataContractCreateTransition b c entropy)) = Inl JsTypeError" for s'
    unfolding validateStateTransitionBasic_def validate_by_type_basic_def raw_state_transition.case
      state_transition.case validateDataContractCreateTransitionBasic_def assms(3,4)
    by (intro and_then_throws(1) and_then_throws(2) [OF schema] and_then_throws(2) [OF assms(5)])
  then have "createFromBuffer (pf_env pf) (pf_validators pf) (pf_decode pf) True s' False bytes = Inl JsTypeError" for s'
    using assms(2) by (simp add: createFromBuffer_def createFromObject_def)
  then have "unserializeStateTransition (pf_env pf) (pf_validators pf) (pf_decode pf) True s' (Some bytes) = Inl JsTypeError" for s'
    by (simp add: unserializeStateTransition_def)
  with deliver_uncaught [OF assms(1)] show ?thesis by (simp add: abci_code_def)
qed

section \<open>Sample contracts\<close>

definition sample_contract_env :: contract_env where
  "sample_contract_env = \<lparr>cv_metaSchema = (\<lambda>_. []), cv_dereference = Inr, cv_traverse = (\<lambda>v. [(v, [])]),
     cv_re2 = (\<lambda>_. None), cv_compile = (\<lambda>_ _ _. []), cv_base58 = (\<lambda>_. None), cv_dppVersion = 1\<rparr>"

definition asc_index :: "string list \<Rightarrow> js" where
  "asc_index names = JObj [(''properties'', JArr (map (\<lambda>name. JObj [(name, JStr ''asc'')]) names)), (''unique'', JBool True)]"

definition object_schema :: "(string \<times> js) list \<Rightarrow> js list \<Rightarrow> js" where
  "object_schema properties indices = JObj [(''type'', JStr ''object''), (''properties'', JObj properties),
     (''indices'', JArr indices), (''required'', JArr [JStr ''name''])]"

definition string_schema :: "int \<Rightarrow> js" where
  "string_schema n = JObj [(''type'', JStr ''string''), (''maxLength'', JNum n)]"

definition bytes_schema :: js where
  "bytes_schema = JObj [(''type'', JStr ''array''), (''byteArray'', JBool True)]"

definition note_schema :: js where
  "note_schema = object_schema [(''name'', string_schema 63), (''data'', bytes_schema)] [asc_index [''$ownerId'', ''name'']]"

definition contract_with :: "js \<Rightarrow> data_contract" where
  "contract_with schema = \<lparr>dc_protocolVersion = 1, dc_id = replicate 32 7, dc_ownerId = replicate 32 8, dc_schema = [],
     dc_documents = [(''note'', \<lparr>cs_indices = None, cs_schema = schema\<rparr>)], dc_defs = []\<rparr>"

theorem max_depth_exact_witness:
  "validateDataContractMaxDepth sample_contract_env (JObj [(''const'', JNull)]) = Inl JsTypeError \<and>
   validateDataContractMaxDepth sample_contract_env (JObj [(''const'', JArr [])]) = Inr new_ValidationResult"
proof -
  have vals: "js_entries [(''const'', v)] = [(''const'', v)]" for v :: js by (simp add: js_entries_def is_array_index_def is_digit_def)
  have null: "holds_null (JObj [(''const'', JNull)])" "js_depth (JObj [(''const'', JNull)]) \<le> MAX_DEPTH"
    by (simp_all add: holds_null.simps js_depth.simps object_children_def vals MAX_DEPTH_def)
  have ok: "\<not> holds_null (JObj [(''const'', JArr [])])" "js_depth (JObj [(''const'', JArr [])]) \<le> MAX_DEPTH"
    by (simp_all add: holds_null.simps js_depth.simps object_children_def vals MAX_DEPTH_def)
  show ?thesis
    using max_depth_exact [of sample_contract_env "JObj [(''const'', JNull)]" "JObj [(''const'', JNull)]"] null
      max_depth_exact [of sample_contract_env "JObj [(''const'', JArr [])]" "JObj [(''const'', JArr [])]"] ok
    by (simp add: sample_contract_env_def)
qed

lemma note_contract_valid: "run_valid (validateDataContract sample_contract_env (raw_contract (contract_with note_schema)))"
  by code_simp

theorem validateDataContract_accepts_iff_witness:
  "documents_accepted (sample_contract_env\<lparr>cv_dereference := (\<lambda>_. Inr (JObj []))\<rparr>) (raw_contract (contract_with note_schema))"
proof -
  have "run_valid (validateDataContract (sample_contract_env\<lparr>cv_dereference := (\<lambda>_. Inr (JObj []))\<rparr>)
      (raw_contract (contract_with note_schema)))"
    by code_simp
  then show ?thesis
    by (subst (asm) validateDataContract_accepts_iff) (auto simp: sample_contract_env_def)
qed

theorem index_checks_blind_witness:
  "index_ok (object_schema [(''meta'', JObj [(''$ref'', JStr ''#/$defs/meta'')])] []) (asc_index [''meta'']) \<and>
   index_ok (object_schema [] []) (asc_index [''valueOf''])"
proof -
  have names: "index_property_names (asc_index [''meta'']) = Inr [''meta'']"
    "index_property_names (asc_index [''valueOf'']) = Inr [''valueOf'']" by code_simp+
  have "CHR ''.'' \<notin> set ''meta''" "CHR ''.'' \<notin> set ''valueOf''"
    "''meta'' \<notin> set allowedSystemProperties" "''valueOf'' \<notin> set allowedSystemProperties"
    "''valueOf'' \<in> set object_prototype_names"
    by (simp_all add: allowedSystemProperties_def object_prototype_names_def)
  with index_checks_blind [OF _ names(1)] index_checks_blind [OF _ names(2)] show ?thesis
    by (auto simp: object_schema_def)
qed

definition contract_platform :: "data_contract \<Rightarrow> platform" where
  "contract_platform c = sample_platform\<lparr>pf_decode := (\<lambda>_. Some (\<lambda>v. RawTyped (DataContractCreateTransition
       \<lparr>stb_protocolVersion = v, stb_signature = None, stb_signaturePublicKeyId = None\<rparr> c []))),
     pf_validators := (pf_validators sample_platform)\<lparr>va_dataContract := (\<lambda>c. validateDataContract sample_contract_env (raw_contract c))\<rparr>\<rparr>"

definition null_contract :: data_contract where
  "null_contract = contract_with (object_schema [(''name'', JObj [(''const'', JNull)])] [])"

definition reference_contract :: data_contract where
  "reference_contract = contract_with (JObj [(''$ref'', JStr ''#/$defs/note'')])"

definition below_bytes_contract :: data_contract where
  "below_bytes_contract = contract_with (object_schema [(''name'', string_schema 63), (''data'', bytes_schema)] [asc_index [''data.x'']])"

lemma refers_only_sample: "refers_only (JObj [(''$ref'', JStr ''#/$defs/note'')])"
  by (simp add: refers_only_def)

lemma below_bytes_sample:
  "indexes_below_bytes (object_schema [(''name'', string_schema 63), (''data'', bytes_schema)] [asc_index [''data.x'']])"
proof -
  let ?d = "object_schema [(''name'', string_schema 63), (''data'', bytes_schema)] [asc_index [''data.x'']]"
  let ?ps = "set_all base_properties [(''name'', string_schema 63), (''data'', bytes_schema)]"
  have "enriched_document ?d = Inr (JObj [(''type'', JStr ''object''), (''properties'', JObj ?ps), (''indices'', JArr [asc_index [''data.x'']]),
      (''required'', JArr (JStr ''name'' # map JStr base_required))])"
    by (simp add: enriched_document_def enrich_document_def object_schema_def js_own_def js_elements_def js_member_def Let_def)
  moreover have "index_property_names (asc_index [''data.x'']) = Inr [''data.x'']" by code_simp
  moreover have "split_on (CHR ''.'') ''data.x'' = [''data'', ''x'']" by code_simp
  moreover have "map_of ?ps ''data'' = Some bytes_schema"
    by (simp add: map_of_set_all map_add_def base_properties_def)
  ultimately show ?thesis
    unfolding indexes_below_bytes_def bytes_schema_def by (intro exI conjI) (auto simp: allowedSystemProperties_def)
qed

theorem contract_halts_drive_witness:
  "map (\<lambda>c. fst (deliverTx (contract_platform c) (empty_state, sample_ctx) (Some [1, 0, 0, 0])))
     [null_contract, reference_contract, below_bytes_contract] = replicate 3 (Halt JsTypeError)"
proof -
  have halts: "fst (deliverTx (contract_platform c) (empty_state, sample_ctx) (Some [1, 0, 0, 0])) = Halt JsTypeError"
    if c: "c = contract_with d" and d: "js_depth (raw_contract c) \<le> MAX_DEPTH"
      "holds_null (raw_contract c) \<or> refers_only d \<or> indexes_below_bytes d" for c d
  proof -
    have shape: "dc_protocolVersion c = 1" "length (dc_id c) = 32" "length (dc_ownerId c) = 32"
      "dc_documents c = [(''note'', \<lparr>cs_indices = None, cs_schema = d\<rparr>)]"
      by (simp_all add: c contract_with_def)
    have version: "run_valid (validateProtocolVersion 1 1)" by code_simp
    have "\<exists>s' ctx'. deliverTx (contract_platform c) (empty_state, sample_ctx) (Some [1, 0, 0, 0]) = (Halt JsTypeError, s', ctx')"
    proof (rule contract_halts_drive [where cv = sample_contract_env and c = c and v = "raw_contract c" and entropy = "[]"
          and b = "\<lparr>stb_protocolVersion = 1, stb_signature = None, stb_signaturePublicKeyId = None\<rparr>"])
      show "holds_null (raw_contract c) \<or>
          ValidationResult_isValid (validateDataContractPatterns sample_contract_env (raw_contract c)) \<and>
          length (dc_id c) = 32 \<and> length (dc_ownerId c) = 32 \<and>
          (\<exists>(type, s) \<in> set (dc_documents c). refers_only (cs_schema s) \<or> indexes_below_bytes (cs_schema s) \<and>
             (\<forall>type. cv_compile sample_contract_env (raw_contract c) (prefixed_id 0 (dc_id c)) type = []))"
        using d(2) shape
        by (auto simp: validateDataContractPatterns_def sample_contract_env_def List.map_filter_def vr_simps)
    qed (use version shape d(1) in \<open>simp_all add: sample_ctx_def decodeProtocolEntity_def contract_platform_def
        sample_platform_def sample_contract_env_def raw_contract_def\<close>)
    then show ?thesis by auto
  qed
  have small: "size (raw_contract null_contract) < 500" "size (raw_contract reference_contract) < 500"
    "size (raw_contract below_bytes_contract) < 500"
    by (simp_all add: null_contract_def reference_contract_def below_bytes_contract_def contract_with_def raw_contract_def
        object_schema_def string_schema_def bytes_schema_def asc_index_def)
  have "holds_null (raw_contract null_contract)" by code_simp
  moreover have "js_depth (raw_contract x) \<le> MAX_DEPTH" if "size (raw_contract x) < 500" for x
    using js_depth_le_size [of "raw_contract x"] that by (simp add: MAX_DEPTH_def)
  ultimately show ?thesis
    using refers_only_sample below_bytes_sample small
    by (auto simp: null_contract_def reference_contract_def below_bytes_contract_def numeral_3_eq_3 intro!: halts [OF refl])
qed

end
