(* ===== verification/AbciServer.thy ===== *)
theory AbciServer
  imports Prelude
begin

text \<open>
  The server that Tenderdash talks to (\<open>packages/js-abci/lib\<close>): \<open>Connection.js\<close> cuts the bytes of
  a socket into requests and answers them one at a time, \<open>handleRequestFactory.js\<close> dispatches a
  request to the application, \<open>createServer.js\<close> keeps the open connections.

  The protobuf messages, the varints of protocol-buffers-encodings and the byte lists of \<open>bl\<close> are
  not part of the repository: they are the fields of \<open>wire\<close>, and \<open>wire_documented\<close> says what the
  code relies on. A connection is a record; its events (a chunk of data, the end of a handler's
  promise, a call of \<open>close\<close>, the end of the socket) are steps on it. \<open>calls\<close> and
  \<open>written\<close> record what the connection asked of the application and put on the socket.
\<close>

section \<open>Bit operations of JavaScript\<close>

text \<open>\<open>>>\<close> and \<open><<\<close> work on 32 bits, with the sign in the highest.\<close>

definition js_int32 :: "int \<Rightarrow> int" where
  "js_int32 n = signed_take_bit 31 n"

definition js_shr1 :: "int \<Rightarrow> int" where
  "js_shr1 n = js_int32 n div 2"

definition js_shl1 :: "int \<Rightarrow> int" where
  "js_shl1 n = js_int32 (2 * n)"

section \<open>What is on the wire\<close>

record ('q, 'r, 'x) wire =
  varint_decode :: "buffer \<Rightarrow> (int \<times> nat) option"
  varint_encode :: "int \<Rightarrow> buffer"
  bl_slice :: "buffer \<Rightarrow> int \<Rightarrow> int \<Rightarrow> buffer"
  bl_consume :: "buffer \<Rightarrow> int \<Rightarrow> buffer"
  request_decode :: "buffer \<Rightarrow> 'x + 'q"
  response_encode :: "'r \<Rightarrow> 'x + buffer"

text \<open>
  A varint takes at most 8 bytes below \<open>2 ^ 56\<close>, is read back whatever follows it, and reading
  throws while it is not complete. A slice within the list, and consuming from it, are those of
  any byte list.
\<close>

definition wire_documented :: "('q, 'r, 'x) wire \<Rightarrow> bool" where
  "wire_documented w \<longleftrightarrow>
    (\<forall>n rest. 0 \<le> n \<and> n < 2 ^ 56 \<longrightarrow> length (varint_encode w n) \<le> 8 \<and>
      varint_decode w (varint_encode w n @ rest) = Some (n, length (varint_encode w n))) \<and>
    (\<forall>n p. 0 \<le> n \<and> n < 2 ^ 56 \<and> strict_prefix p (varint_encode w n) \<longrightarrow> varint_decode w p = None) \<and>
    (\<forall>b i j. 0 \<le> i \<and> i \<le> j \<longrightarrow>
      bl_slice w b i j = take (nat j - nat i) (drop (nat i) b)) \<and>
    (\<forall>b i. 0 \<le> i \<longrightarrow> bl_consume w b i = drop (nat i) b)"

section \<open>Requests to the application\<close>

datatype ('r, 'x) handler_error =
    ResponseExceptionError 'x 'r
  | InvalidAbciResponseError string 'r
  | HandlerThrew 'x

text \<open>
  A decoded message is an object with the field of its type. The application is an object of
  methods (\<open>app_methods\<close>) over its own state. \<open>emit_error\<close> is \<open>server.emit('error', e)\<close>:
  it throws when nobody listens or a listener throws.
\<close>

record ('s, 'm, 'x) abci_app =
  app_methods :: "string \<Rightarrow> ('s \<Rightarrow> 'm option \<Rightarrow> 's \<times> ('x + 'm)) option"
  ResponseFlush :: 'm
  ResponseEcho :: "'m \<Rightarrow> 'm"
  ResponseException :: "string \<Rightarrow> 'm"
  empty_message :: 'm
  verify_response :: "(string \<times> 'm) list \<Rightarrow> string option"
  emit_error :: "'x \<Rightarrow> 'x option"
  error_text :: "'x \<Rightarrow> string"

definition verified_response ::
    "('s, 'm, 'x) abci_app \<Rightarrow> string \<Rightarrow> 'm \<Rightarrow>
      ((string \<times> 'm) list, 'x) handler_error + (string \<times> 'm) list" where
  "verified_response a messageType responseMessage =
    (let response = [(messageType, responseMessage)]
     in case verify_response a response of
          None \<Rightarrow> Inr response
        | Some errorMessage \<Rightarrow> Inl (InvalidAbciResponseError errorMessage response))"

definition call_app ::
    "('s, 'm, 'x) abci_app \<Rightarrow> 's \<Rightarrow> string \<Rightarrow> 'm option \<Rightarrow>
      's \<times> (((string \<times> 'm) list, 'x) handler_error + (string \<times> 'm) list)" where
  "call_app a s messageType requestMessage =
    (case app_methods a messageType of
       None \<Rightarrow> (s, verified_response a messageType (empty_message a))
     | Some method \<Rightarrow>
         (case method s requestMessage of
            (s', Inr responseMessage) \<Rightarrow> (s', verified_response a messageType responseMessage)
          | (s', Inl e) \<Rightarrow>
              (s', Inl (case emit_error a e of
                 Some thrown \<Rightarrow> HandlerThrew thrown
               | None \<Rightarrow> ResponseExceptionError e
                   [(''exception'', ResponseException a (error_text a e))]))))"

text \<open>A message without a known field has no first key: its type is the string \<open>undefined\<close>.\<close>

definition handleRequest ::
    "('s, 'm, 'x) abci_app \<Rightarrow> 's \<Rightarrow> (string \<times> 'm) list \<Rightarrow>
      's \<times> (((string \<times> 'm) list, 'x) handler_error + (string \<times> 'm) list)" where
  "handleRequest a s request =
    (case request of
       [] \<Rightarrow> call_app a s ''undefined'' None
     | (messageType, requestMessage) # _ \<Rightarrow>
         (if messageType = ''flush'' then (s, verified_response a messageType (ResponseFlush a))
          else if messageType = ''echo''
          then (s, verified_response a messageType (ResponseEcho a requestMessage))
          else call_app a s messageType (Some requestMessage)))"

section \<open>A connection\<close>

definition MAX_MESSAGE_SIZE :: int where
  "MAX_MESSAGE_SIZE = 104857600"

datatype 'x socket_error =
    EmptyRequestError
  | MaxRequestSizeError int
  | UnableToParseRequestError 'x buffer
  | WriteError 'x

record ('q, 'r, 'x) connection =
  conn_id :: nat
  readerBuffer :: buffer
  isReading :: bool
  isClosing :: bool
  isRequestHandled :: bool
  handling :: "'q option"
  rejected :: "('r, 'x) handler_error option"
  socket_paused :: bool
  socket_destroyed :: bool
  destroy_error :: "'x socket_error option"
  close_seen :: bool
  socket_ended :: bool
  written :: buffer
  calls :: "'q list"

definition new_connection :: "nat \<Rightarrow> ('q, 'r, 'x) connection" where
  "new_connection i =
    \<lparr> conn_id = i, readerBuffer = [], isReading = False, isClosing = False,
      isRequestHandled = True, handling = None, rejected = None, socket_paused = False,
      socket_destroyed = False, destroy_error = None, close_seen = False, socket_ended = False,
      written = [], calls = [] \<rparr>"

definition destroy ::
    "'x socket_error option \<Rightarrow> ('q, 'r, 'x) connection \<Rightarrow> ('q, 'r, 'x) connection" where
  "destroy e c = c\<lparr>socket_destroyed := True, destroy_error := e\<rparr>"

text \<open>\<open>write\<close>: the length, doubled as a signed varint, and the message. A destroyed socket takes
  no more bytes.\<close>

definition response_frame :: "('q, 'r, 'x) wire \<Rightarrow> buffer \<Rightarrow> buffer" where
  "response_frame w b = varint_encode w (js_shl1 (int (length b))) @ b"

definition write_response ::
    "('q, 'r, 'x) wire \<Rightarrow> 'r \<Rightarrow> ('q, 'r, 'x) connection \<Rightarrow> 'x + ('q, 'r, 'x) connection" where
  "write_response w response c =
    (case response_encode w response of
       Inl e \<Rightarrow> Inl e
     | Inr b \<Rightarrow> Inr (if socket_destroyed c then c
                     else c\<lparr>written := written c @ response_frame w b\<rparr>))"

text \<open>Both ways out of \<open>readNextRequest\<close> that wait for more data.\<close>

definition wait_for_data :: "('q, 'r, 'x) connection \<Rightarrow> ('q, 'r, 'x) connection" where
  "wait_for_data c = c\<lparr>isReading := False, isRequestHandled := True\<rparr>"

definition readNextRequest ::
    "('q, 'r, 'x) wire \<Rightarrow> ('q, 'r, 'x) connection \<Rightarrow> ('q, 'r, 'x) connection" where
  "readNextRequest w c0 =
    (if isClosing c0 \<or> isReading c0 then c0
     else let c = c0\<lparr>isReading := True, isRequestHandled := False\<rparr>
       in case varint_decode w (bl_slice w (readerBuffer c) 0 8) of
            None \<Rightarrow> wait_for_data c
          | Some (n, varintLength) \<Rightarrow>
              (let requestLength = js_shr1 n;
                   messageEnd = int varintLength + requestLength
               in if requestLength = 0 then destroy (Some EmptyRequestError) c
                  else if requestLength > MAX_MESSAGE_SIZE
                  then destroy (Some (MaxRequestSizeError MAX_MESSAGE_SIZE)) c
                  else if messageEnd > int (length (readerBuffer c)) then wait_for_data c
                  else case request_decode w
                        (bl_slice w (readerBuffer c) (int varintLength) messageEnd) of
                      Inl e \<Rightarrow> destroy (Some (UnableToParseRequestError e (readerBuffer c))) c
                    | Inr request \<Rightarrow>
                        c\<lparr>readerBuffer := bl_consume w (readerBuffer c) messageEnd,
                          socket_paused := True, handling := Some request,
                          calls := calls c @ [request]\<rparr>))"

definition on_data ::
    "('q, 'r, 'x) wire \<Rightarrow> buffer \<Rightarrow> ('q, 'r, 'x) connection \<Rightarrow> ('q, 'r, 'x) connection" where
  "on_data w d c = readNextRequest w (c\<lparr>readerBuffer := readerBuffer c @ d\<rparr>)"

text \<open>What follows \<open>await this.handleRequest(request)\<close>. An error that is not a
  \<open>ResponseExceptionError\<close> is thrown out of the asynchronous function.\<close>

definition request_done ::
    "('q, 'r, 'x) wire \<Rightarrow> ('q, 'r, 'x) connection \<Rightarrow> ('q, 'r, 'x) connection" where
  "request_done w c0 =
    (let c = c0\<lparr>isReading := False, isRequestHandled := True,
                socket_paused := (if isClosing c0 then socket_paused c0 else False)\<rparr>
     in if readerBuffer c \<noteq> [] then readNextRequest w c else c)"

definition on_handled ::
    "('q, 'r, 'x) wire \<Rightarrow> ('r, 'x) handler_error + 'r \<Rightarrow> ('q, 'r, 'x) connection \<Rightarrow>
      ('q, 'r, 'x) connection" where
  "on_handled w result c0 =
    (case handling c0 of
       None \<Rightarrow> c0
     | Some _ \<Rightarrow>
         (let c = c0\<lparr>handling := None\<rparr>
          in case result of
               Inl (ResponseExceptionError _ response) \<Rightarrow>
                 (case write_response w response c of
                    Inl e \<Rightarrow> destroy (Some (WriteError e)) c
                  | Inr c' \<Rightarrow> destroy None c')
             | Inl other \<Rightarrow> c\<lparr>rejected := Some other\<rparr>
             | Inr response \<Rightarrow>
                 (case write_response w response c of
                    Inl e \<Rightarrow> destroy (Some (WriteError e)) c
                  | Inr c' \<Rightarrow> request_done w c')))"

text \<open>
  \<open>close\<close> runs up to its \<open>Promise.race\<close>; \<open>close_resolved\<close> is when the race is over and the socket
  is ended. The listener for \<open>close\<close> of the socket is registered by \<open>close\<close> itself.
\<close>

definition close_connection :: "('q, 'r, 'x) connection \<Rightarrow> ('q, 'r, 'x) connection" where
  "close_connection c = c\<lparr>isClosing := True, socket_paused := True\<rparr>"

definition on_socket_close :: "('q, 'r, 'x) connection \<Rightarrow> ('q, 'r, 'x) connection" where
  "on_socket_close c = c\<lparr>socket_destroyed := True, close_seen := isClosing c\<rparr>"

definition close_resolved :: "('q, 'r, 'x) connection \<Rightarrow> bool" where
  "close_resolved c \<longleftrightarrow> isClosing c \<and> (isRequestHandled c \<or> close_seen c)"

definition end_socket :: "('q, 'r, 'x) connection \<Rightarrow> ('q, 'r, 'x) connection" where
  "end_socket c = (if close_resolved c then c\<lparr>socket_ended := True\<rparr> else c)"

text \<open>The events of a connection. \<open>h n q\<close> is how the promise of the \<open>n\<close>-th call, for the request
  \<open>q\<close>, settles.\<close>

datatype conn_event = Data buffer | HandlerSettled | CloseCalled | SocketClosed | RaceResolved

fun connection_step ::
    "('q, 'r, 'x) wire \<Rightarrow> (nat \<Rightarrow> 'q \<Rightarrow> ('r, 'x) handler_error + 'r) \<Rightarrow>
      ('q, 'r, 'x) connection \<Rightarrow> conn_event \<Rightarrow> ('q, 'r, 'x) connection" where
  "connection_step w h c (Data d) = on_data w d c"
| "connection_step w h c HandlerSettled =
    (case handling c of
       None \<Rightarrow> c
     | Some q \<Rightarrow> on_handled w (h (length (calls c) - 1) q) c)"
| "connection_step w h c CloseCalled = close_connection c"
| "connection_step w h c SocketClosed = on_socket_close c"
| "connection_step w h c RaceResolved = end_socket c"

definition run_connection ::
    "('q, 'r, 'x) wire \<Rightarrow> (nat \<Rightarrow> 'q \<Rightarrow> ('r, 'x) handler_error + 'r) \<Rightarrow>
      conn_event list \<Rightarrow> nat \<Rightarrow> ('q, 'r, 'x) connection" where
  "run_connection w h evs i = foldl (connection_step w h) (new_connection i) evs"

section \<open>The server\<close>

record ('q, 'r, 'x) abci_server =
  connections :: "(nat \<times> ('q, 'r, 'x) connection) list"
  connectionId :: nat
  listening :: bool

definition on_connection :: "('q, 'r, 'x) abci_server \<Rightarrow> ('q, 'r, 'x) abci_server" where
  "on_connection s =
    (let i = connectionId s + 1
     in s\<lparr>connectionId := i, connections := connections s @ [(i, new_connection i)]\<rparr>)"

definition drop_connection :: "nat \<Rightarrow> ('q, 'r, 'x) abci_server \<Rightarrow> ('q, 'r, 'x) abci_server" where
  "drop_connection i s = s\<lparr>connections := filter (\<lambda>(j, _). j \<noteq> i) (connections s)\<rparr>"

definition close_server :: "('q, 'r, 'x) abci_server \<Rightarrow> ('q, 'r, 'x) abci_server" where
  "close_server s =
    s\<lparr>listening := False,
      connections := map (\<lambda>(i, c). (i, close_connection c)) (connections s)\<rparr>"

section \<open>Reading one request\<close>

text \<open>A request as Tenderdash sends it, and the requests that are complete in the first \<open>n\<close> bytes of
  a stream of them.\<close>

definition request_frame :: "('q, 'r, 'x) wire \<Rightarrow> buffer \<Rightarrow> buffer" where
  "request_frame w payload = varint_encode w (2 * int (length payload)) @ payload"

definition sendable :: "('q, 'r, 'x) wire \<Rightarrow> buffer \<times> 'q \<Rightarrow> bool" where
  "sendable w item \<longleftrightarrow> fst item \<noteq> [] \<and> int (length (fst item)) \<le> MAX_MESSAGE_SIZE \<and>
     request_decode w (fst item) = Inr (snd item)"

definition request_stream :: "('q, 'r, 'x) wire \<Rightarrow> (buffer \<times> 'q) list \<Rightarrow> buffer" where
  "request_stream w items = concat (map (\<lambda>item. request_frame w (fst item)) items)"

fun complete_requests :: "('q, 'r, 'x) wire \<Rightarrow> (buffer \<times> 'q) list \<Rightarrow> nat \<Rightarrow> 'q list" where
  "complete_requests w [] n = []"
| "complete_requests w ((payload, q) # items) n =
    (let l = length (request_frame w payload)
     in if l \<le> n then q # complete_requests w items (n - l) else [])"

lemma request_stream_simps [simp]:
  "request_stream w [] = []"
  "request_stream w (x # xs) = request_frame w (fst x) @ request_stream w xs"
  "request_stream w (xs @ ys) = request_stream w xs @ request_stream w ys"
  by (simp_all add: request_stream_def)

lemma js_shr1_length:
  assumes "0 \<le> n" "n < 2 ^ 30"
  shows "js_shr1 (2 * n) = n"
  using assms by (simp add: js_shr1_def js_int32_def signed_take_bit_int_eq_self)

lemma documented_varint:
  assumes "wire_documented w" "0 \<le> n" "n < 2 ^ 56"
  shows "length (varint_encode w n) \<le> 8"
    "varint_decode w (varint_encode w n @ rest) = Some (n, length (varint_encode w n))"
    "strict_prefix p (varint_encode w n) \<Longrightarrow> varint_decode w p = None"
  using assms unfolding wire_documented_def by blast+

lemma documented_slice:
  assumes "wire_documented w"
  shows "0 \<le> i \<Longrightarrow> i \<le> j \<Longrightarrow> bl_slice w b i j = take (nat j - nat i) (drop (nat i) b)"
    "0 \<le> i \<Longrightarrow> bl_consume w b i = drop (nat i) b"
  using assms unfolding wire_documented_def by blast+

lemma varint_decode_Nil:
  assumes "wire_documented w"
  shows "varint_decode w [] = None"
proof (rule ccontr)
  assume "varint_decode w [] \<noteq> None"
  then have empty: "varint_encode w n = []" if "0 \<le> n" "n < 2 ^ 56" for n
    using documented_varint(3) [OF assms that, of "[]"] by (cases "varint_encode w n") auto
  show False
    using documented_varint(2) [OF assms, of 0 "[]"] documented_varint(2) [OF assms, of 1 "[]"]
      empty [of 0] empty [of 1] by simp
qed

lemma frame_length_range:
  assumes "sendable w item"
  shows "0 \<le> 2 * int (length (fst item))" "2 * int (length (fst item)) < 2 ^ 56"
    "int (length (fst item)) < 2 ^ 30"
  using assms by (auto simp: sendable_def MAX_MESSAGE_SIZE_def)

lemma decode_whole_frame:
  assumes "wire_documented w" "sendable w item"
  shows "varint_decode w (bl_slice w (request_frame w (fst item) @ rest) 0 8) =
    Some (2 * int (length (fst item)), length (varint_encode w (2 * int (length (fst item)))))"
proof -
  note v = documented_varint [OF assms(1) frame_length_range(1,2) [OF assms(2)]]
  show ?thesis
    using v(1) v(2) by (simp add: documented_slice(1) [OF assms(1)] request_frame_def)
qed

lemma read_complete:
  assumes w: "wire_documented w" and item: "sendable w item"
    and c: "\<not> isReading c" "\<not> isClosing c" "readerBuffer c = request_frame w (fst item) @ rest"
  shows "readNextRequest w c =
    c\<lparr>isReading := True, isRequestHandled := False, readerBuffer := rest, socket_paused := True,
      handling := Some (snd item), calls := calls c @ [snd item]\<rparr>"
proof -
  have "js_shr1 (2 * int (length (fst item))) = int (length (fst item))"
    by (rule js_shr1_length) (use frame_length_range(3) [OF item] in auto)
  then show ?thesis
    using c item decode_whole_frame [OF w item, of rest]
    by (simp add: readNextRequest_def Let_def documented_slice [OF w] sendable_def request_frame_def
        nat_add_distrib)
qed

lemma read_incomplete:
  assumes w: "wire_documented w" and item: "sendable w item"
    and c: "\<not> isReading c" "\<not> isClosing c" "strict_prefix (readerBuffer c) (request_frame w (fst item))"
  shows "readNextRequest w c = c\<lparr>isRequestHandled := True\<rparr>"
proof -
  let ?n = "2 * int (length (fst item))"
  note v = documented_varint [OF w frame_length_range(1,2) [OF item]]
  have same: "wait_for_data (c\<lparr>isReading := True, isRequestHandled := False\<rparr>) = c\<lparr>isRequestHandled := True\<rparr>"
    using c(1) by (simp add: wait_for_data_def)
  consider (short) "strict_prefix (readerBuffer c) (varint_encode w ?n)"
    | (long) p where "readerBuffer c = varint_encode w ?n @ p" "strict_prefix p (fst item)"
  proof (cases "readerBuffer c = varint_encode w ?n")
    case True
    then show ?thesis using long [of "[]"] item by (auto simp: sendable_def strict_prefix_def)
  next
    case False
    then show ?thesis
      using c(3) short long unfolding request_frame_def strict_prefix_def by (auto simp: prefix_append)
  qed
  then show ?thesis
  proof cases
    case short
    then have "length (readerBuffer c) \<le> 8"
      using v(1) prefix_length_less by fastforce
    then show ?thesis
      using c(1,2) v(3) [OF short] same by (simp add: readNextRequest_def documented_slice [OF w])
  next
    case long
    have "js_shr1 ?n = int (length (fst item))"
      by (rule js_shr1_length) (use frame_length_range(3) [OF item] in auto)
    moreover have "varint_decode w (bl_slice w (readerBuffer c) 0 8) = Some (?n, length (varint_encode w ?n))"
      using v(1) v(2) long(1) by (simp add: documented_slice(1) [OF w])
    ultimately show ?thesis
      using c(1,2) long item same prefix_length_less [OF long(2)]
      by (simp add: readNextRequest_def sendable_def)
  qed
qed

lemma read_nothing:
  assumes w: "wire_documented w" and c: "\<not> isReading c" "\<not> isClosing c" "readerBuffer c = []"
  shows "readNextRequest w c = c\<lparr>isRequestHandled := True\<rparr>"
  using c by (simp add: readNextRequest_def documented_slice [OF w] varint_decode_Nil [OF w] wait_for_data_def)


section \<open>The requests of a stream are served in order\<close>

text \<open>What is put on the socket for the answer of the \<open>n\<close>-th call.\<close>

definition answered ::
    "('q, 'r, 'x) wire \<Rightarrow> (nat \<Rightarrow> 'q \<Rightarrow> ('r, 'x) handler_error + 'r) \<Rightarrow> bool" where
  "answered w h \<longleftrightarrow> (\<forall>n q. \<exists>r b. h n q = Inr r \<and> response_encode w r = Inr b)"

definition answer_bytes ::
    "('q, 'r, 'x) wire \<Rightarrow> (nat \<Rightarrow> 'q \<Rightarrow> ('r, 'x) handler_error + 'r) \<Rightarrow> nat \<Rightarrow> 'q \<Rightarrow> buffer" where
  "answer_bytes w h n q =
    (case h n q of
       Inl _ \<Rightarrow> []
     | Inr r \<Rightarrow> (case response_encode w r of Inl _ \<Rightarrow> [] | Inr b \<Rightarrow> response_frame w b))"

definition answers ::
    "('q, 'r, 'x) wire \<Rightarrow> (nat \<Rightarrow> 'q \<Rightarrow> ('r, 'x) handler_error + 'r) \<Rightarrow> 'q list \<Rightarrow> buffer" where
  "answers w h qs = concat (map (\<lambda>n. answer_bytes w h n (qs ! n)) [0..<length qs])"

definition received :: "conn_event list \<Rightarrow> buffer" where
  "received evs = concat (map (\<lambda>e. case e of Data d \<Rightarrow> d | _ \<Rightarrow> []) evs)"

lemma received_simps [simp]:
  "received [] = []"
  "received (evs @ [e]) = received evs @ (case e of Data d \<Rightarrow> d | _ \<Rightarrow> [])"
  by (simp_all add: received_def)

lemma run_connection_simps [simp]:
  "run_connection w h [] i = new_connection i"
  "run_connection w h (evs @ [e]) i = connection_step w h (run_connection w h evs i) e"
  by (simp_all add: run_connection_def)

lemma answers_snoc: "answers w h (qs @ [q]) = answers w h qs @ answer_bytes w h (length qs) q"
proof -
  have "map (\<lambda>n. answer_bytes w h n ((qs @ [q]) ! n)) [0..<length qs] =
      map (\<lambda>n. answer_bytes w h n (qs ! n)) [0..<length qs]"
    by (rule map_cong) (auto simp: nth_append)
  then show ?thesis by (simp add: answers_def del: map_eq_conv)
qed

lemma complete_requests_split:
  assumes "k \<le> length items"
  shows "complete_requests w items (length (request_stream w (take k items) @ rest)) =
    map snd (take k items) @ complete_requests w (drop k items) (length rest)"
  using assms
proof (induction items arbitrary: k)
  case (Cons item items)
  then show ?case
    by (cases k; cases item) (auto simp: Let_def)
qed simp

text \<open>
  The state of a connection after \<open>k\<close> calls: what was received is the frames of these calls and
  the buffer, the answers written are those of the calls that have settled, and a connection that
  waits has no complete request in its buffer.
\<close>

definition settled_calls :: "('q, 'r, 'x) connection \<Rightarrow> nat" where
  "settled_calls c = (if handling c = None then length (calls c) else length (calls c) - 1)"

definition serving ::
    "('q, 'r, 'x) wire \<Rightarrow> (nat \<Rightarrow> 'q \<Rightarrow> ('r, 'x) handler_error + 'r) \<Rightarrow> (buffer \<times> 'q) list \<Rightarrow> buffer \<Rightarrow>
      ('q, 'r, 'x) connection \<Rightarrow> bool" where
  "serving w h items bytes c \<longleftrightarrow>
     length (calls c) \<le> length items \<and> calls c = map snd (take (length (calls c)) items) \<and>
     bytes = request_stream w (take (length (calls c)) items) @ readerBuffer c \<and>
     prefix bytes (request_stream w items) \<and>
     \<not> socket_destroyed c \<and> rejected c = None \<and>
     written c = answers w h (take (settled_calls c) (calls c)) \<and>
     (case handling c of
        None \<Rightarrow> \<not> isReading c \<and> isRequestHandled c
      | Some q \<Rightarrow> isReading c \<and> \<not> isRequestHandled c \<and> calls c \<noteq> [] \<and> last (calls c) = q)"

definition no_request_left ::
    "('q, 'r, 'x) wire \<Rightarrow> (buffer \<times> 'q) list \<Rightarrow> ('q, 'r, 'x) connection \<Rightarrow> bool" where
  "no_request_left w items c \<longleftrightarrow>
     (handling c = None \<and> \<not> isClosing c \<longrightarrow>
        complete_requests w (drop (length (calls c)) items) (length (readerBuffer c)) = [])"

lemma serving_read:
  assumes w: "wire_documented w" and items: "\<forall>item \<in> set items. sendable w item"
    and c: "serving w h items bytes c" and idle: "handling c = None" and handled: "isRequestHandled c"
  shows "serving w h items bytes (readNextRequest w c) \<and> no_request_left w items (readNextRequest w c)"
proof (cases "isClosing c")
  case True
  then show ?thesis using c by (simp add: readNextRequest_def no_request_left_def)
next
  case False
  let ?k = "length (calls c)"
  have reading: "\<not> isReading c" using c idle by (simp add: serving_def)
  have split: "request_stream w items = request_stream w (take ?k items) @ request_stream w (drop ?k items)"
    by (metis append_take_drop_id request_stream_simps(3))
  then have ahead: "prefix (readerBuffer c) (request_stream w (drop ?k items))"
    using c by (auto simp: serving_def)
  show ?thesis
  proof (cases "drop ?k items")
    case Nil
    then have "readNextRequest w c = c"
      using read_nothing [OF w reading False] ahead handled by simp
    then show ?thesis using c Nil by (simp add: no_request_left_def)
  next
    case (Cons item later)
    then have less: "?k < length items" and item: "items ! ?k = item"
      by (metis drop_eq_Nil list.discI not_le) (metis Cons nth_via_drop)
    have sendable: "sendable w item" using items less item by auto
    show ?thesis
    proof (cases "length (request_frame w (fst item)) \<le> length (readerBuffer c)")
      case True
      then obtain rest where rest: "readerBuffer c = request_frame w (fst item) @ rest"
        using ahead Cons by (metis prefix_def prefix_length_prefix prefixI request_stream_simps(2))
      have one_more: "map snd (take (Suc ?k) items) = calls c @ [snd item]"
        "request_stream w (take (Suc ?k) items) = request_stream w (take ?k items) @ request_frame w (fst item)"
        using c less item by (simp_all add: take_Suc_conv_app_nth serving_def)
      show ?thesis
        using c [unfolded serving_def] idle one_more less rest
        by (auto simp: read_complete [OF w sendable reading False rest] serving_def settled_calls_def no_request_left_def)
    next
      case short: False
      then have "strict_prefix (readerBuffer c) (request_frame w (fst item))"
        using ahead Cons by (metis nat_le_linear prefixI prefix_length_prefix request_stream_simps(2) strict_prefix_def)
      then have "readNextRequest w c = c"
        using read_incomplete [OF w sendable reading False] handled by simp
      then show ?thesis
        using c Cons short by (cases item) (simp add: no_request_left_def Let_def)
    qed
  qed
qed

lemma serving_data:
  assumes w: "wire_documented w" and items: "\<forall>item \<in> set items. sendable w item"
    and c: "serving w h items bytes c" and more: "prefix (bytes @ d) (request_stream w items)"
  shows "serving w h items (bytes @ d) (on_data w d c) \<and> no_request_left w items (on_data w d c)"
proof -
  let ?c = "c\<lparr>readerBuffer := readerBuffer c @ d\<rparr>"
  have grown: "serving w h items (bytes @ d) ?c"
    using c more by (auto simp: serving_def settled_calls_def split: option.split)
  show ?thesis
  proof (cases "handling c")
    case None
    then have "handling ?c = None" "isRequestHandled ?c" using c by (simp_all add: serving_def)
    then show ?thesis unfolding on_data_def by (rule serving_read [OF w items grown])
  next
    case (Some q)
    then show ?thesis
      using grown [unfolded serving_def]
      by (auto simp: on_data_def readNextRequest_def serving_def no_request_left_def settled_calls_def)
  qed
qed

lemma serving_handled:
  assumes w: "wire_documented w" and items: "\<forall>item \<in> set items. sendable w item"
    and h: "answered w h" and c: "serving w h items bytes c" and q: "handling c = Some q"
  shows "serving w h items bytes (connection_step w h c HandlerSettled) \<and>
    no_request_left w items (connection_step w h c HandlerSettled)"
proof -
  obtain r b where r: "h (length (calls c) - 1) q = Inr r" "response_encode w r = Inr b"
    using h unfolding answered_def by blast
  define d where "d = c\<lparr>handling := None, written := written c @ response_frame w b, isReading := False,
    isRequestHandled := True, socket_paused := (if isClosing c then socket_paused c else False)\<rparr>"
  have calls: "calls c \<noteq> []" "last (calls c) = q"
    using c q by (auto simp: serving_def)
  then have calls: "calls c = take (length (calls c) - 1) (calls c) @ [q]" "calls c \<noteq> []"
    using append_butlast_last_id [of "calls c"] by (simp_all add: butlast_conv_take)
  then have "answers w h (calls c) = answers w h (take (length (calls c) - 1) (calls c)) @
      answer_bytes w h (length (calls c) - 1) q"
    using answers_snoc [of w h "take (length (calls c) - 1) (calls c)" q] by simp
  then have served: "serving w h items bytes d"
    using c [unfolded serving_def] q r by (auto simp: d_def serving_def settled_calls_def answer_bytes_def)
  have step: "connection_step w h c HandlerSettled = (if readerBuffer d \<noteq> [] then readNextRequest w d else d)"
    using c q r by (simp add: d_def on_handled_def write_response_def request_done_def serving_def)
  show ?thesis
  proof (cases "readerBuffer d = []")
    case True
    have "complete_requests w xs 0 = []" if "set xs \<subseteq> set items" for xs
      using that items by (cases xs) (auto simp: Let_def request_frame_def sendable_def)
    then show ?thesis
      using True served step set_drop_subset by (metis length_0_conv no_request_left_def list.size(3))
  next
    case False
    then show ?thesis
      using serving_read [OF w items served] step by (simp add: d_def)
  qed
qed

lemma serving_frame [simp]:
  "serving w h items bytes (close_connection c) \<longleftrightarrow> serving w h items bytes c"
  "serving w h items bytes (end_socket c) \<longleftrightarrow> serving w h items bytes c"
  "no_request_left w items (end_socket c) \<longleftrightarrow> no_request_left w items c"
  "no_request_left w items (close_connection c)"
  by (auto simp: serving_def settled_calls_def close_connection_def end_socket_def no_request_left_def
      split: option.split)

lemma serving_run:
  assumes w: "wire_documented w" and items: "\<forall>item \<in> set items. sendable w item" and h: "answered w h"
    and "prefix (received evs) (request_stream w items)" "SocketClosed \<notin> set evs"
  shows "serving w h items (received evs) (run_connection w h evs i) \<and>
    no_request_left w items (run_connection w h evs i)"
  using assms(4,5)
proof (induction evs rule: rev_induct)
  case Nil
  have "complete_requests w items 0 = []"
    using items by (cases items) (auto simp: Let_def request_frame_def sendable_def)
  then show ?case
    by (simp add: new_connection_def serving_def no_request_left_def settled_calls_def answers_def)
next
  case (snoc e evs)
  let ?c = "run_connection w h evs i"
  have IH: "serving w h items (received evs) ?c" "no_request_left w items ?c"
    using snoc by (auto simp: append_prefixD)
  show ?case
  proof (cases e)
    case (Data d)
    then show ?thesis using serving_data [OF w items IH(1)] snoc.prems(1) by simp
  next
    case HandlerSettled
    then show ?thesis
      using serving_handled [OF w items h IH(1)] IH by (cases "handling ?c") auto
  next
    case CloseCalled
    then show ?thesis using IH by simp
  next
    case SocketClosed
    then show ?thesis using snoc.prems by simp
  next
    case RaceResolved
    then show ?thesis using IH by simp
  qed
qed

text \<open>C19. The requests of a client are handled one at a time, in the order of the stream and however
  the stream is cut into chunks of data; the answers are written in that order; and a connection
  that neither handles a request nor closes has handled every request received in full.\<close>

theorem requests_served_in_order:
  assumes "wire_documented w" "\<forall>item \<in> set items. sendable w item" "answered w h"
    and "prefix (received evs) (request_stream w items)" "SocketClosed \<notin> set evs"
  shows "let c = run_connection w h evs i; complete = complete_requests w items (length (received evs)) in
    prefix (calls c) complete \<and>
    (handling c = None \<and> \<not> isClosing c \<longrightarrow> calls c = complete) \<and>
    written c = answers w h (take (settled_calls c) (calls c))"
proof -
  let ?c = "run_connection w h evs i"
  have c: "serving w h items (received evs) ?c" "no_request_left w items ?c"
    using serving_run [OF assms] by simp_all
  then have "complete_requests w items (length (received evs)) =
      calls ?c @ complete_requests w (drop (length (calls ?c)) items) (length (readerBuffer ?c))"
    using complete_requests_split [of "length (calls ?c)" items w "readerBuffer ?c"] by (simp add: serving_def)
  then show ?thesis
    using c by (auto simp: no_request_left_def serving_def Let_def)
qed

lemma settle_once: "evs @ replicate (Suc n) HandlerSettled = (evs @ replicate n HandlerSettled) @ [HandlerSettled]"
  by (simp add: replicate_append_same)

lemma received_settle [simp]: "received (evs @ replicate n HandlerSettled) = received evs"
proof (induction n)
  case (Suc n)
  then show ?case unfolding settle_once received_simps by simp
qed simp

lemma still_handling:
  assumes w: "wire_documented w" and items: "\<forall>item \<in> set items. sendable w item" and h: "answered w h"
    and evs: "prefix (received evs) (request_stream w items)" "SocketClosed \<notin> set evs"
    and busy: "handling (run_connection w h (evs @ replicate n HandlerSettled) i) \<noteq> None"
  shows "n < length (calls (run_connection w h (evs @ replicate n HandlerSettled) i))"
  using busy
proof (induction n)
  case 0
  then show ?case
    using serving_run [OF w items h evs, of i] by (auto simp: serving_def)
next
  case (Suc n)
  let ?evs = "evs @ replicate n HandlerSettled"
  let ?c = "run_connection w h ?evs i"
  have run: "run_connection w h (evs @ replicate (Suc n) HandlerSettled) i = connection_step w h ?c HandlerSettled"
    unfolding settle_once by (rule run_connection_simps)
  obtain q where q: "handling ?c = Some q"
    using Suc.prems run by (cases "handling ?c") auto
  then have less: "n < length (calls ?c)" using Suc.IH by simp
  obtain r b where r: "h (length (calls ?c) - 1) q = Inr r" "response_encode w r = Inr b"
    using h unfolding answered_def by blast
  have grows: "handling (readNextRequest w d) \<noteq> None \<Longrightarrow> handling d = None \<Longrightarrow>
      length (calls (readNextRequest w d)) = Suc (length (calls d))" for d
    by (auto simp: readNextRequest_def Let_def wait_for_data_def destroy_def split: option.splits prod.splits sum.splits if_splits)
  have "length (calls (connection_step w h ?c HandlerSettled)) = Suc (length (calls ?c))"
    using Suc.prems [unfolded run] q r grows
    by (auto simp: on_handled_def write_response_def request_done_def Let_def split: if_splits)
  then show ?case using less run by simp
qed

lemma read_keeps_closing [simp]: "isClosing (readNextRequest w c) = isClosing c"
  by (auto simp: readNextRequest_def Let_def wait_for_data_def destroy_def split: option.splits prod.splits sum.splits)

lemmas connection_event_defs =
  on_data_def on_handled_def write_response_def request_done_def destroy_def on_socket_close_def
  end_socket_def close_connection_def

lemma not_closing: "CloseCalled \<notin> set evs \<Longrightarrow> \<not> isClosing (run_connection w h evs i)"
proof (induction evs rule: rev_induct)
  case (snoc e evs)
  then show ?case
    by (cases e) (auto simp: connection_event_defs Let_def split: option.splits sum.splits handler_error.splits)
qed (simp add: new_connection_def)

text \<open>C20. Every request received in full is answered: it takes no more settled handlers than there
  are requests.\<close>

theorem every_request_answered:
  assumes "wire_documented w" "\<forall>item \<in> set items. sendable w item" "answered w h"
    and "prefix (received evs) (request_stream w items)" "SocketClosed \<notin> set evs" "CloseCalled \<notin> set evs"
  shows "let c = run_connection w h (evs @ replicate (length items) HandlerSettled) i;
       complete = complete_requests w items (length (received evs)) in
     handling c = None \<and> calls c = complete \<and> written c = answers w h complete"
proof -
  let ?evs = "evs @ replicate (length items) HandlerSettled"
  let ?c = "run_connection w h ?evs i"
  have evs: "prefix (received ?evs) (request_stream w items)" "SocketClosed \<notin> set ?evs"
    using assms(4,5) by auto
  have "length (calls ?c) \<le> length items"
    using serving_run [OF assms(1-3) evs, of i] by (simp add: serving_def)
  then have settled: "handling ?c = None"
    using still_handling [OF assms(1-5), of "length items" i] by fastforce
  moreover have "\<not> isClosing ?c"
    using not_closing [of ?evs w h i] assms(6) by auto
  ultimately show ?thesis
    using requests_served_in_order [OF assms(1-3) evs, of i] by (simp add: Let_def settled_calls_def)
qed

section \<open>Closing a connection\<close>

definition refused ::
    "'x socket_error \<Rightarrow> ('q, 'r, 'x) connection \<Rightarrow> ('q, 'r, 'x) connection" where
  "refused e c = destroy (Some e) (c\<lparr>isReading := True, isRequestHandled := False\<rparr>)"

definition handing_over ::
    "'q \<Rightarrow> buffer \<Rightarrow> ('q, 'r, 'x) connection \<Rightarrow> ('q, 'r, 'x) connection" where
  "handing_over q rest c = c\<lparr>isReading := True, isRequestHandled := False, readerBuffer := rest,
     socket_paused := True, handling := Some q, calls := calls c @ [q]\<rparr>"

lemma readNextRequest_effect:
  "readNextRequest w c = c \<or>
   \<not> isReading c \<and> \<not> isClosing c \<and>
     (readNextRequest w c = wait_for_data c \<or> (\<exists>e. readNextRequest w c = refused e c) \<or>
      (\<exists>q rest. readNextRequest w c = handing_over q rest c))"
proof (cases "isClosing c \<or> isReading c")
  case False
  have wait: "wait_for_data (c\<lparr>isReading := True, isRequestHandled := False\<rparr>) = wait_for_data c"
    by (simp add: wait_for_data_def)
  show ?thesis
  proof (cases "varint_decode w (bl_slice w (readerBuffer c) 0 8)")
    case None
    then show ?thesis using False wait by (simp add: readNextRequest_def)
  next
    case (Some x)
    then show ?thesis
      using False wait
      by (cases x; cases "request_decode w (bl_slice w (readerBuffer c) (int (snd x)) (int (snd x) + js_shr1 (fst x)))")
        (auto simp: readNextRequest_def Let_def refused_def handing_over_def)
  qed
qed (simp add: readNextRequest_def)

lemma readNextRequest_cases:
  obtains (same) "readNextRequest w c = c"
    | (wait) "\<not> isReading c" "readNextRequest w c = wait_for_data c"
    | (refuse) e where "\<not> isReading c" "readNextRequest w c = refused e c"
    | (handle) q rest where "\<not> isReading c" "\<not> isClosing c" "readNextRequest w c = handing_over q rest c"
  using readNextRequest_effect [of w c] by blast

lemma read_closing [simp]: "isClosing c \<Longrightarrow> readNextRequest w c = c"
  by (simp add: readNextRequest_def)

definition handling_inv :: "('q, 'r, 'x) connection \<Rightarrow> bool" where
  "handling_inv c \<longleftrightarrow> (handling c \<noteq> None \<longrightarrow> isReading c \<and> \<not> isRequestHandled c)"

lemma handling_inv_read: "handling_inv c \<Longrightarrow> handling_inv (readNextRequest w c)"
  by (cases rule: readNextRequest_cases [of w c]) 
    (auto simp: handling_inv_def wait_for_data_def refused_def handing_over_def destroy_def)

lemma close_seen_read [simp]: "close_seen (readNextRequest w c) = close_seen c"
  by (cases rule: readNextRequest_cases [of w c])
    (auto simp: wait_for_data_def refused_def handing_over_def destroy_def)

lemma handling_is_reading: "handling_inv (run_connection w h evs i)"
proof (induction evs rule: rev_induct)
  case (snoc e evs)
  from snoc show ?case
    by (cases e) (auto simp: connection_event_defs Let_def handling_inv_def
        intro!: handling_inv_read [unfolded handling_inv_def, rule_format]
        split: option.splits sum.splits handler_error.splits)
qed (simp add: new_connection_def handling_inv_def)

lemma close_not_seen: "SocketClosed \<notin> set evs \<Longrightarrow> \<not> close_seen (run_connection w h evs i)"
proof (induction evs rule: rev_induct)
  case (snoc e evs)
  then show ?case
    by (cases e) (auto simp: connection_event_defs Let_def split: option.splits sum.splits handler_error.splits)
qed (simp add: new_connection_def)

lemma closing_step:
  assumes "isClosing c"
  shows "isClosing (connection_step w h c e) \<and> calls (connection_step w h c e) = calls c \<and>
    (handling c = None \<or> e = HandlerSettled \<longrightarrow> handling (connection_step w h c e) = None)"
  using assms
  by (cases e) (auto simp: connection_event_defs Let_def split: option.splits sum.splits handler_error.splits)

lemma closing_run:
  assumes "isClosing c"
  shows "isClosing (foldl (connection_step w h) c evs) \<and> calls (foldl (connection_step w h) c evs) = calls c \<and>
    (handling c = None \<or> HandlerSettled \<in> set evs \<longrightarrow> handling (foldl (connection_step w h) c evs) = None)"
  using assms
proof (induction evs arbitrary: c)
  case (Cons e evs)
  from closing_step [OF Cons.prems, of w h e] show ?case
    using Cons.IH [of "connection_step w h c e"] by auto
qed auto

text \<open>\<open>close\<close> takes no further request, lets the one in hand be answered, and goes on exactly when
  that answer is written.\<close>

theorem close_finishes_current_request:
  assumes "wire_documented w" "\<forall>item \<in> set items. sendable w item" "answered w h"
    and "prefix (received (evs @ CloseCalled # later)) (request_stream w items)"
    and "SocketClosed \<notin> set (evs @ CloseCalled # later)"
  shows "let c = run_connection w h evs i; d = run_connection w h (evs @ CloseCalled # later) i in
     calls d = calls c \<and> written d = answers w h (take (settled_calls d) (calls c)) \<and>
     (close_resolved d \<longleftrightarrow> handling d = None) \<and>
     (HandlerSettled \<in> set later \<or> handling c = None \<longrightarrow> handling d = None)"
proof -
  let ?c = "run_connection w h evs i" and ?d = "run_connection w h (evs @ CloseCalled # later) i"
  have d: "?d = foldl (connection_step w h) (close_connection ?c) later"
    by (simp add: run_connection_def)
  have closing: "isClosing (close_connection ?c)" "calls (close_connection ?c) = calls ?c"
    "handling (close_connection ?c) = handling ?c"
    by (simp_all add: close_connection_def)
  note after = closing_run [OF closing(1), where w = w and h = h and evs = later, folded d, unfolded closing(2,3)]
  have "serving w h items (received (evs @ CloseCalled # later)) ?d"
    using serving_run [OF assms] by blast
  moreover have "\<not> close_seen ?d" by (rule close_not_seen [OF assms(5)])
  ultimately have "close_resolved ?d \<longleftrightarrow> handling ?d = None"
    "written ?d = answers w h (take (settled_calls ?d) (calls ?d))"
    using after by (auto simp: close_resolved_def serving_def split: option.splits)
  then show ?thesis using after by (auto simp: Let_def)
qed

definition wedged :: "('q, 'r, 'x) connection \<Rightarrow> bool" where
  "wedged c \<longleftrightarrow> isReading c \<and> \<not> isRequestHandled c \<and> handling c = None \<and> \<not> close_seen c"

lemma wedged_step:
  assumes "wedged c" "SocketClosed \<noteq> e"
  shows "wedged (connection_step w h c e)" "calls (connection_step w h c e) = calls c"
    "written (connection_step w h c e) = written c"
  using assms
  by (cases e; simp add: wedged_def on_data_def readNextRequest_def close_connection_def end_socket_def)+

lemma wedged_run:
  assumes "wedged c" "SocketClosed \<notin> set evs"
  shows "wedged (foldl (connection_step w h) c evs) \<and> calls (foldl (connection_step w h) c evs) = calls c \<and>
    written (foldl (connection_step w h) c evs) = written c"
  using assms by (induction evs arbitrary: c) (simp_all add: wedged_step)

text \<open>
  An error of the handler that is not a \<open>ResponseExceptionError\<close>, such as a response that does not
  verify, leaves the connection reading for ever: no later request is handled, nothing is
  written, and \<open>close\<close> does not come back.
\<close>

theorem foreign_error_wedges_connection:
  assumes "handling (run_connection w h evs i) = Some q"
    and "h (length (calls (run_connection w h evs i)) - 1) q = Inl err" "\<forall>x r. err \<noteq> ResponseExceptionError x r"
    and "SocketClosed \<notin> set (evs @ later)"
  shows "let c = run_connection w h evs i; d = run_connection w h (evs @ HandlerSettled # later) i in
     calls d = calls c \<and> written d = written c \<and> isReading d \<and> \<not> close_resolved d"
proof -
  let ?c = "run_connection w h evs i"
  let ?d = "?c\<lparr>handling := None, rejected := Some err\<rparr>"
  have "connection_step w h ?c HandlerSettled = ?d"
    using assms(1-3) by (cases err) (auto simp: on_handled_def)
  then have run: "run_connection w h (evs @ HandlerSettled # later) i = foldl (connection_step w h) ?d later"
    by (simp add: run_connection_def)
  have "wedged ?d"
    using handling_is_reading [of w h evs i, unfolded handling_inv_def] close_not_seen [of evs w h i] assms(1,4) by (simp add: wedged_def)
  from wedged_run [OF this, of later w h] show ?thesis
    using assms(4) unfolding run by (simp add: wedged_def close_resolved_def Let_def)
qed

section \<open>The bound on the length of a message\<close>

lemma js_shr1_cases:
  "js_shr1 n = (let l = n div 2 mod 2 ^ 31 in if l < 2 ^ 30 then l else l - 2 ^ 31)"
proof -
  have "js_int32 n = (n + 2 ^ 31) mod 2 ^ 32 - 2 ^ 31"
    by (simp add: js_int32_def signed_take_bit_eq_take_bit_shift take_bit_eq_mod)
  moreover obtain q r where n: "n = 4294967296 * q + r" "0 \<le> r" "r < 4294967296"
    using that [of "n div 4294967296" "n mod 4294967296"] by simp
  moreover have "n div 2 = 2147483648 * q + r div 2" using n by simp
  moreover have "n div 2 mod 2147483648 = r div 2" using n calculation(5) by simp
  moreover have "(n + 2147483648) mod 4294967296 = (if r < 2147483648 then r + 2147483648 else r - 2147483648)"
  proof (cases "r < 2147483648")
    case True
    have "(n + 2147483648) mod 4294967296 = (r + 2147483648) mod 4294967296"
      unfolding n(1) add.assoc by (rule mod_mult_self4)
    then show ?thesis using True n by simp
  next
    case False
    have "n + 2147483648 = 4294967296 * (q + 1) + (r - 2147483648)" using n by simp
    also have "\<dots> mod 4294967296 = (r - 2147483648) mod 4294967296" by (rule mod_mult_self4)
    finally have "(n + 2147483648) mod 4294967296 = (r - 2147483648) mod 4294967296" .
    then show ?thesis using False n by simp
  qed
  ultimately show ?thesis by (auto simp: js_shr1_def Let_def)
qed

text \<open>
  The declared length of a message is the varint shifted right by one bit, taken to 32 bits first.
  The guards on it look at the declared length modulo \<open>2 ^ 31\<close>: a message of zero modulo
  \<open>2 ^ 31\<close> bytes is refused as empty, one of more than 100 megabytes is refused as too large
  only when it is below \<open>2 ^ 30\<close>; a larger one counts as negative, passes both guards and the test
  that the message has arrived, and is decoded from a slice that ends before it starts.
\<close>

theorem message_size_guard:
  assumes "\<not> isReading c" "\<not> isClosing c" "destroy_error c = None"
    and "varint_decode w (bl_slice w (readerBuffer c) 0 8) = Some (n, bytes)" "bytes \<le> length (readerBuffer c)"
  shows "let d = readNextRequest w c; l = n div 2 mod 2 ^ 31 in
     (destroy_error d = Some EmptyRequestError \<longleftrightarrow> l = 0) \<and>
     (destroy_error d = Some (MaxRequestSizeError MAX_MESSAGE_SIZE) \<longleftrightarrow> MAX_MESSAGE_SIZE < l \<and> l < 2 ^ 30) \<and>
     (2 ^ 30 \<le> l \<longrightarrow>
       (case request_decode w (bl_slice w (readerBuffer c) (int bytes) (int bytes + l - 2 ^ 31)) of
          Inl e \<Rightarrow> destroy_error d = Some (UnableToParseRequestError e (readerBuffer c))
        | Inr q \<Rightarrow> handling d = Some q \<and> readerBuffer d = bl_consume w (readerBuffer c) (int bytes + l - 2 ^ 31)))"
proof -
  let ?l = "n div 2 mod 2 ^ 31"
  have range: "0 \<le> ?l" "?l < 2 ^ 31" by simp_all
  have shr: "js_shr1 n = (if ?l < 2 ^ 30 then ?l else ?l - 2 ^ 31)"
    by (simp add: js_shr1_cases Let_def)
  show ?thesis
  proof (cases "?l < 2 ^ 30")
    case True
    then show ?thesis
      using assms(1-4) shr range
      by (auto simp: readNextRequest_def Let_def destroy_def wait_for_data_def MAX_MESSAGE_SIZE_def
          split: sum.splits if_splits)
  next
    case False
    then have shr: "js_shr1 n = ?l - 2 ^ 31" "js_shr1 n < 0" using shr range by simp_all
    define e where "e = int bytes + js_shr1 n"
    have ends: "int bytes + ?l - 2 ^ 31 = e" using shr(1) by (simp add: e_def)
    have "e \<le> int (length (readerBuffer c))" using shr(2) assms(5) by (simp add: e_def)
    then show ?thesis
      using assms(1-4) shr(2) False unfolding Let_def ends
      by (auto simp: readNextRequest_def Let_def destroy_def MAX_MESSAGE_SIZE_def e_def [symmetric]
          split: sum.splits if_splits)
  qed
qed

section \<open>Dispatch, and the connections of the server\<close>

lemma verified_response_cases:
  "verified_response a t m = Inr r \<longleftrightarrow> r = [(t, m)] \<and> verify_response a r = None"
  "verified_response a t m = Inl e \<longleftrightarrow>
    (\<exists>msg. verify_response a [(t, m)] = Some msg \<and> e = InvalidAbciResponseError msg [(t, m)])"
  by (auto simp: verified_response_def Let_def split: option.splits)

lemma handleRequest_response:
  assumes "handleRequest a s ((t, m) # others) = (s', Inr response)"
  shows "map fst response = [t]" "verify_response a response = None"
  using assms
  by (auto simp: handleRequest_def call_app_def verified_response_cases
      split: if_splits option.splits prod.splits sum.splits)

lemma handleRequest_exception:
  assumes "handleRequest a s request = (s', Inl (ResponseExceptionError e response))"
  shows "response = [(''exception'', ResponseException a (error_text a e))]" "emit_error a e = None"
  using assms
  by (auto simp: handleRequest_def call_app_def verified_response_cases
      split: if_splits option.splits prod.splits sum.splits list.splits)

definition server_ids_ok :: "('q, 'r, 'x) abci_server \<Rightarrow> bool" where
  "server_ids_ok s \<longleftrightarrow> distinct (map fst (connections s)) \<and> (\<forall>i \<in> fst ` set (connections s). i \<le> connectionId s)"

lemma server_ids:
  assumes "server_ids_ok s"
  shows "server_ids_ok (on_connection s)" "server_ids_ok (drop_connection i s)" "server_ids_ok (close_server s)"
  using assms
  by (fastforce simp: server_ids_ok_def on_connection_def drop_connection_def close_server_def Let_def
      distinct_map inj_on_def)+

section \<open>A concrete wire\<close>

text \<open>Varints as protocol buffers define them: seven bits to a byte, the lowest first.\<close>

fun leb128_encode :: "nat \<Rightarrow> buffer" where
  "leb128_encode n =
    (if n < 128 then [word_of_nat n] else word_of_nat (n mod 128 + 128) # leb128_encode (n div 128))"

fun leb128_decode :: "buffer \<Rightarrow> (nat \<times> nat) option" where
  "leb128_decode [] = None"
| "leb128_decode (b # bs) =
    (if unat b < 128 then Some (unat b, 1)
     else map_option (\<lambda>(m, l). (unat b - 128 + 128 * m, Suc l)) (leb128_decode bs))"

declare leb128_encode.simps [simp del]

lemma unat_byte: "n < 256 \<Longrightarrow> unat (word_of_nat n :: byte) = n"
  by (simp add: unat_of_nat)

lemma unat_continued: "unat (word_of_nat (n mod 128) + 128 :: byte) = n mod 128 + 128"
  using unat_byte [of "n mod 128 + 128"] by (simp add: trans_less_add1)

lemma leb128_roundtrip: "leb128_decode (leb128_encode n @ rest) = Some (n, length (leb128_encode n))"
proof (induction n rule: leb128_encode.induct)
  case (1 n)
  then show ?case
    by (simp add: leb128_encode.simps [of n] unat_byte unat_continued)
qed

lemma leb128_prefix: "strict_prefix p (leb128_encode n) \<Longrightarrow> leb128_decode p = None"
proof (induction n arbitrary: p rule: leb128_encode.induct)
  case (1 n)
  then show ?case
    by (cases p) (auto simp: leb128_encode.simps [of n] unat_byte unat_continued split: if_splits)
qed

lemma leb128_length: "n < 128 ^ Suc k \<Longrightarrow> length (leb128_encode n) \<le> Suc k"
proof (induction k arbitrary: n)
  case 0
  then show ?case by (subst leb128_encode.simps) simp
next
  case (Suc k)
  then have "n div 128 < 128 ^ Suc k" by (simp add: less_mult_imp_div_less)
  then show ?case using Suc.IH by (subst leb128_encode.simps) simp
qed

definition leb128_wire :: "(buffer, buffer, unit) wire" where
  "leb128_wire =
    \<lparr> varint_decode = (\<lambda>b. map_option (\<lambda>(n, l). (int n, l)) (leb128_decode b)),
      varint_encode = (\<lambda>n. leb128_encode (nat n)),
      bl_slice = (\<lambda>b i j. take (nat j - nat i) (drop (nat i) b)),
      bl_consume = (\<lambda>b i. drop (nat i) b),
      request_decode = (\<lambda>b. Inr b),
      response_encode = (\<lambda>b. Inr b) \<rparr>"

lemma leb128_wire_documented: "wire_documented leb128_wire"
proof -
  have "length (leb128_encode (nat n)) \<le> 8" if "n < 2 ^ 56" for n
    using leb128_length [of "nat n" 7] that by (simp add: nat_less_iff)
  then show ?thesis
    unfolding wire_documented_def by (auto simp: leb128_wire_def leb128_roundtrip leb128_prefix)
qed

definition echo_handler :: "nat \<Rightarrow> buffer \<Rightarrow> (buffer, unit) handler_error + buffer" where
  "echo_handler n q = Inr q"

definition sample_items :: "(buffer \<times> buffer) list" where
  "sample_items = [([7], [7]), ([8, 9], [8, 9])]"

definition sample_events :: "conn_event list" where
  "sample_events = [Data [2], Data [7, 4, 8], HandlerSettled, Data [9]]"

lemma sample_connection_ok:
  "\<forall>item \<in> set sample_items. sendable leb128_wire item" "answered leb128_wire echo_handler"
  "prefix (received sample_events) (request_stream leb128_wire sample_items)"
  by (simp_all add: sample_items_def sendable_def MAX_MESSAGE_SIZE_def leb128_wire_def answered_def echo_handler_def
      sample_events_def received_def request_frame_def leb128_encode.simps)

theorem requests_served_in_order_witness:
  "let c = run_connection leb128_wire echo_handler sample_events 1 in
     prefix (calls c) [[7], [8, 9]] \<and> written c = answers leb128_wire echo_handler (take (settled_calls c) (calls c))"
proof -
  have "complete_requests leb128_wire sample_items (length (received sample_events)) = [[7], [8, 9]]"
    by code_simp
  moreover have "SocketClosed \<notin> set sample_events" by (simp add: sample_events_def)
  ultimately show ?thesis
    using requests_served_in_order [OF leb128_wire_documented sample_connection_ok, of 1] by (simp add: Let_def)
qed

theorem every_request_answered_witness:
  "written (run_connection leb128_wire echo_handler (sample_events @ replicate 2 HandlerSettled) 1) = [2, 7, 4, 8, 9]"
proof -
  have "answers leb128_wire echo_handler
      (complete_requests leb128_wire sample_items (length (received sample_events))) = [2, 7, 4, 8, 9]"
    by code_simp
  moreover have "SocketClosed \<notin> set sample_events" "CloseCalled \<notin> set sample_events" "length sample_items = 2"
    by (simp_all add: sample_events_def sample_items_def)
  ultimately show ?thesis
    using every_request_answered [OF leb128_wire_documented sample_connection_ok, of 1] by (simp add: Let_def)
qed

theorem close_finishes_current_request_witness:
  "let d = run_connection leb128_wire echo_handler [Data [2, 7], CloseCalled, Data [4, 8, 9], HandlerSettled] 2 in
     calls d = [[7]] \<and> close_resolved d"
proof -
  have stream: "prefix (received ([Data [2, 7]] @ CloseCalled # [Data [4, 8, 9], HandlerSettled]))
      (request_stream leb128_wire sample_items)"
    by (simp add: sample_items_def leb128_wire_def received_def request_frame_def leb128_encode.simps)
  have open_calls: "calls (run_connection leb128_wire echo_handler [Data [2, 7]] 2) = [[7]]" by code_simp
  have "SocketClosed \<notin> set ([Data [2, 7]] @ CloseCalled # [Data [4, 8, 9], HandlerSettled])" by simp
  from close_finishes_current_request [OF leb128_wire_documented sample_connection_ok(1,2) stream this, of 2]
  show ?thesis by (simp add: Let_def open_calls)
qed

definition failing_handler :: "nat \<Rightarrow> buffer \<Rightarrow> (buffer, unit) handler_error + buffer" where
  "failing_handler n q = Inl (InvalidAbciResponseError ''code: integer expected'' q)"

theorem foreign_error_wedges_connection_witness:
  "\<not> close_resolved (run_connection leb128_wire failing_handler [Data [2, 7], HandlerSettled, CloseCalled, Data [4, 8, 9]] 1)"
proof -
  have "handling (run_connection leb128_wire failing_handler [Data [2, 7]] 1) = Some [7]" by code_simp
  from foreign_error_wedges_connection [OF this, of _ "[CloseCalled, Data [4, 8, 9]]"] show ?thesis
    by (simp add: failing_handler_def Let_def)
qed

theorem message_size_guard_witness:
  "handling (readNextRequest leb128_wire
     ((new_connection 1 :: (buffer, buffer, unit) connection)\<lparr>readerBuffer := leb128_encode (2 ^ 31)\<rparr>)) = Some []"
proof -
  let ?c = "(new_connection 1 :: (buffer, buffer, unit) connection)\<lparr>readerBuffer := leb128_encode (2 ^ 31)\<rparr>"
  have "varint_decode leb128_wire (bl_slice leb128_wire (readerBuffer ?c) 0 8) = Some (2 ^ 31, 5)"
    "length (readerBuffer ?c) = 5"
    by (simp_all add: leb128_encode.simps leb128_wire_def unat_byte)
  then show ?thesis
    using message_size_guard [of ?c leb128_wire "2 ^ 31" 5]
    by (simp add: Let_def new_connection_def) (simp add: leb128_wire_def)
qed

end
