(* ===== verification/TransactionsFilter.thy ===== *)
theory TransactionsFilter
  imports Prelude
begin

unbundle bit_operations_syntax

text \<open>
  The stream of transactions a client of DAPI subscribes to with a bloom filter
  (\<open>packages/dapi/lib\<close>): \<open>transactionsFilter/testTransactionAgainstFilter.js\<close> decides what matches,
  \<open>TransactionHashesCache.js\<close> keeps what is still to be sent, \<open>subscribeToNewTransactions.js\<close> reacts
  to what Core publishes and empties the cache every 50 milliseconds,
  \<open>getHistoricalTransactionsIteratorFactory.js\<close> and the handler
  \<open>subscribeToTransactionsWithProofsHandlerFactory.js\<close> send the past first.

  Transactions, scripts, bloom filters and Merkle blocks belong to dashcore-lib; their
  operations are parameters, or given with the transaction. Hashes are hex strings in the code;
  here they are the bytes those spell.
\<close>

type_synonym hash = buffer

section \<open>Which transactions match\<close>

record chunk =
  opcodenum :: int
  chunk_buf :: "buffer option"

record script =
  script_chunks :: "chunk list"
  isPublicKeyOut :: bool
  isMultisigOut :: bool

record tx_input =
  prevTxId :: "hash option"
  outputIndex :: "32 word"
  input_script :: "script option"

text \<open>An output whose script dashcore-lib cannot parse has a \<open>null\<close> script. \<open>None\<close> for the lists is a
  transaction without them.\<close>

record core_tx =
  tx_hash :: hash
  tx_outputs :: "script option list option"
  tx_inputs :: "tx_input list option"

record 'f bloom_api =
  bf_contains :: "'f \<Rightarrow> buffer \<Rightarrow> bool"
  bf_insert :: "'f \<Rightarrow> buffer \<Rightarrow> 'f"
  bf_flags :: "'f \<Rightarrow> nat"
  BLOOM_UPDATE_ALL :: nat
  BLOOM_UPDATE_P2PUBKEY_ONLY :: nat

datatype filter_error = NullScriptTypeError

definition uint32_le :: "32 word \<Rightarrow> buffer" where
  "uint32_le i = map (\<lambda>k. ucast (drop_bit (8 * k) i)) [0, 1, 2, 3]"

definition inputIndexToBuffer :: "hash \<Rightarrow> 32 word \<Rightarrow> buffer" where
  "inputIndexToBuffer transactionHash inputIndex = transactionHash @ uint32_le inputIndex"

definition filterContainsScript :: "'f bloom_api \<Rightarrow> 'f \<Rightarrow> script option \<Rightarrow> bool" where
  "filterContainsScript bf f s =
    (case s of
       None \<Rightarrow> False
     | Some sc \<Rightarrow> list_ex (\<lambda>chunk. opcodenum chunk \<noteq> 0 \<and>
         (case chunk_buf chunk of None \<Rightarrow> False | Some b \<Rightarrow> bf_contains bf f b)) (script_chunks sc))"

definition isFilterUpdateNeeded :: "'f bloom_api \<Rightarrow> 'f \<Rightarrow> script \<Rightarrow> bool" where
  "isFilterUpdateNeeded bf f sc \<longleftrightarrow>
     bf_flags bf f = BLOOM_UPDATE_ALL bf \<or>
     bf_flags bf f = BLOOM_UPDATE_P2PUBKEY_ONLY bf \<and> (isPublicKeyOut sc \<or> isMultisigOut sc)"

text \<open>\<open>find\<close> stops at the first output that matches.\<close>

fun find_output ::
    "'f bloom_api \<Rightarrow> hash \<Rightarrow> nat \<Rightarrow> script option list \<Rightarrow> 'f \<Rightarrow> filter_error + bool \<times> 'f" where
  "find_output bf h i [] f = Inr (False, f)"
| "find_output bf h i (s # ss) f =
    (let isMatchFound = filterContainsScript bf f s
     in case s of
          None \<Rightarrow> Inl NullScriptTypeError
        | Some sc \<Rightarrow>
            (if isMatchFound
             then Inr (True, if isFilterUpdateNeeded bf f sc
                             then bf_insert bf f (inputIndexToBuffer h (word_of_nat i)) else f)
             else find_output bf h (Suc i) ss f))"

definition checkOutputs :: "'f bloom_api \<Rightarrow> 'f \<Rightarrow> core_tx \<Rightarrow> filter_error + bool \<times> 'f" where
  "checkOutputs bf f tx =
    (case tx_outputs tx of
       None \<Rightarrow> Inr (False, f)
     | Some outs \<Rightarrow> find_output bf (tx_hash tx) 0 outs f)"

definition checkInputs :: "'f bloom_api \<Rightarrow> 'f \<Rightarrow> core_tx \<Rightarrow> bool" where
  "checkInputs bf f tx =
    (case tx_inputs tx of
       None \<Rightarrow> False
     | Some ins \<Rightarrow> list_ex (\<lambda>input.
         (case prevTxId input of
            None \<Rightarrow> False
          | Some h \<Rightarrow> bf_contains bf f (inputIndexToBuffer h (outputIndex input))) \<or>
         filterContainsScript bf f (input_script input)) ins)"

definition checkHash :: "'f bloom_api \<Rightarrow> 'f \<Rightarrow> core_tx \<Rightarrow> bool" where
  "checkHash bf f tx = bf_contains bf f (tx_hash tx)"

definition testTransactionAgainstFilter ::
    "'f bloom_api \<Rightarrow> 'f \<Rightarrow> core_tx \<Rightarrow> filter_error + bool \<times> 'f" where
  "testTransactionAgainstFilter bf f tx =
    (if checkHash bf f tx then Inr (True, f)
     else rbind (checkOutputs bf f tx) (\<lambda>(matched, f').
       Inr (matched \<or> checkInputs bf f' tx, f')))"

section \<open>The cache of a subscription\<close>

definition BLOCKS_TO_STAY_IN_INSTANT_LOCK_CACHE :: int where
  "BLOCKS_TO_STAY_IN_INSTANT_LOCK_CACHE = 10"

definition cacheSize :: nat where
  "cacheSize = 10"

record core_block =
  block_hash :: hash
  block_txs :: "core_tx list"

text \<open>\<open>MerkleBlock.build\<close> takes the header, the hashes and which of them match; the hashes of the
  partial tree it computes are the parameter \<open>partial_tree\<close>.\<close>

record merkle_block =
  mb_header_hash :: hash
  mb_leaves :: "hash list"
  mb_flags :: "bool list"
  mb_hashes :: "hash list"

definition build_merkle_block ::
    "(hash list \<Rightarrow> bool list \<Rightarrow> hash list) \<Rightarrow> core_block \<Rightarrow> bool list \<Rightarrow> merkle_block" where
  "build_merkle_block partial_tree b flags =
    (let leaves = map tx_hash (block_txs b)
     in \<lparr> mb_header_hash = block_hash b, mb_leaves = leaves, mb_flags = flags,
          mb_hashes = map rev (partial_tree leaves flags) \<rparr>)"

record instant_lock =
  il_txid :: hash
  il_bytes :: buffer

record hashes_cache =
  transactions :: "(core_tx \<times> bool) list"
  merkleBlocks :: "(merkle_block \<times> bool) list"
  cached_blocks :: "core_block list"
  transactionHashesMap :: "(hash \<times> int) list"
  blocksProcessed :: int
  unretrievedInstantLocks :: "(hash \<times> instant_lock) list"

definition new_cache :: hashes_cache where
  "new_cache = \<lparr> transactions = [], merkleBlocks = [], cached_blocks = [], transactionHashesMap = [],
     blocksProcessed = 0, unretrievedInstantLocks = [] \<rparr>"

definition cached_hashes :: "hashes_cache \<Rightarrow> hash list" where
  "cached_hashes c = map (tx_hash \<circ> fst) (transactions c)"

definition isInInstantLockCache :: "hash \<Rightarrow> hashes_cache \<Rightarrow> bool" where
  "isInInstantLockCache h c \<longleftrightarrow> map_of (transactionHashesMap c) h \<noteq> None"

definition addTransaction :: "core_tx \<Rightarrow> hashes_cache \<Rightarrow> hashes_cache \<times> bool" where
  "addTransaction tx c =
    (let isAdded = tx_hash tx \<in> set (cached_hashes c);
         c1 = (if isAdded then c else c\<lparr>transactions := transactions c @ [(tx, False)]\<rparr>);
         c2 = (if isInInstantLockCache (tx_hash tx) c1 then c1
               else c1\<lparr>transactionHashesMap :=
                       AList.update (tx_hash tx) (blocksProcessed c1) (transactionHashesMap c1)\<rparr>)
     in (c2, \<not> isAdded))"

definition removeTransactionHashFromInstantSendLockWaitingList :: "hash \<Rightarrow> hashes_cache \<Rightarrow> hashes_cache" where
  "removeTransactionHashFromInstantSendLockWaitingList h c =
    (if isInInstantLockCache h c
     then c\<lparr>transactionHashesMap := AList.delete h (transactionHashesMap c)\<rparr> else c)"

text \<open>The loops run from the end and stop at the first entry they remove.\<close>

fun remove_first :: "('a \<Rightarrow> bool) \<Rightarrow> 'a list \<Rightarrow> 'a list" where
  "remove_first P [] = []"
| "remove_first P (x # xs) = (if P x then xs else x # remove_first P xs)"

definition remove_last :: "('a \<Rightarrow> bool) \<Rightarrow> 'a list \<Rightarrow> 'a list" where
  "remove_last P xs = rev (remove_first P (rev xs))"

definition removeDataByBlock :: "core_block \<Rightarrow> hashes_cache \<Rightarrow> hashes_cache" where
  "removeDataByBlock b c =
    (let blockTransactionHashes = map tx_hash (block_txs b)
     in c\<lparr>transactions := filter (\<lambda>(tx, _). tx_hash tx \<notin> set blockTransactionHashes) (transactions c),
          merkleBlocks := remove_last (\<lambda>(mb, _). mb_header_hash mb = block_hash b) (merkleBlocks c),
          cached_blocks := remove_last (\<lambda>b'. block_hash b' = block_hash b) (cached_blocks c)\<rparr>)"

definition removeDataByBlockHash :: "hash \<Rightarrow> hashes_cache \<Rightarrow> hashes_cache" where
  "removeDataByBlockHash h c =
    (case filter (\<lambda>b. block_hash b = h) (cached_blocks c) of
       [] \<Rightarrow> c
     | b # _ \<Rightarrow> removeDataByBlock b c)"

definition age_waiting_list :: "hashes_cache \<Rightarrow> hashes_cache" where
  "age_waiting_list c =
    (let n = blocksProcessed c + 1;
         removeAfterHeight = n - BLOCKS_TO_STAY_IN_INSTANT_LOCK_CACHE
     in c\<lparr>blocksProcessed := n,
          transactionHashesMap := filter (\<lambda>(_, height). \<not> height < removeAfterHeight) (transactionHashesMap c)\<rparr>)"

definition matchedTransactionFlags :: "core_block \<Rightarrow> hashes_cache \<Rightarrow> bool list" where
  "matchedTransactionFlags b c = map (\<lambda>tx. tx_hash tx \<in> set (cached_hashes c)) (block_txs b)"

definition addBlock ::
    "(hash list \<Rightarrow> bool list \<Rightarrow> hash list) \<Rightarrow> core_block \<Rightarrow> hashes_cache \<Rightarrow> hashes_cache" where
  "addBlock partial_tree b c0 =
    (let c = age_waiting_list c0;
         flags = matchedTransactionFlags b c
     in if True \<notin> set flags then c
        else let c1 = c\<lparr>merkleBlocks := merkleBlocks c @ [(build_merkle_block partial_tree b flags, False)],
                        cached_blocks := cached_blocks c @ [b]\<rparr>
          in if length (cached_blocks c1) > cacheSize
             then removeDataByBlock (hd (cached_blocks c1)) (c1\<lparr>cached_blocks := tl (cached_blocks c1)\<rparr>)
             else c1)"

definition getUnretrievedTransactions :: "hashes_cache \<Rightarrow> hashes_cache \<times> core_tx list" where
  "getUnretrievedTransactions c =
    (c\<lparr>transactions := map (\<lambda>(tx, _). (tx, True)) (transactions c)\<rparr>,
     map fst (filter (\<lambda>(_, isRetrieved). \<not> isRetrieved) (transactions c)))"

definition getUnretrievedMerkleBlocks :: "hashes_cache \<Rightarrow> hashes_cache \<times> merkle_block list" where
  "getUnretrievedMerkleBlocks c =
    (c\<lparr>merkleBlocks := map (\<lambda>(mb, _). (mb, True)) (merkleBlocks c)\<rparr>,
     map fst (filter (\<lambda>(_, isRetrieved). \<not> isRetrieved) (merkleBlocks c)))"

definition addInstantLock :: "instant_lock \<Rightarrow> hashes_cache \<Rightarrow> hashes_cache" where
  "addInstantLock l c =
    c\<lparr>unretrievedInstantLocks := AList.update (il_txid l) l (unretrievedInstantLocks c)\<rparr>"

definition getUnretrievedInstantLocks :: "hashes_cache \<Rightarrow> hashes_cache \<times> instant_lock list" where
  "getUnretrievedInstantLocks c =
    (c\<lparr>unretrievedInstantLocks := []\<rparr>, map snd (unretrievedInstantLocks c))"

section \<open>A subscription\<close>

text \<open>
  \<open>connected\<close> is \<open>isClientConnected\<close>; \<open>mempool_sent\<close> says that the loop runs; \<open>in_collection\<close> that Core's
  events still reach the emitter of the filter; \<open>cancel_listener\<close> that the handler has registered
  for \<open>cancelled\<close>. \<open>sent\<close> is what was handed to the call, in order.
\<close>

datatype stream_message =
    TransactionMessage core_tx
  | MerkleBlockMessage merkle_block
  | InstantLockMessage instant_lock

record 'f subscription =
  stream_cache :: hashes_cache
  bloom :: 'f
  connected :: bool
  mempool_sent :: bool
  in_collection :: bool
  cancel_listener :: bool
  sent :: "stream_message list"

definition subscribeToNewTransactions :: "'f \<Rightarrow> 'f subscription" where
  "subscribeToNewTransactions f =
    \<lparr> stream_cache = new_cache, bloom = f, connected = True, mempool_sent = False,
      in_collection = True, cancel_listener = False, sent = [] \<rparr>"

text \<open>The \<open>test\<close> of a \<open>BloomFilterEmitter\<close>, with the listener of \<open>match\<close>. The flag says whether it threw.\<close>

definition emitter_test :: "'f bloom_api \<Rightarrow> core_tx \<Rightarrow> 'f subscription \<Rightarrow> 'f subscription \<times> bool" where
  "emitter_test bf tx s =
    (case testTransactionAgainstFilter bf (bloom s) tx of
       Inl _ \<Rightarrow> (s, True)
     | Inr (matched, f') \<Rightarrow>
         (let s' = s\<lparr>bloom := f'\<rparr>
          in (if matched then s'\<lparr>stream_cache := fst (addTransaction tx (stream_cache s'))\<rparr> else s', False)))"

fun emitter_test_all :: "'f bloom_api \<Rightarrow> core_tx list \<Rightarrow> 'f subscription \<Rightarrow> 'f subscription \<times> bool" where
  "emitter_test_all bf [] s = (s, False)"
| "emitter_test_all bf (tx # txs) s =
    (case emitter_test bf tx s of (s', True) \<Rightarrow> (s', True) | (s', False) \<Rightarrow> emitter_test_all bf txs s')"

definition on_block ::
    "'f bloom_api \<Rightarrow> (hash list \<Rightarrow> bool list \<Rightarrow> hash list) \<Rightarrow> core_block \<Rightarrow> 'f subscription \<Rightarrow> 'f subscription" where
  "on_block bf partial_tree b s =
    (case (if cached_blocks (stream_cache s) = [] then emitter_test_all bf (block_txs b) s else (s, False)) of
       (s', True) \<Rightarrow> s'
     | (s', False) \<Rightarrow> s'\<lparr>stream_cache := addBlock partial_tree b (stream_cache s')\<rparr>)"

definition on_instant_lock ::
    "'f bloom_api \<Rightarrow> instant_lock \<Rightarrow> core_tx \<Rightarrow> 'f subscription \<Rightarrow> 'f subscription" where
  "on_instant_lock bf l tx s =
    (if mempool_sent s
     then if isInInstantLockCache (il_txid l) (stream_cache s)
       then s\<lparr>stream_cache := removeTransactionHashFromInstantSendLockWaitingList (il_txid l) (stream_cache s),
              sent := sent s @ [InstantLockMessage l]\<rparr>
       else s
     else case testTransactionAgainstFilter bf (bloom s) tx of
         Inl _ \<Rightarrow> s
       | Inr (matched, f') \<Rightarrow>
           (if matched then s\<lparr>bloom := f', stream_cache := addInstantLock l (stream_cache s)\<rparr>
            else s\<lparr>bloom := f'\<rparr>))"

text \<open>One turn of the loop.\<close>

definition send_cached :: "'f subscription \<Rightarrow> 'f subscription" where
  "send_cached s =
    (let (c1, unsentTransactions) = getUnretrievedTransactions (stream_cache s);
         (c2, instantLocks) = getUnretrievedInstantLocks c1;
         (c3, unsentMerkleBlocks) = getUnretrievedMerkleBlocks c2
     in s\<lparr>stream_cache := c3,
          sent := sent s @ map TransactionMessage unsentTransactions @
            map InstantLockMessage (filter (\<lambda>l. isInInstantLockCache (il_txid l) c2) instantLocks) @
            map MerkleBlockMessage unsentMerkleBlocks\<rparr>)"

definition on_disconnected :: "'f subscription \<Rightarrow> 'f subscription" where
  "on_disconnected s = s\<lparr>connected := False, in_collection := False\<rparr>"

datatype stream_event =
    TransactionSeen core_tx
  | BlockSeen core_block
  | InstantLockSeen instant_lock core_tx
  | HistoricalBlockSent hash
  | MempoolDataSent
  | LoopTurn
  | Cancelled

text \<open>
  Core's events reach a subscription while it is in the collection. The handler emits
  \<open>MEMPOOL_DATA_SENT\<close>, which starts the loop with its first turn, and registers for \<open>cancelled\<close> right after.
\<close>

definition subscription_step ::
    "'f bloom_api \<Rightarrow> (hash list \<Rightarrow> bool list \<Rightarrow> hash list) \<Rightarrow> 'f subscription \<Rightarrow> stream_event \<Rightarrow> 'f subscription" where
  "subscription_step bf partial_tree s e =
    (case e of
       TransactionSeen tx \<Rightarrow> (if in_collection s then fst (emitter_test bf tx s) else s)
     | BlockSeen b \<Rightarrow> (if in_collection s then on_block bf partial_tree b s else s)
     | InstantLockSeen l tx \<Rightarrow> (if in_collection s then on_instant_lock bf l tx s else s)
     | HistoricalBlockSent h \<Rightarrow>
         (if connected s then s\<lparr>stream_cache := removeDataByBlockHash h (stream_cache s)\<rparr> else s)
     | MempoolDataSent \<Rightarrow> (send_cached (s\<lparr>mempool_sent := True\<rparr>))\<lparr>cancel_listener := True\<rparr>
     | LoopTurn \<Rightarrow> (if mempool_sent s \<and> connected s then send_cached s else s)
     | Cancelled \<Rightarrow> (if cancel_listener s then on_disconnected s else s))"

definition run_subscription ::
    "'f bloom_api \<Rightarrow> (hash list \<Rightarrow> bool list \<Rightarrow> hash list) \<Rightarrow> 'f \<Rightarrow> stream_event list \<Rightarrow> 'f subscription" where
  "run_subscription bf partial_tree f evs =
     foldl (subscription_step bf partial_tree) (subscribeToNewTransactions f) evs"

section \<open>The handler, and the past\<close>

definition MAX_HEADERS_PER_REQUEST :: nat where
  "MAX_HEADERS_PER_REQUEST = 2000"

definition getBlocksToScan :: "nat \<Rightarrow> nat \<Rightarrow> nat \<Rightarrow> nat" where
  "getBlocksToScan batchIndex numberOfBatches totalCount =
    (if batchIndex + 1 = numberOfBatches then totalCount - batchIndex * MAX_HEADERS_PER_REQUEST
     else MAX_HEADERS_PER_REQUEST)"

text \<open>The heights each call of \<open>getMerkleBlocks\<close> starts from, with the number of blocks it scans.\<close>

definition history_batches :: "nat \<Rightarrow> nat \<Rightarrow> (nat \<times> nat) list" where
  "history_batches fromHeight n =
    (let numberOfBatches = (n + MAX_HEADERS_PER_REQUEST - 1) div MAX_HEADERS_PER_REQUEST
     in map (\<lambda>batchIndex. (fromHeight + batchIndex * MAX_HEADERS_PER_REQUEST,
               getBlocksToScan batchIndex numberOfBatches n)) [0..<numberOfBatches])"

datatype stream_error = InvalidArgumentGrpcError string | NotFoundGrpcError string | CoreError int

record stream_request =
  rq_fromBlockHash :: hash
  rq_fromBlockHeight :: nat
  rq_count :: nat

record block_info =
  bi_height :: nat
  bi_confirmations :: int

record core_api =
  getBlockHash :: "nat \<Rightarrow> int + hash"
  getBlock :: "hash \<Rightarrow> int + block_info"
  getBestBlockHeight :: "int + nat"

definition resolve_fromBlockHash :: "core_api \<Rightarrow> stream_request \<Rightarrow> stream_error + hash" where
  "resolve_fromBlockHash core rq =
    (if rq_fromBlockHash rq \<noteq> [] then Inr (rq_fromBlockHash rq)
     else if rq_fromBlockHeight rq = 0
     then Inl (InvalidArgumentGrpcError ''minimum value for `fromBlockHeight` is 1'')
     else case getBlockHash core (rq_fromBlockHeight rq) of
         Inr h \<Rightarrow> Inr h
       | Inl code \<Rightarrow> Inl (if code = - 8
             then NotFoundGrpcError ''fromBlockHeight is bigger than block count'' else CoreError code))"

definition resolve_history :: "core_api \<Rightarrow> stream_request \<Rightarrow> stream_error + nat \<times> nat" where
  "resolve_history core rq =
    rbind (resolve_fromBlockHash core rq) (\<lambda>h.
    rbind (case getBlock core h of
        Inr b \<Rightarrow> Inr b
      | Inl code \<Rightarrow> Inl (if code = - 5 then NotFoundGrpcError ''fromBlockHash is not found'' else CoreError code)) (\<lambda>b.
    if bi_confirmations b = - 1 then Inl (NotFoundGrpcError ''block is not part of the best block chain'')
    else case getBestBlockHeight core of
        Inl code \<Rightarrow> Inl (CoreError code)
      | Inr best \<Rightarrow>
          Inr (bi_height b,
               if rq_count rq = 0 \<or> bi_height b + rq_count rq > best + 1
               then best + 1 - bi_height b else rq_count rq)))"

text \<open>The handler up to the first block of the past: the subscriptions of the collection, and the
  heights that are sent or the error that ends the call. \<open>new_filter\<close> is the constructor of \<open>BloomFilter\<close>.\<close>

definition subscribeToTransactionsWithProofsHandler ::
    "(buffer \<Rightarrow> string + 'f) \<Rightarrow> core_api \<Rightarrow> buffer \<Rightarrow> stream_request \<Rightarrow> 'f subscription list \<Rightarrow>
      'f subscription list \<times> (stream_error + (nat \<times> nat) list)" where
  "subscribeToTransactionsWithProofsHandler new_filter core filter_bytes rq collection =
    (case new_filter filter_bytes of
       Inl message \<Rightarrow> (collection, Inl (InvalidArgumentGrpcError (''Invalid bloom filter: '' @ message)))
     | Inr f \<Rightarrow>
         (if rq_count rq = 0 then collection @ [subscribeToNewTransactions f] else collection,
          rbind (resolve_history core rq) (\<lambda>(fromHeight, historicalCount).
            Inr (history_batches fromHeight historicalCount))))"

section \<open>The past is cut into batches without gap or overlap\<close>

text \<open>The batches of the history, one after the other, are the heights from the first block on, as
  many as were asked for, and no call asks for more than 2000.\<close>

lemma batch_concat:
  assumes "0 < k"
  shows "concat (map (\<lambda>i. [a + i * k..<a + i * k + k]) [0..<n]) = [a..<a + n * k]"
proof (induction n)
  case (Suc n)
  have "[a..<a + Suc n * k] = [a..<a + n * k] @ [a + n * k..<a + n * k + k]"
    using upt_add_eq_append [of a "a + n * k" k] by (simp add: add.assoc [symmetric] add.commute)
  then show ?case using Suc by simp
qed simp

text \<open>
  The requests for the past cover the wanted blocks exactly, in order and none twice, and none asks
  for more headers than a call may.
\<close>

theorem history_batches_cover:
  "concat (map (\<lambda>(start, n). [start..<start + n]) (history_batches fromHeight count)) = [fromHeight..<fromHeight + count] \<and>
   list_all (\<lambda>(start, n). 0 < n \<and> n \<le> MAX_HEADERS_PER_REQUEST) (history_batches fromHeight count)"
proof -
  define k where "k = MAX_HEADERS_PER_REQUEST"
  have k: "0 < k" by (simp add: k_def MAX_HEADERS_PER_REQUEST_def)
  define m where "m = (count + k - 1) div k"
  have batches: "history_batches fromHeight count =
      map (\<lambda>i. (fromHeight + i * k, if i + 1 = m then count - i * k else k)) [0..<m]"
    by (simp add: history_batches_def getBlocksToScan_def m_def k_def Let_def)
  show ?thesis
  proof (cases m)
    case 0
    then have "count = 0" using k by (simp add: m_def div_eq_0_iff)
    moreover have "history_batches fromHeight count = []" using 0 by (simp add: batches)
    ultimately show ?thesis by simp
  next
    case (Suc l)
    have "m * k + (count + k - 1) mod k = count + k - 1" unfolding m_def by (rule div_mult_mod_eq)
    then have "l * k + k + (count + k - 1) mod k = count + k - 1" using Suc by simp
    moreover have "(count + k - 1) mod k < k" using k by simp
    ultimately have l: "l * k < count" "count \<le> l * k + k" using k by linarith+
    have "map (\<lambda>(start, n). [start..<start + n]) (history_batches fromHeight count) =
        map (\<lambda>i. [fromHeight + i * k..<fromHeight + i * k + k]) [0..<l] @ [[fromHeight + l * k..<fromHeight + count]]"
      using l by (auto simp: batches Suc)
    then have "concat (map (\<lambda>(start, n). [start..<start + n]) (history_batches fromHeight count)) =
        [fromHeight..<fromHeight + l * k] @ [fromHeight + l * k..<fromHeight + count]"
      using batch_concat [OF k, of fromHeight l] by simp
    also have "\<dots> = [fromHeight..<fromHeight + count]"
      using l upt_add_eq_append [of fromHeight "fromHeight + l * k" "count - l * k"] by simp
    finally show ?thesis
      using l k by (auto simp: batches Suc list_all_iff k_def [symmetric])
  qed
qed

section \<open>Transactions go before the block that holds them\<close>

fun ordered_from :: "hash set \<Rightarrow> stream_message list \<Rightarrow> bool" where
  "ordered_from E [] = True"
| "ordered_from E (TransactionMessage tx # ms) = ordered_from (insert (tx_hash tx) E) ms"
| "ordered_from E (InstantLockMessage l # ms) = ordered_from E ms"
| "ordered_from E (MerkleBlockMessage mb # ms) =
    (set (map fst (filter snd (zip (mb_leaves mb) (mb_flags mb)))) \<subseteq> E \<and> ordered_from E ms)"

definition matched_hashes :: "merkle_block \<Rightarrow> hash list" where
  "matched_hashes mb = map fst (filter snd (zip (mb_leaves mb) (mb_flags mb)))"

definition sent_hashes :: "stream_message list \<Rightarrow> hash set" where
  "sent_hashes ms = {tx_hash tx |tx. TransactionMessage tx \<in> set ms}"

lemma sent_hashes_simps [simp]:
  "sent_hashes [] = {}"
  "sent_hashes (TransactionMessage tx # ms) = insert (tx_hash tx) (sent_hashes ms)"
  "sent_hashes (InstantLockMessage l # ms) = sent_hashes ms"
  "sent_hashes (MerkleBlockMessage mb # ms) = sent_hashes ms"
  "sent_hashes (ms @ ms') = sent_hashes ms \<union> sent_hashes ms'"
  "sent_hashes (map TransactionMessage txs) = tx_hash ` set txs"
  "sent_hashes (map InstantLockMessage ls) = {}"
  "sent_hashes (map MerkleBlockMessage mbs) = {}"
  by (auto simp: sent_hashes_def)

lemma ordered_append:
  "ordered_from E (ms @ ms') \<longleftrightarrow> ordered_from E ms \<and> ordered_from (E \<union> sent_hashes ms) ms'"
  by (induction E ms rule: ordered_from.induct) auto

lemma ordered_transactions [simp]: "ordered_from E (map TransactionMessage txs)"
  by (induction txs arbitrary: E) simp_all

lemma ordered_locks [simp]: "ordered_from E (map InstantLockMessage ls)"
  by (induction ls) simp_all

lemma ordered_merkles [simp]:
  "ordered_from E (map MerkleBlockMessage mbs) \<longleftrightarrow> (\<forall>mb \<in> set mbs. set (matched_hashes mb) \<subseteq> E)"
  by (induction mbs) (simp_all add: matched_hashes_def)

lemma ordered_merkle:
  assumes "ordered_from {} (pre @ MerkleBlockMessage mb # post)" "h \<in> set (matched_hashes mb)"
  shows "\<exists>tx. TransactionMessage tx \<in> set pre \<and> tx_hash tx = h"
proof -
  have "set (matched_hashes mb) \<subseteq> sent_hashes pre"
    using assms(1) by (simp add: ordered_append matched_hashes_def)
  then show ?thesis using assms(2) unfolding sent_hashes_def by blast
qed

text \<open>Blocks apart share neither hash nor transaction.\<close>

definition block_hashes :: "core_block \<Rightarrow> hash set" where
  "block_hashes b = tx_hash ` set (block_txs b)"

definition blocks_apart :: "core_block list \<Rightarrow> bool" where
  "blocks_apart bs \<longleftrightarrow> distinct (map block_hash bs) \<and>
     (\<forall>b \<in> set bs. \<forall>b' \<in> set bs. b \<noteq> b' \<longrightarrow> block_hashes b \<inter> block_hashes b' = {})"

lemma blocks_apartD:
  "blocks_apart bs \<Longrightarrow> b \<in> set bs \<Longrightarrow> b' \<in> set bs \<Longrightarrow> b \<noteq> b' \<Longrightarrow> block_hashes b \<inter> block_hashes b' = {}"
  by (simp add: blocks_apart_def)

lemma remove_first_unique:
  "distinct (map key xs) \<Longrightarrow> remove_first (\<lambda>x. key x = k) xs = filter (\<lambda>x. key x \<noteq> k) xs"
proof (induction xs)
  case (Cons x xs)
  show ?case
  proof (cases "key x = k")
    case True
    then have "\<forall>x \<in> set xs. key x \<noteq> k"
      using Cons.prems by (metis distinct.simps(2) image_eqI list.set_map list.simps(9))
    then have "filter (\<lambda>x. key x \<noteq> k) xs = xs" by (rule filter_True)
    then show ?thesis using True by simp
  next
    case False
    then show ?thesis using Cons by simp
  qed
qed simp

lemma remove_last_unique:
  assumes "distinct (map key xs)"
  shows "remove_last (\<lambda>x. key x = k) xs = filter (\<lambda>x. key x \<noteq> k) xs"
proof -
  have "distinct (map key (rev xs))" using assms by (simp add: rev_map [symmetric])
  from remove_first_unique [OF this, of k] show ?thesis by (simp add: remove_last_def rev_filter)
qed

definition merkle_known :: "core_block list \<Rightarrow> merkle_block \<Rightarrow> bool" where
  "merkle_known bs mb \<longleftrightarrow>
     (\<exists>b \<in> set bs. mb_header_hash mb = block_hash b \<and> mb_leaves mb = map tx_hash (block_txs b))"

definition stream_inv :: "core_block list \<Rightarrow> hashes_cache \<Rightarrow> stream_message list \<Rightarrow> bool" where
  "stream_inv seen c out \<longleftrightarrow>
     (\<forall>tx. (tx, True) \<in> set (transactions c) \<longrightarrow> tx_hash tx \<in> sent_hashes out) \<and>
     (\<forall>mb r. (mb, r) \<in> set (merkleBlocks c) \<longrightarrow>
        set (matched_hashes mb) \<subseteq> set (cached_hashes c) \<union> sent_hashes out \<and> merkle_known (cached_blocks c) mb) \<and>
     distinct (map (mb_header_hash \<circ> fst) (merkleBlocks c)) \<and>
     distinct (map block_hash (cached_blocks c)) \<and> set (cached_blocks c) \<subseteq> set seen \<and>
     ordered_from {} out"

lemma stream_invI:
  assumes "\<And>tx. (tx, True) \<in> set (transactions c) \<Longrightarrow> tx_hash tx \<in> sent_hashes out"
    and "\<And>mb r h. (mb, r) \<in> set (merkleBlocks c) \<Longrightarrow> h \<in> set (matched_hashes mb) \<Longrightarrow>
      h \<in> set (cached_hashes c) \<or> h \<in> sent_hashes out"
    and "\<And>mb r. (mb, r) \<in> set (merkleBlocks c) \<Longrightarrow> merkle_known (cached_blocks c) mb"
    and "distinct (map (mb_header_hash \<circ> fst) (merkleBlocks c))" "distinct (map block_hash (cached_blocks c))"
    and "set (cached_blocks c) \<subseteq> set seen" "ordered_from {} out"
  shows "stream_inv seen c out"
  unfolding stream_inv_def using assms(4-7) by (auto dest: assms(1) assms(2) assms(3))

lemma stream_invD:
  assumes "stream_inv seen c out"
  shows "(tx, True) \<in> set (transactions c) \<Longrightarrow> tx_hash tx \<in> sent_hashes out"
    and "(mb, r) \<in> set (merkleBlocks c) \<Longrightarrow> h \<in> set (matched_hashes mb) \<Longrightarrow>
      h \<in> set (cached_hashes c) \<or> h \<in> sent_hashes out"
    and "(mb, r) \<in> set (merkleBlocks c) \<Longrightarrow> merkle_known (cached_blocks c) mb"
    and "distinct (map (mb_header_hash \<circ> fst) (merkleBlocks c))" "distinct (map block_hash (cached_blocks c))"
    and "set (cached_blocks c) \<subseteq> set seen" "ordered_from {} out"
  using assms unfolding stream_inv_def by blast+

lemma matched_leaf: "h \<in> set (matched_hashes mb) \<Longrightarrow> h \<in> set (mb_leaves mb)"
  by (auto simp: matched_hashes_def dest: set_zip_leftD)

lemma inv_remove:
  assumes inv: "stream_inv seen c out" and apart: "blocks_apart seen" and b: "b \<in> set seen"
  shows "stream_inv seen (removeDataByBlock b c) out"
proof -
  note inv = stream_invD [OF inv]
  have merkle: "merkleBlocks (removeDataByBlock b c) = filter (\<lambda>x. mb_header_hash (fst x) \<noteq> block_hash b) (merkleBlocks c)"
    using remove_last_unique [OF inv(4), of "block_hash b"]
    by (simp add: removeDataByBlock_def Let_def case_prod_unfold)
  have blocks: "cached_blocks (removeDataByBlock b c) = filter (\<lambda>b'. block_hash b' \<noteq> block_hash b) (cached_blocks c)"
    using remove_last_unique [OF inv(5), of "block_hash b"] by (simp add: removeDataByBlock_def Let_def)
  have txs: "transactions (removeDataByBlock b c) = filter (\<lambda>x. tx_hash (fst x) \<notin> block_hashes b) (transactions c)"
    by (simp add: removeDataByBlock_def Let_def case_prod_unfold block_hashes_def)
  show ?thesis
  proof (rule stream_invI)
    fix mb r
    assume "(mb, r) \<in> set (merkleBlocks (removeDataByBlock b c))"
    then have mem: "(mb, r) \<in> set (merkleBlocks c)" and other: "mb_header_hash mb \<noteq> block_hash b"
      by (simp_all add: merkle)
    obtain b' where b': "b' \<in> set (cached_blocks c)" "mb_header_hash mb = block_hash b'"
      "mb_leaves mb = map tx_hash (block_txs b')"
      using inv(3) [OF mem] by (auto simp: merkle_known_def)
    then show "merkle_known (cached_blocks (removeDataByBlock b c)) mb"
      using other by (auto simp: merkle_known_def blocks)
    fix h
    assume h: "h \<in> set (matched_hashes mb)"
    have "block_hashes b \<inter> block_hashes b' = {}"
    proof (rule blocks_apartD [OF apart b])
      show "b' \<in> set seen" using b'(1) inv(6) by (rule set_mp [rotated])
      show "b \<noteq> b'" using b'(2) other by auto
    qed
    moreover have "h \<in> block_hashes b'" using matched_leaf [OF h] b'(3) by (simp add: block_hashes_def)
    ultimately have "h \<notin> block_hashes b" by blast
    then show "h \<in> set (cached_hashes (removeDataByBlock b c)) \<or> h \<in> sent_hashes out"
      using inv(2) [OF mem h] by (auto simp: cached_hashes_def txs)
  next
    show "set (cached_blocks (removeDataByBlock b c)) \<subseteq> set seen"
      unfolding blocks by (rule subset_trans [OF filter_is_subset inv(6)])
    show "distinct (map (mb_header_hash \<circ> fst) (merkleBlocks (removeDataByBlock b c)))"
      unfolding merkle by (rule distinct_map_filter [OF inv(4)])
    show "distinct (map block_hash (cached_blocks (removeDataByBlock b c)))"
      unfolding blocks by (rule distinct_map_filter [OF inv(5)])
    show "tx_hash tx \<in> sent_hashes out" if "(tx, True) \<in> set (transactions (removeDataByBlock b c))" for tx
      using that by (intro inv(1)) (simp add: txs)
  qed (rule inv(7))
qed

lemma stream_inv_frame [simp]:
  "stream_inv seen (c\<lparr>transactionHashesMap := m\<rparr>) out \<longleftrightarrow> stream_inv seen c out"
  "stream_inv seen (c\<lparr>blocksProcessed := n\<rparr>) out \<longleftrightarrow> stream_inv seen c out"
  "stream_inv seen (c\<lparr>unretrievedInstantLocks := ls\<rparr>) out \<longleftrightarrow> stream_inv seen c out"
  "stream_inv seen c (out @ [InstantLockMessage l]) \<longleftrightarrow> stream_inv seen c out"
  by (simp_all add: stream_inv_def cached_hashes_def ordered_append)

lemma inv_seen: "stream_inv seen c out \<Longrightarrow> set seen \<subseteq> set seen' \<Longrightarrow> stream_inv seen' c out"
  unfolding stream_inv_def by blast

lemma inv_addTransaction:
  assumes "stream_inv seen c out"
  shows "stream_inv seen (fst (addTransaction tx c)) out"
proof -
  note inv = stream_invD [OF assms]
  have "stream_inv seen (c\<lparr>transactions := transactions c @ [(tx, False)]\<rparr>) out"
    by (rule stream_invI) (use inv in \<open>auto simp: cached_hashes_def\<close>)
  then show ?thesis using assms by (simp add: addTransaction_def Let_def)
qed

lemma remove_head:
  assumes "distinct (map key (x # xs))"
  shows "remove_last (\<lambda>y. key y = key x) (x # xs) = remove_last (\<lambda>y. key y = key x) xs"
  using remove_last_unique [OF assms, of "key x"] remove_last_unique [of key xs "key x"] assms by simp

definition push_block ::
    "(hash list \<Rightarrow> bool list \<Rightarrow> hash list) \<Rightarrow> core_block \<Rightarrow> hashes_cache \<Rightarrow> hashes_cache" where
  "push_block partial_tree b c =
    c\<lparr>merkleBlocks := merkleBlocks c @ [(build_merkle_block partial_tree b (matchedTransactionFlags b c), False)],
      cached_blocks := cached_blocks c @ [b]\<rparr>"

lemma addBlock_push:
  "addBlock pt b c =
    (let c1 = age_waiting_list c; c2 = push_block pt b c1
     in if True \<notin> set (matchedTransactionFlags b c1) then c1
        else if length (cached_blocks c2) > cacheSize
        then removeDataByBlock (hd (cached_blocks c2)) (c2\<lparr>cached_blocks := tl (cached_blocks c2)\<rparr>) else c2)"
  by (simp add: addBlock_def push_block_def Let_def)

lemma age_simps [simp]:
  "transactions (age_waiting_list c) = transactions c" "merkleBlocks (age_waiting_list c) = merkleBlocks c"
  "cached_blocks (age_waiting_list c) = cached_blocks c" "cached_hashes (age_waiting_list c) = cached_hashes c"
  "stream_inv seen (age_waiting_list c) out \<longleftrightarrow> stream_inv seen c out"
  "matchedTransactionFlags b (age_waiting_list c) = matchedTransactionFlags b c"
  by (simp_all add: age_waiting_list_def Let_def cached_hashes_def matchedTransactionFlags_def)

lemma built_merkle_block:
  "mb_header_hash (build_merkle_block pt b flags) = block_hash b"
  "mb_leaves (build_merkle_block pt b flags) = map tx_hash (block_txs b)"
  "set (matched_hashes (build_merkle_block pt b (matchedTransactionFlags b c))) \<subseteq> set (cached_hashes c)"
  by (auto simp: matched_hashes_def build_merkle_block_def Let_def matchedTransactionFlags_def zip_map_map
      zip_same_conv_map)

lemma inv_push:
  assumes "stream_inv seen c out" and apart: "blocks_apart (seen @ [b])"
  shows "stream_inv (seen @ [b]) (push_block pt b c) out"
proof -
  note inv = stream_invD [OF assms(1)] and mb = built_merkle_block [of pt b]
  have fresh: "block_hash b \<notin> block_hash ` set (cached_blocks c)"
    using inv(6) apart by (auto simp: blocks_apart_def)
  have unknown: "block_hash b \<noteq> mb_header_hash (fst x)" if "x \<in> set (merkleBlocks c)" for x
    using inv(3) [of "fst x" "snd x"] that fresh by (auto simp: merkle_known_def)
  show ?thesis
  proof (rule stream_invI)
    fix mb' r
    assume mem: "(mb', r) \<in> set (merkleBlocks (push_block pt b c))"
    then show "merkle_known (cached_blocks (push_block pt b c)) mb'"
      using inv(3) [of mb' r] mb(1,2) by (auto simp: push_block_def merkle_known_def)
    fix h
    assume "h \<in> set (matched_hashes mb')"
    then show "h \<in> set (cached_hashes (push_block pt b c)) \<or> h \<in> sent_hashes out"
      using inv(2) [of mb' r h] mem mb(3) [of c] by (auto simp: push_block_def cached_hashes_def)
  next
    show "distinct (map (mb_header_hash \<circ> fst) (merkleBlocks (push_block pt b c)))"
      using inv(4) mb(1) unknown by (auto simp: push_block_def)
  qed (use inv fresh in \<open>auto simp: push_block_def\<close>)
qed

lemma inv_addBlock:
  assumes inv: "stream_inv seen c out" and apart: "blocks_apart (seen @ [b])"
  shows "stream_inv (seen @ [b]) (addBlock pt b c) out"
proof -
  let ?c2 = "push_block pt b (age_waiting_list c)"
  have inv2: "stream_inv (seen @ [b]) ?c2 out" by (rule inv_push [OF _ apart]) (simp add: inv)
  have "stream_inv (seen @ [b]) (removeDataByBlock (hd (cached_blocks ?c2)) (?c2\<lparr>cached_blocks := tl (cached_blocks ?c2)\<rparr>)) out"
  proof -
    obtain b0 bs where blocks: "cached_blocks ?c2 = b0 # bs"
      by (cases "cached_blocks ?c2") (auto simp: push_block_def)
    have "removeDataByBlock b0 (?c2\<lparr>cached_blocks := bs\<rparr>) = removeDataByBlock b0 ?c2"
      using remove_head [of block_hash b0 bs] stream_invD(5) [OF inv2] blocks
      by (simp add: removeDataByBlock_def Let_def)
    moreover have "b0 \<in> set (seen @ [b])" using stream_invD(6) [OF inv2] blocks by auto
    ultimately show ?thesis using inv_remove [OF inv2 apart, of b0] by (simp add: blocks)
  qed
  moreover have "stream_inv (seen @ [b]) (age_waiting_list c) out"
    using inv_seen [OF inv, of "seen @ [b]"] by auto
  ultimately show ?thesis using inv2 by (simp add: addBlock_push Let_def)
qed

lemma inv_send:
  assumes "stream_inv seen (stream_cache s) (sent s)"
  shows "stream_inv seen (stream_cache (send_cached s)) (sent (send_cached s))"
proof -
  note inv = stream_invD [OF assms]
  let ?c = "stream_cache s"
  define txs where "txs = map fst (filter (\<lambda>(_, isRetrieved). \<not> isRetrieved) (transactions ?c))"
  define mbs where "mbs = map fst (filter (\<lambda>(_, isRetrieved). \<not> isRetrieved) (merkleBlocks ?c))"
  obtain ls where out: "sent (send_cached s) = sent s @ map TransactionMessage txs @ map InstantLockMessage ls @ map MerkleBlockMessage mbs"
    by (auto simp: send_cached_def getUnretrievedTransactions_def getUnretrievedInstantLocks_def
        getUnretrievedMerkleBlocks_def Let_def txs_def mbs_def)
  have cache: "transactions (stream_cache (send_cached s)) = map (\<lambda>(tx, _). (tx, True)) (transactions ?c)"
    "merkleBlocks (stream_cache (send_cached s)) = map (\<lambda>(mb, _). (mb, True)) (merkleBlocks ?c)"
    "cached_blocks (stream_cache (send_cached s)) = cached_blocks ?c"
    by (simp_all add: send_cached_def getUnretrievedTransactions_def getUnretrievedInstantLocks_def
        getUnretrievedMerkleBlocks_def Let_def)
  have all_sent: "tx_hash tx \<in> sent_hashes (sent s) \<union> tx_hash ` set txs" if "(tx, r) \<in> set (transactions ?c)" for tx r
    using that inv(1) [of tx] by (cases r) (force simp: txs_def)+
  then have cached_sent: "h \<in> sent_hashes (sent s) \<union> tx_hash ` set txs" if "h \<in> set (cached_hashes ?c)" for h
  proof -
    have "h \<in> (tx_hash \<circ> fst) ` set (transactions ?c)" using that by (simp add: cached_hashes_def)
    then obtain x where "h = (tx_hash \<circ> fst) x" "x \<in> set (transactions ?c)" by (rule imageE)
    then show ?thesis using all_sent [of "fst x" "snd x"] by simp
  qed
  have covered: "set (matched_hashes mb) \<subseteq> sent_hashes (sent s) \<union> tx_hash ` set txs" if "(mb, r) \<in> set (merkleBlocks ?c)" for mb r
    using inv(2) [OF that] cached_sent by blast
  show ?thesis
  proof (rule stream_invI)
    show "ordered_from {} (sent (send_cached s))"
    proof -
      have "\<forall>mb \<in> set mbs. set (matched_hashes mb) \<subseteq> sent_hashes (sent s) \<union> tx_hash ` set txs"
        using covered by (auto simp: mbs_def)
      then show ?thesis using inv(7) unfolding out by (simp add: ordered_append)
    qed
  next
    fix mb r
    assume "(mb, r) \<in> set (merkleBlocks (stream_cache (send_cached s)))"
    then obtain r' where mem: "(mb, r') \<in> set (merkleBlocks ?c)" by (auto simp: cache)
    then show "merkle_known (cached_blocks (stream_cache (send_cached s))) mb"
      using inv(3) by (simp add: cache)
    show "h \<in> set (cached_hashes (stream_cache (send_cached s))) \<or> h \<in> sent_hashes (sent (send_cached s))"
      if "h \<in> set (matched_hashes mb)" for h
      using covered [OF mem] that by (auto simp: out)
  next
    show "tx_hash tx \<in> sent_hashes (sent (send_cached s))" if "(tx, True) \<in> set (transactions (stream_cache (send_cached s)))" for tx
      using that all_sent by (auto simp: cache out)
    show "distinct (map (mb_header_hash \<circ> fst) (merkleBlocks (stream_cache (send_cached s))))"
      using inv(4) by (simp add: cache comp_def case_prod_unfold)
  qed (use inv(5,6) in \<open>simp_all add: cache\<close>)
qed

lemma inv_removeByHash:
  assumes "stream_inv seen c out" "blocks_apart seen"
  shows "stream_inv seen (removeDataByBlockHash h c) out"
proof (cases "filter (\<lambda>b. block_hash b = h) (cached_blocks c)")
  case (Cons b bs)
  then have "b \<in> set (filter (\<lambda>b. block_hash b = h) (cached_blocks c))" by simp
  then have "b \<in> set (cached_blocks c)" by simp
  then show ?thesis
    using Cons inv_remove [OF assms] stream_invD(6) [OF assms(1)] by (auto simp: removeDataByBlockHash_def)
qed (use assms in \<open>simp add: removeDataByBlockHash_def\<close>)

lemma emitter_test_cases:
  "fst (emitter_test bf tx s) = s \<or>
   (\<exists>f. fst (emitter_test bf tx s) = s\<lparr>bloom := f\<rparr> \<or>
        fst (emitter_test bf tx s) = s\<lparr>bloom := f, stream_cache := fst (addTransaction tx (stream_cache s))\<rparr>)"
  by (auto simp: emitter_test_def Let_def split: sum.splits)

lemma inv_emitter_test:
  assumes "stream_inv seen (stream_cache s) (sent s)"
  shows "stream_inv seen (stream_cache (fst (emitter_test bf tx s))) (sent (fst (emitter_test bf tx s)))"
  using emitter_test_cases [of bf tx s] assms inv_addTransaction [OF assms, of tx] by auto

lemma inv_emitter_test_all:
  "stream_inv seen (stream_cache s) (sent s) \<Longrightarrow>
    stream_inv seen (stream_cache (fst (emitter_test_all bf txs s))) (sent (fst (emitter_test_all bf txs s)))"
proof (induction txs arbitrary: s)
  case (Cons tx txs)
  obtain s' threw where s': "emitter_test bf tx s = (s', threw)" by fastforce
  then have "stream_inv seen (stream_cache s') (sent s')"
    using inv_emitter_test [OF Cons.prems, of bf tx] by simp
  then show ?case using Cons.IH [of s'] s' by (cases threw) simp_all
qed simp

lemma inv_on_block:
  assumes inv: "stream_inv seen (stream_cache s) (sent s)" and apart: "blocks_apart (seen @ [b])"
  shows "stream_inv (seen @ [b]) (stream_cache (on_block bf pt b s)) (sent (on_block bf pt b s))"
proof -
  define r where "r = (if cached_blocks (stream_cache s) = [] then emitter_test_all bf (block_txs b) s else (s, False))"
  have r: "stream_inv seen (stream_cache (fst r)) (sent (fst r))"
    using inv inv_emitter_test_all [OF inv] by (simp add: r_def)
  have "on_block bf pt b s = (if snd r then fst r else (fst r)\<lparr>stream_cache := addBlock pt b (stream_cache (fst r))\<rparr>)"
    by (simp add: on_block_def r_def [symmetric] split: prod.split bool.split)
  then show ?thesis
    using inv_addBlock [OF r apart] inv_seen [OF r, of "seen @ [b]"] by auto
qed

definition blocks_of :: "stream_event list \<Rightarrow> core_block list" where
  "blocks_of evs = concat (map (\<lambda>e. case e of BlockSeen b \<Rightarrow> [b] | _ \<Rightarrow> []) evs)"

lemma blocks_of_simps [simp]:
  "blocks_of [] = []"
  "blocks_of (evs @ evs') = blocks_of evs @ blocks_of evs'"
  "blocks_of (e # evs) = (case e of BlockSeen b \<Rightarrow> [b] | _ \<Rightarrow> []) @ blocks_of evs"
  by (simp_all add: blocks_of_def)

lemma blocks_apart_appendD: "blocks_apart (xs @ ys) \<Longrightarrow> blocks_apart xs"
  by (simp add: blocks_apart_def)

lemma inv_run:
  "blocks_apart (blocks_of evs) \<Longrightarrow>
    stream_inv (blocks_of evs) (stream_cache (run_subscription bf pt f evs)) (sent (run_subscription bf pt f evs))"
proof (induction evs rule: rev_induct)
  case Nil
  then show ?case
    by (simp add: run_subscription_def subscribeToNewTransactions_def new_cache_def stream_inv_def)
next
  case (snoc e evs)
  let ?s = "run_subscription bf pt f evs"
  have run: "run_subscription bf pt f (evs @ [x]) = subscription_step bf pt ?s x" for x
    by (simp add: run_subscription_def)
  have apart: "blocks_apart (blocks_of evs)" using snoc.prems blocks_apart_appendD by simp
  note inv = snoc.IH [OF apart]
  show ?case
  proof (cases e)
    case (TransactionSeen tx)
    show ?thesis using inv inv_emitter_test [OF inv] by (simp add: run TransactionSeen subscription_step_def)
  next
    case (BlockSeen b)
    show ?thesis
      using snoc.prems inv_on_block [OF inv] inv_seen [OF inv, of "blocks_of evs @ [b]"]
      by (auto simp: run BlockSeen subscription_step_def)
  next
    case (InstantLockSeen l tx)
    show ?thesis
      using inv by (auto simp: run InstantLockSeen subscription_step_def on_instant_lock_def addInstantLock_def
          removeTransactionHashFromInstantSendLockWaitingList_def split: sum.splits)
  next
    case (HistoricalBlockSent h)
    show ?thesis
      using inv inv_removeByHash [OF inv apart] by (simp add: run HistoricalBlockSent subscription_step_def)
  next
    case MempoolDataSent
    show ?thesis
      using inv inv_send [of "blocks_of evs" "?s\<lparr>mempool_sent := True\<rparr>"]
      by (simp add: run MempoolDataSent subscription_step_def)
  next
    case LoopTurn
    show ?thesis using inv inv_send [OF inv] by (simp add: run LoopTurn subscription_step_def)
  next
    case Cancelled
    show ?thesis using inv by (simp add: run Cancelled subscription_step_def on_disconnected_def)
  qed
qed

text \<open>C31. A client that gets the Merkle block of a block has got every transaction that it proves
  before, as long as the blocks Core publishes do not share transactions.\<close>

theorem transactions_before_merkle_block:
  assumes "blocks_apart (blocks_of evs)"
    and "sent (run_subscription bf partial_tree f evs) = pre @ MerkleBlockMessage mb # post"
    and "h \<in> set (matched_hashes mb)"
  shows "\<exists>tx. TransactionMessage tx \<in> set pre \<and> tx_hash tx = h"
  using ordered_merkle [OF _ assms(3)] stream_invD(7) [OF inv_run [OF assms(1), of bf partial_tree f]] assms(2)
  by metis

section \<open>A full cache drops what was not sent\<close>

text \<open>What a subscription will never send of a block: it is neither in the cache nor sent.\<close>

definition gone :: "core_block \<Rightarrow> 'f subscription \<Rightarrow> bool" where
  "gone b s \<longleftrightarrow>
     (\<forall>h \<in> set (cached_hashes (stream_cache s)). h \<notin> block_hashes b) \<and>
     (\<forall>(mb, r) \<in> set (merkleBlocks (stream_cache s)). mb_header_hash mb \<noteq> block_hash b) \<and>
     sent_hashes (sent s) \<inter> block_hashes b = {} \<and>
     (\<forall>mb. MerkleBlockMessage mb \<in> set (sent s) \<longrightarrow> mb_header_hash mb \<noteq> block_hash b)"

definition unrelated :: "core_block \<Rightarrow> stream_event \<Rightarrow> bool" where
  "unrelated b e \<longleftrightarrow>
     (case e of
        TransactionSeen tx \<Rightarrow> tx_hash tx \<notin> block_hashes b
      | BlockSeen b' \<Rightarrow> block_hash b' \<noteq> block_hash b \<and> block_hashes b' \<inter> block_hashes b = {}
      | _ \<Rightarrow> True)"

lemma set_remove_last: "set (remove_last P xs) \<subseteq> set xs"
proof -
  have "set (remove_first P ys) \<subseteq> set ys" for ys by (induction ys) auto
  then show ?thesis by (metis remove_last_def set_rev)
qed

lemma gone_shrinks:
  assumes "gone b s" "set (cached_hashes c) \<subseteq> set (cached_hashes (stream_cache s))"
    "set (merkleBlocks c) \<subseteq> set (merkleBlocks (stream_cache s))"
  shows "gone b (s\<lparr>stream_cache := c\<rparr>)"
  using assms unfolding gone_def by auto

lemma gone_removeDataByBlock:
  assumes "gone b s"
  shows "gone b (s\<lparr>stream_cache := removeDataByBlock b' (stream_cache s)\<rparr>)"
  by (rule gone_shrinks [OF assms])
    (auto simp: removeDataByBlock_def Let_def cached_hashes_def dest: subsetD [OF set_remove_last])

lemma gone_addTransaction:
  assumes "gone b s" "tx_hash tx \<notin> block_hashes b"
  shows "gone b (s\<lparr>bloom := f, stream_cache := fst (addTransaction tx (stream_cache s))\<rparr>)"
  using assms by (auto simp: gone_def addTransaction_def Let_def cached_hashes_def)

lemma gone_emitter_test:
  "gone b s \<Longrightarrow> tx_hash tx \<notin> block_hashes b \<Longrightarrow> gone b (fst (emitter_test bf tx s))"
  using emitter_test_cases [of bf tx s] gone_addTransaction [of b s tx] by (auto simp: gone_def)

lemma gone_emitter_test_all:
  "gone b s \<Longrightarrow> \<forall>tx \<in> set txs. tx_hash tx \<notin> block_hashes b \<Longrightarrow> gone b (fst (emitter_test_all bf txs s))"
proof (induction txs arbitrary: s)
  case (Cons tx txs)
  obtain s' threw where s': "emitter_test bf tx s = (s', threw)" by fastforce
  then have "gone b s'" using gone_emitter_test [OF Cons.prems(1), of tx bf] Cons.prems(2) by simp
  then show ?case using Cons s' by (cases threw) simp_all
qed simp

lemma gone_addBlock:
  assumes "gone b s" "block_hash b' \<noteq> block_hash b"
  shows "gone b (s\<lparr>stream_cache := addBlock pt b' (stream_cache s)\<rparr>)"
proof -
  let ?c2 = "push_block pt b' (age_waiting_list (stream_cache s))"
  have c2: "gone b (s\<lparr>stream_cache := ?c2\<lparr>cached_blocks := bs\<rparr>\<rparr>)" for bs
    using assms by (auto simp: gone_def push_block_def cached_hashes_def built_merkle_block)
  have "gone b (s\<lparr>stream_cache := ?c2\<rparr>)" using c2 [of "cached_blocks ?c2"] by simp
  moreover have "gone b (s\<lparr>stream_cache := removeDataByBlock b0 (?c2\<lparr>cached_blocks := bs\<rparr>)\<rparr>)" for b0 bs
    using gone_removeDataByBlock [OF c2 [of bs]] by simp
  moreover have "gone b (s\<lparr>stream_cache := age_waiting_list (stream_cache s)\<rparr>)"
    by (rule gone_shrinks [OF assms(1)]) simp_all
  ultimately show ?thesis by (simp add: addBlock_push Let_def)
qed

lemma gone_send: "gone b s \<Longrightarrow> gone b (send_cached s)"
  by (auto simp: gone_def send_cached_def getUnretrievedTransactions_def getUnretrievedInstantLocks_def
      getUnretrievedMerkleBlocks_def Let_def cached_hashes_def sent_hashes_def)

lemma gone_step:
  assumes s: "gone b s" and e: "unrelated b e"
  shows "gone b (subscription_step bf pt s e)"
proof (cases e)
  case (TransactionSeen tx)
  then show ?thesis using s e gone_emitter_test [OF s] by (simp add: subscription_step_def unrelated_def)
next
  case (BlockSeen b')
  define r where "r = (if cached_blocks (stream_cache s) = [] then emitter_test_all bf (block_txs b') s else (s, False))"
  have apart: "block_hash b' \<noteq> block_hash b" "block_hashes b' \<inter> block_hashes b = {}"
    using e BlockSeen by (simp_all add: unrelated_def)
  then have "\<forall>tx \<in> set (block_txs b'). tx_hash tx \<notin> block_hashes b" by (auto simp: block_hashes_def)
  then have r: "gone b (fst r)"
    using s gone_emitter_test_all [OF s, of "block_txs b'"] by (simp add: r_def)
  have "on_block bf pt b' s = (if snd r then fst r else (fst r)\<lparr>stream_cache := addBlock pt b' (stream_cache (fst r))\<rparr>)"
    by (simp add: on_block_def r_def [symmetric] split: prod.split bool.split)
  then show ?thesis
    using r s gone_addBlock [OF r apart(1)] by (simp add: subscription_step_def BlockSeen)
next
  case (InstantLockSeen l tx)
  then show ?thesis
    using s by (auto simp: subscription_step_def on_instant_lock_def gone_def addInstantLock_def cached_hashes_def
        removeTransactionHashFromInstantSendLockWaitingList_def split: sum.splits)
next
  case (HistoricalBlockSent h)
  then show ?thesis
    using s gone_removeDataByBlock [OF s] by (simp add: subscription_step_def removeDataByBlockHash_def split: list.split)
next
  case MempoolDataSent
  have "gone b (s\<lparr>mempool_sent := True\<rparr>)" using s by (simp add: gone_def)
  from gone_send [OF this] show ?thesis using MempoolDataSent by (simp add: subscription_step_def gone_def)
next
  case LoopTurn
  then show ?thesis using s gone_send [OF s] by (simp add: subscription_step_def)
next
  case Cancelled
  then show ?thesis using s by (simp add: subscription_step_def on_disconnected_def gone_def)
qed

lemma gone_steps:
  "gone b s \<Longrightarrow> \<forall>e \<in> set evs. unrelated b e \<Longrightarrow> gone b (foldl (subscription_step bf pt) s evs)"
  by (induction evs arbitrary: s) (simp_all add: gone_step)

definition not_started :: "'f subscription \<Rightarrow> bool" where
  "not_started s \<longleftrightarrow> sent s = [] \<and> \<not> mempool_sent s \<and> in_collection s \<and> connected s \<and> \<not> cancel_listener s"

lemma not_started_frame [simp]:
  "not_started (s\<lparr>stream_cache := c\<rparr>) \<longleftrightarrow> not_started s" "not_started (s\<lparr>bloom := f\<rparr>) \<longleftrightarrow> not_started s"
  by (simp_all add: not_started_def)

definition outer_state :: "'f subscription \<Rightarrow> bool \<times> bool \<times> bool \<times> bool \<times> stream_message list" where
  "outer_state s = (connected s, mempool_sent s, in_collection s, cancel_listener s, sent s)"

lemma outer_state_test: "outer_state (fst (emitter_test bf tx s)) = outer_state s"
  using emitter_test_cases [of bf tx s] by (auto simp: outer_state_def)

lemma outer_state_test_all: "outer_state (fst (emitter_test_all bf txs s)) = outer_state s"
proof (induction txs arbitrary: s)
  case (Cons tx txs)
  obtain s' threw where s': "emitter_test bf tx s = (s', threw)" by fastforce
  then have "outer_state s' = outer_state s" using outer_state_test [of bf tx s] by simp
  then show ?case using Cons.IH [of s'] s' by (cases threw) simp_all
qed simp

lemma outer_state_block: "outer_state (on_block bf pt b s) = outer_state s"
proof -
  define r where "r = (if cached_blocks (stream_cache s) = [] then emitter_test_all bf (block_txs b) s else (s, False))"
  have "outer_state (fst r) = outer_state s" using outer_state_test_all [of bf "block_txs b" s] by (simp add: r_def)
  moreover have "on_block bf pt b s = (if snd r then fst r else (fst r)\<lparr>stream_cache := addBlock pt b (stream_cache (fst r))\<rparr>)"
    by (simp add: on_block_def r_def [symmetric] split: prod.split bool.split)
  ultimately show ?thesis by (simp add: outer_state_def)
qed

lemma not_started_step:
  assumes "not_started s" "e \<noteq> MempoolDataSent"
  shows "not_started (subscription_step bf pt s e)"
proof (cases e)
  case (TransactionSeen tx)
  then show ?thesis
    using assms(1) outer_state_test [of bf tx s] by (simp add: subscription_step_def not_started_def outer_state_def)
next
  case (BlockSeen b)
  then show ?thesis
    using assms(1) outer_state_block [of bf pt b s] by (simp add: subscription_step_def not_started_def outer_state_def)
next
  case (InstantLockSeen l tx)
  then show ?thesis
    using assms(1) by (auto simp: subscription_step_def on_instant_lock_def not_started_def split: sum.splits)
qed (use assms in \<open>auto simp: subscription_step_def not_started_def\<close>)

lemma nothing_sent_before_start:
  "MempoolDataSent \<notin> set evs \<Longrightarrow> not_started (run_subscription bf pt f evs)"
proof (induction evs rule: rev_induct)
  case Nil
  then show ?case by (simp add: run_subscription_def subscribeToNewTransactions_def not_started_def)
next
  case (snoc e evs)
  then show ?case by (auto simp: run_subscription_def intro: not_started_step)
qed

text \<open>
  The cache holds ten blocks, and nothing of it is sent before the past and the memory pool are.
  When the eleventh block that concerns the client comes earlier, the first one is dropped with
  its transactions: the client never gets them from the stream.
\<close>

theorem overflow_loses_unsent:
  assumes "MempoolDataSent \<notin> set evs" "blocks_apart (blocks_of (evs @ [BlockSeen b]))"
    and "cached_blocks (stream_cache (run_subscription bf pt f evs)) = b0 # bs" "length bs = 9"
    and "True \<in> set (matchedTransactionFlags b (stream_cache (run_subscription bf pt f evs)))"
    and "\<forall>e \<in> set later. unrelated b0 e"
  shows "\<forall>m \<in> set (sent (run_subscription bf pt f (evs @ BlockSeen b # later))).
     (case m of
        TransactionMessage tx \<Rightarrow> tx_hash tx \<notin> block_hashes b0
      | MerkleBlockMessage mb \<Rightarrow> mb_header_hash mb \<noteq> block_hash b0
      | InstantLockMessage l \<Rightarrow> True)"
proof -
  let ?s = "run_subscription bf pt f evs"
  let ?s' = "subscription_step bf pt ?s (BlockSeen b)"
  have idle: "not_started ?s" by (rule nothing_sent_before_start [OF assms(1)])
  have apart: "blocks_apart (blocks_of evs)" "blocks_apart (blocks_of evs @ [b])"
    using assms(2) blocks_apart_appendD by simp_all
  let ?c2 = "push_block pt b (age_waiting_list (stream_cache ?s))"
  have step: "stream_cache ?s' = removeDataByBlock b0 (?c2\<lparr>cached_blocks := bs @ [b]\<rparr>)" "sent ?s' = []"
    using idle assms(3-5)
    by (simp_all add: subscription_step_def not_started_def on_block_def addBlock_push Let_def
        push_block_def cacheSize_def)
  have "stream_inv (blocks_of evs @ [b]) ?c2 (sent ?s)"
    by (rule inv_push [OF _ apart(2)]) (simp add: inv_run [OF apart(1)])
  then have "distinct (map (mb_header_hash \<circ> fst) (merkleBlocks ?c2))" by (rule stream_invD(4))
  then have "gone b0 ?s'"
    using remove_last_unique [of "mb_header_hash \<circ> fst" "merkleBlocks ?c2" "block_hash b0"]
    by (auto simp: gone_def step removeDataByBlock_def Let_def cached_hashes_def case_prod_unfold block_hashes_def)
  then have "gone b0 (foldl (subscription_step bf pt) ?s' later)"
    by (rule gone_steps [OF _ assms(6)])
  then have "gone b0 (run_subscription bf pt f (evs @ BlockSeen b # later))"
    by (simp add: run_subscription_def)
  then show ?thesis
    by (auto simp: gone_def sent_hashes_def split: stream_message.split)
qed

section \<open>How long an instant lock is waited for\<close>

lemma waiting_after_addBlock:
  "map_of (transactionHashesMap (addBlock pt b c)) = map_of (transactionHashesMap (age_waiting_list c))"
  "blocksProcessed (addBlock pt b c) = blocksProcessed c + 1"
  by (simp_all add: addBlock_push push_block_def removeDataByBlock_def Let_def age_waiting_list_def)

lemma map_of_kept:
  assumes "distinct (map fst m)"
  shows "map_of (filter (\<lambda>(_, v). P v) m) h = (case map_of m h of Some v \<Rightarrow> if P v then Some v else None | None \<Rightarrow> None)"
  using assms
proof (induction m)
  case (Cons x m)
  then show ?case
    by (cases x) (auto split: option.splits simp: map_of_eq_None_iff image_iff intro!: map_of_eq_None_iff [THEN iffD2])
qed simp

definition waits_since :: "hash \<Rightarrow> int \<Rightarrow> hashes_cache \<Rightarrow> bool" where
  "waits_since h n c \<longleftrightarrow> distinct (map fst (transactionHashesMap c)) \<and>
     map_of (transactionHashesMap c) h = (if blocksProcessed c - n \<le> BLOCKS_TO_STAY_IN_INSTANT_LOCK_CACHE then Some n else None)"

lemma waits_since_addBlock:
  assumes "waits_since h n c"
  shows "waits_since h n (addBlock pt b c)"
proof -
  let ?m = "transactionHashesMap c" and ?n = "blocksProcessed c + 1"
  have map: "transactionHashesMap (addBlock pt b c) =
      filter (\<lambda>(_, v). \<not> v < ?n - BLOCKS_TO_STAY_IN_INSTANT_LOCK_CACHE) ?m"
    by (simp add: addBlock_push push_block_def removeDataByBlock_def Let_def age_waiting_list_def)
  have "distinct (map fst ?m)" using assms by (simp add: waits_since_def)
  then show ?thesis
    using assms waiting_after_addBlock(2) [of pt b c]
    by (auto simp: waits_since_def map map_of_kept distinct_map_filter)
qed

text \<open>A transaction waits for its instant lock during the ten blocks after it was seen, and no longer.\<close>

theorem instant_lock_window:
  assumes "distinct (map fst (transactionHashesMap c))" "\<not> isInInstantLockCache (tx_hash tx) c"
  shows "isInInstantLockCache (tx_hash tx) (foldl (\<lambda>c b. addBlock pt b c) (fst (addTransaction tx c)) bs) \<longleftrightarrow>
    int (length bs) \<le> BLOCKS_TO_STAY_IN_INSTANT_LOCK_CACHE"
proof -
  let ?c = "fst (addTransaction tx c)"
  have added: "transactionHashesMap ?c = AList.update (tx_hash tx) (blocksProcessed c) (transactionHashesMap c)"
    "blocksProcessed ?c = blocksProcessed c"
    using assms(2) by (simp_all add: addTransaction_def Let_def isInInstantLockCache_def)
  then have start: "waits_since (tx_hash tx) (blocksProcessed c) ?c" "blocksProcessed ?c = blocksProcessed c"
    using assms(1) by (simp_all add: waits_since_def BLOCKS_TO_STAY_IN_INSTANT_LOCK_CACHE_def update_conv' distinct_update)
  have "waits_since h n (foldl (\<lambda>c b. addBlock pt b c) d bs) \<and>
      blocksProcessed (foldl (\<lambda>c b. addBlock pt b c) d bs) = blocksProcessed d + int (length bs)"
    if "waits_since h n d" for h n d
    using that by (induction bs arbitrary: d) (auto simp: waits_since_addBlock waiting_after_addBlock)
  from this [OF start(1)] show ?thesis
    using start(2) by (auto simp: waits_since_def isInInstantLockCache_def)
qed

section \<open>Subscriptions that are never removed\<close>

text \<open>
  The handler subscribes before it validates the request, and registers for \<open>cancelled\<close> after the
  past is sent. When it fails in between, or the client goes before, nobody tells the subscription:
  it stays in the collection, with its filter and a growing cache, whatever happens later.
\<close>

lemma stays_step:
  assumes "in_collection s" "connected s" "Cancelled \<noteq> e"
  shows "in_collection (subscription_step bf pt s e) \<and> connected (subscription_step bf pt s e)"
proof (cases e)
  case (TransactionSeen tx)
  then show ?thesis using assms outer_state_test [of bf tx s] by (simp add: subscription_step_def not_started_def outer_state_def)
next
  case (BlockSeen b)
  then show ?thesis using assms outer_state_block [of bf pt b s] by (simp add: subscription_step_def not_started_def outer_state_def)
qed (use assms in \<open>auto simp: subscription_step_def on_instant_lock_def send_cached_def getUnretrievedTransactions_def
    getUnretrievedInstantLocks_def getUnretrievedMerkleBlocks_def Let_def split: sum.splits\<close>)

lemma stays_run:
  assumes "in_collection s" "connected s" "Cancelled \<notin> set evs"
  shows "in_collection (foldl (subscription_step bf pt) s evs) \<and> connected (foldl (subscription_step bf pt) s evs)"
  using assms
proof (induction evs arbitrary: s)
  case (Cons e evs)
  then show ?case using stays_step [of s e bf pt] by simp
qed simp

theorem leaked_subscription:
  assumes "new_filter filter_bytes = Inr f" "rq_count rq = 0"
    and "MempoolDataSent \<notin> set early" "Cancelled \<notin> set later"
  shows "fst (subscribeToTransactionsWithProofsHandler new_filter core filter_bytes rq collection) =
      collection @ [subscribeToNewTransactions f] \<and>
    in_collection (run_subscription bf pt f (early @ later)) \<and> connected (run_subscription bf pt f (early @ later))"
proof -
  have "not_started (run_subscription bf pt f early)" by (rule nothing_sent_before_start [OF assms(3)])
  then have "in_collection (foldl (subscription_step bf pt) (run_subscription bf pt f early) later) \<and>
      connected (foldl (subscription_step bf pt) (run_subscription bf pt f early) later)"
    by (intro stays_run assms(4)) (simp_all add: not_started_def)
  then show ?thesis
    using assms(1,2) by (simp add: subscribeToTransactionsWithProofsHandler_def run_subscription_def)
qed

section \<open>A spend of a matched output matches\<close>

definition bloom_documented :: "'f bloom_api \<Rightarrow> bool" where
  "bloom_documented bf \<longleftrightarrow>
     (\<forall>f x. bf_contains bf (bf_insert bf f x) x) \<and>
     (\<forall>f x y. bf_contains bf f y \<longrightarrow> bf_contains bf (bf_insert bf f x) y) \<and>
     (\<forall>f x. bf_flags bf (bf_insert bf f x) = bf_flags bf f)"

lemma find_output_first:
  assumes "j < length outs" "outs ! j = Some sc" "filterContainsScript bf f (Some sc)"
    and "\<forall>k < j. \<exists>sc'. outs ! k = Some sc' \<and> \<not> filterContainsScript bf f (Some sc')"
  shows "find_output bf h i outs f =
    Inr (True, if isFilterUpdateNeeded bf f sc then bf_insert bf f (inputIndexToBuffer h (word_of_nat (i + j))) else f)"
  using assms
proof (induction outs arbitrary: i j)
  case (Cons s outs)
  show ?case
  proof (cases j)
    case 0
    then show ?thesis using Cons.prems by simp
  next
    case (Suc l)
    have "\<exists>sc'. s = Some sc' \<and> \<not> filterContainsScript bf f (Some sc')" using Cons.prems(4) Suc by force
    moreover have "\<forall>k < l. \<exists>sc'. outs ! k = Some sc' \<and> \<not> filterContainsScript bf f (Some sc')"
      using Cons.prems(4) Suc by force
    ultimately show ?thesis using Cons.IH [of l "Suc i"] Cons.prems(1-3) Suc by auto
  qed
qed simp

text \<open>
  When an output is the first of a transaction to match, and the flags of the filter ask for it,
  the filter learns its outpoint: from then on every transaction that spends it matches, unless
  testing that transaction fails on a script that does not parse.
\<close>

theorem matched_output_spend_seen:
  assumes bf: "bloom_documented bf" and unmatched: "\<not> checkHash bf f tx"
    and outs: "tx_outputs tx = Some outs" "j < length outs" "outs ! j = Some sc" "filterContainsScript bf f (Some sc)"
      "\<forall>k < j. \<exists>sc'. outs ! k = Some sc' \<and> \<not> filterContainsScript bf f (Some sc')"
    and update: "isFilterUpdateNeeded bf f sc"
    and spend: "tx_inputs tx2 = Some ins" "input \<in> set ins" "prevTxId input = Some (tx_hash tx)"
      "outputIndex input = word_of_nat j"
  shows "\<exists>f'. testTransactionAgainstFilter bf f tx = Inr (True, f') \<and>
    (\<forall>f2. (\<forall>x. bf_contains bf f' x \<longrightarrow> bf_contains bf f2 x) \<longrightarrow>
       (case testTransactionAgainstFilter bf f2 tx2 of Inl _ \<Rightarrow> True | Inr (matched, _) \<Rightarrow> matched))"
proof -
  let ?x = "inputIndexToBuffer (tx_hash tx) (word_of_nat j)"
  have grows: "bf_contains bf f3 y" if "find_output bf h i os f2 = Inr (m, f3)" "bf_contains bf f2 y" for h i os f2 m f3 y
    using that bf by (induction bf h i os f2 rule: find_output.induct)
      (auto simp: bloom_documented_def Let_def split: option.splits if_splits)
  have "testTransactionAgainstFilter bf f tx = Inr (True, bf_insert bf f ?x)"
    using find_output_first [OF outs(2-5), of "tx_hash tx" 0] unmatched outs(1) update
    by (simp add: testTransactionAgainstFilter_def checkOutputs_def)
  moreover have "case testTransactionAgainstFilter bf f2 tx2 of Inl _ \<Rightarrow> True | Inr (matched, _) \<Rightarrow> matched"
    if super: "\<forall>x. bf_contains bf (bf_insert bf f ?x) x \<longrightarrow> bf_contains bf f2 x" for f2
  proof -
    have x: "bf_contains bf f2 ?x" using super bf by (simp add: bloom_documented_def)
    have "checkInputs bf f3 tx2" if "bf_contains bf f3 ?x" for f3
      using that spend by (auto simp: checkInputs_def list_ex_iff intro!: bexI [of _ input])
    then show ?thesis
      using x by (auto simp: testTransactionAgainstFilter_def checkOutputs_def result_simps
          split: sum.split option.splits dest: grows)
  qed
  ultimately show ?thesis by blast
qed

section \<open>Concrete runs\<close>

text \<open>A filter without false positives: a list.\<close>

definition list_bloom :: "buffer list bloom_api" where
  "list_bloom = \<lparr> bf_contains = (\<lambda>f x. x \<in> set f), bf_insert = (\<lambda>f x. x # f), bf_flags = (\<lambda>_. 1),
     BLOOM_UPDATE_ALL = 1, BLOOM_UPDATE_P2PUBKEY_ONLY = 2 \<rparr>"

definition plain_tx :: "nat \<Rightarrow> core_tx" where
  "plain_tx i = \<lparr> tx_hash = [word_of_nat i], tx_outputs = Some [], tx_inputs = Some [] \<rparr>"

definition plain_block :: "nat \<Rightarrow> core_block" where
  "plain_block i = \<lparr> block_hash = [word_of_nat i], block_txs = [plain_tx i] \<rparr>"

definition watched :: "buffer list" where
  "watched = map (\<lambda>i. [word_of_nat i]) [0..<20]"

definition no_tree :: "hash list \<Rightarrow> bool list \<Rightarrow> hash list" where
  "no_tree leaves flags = []"

theorem transactions_before_merkle_block_witness:
  "let mb = build_merkle_block no_tree (plain_block 1) [True] in
   sent (run_subscription list_bloom no_tree watched [TransactionSeen (plain_tx 1), BlockSeen (plain_block 1), MempoolDataSent]) =
     [TransactionMessage (plain_tx 1), MerkleBlockMessage mb] \<and>
   (\<exists>tx. TransactionMessage tx \<in> set [TransactionMessage (plain_tx 1)] \<and> tx_hash tx = [1])"
proof -
  let ?evs = "[TransactionSeen (plain_tx 1), BlockSeen (plain_block 1), MempoolDataSent]"
  have run: "sent (run_subscription list_bloom no_tree watched ?evs) =
      [TransactionMessage (plain_tx 1)] @ MerkleBlockMessage (build_merkle_block no_tree (plain_block 1) [True]) # []"
    by code_simp
  have "blocks_apart (blocks_of ?evs)" by (simp add: blocks_apart_def)
  moreover have "[1] \<in> set (matched_hashes (build_merkle_block no_tree (plain_block 1) [True]))" by code_simp
  ultimately show ?thesis
    using transactions_before_merkle_block [OF _ run] run by (simp add: Let_def)
qed

definition ten_blocks :: "stream_event list" where
  "ten_blocks = concat (map (\<lambda>i. [TransactionSeen (plain_tx i), BlockSeen (plain_block i)]) [0..<10]) @ [TransactionSeen (plain_tx 10)]"

theorem overflow_loses_unsent_witness:
  "filter (\<lambda>m. case m of TransactionMessage tx \<Rightarrow> tx_hash tx = [0] | MerkleBlockMessage mb \<Rightarrow> mb_header_hash mb = [0] | _ \<Rightarrow> False)
     (sent (run_subscription list_bloom no_tree watched (ten_blocks @ BlockSeen (plain_block 10) # [MempoolDataSent]))) = []"
proof -
  have parts: "MempoolDataSent \<notin> set ten_blocks"
    by (auto simp: ten_blocks_def)
  have blocks: "blocks_of (ten_blocks @ [BlockSeen (plain_block 10)]) = map plain_block [0..<11]" by code_simp
  have "distinct (map block_hash (map plain_block [0..<11]))" by code_simp
  moreover have "block_hashes b = {block_hash b}" if "b \<in> set (map plain_block [0..<11])" for b
    using that by (auto simp: block_hashes_def plain_block_def plain_tx_def)
  ultimately have apart: "blocks_apart (blocks_of (ten_blocks @ [BlockSeen (plain_block 10)]))"
    unfolding blocks blocks_apart_def by (auto simp: distinct_map inj_on_def)
  have cached: "cached_blocks (stream_cache (run_subscription list_bloom no_tree watched ten_blocks)) =
      plain_block 0 # map plain_block [1..<10]"
    by code_simp
  have flags: "True \<in> set (matchedTransactionFlags (plain_block 10) (stream_cache (run_subscription list_bloom no_tree watched ten_blocks)))"
    by code_simp
  have "\<forall>e \<in> set [MempoolDataSent]. unrelated (plain_block 0) e" by (simp add: unrelated_def)
  from overflow_loses_unsent [OF parts apart cached _ flags this] show ?thesis
    by (auto simp: filter_empty_conv block_hashes_def plain_block_def plain_tx_def split: stream_message.split)
qed

theorem instant_lock_window_witness:
  "\<not> isInInstantLockCache [1] (foldl (\<lambda>c b. addBlock no_tree b c) (fst (addTransaction (plain_tx 1) new_cache))
     (map plain_block [2..<13]))"
  using instant_lock_window [of new_cache "plain_tx 1" no_tree "map plain_block [2..<13]"]
  by (simp add: new_cache_def isInInstantLockCache_def plain_tx_def BLOCKS_TO_STAY_IN_INSTANT_LOCK_CACHE_def)

definition failing_core :: core_api where
  "failing_core = \<lparr> getBlockHash = (\<lambda>_. Inl 0), getBlock = (\<lambda>_. Inl 0), getBestBlockHeight = Inl 0 \<rparr>"

theorem leaked_subscription_witness:
  "let rq = \<lparr> rq_fromBlockHash = [], rq_fromBlockHeight = 0, rq_count = 0 \<rparr> in
     subscribeToTransactionsWithProofsHandler Inr failing_core [1] rq ([] :: buffer subscription list) =
       ([subscribeToNewTransactions [1]], Inl (InvalidArgumentGrpcError ''minimum value for `fromBlockHeight` is 1'')) \<and>
     in_collection (run_subscription list_bloom no_tree [[1]] ([Cancelled] @ [BlockSeen (plain_block 1)]))"
proof -
  define rq where "rq = \<lparr> rq_fromBlockHash = [], rq_fromBlockHeight = 0, rq_count = 0 \<rparr>"
  have early: "MempoolDataSent \<notin> set [Cancelled]" "Cancelled \<notin> set [BlockSeen (plain_block 1)]" by simp_all
  have "fst (subscribeToTransactionsWithProofsHandler Inr failing_core [1] rq ([] :: buffer subscription list)) =
      [subscribeToNewTransactions [1]]"
    using leaked_subscription [where new_filter = Inr, OF _ _ early, of "[1]" "[1]" rq] by (simp add: rq_def)
  moreover have "snd (subscribeToTransactionsWithProofsHandler Inr failing_core [1] rq ([] :: buffer subscription list)) =
      Inl (InvalidArgumentGrpcError ''minimum value for `fromBlockHeight` is 1'')"
    by (simp add: rq_def subscribeToTransactionsWithProofsHandler_def resolve_history_def resolve_fromBlockHash_def)
  moreover have "in_collection (run_subscription list_bloom no_tree [[1]] ([Cancelled] @ [BlockSeen (plain_block 1)]))"
    using leaked_subscription [where new_filter = "\<lambda>_. Inr [[1]]" and rq = rq and bf = list_bloom and pt = no_tree, OF refl _ early]
    by (simp add: rq_def)
  ultimately show ?thesis by (simp add: Let_def rq_def prod_eq_iff)
qed

definition pay_tx :: core_tx where
  "pay_tx = \<lparr> tx_hash = [1],
     tx_outputs = Some [Some \<lparr> script_chunks = [\<lparr> opcodenum = 20, chunk_buf = Some [42] \<rparr>], isPublicKeyOut = False, isMultisigOut = False \<rparr>],
     tx_inputs = Some [] \<rparr>"

definition spend_tx :: core_tx where
  "spend_tx = \<lparr> tx_hash = [2], tx_outputs = Some [],
     tx_inputs = Some [\<lparr> prevTxId = Some [1], outputIndex = 0, input_script = None \<rparr>] \<rparr>"

theorem matched_output_spend_seen_witness:
  "testTransactionAgainstFilter list_bloom [inputIndexToBuffer [1] 0, [42]] spend_tx =
     Inr (True, [inputIndexToBuffer [1] 0, [42]])"
proof -
  let ?sc = "\<lparr> script_chunks = [\<lparr> opcodenum = 20, chunk_buf = Some [42] \<rparr>], isPublicKeyOut = False, isMultisigOut = False \<rparr>"
  have documented: "bloom_documented list_bloom" by (simp add: bloom_documented_def list_bloom_def)
  have "\<not> checkHash list_bloom [[42]] pay_tx" "isFilterUpdateNeeded list_bloom [[42]] ?sc"
    "filterContainsScript list_bloom [[42]] (Some ?sc)"
    "tx_outputs pay_tx = Some [Some ?sc]" "(0::nat) < length [Some ?sc]" "[Some ?sc] ! 0 = Some ?sc"
    by (simp_all add: checkHash_def list_bloom_def pay_tx_def isFilterUpdateNeeded_def filterContainsScript_def)
  from matched_output_spend_seen [OF documented this(1,4,5,6,3) _ this(2), of spend_tx "the (tx_inputs spend_tx)"
      "hd (the (tx_inputs spend_tx))"]
  obtain f' where f': "testTransactionAgainstFilter list_bloom [[42]] pay_tx = Inr (True, f')"
    "\<And>f2. \<forall>x. bf_contains list_bloom f' x \<longrightarrow> bf_contains list_bloom f2 x \<Longrightarrow>
      (case testTransactionAgainstFilter list_bloom f2 spend_tx of Inl _ \<Rightarrow> True | Inr (matched, _) \<Rightarrow> matched)"
    by (auto simp: spend_tx_def pay_tx_def)
  have "testTransactionAgainstFilter list_bloom [[42]] pay_tx = Inr (True, [inputIndexToBuffer [1] 0, [42]])"
    by code_simp
  then have "f' = [inputIndexToBuffer [1] 0, [42]]" using f'(1) by simp
  moreover have "\<exists>m. testTransactionAgainstFilter list_bloom [inputIndexToBuffer [1] 0, [42]] spend_tx =
      Inr (m, [inputIndexToBuffer [1] 0, [42]])"
    by (cases "checkHash list_bloom [inputIndexToBuffer [1] 0, [42]] spend_tx")
      (auto simp: testTransactionAgainstFilter_def checkOutputs_def spend_tx_def)
  ultimately show ?thesis using f'(2) [of f'] by auto
qed

end
