(* ===== verification/DapiClient.thy ===== *)
theory DapiClient
  imports Complex_Main Prelude
begin

text \<open>
  How a client reaches DAPI (\<open>packages/js-dapi-client/lib\<close>): addresses that are banned for a while
  after a fault (\<open>dapiAddressProvider/DAPIAddress.js\<close>, \<open>ListDAPIAddressProvider.js\<close>,
  \<open>SimplifiedMasternodeListDAPIAddressProvider.js\<close>), the two transports that retry a request on
  another address (\<open>transport/JsonRpcTransport\<close>, \<open>transport/GrpcTransport\<close>), what they make of an
  error, the provider of the masternode list, and how the options choose a provider.

  The network, the clock and the random choice of \<open>lodash/sample\<close> are the fields of an \<open>attempt\<close>; the
  codecs and the generated clients are parameters. A transport keeps its addresses in a list and
  names one by its position, the reference of the code.
\<close>

section \<open>Addresses\<close>

record dapi_address =
  addr_host :: string
  httpPort :: int
  grpcPort :: int
  proRegTxHash :: "string option"
  banCount :: nat
  banStartTime :: "int option"

definition DEFAULT_HTTP_PORT :: int where "DEFAULT_HTTP_PORT = 3000"
definition DEFAULT_GRPC_PORT :: int where "DEFAULT_GRPC_PORT = 3010"

text \<open>The constructor on an object: a missing host throws, a missing or zero port is the default.\<close>

definition new_DAPIAddress :: "string \<Rightarrow> int option \<Rightarrow> int option \<Rightarrow> string option \<Rightarrow> dapi_address option" where
  "new_DAPIAddress h http grpc hash =
    (if h = [] then None
     else Some \<lparr> addr_host = h,
       httpPort = (case http of None \<Rightarrow> DEFAULT_HTTP_PORT | Some p \<Rightarrow> if p = 0 then DEFAULT_HTTP_PORT else p),
       grpcPort = (case grpc of None \<Rightarrow> DEFAULT_GRPC_PORT | Some p \<Rightarrow> if p = 0 then DEFAULT_GRPC_PORT else p),
       proRegTxHash = hash, banCount = 0, banStartTime = None \<rparr>)"

definition markAsBanned :: "int \<Rightarrow> dapi_address \<Rightarrow> dapi_address" where
  "markAsBanned now a = a\<lparr>banCount := banCount a + 1, banStartTime := Some now\<rparr>"

definition markAsLive :: "dapi_address \<Rightarrow> dapi_address" where
  "markAsLive a = a\<lparr>banCount := 0, banStartTime := None\<rparr>"

definition isBanned :: "dapi_address \<Rightarrow> bool" where
  "isBanned a \<longleftrightarrow> banCount a > 0"

section \<open>The list of addresses\<close>

text \<open>Without a start time the sum is \<open>NaN\<close>, and the comparison false.\<close>

definition banPeriod :: "int \<Rightarrow> dapi_address \<Rightarrow> int" where
  "banPeriod baseBanTime a = \<lfloor>exp (real (banCount a) - 1)\<rfloor> * baseBanTime"

definition is_live :: "int \<Rightarrow> int \<Rightarrow> dapi_address \<Rightarrow> bool" where
  "is_live baseBanTime now a \<longleftrightarrow>
    \<not> isBanned a \<or> (case banStartTime a of None \<Rightarrow> False | Some t \<Rightarrow> now > t + banPeriod baseBanTime a)"

definition getLiveAddresses :: "int \<Rightarrow> int \<Rightarrow> dapi_address list \<Rightarrow> nat list" where
  "getLiveAddresses baseBanTime now addresses =
    filter (\<lambda>i. is_live baseBanTime now (addresses ! i)) [0..<length addresses]"

definition hasLiveAddresses :: "int \<Rightarrow> int \<Rightarrow> dapi_address list \<Rightarrow> bool" where
  "hasLiveAddresses baseBanTime now addresses \<longleftrightarrow> length (getLiveAddresses baseBanTime now addresses) > 0"

text \<open>\<open>sample\<close> of an empty list is \<open>undefined\<close>.\<close>

definition js_sample :: "nat \<Rightarrow> 'a list \<Rightarrow> 'a option" where
  "js_sample r xs = (if xs = [] then None else Some (xs ! (r mod length xs)))"

record provider_options =
  baseBanTime :: int
  regtestEnabled :: bool

datatype client_failure = ProviderTypeError | AddressHostMissing

definition list_getLiveAddress ::
    "provider_options \<Rightarrow> int \<Rightarrow> nat \<Rightarrow> dapi_address list \<Rightarrow> client_failure + dapi_address list \<times> nat option" where
  "list_getLiveAddress opts now r addresses =
    (let live = js_sample r (getLiveAddresses (baseBanTime opts) now addresses)
     in if regtestEnabled opts
        then case live of
            None \<Rightarrow> Inl ProviderTypeError
          | Some i \<Rightarrow> Inr (addresses[i := (addresses ! i)\<lparr>addr_host := ''127.0.0.1''\<rparr>], Some i)
        else Inr (addresses, live))"

section \<open>The addresses of the masternode list\<close>

text \<open>An entry of the list: hash of its registration, and its address.\<close>

definition addressesByRegProTxHashes :: "dapi_address list \<Rightarrow> string \<rightharpoonup> dapi_address" where
  "addressesByRegProTxHashes addresses =
    foldl (\<lambda>m a. case proRegTxHash a of
        None \<Rightarrow> m
      | Some h \<Rightarrow> (if h = [] then m else m(h \<mapsto> a))) Map.empty addresses"

definition update_address ::
    "(string \<rightharpoonup> dapi_address) \<Rightarrow> string \<times> string \<Rightarrow> client_failure + dapi_address" where
  "update_address m entry =
    (case m (fst entry) of
       Some a \<Rightarrow> Inr (a\<lparr>addr_host := snd entry\<rparr>)
     | None \<Rightarrow> (case new_DAPIAddress (snd entry) None None (Some (fst entry)) of
         None \<Rightarrow> Inl AddressHostMissing
       | Some a \<Rightarrow> Inr a))"

definition sml_getLiveAddress ::
    "provider_options \<Rightarrow> (string \<times> string) list \<Rightarrow> int \<Rightarrow> nat \<Rightarrow> dapi_address list \<Rightarrow>
      client_failure + dapi_address list \<times> nat option" where
  "sml_getLiveAddress opts entries now r addresses =
    rbind (rmap (update_address (addressesByRegProTxHashes addresses)) entries)
      (list_getLiveAddress opts now r)"

section \<open>Errors\<close>

datatype response_class =
    ResponseError | RetriableResponseError | ServerError | InternalServerError | TimeoutError
  | NotFoundError | InvalidRequestError | InvalidRequestDPPError

fun is_retriable :: "response_class \<Rightarrow> bool" where
  "is_retriable RetriableResponseError = True"
| "is_retriable ServerError = True"
| "is_retriable InternalServerError = True"
| "is_retriable TimeoutError = True"
| "is_retriable _ = False"

datatype error_code = NumberCode int | TextCode string

subsection \<open>JSON-RPC\<close>

text \<open>What \<open>requestJsonRpc\<close> throws: a status other than 200, an error of the protocol with its code,
  or what axios throws, with a code if it has one.\<close>

datatype json_failure =
    WrongHttpCodeError int string
  | JsonRpcError int string
  | AxiosError "string option" string

datatype 'd json_reply = HttpReply int string "(int \<times> string) option" 'd | HttpFailure "string option" string

definition requestJsonRpc :: "'d json_reply \<Rightarrow> json_failure + 'd" where
  "requestJsonRpc reply =
    (case reply of
       HttpFailure code message \<Rightarrow> Inl (AxiosError code message)
     | HttpReply status statusMessage rpc_error d \<Rightarrow>
         (if status \<noteq> 200 then Inl (WrongHttpCodeError status statusMessage)
          else case rpc_error of
              Some (code, message) \<Rightarrow> Inl (JsonRpcError code message)
            | None \<Rightarrow> Inr d))"

text \<open>\<open>error.code\<close>, which a \<open>WrongHttpCodeError\<close> does not have.\<close>

fun json_error_code :: "json_failure \<Rightarrow> error_code option" where
  "json_error_code (WrongHttpCodeError status message) = None"
| "json_error_code (JsonRpcError code message) = Some (NumberCode code)"
| "json_error_code (AxiosError code message) = map_option TextCode code"

fun createJsonTransportError :: "json_failure \<Rightarrow> response_class \<times> error_code option" where
  "createJsonTransportError (WrongHttpCodeError status message) = (ServerError, Some (NumberCode status))"
| "createJsonTransportError (JsonRpcError code message) =
    (if code \<noteq> - 32603 \<and> \<not> (code \<ge> - 32000 \<and> code \<le> - 32099)
     then (ResponseError, Some (NumberCode code)) else (RetriableResponseError, Some (NumberCode code)))"
| "createJsonTransportError (AxiosError code message) =
    (if code \<notin> {Some ''ECONNABORTED'', Some ''ECONNREFUSED'', Some ''ETIMEDOUT''}
     then (ResponseError, map_option TextCode code) else (RetriableResponseError, map_option TextCode code))"

section \<open>A request that is retried\<close>

datatype ('e, 'd) outcome =
    Result 'd
  | Thrown 'e
  | ResponseFailure response_class "error_code option"
  | MaxRetriesReachedError response_class "error_code option"
  | NoAvailableAddressesForRetryError response_class "error_code option"
  | NoAvailableAddressesError
  | ProviderFailure client_failure

text \<open>What the world does to one attempt: the clock and the random number when an address is asked
  for, the reply of the address, the clock when it is banned and when live addresses are looked for.\<close>

record 'reply attempt =
  at_now :: int
  at_random :: nat
  at_reply :: "nat \<Rightarrow> 'reply"
  at_ban_time :: int
  at_retry_time :: int

record transport =
  tr_addresses :: "dapi_address list"
  lastUsedAddress :: "nat option"

text \<open>
  \<open>request\<close> of both transports, with the parts they differ in as arguments: \<open>get_live\<close> and \<open>has_live\<close>
  are those of the provider, \<open>classify\<close> says what the reply is: a result, an error without a code
  that is thrown on, or an error that is classified, possibly failing itself; \<open>bans\<close> says whether a
  classified error bans the address, \<open>gives_up\<close> whether a class is thrown although it is retriable.
  It returns the transport, the addresses that were tried, and the outcome; \<open>None\<close> when it never ends.
\<close>

type_synonym get_live = "int \<Rightarrow> nat \<Rightarrow> dapi_address list \<Rightarrow> client_failure + dapi_address list \<times> nat option"
type_synonym has_live = "int \<Rightarrow> dapi_address list \<Rightarrow> bool"

datatype ('e, 'd) verdict = Good 'd | Unknown 'e | Classified response_class "error_code option" | Broken 'e

partial_function (option) request_loop ::
    "get_live \<Rightarrow> has_live \<Rightarrow> ('reply \<Rightarrow> ('e, 'd) verdict) \<Rightarrow> bool \<Rightarrow> (response_class \<Rightarrow> bool) \<Rightarrow>
      (nat \<Rightarrow> 'reply attempt) \<Rightarrow> nat \<Rightarrow> int \<Rightarrow> transport \<Rightarrow>
      (transport \<times> nat list \<times> ('e, 'd) outcome) option" where
  "request_loop get_live has_live classify bans gives_up world n retries t =
    (let now = world n in
     case get_live (at_now now) (at_random now) (tr_addresses t) of
       Inl e \<Rightarrow> Some (t, [], ProviderFailure e)
     | Inr (addresses, None) \<Rightarrow> Some (t\<lparr>tr_addresses := addresses\<rparr>, [], NoAvailableAddressesError)
     | Inr (addresses, Some i) \<Rightarrow>
         (let used = t\<lparr>tr_addresses := addresses, lastUsedAddress := Some i\<rparr>;
              banned = (if bans then used\<lparr>tr_addresses := addresses[i := markAsBanned (at_ban_time now) (addresses ! i)]\<rparr>
                        else used)
          in case classify (at_reply now i) of
               Good d \<Rightarrow> Some (used\<lparr>tr_addresses := addresses[i := markAsLive (addresses ! i)]\<rparr>, [i], Result d)
             | Unknown e \<Rightarrow> Some (used, [i], Thrown e)
             | Broken e \<Rightarrow> Some (banned, [i], Thrown e)
             | Classified cls code \<Rightarrow>
                 (if \<not> is_retriable cls \<or> gives_up cls then Some (banned, [i], ResponseFailure cls code)
                  else if retries = 0 then Some (banned, [i], MaxRetriesReachedError cls code)
                  else if \<not> has_live (at_retry_time now) (tr_addresses banned)
                  then Some (banned, [i], NoAvailableAddressesForRetryError cls code)
                  else Option.bind
                    (request_loop get_live has_live classify bans gives_up world (Suc n) (retries - 1) banned)
                    (\<lambda>(t', tried, out). Some (t', i # tried, out)))))"

definition json_classify :: "'d json_reply \<Rightarrow> (json_failure, 'd) verdict" where
  "json_classify reply =
    (case requestJsonRpc reply of
       Inr d \<Rightarrow> Good d
     | Inl error \<Rightarrow>
         (case json_error_code error of
            None \<Rightarrow> Unknown error
          | Some _ \<Rightarrow> (case createJsonTransportError error of (cls, code) \<Rightarrow> Classified cls code)))"

definition json_request ::
    "get_live \<Rightarrow> has_live \<Rightarrow> (nat \<Rightarrow> 'd json_reply attempt) \<Rightarrow> int \<Rightarrow> transport \<Rightarrow>
      (transport \<times> nat list \<times> (json_failure, 'd) outcome) option" where
  "json_request get_live has_live world retries t =
    request_loop get_live has_live json_classify True (\<lambda>_. False) world 0 retries t"

section \<open>gRPC\<close>

text \<open>
  Codes of gRPC (\<open>js-grpc-common/lib/server/error/GrpcErrorCodes.js\<close>), and the codes of the consensus
  errors of the protocol (\<open>js-dpp/lib/errors/consensus/codes.js\<close>).
\<close>

definition INVALID_REQUEST_CODES :: "int list" where
  "INVALID_REQUEST_CODES = [3, 9, 6, 16, 11, 7]"

definition SERVER_ERROR_CODES :: "int list" where
  "SERVER_ERROR_CODES = [8, 14, 1, 2, 15, 12, 10, 13]"

definition INTERNAL :: int where "INTERNAL = 13"

definition consensus_codes :: "int list" where
  "consensus_codes = [1000..1045] @ [2000..2003] @ [3000] @ [4000..4012]"

fun decimal :: "nat \<Rightarrow> string" where
  "decimal n = (if n < 10 then [char_of (48 + n)] else decimal (n div 10) @ [char_of (48 + n mod 10)])"

declare decimal.simps [simp del]

definition parse_digits :: "string \<Rightarrow> nat option" where
  "parse_digits s =
    (if s \<noteq> [] \<and> list_all (\<lambda>c. 48 \<le> (of_char c :: nat) \<and> of_char c \<le> (57 :: nat)) s
     then Some (foldl (\<lambda>n c. 10 * n + ((of_char c :: nat) - 48)) 0 s) else None)"

text \<open>The key a code is as a property name, and its value as a number, of which the numerals are modelled.\<close>

fun code_key :: "error_code \<Rightarrow> string" where
  "code_key (NumberCode n) = (if n < 0 then CHR ''-'' # decimal (nat (- n)) else decimal (nat n))"
| "code_key (TextCode s) = s"

fun code_number :: "error_code \<Rightarrow> int option" where
  "code_number (NumberCode n) = Some n"
| "code_number (TextCode s) = map_option int (parse_digits s)"

text \<open>
  Metadata is grpc-js' class in Node, with lists of values, and a plain object in a browser. The
  values are those of \<open>code\<close>, \<open>drive-error-data-bin\<close> and \<open>stack-bin\<close>; \<open>Number\<close> of the code of a plain
  object is given, \<open>None\<close> when it has none.
\<close>

datatype grpc_metadata =
    NativeMetadata "string list" "buffer list" "buffer list"
  | PlainMetadata "int option" "buffer option"

record grpc_failure =
  g_code :: "int option"
  g_metadata :: "grpc_metadata option"

datatype 'x grpc_exn = CborError 'x | MetadataTypeError | UnknownConsensusCode

record ('x, 'd) cbor_codec =
  cbor_decode :: "buffer \<Rightarrow> 'x + 'd"
  empty_data :: 'd
  put_stack :: "'d \<Rightarrow> 'd \<Rightarrow> 'd"
  drop_arguments :: "'d \<Rightarrow> 'd"

definition metadata_code :: "int \<Rightarrow> grpc_metadata option \<Rightarrow> error_code" where
  "metadata_code code m =
    (case m of
       Some (NativeMetadata (c # _) _ _) \<Rightarrow> TextCode c
     | Some (PlainMetadata (Some c) _) \<Rightarrow> NumberCode c
     | _ \<Rightarrow> NumberCode code)"

definition metadata_data :: "grpc_metadata option \<Rightarrow> buffer option" where
  "metadata_data m =
    (case m of
       Some (NativeMetadata _ (d # _) _) \<Rightarrow> Some d
     | Some (PlainMetadata _ d) \<Rightarrow> d
     | _ \<Rightarrow> None)"

definition createConsensusError :: "error_code \<Rightarrow> bool" where
  "createConsensusError code \<longleftrightarrow> code_key code \<in> (code_key \<circ> NumberCode) ` set consensus_codes"

text \<open>The stack of an internal error is read with a method that only grpc-js' metadata has, and put
  into the data.\<close>

definition internal_stack ::
    "('x, 'd) cbor_codec \<Rightarrow> grpc_metadata option \<Rightarrow> 'd \<Rightarrow> 'x grpc_exn + 'd" where
  "internal_stack cbor m d =
    (case m of
       None \<Rightarrow> Inr d
     | Some (PlainMetadata _ _) \<Rightarrow> Inl MetadataTypeError
     | Some (NativeMetadata _ _ []) \<Rightarrow> Inr d
     | Some (NativeMetadata _ _ (s # _)) \<Rightarrow>
         (case cbor_decode cbor s of Inl e \<Rightarrow> Inl (CborError e) | Inr v \<Rightarrow> Inr (put_stack cbor v d)))"

text \<open>The class of the error, its code and its data. A consensus error takes its arguments out of the
  data; the object built from them is not modelled.\<close>

definition createGrpcTransportError ::
    "('x, 'd) cbor_codec \<Rightarrow> int \<Rightarrow> grpc_metadata option \<Rightarrow> 'x grpc_exn + response_class \<times> error_code \<times> 'd" where
  "createGrpcTransportError cbor error_code m =
    (let code = metadata_code error_code m
     in rbind (case metadata_data m of
          None \<Rightarrow> Inr (empty_data cbor)
        | Some b \<Rightarrow> (case cbor_decode cbor b of Inl e \<Rightarrow> Inl (CborError e) | Inr d \<Rightarrow> Inr d)) (\<lambda>d.
        if code_key code = ''5'' then Inr (NotFoundError, NumberCode 5, d)
        else if code_key code = ''4'' then Inr (TimeoutError, NumberCode 4, d)
        else if code \<in> NumberCode ` set INVALID_REQUEST_CODES then Inr (InvalidRequestError, code, d)
        else if code = NumberCode INTERNAL
        then rbind (internal_stack cbor m d) (\<lambda>d'. Inr (InternalServerError, code, d'))
        else if code \<in> NumberCode ` set SERVER_ERROR_CODES then Inr (ServerError, code, d)
        else case code_number code of
            None \<Rightarrow> Inr (ResponseError, code, d)
          | Some n \<Rightarrow>
              (if n \<ge> 1000 \<and> n < 5000
               then if createConsensusError code
                 then Inr (InvalidRequestDPPError, NumberCode n, drop_arguments cbor d) else Inl UnknownConsensusCode
               else Inr (ResponseError, code, d))))"

datatype ('x, 'd) grpc_reply = GrpcResult 'd | GrpcError grpc_failure

datatype 'x grpc_thrown = UnknownGrpcError grpc_failure | TransportErrorFailed "'x grpc_exn"

definition grpc_classify ::
    "('x, 'd) cbor_codec \<Rightarrow> ('x, 'r) grpc_reply \<Rightarrow> ('x grpc_thrown, 'r) verdict" where
  "grpc_classify cbor reply =
    (case reply of
       GrpcResult r \<Rightarrow> Good r
     | GrpcError e \<Rightarrow>
         (case g_code e of
            None \<Rightarrow> Unknown (UnknownGrpcError e)
          | Some code \<Rightarrow>
              (case createGrpcTransportError cbor code (g_metadata e) of
                 Inl x \<Rightarrow> Broken (TransportErrorFailed x)
               | Inr (cls, c, _) \<Rightarrow> Classified cls (Some c))))"

text \<open>The transport over gRPC has no call of \<open>markAsBanned\<close>.\<close>

definition grpc_request ::
    "get_live \<Rightarrow> has_live \<Rightarrow> ('x, 'd) cbor_codec \<Rightarrow> bool \<Rightarrow> (nat \<Rightarrow> ('x, 'r) grpc_reply attempt) \<Rightarrow> int \<Rightarrow>
      transport \<Rightarrow> (transport \<times> nat list \<times> ('x grpc_thrown, 'r) outcome) option" where
  "grpc_request get_live has_live cbor throwDeadlineExceeded world retries t =
    request_loop get_live has_live (grpc_classify cbor) False
      (\<lambda>cls. throwDeadlineExceeded \<and> cls = TimeoutError) world 0 retries t"

section \<open>Attempts end, and do not repeat a banned address\<close>

definition after_failure :: "bool \<Rightarrow> 'reply attempt \<Rightarrow> dapi_address list \<Rightarrow> nat \<Rightarrow> transport \<Rightarrow> transport" where
  "after_failure bans now addresses i t =
    t\<lparr>tr_addresses := (if bans then addresses[i := markAsBanned (at_ban_time now) (addresses ! i)] else addresses),
      lastUsedAddress := Some i\<rparr>"

text \<open>A request stops at its first attempt, or goes on after a failure.\<close>

definition stopped_at ::
    "get_live \<Rightarrow> bool \<Rightarrow> 'reply attempt \<Rightarrow> transport \<Rightarrow> nat list \<Rightarrow> transport \<Rightarrow> bool" where
  "stopped_at get_live bans now t tried t' \<longleftrightarrow>
     (case get_live (at_now now) (at_random now) (tr_addresses t) of
        Inl e \<Rightarrow> tried = [] \<and> t' = t
      | Inr (addresses, None) \<Rightarrow> tried = [] \<and> tr_addresses t' = addresses
      | Inr (addresses, Some i) \<Rightarrow> tried = [i] \<and>
          tr_addresses t' \<in> {addresses, addresses[i := markAsLive (addresses ! i)],
            tr_addresses (after_failure bans now addresses i t)})"

lemma request_loop_cases:
  obtains (stop) t' tried out where
      "request_loop get_live has_live classify bans gives_up world n retries t = Some (t', tried, out)"
      "stopped_at get_live bans (world n) t tried t'"
    | (again) addresses i cls code where
      "get_live (at_now (world n)) (at_random (world n)) (tr_addresses t) = Inr (addresses, Some i)"
      "classify (at_reply (world n) i) = Classified cls code" "is_retriable cls" "\<not> gives_up cls" "retries \<noteq> 0"
      "has_live (at_retry_time (world n)) (tr_addresses (after_failure bans (world n) addresses i t))"
      "request_loop get_live has_live classify bans gives_up world n retries t =
         Option.bind (request_loop get_live has_live classify bans gives_up world (Suc n) (retries - 1)
           (after_failure bans (world n) addresses i t)) (\<lambda>(t', tried, out). Some (t', i # tried, out))"
proof -
  define now where "now = world n"
  define L where "L = request_loop get_live has_live classify bans gives_up world n retries t"
  note unfold = request_loop.simps [of get_live has_live classify bans gives_up world n retries t, folded now_def L_def, unfolded Let_def]
  note stop = stop [folded now_def L_def, unfolded stopped_at_def]
  consider (err) e where "get_live (at_now now) (at_random now) (tr_addresses t) = Inl e"
    | (none) addresses where "get_live (at_now now) (at_random now) (tr_addresses t) = Inr (addresses, None)"
    | (addr) addresses i where "get_live (at_now now) (at_random now) (tr_addresses t) = Inr (addresses, Some i)"
    by (metis obj_sumE option.exhaust surj_pair)
  then show thesis
  proof cases
    case err
    then show ?thesis using stop unfold by auto
  next
    case none
    then show ?thesis using stop unfold by auto
  next
    case addr
    let ?u = "after_failure bans now addresses i t"
    have u: "(if bans then t\<lparr>tr_addresses := addresses, lastUsedAddress := Some i,
        tr_addresses := addresses[i := markAsBanned (at_ban_time now) (addresses ! i)]\<rparr>
        else t\<lparr>tr_addresses := addresses, lastUsedAddress := Some i\<rparr>) = ?u"
      by (simp add: after_failure_def)
    show ?thesis
    proof (cases "classify (at_reply now i)")
      case (Classified cls code)
      show ?thesis
      proof (cases "\<not> is_retriable cls \<or> gives_up cls \<or> retries = 0 \<or> \<not> has_live (at_retry_time now) (tr_addresses ?u)")
        case True
        then have "\<exists>out. L = Some (?u, [i], out)"
          using addr Classified unfold u by auto
        then show ?thesis using stop addr by auto
      next
        case False
        then show ?thesis
          using again [folded now_def L_def, OF addr Classified] addr Classified unfold u by auto
      qed
    next
      case (Broken e)
      then have "L = Some (?u, [i], Thrown e)" using addr unfold u by simp
      then show ?thesis using stop addr by auto
    qed (use stop addr unfold in auto)
  qed
qed

lemma stopped_at_length: "stopped_at get_live bans now t tried t' \<Longrightarrow> length tried \<le> 1"
  unfolding stopped_at_def
  by (cases "get_live (at_now now) (at_random now) (tr_addresses t)"; cases "snd (projr (get_live (at_now now) (at_random now) (tr_addresses t)))")
    (simp_all split: prod.split_asm)

lemma request_loop_ends:
  "retries = int k \<Longrightarrow> \<exists>t' tried out. request_loop get_live has_live classify bans gives_up world n retries t = Some (t', tried, out) \<and>
     length tried \<le> k + 1"
proof (induction k arbitrary: retries n t)
  case 0
  show ?case
  proof (cases rule: request_loop_cases [of get_live has_live classify bans gives_up world n retries t])
    case (stop t' tried out)
    then show ?thesis using stopped_at_length by fastforce
  qed (use 0 in simp)
next
  case (Suc k)
  show ?case
  proof (cases rule: request_loop_cases [of get_live has_live classify bans gives_up world n retries t])
    case (stop t' tried out)
    then show ?thesis using stopped_at_length by fastforce
  next
    case (again addresses i cls code)
    obtain t' tried out where "request_loop get_live has_live classify bans gives_up world (Suc n) (retries - 1)
        (after_failure bans (world n) addresses i t) = Some (t', tried, out)" "length tried \<le> k + 1"
      using Suc.IH [of "retries - 1" "Suc n"] Suc.prems by fastforce
    then show ?thesis by (simp add: again(7))
  qed
qed

text \<open>C32. A request with a number of retries that is not negative ends, after at most one attempt more.\<close>

theorem request_attempts_bounded:
  assumes "0 \<le> retries"
  shows "(\<exists>t' tried out. json_request get_live has_live json_world retries t = Some (t', tried, out) \<and>
      int (length tried) \<le> retries + 1) \<and>
    (\<exists>t' tried out. grpc_request get_live has_live cbor throwDeadline grpc_world retries t = Some (t', tried, out) \<and>
      int (length tried) \<le> retries + 1)"
proof -
  obtain k where k: "retries = int k" using assms zero_le_imp_eq_int by blast
  show ?thesis
    using request_loop_ends [OF k, of get_live has_live json_classify True "\<lambda>_. False" json_world 0 t]
      request_loop_ends [OF k, of get_live has_live "grpc_classify cbor" False "\<lambda>cls. throwDeadline \<and> cls = TimeoutError" grpc_world 0 t]
    unfolding json_request_def grpc_request_def k by fastforce
qed

text \<open>A JSON-RPC failure is retried exactly when it is an internal error of the protocol, or one of
  three failures of the connection. Neither a status other than 200, which has no code, nor the
  server errors from -32000 to -32099, for which the test has its bounds swapped, are.\<close>

theorem json_retried_iff:
  "(\<exists>cls code. json_classify reply = Classified cls code \<and> is_retriable cls) \<longleftrightarrow>
     (\<exists>statusMessage message d. reply = HttpReply 200 statusMessage (Some (- 32603, message)) d) \<or>
     (\<exists>code message. reply = HttpFailure (Some code) message \<and> code \<in> {''ECONNABORTED'', ''ECONNREFUSED'', ''ETIMEDOUT''})"
  by (cases reply) (auto simp: json_classify_def requestJsonRpc_def split: option.splits if_splits)

section \<open>Bans\<close>

lemma list_get_live_index:
  assumes "list_getLiveAddress opts now r addresses = Inr (addresses', Some i)"
  shows "i < length addresses" "is_live (baseBanTime opts) now (addresses ! i)" "length addresses' = length addresses"
    "\<And>j. banCount (addresses' ! j) = banCount (addresses ! j) \<and> banStartTime (addresses' ! j) = banStartTime (addresses ! j)"
proof -
  let ?live = "getLiveAddresses (baseBanTime opts) now addresses"
  have live: "js_sample r ?live = Some i" and
    new: "addresses' = (if regtestEnabled opts then addresses[i := (addresses ! i)\<lparr>addr_host := ''127.0.0.1''\<rparr>] else addresses)"
    using assms by (auto simp: list_getLiveAddress_def Let_def split: if_splits option.splits)
  then have "i \<in> set ?live"
    by (auto simp: js_sample_def split: if_splits)
  then show i: "i < length addresses" "is_live (baseBanTime opts) now (addresses ! i)"
    by (auto simp: getLiveAddresses_def)
  show "length addresses' = length addresses" using new by simp
  show "banCount (addresses' ! j) = banCount (addresses ! j) \<and> banStartTime (addresses' ! j) = banStartTime (addresses ! j)" for j
    using new i(1) by (cases "j = i") auto
qed

lemma list_get_live_none: "list_getLiveAddress opts now r addresses = Inr (addresses', None) \<Longrightarrow> addresses' = addresses"
  by (auto simp: list_getLiveAddress_def Let_def split: if_splits option.splits)

lemma floor_exp_ge: "2 ^ n \<le> \<lfloor>exp (real n)\<rfloor>"
proof -
  have "(2::real) \<le> exp 1" using exp_ge_add_one_self [of 1] by simp
  then have "(2::real) ^ n \<le> exp 1 ^ n" by (rule power_mono) simp
  also have "\<dots> = exp (real n)" by (simp add: exp_of_nat_mult [symmetric])
  finally show ?thesis by (simp add: le_floor_iff)
qed

text \<open>An address that failed \<open>n + 1\<close> times in a row is banned for \<open>\<lfloor>e ^ n\<rfloor>\<close> times the base time after the
  last failure, which is at least \<open>2 ^ n\<close> times; then it is live again.\<close>

fun fail_at :: "int list \<Rightarrow> dapi_address \<Rightarrow> dapi_address" where
  "fail_at [] a = a"
| "fail_at (moment # ts) a = fail_at ts (markAsBanned moment a)"

lemma fail_at_append: "fail_at (ts @ [moment]) a = markAsBanned moment (fail_at ts a)"
  by (induction ts arbitrary: a) simp_all

lemma fail_at_count: "banCount (fail_at ts a) = banCount a + length ts"
  by (induction ts arbitrary: a) (simp_all add: markAsBanned_def)

theorem bans_grow_exponentially:
  assumes "0 \<le> base"
  shows "let a' = fail_at (ts @ [moment]) (markAsLive a) in
    (is_live base now a' \<longleftrightarrow> now > moment + \<lfloor>exp (real (length ts))\<rfloor> * base) \<and>
    (is_live base now a' \<longrightarrow> now > moment + 2 ^ length ts * base) \<and>
    is_live base now (markAsLive a')"
proof -
  let ?a = "fail_at (ts @ [moment]) (markAsLive a)"
  have count: "banCount ?a = length ts + 1" "banStartTime ?a = Some moment"
    by (simp_all add: fail_at_append fail_at_count) (simp_all add: fail_at_append markAsBanned_def fail_at_count markAsLive_def)
  then have live: "is_live base now ?a \<longleftrightarrow> now > moment + \<lfloor>exp (real (length ts))\<rfloor> * base"
    by (simp add: is_live_def isBanned_def banPeriod_def)
  moreover have "2 ^ length ts * base \<le> \<lfloor>exp (real (length ts))\<rfloor> * base"
    using floor_exp_ge assms by (rule mult_right_mono)
  moreover have "is_live base now (markAsLive ?a)" by (simp add: is_live_def isBanned_def markAsLive_def)
  ultimately show ?thesis unfolding Let_def by linarith
qed

text \<open>
  Over the addresses of a list, a request that is over before a first ban ends never asks the same
  address twice, so that its attempts are at most as many as there are addresses.
\<close>

definition banned_until :: "int \<Rightarrow> int \<Rightarrow> dapi_address \<Rightarrow> bool" where
  "banned_until base time a \<longleftrightarrow> banCount a > 0 \<and> (\<exists>t. banStartTime a = Some t \<and> time \<le> t + base)"

lemma banned_until_not_live:
  assumes "banned_until base time a" "0 \<le> base" "now \<le> time"
  shows "\<not> is_live base now a"
proof -
  obtain t where t: "banCount a > 0" "banStartTime a = Some t" "time \<le> t + base"
    using assms(1) by (auto simp: banned_until_def)
  have "1 \<le> \<lfloor>exp (real (banCount a) - 1)\<rfloor>"
    using t(1) by (simp add: le_floor_iff)
  then have "1 * base \<le> banPeriod base a" unfolding banPeriod_def using assms(2) by (rule mult_right_mono)
  then show ?thesis using t assms(3) by (simp add: is_live_def isBanned_def)
qed

lemma json_tries_unbanned:
  assumes "request_loop (list_getLiveAddress opts) has_live classify True gives_up world n retries t = Some (t', tried, out)"
    and base: "0 \<le> baseBanTime opts"
    and clock: "\<forall>k. start \<le> at_ban_time (world k) \<and> at_now (world k) \<le> start + baseBanTime opts"
  defines "free \<equiv> \<lambda>as. {j. j < length as \<and> \<not> banned_until (baseBanTime opts) (start + baseBanTime opts) (as ! j)}"
  shows "distinct tried \<and> set tried \<subseteq> free (tr_addresses t)"
  using assms(1)
proof (induction "length tried" arbitrary: n retries t tried)
  case (Suc l)
  have first_free: "i \<in> free (tr_addresses t)"
    if "list_getLiveAddress opts (at_now (world n)) (at_random (world n)) (tr_addresses t) = Inr (as, Some i)" for as i
    using list_get_live_index(1,2) [OF that] banned_until_not_live [OF _ base] clock by (auto simp: free_def)
  show ?case
  proof (cases rule: request_loop_cases [of "list_getLiveAddress opts" has_live classify True gives_up world n retries t])
    case (stop t'' tried' out')
    then have "stopped_at (list_getLiveAddress opts) True (world n) t tried t'" using Suc.prems by simp
    then show ?thesis
      using Suc.hyps(2) first_free by (auto simp: stopped_at_def split: sum.splits option.splits)
  next
    case (again as i cls code)
    let ?u = "after_failure True (world n) as i t"
    obtain tried2 where tried: "tried = i # tried2" and rest:
      "request_loop (list_getLiveAddress opts) has_live classify True gives_up world (Suc n) (retries - 1) ?u = Some (t', tried2, out)"
      using Suc.prems again(7) by (auto simp: Option.bind_eq_Some_conv)
    have IH: "distinct tried2" "set tried2 \<subseteq> free (tr_addresses ?u)"
      using Suc.hyps(1) [OF _ rest] Suc.hyps(2) tried by auto
    note as = list_get_live_index [OF again(1)]
    have "banned_until (baseBanTime opts) (start + baseBanTime opts) (tr_addresses ?u ! i)"
      using as(1,3) clock by (simp add: after_failure_def banned_until_def markAsBanned_def)
    then have "i \<notin> free (tr_addresses ?u)" by (simp add: free_def)
    moreover have "free (tr_addresses ?u) - {i} \<subseteq> free (tr_addresses t)"
      using as(3,4) by (auto simp: free_def after_failure_def banned_until_def)
    ultimately show ?thesis using IH first_free [OF again(1)] tried by auto
  qed
qed simp

text \<open>
  While no ban runs out, a JSON-RPC request tries every address at most once, and so makes at most as
  many attempts as there are addresses.
\<close>

theorem json_retry_uses_other_addresses:
  assumes "json_request (list_getLiveAddress opts) has_live world retries t = Some (t', tried, out)"
    and "0 \<le> baseBanTime opts"
    and "\<forall>k. start \<le> at_ban_time (world k) \<and> at_now (world k) \<le> start + baseBanTime opts"
  shows "distinct tried \<and> length tried \<le> length (tr_addresses t)"
proof -
  have tried: "distinct tried" "set tried \<subseteq> {..<length (tr_addresses t)}"
    using json_tries_unbanned [OF assms(1) [unfolded json_request_def] assms(2,3)] by auto
  have "length tried = card (set tried)" using tried(1) by (simp add: distinct_card)
  also have "\<dots> \<le> length (tr_addresses t)" using card_mono [OF _ tried(2)] by simp
  finally show ?thesis using tried(1) by simp
qed

lemma grpc_keeps_bans:
  assumes "request_loop (list_getLiveAddress opts) has_live classify False gives_up world n retries t = Some (t', tried, out)"
    and "is_live (baseBanTime opts) now (tr_addresses t ! j)" "j < length (tr_addresses t)"
  shows "is_live (baseBanTime opts) now (tr_addresses t' ! j)"
  using assms
proof (induction "length tried" arbitrary: n retries t tried)
  case 0
  then show ?case
    by (cases rule: request_loop_cases [of "list_getLiveAddress opts" has_live classify False gives_up world n retries t])
      (auto simp: stopped_at_def Option.bind_eq_Some_conv split: sum.splits option.splits dest!: list_get_live_none)
next
  case (Suc l)
  have same: "is_live (baseBanTime opts) now (as ! j)" "j < length as"
    if "list_getLiveAddress opts (at_now (world n)) (at_random (world n)) (tr_addresses t) = Inr (as, Some i)" for as i
    using list_get_live_index(3,4) [OF that] Suc.prems(2,3)
    by (auto simp: is_live_def isBanned_def banPeriod_def split: option.splits)
  have live: "is_live (baseBanTime opts) now (markAsLive a)" for a
    by (simp add: is_live_def isBanned_def markAsLive_def)
  then have revived: "is_live (baseBanTime opts) now (as[y := markAsLive (as ! y)] ! j)"
    if "is_live (baseBanTime opts) now (as ! j)" "j < length as" for as y
    using that by (cases "y = j") auto
  show ?case
  proof (cases rule: request_loop_cases [of "list_getLiveAddress opts" has_live classify False gives_up world n retries t])
    case (stop t'' tried' out')
    then have "stopped_at (list_getLiveAddress opts) False (world n) t tried t'" using Suc.prems by simp
    then show ?thesis
      using Suc.hyps(2) same revived
      by (auto simp: stopped_at_def after_failure_def split: sum.splits option.splits)
  next
    case (again as i cls code)
    let ?u = "after_failure False (world n) as i t"
    obtain tried2 where tried: "tried = i # tried2" and rest:
      "request_loop (list_getLiveAddress opts) has_live classify False gives_up world (Suc n) (retries - 1) ?u = Some (t', tried2, out)"
      using Suc.prems(1) again(7) by (auto simp: Option.bind_eq_Some_conv)
    have "l = length tried2" using Suc.hyps(2) tried by simp
    moreover have "tr_addresses ?u = as" by (simp add: after_failure_def)
    ultimately show ?thesis using Suc.hyps(1) [OF _ rest] same [OF again(1)] by simp
  qed
qed

text \<open>
  The transport over gRPC bans nothing: whatever fails, every address is afterwards as live as
  before, and a lone faulty address is asked again until the retries are used up.
\<close>

theorem grpc_never_bans:
  assumes "grpc_request (list_getLiveAddress opts) (hasLiveAddresses (baseBanTime opts)) cbor throwDeadline world retries t =
      Some (t', tried, out)"
    and "is_live (baseBanTime opts) now (tr_addresses t ! j)" "j < length (tr_addresses t)"
  shows "is_live (baseBanTime opts) now (tr_addresses t' ! j)"
  using grpc_keeps_bans [OF assms(1) [unfolded grpc_request_def] assms(2,3)] .

section \<open>Addresses from the masternode list\<close>

lemma new_DAPIAddress_Some:
  "new_DAPIAddress h http grpc hash = Some a \<Longrightarrow> addr_host a = h \<and> proRegTxHash a = hash \<and> \<not> isBanned a"
  by (auto simp: new_DAPIAddress_def isBanned_def split: if_splits)

lemma rmap_update:
  assumes "rmap (update_address m) entries = Inr as"
  shows "list_all2 (\<lambda>entry a. update_address m entry = Inr a) entries as"
  using assms by (induction entries arbitrary: as) (auto simp: result_simps)

lemma addressesByRegProTxHashes_snoc:
  "addressesByRegProTxHashes (as @ [a]) =
    (case proRegTxHash a of
       None \<Rightarrow> addressesByRegProTxHashes as
     | Some h \<Rightarrow> if h = [] then addressesByRegProTxHashes as else (addressesByRegProTxHashes as)(h \<mapsto> a))"
  by (simp add: addressesByRegProTxHashes_def split: option.split)

lemma addressesByRegProTxHashes_hash:
  "addressesByRegProTxHashes as h = Some a \<Longrightarrow> a \<in> set as \<and> proRegTxHash a = Some h"
  by (induction as arbitrary: a rule: rev_induct)
    (auto simp: addressesByRegProTxHashes_def addressesByRegProTxHashes_snoc split: option.splits if_splits)

lemma addressesByRegProTxHashes_member:
  assumes "a \<in> set as" "proRegTxHash a = Some h" "h \<noteq> []" "distinct (map proRegTxHash as)"
  shows "addressesByRegProTxHashes as h = Some a"
  using assms
proof (induction as rule: rev_induct)
  case (snoc b as)
  then show ?case
    by (cases "b = a") (auto simp: addressesByRegProTxHashes_snoc split: option.splits intro: rev_image_eqI)
qed simp

text \<open>
  After an update the addresses are those of the valid masternodes, in their order and at their
  current hosts; a masternode that was in the list keeps its ports and its bans, the others start
  unbanned on the default ports.
\<close>

theorem sml_update_keeps_bans:
  assumes "sml_getLiveAddress opts entries now r addresses = Inr (addresses', i)"
    and "distinct (map proRegTxHash addresses)" "\<not> regtestEnabled opts" "k < length entries" "fst (entries ! k) \<noteq> []"
  shows "length addresses' = length entries \<and> addr_host (addresses' ! k) = snd (entries ! k) \<and>
     proRegTxHash (addresses' ! k) = Some (fst (entries ! k)) \<and>
     (\<forall>a. a \<in> set addresses \<longrightarrow> proRegTxHash a = Some (fst (entries ! k)) \<longrightarrow>
        addresses' ! k = a\<lparr>addr_host := snd (entries ! k)\<rparr>) \<and>
     (Some (fst (entries ! k)) \<notin> proRegTxHash ` set addresses \<longrightarrow> \<not> isBanned (addresses' ! k))"
proof -
  let ?m = "addressesByRegProTxHashes addresses"
  obtain as where as: "rmap (update_address ?m) entries = Inr as" and new: "addresses' = as"
    using assms(1,3) by (auto simp: sml_getLiveAddress_def result_simps list_getLiveAddress_def Let_def)
  have upd: "update_address ?m (entries ! k) = Inr (as ! k)" and len: "length as = length entries"
    using rmap_update [OF as] assms(4) by (auto dest: list_all2_nthD list_all2_lengthD)
  have known: "?m (fst (entries ! k)) = Some a" if "a \<in> set addresses" "proRegTxHash a = Some (fst (entries ! k))" for a
    using addressesByRegProTxHashes_member [OF that assms(5,2)] .
  show ?thesis
  proof (cases "?m (fst (entries ! k))")
    case None
    then have "Some (fst (entries ! k)) \<notin> proRegTxHash ` set addresses" using known by force
    moreover have "new_DAPIAddress (snd (entries ! k)) None None (Some (fst (entries ! k))) = Some (as ! k)"
      using upd None by (auto simp: update_address_def split: option.splits)
    ultimately show ?thesis
      using len new by (auto dest: new_DAPIAddress_Some intro: rev_image_eqI)
  next
    case (Some b)
    then have b: "as ! k = b\<lparr>addr_host := snd (entries ! k)\<rparr>" "b \<in> set addresses" "proRegTxHash b = Some (fst (entries ! k))"
      using upd addressesByRegProTxHashes_hash [OF Some] by (auto simp: update_address_def)
    have "as ! k = a\<lparr>addr_host := snd (entries ! k)\<rparr>" if "a \<in> set addresses" "proRegTxHash a = Some (fst (entries ! k))" for a
      using known [OF that] Some b(1) by simp
    moreover have "Some (fst (entries ! k)) \<in> proRegTxHash ` set addresses"
      using b(2,3) by (metis image_eqI)
    moreover have "addr_host (as ! k) = snd (entries ! k)" "proRegTxHash (as ! k) = Some (fst (entries ! k))"
      using b by simp_all
    ultimately show ?thesis unfolding new using len by blast
  qed
qed

text \<open>A list for a local network without live addresses throws a \<open>TypeError\<close> where the transport
  would say that no address is available.\<close>

lemma regtest_without_live_addresses:
  assumes "getLiveAddresses (baseBanTime opts) now addresses = []"
  shows "list_getLiveAddress opts now r addresses =
    (if regtestEnabled opts then Inl ProviderTypeError else Inr (addresses, None))"
  using assms by (simp add: list_getLiveAddress_def js_sample_def)

section \<open>The provider of the masternode list\<close>

record 'l sml_provider =
  simplifiedMNList :: 'l
  lastUpdateDate :: int
  baseBlockHash :: string

datatype 'e diff_error = PreviousBlockHashMismatch | OtherDiffError 'e

definition NULL_HASH :: string where
  "NULL_HASH = replicate 64 (CHR ''0'')"

definition new_sml_provider :: "'l \<Rightarrow> 'l sml_provider" where
  "new_sml_provider empty_list = \<lparr> simplifiedMNList = empty_list, lastUpdateDate = 0, baseBlockHash = NULL_HASH \<rparr>"

text \<open>
  \<open>fetch n base\<close> is the answer to the \<open>n\<close>-th request for the difference to the best block from \<open>base\<close>:
  the new block hash and the difference, or what the transport throws. \<open>applyDiff\<close> is dashcore-lib's.
\<close>

record ('l, 'd, 'e) sml_env =
  sml_empty :: 'l
  sml_fetch :: "nat \<Rightarrow> string \<Rightarrow> 'e + string \<times> 'd"
  sml_applyDiff :: "'l \<Rightarrow> 'd \<Rightarrow> 'e diff_error + 'l"
  sml_clock :: "nat \<Rightarrow> int"

partial_function (option) updateMasternodeList ::
    "('l, 'd, 'e) sml_env \<Rightarrow> nat \<Rightarrow> 'l sml_provider \<Rightarrow> (nat \<times> ('e + 'l sml_provider)) option" where
  "updateMasternodeList env n p =
    (case sml_fetch env n (baseBlockHash p) of
       Inl e \<Rightarrow> Some (Suc n, Inl e)
     | Inr (blockHash, diff) \<Rightarrow>
         (case sml_applyDiff env (simplifiedMNList p) diff of
            Inr l \<Rightarrow> Some (Suc n, Inr (p\<lparr>simplifiedMNList := l, baseBlockHash := blockHash, lastUpdateDate := sml_clock env n\<rparr>))
          | Inl PreviousBlockHashMismatch \<Rightarrow> updateMasternodeList env (Suc n) (new_sml_provider (sml_empty env))
          | Inl (OtherDiffError e) \<Rightarrow> Some (Suc n, Inl e)))"

definition needsUpdate :: "int \<Rightarrow> int \<Rightarrow> 'l sml_provider \<Rightarrow> bool" where
  "needsUpdate updateInterval now p \<longleftrightarrow> now - updateInterval > lastUpdateDate p"

definition getSimplifiedMNList ::
    "('l, 'd, 'e) sml_env \<Rightarrow> int \<Rightarrow> int \<Rightarrow> 'l sml_provider \<Rightarrow> (nat \<times> ('e + 'l sml_provider)) option" where
  "getSimplifiedMNList env updateInterval now p =
    (if needsUpdate updateInterval now p then updateMasternodeList env 0 p else Some (0, Inr p))"

text \<open>A difference from the null hash fits an empty list.\<close>

definition sml_documented :: "('l, 'd, 'e) sml_env \<Rightarrow> bool" where
  "sml_documented env \<longleftrightarrow>
     (\<forall>n blockHash diff. sml_fetch env n NULL_HASH = Inr (blockHash, diff) \<longrightarrow>
        sml_applyDiff env (sml_empty env) diff \<noteq> Inl PreviousBlockHashMismatch)"

text \<open>An update ends after at most two requests, also when the chain was reorganised below the base.\<close>

theorem sml_update_ends:
  assumes "sml_documented env"
  shows "\<exists>n result. getSimplifiedMNList env updateInterval now p = Some (n, result) \<and> n \<le> 2"
proof -
  have fresh: "\<exists>result. updateMasternodeList env n (new_sml_provider (sml_empty env)) = Some (Suc n, result)" for n
    using assms by (subst updateMasternodeList.simps)
      (auto simp: new_sml_provider_def sml_documented_def split: sum.split diff_error.split)
  have "\<exists>n result. updateMasternodeList env 0 p = Some (n, result) \<and> n \<le> 2"
    using fresh [of 1] by (subst updateMasternodeList.simps) (auto split: sum.split diff_error.split)
  then show ?thesis by (simp add: getSimplifiedMNList_def)
qed

section \<open>Choosing a provider\<close>

record client_options =
  op_network :: "string option"
  op_provider :: bool
  op_dapiAddresses :: "string list option"
  op_seeds :: "string list option"

datatype provider_choice = GivenProvider | AddressList "string list" | MasternodeList "string list" | NoProvider

text \<open>The networks with a configuration, what it sets, and the network of the local one.\<close>

definition networkConfigs :: "string \<Rightarrow> client_options option" where
  "networkConfigs network =
    (if network \<in> {''testnet'', ''evonet''}
     then Some \<lparr> op_network = Some network, op_provider = False, op_dapiAddresses = None,
       op_seeds = Some (map (\<lambda>i. ''seed-'' @ i @ ''.'' @ network @ ''.networks.dash.org'') [''1'', ''2'', ''3'', ''4'', ''5'']) \<rparr>
     else if network = ''local''
     then Some \<lparr> op_network = Some ''regtest'', op_provider = False, op_dapiAddresses = Some [''127.0.0.1''], op_seeds = None \<rparr>
     else None)"

definition merge_options :: "client_options \<Rightarrow> client_options \<Rightarrow> client_options" where
  "merge_options options config =
    \<lparr> op_network = op_network config, op_provider = op_provider options,
      op_dapiAddresses = (case op_dapiAddresses config of None \<Rightarrow> op_dapiAddresses options | some \<Rightarrow> some),
      op_seeds = (case op_seeds config of None \<Rightarrow> op_seeds options | some \<Rightarrow> some) \<rparr>"

text \<open>\<open>None\<close> stands for an option that is not given; an empty list is truthy. \<open>known\<close> is dashcore-lib's
  table of networks. The function calls itself once at most, with the options of a configured network.\<close>

definition explicit_provider :: "(string \<Rightarrow> bool) \<Rightarrow> client_options \<Rightarrow> string + provider_choice option" where
  "explicit_provider known options =
    (if (case op_network options of None \<Rightarrow> False | Some n \<Rightarrow> \<not> known n) then Inl ''Invalid network''
     else if op_provider options
     then if op_dapiAddresses options \<noteq> None then Inl ''Can't use 'dapiAddresses' with 'dapiAddressProvider' option''
       else if op_seeds options \<noteq> None then Inl ''Can't use 'seeds' with 'dapiAddressProvider' option''
       else Inr (Some GivenProvider)
     else case op_dapiAddresses options of
         Some addresses \<Rightarrow>
           (if op_seeds options \<noteq> None then Inl ''Can't use 'seeds' with 'dapiAddresses' option''
            else Inr (Some (AddressList addresses)))
       | None \<Rightarrow> (case op_seeds options of
             Some seeds \<Rightarrow> Inr (Some (MasternodeList seeds))
           | None \<Rightarrow> Inr None))"

definition createDAPIAddressProviderFromOptions :: "(string \<Rightarrow> bool) \<Rightarrow> client_options \<Rightarrow> string + provider_choice" where
  "createDAPIAddressProviderFromOptions known options =
    rbind (explicit_provider known options) (\<lambda>choice.
      case choice of
        Some c \<Rightarrow> Inr c
      | None \<Rightarrow>
          (case op_network options of
             None \<Rightarrow> Inr NoProvider
           | Some network \<Rightarrow>
               (case networkConfigs network of
                  None \<Rightarrow> Inl ''There is no connection config for network''
                | Some config \<Rightarrow>
                    rbind (explicit_provider known (merge_options options config)) (\<lambda>choice.
                      Inr (case choice of Some c \<Rightarrow> c | None \<Rightarrow> NoProvider)))))"

section \<open>Codes as text\<close>

lemma parse_digits_snoc:
  assumes "parse_digits s = Some n" "m < 10"
  shows "parse_digits (s @ [char_of (48 + m)]) = Some (10 * n + m)"
  using assms by (auto simp: parse_digits_def list_all_iff split: if_splits)

lemma parse_decimal: "parse_digits (decimal n) = Some n"
proof (induction n rule: decimal.induct)
  case (1 n)
  show ?case
  proof (cases "n < 10")
    case True
    then show ?thesis by (subst decimal.simps) (simp add: parse_digits_def)
  next
    case False
    then have "parse_digits (decimal (n div 10) @ [char_of (48 + n mod 10)]) = Some (10 * (n div 10) + n mod 10)"
      by (intro parse_digits_snoc 1) simp_all
    then show ?thesis using False by (subst decimal.simps) simp
  qed
qed

lemma decimal_length: "10 \<le> n \<Longrightarrow> 2 \<le> length (decimal n)"
proof -
  assume "10 \<le> n"
  moreover have "decimal m \<noteq> []" for m by (subst decimal.simps) simp
  ultimately show ?thesis by (subst decimal.simps) (simp add: Suc_le_eq)
qed

section \<open>Witnesses\<close>

definition one_address :: dapi_address where
  "one_address = \<lparr> addr_host = ''a'', httpPort = 3000, grpcPort = 3010, proRegTxHash = Some ''1'', banCount = 0, banStartTime = None \<rparr>"

definition sample_transport :: transport where
  "sample_transport = \<lparr> tr_addresses = [one_address, one_address\<lparr>addr_host := ''b'', proRegTxHash := Some ''2''\<rparr>], lastUsedAddress = None \<rparr>"

definition list_options :: provider_options where
  "list_options = \<lparr> baseBanTime = 60000, regtestEnabled = False \<rparr>"

definition refusing_world :: "nat \<Rightarrow> unit json_reply attempt" where
  "refusing_world n = \<lparr> at_now = 1000, at_random = 0, at_reply = (\<lambda>_. HttpFailure (Some ''ECONNREFUSED'') ''refused''),
     at_ban_time = 1000, at_retry_time = 1000 \<rparr>"

definition unavailable_world :: "nat \<Rightarrow> (unit, unit) grpc_reply attempt" where
  "unavailable_world n = \<lparr> at_now = 1000, at_random = 0,
     at_reply = (\<lambda>_. GrpcError \<lparr> g_code = Some 14, g_metadata = None \<rparr>), at_ban_time = 1000, at_retry_time = 1000 \<rparr>"

definition unit_cbor :: "(unit, unit) cbor_codec" where
  "unit_cbor = \<lparr> cbor_decode = (\<lambda>_. Inr ()), empty_data = (), put_stack = (\<lambda>_ _. ()), drop_arguments = id \<rparr>"

lemmas sample_simps =
  Let_def list_getLiveAddress_def list_options_def getLiveAddresses_def hasLiveAddresses_def is_live_def isBanned_def
  banPeriod_def js_sample_def sample_transport_def one_address_def refusing_world_def unavailable_world_def
  json_classify_def requestJsonRpc_def markAsBanned_def upt_rec numeral_nat

lemma sample_json_run:
  "\<exists>t'. json_request (list_getLiveAddress list_options) (hasLiveAddresses 60000) refusing_world 5 sample_transport =
     Some (t', [0, 1], NoAvailableAddressesForRetryError RetriableResponseError (Some (TextCode ''ECONNREFUSED'')))"
  unfolding json_request_def
  by (subst request_loop.simps, simp add: sample_simps) (subst request_loop.simps, simp add: sample_simps)

lemma unavailable_is_retriable:
  "grpc_classify unit_cbor (GrpcError \<lparr> g_code = Some 14, g_metadata = None \<rparr> :: (unit, unit) grpc_reply) =
     Classified ServerError (Some (NumberCode 14))"
  by code_simp

lemma sample_grpc_run:
  "\<exists>t' out. grpc_request (list_getLiveAddress list_options) (hasLiveAddresses 60000) unit_cbor False unavailable_world 1 sample_transport =
     Some (t', [0, 0], out)"
  unfolding grpc_request_def
  by (subst request_loop.simps, simp add: sample_simps unavailable_is_retriable)
    (subst request_loop.simps, simp add: sample_simps unavailable_is_retriable)

theorem request_attempts_bounded_witness:
  "\<exists>t' tried out. json_request (list_getLiveAddress list_options) (hasLiveAddresses 60000) refusing_world 5 sample_transport =
      Some (t', tried, out) \<and> int (length tried) \<le> 6"
  using request_attempts_bounded [where retries = 5 and json_world = refusing_world and cbor = unit_cbor
      and throwDeadline = False and grpc_world = unavailable_world] by auto

theorem json_retry_uses_other_addresses_witness:
  "distinct [0 :: nat, 1] \<and> length [0 :: nat, 1] \<le> length (tr_addresses sample_transport)"
proof -
  obtain t' where "json_request (list_getLiveAddress list_options) (hasLiveAddresses 60000) refusing_world 5 sample_transport =
      Some (t', [0, 1], NoAvailableAddressesForRetryError RetriableResponseError (Some (TextCode ''ECONNREFUSED'')))"
    using sample_json_run by blast
  then show ?thesis
    by (rule json_retry_uses_other_addresses [where start = 1000]) (simp_all add: list_options_def refusing_world_def)
qed

theorem grpc_never_bans_witness:
  "\<exists>t' out. grpc_request (list_getLiveAddress list_options) (hasLiveAddresses 60000) unit_cbor False unavailable_world 1 sample_transport =
     Some (t', [0, 0], out) \<and> is_live 60000 1000 (tr_addresses t' ! 0)"
proof -
  obtain t' out where run: "grpc_request (list_getLiveAddress list_options) (hasLiveAddresses 60000) unit_cbor False unavailable_world 1
      sample_transport = Some (t', [0, 0], out)"
    using sample_grpc_run by blast
  have "is_live 60000 1000 (tr_addresses t' ! 0)"
    using grpc_never_bans [of list_options unit_cbor False unavailable_world 1 sample_transport t' "[0, 0]" out 1000 0] run
    by (simp add: list_options_def sample_transport_def one_address_def is_live_def isBanned_def)
  then show ?thesis using run by blast
qed

theorem bans_grow_exponentially_witness:
  "\<not> is_live 60000 (240000 + 7) (fail_at ([1, 2] @ [7]) (markAsLive one_address))"
proof -
  have "is_live 60000 (240000 + 7) (fail_at ([1, 2] @ [7]) (markAsLive one_address)) \<longrightarrow>
      240000 + 7 > 7 + 2 ^ length [1 :: int, 2] * (60000 :: int)"
  proof -
    have "(0 :: int) \<le> 60000" by simp
    from bans_grow_exponentially [OF this, of "[1, 2]" 7 one_address "240000 + 7"] show ?thesis
      unfolding Let_def by (rule conjunct1 [OF conjunct2])
  qed
  then show ?thesis by simp
qed

theorem sml_update_keeps_bans_witness:
  "\<exists>as i. sml_getLiveAddress list_options [(''2'', ''c''), (''3'', ''d'')] 1000 0 (tr_addresses sample_transport) = Inr (as, i) \<and>
     length as = 2 \<and> addr_host (as ! 1) = ''d'' \<and> \<not> isBanned (as ! 1)"
proof -
  have "\<exists>as i. sml_getLiveAddress list_options [(''2'', ''c''), (''3'', ''d'')] 1000 0 (tr_addresses sample_transport) = Inr (as, i)"
    by (simp add: sml_getLiveAddress_def update_address_def addressesByRegProTxHashes_def sample_simps new_DAPIAddress_def)
  then obtain as i where run:
    "sml_getLiveAddress list_options [(''2'', ''c''), (''3'', ''d'')] 1000 0 (tr_addresses sample_transport) = Inr (as, i)"
    by blast
  show ?thesis
    using sml_update_keeps_bans [OF run, of 1] run
    by (simp add: sample_transport_def one_address_def list_options_def)
qed

definition sample_sml_env :: "(string option, string, unit) sml_env" where
  "sample_sml_env = \<lparr> sml_empty = None, sml_fetch = (\<lambda>n base. Inr (''b'', base)),
     sml_applyDiff = (\<lambda>l base. case l of None \<Rightarrow> Inr (Some base) | Some h \<Rightarrow> Inl PreviousBlockHashMismatch),
     sml_clock = (\<lambda>n. 5) \<rparr>"

theorem sml_update_ends_witness:
  "\<exists>n result. getSimplifiedMNList sample_sml_env 60000 100000
     \<lparr> simplifiedMNList = Some ''z'', lastUpdateDate = 0, baseBlockHash = ''a'' \<rparr> = Some (n, result) \<and> n \<le> 2"
  by (rule sml_update_ends) (simp add: sml_documented_def sample_sml_env_def)

end
