(* ===== verification/ErrorTransport.thy ===== *)
theory ErrorTransport
  imports DeliverTx DapiClient
begin

text \<open>
  The way of an error from Drive to a client: the code of an ABCI response becomes a gRPC error in
  \<open>packages/dapi/lib/grpcServer/handlers/createGrpcErrorFromDriveResponse.js\<close> (called by
  \<open>broadcastStateTransitionHandlerFactory.js\<close> and \<open>DriveClient.js\<close>), travels with its metadata, and
  becomes an error of the client in \<open>createGrpcTransportError\<close> of \<open>DapiClient\<close>.

  CBOR is a parameter; \<open>codec_documented\<close> says that it reads back what it wrote.
\<close>

section \<open>The server's side\<close>

record ('x, 'd) error_codec =
  ec_cbor :: "('x, 'd) cbor_codec"
  ec_encode :: "'d \<Rightarrow> buffer"
  ec_make_info :: "'d option \<Rightarrow> buffer"
  ec_info :: "buffer \<Rightarrow> 'x + 'd option"
  ec_stack :: "'d \<Rightarrow> 'd option"
  ec_drop_stack :: "'d \<Rightarrow> 'd"

definition codec_documented :: "('x, 'd) error_codec \<Rightarrow> bool" where
  "codec_documented c \<longleftrightarrow>
    (\<forall>d. cbor_decode (ec_cbor c) (ec_encode c d) = Inr d) \<and> (\<forall>od. ec_info c (ec_make_info c od) = Inr od)"

text \<open>
  What \<open>getAbciResponse\<close> of \<open>AbstractAbciError\<close> and \<open>DPPValidationAbciError\<close> in \<open>packages/js-drive\<close>
  make of an error: its code, and CBOR of its message and its data, if it has any.
\<close>

definition abci_info :: "('x, 'd) error_codec \<Rightarrow> 'd \<Rightarrow> buffer option" where
  "abci_info c d = Some (ec_make_info c (if d = empty_data (ec_cbor c) then None else Some d))"

definition dpp_abci_info :: "('x, 'd) error_codec \<Rightarrow> 'd \<Rightarrow> buffer option" where
  "dpp_abci_info c d = (if d = empty_data (ec_cbor c) then None else Some (ec_make_info c (Some d)))"

definition abci_error_info :: "('x, 'd) error_codec \<Rightarrow> nat \<Rightarrow> 'd \<Rightarrow> buffer option" where
  "abci_error_info c code d = (if 1000 \<le> code then dpp_abci_info c d else abci_info c d)"

section \<open>createGrpcErrorFromDriveResponse\<close>

text \<open>A gRPC error: its code; of its metadata the code, the data and the stack; and the stack its inner
  error has from Drive.\<close>

record 'd grpc_error =
  ge_code :: int
  ge_meta_code :: "int option"
  ge_data :: "buffer option"
  ge_stack :: "buffer option"
  ge_inner :: "'d option"

definition plain_error :: "int \<Rightarrow> buffer option \<Rightarrow> 'd grpc_error" where
  "plain_error code raw =
    \<lparr> ge_code = code, ge_meta_code = None, ge_data = raw, ge_stack = None, ge_inner = None \<rparr>"

definition createRawMetadata :: "('x, 'd) error_codec \<Rightarrow> 'd \<Rightarrow> buffer option" where
  "createRawMetadata c d = (if d = empty_data (ec_cbor c) then None else Some (ec_encode c d))"

definition COMMON_ERROR_CODES :: "int list" where
  "COMMON_ERROR_CODES = [3, 4, 5, 6, 8, 9, 14]"

definition UNKNOWN :: int where "UNKNOWN = 2"

definition consensus_grpc_code :: "int \<Rightarrow> int" where
  "consensus_grpc_code code =
    (if 1000 \<le> code \<and> code < 2000 then 3
     else if 2000 \<le> code \<and> code < 3000 then 16
     else if 3000 \<le> code \<and> code < 4000 then 9
     else 3)"

definition createGrpcErrorFromDriveResponse ::
    "('x, 'd) error_codec \<Rightarrow> int option \<Rightarrow> buffer option \<Rightarrow> 'x grpc_exn + 'd grpc_error" where
  "createGrpcErrorFromDriveResponse c drive_code info =
    (case drive_code of
       None \<Rightarrow> Inr (plain_error INTERNAL None)
     | Some code \<Rightarrow>
         rbind (case info of
             None \<Rightarrow> Inr (empty_data (ec_cbor c))
           | Some b \<Rightarrow> (case ec_info c b of
                 Inl e \<Rightarrow> Inl (CborError e)
               | Inr None \<Rightarrow> Inr (empty_data (ec_cbor c))
               | Inr (Some d) \<Rightarrow> Inr d)) (\<lambda>d.
         if code \<le> 16
         then if code \<in> set COMMON_ERROR_CODES then Inr (plain_error code (createRawMetadata c d))
           else if code = INTERNAL
           then (case ec_stack c d of
               None \<Rightarrow> Inr (plain_error INTERNAL (createRawMetadata c d))
             | Some s \<Rightarrow>
                 Inr ((plain_error INTERNAL (createRawMetadata c (ec_drop_stack c d))) \<lparr> ge_inner := Some s \<rparr>))
           else Inr (plain_error code (createRawMetadata c d))
         else if code \<ge> 17 \<and> code < 1000 then Inr (plain_error UNKNOWN (createRawMetadata c d))
         else if code \<ge> 1000 \<and> code < 5000
         then if createConsensusError (NumberCode code)
           then Inr ((plain_error (consensus_grpc_code code) (createRawMetadata c d)) \<lparr> ge_meta_code := Some code \<rparr>)
           else Inl UnknownConsensusCode
         else Inr (plain_error INTERNAL None)))"

section \<open>Its two callers and their wrapper\<close>

datatype rpc_reply = RpcError "string option" | RpcResult int "buffer option"

datatype ('x, 'd) handler_error =
    GrpcErrorThrown "'d grpc_error"
  | GrpcCreationFailed "'x grpc_exn"
  | RpcException

definition throw_drive_error ::
    "('x, 'd) error_codec \<Rightarrow> int option \<Rightarrow> buffer option \<Rightarrow> ('x, 'd) handler_error" where
  "throw_drive_error c code info =
    (case createGrpcErrorFromDriveResponse c code info of
       Inl e \<Rightarrow> GrpcCreationFailed e
     | Inr e \<Rightarrow> GrpcErrorThrown e)"

text \<open>The metadata of the error for a transaction that is known is left out.\<close>

definition broadcastStateTransitionHandler ::
    "('x, 'd) error_codec \<Rightarrow> (buffer \<Rightarrow> rpc_reply) \<Rightarrow> buffer option \<Rightarrow> ('x, 'd) handler_error + unit" where
  "broadcastStateTransitionHandler c broadcast_tx_sync stByteArray =
    (case stByteArray of
       None \<Rightarrow> Inl (GrpcErrorThrown (plain_error 3 None))
     | Some tx \<Rightarrow>
         (case broadcast_tx_sync tx of
            RpcError d \<Rightarrow>
              (if d = Some ''tx already exists in cache'' then Inl (GrpcErrorThrown (plain_error 6 None))
               else Inl RpcException)
          | RpcResult code info \<Rightarrow>
              (if code \<noteq> 0 then Inl (throw_drive_error c (Some code) info) else Inr ())))"

datatype query_reply = QueryRpcError | QueryResponse "int option" "buffer option" buffer

definition DriveClient_request ::
    "('x, 'd) error_codec \<Rightarrow> (string \<Rightarrow> buffer \<Rightarrow> bool \<Rightarrow> query_reply) \<Rightarrow> string \<Rightarrow> buffer \<Rightarrow> bool \<Rightarrow>
      ('x, 'd) handler_error + buffer" where
  "DriveClient_request c abci_query path encodedData prove =
    (case abci_query path encodedData prove of
       QueryRpcError \<Rightarrow> Inl RpcException
     | QueryResponse code info val \<Rightarrow>
         (if code = None \<or> code = Some 0 then Inr val else Inl (throw_drive_error c code info)))"

text \<open>
  \<open>wrapInErrorHandlerFactory.js\<close> of \<open>packages/js-grpc-common\<close> makes an internal error of every other
  error; outside production \<open>VerboseInternalGrpcError\<close> adds the stack, \<open>own\<close> where the error was made here.
\<close>

definition VerboseInternalGrpcError :: "('x, 'd) error_codec \<Rightarrow> 'd \<Rightarrow> 'd grpc_error \<Rightarrow> 'd grpc_error" where
  "VerboseInternalGrpcError c own e =
    e \<lparr> ge_stack := Some (ec_encode c (case ge_inner e of None \<Rightarrow> own | Some s \<Rightarrow> s)) \<rparr>"

definition rpcMethodErrorHandler ::
    "('x, 'd) error_codec \<Rightarrow> bool \<Rightarrow> 'd \<Rightarrow> ('x, 'd) handler_error + 'r \<Rightarrow> 'd grpc_error + 'r" where
  "rpcMethodErrorHandler c isProductionEnvironment own outcome =
    (case outcome of
       Inr r \<Rightarrow> Inr r
     | Inl e \<Rightarrow>
         (let e = (case e of GrpcErrorThrown e \<Rightarrow> e | _ \<Rightarrow> plain_error INTERNAL None)
          in if ge_code e = INTERNAL \<and> \<not> isProductionEnvironment
             then Inl (VerboseInternalGrpcError c own e) else Inl e))"

section \<open>On the wire\<close>

text \<open>Node's client gets the metadata as lists, the code as text; a browser gets an object.\<close>

definition native_metadata :: "'d grpc_error \<Rightarrow> grpc_metadata" where
  "native_metadata e =
    NativeMetadata (case ge_meta_code e of None \<Rightarrow> [] | Some code \<Rightarrow> [decimal (nat code)])
      (case ge_data e of None \<Rightarrow> [] | Some d \<Rightarrow> [d])
      (case ge_stack e of None \<Rightarrow> [] | Some s \<Rightarrow> [s])"

definition web_metadata :: "'d grpc_error \<Rightarrow> grpc_metadata" where
  "web_metadata e = PlainMetadata (ge_meta_code e) (ge_data e)"

definition at_client ::
    "('x, 'd) error_codec \<Rightarrow> ('d grpc_error \<Rightarrow> grpc_metadata) \<Rightarrow> 'd grpc_error \<Rightarrow>
      'x grpc_exn + response_class \<times> error_code \<times> 'd" where
  "at_client c wire e = createGrpcTransportError (ec_cbor c) (ge_code e) (Some (wire e))"

section \<open>What the client makes of Drive's errors\<close>

lemma consensus_code_known: "int (consensus_code e) \<in> set consensus_codes"
  by (cases e) (simp_all add: consensus_codes_def)

lemma consensus_codes_range: "code \<in> set consensus_codes \<Longrightarrow> 1000 \<le> code \<and> code < 5000"
  by (auto simp: consensus_codes_def)

lemma known_code_is_created: "code \<in> set consensus_codes \<Longrightarrow> createConsensusError (NumberCode code)"
  by (auto simp: createConsensusError_def)

lemma known_text_is_created: "code \<in> set consensus_codes \<Longrightarrow> createConsensusError (TextCode (decimal (nat code)))"
  using consensus_codes_range [of code] by (force simp: createConsensusError_def)

lemma long_code_key:
  assumes "1000 \<le> code"
  shows "code_key (NumberCode code) \<notin> {''4'', ''5''}" "code_key (TextCode (decimal (nat code))) \<notin> {''4'', ''5''}"
proof -
  have "10 \<le> nat code" using assms by simp
  then have "length (decimal (nat code)) \<noteq> 1" using decimal_length [of "nat code"] by simp
  then show "code_key (NumberCode code) \<notin> {''4'', ''5''}"
      "code_key (TextCode (decimal (nat code))) \<notin> {''4'', ''5''}"
    using assms by auto
qed

text \<open>What the two callers pass on when Drive answers with an error.\<close>

definition drive_error ::
    "('x, 'd) error_codec \<Rightarrow> bool \<Rightarrow> 'd \<Rightarrow> nat \<Rightarrow> 'd \<Rightarrow> 'd grpc_error + buffer" where
  "drive_error c isProductionEnvironment own code d =
    rpcMethodErrorHandler c isProductionEnvironment own
      (DriveClient_request c (\<lambda>_ _ _. QueryResponse (Some (int code)) (abci_error_info c code d) []) [] [] False)"

lemma broadcast_passes_drive_error:
  assumes "0 < code"
  shows "broadcastStateTransitionHandler c (\<lambda>_. RpcResult (int code) (abci_error_info c code d)) (Some tx) =
      Inl (throw_drive_error c (Some (int code)) (abci_error_info c code d))"
    "DriveClient_request c (\<lambda>_ _ _. QueryResponse (Some (int code)) (abci_error_info c code d) v) path q prove =
      Inl (throw_drive_error c (Some (int code)) (abci_error_info c code d))"
  using assms by (simp_all add: broadcastStateTransitionHandler_def DriveClient_request_def)

lemma drive_info_read:
  assumes "codec_documented c"
  shows "(case abci_error_info c code d of
      None \<Rightarrow> Inr (empty_data (ec_cbor c))
    | Some b \<Rightarrow> (case ec_info c b of
          Inl e \<Rightarrow> Inl (CborError e)
        | Inr None \<Rightarrow> Inr (empty_data (ec_cbor c))
        | Inr (Some d) \<Rightarrow> Inr d)) = Inr d"
  using assms by (simp add: abci_error_info_def abci_info_def dpp_abci_info_def codec_documented_def)

lemma drive_error_created:
  assumes "codec_documented c" "0 < code"
  shows "drive_error c production own code d =
    rpcMethodErrorHandler c production own (Inl
      (case createGrpcErrorFromDriveResponse c (Some (int code)) (abci_error_info c code d) of
         Inl e \<Rightarrow> GrpcCreationFailed e
       | Inr e \<Rightarrow> GrpcErrorThrown e))"
  using assms(2) by (simp add: drive_error_def broadcast_passes_drive_error throw_drive_error_def)

lemma raw_data_at_client:
  assumes "codec_documented c"
  shows "(case createRawMetadata c d of
      None \<Rightarrow> Inr (empty_data (ec_cbor c))
    | Some b \<Rightarrow> (case cbor_decode (ec_cbor c) b of Inl e \<Rightarrow> Inl (CborError e) | Inr d \<Rightarrow> Inr d)) = Inr d"
  using assms by (simp add: createRawMetadata_def codec_documented_def)

lemma wire_parts:
  "metadata_data (Some (native_metadata e)) = ge_data e"
  "metadata_data (Some (web_metadata e)) = ge_data e"
  "metadata_code n (Some (native_metadata e)) =
    (case ge_meta_code e of None \<Rightarrow> NumberCode n | Some m \<Rightarrow> TextCode (decimal (nat m)))"
  "metadata_code n (Some (web_metadata e)) =
    (case ge_meta_code e of None \<Rightarrow> NumberCode n | Some m \<Rightarrow> NumberCode m)"
  "internal_stack cbor (Some (web_metadata e)) d = Inl MetadataTypeError"
  by (simp_all add: metadata_data_def metadata_code_def native_metadata_def web_metadata_def internal_stack_def
      split: option.split)

lemma internal_stack_native:
  assumes "codec_documented c"
  shows "internal_stack (ec_cbor c) (Some (native_metadata (plain_error n raw \<lparr> ge_inner := i \<rparr>))) d = Inr d"
    "internal_stack (ec_cbor c)
        (Some (native_metadata (VerboseInternalGrpcError c own (plain_error n raw \<lparr> ge_inner := i \<rparr>)))) d =
      Inr (put_stack (ec_cbor c) (case i of None \<Rightarrow> own | Some s \<Rightarrow> s) d)"
  using assms by (simp_all add: internal_stack_def native_metadata_def plain_error_def VerboseInternalGrpcError_def
      codec_documented_def)

text \<open>The error a client is meant to see for a code and the data of Drive.\<close>

definition client_error ::
    "('x, 'd) error_codec \<Rightarrow> bool \<Rightarrow> 'd \<Rightarrow> nat \<Rightarrow> 'd \<Rightarrow> response_class \<times> error_code \<times> 'd" where
  "client_error c production own code d =
    (if code = 3 then (InvalidRequestError, NumberCode 3, d)
     else if code = 5 then (NotFoundError, NumberCode 5, d)
     else if code = 14 then (ServerError, NumberCode 14, d)
     else if code = 13 then (InternalServerError, NumberCode 13,
       (let d' = (if ec_stack c d = None then d else ec_drop_stack c d)
        in if production then d'
           else put_stack (ec_cbor c) (case ec_stack c d of None \<Rightarrow> own | Some s \<Rightarrow> s) d'))
     else (InvalidRequestDPPError, NumberCode (int code), drop_arguments (ec_cbor c) d))"

lemma error_response_codes:
  assumes "wrapInErrorHandler respond outcome = ErrorResponse n"
  shows "n \<in> {3, 5, 13, 14} \<or> int n \<in> set consensus_codes"
  using assms consensus_code_known
  by (auto simp: wrapInErrorHandler_def abci_code_def INTERNAL_code_def split: sum.splits option.splits dpp_error.splits
      if_splits)

lemmas drive_codes = COMMON_ERROR_CODES_def INVALID_REQUEST_CODES_def SERVER_ERROR_CODES_def INTERNAL_def

lemma decimal_values: "decimal 3 = ''3''" "decimal 5 = ''5''" "decimal 13 = ''13''" "decimal 14 = ''14''"
  by code_simp+

lemma common_code_at_client:
  assumes "codec_documented c" "n \<in> {3, 5, 14}"
  shows "\<exists>e. drive_error c production own n d = Inl e \<and>
    at_client c native_metadata e = Inr (client_error c production own n d) \<and>
    at_client c web_metadata e = Inr (client_error c production own n d)"
proof -
  have "drive_error c production own n d = Inl (plain_error (int n) (createRawMetadata c d))"
    using assms by (auto simp: drive_error_created createGrpcErrorFromDriveResponse_def drive_info_read drive_codes
        rpcMethodErrorHandler_def plain_error_def)
  then show ?thesis
    using assms(2) raw_data_at_client [OF assms(1), of d]
    by (auto simp: at_client_def createGrpcTransportError_def wire_parts plain_error_def drive_codes client_error_def
        decimal_values Let_def)
qed

lemma internal_code_at_client:
  assumes "codec_documented c"
  shows "\<exists>e. drive_error c production own 13 d = Inl e \<and>
    at_client c native_metadata e = Inr (client_error c production own 13 d) \<and>
    at_client c web_metadata e = Inl MetadataTypeError"
proof -
  define d' where "d' = (if ec_stack c d = None then d else ec_drop_stack c d)"
  define e where "e = plain_error 13 (createRawMetadata c d') \<lparr> ge_inner := ec_stack c d \<rparr>"
  define e' where "e' = (if production then e else VerboseInternalGrpcError c own e)"
  have "drive_error c production own 13 d = Inl e'"
    using assms by (auto simp: drive_error_created createGrpcErrorFromDriveResponse_def drive_info_read drive_codes
        rpcMethodErrorHandler_def plain_error_def e_def e'_def d'_def split: option.splits)
  moreover have e': "ge_code e' = 13" "ge_meta_code e' = None" "ge_data e' = createRawMetadata c d'"
    by (auto simp: e'_def e_def plain_error_def VerboseInternalGrpcError_def)
  have "at_client c web_metadata e' = Inl MetadataTypeError"
    using raw_data_at_client [OF assms, of d'] e'
    by (simp add: at_client_def createGrpcTransportError_def wire_parts drive_codes decimal_values Let_def)
  moreover have "internal_stack (ec_cbor c) (Some (native_metadata e')) d' =
      Inr (snd (snd (client_error c production own 13 d)))"
    using internal_stack_native [OF assms]
    by (simp add: e'_def e_def client_error_def d'_def)
  then have "at_client c native_metadata e' = Inr (client_error c production own 13 d)"
    using raw_data_at_client [OF assms, of d'] e'
    by (simp add: at_client_def createGrpcTransportError_def wire_parts drive_codes decimal_values Let_def
        client_error_def)
  ultimately show ?thesis by blast
qed

lemma consensus_code_at_client:
  assumes "codec_documented c" "int n \<in> set consensus_codes"
  shows "\<exists>e. drive_error c production own n d = Inl e \<and>
    at_client c native_metadata e = Inr (client_error c production own n d) \<and>
    at_client c web_metadata e = Inr (client_error c production own n d)"
proof -
  note range = consensus_codes_range [OF assms(2)]
  have "drive_error c production own n d =
      Inl (plain_error (consensus_grpc_code (int n)) (createRawMetadata c d) \<lparr> ge_meta_code := Some (int n) \<rparr>)"
    using assms range known_code_is_created [OF assms(2)]
    by (auto simp: drive_error_created createGrpcErrorFromDriveResponse_def drive_info_read
        rpcMethodErrorHandler_def plain_error_def consensus_grpc_code_def INTERNAL_def)
  moreover have "NumberCode (int n) \<notin> NumberCode ` set INVALID_REQUEST_CODES"
      "NumberCode (int n) \<notin> NumberCode ` set SERVER_ERROR_CODES" "int n \<noteq> INTERNAL"
    using range by (auto simp: drive_codes)
  ultimately show ?thesis
    using range long_code_key [of "int n"] known_code_is_created [OF assms(2)] known_text_is_created [OF assms(2)]
      raw_data_at_client [OF assms(1), of d]
    by (simp add: at_client_def createGrpcTransportError_def wire_parts plain_error_def client_error_def
        parse_decimal Let_def image_iff del: code_key.simps)
qed

text \<open>
  C30. Every error response that Drive can give, passed on by DAPI to a client in Node, becomes the error
  class of its code with the data Drive sent, and consensus errors keep their code. In a browser the
  same holds but for the internal error, where reading its stack throws a \<open>TypeError\<close>.
\<close>

theorem drive_error_reaches_client:
  assumes "codec_documented c" "wrapInErrorHandler respondWithInternalError outcome = ErrorResponse n"
  shows "\<exists>e. drive_error c production own n d = Inl e \<and>
    at_client c native_metadata e = Inr (client_error c production own n d) \<and>
    at_client c web_metadata e = (if n = 13 then Inl MetadataTypeError else Inr (client_error c production own n d))"
proof -
  consider "n \<in> {3, 5, 14}" | "n = 13" | "int n \<in> set consensus_codes"
    using error_response_codes [OF assms(2)] by auto
  then show ?thesis
  proof cases
    case 1 then show ?thesis using common_code_at_client [OF assms(1)] by auto
  next
    case 2 then show ?thesis using internal_code_at_client [OF assms(1)] by auto
  next
    case 3
    moreover have "n \<noteq> 13" using consensus_codes_range [OF 3] by auto
    ultimately show ?thesis using consensus_code_at_client [OF assms(1)] by auto
  qed
qed

section \<open>A codec\<close>

definition unary_codec :: "(unit, nat) error_codec" where
  "unary_codec =
    \<lparr> ec_cbor = \<lparr> cbor_decode = (\<lambda>b. Inr (length b)), empty_data = 0, put_stack = (+), drop_arguments = (\<lambda>_. 0) \<rparr>,
      ec_encode = (\<lambda>n. replicate n 0),
      ec_make_info = (\<lambda>od. case od of None \<Rightarrow> [] | Some n \<Rightarrow> replicate (Suc n) 0),
      ec_info = (\<lambda>b. Inr (case b of [] \<Rightarrow> None | _ # b' \<Rightarrow> Some (length b'))),
      ec_stack = (\<lambda>_. None), ec_drop_stack = id \<rparr>"

lemma unary_codec_documented: "codec_documented unary_codec"
  by (simp add: codec_documented_def unary_codec_def split: option.split)

theorem drive_error_reaches_client_witness:
  "wrapInErrorHandler True (Inl (NotFoundAbciError ''contract'') :: dpp_error + unit) = ErrorResponse 5 \<and>
   (\<exists>e. drive_error unary_codec False 0 5 7 = Inl e \<and>
      at_client unary_codec native_metadata e = Inr (NotFoundError, NumberCode 5, 7) \<and>
      at_client unary_codec web_metadata e = Inr (NotFoundError, NumberCode 5, 7))"
proof -
  have r: "wrapInErrorHandler True (Inl (NotFoundAbciError ''contract'') :: dpp_error + unit) = ErrorResponse 5"
    by (simp add: wrapInErrorHandler_def abci_code_def)
  show ?thesis
    using drive_error_reaches_client [OF unary_codec_documented r, of False 0 7] r
    by (simp add: client_error_def)
qed

end
