(* ===== verification/TendermintEvents.thy ===== *)
theory TendermintEvents
  imports "HOL-Library.AList" Prelude
begin

text \<open>
  The connection of DAPI to the events of Tenderdash: the WebSocket client with its reconnections
  and subscriptions (\<open>packages/dapi/lib/externalApis/tenderdash/WsClient.js\<close>) and the listener that
  sorts the messages (\<open>BlockchainListener.js\<close>).

  Sockets of the package \<open>ws\<close> are numbered in the order they are made; what they do is a sequence of
  inputs, mixed with the calls of the client's methods and with the timers that run out.
\<close>

section \<open>The client\<close>

datatype ready_state = CONNECTING | OPEN | CLOSED

datatype ws_request = Subscribe string | Unsubscribe string

datatype 'm ws_emit = Connect | MaxRetryExceeded | SocketErrorEmitted string | Emitted string 'm

record 'm ws_client =
  ws :: "nat option"
  ws_listeners :: "nat list"
  ws_state :: "nat \<Rightarrow> ready_state"
  isConnected :: bool
  connectionRetries :: int
  maxRetries :: int
  subscribedQueries :: "(string \<times> nat) list"
  ws_frames :: "(nat \<times> ws_request) list"
  ws_timers :: nat
  ws_made :: nat
  ws_emitted :: "'m ws_emit list"

definition new_WsClient :: "'m ws_client" where
  "new_WsClient = \<lparr> ws = None, ws_listeners = [], ws_state = (\<lambda>_. CONNECTING), isConnected = False,
     connectionRetries = 0, maxRetries = - 1, subscribedQueries = [], ws_frames = [], ws_timers = 0,
     ws_made = 0, ws_emitted = [] \<rparr>"

text \<open>\<open>None\<close> is a \<open>TypeError\<close> on a socket that is \<open>null\<close>, or the error of \<open>ws\<close> for a frame that is
  sent too early. A frame for a socket that is closed is dropped.\<close>

definition ws_send :: "ws_request \<Rightarrow> 'm ws_client \<Rightarrow> 'm ws_client option" where
  "ws_send f c =
    (case ws c of
       None \<Rightarrow> None
     | Some s \<Rightarrow>
         (case ws_state c s of
            CONNECTING \<Rightarrow> None
          | OPEN \<Rightarrow> Some (c\<lparr>ws_frames := ws_frames c @ [(s, f)]\<rparr>)
          | CLOSED \<Rightarrow> Some c))"

definition disconnect :: "'m ws_client \<Rightarrow> 'm ws_client option" where
  "disconnect c =
    (case ws c of
       None \<Rightarrow> None
     | Some s \<Rightarrow> Some (c\<lparr>ws_listeners := removeAll s (ws_listeners c), ws_state := (ws_state c)(s := CLOSED),
         isConnected := False\<rparr>))"

definition subscribe :: "string \<Rightarrow> 'm ws_client \<Rightarrow> 'm ws_client option" where
  "subscribe query c = Option.bind (ws_send (Subscribe query) c) (\<lambda>c.
     let count = (case map_of (subscribedQueries c) query of None \<Rightarrow> 0 | Some n \<Rightarrow> n)
     in Some (c\<lparr>subscribedQueries := AList.update query (count + 1) (subscribedQueries c)\<rparr>))"

text \<open>A query that is not known has \<open>NaN\<close> left, which is not positive.\<close>

definition unsubscribe :: "string \<Rightarrow> 'm ws_client \<Rightarrow> 'm ws_client option" where
  "unsubscribe query c =
    (let left = (case map_of (subscribedQueries c) query of None \<Rightarrow> 0 | Some n \<Rightarrow> n - 1)
     in if left > 0 then Some (c\<lparr>subscribedQueries := AList.update query left (subscribedQueries c)\<rparr>)
        else Option.bind (ws_send (Unsubscribe query) c) (\<lambda>c.
          Some (c\<lparr>subscribedQueries := AList.delete query (subscribedQueries c)\<rparr>)))"

definition open_socket :: "'m ws_client \<Rightarrow> 'm ws_client option" where
  "open_socket c =
    Option.bind (if ws c \<noteq> None then disconnect c else Some c) (\<lambda>c.
      Some (c\<lparr>ws := Some (ws_made c), ws_listeners := ws_listeners c @ [ws_made c], ws_made := ws_made c + 1\<rparr>))"

definition reconnect :: "'m ws_client \<Rightarrow> 'm ws_client option" where
  "reconnect c =
    (if connectionRetries c \<le> maxRetries c \<or> maxRetries c = - 1
     then Some (c\<lparr>connectionRetries := (if maxRetries c \<noteq> - 1 then connectionRetries c + 1 else connectionRetries c),
       ws_timers := ws_timers c + 1\<rparr>)
     else Option.bind (disconnect c) (\<lambda>c. Some (c\<lparr>ws_emitted := ws_emitted c @ [MaxRetryExceeded]\<rparr>)))"

text \<open>The listeners of a socket, the loop of the first over the keys that the map has.\<close>

definition onOpenListener :: "'m ws_client \<Rightarrow> 'm ws_client option" where
  "onOpenListener c =
    (let c = c\<lparr>isConnected := True, ws_emitted := ws_emitted c @ [Connect]\<rparr>
     in fold (\<lambda>query oc. Option.bind oc (subscribe query)) (map fst (subscribedQueries c)) (Some c))"

definition onCloseListener :: "int \<Rightarrow> 'm ws_client \<Rightarrow> 'm ws_client option" where
  "onCloseListener code c = (if code = 1000 then disconnect c else reconnect c)"

definition onErrorListener :: "string \<Rightarrow> 'm ws_client \<Rightarrow> 'm ws_client option" where
  "onErrorListener code c =
    (if code = ''EAI_AGAIN'' then reconnect c
     else if code = ''ECONNREFUSED'' then reconnect c
     else Option.bind (disconnect c) (\<lambda>c. Some (c\<lparr>ws_emitted := ws_emitted c @ [SocketErrorEmitted code]\<rparr>)))"

text \<open>The result of a message, if it has one that is not empty, and the query it answers.\<close>

definition onMessageListener :: "(string \<times> 'm) option \<Rightarrow> 'm ws_client \<Rightarrow> 'm ws_client option" where
  "onMessageListener result c =
    (case result of
       None \<Rightarrow> Some c
     | Some (query, m) \<Rightarrow> Some (c\<lparr>ws_emitted := ws_emitted c @ [Emitted query m]\<rparr>))"

text \<open>A limit of zero is falsy and means no limit.\<close>

definition connect :: "int option \<Rightarrow> 'm ws_client \<Rightarrow> 'm ws_client option" where
  "connect limit c =
    open_socket (c\<lparr>maxRetries := (case limit of None \<Rightarrow> - 1 | Some m \<Rightarrow> if m = 0 then - 1 else m),
      connectionRetries := 0, subscribedQueries := []\<rparr>)"

definition close_client :: "'m ws_client \<Rightarrow> 'm ws_client option" where
  "close_client c =
    (if ws c = None then Some c
     else Option.bind (if isConnected c then disconnect c else Some c) (\<lambda>c.
       Some (c\<lparr>ws := None, subscribedQueries := []\<rparr>)))"

section \<open>Its inputs\<close>

datatype 'm ws_input =
    ConnectCall "int option"
  | SubscribeCall string
  | UnsubscribeCall string
  | CloseCall
  | SocketOpen nat
  | SocketClose nat int
  | SocketError nat string
  | SocketMessage nat "(string \<times> 'm) option"
  | TimerFires

text \<open>
  A call that throws leaves the client as it was; what a listener or a timer throws nobody catches, and
  the process ends: \<open>None\<close>. A socket that made nothing yet, or that is closed, has no events.
\<close>

definition listened :: "nat \<Rightarrow> ready_state set \<Rightarrow> ('m ws_client \<Rightarrow> 'm ws_client option) \<Rightarrow> 'm ws_client \<Rightarrow>
    'm ws_client option" where
  "listened s states listener c = (if s \<in> set (ws_listeners c) \<and> ws_state c s \<in> states then listener c else Some c)"

definition set_state :: "nat \<Rightarrow> ready_state \<Rightarrow> 'm ws_client \<Rightarrow> 'm ws_client" where
  "set_state s r c = c\<lparr>ws_state := (ws_state c)(s := r)\<rparr>"

definition called :: "('m ws_client \<Rightarrow> 'm ws_client option) \<Rightarrow> 'm ws_client \<Rightarrow> 'm ws_client option" where
  "called f c = (case f c of None \<Rightarrow> Some c | Some c' \<Rightarrow> Some c')"

fun ws_step :: "'m ws_input \<Rightarrow> 'm ws_client \<Rightarrow> 'm ws_client option" where
  "ws_step (ConnectCall limit) c = called (connect limit) c"
| "ws_step (SubscribeCall query) c = called (subscribe query) c"
| "ws_step (UnsubscribeCall query) c = called (unsubscribe query) c"
| "ws_step CloseCall c = called close_client c"
| "ws_step (SocketOpen s) c = listened s {CONNECTING} (onOpenListener \<circ> set_state s OPEN) c"
| "ws_step (SocketClose s code) c = listened s {CONNECTING, OPEN} (onCloseListener code \<circ> set_state s CLOSED) c"
| "ws_step (SocketError s code) c = listened s {CONNECTING, OPEN} (onErrorListener code) c"
| "ws_step (SocketMessage s result) c = listened s {OPEN} (onMessageListener result) c"
| "ws_step TimerFires c = (if ws_timers c = 0 then Some c else open_socket (c\<lparr>ws_timers := ws_timers c - 1\<rparr>))"

definition run_ws :: "'m ws_input list \<Rightarrow> 'm ws_client \<Rightarrow> 'm ws_client option" where
  "run_ws inputs c = fold (\<lambda>i oc. Option.bind oc (ws_step i)) inputs (Some c)"

section \<open>Subscriptions\<close>

text \<open>What Tenderdash has for a socket after the frames that arrived on it.\<close>

definition server_subscribed :: "nat \<Rightarrow> string \<Rightarrow> (nat \<times> ws_request) list \<Rightarrow> bool" where
  "server_subscribed s q frames =
    foldl (\<lambda>b f. if f = (s, Subscribe q) then True else if f = (s, Unsubscribe q) then False else b) False frames"

lemma server_subscribed_simps [simp]:
  "server_subscribed s q [] = False"
  "server_subscribed s q (frames @ [f]) =
    (if f = (s, Subscribe q) then True else if f = (s, Unsubscribe q) then False else server_subscribed s q frames)"
  by (simp_all add: server_subscribed_def)

lemma server_subscribed_all:
  "server_subscribed s q (frames @ map (\<lambda>q. (s', Subscribe q)) qs) \<longleftrightarrow>
    s = s' \<and> q \<in> set qs \<or> server_subscribed s q frames"
proof -
  have "foldl (\<lambda>b f. if f = (s, Subscribe q) then True else if f = (s, Unsubscribe q) then False else b) b
      (map (\<lambda>q. (s', Subscribe q)) qs) \<longleftrightarrow> s = s' \<and> q \<in> set qs \<or> b" for b
    by (induction qs arbitrary: b) auto
  then show ?thesis by (simp add: server_subscribed_def)
qed

definition queries :: "'m ws_client \<Rightarrow> string set" where
  "queries c = fst ` set (subscribedQueries c)"

definition count_again :: "string \<Rightarrow> (string \<times> nat) list \<Rightarrow> (string \<times> nat) list" where
  "count_again q l = AList.update q ((case map_of l q of None \<Rightarrow> 0 | Some n \<Rightarrow> n) + 1) l"

lemma count_again_keys: "fst ` set (count_again q l) = insert q (fst ` set l)"
  by (simp add: count_again_def dom_map_of_conv_image_fst [symmetric] update_conv' del: fun_upd_apply)

lemma delete_keys: "fst ` set (AList.delete q l) = fst ` set l - {q}"
  by (simp add: dom_map_of_conv_image_fst [symmetric] delete_conv' del: fun_upd_apply)

lemma update_keys: "q \<in> fst ` set l \<Longrightarrow> fst ` set (AList.update q n l) = fst ` set l"
  by (simp add: dom_map_of_conv_image_fst [symmetric] update_conv' insert_absorb del: fun_upd_apply)

lemma subscribe_alt:
  "subscribe q c = Option.bind (ws_send (Subscribe q) c) (\<lambda>c. Some (c\<lparr>subscribedQueries := count_again q (subscribedQueries c)\<rparr>))"
  by (simp add: subscribe_def count_again_def)

lemma resubscribe:
  assumes "ws c = Some s" "ws_state c s = OPEN"
  shows "fold (\<lambda>query oc. Option.bind oc (subscribe query)) qs (Some c) =
    Some (c\<lparr>ws_frames := ws_frames c @ map (\<lambda>q. (s, Subscribe q)) qs,
            subscribedQueries := fold count_again qs (subscribedQueries c)\<rparr>)"
  using assms by (induction qs arbitrary: c) (simp_all add: subscribe_alt ws_send_def)

lemma resubscribe_keys: "fst ` set (fold count_again qs l) = set qs \<union> fst ` set l"
  by (induction qs arbitrary: l) (auto simp: count_again_keys)

text \<open>The invariant: on a socket that is open, Tenderdash has exactly the queries that the client
  counts; on a socket that is not open yet it has none.\<close>

definition ws_inv :: "'m ws_client \<Rightarrow> bool" where
  "ws_inv c \<longleftrightarrow>
    (\<forall>s. ws c = Some s \<longrightarrow> s < ws_made c \<and>
       (ws_state c s = OPEN \<longrightarrow> {q. server_subscribed s q (ws_frames c)} = queries c)) \<and>
    (\<forall>s q. ws_state c s = CONNECTING \<longrightarrow> \<not> server_subscribed s q (ws_frames c)) \<and>
    (\<forall>s \<ge> ws_made c. ws_state c s = CONNECTING) \<and> (\<forall>s \<in> set (ws_listeners c). s < ws_made c)"

lemma ws_inv_new: "ws_inv new_WsClient"
  by (simp add: ws_inv_def new_WsClient_def)

lemma ws_inv_irrelevant [simp]:
  "ws_inv (c\<lparr>isConnected := b\<rparr>) = ws_inv c" "ws_inv (c\<lparr>ws_emitted := es\<rparr>) = ws_inv c"
  "ws_inv (c\<lparr>connectionRetries := n\<rparr>) = ws_inv c" "ws_inv (c\<lparr>ws_timers := k\<rparr>) = ws_inv c"
  "ws_inv (c\<lparr>maxRetries := n\<rparr>) = ws_inv c"
  by (simp_all add: ws_inv_def queries_def)

lemma ws_inv_frame:
  assumes "ws_inv c" "ws c = Some s" "ws_state c s = OPEN"
    and "fst ` set qs = {q. server_subscribed s q (ws_frames c @ [(s, f)])}"
  shows "ws_inv (c\<lparr>ws_frames := ws_frames c @ [(s, f)], subscribedQueries := qs\<rparr>)"
proof -
  have "\<not> server_subscribed s' q (ws_frames c @ [(s, f)])" if "ws_state c s' = CONNECTING" for s' q
    using assms(1,3) that by (auto simp: ws_inv_def)
  then show ?thesis using assms unfolding ws_inv_def queries_def by simp
qed

lemma ws_inv_queries:
  assumes "ws_inv c" "fst ` set qs = queries c \<or> (\<exists>s. ws c = Some s \<and> ws_state c s \<noteq> OPEN)"
  shows "ws_inv (c\<lparr>subscribedQueries := qs\<rparr>)"
  using assms by (auto simp: ws_inv_def queries_def)

lemma ws_inv_server:
  "ws_inv c \<Longrightarrow> ws c = Some s \<Longrightarrow> ws_state c s = OPEN \<Longrightarrow> server_subscribed s q (ws_frames c) \<longleftrightarrow> q \<in> queries c"
  unfolding ws_inv_def by blast

lemma ws_inv_subscribe:
  assumes "ws_inv c" "subscribe q c = Some c'"
  shows "ws_inv c'"
proof -
  from assms(2) consider s where "ws c = Some s" "ws_state c s = OPEN"
      "c' = c\<lparr>ws_frames := ws_frames c @ [(s, Subscribe q)], subscribedQueries := count_again q (subscribedQueries c)\<rparr>"
    | s where "ws c = Some s" "ws_state c s = CLOSED" "c' = c\<lparr>subscribedQueries := count_again q (subscribedQueries c)\<rparr>"
    by (auto simp: subscribe_alt ws_send_def bind_eq_Some_conv split: option.splits ready_state.splits)
  then show ?thesis
  proof cases
    case 1
    have "fst ` set (count_again q (subscribedQueries c)) = {q'. server_subscribed s q' (ws_frames c @ [(s, Subscribe q)])}"
      using ws_inv_server [OF assms(1) 1(1,2)] by (auto simp: count_again_keys queries_def)
    then show ?thesis using ws_inv_frame [OF assms(1) 1(1,2)] 1(3) by simp
  next
    case 2
    then show ?thesis using ws_inv_queries [OF assms(1)] by simp
  qed
qed

lemma ws_inv_unsubscribe:
  assumes "ws_inv c" "unsubscribe q c = Some c'"
  shows "ws_inv c'"
proof -
  from assms(2) consider n where "map_of (subscribedQueries c) q = Some n" "c' = c\<lparr>subscribedQueries := AList.update q (n - 1) (subscribedQueries c)\<rparr>"
    | s where "ws c = Some s" "ws_state c s = OPEN"
      "c' = c\<lparr>ws_frames := ws_frames c @ [(s, Unsubscribe q)], subscribedQueries := AList.delete q (subscribedQueries c)\<rparr>"
    | s where "ws c = Some s" "ws_state c s = CLOSED" "c' = c\<lparr>subscribedQueries := AList.delete q (subscribedQueries c)\<rparr>"
    by (auto simp: unsubscribe_def ws_send_def bind_eq_Some_conv Let_def split: option.splits ready_state.splits if_splits)
  then show ?thesis
  proof cases
    case 1
    then have "q \<in> fst ` set (subscribedQueries c)" by (metis map_of_SomeD fst_conv image_eqI)
    then show ?thesis using ws_inv_queries [OF assms(1)] 1(2) by (simp add: update_keys queries_def)
  next
    case 2
    have "fst ` set (AList.delete q (subscribedQueries c)) = {q'. server_subscribed s q' (ws_frames c @ [(s, Unsubscribe q)])}"
      using ws_inv_server [OF assms(1) 2(1,2)] by (auto simp: delete_keys queries_def)
    then show ?thesis using ws_inv_frame [OF assms(1) 2(1,2)] 2(3) by simp
  next
    case 3
    then show ?thesis using ws_inv_queries [OF assms(1)] by simp
  qed
qed

lemma ws_inv_closed: "ws_inv c \<Longrightarrow> s < ws_made c \<Longrightarrow> ws_inv (c\<lparr>ws_state := (ws_state c)(s := CLOSED)\<rparr>)"
  unfolding ws_inv_def queries_def by simp

lemma ws_inv_unheard: "ws_inv c \<Longrightarrow> ws_inv (c\<lparr>ws_listeners := removeAll s (ws_listeners c)\<rparr>)"
  unfolding ws_inv_def queries_def by simp

lemma ws_inv_bound: "ws_inv c \<Longrightarrow> ws c = Some s \<Longrightarrow> s < ws_made c" "ws_inv c \<Longrightarrow> s \<in> set (ws_listeners c) \<Longrightarrow> s < ws_made c"
  "ws_inv c \<Longrightarrow> ws_state c (ws_made c) = CONNECTING"
  unfolding ws_inv_def by blast+

lemma ws_inv_disconnect:
  assumes "ws_inv c" "disconnect c = Some c'"
  shows "ws_inv c'"
proof -
  from assms(2) obtain s where s: "ws c = Some s"
    and c': "c' = c\<lparr>ws_listeners := removeAll s (ws_listeners c), ws_state := (ws_state c)(s := CLOSED), isConnected := False\<rparr>"
    by (auto simp: disconnect_def split: option.splits)
  from ws_inv_closed [OF ws_inv_unheard [OF assms(1)], of s] ws_inv_bound(1) [OF assms(1) s]
  show ?thesis by (simp add: c')
qed

lemma ws_inv_made:
  assumes "ws_inv c" "ws_state c (ws_made c) = CONNECTING"
  shows "ws_inv (c\<lparr>ws := Some (ws_made c), ws_listeners := ws_listeners c @ [ws_made c], ws_made := ws_made c + 1\<rparr>)"
  using assms by (auto simp: ws_inv_def queries_def)

lemma ws_inv_open_socket: "ws_inv c \<Longrightarrow> open_socket c = Some c' \<Longrightarrow> ws_inv c'"
proof -
  assume inv: "ws_inv c" and run: "open_socket c = Some c'"
  then obtain d where d: "ws_inv d" and c': "c' = d\<lparr>ws := Some (ws_made d), ws_listeners := ws_listeners d @ [ws_made d], ws_made := ws_made d + 1\<rparr>"
    using ws_inv_disconnect by (auto simp: open_socket_def bind_eq_Some_conv split: if_splits)
  then show ?thesis using ws_inv_made by (auto simp: ws_inv_def)
qed

lemma ws_inv_reconnect: "ws_inv c \<Longrightarrow> reconnect c = Some c' \<Longrightarrow> ws_inv c'"
  by (auto simp: reconnect_def bind_eq_Some_conv intro: ws_inv_disconnect split: if_splits)

lemma ws_inv_close: "ws_inv c \<Longrightarrow> close_client c = Some c' \<Longrightarrow> ws_inv c'"
proof -
  have drop: "ws_inv d \<Longrightarrow> ws_inv (d\<lparr>ws := None, subscribedQueries := []\<rparr>)" for d :: "'a ws_client"
    unfolding ws_inv_def queries_def by simp
  assume "ws_inv c" "close_client c = Some c'"
  then show ?thesis by (auto simp: close_client_def bind_eq_Some_conv intro: drop ws_inv_disconnect split: if_splits)
qed

lemma open_socket_queries:
  "open_socket (c\<lparr>subscribedQueries := qs\<rparr>) = map_option (\<lambda>c. c\<lparr>subscribedQueries := qs\<rparr>) (open_socket c)"
  by (simp add: open_socket_def disconnect_def split: option.split)

lemma open_socket_Some:
  "open_socket c = Some c' \<Longrightarrow> ws c' = Some (ws_made c) \<and> ws_made c' = Suc (ws_made c) \<and> ws_made c \<in> set (ws_listeners c') \<and>
    subscribedQueries c' = subscribedQueries c \<and> ws_frames c' = ws_frames c \<and> maxRetries c' = maxRetries c \<and>
    ws_timers c' = ws_timers c \<and> connectionRetries c' = connectionRetries c"
  "ws_inv c \<Longrightarrow> open_socket c = Some c' \<Longrightarrow> ws_state c' (ws_made c) = CONNECTING"
proof -
  show "open_socket c = Some c' \<Longrightarrow> ws c' = Some (ws_made c) \<and> ws_made c' = Suc (ws_made c) \<and> ws_made c \<in> set (ws_listeners c') \<and>
    subscribedQueries c' = subscribedQueries c \<and> ws_frames c' = ws_frames c \<and> maxRetries c' = maxRetries c \<and>
    ws_timers c' = ws_timers c \<and> connectionRetries c' = connectionRetries c"
    by (auto simp: open_socket_def disconnect_def bind_eq_Some_conv split: if_splits option.splits)
  assume inv: "ws_inv c" and run: "open_socket c = Some c'"
  show "ws_state c' (ws_made c) = CONNECTING"
    using run ws_inv_bound [OF inv]
    by (auto simp: open_socket_def disconnect_def bind_eq_Some_conv split: if_splits option.splits)
qed

lemma ws_inv_connect:
  assumes "ws_inv c" "connect limit c = Some c'"
  shows "ws_inv c'"
proof -
  let ?c = "c\<lparr>maxRetries := (case limit of None \<Rightarrow> - 1 | Some m \<Rightarrow> if m = 0 then - 1 else m), connectionRetries := 0\<rparr>"
  have inv: "ws_inv ?c" using assms(1) by simp
  from assms(2) obtain d where d: "open_socket ?c = Some d" "c' = d\<lparr>subscribedQueries := []\<rparr>"
    unfolding connect_def using open_socket_queries [where c = ?c and qs = "[]"] by (auto simp del: open_socket_queries)
  have "ws d = Some (ws_made ?c)" "ws_state d (ws_made ?c) = CONNECTING"
    using open_socket_Some(1) [OF d(1)] open_socket_Some(2) [OF inv d(1)] by simp_all
  then show ?thesis using ws_inv_queries [OF ws_inv_open_socket [OF inv d(1)]] d(2) by simp
qed

lemma ws_inv_subscribe_all:
  assumes "ws_inv c" "fold (\<lambda>query oc. Option.bind oc (subscribe query)) qs (Some c) = Some c'"
  shows "ws_inv c'"
  using assms
proof (induction qs arbitrary: c)
  case (Cons q qs)
  have none: "fold (\<lambda>query oc. Option.bind oc (subscribe query)) qs None = (None :: 'a ws_client option)"
    by (induction qs) auto
  from Cons.prems(2) none obtain d where "subscribe q c = Some d"
      "fold (\<lambda>query oc. Option.bind oc (subscribe query)) qs (Some d) = Some c'"
    by (cases "subscribe q c") auto
  then show ?case using Cons.IH ws_inv_subscribe [OF Cons.prems(1)] by blast
qed simp

lemma onOpen_current:
  assumes "ws_inv c" "ws c = Some s" "ws_state c s = CONNECTING"
  shows "\<exists>c'. onOpenListener (set_state s OPEN c) = Some c' \<and> ws_inv c' \<and> ws c' = Some s \<and> ws_state c' s = OPEN \<and>
    isConnected c' \<and> ws_made c' = ws_made c \<and> queries c' = queries c \<and>
    subscribedQueries c' = fold count_again (map fst (subscribedQueries c)) (subscribedQueries c)"
proof -
  let ?qs = "map fst (subscribedQueries c)"
  let ?c' = "c\<lparr>ws_state := (ws_state c)(s := OPEN), isConnected := True, ws_emitted := ws_emitted c @ [Connect],
    ws_frames := ws_frames c @ map (\<lambda>q. (s, Subscribe q)) ?qs, subscribedQueries := fold count_again ?qs (subscribedQueries c)\<rparr>"
  have run: "onOpenListener (set_state s OPEN c) = Some ?c'"
    using assms(2) by (simp add: onOpenListener_def set_state_def Let_def resubscribe [where s = s])
  have keys: "queries ?c' = queries c" by (simp add: queries_def resubscribe_keys)
  have "{q. server_subscribed s q (ws_frames ?c')} = queries c"
    using assms by (auto simp: server_subscribed_all queries_def ws_inv_def simp del: map_map)
  moreover have "\<not> server_subscribed s' q (ws_frames ?c')" if "ws_state ?c' s' = CONNECTING" for s' q
    using assms that by (auto simp: server_subscribed_all ws_inv_def simp del: map_map split: if_splits)
  moreover have "\<forall>s' \<ge> ws_made c. ws_state ?c' s' = CONNECTING" "\<forall>s \<in> set (ws_listeners c). s < ws_made c" "s < ws_made c"
    using assms by (auto simp: ws_inv_def)
  ultimately have "ws_inv ?c'" using assms(2) keys unfolding ws_inv_def by simp
  then show ?thesis using run keys assms(2) by auto
qed

lemma ws_inv_onOpen:
  assumes "ws_inv c" "ws_state c s = CONNECTING" "s < ws_made c" "onOpenListener (set_state s OPEN c) = Some c'"
  shows "ws_inv c'"
proof (cases "ws c = Some s")
  case True
  then show ?thesis using onOpen_current [OF assms(1) True assms(2)] assms(4) by auto
next
  case False
  let ?c = "(set_state s OPEN c)\<lparr>isConnected := True, ws_emitted := ws_emitted c @ [Connect]\<rparr>"
  have "ws_inv (set_state s OPEN c)"
    using assms(1,3) False unfolding ws_inv_def set_state_def queries_def by auto
  then have "ws_inv ?c" by simp
  moreover have "fold (\<lambda>query oc. Option.bind oc (subscribe query)) (map fst (subscribedQueries c)) (Some ?c) = Some c'"
    using assms(4) by (simp add: onOpenListener_def set_state_def Let_def)
  ultimately show ?thesis by (rule ws_inv_subscribe_all)
qed

lemma ws_inv_step:
  assumes "ws_inv c" "ws_step i c = Some c'"
  shows "ws_inv c'"
proof (cases i)
  case (ConnectCall x) then show ?thesis using assms by (auto simp: called_def intro: ws_inv_connect split: option.splits)
next
  case (SubscribeCall x) then show ?thesis using assms by (auto simp: called_def intro: ws_inv_subscribe split: option.splits)
next
  case (UnsubscribeCall x) then show ?thesis using assms by (auto simp: called_def intro: ws_inv_unsubscribe split: option.splits)
next
  case CloseCall then show ?thesis using assms by (auto simp: called_def intro: ws_inv_close split: option.splits)
next
  case (SocketOpen s)
  then show ?thesis using assms ws_inv_bound(2) [OF assms(1)]
    by (auto simp: listened_def intro: ws_inv_onOpen split: if_splits)
next
  case (SocketClose s code)
  have "ws_inv (set_state s CLOSED c)" if "s \<in> set (ws_listeners c)"
    using ws_inv_closed [OF assms(1) ws_inv_bound(2) [OF assms(1) that]] by (simp add: set_state_def)
  then show ?thesis using SocketClose assms
    by (auto simp: listened_def onCloseListener_def intro: ws_inv_reconnect ws_inv_disconnect split: if_splits)
next
  case (SocketError s code)
  then show ?thesis using assms
    by (auto simp: listened_def onErrorListener_def bind_eq_Some_conv intro: ws_inv_reconnect ws_inv_disconnect
        split: if_splits)
next
  case (SocketMessage s result)
  then show ?thesis using assms by (auto simp: listened_def onMessageListener_def split: if_splits option.splits)
next
  case TimerFires
  then show ?thesis using assms ws_inv_open_socket [of "c\<lparr>ws_timers := ws_timers c - 1\<rparr>" c'] by (auto split: if_splits)
qed

lemma run_ws_simps [simp]:
  "run_ws [] c = Some c"
  "run_ws (i # inputs) c = (case ws_step i c of None \<Rightarrow> None | Some c' \<Rightarrow> run_ws inputs c')"
proof -
  have none: "fold (\<lambda>i oc. Option.bind oc (ws_step i)) inputs None = None" by (induction inputs) auto
  show "run_ws (i # inputs) c = (case ws_step i c of None \<Rightarrow> None | Some c' \<Rightarrow> run_ws inputs c')"
    using none by (simp add: run_ws_def split: option.split)
qed (simp add: run_ws_def)

lemma run_ws_append: "run_ws (xs @ ys) c = Option.bind (run_ws xs c) (run_ws ys)"
  by (induction xs arbitrary: c) (auto split: option.split)

lemma ws_inv_run: "ws_inv c \<Longrightarrow> run_ws inputs c = Some c' \<Longrightarrow> ws_inv c'"
  by (induction inputs arbitrary: c) (auto intro: ws_inv_step split: option.splits)


text \<open>
  A connection without limit that is lost is made again when its timer runs out, and has its
  subscriptions when it opens.
\<close>

lemma lost_connection:
  assumes "ws_inv c" "maxRetries c = - 1" "ws c = Some s" "s \<in> set (ws_listeners c)" "ws_state c s = OPEN" "code \<noteq> 1000"
  shows "\<exists>c'. run_ws [SocketClose s code, TimerFires, SocketOpen (ws_made c)] c = Some c' \<and> ws_inv c' \<and>
    ws c' = Some (ws_made c) \<and> ws_state c' (ws_made c) = OPEN \<and> isConnected c' \<and> queries c' = queries c \<and>
    subscribedQueries c' = fold count_again (map fst (subscribedQueries c)) (subscribedQueries c)"
proof -
  define d where "d = (set_state s CLOSED c)\<lparr>connectionRetries := connectionRetries c\<rparr>"
  have "ws_inv d"
    using ws_inv_closed [OF assms(1) ws_inv_bound(1) [OF assms(1,3)]] by (simp add: d_def set_state_def)
  obtain e where e: "open_socket d = Some e"
    using assms(3) by (auto simp: open_socket_def disconnect_def d_def set_state_def)
  note made = open_socket_Some(1) [OF e] open_socket_Some(2) [OF \<open>ws_inv d\<close> e] ws_inv_open_socket [OF \<open>ws_inv d\<close> e]
  have first: "run_ws [SocketClose s code, TimerFires] c = Some e"
    using assms(2,4,5,6) e by (simp add: listened_def onCloseListener_def reconnect_def d_def set_state_def)
  have d: "ws_made d = ws_made c" "subscribedQueries d = subscribedQueries c" by (simp_all add: d_def set_state_def)
  obtain c' where c': "onOpenListener (set_state (ws_made c) OPEN e) = Some c'" "ws_inv c'" "ws c' = Some (ws_made c)"
      "ws_state c' (ws_made c) = OPEN" "isConnected c'" "queries c' = queries e"
      "subscribedQueries c' = fold count_again (map fst (subscribedQueries e)) (subscribedQueries e)"
    using onOpen_current [of e "ws_made c"] made d by auto
  have "run_ws [SocketClose s code, TimerFires, SocketOpen (ws_made c)] c = Some c'"
    using run_ws_append [of "[SocketClose s code, TimerFires]" "[SocketOpen (ws_made c)]" c] first made c'(1) d
    by (simp add: listened_def)
  then show ?thesis using c' made d by (auto simp: queries_def)
qed

theorem lost_connection_recovers:
  assumes "run_ws inputs new_WsClient = Some c" "maxRetries c = - 1"
    and "ws c = Some s" "s \<in> set (ws_listeners c)" "ws_state c s = OPEN" "code \<noteq> 1000"
  shows "\<exists>c'. run_ws (inputs @ [SocketClose s code, TimerFires, SocketOpen (ws_made c)]) new_WsClient = Some c' \<and>
    isConnected c' \<and> ws c' = Some (ws_made c) \<and>
    {q. server_subscribed (ws_made c) q (ws_frames c')} = set (map fst (subscribedQueries c))"
proof -
  obtain c' where c': "run_ws [SocketClose s code, TimerFires, SocketOpen (ws_made c)] c = Some c'" "ws_inv c'"
      "ws c' = Some (ws_made c)" "ws_state c' (ws_made c) = OPEN" "isConnected c'" "queries c' = queries c"
    using lost_connection [OF ws_inv_run [OF ws_inv_new assms(1)] assms(2-6)] by auto
  have "run_ws (inputs @ [SocketClose s code, TimerFires, SocketOpen (ws_made c)]) new_WsClient = Some c'"
    using assms(1) c'(1) by (simp add: run_ws_append del: run_ws_simps)
  moreover have "{q. server_subscribed (ws_made c) q (ws_frames c')} = set (map fst (subscribedQueries c))"
    using ws_inv_server [OF c'(2-4)] c'(6) by (simp add: queries_def)
  ultimately show ?thesis using c' by blast
qed

text \<open>
  But every reconnection counts the subscriptions once more: a query that was subscribed to once is no
  longer unsubscribed from by one call.
\<close>

lemma count_again_other: "q \<noteq> q' \<Longrightarrow> map_of (count_again q l) q' = map_of l q'"
  by (simp add: count_again_def update_conv')

lemma count_again_all:
  "distinct qs \<Longrightarrow> q \<in> set qs \<Longrightarrow> map_of l q = Some n \<Longrightarrow> map_of (fold count_again qs l) q = Some (Suc n)"
proof (induction qs arbitrary: l)
  case (Cons x qs)
  have rest: "map_of (fold count_again qs l') q = map_of l' q" if "q \<notin> set qs" for l'
    using that by (induction qs arbitrary: l') (auto simp: count_again_other)
  show ?case
  proof (cases "x = q")
    case True
    have "map_of (count_again q l) q = Some (Suc n)" using Cons.prems(3) by (simp add: count_again_def update_conv')
    then show ?thesis using Cons.prems(1) rest [of "count_again q l"] True by simp
  next
    case False
    then show ?thesis using Cons.IH [of "count_again x l"] Cons.prems by (simp add: count_again_other)
  qed
qed simp

lemma unsubscribe_after_reconnection:
  assumes "ws_inv c" "maxRetries c = - 1" "ws c = Some s" "s \<in> set (ws_listeners c)" "ws_state c s = OPEN" "code \<noteq> 1000"
    and "distinct (map fst (subscribedQueries c))" "map_of (subscribedQueries c) q = Some n" "0 < n"
  shows "\<exists>c'. run_ws [SocketClose s code, TimerFires, SocketOpen (ws_made c), UnsubscribeCall q] c = Some c' \<and>
    server_subscribed (ws_made c) q (ws_frames c')"
proof -
  obtain c' where c': "run_ws [SocketClose s code, TimerFires, SocketOpen (ws_made c)] c = Some c'" "ws_inv c'"
      "ws c' = Some (ws_made c)" "ws_state c' (ws_made c) = OPEN" "queries c' = queries c"
      "subscribedQueries c' = fold count_again (map fst (subscribedQueries c)) (subscribedQueries c)"
    using lost_connection [OF assms(1-6)] by auto
  have q: "q \<in> queries c" using assms(8) unfolding queries_def by (metis map_of_SomeD fst_conv image_eqI)
  have "map_of (subscribedQueries c') q = Some (Suc n)"
    using count_again_all [OF assms(7) _ assms(8)] q c'(6) by (simp add: queries_def)
  then have "unsubscribe q c' = Some (c'\<lparr>subscribedQueries := AList.update q n (subscribedQueries c')\<rparr>)"
    using assms(9) by (simp add: unsubscribe_def)
  then show ?thesis
    using run_ws_append [of "[SocketClose s code, TimerFires, SocketOpen (ws_made c)]" "[UnsubscribeCall q]" c] c' q
      ws_inv_server [OF c'(2-4), of q]
    by (simp add: called_def)
qed

section \<open>Attempts\<close>

definition same_budget :: "'m ws_client \<Rightarrow> 'm ws_client \<Rightarrow> bool" where
  "same_budget c c' \<longleftrightarrow> maxRetries c' = maxRetries c \<and> connectionRetries c' = connectionRetries c \<and>
    ws_made c' = ws_made c \<and> ws_timers c' = ws_timers c"

lemma budget_subscribe: "subscribe q c = Some c' \<Longrightarrow> same_budget c c'"
  by (auto simp: subscribe_alt ws_send_def same_budget_def bind_eq_Some_conv split: option.splits ready_state.splits)

lemma budget_unsubscribe: "unsubscribe q c = Some c' \<Longrightarrow> same_budget c c'"
  by (auto simp: unsubscribe_def ws_send_def same_budget_def bind_eq_Some_conv Let_def
      split: option.splits ready_state.splits if_splits)

lemma budget_disconnect: "disconnect c = Some c' \<Longrightarrow> same_budget c c'"
  by (auto simp: disconnect_def same_budget_def split: option.splits)

lemma budget_close: "close_client c = Some c' \<Longrightarrow> same_budget c c'"
  by (auto simp: close_client_def bind_eq_Some_conv same_budget_def disconnect_def split: if_splits option.splits)

lemma budget_subscribe_all:
  "fold (\<lambda>query oc. Option.bind oc (subscribe query)) qs (Some c) = Some c' \<Longrightarrow> same_budget c c'"
proof (induction qs arbitrary: c)
  case (Cons q qs)
  have none: "fold (\<lambda>query oc. Option.bind oc (subscribe query)) qs None = (None :: 'a ws_client option)"
    by (induction qs) auto
  from Cons.prems none obtain d where "subscribe q c = Some d"
      "fold (\<lambda>query oc. Option.bind oc (subscribe query)) qs (Some d) = Some c'"
    by (cases "subscribe q c") auto
  then show ?case using Cons.IH budget_subscribe [of q c d] by (force simp: same_budget_def)
qed (simp add: same_budget_def)

lemma budget_onOpen: "onOpenListener (set_state s OPEN c) = Some c' \<Longrightarrow> same_budget c c'"
  unfolding onOpenListener_def Let_def by (drule budget_subscribe_all) (simp add: same_budget_def set_state_def)

definition within_budget :: "int \<Rightarrow> 'm ws_client \<Rightarrow> bool" where
  "within_budget m c \<longleftrightarrow> maxRetries c = m \<and> connectionRetries c \<le> m + 1 \<and>
    int (ws_made c + ws_timers c) = 1 + connectionRetries c"

lemma within_same: "within_budget m c \<Longrightarrow> same_budget c c' \<Longrightarrow> within_budget m c'"
  by (simp add: within_budget_def same_budget_def)

lemma within_reconnect: "0 < m \<Longrightarrow> within_budget m c \<Longrightarrow> reconnect c = Some c' \<Longrightarrow> within_budget m c'"
  by (auto simp: within_budget_def reconnect_def disconnect_def bind_eq_Some_conv split: if_splits option.splits)

lemma within_step:
  assumes "0 < m" "within_budget m c" "ws_step i c = Some c'" "\<forall>l. i \<noteq> ConnectCall l"
  shows "within_budget m c'"
proof (cases i)
  case (SocketClose s code)
  have "within_budget m (set_state s CLOSED c)" using assms(2) by (simp add: within_budget_def set_state_def)
  then show ?thesis using SocketClose assms
    by (auto simp: listened_def onCloseListener_def split: if_splits
        intro: within_reconnect within_same budget_disconnect)
next
  case (SocketError s code)
  have "same_budget d (d\<lparr>ws_emitted := es\<rparr>)" for d :: "'a ws_client" and es by (simp add: same_budget_def)
  then show ?thesis using SocketError assms
    by (auto simp: listened_def onErrorListener_def bind_eq_Some_conv split: if_splits
        intro: within_reconnect within_same [OF within_same [OF _ budget_disconnect]])
next
  case TimerFires
  then show ?thesis using assms(2,3)
    by (auto simp: open_socket_def disconnect_def bind_eq_Some_conv within_budget_def split: if_splits option.splits)
next
  case (SocketMessage s result)
  then show ?thesis using assms(2,3) by (auto simp: listened_def onMessageListener_def within_budget_def split: if_splits option.splits)
qed (use assms in \<open>auto simp: called_def listened_def split: option.splits if_splits
  intro: within_same budget_subscribe budget_unsubscribe budget_close budget_onOpen\<close>)

text \<open>
  With a limit of \<open>m\<close> the client makes at most \<open>m + 2\<close> sockets, over its whole life: the count is
  not reset when a connection was made.
\<close>

theorem sockets_bounded:
  assumes "0 < m" "connect (Some m) new_WsClient = Some c" "run_ws inputs c = Some c'"
    and "\<forall>l. ConnectCall l \<notin> set inputs"
  shows "int (ws_made c' + ws_timers c') \<le> m + 2"
proof -
  have "within_budget m c"
    using assms(1,2) by (auto simp: connect_def open_socket_def new_WsClient_def within_budget_def)
  then have "within_budget m c'"
    using assms(3,4)
  proof (induction inputs arbitrary: c)
    case (Cons i inputs)
    from Cons.prems(2) obtain d where d: "ws_step i c = Some d" "run_ws inputs d = Some c'"
      by (auto split: option.splits)
    have "within_budget m d" using within_step [OF assms(1) Cons.prems(1) d(1)] Cons.prems(3) by auto
    then show ?case using Cons.IH d(2) Cons.prems(3) by simp
  qed simp
  then show ?thesis by (simp add: within_budget_def)
qed

text \<open>An attempt that is refused uses up two: \<open>ws\<close> reports an error, then the close, and both listeners
  set a timer.\<close>

lemma refused_attempt_counts_twice:
  assumes "ws c = Some s" "s \<in> set (ws_listeners c)" "ws_state c s = CONNECTING" "connectionRetries c < maxRetries c" "0 < maxRetries c"
  shows "\<exists>c'. run_ws [SocketError s ''ECONNREFUSED'', SocketClose s 1006] c = Some c' \<and>
    connectionRetries c' = connectionRetries c + 2 \<and> ws_timers c' = ws_timers c + 2"
  using assms by (simp add: listened_def onErrorListener_def onCloseListener_def reconnect_def set_state_def)

text \<open>A timer that was set is not cleared by \<open>close\<close>, and opens a socket again.\<close>

theorem close_does_not_stop_reconnection:
  assumes "ws_timers c > 0" "ws c = Some s"
  shows "\<exists>c'. run_ws [CloseCall, TimerFires] c = Some c' \<and> ws c' = Some (ws_made c) \<and> ws_made c \<in> set (ws_listeners c')"
  using assms by (auto simp: called_def close_client_def disconnect_def open_socket_def)

section \<open>BlockchainListener\<close>

text \<open>A message of Tenderdash: the hashes under \<open>events['tx.hash']\<close>, if there are any, and its data.\<close>

record 'd tm_message =
  msg_txHash :: "string list option"
  msg_data :: 'd

definition TX_QUERY :: string where "TX_QUERY = ''tm.event = '' @ [CHR 0x27] @ ''Tx'' @ [CHR 0x27]"
definition NEW_BLOCK_QUERY :: string where "NEW_BLOCK_QUERY = ''tm.event = '' @ [CHR 0x27] @ ''NewBlock'' @ [CHR 0x27]"
definition NEW_BLOCK :: string where "NEW_BLOCK = ''block''"

definition getTransactionEventName :: "string \<Rightarrow> string" where
  "getTransactionEventName hash = ''transaction:'' @ hash"

text \<open>What the listener emits for a message under a query: the event and the message.\<close>

definition blockchain_event :: "string \<Rightarrow> 'd tm_message \<Rightarrow> (string \<times> 'd tm_message) option" where
  "blockchain_event query m =
    (if query = TX_QUERY
     then case msg_txHash m of
         Some (h # hs) \<Rightarrow> (if h = [] then None else Some (getTransactionEventName h, m))
       | _ \<Rightarrow> None
     else if query = NEW_BLOCK_QUERY then Some (NEW_BLOCK, m)
     else None)"

definition start_listener :: "'m ws_client \<Rightarrow> 'm ws_client option" where
  "start_listener c = Option.bind (subscribe TX_QUERY c) (subscribe NEW_BLOCK_QUERY)"

lemma transaction_event_names:
  "getTransactionEventName h = getTransactionEventName h' \<longleftrightarrow> h = h'" "getTransactionEventName h \<noteq> NEW_BLOCK"
  by (simp_all add: getTransactionEventName_def NEW_BLOCK_def)

section \<open>A connection\<close>

definition sample_inputs :: "unit ws_input list" where
  "sample_inputs = [ConnectCall None, SocketOpen 0, SubscribeCall TX_QUERY, SubscribeCall NEW_BLOCK_QUERY]"

lemma sample_connection:
  "\<exists>c. run_ws sample_inputs new_WsClient = Some c \<and> ws c = Some 0 \<and> ws_listeners c = [0] \<and> ws_state c 0 = OPEN \<and>
    maxRetries c = - 1 \<and> ws_made c = 1 \<and> ws_timers c = 0 \<and> set (map fst (subscribedQueries c)) = {TX_QUERY, NEW_BLOCK_QUERY}"
  by (simp add: sample_inputs_def run_ws_def called_def connect_def open_socket_def new_WsClient_def listened_def
      onOpenListener_def set_state_def subscribe_alt ws_send_def count_again_def TX_QUERY_def NEW_BLOCK_QUERY_def Let_def)


theorem lost_connection_recovers_witness:
  "\<exists>c'. run_ws (sample_inputs @ [SocketClose 0 1006, TimerFires, SocketOpen 1]) new_WsClient = Some c' \<and>
    isConnected c' \<and> {q. server_subscribed 1 q (ws_frames c')} = {TX_QUERY, NEW_BLOCK_QUERY}"
proof -
  obtain c where c: "run_ws sample_inputs new_WsClient = Some c" "maxRetries c = - 1" "ws c = Some 0"
      "0 \<in> set (ws_listeners c)" "ws_state c 0 = OPEN" "ws_made c = 1"
      "set (map fst (subscribedQueries c)) = {TX_QUERY, NEW_BLOCK_QUERY}"
    using sample_connection by auto
  show ?thesis using lost_connection_recovers [OF c(1-5), of 1006] c(6,7) by (simp add: run_ws_append del: run_ws_simps) metis
qed

theorem sockets_bounded_witness:
  "\<exists>c c'. connect (Some 1) (new_WsClient :: unit ws_client) = Some c \<and>
    run_ws [SocketError 0 ''ECONNREFUSED'', SocketClose 0 1006, TimerFires, TimerFires] c = Some c' \<and>
    ws_made c' = 3 \<and> int (ws_made c' + ws_timers c') \<le> 3"
proof -
  obtain c :: "unit ws_client" where c: "connect (Some 1) new_WsClient = Some c"
    by (simp add: connect_def open_socket_def new_WsClient_def)
  obtain c' where c': "run_ws [SocketError 0 ''ECONNREFUSED'', SocketClose 0 1006, TimerFires, TimerFires] c = Some c'"
      "ws_made c' = 3"
    using c by (auto simp: connect_def open_socket_def new_WsClient_def listened_def onErrorListener_def onCloseListener_def
        reconnect_def set_state_def disconnect_def)
  show ?thesis using sockets_bounded [OF _ c c'(1)] c c' by auto
qed

theorem close_does_not_stop_reconnection_witness:
  "\<exists>c. run_ws (sample_inputs @ [SocketClose 0 1006]) new_WsClient = Some c \<and>
    (\<exists>c'. run_ws [CloseCall, TimerFires] c = Some c' \<and> ws c' = Some 1 \<and> 1 \<in> set (ws_listeners c'))"
proof -
  have "\<exists>c. run_ws (sample_inputs @ [SocketClose 0 1006]) new_WsClient = Some c \<and> ws c = Some 0 \<and> ws_timers c = 1 \<and> ws_made c = 1"
    using sample_connection by (auto simp: run_ws_append listened_def onCloseListener_def reconnect_def set_state_def)
  then obtain c where c: "run_ws (sample_inputs @ [SocketClose 0 1006]) new_WsClient = Some c" "ws c = Some 0"
      "ws_timers c = 1" "ws_made c = 1" by blast
  show ?thesis using close_does_not_stop_reconnection [of c 0] c by (simp del: run_ws_simps)
qed

end
