(* ===== verification/TransactionWaiting.thy ===== *)
theory TransactionWaiting
  imports ErrorTransport TendermintEvents Queries
begin

text \<open>
  DAPI waits for the result of a state transition: \<open>waitForTransactionResult.js\<close>,
  \<open>getExistingTransactionResult.js\<close>, \<open>waitForHeightFactory.js\<close> and
  \<open>waitForTransactionToBeProvableFactory.js\<close> under \<open>packages/dapi/lib/externalApis/tenderdash\<close>,
  \<open>externalApis/drive/fetchProofForStateTransitionFactory.js\<close>, and the handler
  \<open>grpcServer/handlers/platform/waitForStateTransitionResultHandlerFactory.js\<close>.

  A wait is a state machine: the promises of one call are its state, and its inputs are the events of
  the blockchain listener, the answer of Tenderdash to the query for the transaction, the timer, and
  the reaction to the settled result, which runs later than what settled it.
\<close>

section \<open>Results\<close>

text \<open>A result of Tenderdash: code and info of its \<open>deliverTx\<close>, height and bytes of the transaction.\<close>

record tx_result =
  txr_code :: "int option"
  txr_info :: "buffer option"
  txr_height :: int
  txr_tx :: buffer

datatype transaction_result = TransactionOkResult tx_result | TransactionErrorResult tx_result

text \<open>The result of an event, where no code counts as success, and of a query, where it does not.\<close>

definition event_result :: "tx_result \<Rightarrow> transaction_result" where
  "event_result r =
    (if txr_code r \<noteq> None \<and> txr_code r \<noteq> Some 0 then TransactionErrorResult r else TransactionOkResult r)"

definition existing_result :: "tx_result \<Rightarrow> transaction_result" where
  "existing_result r = (if txr_code r = Some 0 then TransactionOkResult r else TransactionErrorResult r)"

datatype tx_answer = TxFound tx_result | TxFailed int string

section \<open>One wait\<close>

datatype wait_outcome = Resolved transaction_result | PeriodExceeded | Rejected int string

record waiting =
  w_hash :: string
  w_attached :: bool
  w_asked :: bool
  w_result :: "(int \<times> string + transaction_result) option"
  w_reacted :: bool
  w_height :: "int option"
  w_outcome :: "wait_outcome option"
  currentHeight :: int

definition start_waiting :: "string \<Rightarrow> int \<Rightarrow> waiting" where
  "start_waiting hash height = \<lparr> w_hash = hash, w_attached = True, w_asked = True, w_result = None,
     w_reacted = False, w_height = None, w_outcome = None, currentHeight = height \<rparr>"

datatype wait_event =
    TransactionSeen string tx_result
  | QueryAnswered tx_answer
  | BlockSeen int
  | Reaction
  | TimerExpired

text \<open>A promise that is settled, or a race that is decided, stays as it is.\<close>

definition settle_result :: "int \<times> string + transaction_result \<Rightarrow> waiting \<Rightarrow> waiting" where
  "settle_result r w = (if w_result w = None then w\<lparr>w_result := Some r\<rparr> else w)"

definition settle_outcome :: "wait_outcome \<Rightarrow> waiting \<Rightarrow> waiting" where
  "settle_outcome out w = (if w_outcome w = None then w\<lparr>w_outcome := Some out\<rparr> else w)"

definition waitForTransactionResult_handler :: "tx_result \<Rightarrow> waiting \<Rightarrow> waiting" where
  "waitForTransactionResult_handler r w = settle_result (Inr (event_result r)) (w\<lparr>w_attached := False\<rparr>)"

definition not_found_message :: "string \<Rightarrow> string" where
  "not_found_message hash = ''tx ('' @ hash @ '') not found''"

definition existing_answered :: "tx_answer \<Rightarrow> waiting \<Rightarrow> waiting" where
  "existing_answered answer w =
    (case answer of
       TxFound r \<Rightarrow> settle_result (Inr (existing_result r)) (w\<lparr>w_attached := False\<rparr>)
     | TxFailed code d \<Rightarrow>
         (if code = - 32603 \<and> d = not_found_message (w_hash w) then w else settle_result (Inl (code, d)) w))"

definition waitForHeight :: "int \<Rightarrow> transaction_result \<Rightarrow> waiting \<Rightarrow> waiting" where
  "waitForHeight height r w =
    (if currentHeight w \<ge> height then settle_outcome (Resolved r) w else w\<lparr>w_height := Some height\<rparr>)"

definition result_reaction :: "waiting \<Rightarrow> waiting" where
  "result_reaction w =
    (case w_result w of
       None \<Rightarrow> w
     | Some r \<Rightarrow>
         (if w_reacted w then w
          else (let w = w\<lparr>w_reacted := True\<rparr>
            in case r of
                Inl (code, d) \<Rightarrow> settle_outcome (Rejected code d) w
              | Inr (TransactionOkResult t) \<Rightarrow> waitForHeight (txr_height t + 1) (TransactionOkResult t) w
              | Inr (TransactionErrorResult t) \<Rightarrow> settle_outcome (Resolved (TransactionErrorResult t)) w)))"

text \<open>The listener that keeps the height was attached first and so runs before the one that waits.\<close>

definition block_seen :: "int \<Rightarrow> waiting \<Rightarrow> waiting" where
  "block_seen height w0 =
    (let w = w0\<lparr>currentHeight := height\<rparr>
     in case (w_height w, w_result w) of
          (Some awaited, Some (Inr r)) \<Rightarrow>
            (if height \<ge> awaited then settle_outcome (Resolved r) (w\<lparr>w_height := None\<rparr>) else w)
        | _ \<Rightarrow> w)"

fun wait_step :: "waiting \<Rightarrow> wait_event \<Rightarrow> waiting" where
  "wait_step w (TransactionSeen hash r) =
    (if w_attached w \<and> hash = w_hash w then waitForTransactionResult_handler r w else w)"
| "wait_step w (QueryAnswered answer) = (if w_asked w then existing_answered answer (w\<lparr>w_asked := False\<rparr>) else w)"
| "wait_step w (BlockSeen height) = block_seen height w"
| "wait_step w Reaction = result_reaction w"
| "wait_step w TimerExpired = settle_outcome PeriodExceeded (w\<lparr>w_attached := False\<rparr>)"

definition waitForTransactionToBeProvable :: "string \<Rightarrow> int \<Rightarrow> wait_event list \<Rightarrow> waiting" where
  "waitForTransactionToBeProvable hash height events = foldl wait_step (start_waiting hash height) events"

section \<open>What a wait does\<close>

lemma settle_simps [simp]:
  "w_result (settle_outcome out w) = w_result w" "w_height (settle_outcome out w) = w_height w"
  "w_attached (settle_outcome out w) = w_attached w" "w_asked (settle_outcome out w) = w_asked w"
  "w_hash (settle_outcome out w) = w_hash w" "w_reacted (settle_outcome out w) = w_reacted w"
  "currentHeight (settle_outcome out w) = currentHeight w"
  "w_outcome (settle_outcome out w) = (case w_outcome w of None \<Rightarrow> Some out | some \<Rightarrow> some)"
  "w_outcome (settle_result r w) = w_outcome w" "w_height (settle_result r w) = w_height w"
  "w_attached (settle_result r w) = w_attached w" "w_asked (settle_result r w) = w_asked w"
  "w_hash (settle_result r w) = w_hash w" "w_reacted (settle_result r w) = w_reacted w"
  "currentHeight (settle_result r w) = currentHeight w"
  "w_result (settle_result r w) = (case w_result w of None \<Rightarrow> Some r | some \<Rightarrow> some)"
  by (auto simp: settle_outcome_def settle_result_def split: option.split)

lemmas wait_step_defs = waitForTransactionResult_handler_def existing_answered_def waitForHeight_def
  result_reaction_def block_seen_def Let_def

text \<open>Where a result comes from: an event of the transaction, or the answer to the query.\<close>

fun result_of_event :: "string \<Rightarrow> wait_event \<Rightarrow> transaction_result option" where
  "result_of_event hash (TransactionSeen hash' r) = (if hash' = hash then Some (event_result r) else None)"
| "result_of_event hash (QueryAnswered (TxFound r)) = Some (existing_result r)"
| "result_of_event hash _ = None"

definition wait_inv :: "string \<Rightarrow> int \<Rightarrow> wait_event list \<Rightarrow> waiting \<Rightarrow> bool" where
  "wait_inv hash height events w \<longleftrightarrow> w_hash w = hash \<and>
    (currentHeight w = height \<or> BlockSeen (currentHeight w) \<in> set events) \<and>
    (\<forall>r. w_result w = Some (Inr r) \<longrightarrow> (\<exists>e \<in> set events. result_of_event hash e = Some r)) \<and>
    (\<forall>h. w_height w = Some h \<longrightarrow> (\<exists>t. w_result w = Some (Inr (TransactionOkResult t)) \<and> h = txr_height t + 1)) \<and>
    (\<forall>r. w_outcome w = Some (Resolved r) \<longrightarrow> w_result w = Some (Inr r)) \<and>
    (\<forall>t. w_outcome w = Some (Resolved (TransactionOkResult t)) \<longrightarrow>
       height \<ge> txr_height t + 1 \<or> (\<exists>h. BlockSeen h \<in> set events \<and> h \<ge> txr_height t + 1)) \<and>
    (w_outcome w = Some PeriodExceeded \<longrightarrow> TimerExpired \<in> set events)"

lemma wait_inv_start: "wait_inv hash height [] (start_waiting hash height)"
  by (simp add: wait_inv_def start_waiting_def)

lemma wait_inv_step:
  assumes "wait_inv hash height events w"
  shows "wait_inv hash height (events @ [e]) (wait_step w e)"
proof (cases e)
  case (TransactionSeen hash' r)
  then show ?thesis using assms
    by (auto simp: wait_inv_def waitForTransactionResult_handler_def split: option.split)
next
  case (QueryAnswered answer)
  then show ?thesis using assms
    by (cases answer) (auto simp: wait_inv_def existing_answered_def split: option.split)
next
  case (BlockSeen h)
  then show ?thesis using assms
    by (auto simp: wait_inv_def block_seen_def Let_def split: option.splits sum.splits)
next
  case Reaction
  then show ?thesis using assms
    by (auto simp: wait_inv_def result_reaction_def waitForHeight_def Let_def
        split: option.splits sum.splits transaction_result.splits prod.splits)
next
  case TimerExpired
  then show ?thesis using assms by (auto simp: wait_inv_def split: option.splits)
qed

lemma wait_inv_run: "wait_inv hash height events (waitForTransactionToBeProvable hash height events)"
  unfolding waitForTransactionToBeProvable_def
  by (induction events rule: rev_induct) (auto intro: wait_inv_start wait_inv_step)

text \<open>
  C37. A wait resolves only with a result that Tenderdash gave for the transaction, and with a success
  only when a block after that of the transaction was seen.
\<close>

theorem wait_resolves_after_next_block:
  assumes "w_outcome (waitForTransactionToBeProvable hash height events) = Some (Resolved r)"
  shows "(\<exists>e \<in> set events. result_of_event hash e = Some r) \<and>
    (case r of
       TransactionErrorResult t \<Rightarrow> True
     | TransactionOkResult t \<Rightarrow> height > txr_height t \<or> (\<exists>h. BlockSeen h \<in> set events \<and> h > txr_height t))"
  using wait_inv_run [of hash height events] assms
  by (fastforce simp: wait_inv_def add1_zle_eq split: transaction_result.split)

text \<open>No result is lost: the events are heard before the query is sent.\<close>

definition undisturbed :: "string \<Rightarrow> transaction_result \<Rightarrow> wait_event \<Rightarrow> bool" where
  "undisturbed hash r e \<longleftrightarrow> e \<noteq> TimerExpired \<and> result_of_event hash e \<in> {None, Some r} \<and>
    (\<forall>code d. e = QueryAnswered (TxFailed code d) \<longrightarrow> code = - 32603 \<and> d = not_found_message hash)"

definition on_the_way :: "string \<Rightarrow> transaction_result \<Rightarrow> waiting \<Rightarrow> bool" where
  "on_the_way hash r w \<longleftrightarrow> w_hash w = hash \<and> w_result w \<in> {None, Some (Inr r)} \<and>
    (\<not> w_attached w \<longrightarrow> w_result w = Some (Inr r)) \<and> w_outcome w \<in> {None, Some (Resolved r)} \<and>
    (w_reacted w \<longrightarrow> w_result w = Some (Inr r) \<and> (w_outcome w = Some (Resolved r) \<or>
       (\<exists>t. r = TransactionOkResult t \<and> w_height w = Some (txr_height t + 1)))) \<and>
    (\<forall>h. w_height w = Some h \<longrightarrow> w_result w = Some (Inr r))"

lemma on_the_way_step:
  assumes "on_the_way hash r w" "undisturbed hash r e"
  shows "on_the_way hash r (wait_step w e)"
proof (cases e)
  case (TransactionSeen hash' t)
  then show ?thesis using assms
    by (auto simp: on_the_way_def undisturbed_def waitForTransactionResult_handler_def split: option.splits if_splits)
next
  case (QueryAnswered answer)
  then show ?thesis using assms
    by (cases answer) (auto simp: on_the_way_def undisturbed_def existing_answered_def split: option.splits)
next
  case (BlockSeen h)
  then show ?thesis using assms
    by (auto simp: on_the_way_def block_seen_def Let_def split: option.splits sum.splits)
next
  case Reaction
  show ?thesis
  proof (cases "w_result w = None \<or> w_reacted w")
    case True
    then have "result_reaction w = w" by (auto simp: result_reaction_def split: option.split)
    then show ?thesis using Reaction assms(1) by simp
  next
    case False
    then have "w_result w = Some (Inr r)" using assms(1) by (auto simp: on_the_way_def)
    then show ?thesis using Reaction assms(1) False
      by (cases r) (auto simp: on_the_way_def result_reaction_def waitForHeight_def Let_def split: option.splits)
  qed
qed (use assms in \<open>auto simp: undisturbed_def\<close>)

lemma on_the_way_run: "on_the_way hash r w \<Longrightarrow> list_all (undisturbed hash r) events \<Longrightarrow> on_the_way hash r (foldl wait_step w events)"
  by (induction events arbitrary: w) (auto intro: on_the_way_step)

definition settled_in :: "waiting \<Rightarrow> waiting \<Rightarrow> bool" where
  "settled_in w w' \<longleftrightarrow> (w_result w \<noteq> None \<longrightarrow> w_result w' = w_result w) \<and> (w_reacted w \<longrightarrow> w_reacted w') \<and>
    (w_outcome w \<noteq> None \<longrightarrow> w_outcome w' = w_outcome w) \<and> (\<not> w_attached w \<longrightarrow> \<not> w_attached w')"

lemma settled_in_step: "settled_in w (wait_step w e)"
proof (cases e)
  case (TransactionSeen hash t)
  then show ?thesis by (auto simp: settled_in_def waitForTransactionResult_handler_def)
next
  case (QueryAnswered answer)
  then show ?thesis by (auto simp: settled_in_def existing_answered_def split: tx_answer.split)
next
  case (BlockSeen h)
  then show ?thesis by (auto simp: settled_in_def block_seen_def Let_def split: option.split sum.split)
next
  case Reaction
  have "settled_in w (w\<lparr>w_reacted := True\<rparr>)" "settled_in w (settle_outcome out (w\<lparr>w_reacted := True\<rparr>))"
      "settled_in w (waitForHeight h r (w\<lparr>w_reacted := True\<rparr>))" "settled_in w w" for out h r
    by (auto simp: settled_in_def waitForHeight_def)
  then show ?thesis using Reaction
    by (simp add: result_reaction_def Let_def split: option.split sum.split transaction_result.split prod.split)
qed (auto simp: settled_in_def)

lemma step_keeps:
  "w_result w = Some r \<Longrightarrow> w_result (wait_step w e) = Some r"
  "w_reacted w \<Longrightarrow> w_reacted (wait_step w e)"
  "w_outcome w = Some out \<Longrightarrow> w_outcome (wait_step w e) = Some out"
  "\<not> w_attached w \<Longrightarrow> \<not> w_attached (wait_step w e)"
  using settled_in_step [of w e] by (auto simp: settled_in_def)

lemma result_heard:
  assumes "on_the_way hash r w" "list_all (undisturbed hash r) events"
    and "TransactionSeen hash t \<in> set events \<or> w_result w = Some (Inr r)"
  shows "w_result (foldl wait_step w events) = Some (Inr r)"
  using assms
proof (induction events arbitrary: w)
  case (Cons e events)
  have way: "on_the_way hash r (wait_step w e)" using Cons.prems on_the_way_step by simp
  have "w_result (wait_step w e) = Some (Inr r)" if "e = TransactionSeen hash t"
  proof -
    have "w_result (wait_step w e) \<noteq> None"
      using Cons.prems(1) that
      by (auto simp: on_the_way_def waitForTransactionResult_handler_def split: option.splits)
    then show ?thesis using way by (auto simp: on_the_way_def)
  qed
  then show ?case using Cons way step_keeps(1) [of w "Inr r" e] by auto
qed simp

lemma outcome_stays: "w_outcome w = Some out \<Longrightarrow> w_outcome (foldl wait_step w events) = Some out"
  by (induction events arbitrary: w) (auto simp: step_keeps(3) simp del: wait_step.simps)

lemma detached_stays: "\<not> w_attached w \<Longrightarrow> \<not> w_attached (foldl wait_step w events)"
  by (induction events arbitrary: w) (auto simp: step_keeps(4) simp del: wait_step.simps)

lemma block_resolves:
  assumes "on_the_way hash (TransactionOkResult t) w" "list_all (undisturbed hash (TransactionOkResult t)) events"
    and "w_reacted w" "BlockSeen h \<in> set events" "h > txr_height t"
  shows "w_outcome (foldl wait_step w events) = Some (Resolved (TransactionOkResult t))"
  using assms
proof (induction events arbitrary: w)
  case (Cons e events)
  show ?case
  proof (cases "e = BlockSeen h")
    case True
    have "w_outcome (wait_step w e) = Some (Resolved (TransactionOkResult t))"
      using Cons.prems(1,3,5) True by (auto simp: on_the_way_def block_seen_def Let_def split: option.split)
    then show ?thesis using outcome_stays by simp
  next
    case False
    then show ?thesis using Cons step_keeps(2) [OF Cons.prems(3)] on_the_way_step by simp
  qed
qed simp

text \<open>
  C36. A transaction that Tenderdash announces resolves the wait with its result: a failure as soon as the
  reaction to it runs, a success when a block after that of the transaction is seen then.
\<close>

theorem wait_delivers:
  assumes "list_all (undisturbed hash (event_result t)) (before @ Reaction # after)"
    and "TransactionSeen hash t \<in> set before"
    and "txr_code t \<notin> {None, Some 0} \<or> BlockSeen h \<in> set after \<and> h > txr_height t"
  shows "w_outcome (waitForTransactionToBeProvable hash height (before @ Reaction # after)) =
    Some (Resolved (event_result t))"
proof -
  let ?r = "event_result t" and ?w = "foldl wait_step (start_waiting hash height) before"
  have start: "on_the_way hash ?r (start_waiting hash height)" by (simp add: on_the_way_def start_waiting_def)
  have way: "on_the_way hash ?r ?w" "w_result ?w = Some (Inr ?r)"
    using on_the_way_run [OF start] result_heard [OF start] assms(1,2) by auto
  have reacted: "on_the_way hash ?r (wait_step ?w Reaction)" "w_reacted (wait_step ?w Reaction)"
    using on_the_way_step [OF way(1), of Reaction] assms(1) way(2)
    by (simp_all add: result_reaction_def waitForHeight_def Let_def split: transaction_result.split)
  have "w_outcome (foldl wait_step (wait_step ?w Reaction) after) = Some (Resolved ?r)"
  proof (cases "txr_code t \<notin> {None, Some 0}")
    case True
    then have "?r = TransactionErrorResult t" by (simp add: event_result_def)
    then have "w_outcome (wait_step ?w Reaction) = Some (Resolved ?r)" using reacted by (auto simp: on_the_way_def)
    then show ?thesis by (rule outcome_stays)
  next
    case False
    then have "?r = TransactionOkResult t" by (auto simp: event_result_def)
    then show ?thesis using block_resolves [of hash t "wait_step ?w Reaction" "after" h] reacted assms(1,3) False by auto
  qed
  then show ?thesis by (simp add: waitForTransactionToBeProvable_def)
qed

text \<open>When the timer runs out, every wait is settled, and does not hear the transaction any more.\<close>

theorem wait_ends_with_timer:
  assumes "TimerExpired \<in> set events"
  shows "w_outcome (waitForTransactionToBeProvable hash height events) \<noteq> None \<and>
    \<not> w_attached (waitForTransactionToBeProvable hash height events)"
proof -
  obtain xs ys where events: "events = xs @ TimerExpired # ys" using assms split_list by metis
  let ?w = "wait_step (foldl wait_step (start_waiting hash height) xs) TimerExpired"
  have "w_outcome ?w \<noteq> None" "\<not> w_attached ?w" by (auto split: option.split)
  moreover have "\<not> w_attached (foldl wait_step ?w ys)" using calculation(2) detached_stays by blast
  moreover have "w_outcome (foldl wait_step ?w ys) \<noteq> None" using calculation(1) outcome_stays by blast
  ultimately show ?thesis by (simp add: waitForTransactionToBeProvable_def events)
qed

section \<open>The handler\<close>

datatype proof_kind = DocumentsProof | IdentitiesProof | DataContractsProof

fun transition_kind :: "state_transition \<Rightarrow> proof_kind" where
  "transition_kind (DocumentsBatchTransition b ownerId transitions) = DocumentsProof"
| "transition_kind (IdentityCreateTransition b p publicKeys) = IdentitiesProof"
| "transition_kind (IdentityTopUpTransition b p identityId) = IdentitiesProof"
| "transition_kind (DataContractCreateTransition b contract entropy) = DataContractsProof"

text \<open>\<open>createIdentifier\<close> is the identifier of the identity that an asset lock proof creates.\<close>

fun getModifiedDataIds :: "(asset_lock_proof \<Rightarrow> ident) \<Rightarrow> state_transition \<Rightarrow> ident list" where
  "getModifiedDataIds createIdentifier (DocumentsBatchTransition b ownerId transitions) = map tr_id transitions"
| "getModifiedDataIds createIdentifier (IdentityCreateTransition b p publicKeys) = [createIdentifier p]"
| "getModifiedDataIds createIdentifier (IdentityTopUpTransition b p identityId) = [identityId]"
| "getModifiedDataIds createIdentifier (DataContractCreateTransition b contract entropy) = [dc_id contract]"

text \<open>\<open>fetchProofs documentIds identityIds dataContractIds\<close> is Drive's answer; ids that are not given are none.\<close>

definition fetchProofForStateTransition ::
    "(asset_lock_proof \<Rightarrow> ident) \<Rightarrow> (ident list \<Rightarrow> ident list \<Rightarrow> ident list \<Rightarrow> 'e + proofs_response) \<Rightarrow> state_transition \<Rightarrow>
      'e + (buffer \<times> buffer \<times> full_proof) option \<times> int \<times> int" where
  "fetchProofForStateTransition createIdentifier fetchProofs st =
    (let modifiedIds = getModifiedDataIds createIdentifier st
     in case transition_kind st of
          DocumentsProof \<Rightarrow> rbind (fetchProofs modifiedIds [] []) (\<lambda>r. Inr (ps_documentsProof r, ps_metadata r))
        | IdentitiesProof \<Rightarrow> rbind (fetchProofs [] modifiedIds []) (\<lambda>r. Inr (ps_identitiesProof r, ps_metadata r))
        | DataContractsProof \<Rightarrow> rbind (fetchProofs [] [] modifiedIds) (\<lambda>r. Inr (ps_dataContractsProof r, ps_metadata r)))"

text \<open>The response: the error with its code, or the metadata and the proof under the name of its kind.\<close>

record 'd wait_response =
  wr_error :: "(int option \<times> 'd grpc_error) option"
  wr_metadata :: "(int \<times> int) option"
  wr_proof :: "(proof_kind \<times> buffer \<times> buffer \<times> full_proof) option"

definition empty_wait_response :: "'d wait_response" where
  "empty_wait_response = \<lparr> wr_error = None, wr_metadata = None, wr_proof = None \<rparr>"

definition createStateTransitionDeliverError ::
    "('x, 'd) error_codec \<Rightarrow> tx_result \<Rightarrow> ('x, 'd) handler_error + int option \<times> 'd grpc_error" where
  "createStateTransitionDeliverError c r =
    (case createGrpcErrorFromDriveResponse c (txr_code r) (txr_info r) of
       Inl e \<Rightarrow> Inl (GrpcCreationFailed e)
     | Inr grpcError \<Rightarrow> Inr (txr_code r, grpcError))"

text \<open>A proof that Drive does not have is \<open>null\<close>, and reading it throws; \<open>readTransition\<close>,
  \<open>createFromBuffer\<close> of the protocol without validation, may throw, too.\<close>

definition waitForStateTransitionResultHandler ::
    "('x, 'd) error_codec \<Rightarrow> (buffer \<Rightarrow> state_transition option) \<Rightarrow> (asset_lock_proof \<Rightarrow> ident) \<Rightarrow>
      (ident list \<Rightarrow> ident list \<Rightarrow> ident list \<Rightarrow> ('x, 'd) handler_error + proofs_response) \<Rightarrow> buffer \<Rightarrow> bool \<Rightarrow>
      wait_outcome \<Rightarrow> ('x, 'd) handler_error + 'd wait_response" where
  "waitForStateTransitionResultHandler c readTransition createIdentifier fetchProofs stateTransitionHash prove out =
    (if stateTransitionHash = [] then Inl (GrpcErrorThrown (plain_error 3 None))
     else case out of
         PeriodExceeded \<Rightarrow> Inl (GrpcErrorThrown (plain_error 4 None))
       | Rejected code d \<Rightarrow> Inl RpcException
       | Resolved (TransactionErrorResult r) \<Rightarrow>
           rbind (createStateTransitionDeliverError c r) (\<lambda>error. Inr (empty_wait_response\<lparr>wr_error := Some error\<rparr>))
       | Resolved (TransactionOkResult r) \<Rightarrow>
           (if \<not> prove then Inr empty_wait_response
            else case readTransition (txr_tx r) of
                None \<Rightarrow> Inl RpcException
              | Some stateTransition \<Rightarrow>
                  rbind (fetchProofForStateTransition createIdentifier fetchProofs stateTransition) (\<lambda>(proof, metadata).
                    case proof of
                      None \<Rightarrow> Inl RpcException
                    | Some p \<Rightarrow> Inr (empty_wait_response\<lparr>wr_metadata := Some metadata,
                        wr_proof := Some (transition_kind stateTransition, p)\<rparr>))))"

section \<open>The proof is about the block of the transaction\<close>

fun kind_leaf :: "proof_kind \<Rightarrow> 'db root_tree_leaf" where
  "kind_leaf DocumentsProof = DocumentsStoreRootTreeLeaf"
| "kind_leaf IdentitiesProof = IdentitiesStoreRootTreeLeaf"
| "kind_leaf DataContractsProof = DataContractsStoreRootTreeLeaf"

lemma proofs_of_Some:
  "proofs_of qe t n info leaf ids = Inr (Some p) \<Longrightarrow>
    \<exists>fp. p = (lc_quorumHash info, lc_stateSignature info, fp) \<and>
      RootTree_getFullProofForOneLeaf (qe_merk qe) (qe_merkle qe) (qe_dbs qe (nd_previousStores n)) t leaf ids = Inr fp"
  by (auto simp: proofs_of_def full_proof_def map_sum_def split: if_splits sum.splits)

lemma getProofs_parts:
  assumes "getProofsQueryHandler qe t identityIds documentIds dataContractIds n = Inr r" "has_signed_state n"
  shows "\<exists>header info. bc_header (nd_previousContext n) = Some header \<and> bc_lastCommitInfo (nd_context n) = Some info \<and>
    proofs_of qe t n info DocumentsStoreRootTreeLeaf documentIds = Inr (ps_documentsProof r) \<and>
    proofs_of qe t n info IdentitiesStoreRootTreeLeaf identityIds = Inr (ps_identitiesProof r) \<and>
    proofs_of qe t n info DataContractsStoreRootTreeLeaf dataContractIds = Inr (ps_dataContractsProof r) \<and>
    ps_metadata r = (hd_height header, hd_coreChainLockedHeight header)"
  using assms by (auto simp: getProofsQueryHandler_def rbind_eq_Inr_iff split: option.splits)

lemma transition_proof:
  assumes "fetchProofForStateTransition ci (\<lambda>d i cs. map_sum err id (getProofsQueryHandler qe t i d cs n)) st =
      Inr (Some p, metadata)"
  shows "\<exists>header info fp. bc_header (nd_previousContext n) = Some header \<and> bc_lastCommitInfo (nd_context n) = Some info \<and>
    metadata = (hd_height header, hd_coreChainLockedHeight header) \<and>
    p = (lc_quorumHash info, lc_stateSignature info, fp) \<and>
    RootTree_getFullProofForOneLeaf (qe_merk qe) (qe_merkle qe) (qe_dbs qe (nd_previousStores n)) t
      (kind_leaf (transition_kind st)) (getModifiedDataIds ci st) = Inr fp"
proof -
  obtain r i d cs where r: "getProofsQueryHandler qe t i d cs n = Inr r" "metadata = ps_metadata r"
    and which: "transition_kind st = DocumentsProof \<and> d = getModifiedDataIds ci st \<and> ps_documentsProof r = Some p \<or>
      transition_kind st = IdentitiesProof \<and> i = getModifiedDataIds ci st \<and> ps_identitiesProof r = Some p \<or>
      transition_kind st = DataContractsProof \<and> cs = getModifiedDataIds ci st \<and> ps_dataContractsProof r = Some p"
    using assms by (auto simp: fetchProofForStateTransition_def Let_def rbind_eq_Inr_iff map_sum_id_Inr
        split: proof_kind.splits)
  then have "has_signed_state n" by (auto simp: getProofsQueryHandler_def split: if_splits)
  from getProofs_parts [OF r(1) this] which r(2) show ?thesis
    by (elim exE conjE disjE) (auto dest!: proofs_of_Some)
qed


section \<open>A wait and its proof\<close>

definition sample_result :: tx_result where
  "sample_result = \<lparr> txr_code = None, txr_info = None, txr_height = 2, txr_tx = [5] \<rparr>"

theorem wait_resolves_after_next_block_witness:
  "w_outcome (waitForTransactionToBeProvable ''AB'' 0 [TransactionSeen ''AB'' sample_result, Reaction, BlockSeen 3]) =
     Some (Resolved (TransactionOkResult sample_result)) \<and>
   BlockSeen 3 \<in> set [TransactionSeen ''AB'' sample_result, Reaction, BlockSeen 3] \<and> txr_height sample_result < 3"
proof -
  let ?events = "[TransactionSeen ''AB'' sample_result, Reaction, BlockSeen 3]"
  have r: "w_outcome (waitForTransactionToBeProvable ''AB'' 0 ?events) = Some (Resolved (TransactionOkResult sample_result))"
    by (simp add: waitForTransactionToBeProvable_def start_waiting_def waitForTransactionResult_handler_def
        settle_result_def settle_outcome_def result_reaction_def waitForHeight_def block_seen_def Let_def event_result_def
        sample_result_def)
  show ?thesis using r wait_resolves_after_next_block [OF r] by (auto simp: sample_result_def)
qed

theorem wait_delivers_witness:
  "w_outcome (waitForTransactionToBeProvable ''AB'' 0
      ([QueryAnswered (TxFailed (- 32603) (not_found_message ''AB'')), TransactionSeen ''AB'' sample_result] @ Reaction # [BlockSeen 3])) =
    Some (Resolved (TransactionOkResult sample_result))"
proof -
  let ?before = "[QueryAnswered (TxFailed (- 32603) (not_found_message ''AB'')), TransactionSeen ''AB'' sample_result]"
  have calm: "list_all (undisturbed ''AB'' (event_result sample_result)) (?before @ Reaction # [BlockSeen 3])"
    by (simp add: undisturbed_def)
  have "event_result sample_result = TransactionOkResult sample_result"
    by (simp add: event_result_def sample_result_def)
  then show ?thesis
    using wait_delivers [OF calm, of 3 0] by (simp add: sample_result_def del: wait_step.simps)
qed

theorem wait_ends_with_timer_witness:
  "w_outcome (waitForTransactionToBeProvable ''AB'' 0 [BlockSeen 3, TimerExpired]) \<noteq> None \<and>
    \<not> w_attached (waitForTransactionToBeProvable ''AB'' 0 [BlockSeen 3, TimerExpired])"
  by (rule wait_ends_with_timer) simp

definition sample_topup :: state_transition where
  "sample_topup = IdentityTopUpTransition
     \<lparr> stb_protocolVersion = 1, stb_signature = None, stb_signaturePublicKeyId = None \<rparr> (ChainAssetLockProof 2 []) [1]"

lemma two_blocks:
  "\<exists>h1 n1 h2 (n2 :: unit node). execute_block sample_platform empty_config (empty_block 2) sample_node = Some (h1, n1) \<and>
    execute_block sample_platform empty_config (empty_block 3) n1 = Some (h2, n2) \<and>
    contexts_decode empty_config [last_committed n2, last_committed n1, last_committed sample_node] \<and>
    BlockExecutionContext_toObject True (nd_context n2) = Inr (empty_object 3) \<and>
    BlockExecutionContext_toObject True (nd_previousContext n2) = Inr (empty_object 2)"
proof -
  from three_blocks_run obtain n1 n2 n3 where run: "three_blocks = Some (n1, n2, n3)" and
    objs: "BlockExecutionContext_toObject True (nd_context n1) = Inr (empty_object 2)"
      "BlockExecutionContext_toObject True (nd_context n2) = Inr (empty_object 3)"
      "BlockExecutionContext_toObject True (nd_previousContext n1) = Inl JsTypeError"
      "BlockExecutionContext_toObject True (nd_previousContext n2) = Inr (empty_object 2)"
    by (auto simp: map_option_case split: option.split_asm)
  have "decodes empty_config new_BlockExecutionContext" "decodes empty_config (nd_previousContext n1)"
    using objs(3) by (simp_all add: decodes_def BlockExecutionContext_toObject_def new_BlockExecutionContext_def)
  then have "contexts_decode empty_config [last_committed n2, last_committed n1, last_committed sample_node]"
    using objs(1,2,4)
    by (auto simp: contexts_decode_def last_committed_def sample_node_def intro: empty_decodes)
  then show ?thesis using run objs(2,4) by (auto simp: three_blocks_def split: option.split_asm prod.split_asm)
qed


end
