(* ===== verification/PlatformEndpoints.thy ===== *)
theory PlatformEndpoints
  imports ErrorTransport Queries
begin

text \<open>
  Reading the platform through DAPI, from the client's call to Drive's handler and back: the methods
  of \<open>packages/js-dapi-client/lib/methods/platform\<close> with their responses, the handlers of
  \<open>packages/dapi/lib/grpcServer/handlers/platform\<close> and the methods of
  \<open>packages/dapi/lib/externalApis/drive/DriveClient.js\<close>.

  Messages are records of their fields as the getters of the generated code give them: a field that
  was not set has the default of its type. gRPC and CBOR are parameters.
\<close>

section \<open>Requests\<close>

text \<open>The options of the client's \<open>getDocuments\<close>, \<open>None\<close> where they are not given.\<close>

record documents_options =
  do_where :: "js option"
  do_orderBy :: "js option"
  do_limit :: "int option"
  do_startAt :: "int option"
  do_startAfter :: "int option"
  do_prove :: bool

text \<open>The fields \<open>start_after\<close> and \<open>start_at\<close> are one of the message: setting one clears the other, but
  setting it to \<open>undefined\<close> clears nothing else.\<close>

datatype start_case = StartNotSet | StartAfter int | StartAt int

record get_documents_request =
  rq_dataContractId :: buffer
  rq_documentType :: string
  rq_where :: buffer
  rq_orderBy :: buffer
  rq_limit :: int
  rq_start :: start_case
  rq_prove :: bool

definition setStartAfter :: "int option \<Rightarrow> start_case \<Rightarrow> start_case" where
  "setStartAfter v s =
    (case v of Some n \<Rightarrow> StartAfter n | None \<Rightarrow> (case s of StartAfter _ \<Rightarrow> StartNotSet | _ \<Rightarrow> s))"

definition setStartAt :: "int option \<Rightarrow> start_case \<Rightarrow> start_case" where
  "setStartAt v s = (case v of Some n \<Rightarrow> StartAt n | None \<Rightarrow> (case s of StartAt _ \<Rightarrow> StartNotSet | _ \<Rightarrow> s))"

definition getStartAfter :: "start_case \<Rightarrow> int" where
  "getStartAfter s = (case s of StartAfter n \<Rightarrow> n | _ \<Rightarrow> 0)"

definition getStartAt :: "start_case \<Rightarrow> int" where
  "getStartAt s = (case s of StartAt n \<Rightarrow> n | _ \<Rightarrow> 0)"

text \<open>\<open>if (where)\<close>: an option that is falsy is not encoded.\<close>

definition serialized :: "(js \<Rightarrow> buffer) \<Rightarrow> js option \<Rightarrow> buffer" where
  "serialized cborEncode v = (case v of None \<Rightarrow> [] | Some x \<Rightarrow> if js_truthy x then cborEncode x else [])"

definition client_getDocuments_request ::
    "(js \<Rightarrow> buffer) \<Rightarrow> buffer \<Rightarrow> string \<Rightarrow> documents_options \<Rightarrow> get_documents_request" where
  "client_getDocuments_request cborEncode contractId type opts =
    \<lparr> rq_dataContractId = contractId, rq_documentType = type,
      rq_where = serialized cborEncode (do_where opts), rq_orderBy = serialized cborEncode (do_orderBy opts),
      rq_limit = (case do_limit opts of None \<Rightarrow> 0 | Some n \<Rightarrow> n),
      rq_start = setStartAt (do_startAt opts) (setStartAfter (do_startAfter opts) StartNotSet),
      rq_prove = do_prove opts \<rparr>"

section \<open>DAPI's handlers\<close>

text \<open>What a handler asks of Drive: a path, an object and whether to prove.\<close>

record drive_request =
  dr_path :: string
  dr_data :: "(string \<times> js) list"
  dr_prove :: bool

definition js_number :: "int \<Rightarrow> js" where
  "js_number n = (if n \<noteq> 0 then JNum n else JUndefined)"

definition decoded :: "(buffer \<Rightarrow> js option) \<Rightarrow> buffer \<Rightarrow> ('x, 'd) handler_error + js" where
  "decoded cborDecode b =
    (if b = [] then Inr JUndefined else case cborDecode b of None \<Rightarrow> Inl RpcException | Some v \<Rightarrow> Inr v)"

definition DriveClient_fetchDocuments :: "buffer \<Rightarrow> string \<Rightarrow> (string \<times> js) list \<Rightarrow> bool \<Rightarrow> drive_request" where
  "DriveClient_fetchDocuments contractId type options prove =
    \<lparr> dr_path = ''/dataContracts/documents'',
      dr_data = options @ [(''contractId'', JBuf contractId), (''type'', JStr type)], dr_prove = prove \<rparr>"

definition getDocumentsHandler ::
    "(buffer \<Rightarrow> js option) \<Rightarrow> get_documents_request \<Rightarrow> ('x, 'd) handler_error + drive_request" where
  "getDocumentsHandler cborDecode request =
    (if rq_dataContractId request = [] then Inl (GrpcErrorThrown (plain_error 3 None))
     else if rq_documentType request = [] then Inl (GrpcErrorThrown (plain_error 3 None))
     else rbind (decoded cborDecode (rq_where request)) (\<lambda>wh.
       rbind (decoded cborDecode (rq_orderBy request)) (\<lambda>orderBy.
         Inr (DriveClient_fetchDocuments (rq_dataContractId request) (rq_documentType request)
           [(''where'', wh), (''orderBy'', orderBy), (''limit'', js_number (rq_limit request)),
            (''startAfter'', js_number (getStartAfter (rq_start request))),
            (''startAt'', js_number (getStartAt (rq_start request)))] (rq_prove request)))))"

text \<open>The requests by identifier and by hashes of public keys.\<close>

definition getIdentityHandler :: "buffer \<Rightarrow> bool \<Rightarrow> ('x, 'd) handler_error + drive_request" where
  "getIdentityHandler i prove =
    (if i = [] then Inl (GrpcErrorThrown (plain_error 3 None))
     else Inr \<lparr> dr_path = ''/identities'', dr_data = [(''id'', JBuf i)], dr_prove = prove \<rparr>)"

text \<open>The identifier of a request is never \<open>null\<close>, so that a missing one passes.\<close>

definition getDataContractHandler :: "buffer \<Rightarrow> bool \<Rightarrow> ('x, 'd) handler_error + drive_request" where
  "getDataContractHandler i prove =
    Inr \<lparr> dr_path = ''/dataContracts'', dr_data = [(''id'', if i = [] then JStr [] else JBuf i)], dr_prove = prove \<rparr>"

definition by_hashes :: "string \<Rightarrow> buffer list \<Rightarrow> bool \<Rightarrow> ('x, 'd) handler_error + drive_request" where
  "by_hashes path publicKeyHashes prove =
    (if length publicKeyHashes = 0 then Inl (GrpcErrorThrown (plain_error 3 None))
     else Inr \<lparr> dr_path = path, dr_data = [(''publicKeyHashes'', JArr (map JBuf publicKeyHashes))], dr_prove = prove \<rparr>)"

definition getIdentitiesByPublicKeyHashesHandler :: "buffer list \<Rightarrow> bool \<Rightarrow> ('x, 'd) handler_error + drive_request" where
  "getIdentitiesByPublicKeyHashesHandler = by_hashes ''/identities/by-public-key-hash''"

definition getIdentityIdsByPublicKeyHashesHandler :: "buffer list \<Rightarrow> bool \<Rightarrow> ('x, 'd) handler_error + drive_request" where
  "getIdentityIdsByPublicKeyHashesHandler = by_hashes ''/identities/by-public-key-hash/id''"

section \<open>The client's responses\<close>

text \<open>The message of a response: metadata, proof and values; a value that is not set is empty.\<close>

record proof_message =
  pm_rootTreeProof :: buffer
  pm_storeTreeProofs :: "(string \<times> buffer) list option"
  pm_signatureLlmqHash :: buffer
  pm_signature :: buffer

record response_message =
  rm_metadata :: "(int \<times> int) option"
  rm_proof :: "proof_message option"
  rm_values :: "buffer list"

record client_proof =
  cp_rootTreeProof :: buffer
  cp_storeTreeProofs :: "string \<Rightarrow> buffer option"
  cp_signatureLLMQHash :: buffer
  cp_signature :: buffer

datatype response_error = InvalidResponseError | ResponseTypeError

definition StoreTreeProofs_get :: "(string \<times> buffer) list \<Rightarrow> string \<Rightarrow> buffer option" where
  "StoreTreeProofs_get proofs name = (case map_of proofs name of None \<Rightarrow> None | Some b \<Rightarrow> if b = [] then None else Some b)"

definition Proof_createFromProto :: "proof_message \<Rightarrow> response_error + client_proof" where
  "Proof_createFromProto p =
    (case pm_storeTreeProofs p of
       None \<Rightarrow> Inl ResponseTypeError
     | Some proofs \<Rightarrow> Inr \<lparr> cp_rootTreeProof = pm_rootTreeProof p, cp_storeTreeProofs = StoreTreeProofs_get proofs,
         cp_signatureLLMQHash = pm_signatureLlmqHash p, cp_signature = pm_signature p \<rparr>)"

record 'v client_response =
  cr_value :: 'v
  cr_metadata :: "int \<times> int"
  cr_proof :: "client_proof option"

definition createMetadataAndProofFromProto ::
    "response_message \<Rightarrow> response_error + (int \<times> int) \<times> client_proof option" where
  "createMetadataAndProofFromProto m =
    (case rm_metadata m of
       None \<Rightarrow> Inl InvalidResponseError
     | Some metadata \<Rightarrow>
         (case rm_proof m of
            None \<Rightarrow> Inr (metadata, None)
          | Some rawProof \<Rightarrow> rbind (Proof_createFromProto rawProof) (\<lambda>p. Inr (metadata, Some p))))"

definition single_value :: "response_message \<Rightarrow> buffer" where
  "single_value m = (case rm_values m of [] \<Rightarrow> [] | v # _ \<Rightarrow> v)"

definition GetIdentityResponse_createFromProto :: "response_message \<Rightarrow> response_error + buffer client_response" where
  "GetIdentityResponse_createFromProto m =
    rbind (createMetadataAndProofFromProto m) (\<lambda>(metadata, proof).
      if single_value m = [] \<and> proof = None then Inl InvalidResponseError
      else Inr \<lparr> cr_value = single_value m, cr_metadata = metadata, cr_proof = proof \<rparr>)"

definition GetDataContractResponse_createFromProto :: "response_message \<Rightarrow> response_error + buffer client_response" where
  "GetDataContractResponse_createFromProto m =
    rbind (createMetadataAndProofFromProto m) (\<lambda>(metadata, proof).
      if single_value m = [] \<and> proof = None then Inl InvalidResponseError
      else Inr \<lparr> cr_value = single_value m, cr_metadata = metadata, cr_proof = proof \<rparr>)"

definition GetDocumentsResponse_createFromProto :: "response_message \<Rightarrow> response_error + buffer list client_response" where
  "GetDocumentsResponse_createFromProto m =
    rbind (createMetadataAndProofFromProto m) (\<lambda>(metadata, proof).
      Inr \<lparr> cr_value = rm_values m, cr_metadata = metadata, cr_proof = proof \<rparr>)"

definition optional_values :: "response_message \<Rightarrow> response_error + buffer option list client_response" where
  "optional_values m =
    rbind (createMetadataAndProofFromProto m) (\<lambda>(metadata, proof).
      Inr \<lparr> cr_value = map (\<lambda>v. if length v > 0 then Some v else None) (rm_values m),
        cr_metadata = metadata, cr_proof = proof \<rparr>)"

definition GetIdentitiesByPublicKeyHashesResponse_createFromProto ::
    "response_message \<Rightarrow> response_error + buffer option list client_response" where
  "GetIdentitiesByPublicKeyHashesResponse_createFromProto = optional_values"

definition GetIdentityIdsByPublicKeyHashesResponse_createFromProto ::
    "response_message \<Rightarrow> response_error + buffer option list client_response" where
  "GetIdentityIdsByPublicKeyHashesResponse_createFromProto = optional_values"

section \<open>Three attempts\<close>

datatype 'e client_error = TransportFailed 'e | ResponseInvalid | ResponseBroken

text \<open>The loop of the methods, with \<open>reply i\<close> the answer to the attempt \<open>i\<close>; an invalid response is
  asked for again, and the last error is thrown after three attempts. The result counts them.\<close>

fun attempts_from :: "nat \<Rightarrow> (nat \<Rightarrow> 'e + 'm) \<Rightarrow> ('m \<Rightarrow> response_error + 'r) \<Rightarrow> nat \<Rightarrow> nat \<times> ('e client_error + 'r)" where
  "attempts_from 0 reply parse i = (i, Inl ResponseInvalid)"
| "attempts_from (Suc n) reply parse i =
    (case reply i of
       Inl e \<Rightarrow> (Suc i, Inl (TransportFailed e))
     | Inr m \<Rightarrow>
         (case parse m of
            Inr r \<Rightarrow> (Suc i, Inr r)
          | Inl InvalidResponseError \<Rightarrow> attempts_from n reply parse (Suc i)
          | Inl ResponseTypeError \<Rightarrow> (Suc i, Inl ResponseBroken)))"

definition three_attempts :: "(nat \<Rightarrow> 'e + 'm) \<Rightarrow> ('m \<Rightarrow> response_error + 'r) \<Rightarrow> nat \<times> ('e client_error + 'r)" where
  "three_attempts reply parse = attempts_from 3 reply parse 0"

lemma attempts_from_bound: "fst (attempts_from n reply parse i) \<le> i + n"
proof (induction n arbitrary: i)
  case (Suc n)
  from Suc.IH [of "Suc i"] show ?case by (simp split: sum.split response_error.split)
qed simp

lemma attempts_from_invalid:
  "snd (attempts_from n reply parse i) = Inl ResponseInvalid \<longleftrightarrow>
    (\<forall>k < n. \<exists>m. reply (i + k) = Inr m \<and> parse m = Inl InvalidResponseError)"
proof (induction n arbitrary: i)
  case (Suc n)
  have "(\<forall>k < Suc n. P k) \<longleftrightarrow> P 0 \<and> (\<forall>k < n. P (Suc k))" for P :: "nat \<Rightarrow> bool"
    by (metis Suc_less_eq2 less_Suc_eq_0_disj)
  then show ?case using Suc.IH [of "Suc i"] by (auto split: sum.splits response_error.splits)
qed simp

text \<open>A method makes at most three requests, and ends with the error of invalid responses exactly when
  all three were invalid.\<close>

theorem invalid_after_three:
  "fst (three_attempts reply parse) \<le> 3 \<and>
   (snd (three_attempts reply parse) = Inl ResponseInvalid \<longleftrightarrow>
     list_all (\<lambda>i. \<exists>m. reply i = Inr m \<and> parse m = Inl InvalidResponseError) [0, 1, 2])"
proof -
  have "(\<forall>k < 3. P k) \<longleftrightarrow> list_all P [0, 1, 2 :: nat]" for P
    by (auto simp: numeral_3_eq_3 numeral_2_eq_2 less_Suc_eq)
  then show ?thesis
    using attempts_from_bound [of 3 reply parse 0] attempts_from_invalid [of 3 reply parse 0]
    by (simp add: three_attempts_def)
qed

section \<open>A query arrives as it was asked\<close>

text \<open>A value that CBOR carries: it is read back as it was written, and not written as nothing.\<close>

definition carried :: "(js \<Rightarrow> buffer) \<Rightarrow> (buffer \<Rightarrow> js option) \<Rightarrow> js \<Rightarrow> bool" where
  "carried cborEncode cborDecode v \<longleftrightarrow> cborDecode (cborEncode v) = Some v \<and> cborEncode v \<noteq> []"

text \<open>gRPC carries a message unchanged when its numbers fit into \<open>uint32\<close>.\<close>

definition fits :: "get_documents_request \<Rightarrow> bool" where
  "fits m \<longleftrightarrow> 0 \<le> rq_limit m \<and> rq_limit m < 2 ^ 32 \<and>
    (case rq_start m of StartNotSet \<Rightarrow> True | StartAfter n \<Rightarrow> 0 \<le> n \<and> n < 2 ^ 32 | StartAt n \<Rightarrow> 0 \<le> n \<and> n < 2 ^ 32)"

definition wire_documented :: "(get_documents_request \<Rightarrow> get_documents_request) \<Rightarrow> bool" where
  "wire_documented wire \<longleftrightarrow> (\<forall>m. fits m \<longrightarrow> wire m = m)"

definition optional :: "js option \<Rightarrow> js" where
  "optional v = (case v of None \<Rightarrow> JUndefined | Some x \<Rightarrow> x)"

text \<open>Options that Drive could accept: numbers are positive, and at most one start is given.\<close>

definition sensible :: "documents_options \<Rightarrow> bool" where
  "sensible opts \<longleftrightarrow>
    (case do_where opts of None \<Rightarrow> True | Some v \<Rightarrow> js_truthy v) \<and>
    (case do_orderBy opts of None \<Rightarrow> True | Some v \<Rightarrow> js_truthy v) \<and>
    (case do_limit opts of None \<Rightarrow> True | Some n \<Rightarrow> 0 < n \<and> n < 2 ^ 32) \<and>
    (case do_startAt opts of None \<Rightarrow> True | Some n \<Rightarrow> 0 < n \<and> n < 2 ^ 32 \<and> do_startAfter opts = None) \<and>
    (case do_startAfter opts of None \<Rightarrow> True | Some n \<Rightarrow> 0 < n \<and> n < 2 ^ 32)"

text \<open>The object that Drive is meant to get.\<close>

definition documents_data :: "buffer \<Rightarrow> string \<Rightarrow> documents_options \<Rightarrow> (string \<times> js) list" where
  "documents_data contractId type opts =
    [(''where'', optional (do_where opts)), (''orderBy'', optional (do_orderBy opts)),
     (''limit'', optional (map_option JNum (do_limit opts))),
     (''startAfter'', optional (map_option JNum (do_startAfter opts))),
     (''startAt'', optional (map_option JNum (do_startAt opts))),
     (''contractId'', JBuf contractId), (''type'', JStr type)]"

lemma decoded_serialized:
  assumes "carried cborEncode cborDecode (optional v)" "case v of None \<Rightarrow> True | Some x \<Rightarrow> js_truthy x"
  shows "decoded cborDecode (serialized cborEncode v) = Inr (optional v)"
  using assms by (auto simp: decoded_def serialized_def optional_def carried_def split: option.splits)

text \<open>
  C39. A query of a client reaches Drive's route for documents with the options it was asked with, of
  what Drive could accept: through the request message, DAPI's handler and its query to Drive.
\<close>

theorem documents_query_roundtrip:
  assumes "list_all (carried cborEncode cborDecode)
      [optional (do_where opts), optional (do_orderBy opts), JObj (documents_data contractId type opts)]"
    and "wire_documented wire" "sensible opts" "contractId \<noteq> []" "type \<noteq> []"
    and "findRoute (sanitizeUrl ''/dataContracts/documents'') = Some (False, handler)"
  shows "\<exists>dr. (getDocumentsHandler cborDecode (wire (client_getDocuments_request cborEncode contractId type opts))
        :: ('x, 'd) handler_error + drive_request) = Inr dr \<and>
    dr_prove dr = do_prove opts \<and>
    queryHandler findRoute cborDecode (dr_path dr) (cborEncode (JObj (dr_data dr))) =
      handler (DecodedData (JObj (documents_data contractId type opts)))"
proof -
  let ?m = "client_getDocuments_request cborEncode contractId type opts"
  have "fits ?m"
    using assms(3) by (auto simp: fits_def client_getDocuments_request_def sensible_def setStartAt_def setStartAfter_def
        split: option.splits)
  then have wire: "wire ?m = ?m" using assms(2) by (simp add: wire_documented_def)
  have numbers: "js_number (rq_limit ?m) = optional (map_option JNum (do_limit opts))"
      "js_number (getStartAfter (rq_start ?m)) = optional (map_option JNum (do_startAfter opts))"
      "js_number (getStartAt (rq_start ?m)) = optional (map_option JNum (do_startAt opts))"
    using assms(3)
    by (auto simp: client_getDocuments_request_def sensible_def setStartAt_def setStartAfter_def getStartAt_def
        getStartAfter_def js_number_def optional_def split: option.splits)
  have decoded: "(decoded cborDecode (rq_where ?m) :: ('x, 'd) handler_error + js) = Inr (optional (do_where opts))"
      "(decoded cborDecode (rq_orderBy ?m) :: ('x, 'd) handler_error + js) = Inr (optional (do_orderBy opts))"
    using assms(1,3) by (simp_all add: client_getDocuments_request_def sensible_def decoded_serialized)
  have parts: "rq_dataContractId ?m = contractId" "rq_documentType ?m = type" "rq_prove ?m = do_prove opts"
    by (simp_all add: client_getDocuments_request_def)
  have "(getDocumentsHandler cborDecode ?m :: ('x, 'd) handler_error + drive_request) =
      Inr \<lparr> dr_path = ''/dataContracts/documents'', dr_data = documents_data contractId type opts, dr_prove = do_prove opts \<rparr>"
    using assms(4,5)
    by (simp add: getDocumentsHandler_def DriveClient_fetchDocuments_def documents_data_def parts numbers decoded)
  moreover have "queryHandler findRoute cborDecode ''/dataContracts/documents''
      (cborEncode (JObj (documents_data contractId type opts))) =
      handler (DecodedData (JObj (documents_data contractId type opts)))"
    using assms(1,6) unfolding queryHandler_def carried_def is_object_def by simp
  ultimately show ?thesis unfolding wire by simp
qed

text \<open>
  What does not arrive: a limit or a start of zero is taken for none, and of two starts only
  \<open>startAt\<close> is left, so that Drive cannot reject what its schema forbids.
\<close>

lemma documents_options_lost:
  "rq_limit (client_getDocuments_request enc i type (opts\<lparr>do_limit := Some 0\<rparr>)) =
    rq_limit (client_getDocuments_request enc i type (opts\<lparr>do_limit := None\<rparr>))"
  "rq_start (client_getDocuments_request enc i type (opts\<lparr>do_startAt := Some n, do_startAfter := Some k\<rparr>)) =
    rq_start (client_getDocuments_request enc i type (opts\<lparr>do_startAt := Some n, do_startAfter := None\<rparr>))"
  by (simp_all add: client_getDocuments_request_def setStartAt_def setStartAfter_def)

section \<open>From Drive to the client\<close>

text \<open>The message of Drive's answer; a proof is part of it when the request asks to prove.\<close>

definition message_of :: "query_response \<Rightarrow> response_message" where
  "message_of r = \<lparr> rm_metadata = Some (qs_metadata r),
     rm_proof = (case qs_signature r of
         None \<Rightarrow> None
       | Some (quorumHash, signature) \<Rightarrow> Some \<lparr>
           pm_rootTreeProof = (case qs_rootTreeProof r of None \<Rightarrow> [] | Some p \<Rightarrow> p),
           pm_storeTreeProofs = (if qs_rootTreeProof r = None then None else Some (qs_storeTreeProofs r)),
           pm_signatureLlmqHash = quorumHash, pm_signature = signature \<rparr>),
     rm_values = qs_values r \<rparr>"

text \<open>What Drive answers to DAPI's query is what the client of one attempt sees; \<open>details\<close> are the data
  of an error.\<close>

definition client_reads ::
    "('x, 'd) error_codec \<Rightarrow> bool \<Rightarrow> 'd \<Rightarrow> (dpp_error \<Rightarrow> 'd) \<Rightarrow> dpp_error + query_response \<Rightarrow>
      ('x grpc_exn + response_class \<times> error_code \<times> 'd) + response_message" where
  "client_reads c production own details answer =
    (case wrapInErrorHandler True answer of
       Response r \<Rightarrow> Inr (message_of r)
     | Halt e \<Rightarrow> Inl (Inl MetadataTypeError)
     | ErrorResponse code \<Rightarrow>
         (case drive_error c production own code (case answer of Inl e \<Rightarrow> details e | Inr _ \<Rightarrow> own) of
            Inl e \<Rightarrow> Inl (at_client c native_metadata e)
          | Inr _ \<Rightarrow> Inl (Inl MetadataTypeError)))"

lemma plain_response:
  assumes "createQueryResponse False n = Inr response"
  shows "qs_signature response = None"
  using assms by (auto simp: createQueryResponse_def Let_def empty_response_def split: option.splits)


text \<open>The identities of public key hashes: one entry for every hash, in order, \<open>null\<close> where none is registered.\<close>

theorem identities_by_hashes_end_to_end:
  assumes "has_signed_state n" "length hs \<le> qe_maxIdentitiesPerRequest qe" "createQueryResponse False n = Inr response"
    and "\<forall>h \<in> set hs. \<forall>i. vstore_get False (ds_publicKeyIds (previous_state n)) h = Some i \<longrightarrow>
      (\<exists>identity. fetchIdentity False (previous_state n) i = Some identity \<and> qe_identityBuffer qe identity \<noteq> [])"
  shows "\<exists>r. three_attempts (\<lambda>_. client_reads c production own details
        (identitiesByPublicKeyHashesQueryHandler qe t False (Some hs) n))
      GetIdentitiesByPublicKeyHashesResponse_createFromProto = (1, Inr r) \<and>
    cr_value r = map (\<lambda>h. map_option (\<lambda>i. qe_identityBuffer qe (the (fetchIdentity False (previous_state n) i)))
      (vstore_get False (ds_publicKeyIds (previous_state n)) h)) hs"
proof -
  let ?get = "vstore_get False (ds_publicKeyIds (previous_state n))"
  let ?buffer = "\<lambda>i. qe_identityBuffer qe (the (fetchIdentity False (previous_state n) i))"
  have all: "\<forall>j. Some j \<in> set (previous_identity_ids n hs) \<longrightarrow> fetchIdentity False (previous_state n) j \<noteq> None"
    using assms(4) by (force simp: previous_identity_ids_def)
  have answer: "identitiesByPublicKeyHashesQueryHandler qe t False (Some hs) n =
      Inr (response\<lparr>qs_values := map (\<lambda>h. case ?get h of None \<Rightarrow> [] | Some i \<Rightarrow> ?buffer i) hs\<rparr>)"
    using assms(1,2,3) all
    by (simp add: identitiesByPublicKeyHashesQueryHandler_def too_many_hashes_def rmap_lookups)
      (simp add: previous_identity_ids_def o_def)
  have entries: "(if length (case ?get h of None \<Rightarrow> [] | Some i \<Rightarrow> ?buffer i) > 0
       then Some (case ?get h of None \<Rightarrow> [] | Some i \<Rightarrow> ?buffer i) else None) = map_option ?buffer (?get h)"
    if "h \<in> set hs" for h
    using assms(4) that by (fastforce split: option.split)
  show ?thesis
    unfolding answer using plain_response [OF assms(3)] entries
    by (simp add: client_reads_def wrapInErrorHandler_def three_attempts_def eval_nat_numeral
        GetIdentitiesByPublicKeyHashesResponse_createFromProto_def optional_values_def
        createMetadataAndProofFromProto_def message_of_def)
qed

section \<open>Reading a resting node\<close>

definition sample_options :: documents_options where
  "sample_options = \<lparr> do_where = Some (JArr [JStr ''a'']), do_orderBy = None, do_limit = Some 7, do_startAt = None,
     do_startAfter = Some 3, do_prove = True \<rparr>"

definition sample_encode :: "js \<Rightarrow> buffer" where
  "sample_encode v = (case v of JArr _ \<Rightarrow> [1] | JObj _ \<Rightarrow> [2] | _ \<Rightarrow> [3])"

definition sample_decode :: "buffer \<Rightarrow> js option" where
  "sample_decode b =
    (if b = [1] then Some (JArr [JStr ''a'']) else if b = [2] then Some (JObj (documents_data [9] ''note'' sample_options))
     else Some JUndefined)"

theorem documents_query_roundtrip_witness:
  "\<exists>dr. (getDocumentsHandler sample_decode (id (client_getDocuments_request sample_encode [9] ''note'' sample_options))
        :: (unit, unit) handler_error + drive_request) = Inr dr \<and>
    dr_prove dr \<and>
    queryHandler (\<lambda>_. Some (False, \<lambda>d. Inr d)) sample_decode (dr_path dr) (sample_encode (JObj (dr_data dr))) =
      Inr (DecodedData (JObj (documents_data [9] ''note'' sample_options)))"
  using documents_query_roundtrip [where cborEncode = sample_encode and cborDecode = sample_decode and opts = sample_options
      and contractId = "[9]" and type = "''note''" and wire = id and findRoute = "\<lambda>_. Some (False, \<lambda>d. Inr d)"
      and handler = "\<lambda>d. Inr d" and ?'x = unit and ?'d = unit]
  by (simp add: carried_def sample_encode_def sample_decode_def sample_options_def optional_def wire_documented_def
      sensible_def)

lemma resting_node_signed: "has_signed_state resting_node"
  by (simp add: has_signed_state_def resting_node_def sample_node_def BlockExecutionContext_isEmpty_def
      setConsensusLogger_def delivered_ctx_def sample_ctx_after_def sample_ctx_def)

definition stored_identity :: identity where
  "stored_identity = \<lparr>id_protocolVersion = 1, id_id = [6], id_publicKeys = [], id_balance = 0, id_revision = 0\<rparr>"

lemma resting_node_identity: "fetchIdentity False (previous_state resting_node) [6] = Some stored_identity"
  by (simp add: previous_state_def resting_node_def sample_node_def sample_stores_def storeIdentityPublicKeyHashes_def
      storeIdentity_def fetchIdentity_def vstore_get_def vstore_put_def empty_state_def empty_vstore_def stored_identity_def)

lemma resting_node_hash:
  "vstore_get False (ds_publicKeyIds (previous_state resting_node)) h = (if h \<in> {[1], [3]} then Some [6] else None)"
  by (auto simp: previous_state_def resting_node_def sample_node_def sample_stores_def storeIdentityPublicKeyHashes_def
      storeIdentity_def vstore_get_def vstore_put_def empty_state_def empty_vstore_def)

lemma resting_node_response: "\<exists>response. createQueryResponse False resting_node = Inr response"
  by (simp add: createQueryResponse_def resting_node_def sample_node_def setConsensusLogger_def delivered_ctx_def
      sample_ctx_after_def sample_ctx_def)


theorem identities_by_hashes_end_to_end_witness:
  "\<exists>r. three_attempts (\<lambda>_. client_reads unary_codec True 0 (\<lambda>_. 4)
      (identitiesByPublicKeyHashesQueryHandler sample_query_env \<lparr>rt_leaves = [], rt_leafHashes = []\<rparr> False
        (Some [[1], [2], [3]]) resting_node))
      GetIdentitiesByPublicKeyHashesResponse_createFromProto = (1, Inr r) \<and> cr_value r = [Some [6], None, Some [6]]"
proof -
  obtain response where r: "createQueryResponse False resting_node = Inr response" using resting_node_response by blast
  have few: "length [[1], [2], [3 :: byte]] \<le> qe_maxIdentitiesPerRequest sample_query_env"
    by (simp add: sample_query_env_def)
  show ?thesis
    using identities_by_hashes_end_to_end [OF resting_node_signed few r, of unary_codec True 0 "\<lambda>_. 4"
        "\<lparr>rt_leaves = [], rt_leafHashes = []\<rparr>"]
    by (simp add: resting_node_hash resting_node_identity sample_query_env_def stored_identity_def)
qed

end
