(* ===== verification/CoreEndpoints.thy ===== *)
theory CoreEndpoints
  imports PlatformEndpoints
begin

text \<open>
  The endpoints of DAPI over Core and Tenderdash's parameters: the handlers of
  \<open>packages/dapi/lib/grpcServer/handlers/core\<close>, \<open>getConsensusParamsHandlerFactory.js\<close> with
  \<open>externalApis/tenderdash/getConsensusParamsFactory.js\<close>, the JSON-RPC commands under
  \<open>packages/dapi/lib/rpcServer\<close> with their error handler, and what the client's methods under
  \<open>packages/js-dapi-client/lib/methods/core\<close> make of the answers.

  Core, Tenderdash, dashcore-lib and ajv are parameters.
\<close>

section \<open>Errors of Core\<close>

text \<open>\<open>DashCoreRpcError\<close> has a code when Core gave one that is not zero.\<close>

record core_error =
  ce_code :: "int option"
  ce_message :: string

definition new_DashCoreRpcError :: "string \<Rightarrow> int option \<Rightarrow> core_error" where
  "new_DashCoreRpcError message code = \<lparr> ce_code = (if code = Some 0 then None else code), ce_message = message \<rparr>"

text \<open>What the functions of \<open>rpc.js\<close> make of a callback's error and result.\<close>

definition core_call :: "(string \<times> int option) + 'r \<Rightarrow> core_error + 'r" where
  "core_call answer =
    (case answer of Inl (message, code) \<Rightarrow> Inl (new_DashCoreRpcError message code) | Inr r \<Rightarrow> Inr r)"

text \<open>The code that a handler gives the errors of Core that it knows; others are thrown on.\<close>

definition core_failure :: "(int \<times> int) list \<Rightarrow> core_error \<Rightarrow> ('x, 'd) handler_error" where
  "core_failure known e =
    (case Option.bind (ce_code e) (map_of known) of
       Some grpc_code \<Rightarrow> GrpcErrorThrown (plain_error grpc_code None)
     | None \<Rightarrow> RpcException)"

definition core_result :: "(int \<times> int) list \<Rightarrow> core_error + 'r \<Rightarrow> ('x, 'd) handler_error + 'r" where
  "core_result known answer = (case answer of Inl e \<Rightarrow> Inl (core_failure known e) | Inr r \<Rightarrow> Inr r)"

section \<open>Blocks and transactions\<close>

definition getBlockHandler ::
    "(int \<Rightarrow> core_error + string) \<Rightarrow> (string \<Rightarrow> core_error + buffer) \<Rightarrow> int \<Rightarrow> string \<Rightarrow> ('x, 'd) handler_error + buffer" where
  "getBlockHandler getBlockHash getRawBlock height hash =
    (if hash = [] \<and> height = 0 then Inl (GrpcErrorThrown (plain_error 3 None))
     else rbind (if hash = [] then core_result [(- 8, 5), (- 1, 3)] (getBlockHash height) else Inr hash) (\<lambda>hash.
       core_result [(- 5, 5)] (getRawBlock hash)))"

text \<open>Core's verbose transaction; one in the memory pool has no block.\<close>

record raw_transaction =
  rt_hex :: string
  rt_blockhash :: "buffer option"
  rt_height :: "int option"
  rt_confirmations :: "int option"
  rt_instantlock_internal :: bool
  rt_chainlock :: bool

record transaction_message =
  tx_transaction :: buffer
  tx_blockHash :: buffer
  tx_height :: int
  tx_confirmations :: int
  tx_isInstantLocked :: bool
  tx_isChainLocked :: bool

definition number_field :: "int option \<Rightarrow> int" where
  "number_field v = (case v of None \<Rightarrow> 0 | Some n \<Rightarrow> n)"

definition getTransactionHandler ::
    "(string \<Rightarrow> core_error + raw_transaction) \<Rightarrow> (string \<Rightarrow> buffer option) \<Rightarrow> string \<Rightarrow>
      ('x, 'd) handler_error + transaction_message" where
  "getTransactionHandler getRawTransaction transactionBuffer i =
    (if i = [] then Inl (GrpcErrorThrown (plain_error 3 None))
     else rbind (core_result [(- 5, 5)] (getRawTransaction i)) (\<lambda>raw.
       case transactionBuffer (rt_hex raw) of
         None \<Rightarrow> Inl RpcException
       | Some b \<Rightarrow> Inr \<lparr> tx_transaction = b,
           tx_blockHash = (case rt_blockhash raw of None \<Rightarrow> [] | Some h \<Rightarrow> h),
           tx_height = number_field (rt_height raw), tx_confirmations = number_field (rt_confirmations raw),
           tx_isInstantLocked = rt_instantlock_internal raw, tx_isChainLocked = rt_chainlock raw \<rparr>))"

text \<open>\<open>parse\<close> is dashcore-lib's constructor, which may throw, with what \<open>verify\<close> says.\<close>

definition broadcastTransactionHandler ::
    "(buffer \<Rightarrow> bool option) \<Rightarrow> (buffer \<Rightarrow> core_error + string) \<Rightarrow> buffer \<Rightarrow> ('x, 'd) handler_error + string" where
  "broadcastTransactionHandler parse sendRawTransaction tx =
    (if tx = [] then Inl (GrpcErrorThrown (plain_error 3 None))
     else if parse tx \<noteq> Some True then Inl (GrpcErrorThrown (plain_error 3 None))
     else core_result [(- 22, 3), (- 25, 3), (- 26, 9), (- 27, 6)] (sendRawTransaction tx))"

text \<open>The client's reading of a transaction.\<close>

definition GetTransactionResponse_createFromProto :: "transaction_message \<Rightarrow> response_error + transaction_message" where
  "GetTransactionResponse_createFromProto m =
    (if tx_transaction m = [] then Inl InvalidResponseError
     else if tx_blockHash m = [] then Inl InvalidResponseError
     else Inr m)"

section \<open>Status\<close>

datatype core_status = NOT_STARTED | SYNCING | READY | ERROR

definition core_status_name :: "core_status \<Rightarrow> string" where
  "core_status_name s = (case s of NOT_STARTED \<Rightarrow> ''NOT_STARTED'' | SYNCING \<Rightarrow> ''SYNCING'' | READY \<Rightarrow> ''READY'' | ERROR \<Rightarrow> ''ERROR'')"

definition masternode_statuses :: "string list" where
  "masternode_statuses = [''UNKNOWN'', ''WAITING_FOR_PROTX'', ''POSE_BANNED'', ''REMOVED'', ''OPERATOR_KEY_CHANGED'',
     ''PROTX_IP_CHANGED'', ''READY'', ''ERROR'']"

text \<open>The sync of a masternode in thirds, and the status in order of the tests.\<close>

definition masternode_sync_thirds :: "int \<Rightarrow> nat" where
  "masternode_sync_thirds assetID =
    (if assetID = 999 then 3 else if assetID = 0 then 0 else if assetID = 1 then 1 else if assetID = 4 then 2 else 0)"

definition overall_status :: "bool \<Rightarrow> bool \<Rightarrow> bool \<Rightarrow> core_status" where
  "overall_status isBlockchainSynced isSynced progressed =
    (if isBlockchainSynced \<and> isSynced then READY else if progressed then SYNCING else NOT_STARTED)"

text \<open>What Core says of the masternode: its state, and when it is registered, its hash and penalty.\<close>

record masternode_info =
  mi_state :: string
  mi_registered :: "(buffer \<times> int) option"

record status_message =
  st_status :: core_status
  st_masternodeStatus :: nat
  st_proTxHash :: buffer
  st_posePenalty :: int
  st_masternodeSynced :: bool
  st_syncThirds :: nat

definition status_number :: "string \<Rightarrow> nat" where
  "status_number state = (case map_of (zip masternode_statuses [0..<8]) state of None \<Rightarrow> 0 | Some n \<Rightarrow> n)"

definition getStatusHandler ::
    "core_error + bool \<Rightarrow> core_error + unit \<Rightarrow> core_error + bool \<times> bool \<times> int \<Rightarrow> core_error + masternode_info \<Rightarrow>
      ('x, 'd) handler_error + status_message" where
  "getStatusHandler getBlockchainInfo getNetworkInfo getMnSync getMasternode =
    rbind (core_result [] getBlockchainInfo) (\<lambda>progressed.
    rbind (core_result [] getNetworkInfo) (\<lambda>_.
    rbind (core_result [] getMnSync) (\<lambda>(isBlockchainSynced, isSynced, assetID).
    rbind (core_result [] getMasternode) (\<lambda>masternode.
      case mi_registered masternode of
        None \<Rightarrow> Inl RpcException
      | Some (proTxHash, posePenalty) \<Rightarrow>
          Inr \<lparr> st_status = overall_status isBlockchainSynced isSynced progressed,
            st_masternodeStatus = status_number (mi_state masternode), st_proTxHash = proTxHash,
            st_posePenalty = posePenalty, st_masternodeSynced = isSynced,
            st_syncThirds = masternode_sync_thirds assetID \<rparr>))))"

text \<open>The client finds the names of the constants.\<close>

definition client_masternode_status :: "status_message \<Rightarrow> string" where
  "client_masternode_status m = masternode_statuses ! st_masternodeStatus m"

section \<open>Consensus parameters\<close>

datatype rpc_error = TenderdashError "int option" | OtherException

definition RPCError_code :: "int option \<Rightarrow> int" where
  "RPCError_code code = (case code of None \<Rightarrow> - 32602 | Some n \<Rightarrow> if n = 0 then - 32602 else n)"

definition getConsensusParams :: "(int option \<Rightarrow> int option + 'p) \<Rightarrow> int option \<Rightarrow> int + 'p" where
  "getConsensusParams request_params height =
    (case request_params height of Inl code \<Rightarrow> Inl (RPCError_code code) | Inr p \<Rightarrow> Inr p)"

definition getConsensusParamsHandler ::
    "(int option \<Rightarrow> int option + 'p) \<Rightarrow> int \<Rightarrow> bool \<Rightarrow> ('x, 'd) handler_error + 'p" where
  "getConsensusParamsHandler request_params height prove =
    (if prove then Inl (GrpcErrorThrown (plain_error 3 None))
     else case getConsensusParams request_params (if height = 0 then None else Some height) of
         Inr p \<Rightarrow> Inr p
       | Inl code \<Rightarrow>
           (if code = 32603 then Inl (GrpcErrorThrown (plain_error 9 None))
            else Inl (GrpcErrorThrown (plain_error INTERNAL None))))"

section \<open>JSON-RPC\<close>

datatype command_error =
    ArgumentsValidationError string
  | DashCoreRpcError core_error
  | InvalidArgumentGrpcError string
  | RPCErrorThrown int string
  | UnexpectedError

definition isOperationalError :: "command_error \<Rightarrow> bool" where
  "isOperationalError e \<longleftrightarrow>
    (case e of ArgumentsValidationError _ \<Rightarrow> True | DashCoreRpcError _ \<Rightarrow> True | InvalidArgumentGrpcError _ \<Rightarrow> True | _ \<Rightarrow> False)"

definition command_message :: "command_error \<Rightarrow> string" where
  "command_message e =
    (case e of ArgumentsValidationError m \<Rightarrow> m | DashCoreRpcError c \<Rightarrow> ce_message c | InvalidArgumentGrpcError m \<Rightarrow> m
     | RPCErrorThrown _ m \<Rightarrow> m | UnexpectedError \<Rightarrow> [])"

definition errorHandlerDecorator :: "('a \<Rightarrow> command_error + 'r) \<Rightarrow> 'a \<Rightarrow> (int \<times> string) + 'r" where
  "errorHandlerDecorator command args =
    (case command args of
       Inr r \<Rightarrow> Inr r
     | Inl (RPCErrorThrown code message) \<Rightarrow> Inl (code, message)
     | Inl e \<Rightarrow> (if isOperationalError e then Inl (- 32602, command_message e) else Inl (- 32603, ''Internal error'')))"

text \<open>A command validates its arguments, \<open>invalid\<close> giving the message of the first error, and calls Core.\<close>

definition rpc_command :: "('a \<Rightarrow> string option) \<Rightarrow> ('a \<Rightarrow> core_error + 'r) \<Rightarrow> 'a \<Rightarrow> command_error + 'r" where
  "rpc_command invalid call args =
    (case invalid args of
       Some message \<Rightarrow> Inl (ArgumentsValidationError message)
     | None \<Rightarrow> (case call args of Inl e \<Rightarrow> Inl (DashCoreRpcError e) | Inr r \<Rightarrow> Inr r))"

definition getBestBlockHash_command :: "core_error + string \<Rightarrow> unit \<Rightarrow> command_error + string" where
  "getBestBlockHash_command getBestBlockHash = rpc_command (\<lambda>_. None) (\<lambda>_. getBestBlockHash)"

definition getBlockHash_command :: "(int \<Rightarrow> string option) \<Rightarrow> (int \<Rightarrow> core_error + string) \<Rightarrow> int \<Rightarrow> command_error + string" where
  "getBlockHash_command = rpc_command"

definition getMnListDiff_command ::
    "(string \<times> string \<Rightarrow> string option) \<Rightarrow> (string \<times> string \<Rightarrow> core_error + 'r) \<Rightarrow> string \<times> string \<Rightarrow> command_error + 'r" where
  "getMnListDiff_command = rpc_command"

definition generateToAddress_command ::
    "(int \<times> string \<Rightarrow> string option) \<Rightarrow> (int \<times> string \<Rightarrow> core_error + string list) \<Rightarrow> int \<times> string \<Rightarrow>
      command_error + string list" where
  "generateToAddress_command = rpc_command"

text \<open>The answer over HTTP, as the client's transport gets it.\<close>

definition json_answer :: "(int \<times> string) + 'r \<Rightarrow> 'r option json_reply" where
  "json_answer r = (case r of Inl e \<Rightarrow> HttpReply 200 [] (Some e) None | Inr v \<Rightarrow> HttpReply 200 [] None (Some v))"

section \<open>What clients see\<close>

lemma decimal_codes: "decimal 6 = ''6''" "decimal 9 = ''9''"
  by code_simp+

text \<open>The class of an error without data that is not internal.\<close>

lemma plain_error_at_client:
  assumes "codec_documented c" "n \<in> {3, 5, 6, 9}"
  shows "rpcMethodErrorHandler c True own (Inl (GrpcErrorThrown (plain_error n None)) :: ('x, 'd) handler_error + 'r) =
      Inl (plain_error n None)"
    "at_client c native_metadata (plain_error n None) =
      Inr (if n = 5 then NotFoundError else InvalidRequestError, NumberCode n, empty_data (ec_cbor c))"
proof -
  show "rpcMethodErrorHandler c True own (Inl (GrpcErrorThrown (plain_error n None)) :: ('x, 'd) handler_error + 'r) =
      Inl (plain_error n None)"
    by (simp add: rpcMethodErrorHandler_def Let_def)
  have "code_key (NumberCode n) \<noteq> ''4''" "code_key (NumberCode n) = ''5'' \<longleftrightarrow> n = 5"
    using assms(2) by (auto simp: decimal_values decimal_codes)
  then show "at_client c native_metadata (plain_error n None) =
      Inr (if n = 5 then NotFoundError else InvalidRequestError, NumberCode n, empty_data (ec_cbor c))"
    using assms(2)
    by (auto simp: at_client_def createGrpcTransportError_def wire_parts plain_error_def drive_codes Let_def
        simp del: code_key.simps)
qed

lemma exception_at_client:
  assumes "codec_documented c"
  shows "rpcMethodErrorHandler c True own (Inl RpcException :: ('x, 'd) handler_error + 'r) = Inl (plain_error INTERNAL None)"
    "at_client c native_metadata (plain_error INTERNAL None) =
      Inr (InternalServerError, NumberCode INTERNAL, empty_data (ec_cbor c))"
proof -
  show "rpcMethodErrorHandler c True own (Inl RpcException :: ('x, 'd) handler_error + 'r) = Inl (plain_error INTERNAL None)"
    by (simp add: rpcMethodErrorHandler_def Let_def)
  show "at_client c native_metadata (plain_error INTERNAL None) =
      Inr (InternalServerError, NumberCode INTERNAL, empty_data (ec_cbor c))"
    using internal_stack_native(1) [OF assms, where n = INTERNAL and raw = None and i = None]
    by (simp add: at_client_def createGrpcTransportError_def wire_parts plain_error_def drive_codes Let_def
        decimal_values)
qed

text \<open>What a client in Node sees of an error of Core that a handler passes on.\<close>

definition core_error_class :: "(int \<times> int) list \<Rightarrow> core_error \<Rightarrow> response_class \<times> error_code" where
  "core_error_class known e =
    (case Option.bind (ce_code e) (map_of known) of
       None \<Rightarrow> (InternalServerError, NumberCode 13)
     | Some n \<Rightarrow> (if n = 5 then NotFoundError else InvalidRequestError, NumberCode n))"

definition client_sees_error ::
    "('x, 'd) error_codec \<Rightarrow> 'd \<Rightarrow> ('x, 'd) handler_error + 'r \<Rightarrow> (response_class \<times> error_code) option" where
  "client_sees_error c own outcome =
    (case rpcMethodErrorHandler c True own outcome of
       Inr _ \<Rightarrow> None
     | Inl e \<Rightarrow> (case at_client c native_metadata e of Inl _ \<Rightarrow> None | Inr (cls, code, _) \<Rightarrow> Some (cls, code)))"

lemma core_failure_seen:
  assumes "codec_documented c" "snd ` set known \<subseteq> {3, 5, 6, 9}"
  shows "client_sees_error c own (Inl (core_failure known e)) = Some (core_error_class known e)"
proof (cases "Option.bind (ce_code e) (map_of known)")
  case None
  then show ?thesis
    by (simp add: client_sees_error_def core_failure_def core_error_class_def exception_at_client [OF assms(1)])
      (simp add: INTERNAL_def)
next
  case (Some n)
  then have "n \<in> {3, 5, 6, 9}"
    using assms(2) by (auto simp: bind_eq_Some_conv dest!: map_of_SomeD)
  then show ?thesis using Some
    by (simp add: client_sees_error_def core_failure_def core_error_class_def plain_error_at_client [OF assms(1)])
qed

text \<open>
  When Core rejects a transaction, the client sees an invalid request for what Core calls invalid,
  rejected or already in the chain, with a code that tells them apart, and an internal error, which
  it retries, for everything else, such as a Core that does not answer.
\<close>

theorem rejected_transaction_at_client:
  assumes "codec_documented c" "tx \<noteq> []" "parse tx = Some True" "sendRawTransaction tx = Inl e"
  shows "client_sees_error c own (broadcastTransactionHandler parse sendRawTransaction tx) =
    Some (if ce_code e \<in> {Some (- 22), Some (- 25)} then (InvalidRequestError, NumberCode 3)
      else if ce_code e = Some (- 26) then (InvalidRequestError, NumberCode 9)
      else if ce_code e = Some (- 27) then (InvalidRequestError, NumberCode 6)
      else (InternalServerError, NumberCode 13))"
proof -
  let ?known = "[(- 22, 3), (- 25, 3), (- 26, 9), (- 27, 6)] :: (int \<times> int) list"
  have "client_sees_error c own (broadcastTransactionHandler parse sendRawTransaction tx) = Some (core_error_class ?known e)"
    using assms(2-4)
    by (simp add: broadcastTransactionHandler_def core_result_def core_failure_seen [OF assms(1), of ?known])
  then show ?thesis by (cases "ce_code e") (simp_all add: core_error_class_def)
qed

text \<open>
  A transaction that is not in a block yet is found by Core and sent by DAPI with an empty block
  hash, which the client takes for an invalid response: it asks three times, and fails.
\<close>

theorem unconfirmed_transaction_unreadable:
  assumes "getRawTransaction i = Inr raw" "i \<noteq> []" "transactionBuffer (rt_hex raw) = Some b" "rt_blockhash raw = None"
  shows "three_attempts (\<lambda>_. getTransactionHandler getRawTransaction transactionBuffer i)
    GetTransactionResponse_createFromProto = (3, Inl ResponseInvalid)"
  using assms by (simp add: three_attempts_def eval_nat_numeral getTransactionHandler_def core_result_def
      GetTransactionResponse_createFromProto_def)

text \<open>One in a block is read as Core gives it, with a single request.\<close>

lemma confirmed_transaction_read:
  assumes "getRawTransaction i = Inr raw" "i \<noteq> []" "transactionBuffer (rt_hex raw) = Some b" "b \<noteq> []"
    and "rt_blockhash raw = Some h" "h \<noteq> []"
  shows "three_attempts (\<lambda>_. getTransactionHandler getRawTransaction transactionBuffer i)
    GetTransactionResponse_createFromProto = (1, Inr \<lparr> tx_transaction = b, tx_blockHash = h,
      tx_height = number_field (rt_height raw), tx_confirmations = number_field (rt_confirmations raw),
      tx_isInstantLocked = rt_instantlock_internal raw, tx_isChainLocked = rt_chainlock raw \<rparr>)"
  using assms by (simp add: three_attempts_def eval_nat_numeral getTransactionHandler_def core_result_def
      GetTransactionResponse_createFromProto_def)

text \<open>
  What the JSON-RPC transport makes of a command: every error of Core, an outage included, arrives as
  invalid parameters and is thrown to the caller; only what is neither Core's nor the caller's
  is retried on another address.
\<close>

theorem json_command_at_client:
  "json_classify (json_answer (errorHandlerDecorator command args)) =
    (case command args of
       Inr r \<Rightarrow> Good (Some r)
     | Inl UnexpectedError \<Rightarrow> Classified RetriableResponseError (Some (NumberCode (- 32603)))
     | Inl (RPCErrorThrown code message) \<Rightarrow>
         Classified (if code = - 32603 then RetriableResponseError else ResponseError) (Some (NumberCode code))
     | Inl _ \<Rightarrow> Classified ResponseError (Some (NumberCode (- 32602))))"
  by (auto simp: json_classify_def json_answer_def errorHandlerDecorator_def requestJsonRpc_def isOperationalError_def
      split: sum.split command_error.split)

text \<open>Tenderdash's code for an invalid height is -32603; the handler compares with 32603, and the client
  gets an internal error, which it retries.\<close>

theorem invalid_height_is_internal:
  assumes "request_params (Some height) = Inl (Some (- 32603))" "height \<noteq> 0"
  shows "getConsensusParamsHandler request_params height False = Inl (GrpcErrorThrown (plain_error INTERNAL None))"
  using assms by (simp add: getConsensusParamsHandler_def getConsensusParams_def RPCError_code_def)

text \<open>The status of a masternode arrives by name; a masternode that is not registered has none, and the
  whole status fails.\<close>

lemma masternode_status_at_client:
  assumes "mi_registered m = Some r" "mi_state m \<in> set masternode_statuses"
    and "getStatusHandler (Inr p) (Inr ()) (Inr sync) (Inr m) = Inr message"
  shows "client_masternode_status message = mi_state m"
  using assms
  by (auto simp: getStatusHandler_def core_result_def client_masternode_status_def status_number_def masternode_statuses_def
      upt_rec split: prod.splits)

lemma unregistered_masternode_has_no_status:
  "mi_registered m = None \<Longrightarrow> getStatusHandler (Inr p) (Inr ()) (Inr sync) (Inr m) = Inl RpcException"
  by (simp add: getStatusHandler_def core_result_def split: prod.split)

section \<open>Instances\<close>

theorem rejected_transaction_at_client_witness:
  "client_sees_error unary_codec 0 (broadcastTransactionHandler (\<lambda>_. Some True)
      (\<lambda>_. Inl (new_DashCoreRpcError ''rejected'' (Some (- 26)))) [1]) = Some (InvalidRequestError, NumberCode 9)"
  using rejected_transaction_at_client [OF unary_codec_documented, of "[1]" "\<lambda>_. Some True"
      "\<lambda>_. Inl (new_DashCoreRpcError ''rejected'' (Some (- 26)))" "new_DashCoreRpcError ''rejected'' (Some (- 26))" 0]
  by (simp add: new_DashCoreRpcError_def)

definition mempool_transaction :: raw_transaction where
  "mempool_transaction = \<lparr> rt_hex = ''01'', rt_blockhash = None, rt_height = None, rt_confirmations = None,
     rt_instantlock_internal = True, rt_chainlock = False \<rparr>"

theorem unconfirmed_transaction_unreadable_witness:
  "three_attempts (\<lambda>_. getTransactionHandler (\<lambda>_. Inr mempool_transaction) (\<lambda>_. Some [1]) ''ab'' ::
      (unit, unit) handler_error + transaction_message) GetTransactionResponse_createFromProto = (3, Inl ResponseInvalid)"
  by (rule unconfirmed_transaction_unreadable [of _ _ mempool_transaction _ "[1]"]) (simp_all add: mempool_transaction_def)

theorem invalid_height_is_internal_witness:
  "(getConsensusParamsHandler (\<lambda>h. if h = Some 7 then Inl (Some (- 32603)) else Inr ()) 7 False ::
      (unit, unit) handler_error + unit) = Inl (GrpcErrorThrown (plain_error INTERNAL None))"
  by (rule invalid_height_is_internal) simp_all

end
