(* ===== verification/WalletStorage.thy ===== *)
theory WalletStorage
  imports JsValues
begin

text \<open>
  The storage of the wallet library, \<open>packages/wallet-lib/src/types/Storage/methods\<close>: addresses with
  their unspent outputs and balances (\<open>importAddress.js\<close>, \<open>updateAddress.js\<close>,
  \<open>searchAddressesWithTx.js\<close>, \<open>calculateDuffBalance.js\<close>) and the transactions that change them
  (\<open>importTransaction.js\<close>), with what a broadcast takes off (\<open>Account/methods/broadcastTransaction.js\<close>).

  A transaction is what dashcore-lib reads from its bytes: the hash, the inputs with the address of
  their script, the outputs with theirs. A script without an address gives \<open>false\<close>, which no wallet
  has as an address, and is \<open>None\<close> here. The key \<open>hash-index\<close> of an output is the pair, since a hash
  in hexadecimal has no dash; \<open>store.wallets[walletId].addresses[type][path]\<close> is kept under the
  triple of its keys.
\<close>

section \<open>Paths\<close>

text \<open>\<open>parseInt\<close> to base ten, with \<open>None\<close> for \<open>NaN\<close>.\<close>

definition parseInt :: "string \<Rightarrow> int option" where
  "parseInt s =
    (let s = dropWhile (\<lambda>c. c \<in> set '' \<newline>'') s;
         negative = (s \<noteq> [] \<and> hd s = CHR ''-'');
         s = (if s \<noteq> [] \<and> hd s \<in> set ''-+'' then tl s else s);
         ds = takeWhile is_digit s
     in if ds = [] then None else Some (if negative then - int (digits_value ds) else int (digits_value ds)))"

definition path_part :: "string \<Rightarrow> nat \<Rightarrow> string option" where
  "path_part path i = (let parts = split_on CHR ''/'' path in if i < length parts then Some (parts ! i) else None)"

definition path_number :: "string \<Rightarrow> nat \<Rightarrow> int option" where
  "path_number path i = Option.bind (path_part path i) parseInt"

datatype address_type = External | Internal | Misc

definition type_of_path :: "string \<Rightarrow> address_type" where
  "type_of_path path =
    (if path_part path 4 = Some ''0'' then External
     else if path_part path 4 = Some ''1'' then Internal else Misc)"

section \<open>Transactions and addresses\<close>

type_synonym outpoint = "string \<times> nat"

record tx_input =
  in_address :: "string option"
  in_outpoint :: outpoint

record tx_output =
  out_address :: "string option"
  out_satoshis :: int

record wallet_tx =
  tx_hash :: string
  tx_inputs :: "tx_input list"
  tx_outputs :: "tx_output list"
  tx_coinbaseHeight :: "int option option"

record tx_metadata =
  md_height :: "int option"
  md_blockHash :: string
  md_instantLocked :: bool
  md_chainLocked :: bool

record address_object =
  ao_address :: string
  ao_path :: string
  ao_index :: int
  ao_transactions :: "string list"
  ao_balanceSat :: int
  ao_unconfirmedBalanceSat :: int
  ao_utxos :: "(outpoint \<times> tx_output) list"
  ao_fetchedLast :: int
  ao_used :: bool

datatype address_key = AddressKey (key_wallet: string) (key_type: address_type) (key_path: string)

datatype balance_type = Total | Confirmed | Unconfirmed

datatype announcement =
    FETCHED_CONFIRMED_TRANSACTION string
  | BALANCE_CHANGED balance_type int int

record storage =
  st_transactions :: "(string \<times> wallet_tx) list"
  st_metadata :: "(string \<times> tx_metadata) list"
  st_heights :: "(int \<times> (string \<times> tx_metadata) list) list"
  st_mappedAddress :: "(string \<times> address_key) list"
  st_addresses :: "(address_key \<times> address_object) list"
  st_announced :: "announcement list"

definition set_address :: "address_key \<Rightarrow> address_object \<Rightarrow> storage \<Rightarrow> storage" where
  "set_address k ob s = s\<lparr>st_addresses := AList.update k ob (st_addresses s)\<rparr>"

definition announce :: "announcement \<Rightarrow> storage \<Rightarrow> storage" where
  "announce e s = s\<lparr>st_announced := st_announced s @ [e]\<rparr>"

section \<open>Balances\<close>

text \<open>
  The balance of an account sums what its addresses say. An account is the fourth part of a path, or
  the whole path where that is a single part; the account that \<open>updateAddress\<close> reads from a path can
  be \<open>NaN\<close>, which equals none.
\<close>

definition path_account :: "string \<Rightarrow> int option" where
  "path_account path = path_number path (if length (split_on CHR ''/'' path) = 1 then 0 else 3)"

definition balance_of :: "balance_type \<Rightarrow> address_object \<Rightarrow> int" where
  "balance_of t ob =
    (case t of Total \<Rightarrow> ao_balanceSat ob + ao_unconfirmedBalanceSat ob
     | Confirmed \<Rightarrow> ao_balanceSat ob | Unconfirmed \<Rightarrow> ao_unconfirmedBalanceSat ob)"

definition account_addresses :: "string \<Rightarrow> int option \<Rightarrow> storage \<Rightarrow> address_object list" where
  "account_addresses walletId accountIndex s =
    map snd (filter (\<lambda>(k, ob). key_wallet k = walletId \<and> accountIndex \<noteq> None \<and>
      path_account (key_path k) = accountIndex) (st_addresses s))"

definition calculateDuffBalance :: "string \<Rightarrow> int option \<Rightarrow> balance_type \<Rightarrow> storage \<Rightarrow> int" where
  "calculateDuffBalance walletId accountIndex t s = sum_list (map (balance_of t) (account_addresses walletId accountIndex s))"

section \<open>Storing an address\<close>

text \<open>
  \<open>updateAddress\<close>. Outputs that the new and the previous object do not share are added to the balance
  when their transaction is known; one that only the previous object has is \<open>undefined\<close> in the new
  one, and setting its \<open>txId\<close> throws.
\<close>

definition xor_list :: "'a list \<Rightarrow> 'a list \<Rightarrow> 'a list" where
  "xor_list xs ys = filter (\<lambda>x. x \<notin> set ys) xs @ filter (\<lambda>y. y \<notin> set xs) ys"

definition newly_credited :: "storage \<Rightarrow> outpoint list \<Rightarrow> (outpoint \<times> tx_output) list \<Rightarrow> int option" where
  "newly_credited s new utxos =
    (if list_all (\<lambda>k. map_of utxos k \<noteq> None) new
     then Some (sum_list (map (\<lambda>k. if map_of (st_transactions s) (fst k) = None then 0
       else out_satoshis (the (map_of utxos k))) new))
     else None)"

definition announce_change :: "string \<Rightarrow> int option \<Rightarrow> balance_type \<Rightarrow> int \<Rightarrow> storage \<Rightarrow> storage" where
  "announce_change walletId accountIndex t delta s =
    announce (BALANCE_CHANGED t delta (calculateDuffBalance walletId accountIndex t s)) s"

definition announce_new :: "string \<Rightarrow> int option \<Rightarrow> address_object \<Rightarrow> storage \<Rightarrow> storage" where
  "announce_new walletId accountIndex ob s =
    (let current = calculateDuffBalance walletId accountIndex Confirmed s;
         s = (if ao_balanceSat ob > 0
              then announce (BALANCE_CHANGED Confirmed (ao_balanceSat ob)
                (if current = 0 then ao_unconfirmedBalanceSat ob else current)) s
              else s)
     in if ao_unconfirmedBalanceSat ob > 0
        then announce_change walletId accountIndex Unconfirmed (ao_unconfirmedBalanceSat ob) s else s)"

definition announce_updated :: "string \<Rightarrow> int option \<Rightarrow> address_object \<Rightarrow> address_object \<Rightarrow> storage \<Rightarrow> storage" where
  "announce_updated walletId accountIndex previous ob s =
    (let s = (if ao_balanceSat previous \<noteq> ao_balanceSat ob
              then announce_change walletId accountIndex Confirmed (ao_balanceSat ob - ao_balanceSat previous) s else s)
     in if ao_unconfirmedBalanceSat previous \<noteq> ao_unconfirmedBalanceSat ob
        then announce_change walletId accountIndex Unconfirmed
          (ao_unconfirmedBalanceSat ob - ao_unconfirmedBalanceSat previous) s
        else s)"

definition updateAddress :: "address_object \<Rightarrow> string \<Rightarrow> storage \<Rightarrow> storage option" where
  "updateAddress ob walletId s =
    (if walletId = [] \<or> ao_path ob = [] then None
     else
       let path = ao_path ob; accountIndex = path_number path 3; k = AddressKey walletId (type_of_path path) path;
           previous = map_of (st_addresses s) k;
           previousUTXOS = (case previous of None \<Rightarrow> [] | Some p \<Rightarrow> keys (ao_utxos p));
           credited = (if ao_utxos ob = [] then Some 0
             else newly_credited s (xor_list (keys (ao_utxos ob)) previousUTXOS) (ao_utxos ob))
       in case credited of
            None \<Rightarrow> None
          | Some c \<Rightarrow>
              (let ob = ob\<lparr>ao_balanceSat := ao_balanceSat ob + c\<rparr>;
                   s = set_address k ob s;
                   s = (case previous of
                          None \<Rightarrow> announce_new walletId accountIndex ob s
                        | Some p \<Rightarrow> announce_updated walletId accountIndex p ob s)
               in Some (if map_of (st_mappedAddress s) (ao_address ob) = None
                        then s\<lparr>st_mappedAddress := AList.update (ao_address ob) k (st_mappedAddress s)\<rparr> else s)))"

text \<open>\<open>importAddress\<close> updates an address that is new or was fetched later than the stored one.\<close>

definition importAddress :: "address_object \<Rightarrow> string \<Rightarrow> storage \<Rightarrow> storage option" where
  "importAddress ob walletId s =
    (if walletId = [] then None
     else
       (case map_of (st_addresses s) (AddressKey walletId (type_of_path (ao_path ob)) (ao_path ob)) of
          None \<Rightarrow> updateAddress ob walletId s
        | Some stored \<Rightarrow> if ao_fetchedLast stored < ao_fetchedLast ob then updateAddress ob walletId s else Some s))"

section \<open>Importing a transaction\<close>

datatype tx_element = Vin tx_input | Vout nat tx_output

definition tx_elements :: "wallet_tx \<Rightarrow> tx_element list" where
  "tx_elements t = map Vin (tx_inputs t) @ map (\<lambda>(i, out). Vout i out) (enumerate 0 (tx_outputs t))"

fun element_address :: "tx_element \<Rightarrow> string option" where
  "element_address (Vin vin) = in_address vin"
| "element_address (Vout i out) = out_address out"

text \<open>What an input or an output does to the object of its address, with whether it changed a balance.\<close>

definition spend_output :: "outpoint \<Rightarrow> address_object \<Rightarrow> address_object" where
  "spend_output p ob =
    (case map_of (ao_utxos ob) p of
       None \<Rightarrow> ob
     | Some out \<Rightarrow> ob\<lparr>ao_balanceSat := ao_balanceSat ob - out_satoshis out, ao_utxos := AList.delete p (ao_utxos ob)\<rparr>)"

definition receive_output :: "outpoint \<Rightarrow> tx_output \<Rightarrow> address_object \<Rightarrow> address_object" where
  "receive_output p out ob =
    (if map_of (ao_utxos ob) p = None
     then ob\<lparr>ao_utxos := AList.update p out (ao_utxos ob), ao_balanceSat := ao_balanceSat ob + out_satoshis out\<rparr>
     else ob)"

fun change_object :: "wallet_tx \<Rightarrow> tx_element \<Rightarrow> address_object \<Rightarrow> address_object" where
  "change_object t (Vin vin) ob = spend_output (in_outpoint vin) (ob\<lparr>ao_used := True\<rparr>)"
| "change_object t (Vout i out) ob = receive_output (tx_hash t, i) out (ob\<lparr>ao_used := True\<rparr>)"

fun changes_balance :: "wallet_tx \<Rightarrow> tx_element \<Rightarrow> address_object \<Rightarrow> bool" where
  "changes_balance t (Vin vin) ob = (map_of (ao_utxos ob) (in_outpoint vin) \<noteq> None)"
| "changes_balance t (Vout i out) ob = (map_of (ao_utxos ob) (tx_hash t, i) = None)"

text \<open>
  One pass of the loop over inputs and outputs, with the addresses processed so far; \<open>None\<close> is the
  \<open>TypeError\<close> of an address that is mapped to an object that is not stored.
\<close>

type_synonym import_state = "storage \<times> (string \<times> address_key) list \<times> bool"

definition process_element :: "wallet_tx \<Rightarrow> tx_element \<Rightarrow> import_state \<Rightarrow> import_state option" where
  "process_element t el st =
    (case st of (s, processed, updated) \<Rightarrow>
       (case Option.bind (element_address el) (map_of (st_mappedAddress s)) of
          None \<Rightarrow> Some st
        | Some k \<Rightarrow>
            (case map_of (st_addresses s) k of
               None \<Rightarrow> None
             | Some ob \<Rightarrow>
                 if tx_hash t \<in> set (ao_transactions ob) then Some st
                 else Some (set_address k (change_object t el ob) s,
                   (if map_of processed (ao_address ob) = None then processed @ [(ao_address ob, k)] else processed),
                   updated \<or> changes_balance t el ob))))"

definition push_hash :: "string \<Rightarrow> address_key \<Rightarrow> storage \<Rightarrow> storage" where
  "push_hash h k s =
    (case map_of (st_addresses s) k of
       None \<Rightarrow> s
     | Some ob \<Rightarrow> set_address k (ob\<lparr>ao_transactions := ao_transactions ob @ [h]\<rparr>) s)"

text \<open>The transaction and the height it is confirmed at.\<close>

definition add_mapped :: "string \<Rightarrow> tx_metadata \<Rightarrow> (string \<times> tx_metadata) list option \<Rightarrow> (string \<times> tx_metadata) list" where
  "add_mapped h m known = (case known of None \<Rightarrow> [(h, m)] | Some ms \<Rightarrow> AList.update h m ms)"

definition store_transaction :: "wallet_tx \<Rightarrow> tx_metadata option \<Rightarrow> storage \<Rightarrow> storage" where
  "store_transaction t metadata s =
    (let s = s\<lparr>st_transactions := AList.update (tx_hash t) t (st_transactions s)\<rparr>
     in case metadata of
          None \<Rightarrow> s
        | Some m \<Rightarrow>
            (case md_height m of
               None \<Rightarrow> s
             | Some height \<Rightarrow>
                 if height = 0 then s
                 else s\<lparr>st_metadata := AList.update (tx_hash t) m (st_metadata s),
                   st_heights := AList.update height (add_mapped (tx_hash t) m (map_of (st_heights s) height))
                     (st_heights s)\<rparr>))"

definition importTransaction :: "wallet_tx \<Rightarrow> tx_metadata option \<Rightarrow> storage \<Rightarrow> storage option" where
  "importTransaction t metadata s =
    (case fold (\<lambda>el st. Option.bind st (process_element t el)) (tx_elements t)
        (Some (store_transaction t metadata s, [], False)) of
       None \<Rightarrow> None
     | Some (s, processed, updated) \<Rightarrow>
         (let s = fold (push_hash (tx_hash t)) (map snd processed) s
          in Some (if updated then announce (FETCHED_CONFIRMED_TRANSACTION (tx_hash t)) s else s)))"

text \<open>Text is parsed first; what has no hash, no inputs or no outputs is refused.\<close>

datatype tx_argument = Instance wallet_tx | Stringified string

definition importTransaction_argument ::
    "(string \<Rightarrow> wallet_tx option) \<Rightarrow> tx_argument \<Rightarrow> tx_metadata option \<Rightarrow> storage \<Rightarrow> storage option" where
  "importTransaction_argument parse arg metadata s =
    (case arg of
       Instance t \<Rightarrow> importTransaction t metadata s
     | Stringified text \<Rightarrow>
         (case parse text of
            None \<Rightarrow> None
          | Some t \<Rightarrow> if tx_hash t = [] \<or> tx_inputs t = [] \<or> tx_outputs t = [] then None
              else importTransaction t metadata s))"

definition importTransactions :: "(wallet_tx \<times> tx_metadata option) list \<Rightarrow> storage \<Rightarrow> storage option" where
  "importTransactions txs s = fold (\<lambda>(t, m) s. Option.bind s (importTransaction t m)) txs (Some s)"

section \<open>Broadcasting\<close>

text \<open>
  After a broadcast the outputs that the transaction spends are taken off at once. The address is
  looked up in the account's own wallet, whatever wallet it was found in.
\<close>

definition searchAddressesWithTx :: "string \<Rightarrow> storage \<Rightarrow> address_key list" where
  "searchAddressesWithTx txid s = map fst (filter (\<lambda>(k, ob). txid \<in> set (ao_transactions ob)) (st_addresses s))"

definition impact_address :: "string \<Rightarrow> outpoint \<Rightarrow> address_key \<Rightarrow> storage \<Rightarrow> storage option" where
  "impact_address walletId p found s =
    (case Option.bind (map_of (st_addresses s) found) (\<lambda>ob. map_of (ao_utxos ob) p) of
       None \<Rightarrow> Some s
     | Some out \<Rightarrow>
         (let own = AddressKey walletId (key_type found) (key_path found)
          in case map_of (st_addresses s) own of
            None \<Rightarrow> None
          | Some address \<Rightarrow>
              Some (set_address own
                (address\<lparr>ao_balanceSat := ao_balanceSat address - out_satoshis out,
                  ao_utxos := AList.delete p (ao_utxos address)\<rparr>) s)))"

definition impactAffectedInputs :: "string \<Rightarrow> wallet_tx \<Rightarrow> storage \<Rightarrow> storage option" where
  "impactAffectedInputs walletId t s =
    fold (\<lambda>vin st. Option.bind st (\<lambda>s.
        fold (\<lambda>found st. Option.bind st (impact_address walletId (in_outpoint vin) found))
          (searchAddressesWithTx (fst (in_outpoint vin)) s) (Some s)))
      (tx_inputs t) (Some s)"

section \<open>An import, address by address\<close>

text \<open>
  What the whole import does to the object of an address: the inputs and outputs with that address, in
  order, unless the transaction was processed before.
\<close>

definition own_elements :: "tx_element list \<Rightarrow> address_object \<Rightarrow> tx_element list" where
  "own_elements els ob = filter (\<lambda>el. element_address el = Some (ao_address ob)) els"

definition object_after :: "wallet_tx \<Rightarrow> address_object \<Rightarrow> address_object" where
  "object_after t ob =
    (let mine = own_elements (tx_elements t) ob
     in if mine = [] \<or> tx_hash t \<in> set (ao_transactions ob) then ob
        else (fold (change_object t) mine ob)\<lparr>ao_transactions := ao_transactions ob @ [tx_hash t]\<rparr>)"

definition mapped_ok :: "storage \<Rightarrow> bool" where
  "mapped_ok s \<longleftrightarrow> (\<forall>a k. map_of (st_mappedAddress s) a = Some k \<longrightarrow>
     (\<exists>ob. map_of (st_addresses s) k = Some ob \<and> ao_address ob = a))"

definition is_mapped :: "storage \<Rightarrow> address_key \<Rightarrow> address_object \<Rightarrow> bool" where
  "is_mapped s k ob \<longleftrightarrow> map_of (st_mappedAddress s) (ao_address ob) = Some k"

lemma change_object_keeps [simp]:
  "ao_address (change_object t el ob) = ao_address ob"
  "ao_transactions (change_object t el ob) = ao_transactions ob"
  by (cases el; simp add: spend_output_def receive_output_def split: option.split)+

lemma fold_change_keeps [simp]:
  "ao_address (fold (change_object t) els ob) = ao_address ob"
  "ao_transactions (fold (change_object t) els ob) = ao_transactions ob"
  by (induction els arbitrary: ob) simp_all

lemma set_address_simps [simp]:
  "st_mappedAddress (set_address k ob s) = st_mappedAddress s"
  "map_of (st_addresses (set_address k ob s)) k' = (if k' = k then Some ob else map_of (st_addresses s) k')"
  by (simp_all add: set_address_def update_conv')

lemma mapped_okD:
  "mapped_ok s \<Longrightarrow> map_of (st_mappedAddress s) a = Some k \<Longrightarrow> map_of (st_addresses s) k = Some ob \<Longrightarrow> ao_address ob = a"
  by (force simp: mapped_ok_def)

text \<open>The state of the loop after a prefix of the elements.\<close>

definition after_prefix :: "wallet_tx \<Rightarrow> storage \<Rightarrow> tx_element list \<Rightarrow> address_key \<Rightarrow> address_object option" where
  "after_prefix t s els k =
    map_option (\<lambda>ob. if is_mapped s k ob \<and> tx_hash t \<notin> set (ao_transactions ob)
        then fold (change_object t) (own_elements els ob) ob else ob)
      (map_of (st_addresses s) k)"

definition prefix_processed :: "wallet_tx \<Rightarrow> storage \<Rightarrow> tx_element list \<Rightarrow> string \<Rightarrow> address_key option" where
  "prefix_processed t s els a =
    (if a \<in> set (List.map_filter element_address els)
     then Option.bind (map_of (st_mappedAddress s) a) (\<lambda>k.
       Option.bind (map_of (st_addresses s) k) (\<lambda>ob. if tx_hash t \<in> set (ao_transactions ob) then None else Some k))
     else None)"

lemma map_filter_snoc: "List.map_filter f (xs @ [x]) = List.map_filter f xs @ (case f x of None \<Rightarrow> [] | Some y \<Rightarrow> [y])"
  by (simp add: List.map_filter_def split: option.split)

lemma process_prefix:
  assumes "mapped_ok s"
  shows "\<exists>s' processed updated.
    fold (\<lambda>el st. Option.bind st (process_element t el)) els (Some (s, [], False)) = Some (s', processed, updated) \<and>
    st_mappedAddress s' = st_mappedAddress s \<and> (\<forall>k. map_of (st_addresses s') k = after_prefix t s els k) \<and>
    map_of processed = prefix_processed t s els \<and> distinct (map fst processed)"
proof (induction els rule: rev_induct)
  case Nil
  have "after_prefix t s [] k = map_of (st_addresses s) k" for k
    by (cases "map_of (st_addresses s) k") (simp_all add: after_prefix_def own_elements_def)
  then show ?case by (auto simp: prefix_processed_def fun_eq_iff List.map_filter_simps)
next
  case (snoc el els)
  then obtain s' processed updated where st:
      "fold (\<lambda>el st. Option.bind st (process_element t el)) els (Some (s, [], False)) = Some (s', processed, updated)"
      "st_mappedAddress s' = st_mappedAddress s" "\<And>k. map_of (st_addresses s') k = after_prefix t s els k"
      "map_of processed = prefix_processed t s els" "distinct (map fst processed)"
    by auto
  have same: "after_prefix t s (els @ [el]) k = after_prefix t s els k"
    if "\<And>ob. map_of (st_addresses s) k = Some ob \<Longrightarrow> is_mapped s k ob \<Longrightarrow> tx_hash t \<notin> set (ao_transactions ob) \<Longrightarrow>
        element_address el \<noteq> Some (ao_address ob)" for k
    using that by (cases "map_of (st_addresses s) k") (auto simp: after_prefix_def own_elements_def)
  show ?case
  proof (cases "Option.bind (element_address el) (map_of (st_mappedAddress s))")
    case None
    then have "prefix_processed t s (els @ [el]) = prefix_processed t s els"
      by (cases "element_address el") (auto simp: prefix_processed_def fun_eq_iff map_filter_snoc)
    moreover have "after_prefix t s (els @ [el]) k = after_prefix t s els k" for k
      using None by (intro same) (auto simp: is_mapped_def)
    moreover have "process_element t el (s', processed, updated) = Some (s', processed, updated)"
      using None st(2) by (simp add: process_element_def)
    ultimately show ?thesis using st by simp
  next
    case (Some k)
    then obtain a where a: "element_address el = Some a" "map_of (st_mappedAddress s) a = Some k"
      by (auto simp: bind_eq_Some_conv)
    then obtain ob where ob: "map_of (st_addresses s) k = Some ob" "ao_address ob = a"
      using assms by (auto simp: mapped_ok_def)
    have mapped: "is_mapped s k ob" using a ob by (simp add: is_mapped_def)
    have other: "after_prefix t s (els @ [el]) k' = after_prefix t s els k'" if "k' \<noteq> k" for k'
      using that a by (intro same) (auto simp: is_mapped_def)
    show ?thesis
    proof (cases "tx_hash t \<in> set (ao_transactions ob)")
      case True
      have "prefix_processed t s (els @ [el]) = prefix_processed t s els"
        using a ob True by (auto simp: prefix_processed_def fun_eq_iff map_filter_snoc)
      moreover have "after_prefix t s (els @ [el]) k' = after_prefix t s els k'" for k'
        using other ob True by (cases "k' = k") (auto simp: after_prefix_def)
      moreover have "process_element t el (s', processed, updated) = Some (s', processed, updated)"
        using Some st(2,3) ob True mapped by (simp add: process_element_def after_prefix_def)
      ultimately show ?thesis using st by simp
    next
      case False
      let ?now = "fold (change_object t) (own_elements els ob) ob"
      let ?p = "if map_of processed a = None then processed @ [(a, k)] else processed"
      have now: "map_of (st_addresses s') k = Some ?now" using st(3) ob mapped False by (simp add: after_prefix_def)
      have step: "process_element t el (s', processed, updated) =
          Some (set_address k (change_object t el ?now) s', ?p, updated \<or> changes_balance t el ?now)"
        using Some st(2) now ob False by (simp add: process_element_def)
      have "map_of (st_addresses (set_address k (change_object t el ?now) s')) k' = after_prefix t s (els @ [el]) k'" for k'
        using other [of k'] st(3) [of k'] ob mapped False a
        by (auto simp: after_prefix_def own_elements_def)
      moreover have "map_of ?p = prefix_processed t s (els @ [el])"
        using st(4) a ob False by (auto simp: prefix_processed_def fun_eq_iff map_filter_snoc map_add_def split: option.splits)
      moreover have "distinct (map fst ?p)" using st(5) by (auto simp: map_of_eq_None_iff)
      ultimately show ?thesis using st(1,2) step by simp
    qed
  qed
qed

lemma push_hashes:
  assumes "distinct ks"
  shows "st_mappedAddress (fold (push_hash h) ks s) = st_mappedAddress s \<and>
    (\<forall>k. map_of (st_addresses (fold (push_hash h) ks s)) k =
      map_option (\<lambda>ob. if k \<in> set ks then ob\<lparr>ao_transactions := ao_transactions ob @ [h]\<rparr> else ob)
        (map_of (st_addresses s) k))"
  using assms
proof (induction ks arbitrary: s)
  case Nil
  then show ?case by (simp add: option.map_ident)
next
  case (Cons k ks)
  have mapped: "st_mappedAddress (push_hash h k s) = st_mappedAddress s"
    by (simp add: push_hash_def split: option.split)
  have push: "map_of (st_addresses (push_hash h k s)) k' =
      map_option (\<lambda>ob. if k' = k then ob\<lparr>ao_transactions := ao_transactions ob @ [h]\<rparr> else ob) (map_of (st_addresses s) k')" for k'
    by (cases "map_of (st_addresses s) k'"; cases "map_of (st_addresses s) k") (auto simp: push_hash_def)
  show ?case
    using Cons mapped push by (auto simp: option.map_comp o_def intro!: option.map_cong0)
qed

lemma store_transaction_keeps [simp]:
  "st_mappedAddress (store_transaction t m s) = st_mappedAddress s"
  "st_addresses (store_transaction t m s) = st_addresses s"
  by (auto simp: store_transaction_def Let_def split: option.split)

lemma announce_keeps [simp]:
  "st_mappedAddress (announce e s) = st_mappedAddress s" "st_addresses (announce e s) = st_addresses s"
  by (simp_all add: announce_def)


lemma imported_pointwise:
  assumes "mapped_ok s"
  shows "\<exists>s'. importTransaction t m s = Some s' \<and> st_mappedAddress s' = st_mappedAddress s \<and>
    (\<forall>k. map_of (st_addresses s') k =
      map_option (\<lambda>ob. if is_mapped s k ob then object_after t ob else ob) (map_of (st_addresses s) k))"
proof -
  define s0 where "s0 = store_transaction t m s"
  have s0: "st_mappedAddress s0 = st_mappedAddress s" "st_addresses s0 = st_addresses s" by (simp_all add: s0_def)
  have "mapped_ok s0" using assms by (simp add: mapped_ok_def s0)
  then obtain s1 processed updated where st:
      "fold (\<lambda>el st. Option.bind st (process_element t el)) (tx_elements t) (Some (s0, [], False)) = Some (s1, processed, updated)"
      "st_mappedAddress s1 = st_mappedAddress s" "\<And>k. map_of (st_addresses s1) k = after_prefix t s0 (tx_elements t) k"
      "map_of processed = prefix_processed t s0 (tx_elements t)" "distinct (map fst processed)"
    using process_prefix [of s0 t "tx_elements t"] s0 by auto
  have of_key: "(a, k) \<in> set processed \<longleftrightarrow> a \<in> set (List.map_filter element_address (tx_elements t)) \<and>
      (\<exists>ob. map_of (st_addresses s) k = Some ob \<and> is_mapped s k ob \<and> ao_address ob = a \<and> tx_hash t \<notin> set (ao_transactions ob))" for a k
  proof -
    have "(a, k) \<in> set processed \<longleftrightarrow> map_of processed a = Some k" using st(5) by simp
    also have "\<dots> \<longleftrightarrow> a \<in> set (List.map_filter element_address (tx_elements t)) \<and>
      (\<exists>ob. map_of (st_addresses s) k = Some ob \<and> is_mapped s k ob \<and> ao_address ob = a \<and> tx_hash t \<notin> set (ao_transactions ob))"
      using assms
      by (auto simp: st(4) prefix_processed_def s0 is_mapped_def bind_eq_Some_conv dest: mapped_okD split: if_splits)
    finally show ?thesis .
  qed
  have mine: "own_elements (tx_elements t) ob \<noteq> [] \<longleftrightarrow> ao_address ob \<in> set (List.map_filter element_address (tx_elements t))" for ob
    by (auto simp: own_elements_def List.map_filter_def filter_empty_conv image_iff)
  have distinct: "distinct (map snd processed)"
  proof -
    have "inj_on snd (set processed)" by (rule inj_onI) (auto simp: of_key)
    then show ?thesis using st(5) by (simp add: distinct_map)
  qed
  let ?s = "fold (push_hash (tx_hash t)) (map snd processed) s1"
  have "map_of (st_addresses ?s) k = map_option (\<lambda>ob. if is_mapped s k ob then object_after t ob else ob) (map_of (st_addresses s) k)" for k
  proof (cases "map_of (st_addresses s) k")
    case None
    then show ?thesis using push_hashes [OF distinct] st(3) by (simp add: after_prefix_def s0)
  next
    case (Some ob)
    have "k \<in> set (map snd processed) \<longleftrightarrow> is_mapped s k ob \<and> tx_hash t \<notin> set (ao_transactions ob) \<and> own_elements (tx_elements t) ob \<noteq> []"
      using Some of_key mine by (auto simp: image_iff Bex_def)
    moreover have "is_mapped s0 k ob = is_mapped s k ob" by (simp add: is_mapped_def s0)
    moreover have "fold (change_object t) (own_elements (tx_elements t) ob) ob = ob" if "own_elements (tx_elements t) ob = []"
      using that by simp
    ultimately show ?thesis using push_hashes [OF distinct] st(3) Some
      by (auto simp: after_prefix_def s0 object_after_def Let_def)
  qed
  then show ?thesis
    using st(1,2) push_hashes [OF distinct] by (auto simp: importTransaction_def s0_def [symmetric] Let_def)
qed

end
