(* ===== verification/WalletLedger.thy ===== *)
theory WalletLedger
  imports WalletStorage
begin

text \<open>
  What the storage of the wallet library holds after the operations of \<open>WalletStorage\<close>: balances are
  the sums of the unspent outputs, transactions imported in the order they depend on each other leave
  exactly the outputs that none of them spends, in another order they do not, and taking off what a
  broadcast spends agrees with the import of the transaction that follows.
\<close>

declare map_of_eq_Some_iff [simp del]

section \<open>Balances\<close>

definition utxo_sum :: "address_object \<Rightarrow> int" where
  "utxo_sum ob = sum_list (map (\<lambda>u. out_satoshis (snd u)) (ao_utxos ob))"

definition balanced :: "address_object \<Rightarrow> bool" where
  "balanced ob \<longleftrightarrow> distinct (keys (ao_utxos ob)) \<and> ao_balanceSat ob = utxo_sum ob \<and> ao_unconfirmedBalanceSat ob = 0"

named_theorems object_defs \<open>definitions of the changes of an address object\<close>

lemmas [object_defs] = spend_output_def receive_output_def balanced_def utxo_sum_def

lemma sum_delete:
  "distinct (keys us) \<Longrightarrow> map_of us p = Some out \<Longrightarrow>
    sum_list (map (\<lambda>u. out_satoshis (snd u)) (AList.delete p us)) =
    sum_list (map (\<lambda>u. out_satoshis (snd u)) us) - out_satoshis out"
proof (induction us)
  case (Cons u us)
  show ?case
  proof (cases "fst u = p")
    case True
    then have "AList.delete p us = us"
      using Cons.prems by (auto intro!: delete_idem)
    then show ?thesis using True Cons.prems by (cases u) auto
  next
    case False
    then show ?thesis using Cons by (cases u) auto
  qed
qed simp

lemma sum_insert:
  "map_of us p = None \<Longrightarrow>
    sum_list (map (\<lambda>u. out_satoshis (snd u)) (AList.update p out us)) =
    sum_list (map (\<lambda>u. out_satoshis (snd u)) us) + out_satoshis out"
  by (induction us) (auto split: if_splits)

lemma balanced_spend: "balanced ob \<Longrightarrow> balanced (spend_output p ob)"
  by (auto simp: object_defs sum_delete split: option.split)

lemma balanced_receive: "balanced ob \<Longrightarrow> balanced (receive_output p out ob)"
  by (auto simp: object_defs sum_insert)

lemma balanced_used [simp]: "balanced (ob\<lparr>ao_used := b\<rparr>) = balanced ob"
  by (simp add: object_defs)

lemma balanced_transactions [simp]: "balanced (ob\<lparr>ao_transactions := ts\<rparr>) = balanced ob"
  by (simp add: object_defs)

lemma balanced_change: "balanced ob \<Longrightarrow> balanced (change_object t el ob)"
  by (cases el) (simp_all add: balanced_spend balanced_receive)

lemma balanced_fold: "balanced ob \<Longrightarrow> balanced (fold (change_object t) els ob)"
  by (induction els arbitrary: ob) (simp_all add: balanced_change)

lemma balanced_object_after: "balanced ob \<Longrightarrow> balanced (object_after t ob)"
  by (simp add: object_after_def Let_def balanced_fold)

section \<open>Outputs after an import\<close>

lemma utxos_spend:
  "map_of (ao_utxos (spend_output p ob)) q = (if q = p then None else map_of (ao_utxos ob) q)"
  by (auto simp: spend_output_def delete_conv' split: option.split)

lemma utxos_receive:
  "map_of (ao_utxos (receive_output p out ob)) q =
    (if q = p \<and> map_of (ao_utxos ob) p = None then Some out else map_of (ao_utxos ob) q)"
  by (auto simp: receive_output_def update_conv')

lemma utxos_inputs:
  "map_of (ao_utxos (fold (change_object t) (map Vin vins) ob)) p =
    (if p \<in> in_outpoint ` set vins then None else map_of (ao_utxos ob) p)"
  by (induction vins arbitrary: ob) (auto simp: utxos_spend)

lemma utxos_outputs:
  "map_of (ao_utxos (fold (change_object t) (map (\<lambda>(i, out). Vout i out) outs) ob)) p =
    (case map_of (ao_utxos ob) p of
       Some out \<Rightarrow> Some out | None \<Rightarrow> if fst p = tx_hash t then map_of outs (snd p) else None)"
proof (induction outs arbitrary: ob)
  case (Cons u outs)
  then show ?case by (cases u; cases p) (auto simp: utxos_receive split: option.split)
qed (simp split: option.split)

lemma map_of_filter_enumerate:
  "map_of (filter (\<lambda>(i, x). P x) (enumerate n xs)) j =
    (if n \<le> j \<and> j < n + length xs \<and> P (xs ! (j - n)) then Some (xs ! (j - n)) else None)"
proof (induction xs arbitrary: n)
  case (Cons x xs)
  then show ?case by (cases "j = n") (auto simp: nth_Cons')
qed simp

definition own_inputs :: "wallet_tx \<Rightarrow> address_object \<Rightarrow> tx_input list" where
  "own_inputs t ob = filter (\<lambda>vin. in_address vin = Some (ao_address ob)) (tx_inputs t)"

definition own_outputs :: "wallet_tx \<Rightarrow> address_object \<Rightarrow> (nat \<times> tx_output) list" where
  "own_outputs t ob = filter (\<lambda>(i, out). out_address out = Some (ao_address ob)) (enumerate 0 (tx_outputs t))"

lemma own_elements_split:
  "own_elements (tx_elements t) ob = map Vin (own_inputs t ob) @ map (\<lambda>(i, out). Vout i out) (own_outputs t ob)"
  by (auto simp: own_elements_def tx_elements_def own_inputs_def own_outputs_def filter_map o_def split_beta
      intro!: arg_cong2 [where f = append] arg_cong [where f = "map _"] filter_cong)

lemma utxos_after:
  assumes "tx_hash t \<notin> set (ao_transactions ob)" "\<And>i. map_of (ao_utxos ob) (tx_hash t, i) = None"
  shows "map_of (ao_utxos (object_after t ob)) p =
    (if fst p = tx_hash t
     then (if snd p < length (tx_outputs t) \<and> out_address (tx_outputs t ! snd p) = Some (ao_address ob)
           then Some (tx_outputs t ! snd p) else None)
     else if p \<in> in_outpoint ` set (own_inputs t ob) then None else map_of (ao_utxos ob) p)"
proof -
  have "map_of (ao_utxos (object_after t ob)) p =
      map_of (ao_utxos (fold (change_object t) (own_elements (tx_elements t) ob) ob)) p"
    using assms(1) by (simp add: object_after_def Let_def)
  also have "\<dots> = (case if p \<in> in_outpoint ` set (own_inputs t ob) then None else map_of (ao_utxos ob) p of
       Some out \<Rightarrow> Some out
     | None \<Rightarrow> if fst p = tx_hash t then map_of (own_outputs t ob) (snd p) else None)"
    by (simp add: own_elements_split utxos_outputs utxos_inputs)
  finally show ?thesis
    using assms(2) by (cases p) (auto simp: own_outputs_def map_of_filter_enumerate split: option.split)
qed

section \<open>The outputs that no transaction spends\<close>

definition lookup_output :: "wallet_tx list \<Rightarrow> outpoint \<Rightarrow> tx_output option" where
  "lookup_output txs p =
    (case find (\<lambda>t. tx_hash t = fst p) txs of
       None \<Rightarrow> None
     | Some t \<Rightarrow> if snd p < length (tx_outputs t) then Some (tx_outputs t ! snd p) else None)"

definition is_spent :: "wallet_tx list \<Rightarrow> outpoint \<Rightarrow> bool" where
  "is_spent txs p = list_ex (\<lambda>t. list_ex (\<lambda>vin. in_outpoint vin = p) (tx_inputs t)) txs"

definition unspent_of :: "string \<Rightarrow> wallet_tx list \<Rightarrow> outpoint \<Rightarrow> tx_output option" where
  "unspent_of a txs p =
    (case lookup_output txs p of
       None \<Rightarrow> None
     | Some out \<Rightarrow> if out_address out = Some a \<and> \<not> is_spent txs p then Some out else None)"

text \<open>
  Transactions in the order they depend on each other: no hash twice, none spends an output of itself
  or of a later one, and an input that spends the output of an earlier one has the output's address.
\<close>

definition follows :: "wallet_tx list \<Rightarrow> wallet_tx \<Rightarrow> bool" where
  "follows earlier t \<longleftrightarrow>
    tx_hash t \<notin> tx_hash ` set earlier \<and>
    list_all (\<lambda>t'. list_all (\<lambda>vin. fst (in_outpoint vin) \<noteq> tx_hash t) (tx_inputs t')) (earlier @ [t]) \<and>
    list_all (\<lambda>vin. case lookup_output earlier (in_outpoint vin) of
        None \<Rightarrow> True | Some out \<Rightarrow> out_address out = None \<or> in_address vin = out_address out) (tx_inputs t)"

fun well_ordered :: "wallet_tx list \<Rightarrow> wallet_tx list \<Rightarrow> bool" where
  "well_ordered earlier [] = True"
| "well_ordered earlier (t # ts) = (follows earlier t \<and> well_ordered (earlier @ [t]) ts)"

lemma well_ordered_snoc: "well_ordered earlier (ts @ [t]) \<longleftrightarrow> well_ordered earlier ts \<and> follows (earlier @ ts) t"
  by (induction ts arbitrary: earlier) auto

definition object_ledger :: "wallet_tx list \<Rightarrow> address_object \<Rightarrow> bool" where
  "object_ledger txs ob \<longleftrightarrow> map_of (ao_utxos ob) = unspent_of (ao_address ob) txs \<and>
     set (ao_transactions ob) \<subseteq> tx_hash ` set txs"

lemma lookup_snoc:
  "tx_hash t \<notin> tx_hash ` set txs \<Longrightarrow> lookup_output (txs @ [t]) p =
    (if fst p = tx_hash t then if snd p < length (tx_outputs t) then Some (tx_outputs t ! snd p) else None
     else lookup_output txs p)"
proof -
  assume new: "tx_hash t \<notin> tx_hash ` set txs"
  have "find (\<lambda>t'. tx_hash t' = h) (txs @ [t]) =
      (if h = tx_hash t then Some t else find (\<lambda>t'. tx_hash t' = h) txs)" for h
    using new by (induction txs) auto
  then show ?thesis by (simp add: lookup_output_def)
qed

lemma ledger_object_after:
  assumes "object_ledger txs ob" "follows txs t"
  shows "object_ledger (txs @ [t]) (object_after t ob)"
proof -
  have new: "tx_hash t \<notin> tx_hash ` set txs" using assms(2) by (simp add: follows_def)
  then have fresh: "tx_hash t \<notin> set (ao_transactions ob)" using assms(1) by (auto simp: object_ledger_def)
  have none: "map_of (ao_utxos ob) (tx_hash t, i) = None" for i
  proof -
    have "find (\<lambda>t'. tx_hash t' = tx_hash t) txs = None" using new by (induction txs) auto
    then show ?thesis using assms(1) by (simp add: object_ledger_def unspent_of_def lookup_output_def)
  qed
  have address: "ao_address (object_after t ob) = ao_address ob" by (simp add: object_after_def Let_def)
  have "map_of (ao_utxos (object_after t ob)) p = unspent_of (ao_address ob) (txs @ [t]) p" for p
  proof (cases "fst p = tx_hash t")
    case True
    have "\<not> is_spent (txs @ [t]) p"
      using assms(2) True by (auto simp: follows_def is_spent_def list_ex_iff list_all_iff)
    then show ?thesis
      using True by (auto simp: utxos_after [OF fresh none] unspent_of_def lookup_snoc [OF new])
  next
    case False
    have own: "(\<exists>vin \<in> set (tx_inputs t). in_outpoint vin = p) \<longleftrightarrow> p \<in> in_outpoint ` set (own_inputs t ob)"
      if "lookup_output txs p = Some out" "out_address out = Some (ao_address ob)" for out
      using assms(2) that by (force simp: follows_def own_inputs_def list_all_iff)
    have "is_spent (txs @ [t]) p \<longleftrightarrow> is_spent txs p \<or> (\<exists>vin \<in> set (tx_inputs t). in_outpoint vin = p)"
      by (auto simp: is_spent_def list_ex_iff)
    then show ?thesis
      using False own assms(1)
      by (auto simp: utxos_after [OF fresh none] unspent_of_def lookup_snoc [OF new] object_ledger_def own_inputs_def
          split: option.split)
  qed
  moreover have "set (ao_transactions (object_after t ob)) \<subseteq> tx_hash ` set (txs @ [t])"
    using assms(1) by (auto simp: object_after_def Let_def object_ledger_def)
  ultimately show ?thesis by (simp add: object_ledger_def address fun_eq_iff)
qed


section \<open>Importing transactions\<close>

definition fresh_wallet :: "storage \<Rightarrow> bool" where
  "fresh_wallet s \<longleftrightarrow> mapped_ok s \<and> list_all (\<lambda>(k, ob). ao_utxos ob = [] \<and> ao_transactions ob = [] \<and>
     ao_balanceSat ob = 0 \<and> ao_unconfirmedBalanceSat ob = 0) (st_addresses s)"

lemma mapped_ok_map:
  assumes "mapped_ok s" "st_mappedAddress s' = st_mappedAddress s"
    and "\<And>k. map_of (st_addresses s') k = map_option (f k) (map_of (st_addresses s) k)"
    and "\<And>k ob. ao_address (f k ob) = ao_address ob"
  shows "mapped_ok s'"
  unfolding mapped_ok_def
proof (intro allI impI)
  fix a k
  assume "map_of (st_mappedAddress s') a = Some k"
  then obtain ob where "map_of (st_addresses s) k = Some ob" "ao_address ob = a"
    using assms(1,2) by (auto simp: mapped_ok_def)
  then show "\<exists>ob. map_of (st_addresses s') k = Some ob \<and> ao_address ob = a" by (simp add: assms(3,4))
qed

lemma mapped_ok_import:
  assumes "mapped_ok s" "importTransaction t m s = Some s'"
  shows "mapped_ok s'"
  using imported_pointwise [OF assms(1), of t m] assms(2)
  by (intro mapped_ok_map [OF assms(1), where f = "\<lambda>k ob. if is_mapped s k ob then object_after t ob else ob"])
    (auto simp: object_after_def Let_def)

lemma import_mapped:
  assumes "mapped_ok s" "importTransaction t m s = Some s'" "map_of (st_mappedAddress s) a = Some k"
    "map_of (st_addresses s) k = Some ob"
  shows "map_of (st_addresses s') k = Some (object_after t ob)" "st_mappedAddress s' = st_mappedAddress s"
  using imported_pointwise [OF assms(1), of t m] assms mapped_okD [OF assms(1,3,4)] by (auto simp: is_mapped_def)

lemma importTransactions_snoc:
  "importTransactions (txs @ [(t, m)]) s = Option.bind (importTransactions txs s) (importTransaction t m)"
  by (simp add: importTransactions_def)

lemma imported_objects:
  assumes "mapped_ok s" "map_of (st_mappedAddress s) a = Some k" "map_of (st_addresses s) k = Some ob"
  shows "\<exists>s'. importTransactions txs s = Some s' \<and> mapped_ok s' \<and> st_mappedAddress s' = st_mappedAddress s \<and>
    map_of (st_addresses s') k = Some (fold object_after (map fst txs) ob)"
proof (induction txs rule: rev_induct)
  case Nil
  then show ?case using assms by (simp add: importTransactions_def)
next
  case (snoc tm txs)
  obtain t m where tm: "tm = (t, m)" by force
  from snoc obtain s' where s': "importTransactions txs s = Some s'" "mapped_ok s'" "st_mappedAddress s' = st_mappedAddress s"
      "map_of (st_addresses s') k = Some (fold object_after (map fst txs) ob)"
    by auto
  obtain s'' where s'': "importTransaction t m s' = Some s''" using imported_pointwise [OF s'(2)] by blast
  show ?case
    using s' s'' mapped_ok_import [OF s'(2) s''] import_mapped [OF s'(2) s'' _ s'(4), of a] assms(2)
    by (simp add: tm importTransactions_snoc)
qed

lemma ledger_fold:
  assumes "object_ledger [] ob" "well_ordered [] txs"
  shows "object_ledger txs (fold object_after txs ob)"
  using assms(2)
proof (induction txs rule: rev_induct)
  case Nil
  then show ?case using assms(1) by simp
next
  case (snoc t txs)
  then show ?case using ledger_object_after by (simp add: well_ordered_snoc)
qed

lemma balanced_after_fold: "balanced ob \<Longrightarrow> balanced (fold object_after txs ob)"
  by (induction txs arbitrary: ob) (simp_all add: balanced_object_after)

text \<open>
  C22. Transactions that are imported in the order they depend on each other leave a wallet's address with
  exactly the outputs that pay to it and that none of them spends, and with their sum as its balance.
\<close>

theorem imported_wallet_holds_unspent:
  assumes "fresh_wallet s" "well_ordered [] (map fst txs)" "map_of (st_mappedAddress s) a = Some k"
  shows "\<exists>s' ob. importTransactions txs s = Some s' \<and> map_of (st_addresses s') k = Some ob \<and>
    map_of (ao_utxos ob) = unspent_of a (map fst txs) \<and> distinct (keys (ao_utxos ob)) \<and> ao_balanceSat ob = utxo_sum ob"
proof -
  have ok: "mapped_ok s" using assms(1) by (simp add: fresh_wallet_def)
  then obtain ob where ob: "map_of (st_addresses s) k = Some ob" "ao_address ob = a"
    using assms(3) by (auto simp: mapped_ok_def)
  have "ao_utxos ob = [] \<and> ao_transactions ob = [] \<and> ao_balanceSat ob = 0 \<and> ao_unconfirmedBalanceSat ob = 0"
    using assms(1) map_of_SomeD [OF ob(1)] by (force simp: fresh_wallet_def list_all_iff)
  then have "object_ledger [] ob" "balanced ob"
    by (simp_all add: object_ledger_def unspent_of_def lookup_output_def balanced_def utxo_sum_def fun_eq_iff)
  then have final: "object_ledger (map fst txs) (fold object_after (map fst txs) ob)"
      "balanced (fold object_after (map fst txs) ob)"
    using ledger_fold assms(2) balanced_after_fold by blast+
  have "ao_address (fold object_after ts ob) = ao_address ob" for ts
    by (induction ts rule: rev_induct) (simp_all add: object_after_def Let_def)
  then have "map_of (ao_utxos (fold object_after (map fst txs) ob)) = unspent_of a (map fst txs)"
    using final(1) ob(2) by (simp add: object_ledger_def)
  then show ?thesis
    using imported_objects [OF ok assms(3) ob(1), of txs] final(2) by (auto simp: balanced_def)
qed

text \<open>
  The order is needed: when the transaction that spends an output comes first, the output is kept as
  unspent, and the balance counts it.
\<close>

theorem late_funding_counts_spent:
  assumes "fresh_wallet s" "map_of (st_mappedAddress s) a = Some k"
    and "i < length (tx_outputs funding)" "out_address (tx_outputs funding ! i) = Some a"
    and "vin \<in> set (tx_inputs spending)" "in_outpoint vin = (tx_hash funding, i)" "tx_hash spending \<noteq> tx_hash funding"
  shows "\<exists>s' ob. importTransactions [(spending, m), (funding, m')] s = Some s' \<and> map_of (st_addresses s') k = Some ob \<and>
    map_of (ao_utxos ob) (tx_hash funding, i) = Some (tx_outputs funding ! i)"
proof -
  have ok: "mapped_ok s" using assms(1) by (simp add: fresh_wallet_def)
  then obtain ob where ob: "map_of (st_addresses s) k = Some ob" "ao_address ob = a"
    using assms(2) by (auto simp: mapped_ok_def)
  have fresh: "ao_utxos ob = []" "ao_transactions ob = []"
    using assms(1) map_of_SomeD [OF ob(1)] by (force simp: fresh_wallet_def list_all_iff)+
  let ?ob = "object_after spending ob"
  have first: "tx_hash funding \<notin> set (ao_transactions ?ob)" "ao_address ?ob = a"
    using fresh ob assms(7) by (auto simp: object_after_def Let_def)
  have none: "map_of (ao_utxos ?ob) (tx_hash funding, j) = None" for j
    using fresh assms(7) utxos_after [of spending ob "(tx_hash funding, j)"] by simp
  show ?thesis
    using imported_objects [OF ok assms(2) ob(1), of "[(spending, m), (funding, m')]"]
      utxos_after [OF first(1) none, of "(tx_hash funding, i)"] first(2) assms(3,4) by auto
qed


section \<open>Operations of a wallet's storage\<close>

text \<open>
  What every operation keeps: the mapping of addresses, one object for a key, all in the wallet \<open>w\<close>,
  and objects whose balance is the sum of their outputs, each from a transaction they know.
\<close>

definition utxos_known :: "address_object \<Rightarrow> bool" where
  "utxos_known ob \<longleftrightarrow> (\<forall>p. map_of (ao_utxos ob) p \<noteq> None \<longrightarrow> fst p \<in> set (ao_transactions ob))"

definition object_ok :: "address_object \<Rightarrow> bool" where
  "object_ok ob \<longleftrightarrow> balanced ob \<and> ao_fetchedLast ob = 0 \<and>  utxos_known ob"

definition storage_ok :: "string \<Rightarrow> storage \<Rightarrow> bool" where
  "storage_ok w s \<longleftrightarrow> mapped_ok s \<and> distinct (keys (st_addresses s)) \<and>
     (\<forall>k ob. map_of (st_addresses s) k = Some ob \<longrightarrow> key_wallet k = w \<and> object_ok ob)"

text \<open>The object \<open>generateAddress\<close> makes of a path, and the operations.\<close>

definition new_address_object :: "string \<Rightarrow> int \<Rightarrow> string \<Rightarrow> address_object" where
  "new_address_object path index address =
    \<lparr> ao_address = address, ao_path = path, ao_index = index, ao_transactions = [], ao_balanceSat = 0,
      ao_unconfirmedBalanceSat = 0, ao_utxos = [], ao_fetchedLast = 0, ao_used = False \<rparr>"

datatype storage_op =
    ImportTransaction wallet_tx "tx_metadata option"
  | BroadcastTransaction wallet_tx
  | NewAddress string int string

fun storage_step :: "string \<Rightarrow> storage_op \<Rightarrow> storage \<Rightarrow> storage option" where
  "storage_step w (ImportTransaction t m) s = importTransaction t m s"
| "storage_step w (BroadcastTransaction t) s = impactAffectedInputs w t s"
| "storage_step w (NewAddress path index address) s = importAddress (new_address_object path index address) w s"

definition run_storage :: "string \<Rightarrow> storage_op list \<Rightarrow> storage \<Rightarrow> storage option" where
  "run_storage w ops s = fold (\<lambda>op st. Option.bind st (storage_step w op)) ops (Some s)"

definition empty_storage :: storage where
  "empty_storage = \<lparr> st_transactions = [], st_metadata = [], st_heights = [], st_mappedAddress = [],
     st_addresses = [], st_announced = [] \<rparr>"

lemma spend_keeps [simp]:
  "ao_address (spend_output p ob) = ao_address ob" "ao_transactions (spend_output p ob) = ao_transactions ob"
  "ao_fetchedLast (spend_output p ob) = ao_fetchedLast ob"
  by (simp_all add: spend_output_def split: option.split)

lemma utxos_known_mono:
  assumes "utxos_known ob" "\<And>p. map_of (ao_utxos ob') p \<noteq> None \<Longrightarrow> map_of (ao_utxos ob) p \<noteq> None \<or> fst p \<in> set (ao_transactions ob')"
    and "set (ao_transactions ob) \<subseteq> set (ao_transactions ob')"
  shows "utxos_known ob'"
  unfolding utxos_known_def using assms by (metis subsetD utxos_known_def)

lemma object_ok_spend: "object_ok ob \<Longrightarrow> object_ok (spend_output p ob)"
proof -
  assume ok: "object_ok ob"
  have "utxos_known (spend_output p ob)"
    by (rule utxos_known_mono [of ob]) (use ok in \<open>auto simp: object_ok_def utxos_spend split: if_splits\<close>)
  then show ?thesis using ok balanced_spend [of ob p] by (simp add: object_ok_def)
qed

lemma object_ok_keeps [simp]:
  "ao_fetchedLast (change_object t el ob) = ao_fetchedLast ob"
  by (cases el) (simp_all add: spend_output_def receive_output_def split: option.split)

lemma fold_change_utxos:
  "map_of (ao_utxos (fold (change_object t) els ob)) p \<noteq> None \<Longrightarrow> fst p = tx_hash t \<or> map_of (ao_utxos ob) p \<noteq> None"
proof (induction els arbitrary: ob)
  case (Cons el els)
  have "map_of (ao_utxos (change_object t el ob)) p \<noteq> None \<Longrightarrow> fst p = tx_hash t \<or> map_of (ao_utxos ob) p \<noteq> None"
    by (cases el) (auto simp: utxos_spend utxos_receive split: if_splits)
  then show ?case using Cons by auto
qed simp

lemma object_ok_after:
  assumes "object_ok ob"
  shows "object_ok (object_after t ob)"
proof -
  have "ao_fetchedLast (fold (change_object t) els ob) = ao_fetchedLast ob" for els
    by (induction els arbitrary: ob) simp_all
  moreover have "utxos_known (object_after t ob)"
  proof (cases "own_elements (tx_elements t) ob = [] \<or> tx_hash t \<in> set (ao_transactions ob)")
    case True
    then have "object_after t ob = ob" by (simp add: object_after_def Let_def)
    then show ?thesis using assms by (simp add: object_ok_def)
  next
    case False
    then have after: "ao_utxos (object_after t ob) = ao_utxos (fold (change_object t) (own_elements (tx_elements t) ob) ob)"
        "ao_transactions (object_after t ob) = ao_transactions ob @ [tx_hash t]"
      by (simp_all add: object_after_def)
    show ?thesis
    proof (rule utxos_known_mono [of ob])
      fix p
      assume "map_of (ao_utxos (object_after t ob)) p \<noteq> None"
      then show "map_of (ao_utxos ob) p \<noteq> None \<or> fst p \<in> set (ao_transactions (object_after t ob))"
        using fold_change_utxos [of t _ ob p] after by auto
    qed (use assms after in \<open>auto simp: object_ok_def\<close>)
  qed
  ultimately show ?thesis
    using assms balanced_object_after [of ob t] by (simp add: object_ok_def) (simp add: object_after_def Let_def)
qed

lemma distinct_set_address [simp]:
  "distinct (keys (st_addresses s)) \<Longrightarrow> distinct (keys (st_addresses (set_address k ob s)))"
  by (simp add: set_address_def)

lemma distinct_import:
  assumes "importTransaction t m s = Some s'" "distinct (keys (st_addresses s))"
  shows "distinct (keys (st_addresses s'))"
proof -
  have step: "process_element t el (s1, p, u) = Some (s2, p', u') \<Longrightarrow> distinct (keys (st_addresses s1)) \<Longrightarrow>
      distinct (keys (st_addresses s2))" for el s1 p u s2 p' u'
    by (auto simp: process_element_def split: option.splits if_splits)
  have loop: "fold (\<lambda>el st. Option.bind st (process_element t el)) els (Some st) = Some (s2, p', u') \<Longrightarrow>
      distinct (keys (st_addresses (fst st))) \<Longrightarrow> distinct (keys (st_addresses s2))" for els st s2 p' u'
  proof (induction els arbitrary: s2 p' u' rule: rev_induct)
    case (snoc el els)
    then show ?case using step by (fastforce simp: bind_eq_Some_conv)
  qed auto
  have push: "distinct (keys (st_addresses s1)) \<Longrightarrow> distinct (keys (st_addresses (fold (push_hash h) ks s1)))" for h ks s1
    by (induction ks arbitrary: s1) (simp_all add: push_hash_def split: option.split)
  show ?thesis
    using assms loop [of "tx_elements t" "(store_transaction t m s, [], False)"]
    by (auto simp: importTransaction_def Let_def push split: option.splits)
qed

lemma storage_ok_import:
  assumes "storage_ok w s" "importTransaction t m s = Some s'"
  shows "storage_ok w s'"
proof -
  have ok: "mapped_ok s" using assms(1) by (simp add: storage_ok_def)
  have "map_of (st_addresses s') k =
      map_option (\<lambda>ob. if is_mapped s k ob then object_after t ob else ob) (map_of (st_addresses s) k)" for k
    using imported_pointwise [OF ok, of t m] assms(2) by auto
  then show ?thesis
    using assms mapped_ok_import [OF ok assms(2)] distinct_import
    by (auto simp: storage_ok_def object_ok_after)
qed

text \<open>A broadcast takes what it spends off every object.\<close>

definition spend_all :: "wallet_tx \<Rightarrow> address_object \<Rightarrow> address_object" where
  "spend_all t ob = fold (\<lambda>vin. spend_output (in_outpoint vin)) (tx_inputs t) ob"

definition spent_in :: "(address_object \<Rightarrow> address_object) \<Rightarrow> storage \<Rightarrow> storage \<Rightarrow> bool" where
  "spent_in f s s' \<longleftrightarrow> st_mappedAddress s' = st_mappedAddress s \<and> distinct (keys (st_addresses s')) \<and>
     (\<forall>k. map_of (st_addresses s') k = map_option f (map_of (st_addresses s) k))"

lemma storage_ok_spent:
  assumes "storage_ok w s" "spent_in f s s'" "\<And>ob. ao_address (f ob) = ao_address ob" "\<And>ob. object_ok ob \<Longrightarrow> object_ok (f ob)"
  shows "storage_ok w s'"
proof -
  have "mapped_ok s'"
    using assms(1-3) by (intro mapped_ok_map [of s s' "\<lambda>k. f"]) (auto simp: storage_ok_def spent_in_def)
  then show ?thesis using assms by (auto simp: storage_ok_def spent_in_def)
qed

lemma impact_found:
  assumes "storage_ok w s" "set ks \<subseteq> set (keys (st_addresses s))"
  shows "\<exists>s'. fold (\<lambda>found st. Option.bind st (impact_address w p found)) ks (Some s) = Some s' \<and>
    st_mappedAddress s' = st_mappedAddress s \<and> distinct (keys (st_addresses s')) \<and>
    (\<forall>k. map_of (st_addresses s') k = map_option (\<lambda>ob. if k \<in> set ks then spend_output p ob else ob) (map_of (st_addresses s) k))"
  using assms(2)
proof (induction ks rule: rev_induct)
  case Nil
  then show ?case using assms(1) by (simp add: storage_ok_def option.map_ident)
next
  case (snoc k ks)
  then obtain s1 where s1: "fold (\<lambda>found st. Option.bind st (impact_address w p found)) ks (Some s) = Some s1"
      "st_mappedAddress s1 = st_mappedAddress s" "distinct (keys (st_addresses s1))"
      "\<And>k. map_of (st_addresses s1) k = map_option (\<lambda>ob. if k \<in> set ks then spend_output p ob else ob) (map_of (st_addresses s) k)"
    by auto
  have "map_of (st_addresses s) k \<noteq> None" using snoc.prems by (auto simp: map_of_eq_None_iff)
  then obtain ob where ob: "map_of (st_addresses s) k = Some ob" by auto
  define now where "now = (if k \<in> set ks then spend_output p ob else ob)"
  have now: "map_of (st_addresses s1) k = Some now" using s1(4) ob by (simp add: now_def)
  have "key_wallet k = w" using assms(1) ob by (simp add: storage_ok_def)
  then have own: "AddressKey w (key_type k) (key_path k) = k" by (cases k) simp
  have again: "spend_output p now = spend_output p ob"
    by (auto simp: now_def spend_output_def delete_conv' split: option.split)
  have step: "impact_address w p k s1 = Some (if map_of (ao_utxos now) p = None then s1 else set_address k (spend_output p now) s1)"
    using now own by (auto simp: impact_address_def spend_output_def Let_def split: option.split)
  have same: "spend_output p now = now" if "map_of (ao_utxos now) p = None" using that by (simp add: spend_output_def)
  let ?s = "if map_of (ao_utxos now) p = None then s1 else set_address k (spend_output p now) s1"
  have "map_of (st_addresses ?s) k' =
      map_option (\<lambda>ob. if k' \<in> set (ks @ [k]) then spend_output p ob else ob) (map_of (st_addresses s) k')" for k'
  proof (cases "k' = k")
    case True
    then show ?thesis using now same again ob by simp
  next
    case False
    then show ?thesis using s1(4) [of k'] by (cases "map_of (st_addresses s) k'") simp_all
  qed
  then show ?case using s1(1-3) step by simp
qed


lemma impact_input:
  assumes "storage_ok w s"
  shows "\<exists>s'. fold (\<lambda>found st. Option.bind st (impact_address w p found)) (searchAddressesWithTx (fst p) s) (Some s) = Some s' \<and>
    spent_in (spend_output p) s s'"
proof -
  let ?ks = "searchAddressesWithTx (fst p) s"
  have "set ?ks \<subseteq> set (keys (st_addresses s))" by (auto simp: searchAddressesWithTx_def)
  then obtain s' where s': "fold (\<lambda>found st. Option.bind st (impact_address w p found)) ?ks (Some s) = Some s'"
      "st_mappedAddress s' = st_mappedAddress s" "distinct (keys (st_addresses s'))"
      "\<And>k. map_of (st_addresses s') k = map_option (\<lambda>ob. if k \<in> set ?ks then spend_output p ob else ob) (map_of (st_addresses s) k)"
    using impact_found [OF assms, of ?ks p] by auto
  have "map_of (st_addresses s') k = map_option (spend_output p) (map_of (st_addresses s) k)" for k
  proof (cases "map_of (st_addresses s) k")
    case (Some ob)
    have "spend_output p ob = ob" if "k \<notin> set ?ks"
    proof -
      have "fst p \<notin> set (ao_transactions ob)"
        using that map_of_SomeD [OF Some] by (force simp: searchAddressesWithTx_def)
      then have "map_of (ao_utxos ob) p = None"
        using assms Some unfolding storage_ok_def object_ok_def utxos_known_def by blast
      then show ?thesis by (simp add: spend_output_def)
    qed
    then show ?thesis using s'(4) Some by simp
  qed (simp add: s'(4))
  then show ?thesis using s'(1-3) by (auto simp: spent_in_def)
qed

lemma impact_inputs:
  assumes "storage_ok w s"
  shows "\<exists>s'. fold (\<lambda>vin st. Option.bind st (\<lambda>s. fold (\<lambda>found st. Option.bind st (impact_address w (in_outpoint vin) found))
      (searchAddressesWithTx (fst (in_outpoint vin)) s) (Some s))) vins (Some s) = Some s' \<and>
    storage_ok w s' \<and> spent_in (fold (\<lambda>vin. spend_output (in_outpoint vin)) vins) s s'"
proof (induction vins rule: rev_induct)
  case Nil
  then show ?case using assms by (simp add: storage_ok_def spent_in_def option.map_ident)
next
  case (snoc vin vins)
  let ?f = "fold (\<lambda>vin. spend_output (in_outpoint vin)) vins"
  obtain s1 where s1: "fold (\<lambda>vin st. Option.bind st (\<lambda>s. fold (\<lambda>found st. Option.bind st (impact_address w (in_outpoint vin) found))
      (searchAddressesWithTx (fst (in_outpoint vin)) s) (Some s))) vins (Some s) = Some s1"
      "storage_ok w s1" "spent_in ?f s s1"
    using snoc by auto
  obtain s2 where s2: "fold (\<lambda>found st. Option.bind st (impact_address w (in_outpoint vin) found))
      (searchAddressesWithTx (fst (in_outpoint vin)) s1) (Some s1) = Some s2" "spent_in (spend_output (in_outpoint vin)) s1 s2"
    using impact_input [OF s1(2), of "in_outpoint vin"] by auto
  have "storage_ok w s2" by (rule storage_ok_spent [OF s1(2) s2(2)]) (simp_all add: object_ok_spend)
  moreover have "spent_in (fold (\<lambda>vin. spend_output (in_outpoint vin)) (vins @ [vin])) s s2"
    using s1(3) s2(2) by (simp add: spent_in_def option.map_comp o_def)
  ultimately show ?case using s1(1) s2(1) by (simp add: o_def)
qed

lemma impact_spends:
  assumes "storage_ok w s"
  shows "\<exists>s'. impactAffectedInputs w t s = Some s' \<and> storage_ok w s' \<and> spent_in (spend_all t) s s'"
  using impact_inputs [OF assms, of "tx_inputs t"] unfolding impactAffectedInputs_def spend_all_def .

lemma impact_ok: "storage_ok w s \<Longrightarrow> impactAffectedInputs w t s = Some s' \<Longrightarrow> storage_ok w s'"
  using impact_spends [of w s t] by auto

section \<open>New addresses\<close>

lemma new_object_balance [simp]: "(new_address_object path i addr)\<lparr>ao_balanceSat := 0\<rparr> = new_address_object path i addr"
  by (simp add: new_address_object_def)

lemma account_zero_balance: "announce_new w a (new_address_object path i addr) s = s"
  by (simp add: announce_new_def new_address_object_def Let_def)

lemma storage_ok_new_address:
  assumes "storage_ok w s" "importAddress (new_address_object path i addr) w s = Some s'"
  shows "storage_ok w s'"
proof -
  let ?k = "AddressKey w (type_of_path path) path" and ?ob = "new_address_object path i addr"
  have fields: "ao_path ?ob = path" "ao_fetchedLast ?ob = 0" "ao_utxos ?ob = []" "ao_address ?ob = addr"
      "ao_balanceSat ?ob = 0"
    by (simp_all add: new_address_object_def)
  show ?thesis
  proof (cases "map_of (st_addresses s) ?k")
    case (Some stored)
    then have "ao_fetchedLast stored = 0" using assms(1) by (auto simp: storage_ok_def object_ok_def)
    then have "s' = s" using assms(2) Some fields by (auto simp: importAddress_def split: if_splits)
    then show ?thesis using assms(1) by simp
  next
    case None
    let ?s = "set_address ?k ?ob s"
    let ?s' = "if map_of (st_mappedAddress s) addr = None
      then ?s\<lparr>st_mappedAddress := AList.update addr ?k (st_mappedAddress s)\<rparr> else ?s"
    have s': "s' = ?s'"
      using assms(2) None fields
      by (auto simp: importAddress_def updateAddress_def Let_def account_zero_balance split: if_splits)
    have ok: "object_ok ?ob"
      by (simp add: object_ok_def balanced_def utxo_sum_def utxos_known_def new_address_object_def)
    have kept: "k \<noteq> ?k" if "map_of (st_mappedAddress s) a = Some k" for a k
      using that assms(1) None unfolding storage_ok_def mapped_ok_def by (metis option.distinct(1))
    have "mapped_ok s" using assms(1) by (simp add: storage_ok_def)
    then have "mapped_ok s'"
      unfolding s' mapped_ok_def using kept fields by (auto simp: map_of_update)
    then show ?thesis using assms(1) ok unfolding s' by (auto simp: storage_ok_def)
  qed
qed

lemma storage_ok_step: "storage_ok w s \<Longrightarrow> storage_step w op s = Some s' \<Longrightarrow> storage_ok w s'"
  by (cases op) (auto intro: storage_ok_import storage_ok_new_address impact_ok)

lemma storage_ok_run: "run_storage w ops empty_storage = Some s \<Longrightarrow> storage_ok w s"
proof (induction ops arbitrary: s rule: rev_induct)
  case Nil
  then show ?case by (auto simp: run_storage_def empty_storage_def storage_ok_def mapped_ok_def)
next
  case (snoc op ops)
  then show ?case by (auto simp: run_storage_def bind_eq_Some_conv intro: storage_ok_step)
qed

lemma balance_is_sum:
  assumes "run_storage w ops empty_storage = Some s"
  shows "calculateDuffBalance w account Confirmed s = sum_list (map utxo_sum (account_addresses w account s)) \<and>
    calculateDuffBalance w account Unconfirmed s = 0 \<and>
    calculateDuffBalance w account Total s = calculateDuffBalance w account Confirmed s"
proof -
  have "balanced ob" if mine: "ob \<in> set (account_addresses w account s)" for ob
  proof -
    obtain k where k: "(k, ob) \<in> set (st_addresses s)" using mine by (auto simp: account_addresses_def)
    have ok: "storage_ok w s" by (rule storage_ok_run [OF assms])
    then have "map_of (st_addresses s) k = Some ob" using k by (simp add: storage_ok_def map_of_is_SomeI)
    then have "object_ok ob" using ok unfolding storage_ok_def by blast
    then show ?thesis by (simp add: object_ok_def)
  qed
  then have "\<And>ob. ob \<in> set (account_addresses w account s) \<Longrightarrow> balance_of Confirmed ob = utxo_sum ob"
      "\<And>ob. ob \<in> set (account_addresses w account s) \<Longrightarrow> balance_of Unconfirmed ob = 0"
      "\<And>ob. ob \<in> set (account_addresses w account s) \<Longrightarrow> balance_of Total ob = balance_of Confirmed ob"
    by (simp_all add: balance_of_def balanced_def)
  then show ?thesis by (simp add: calculateDuffBalance_def cong: map_cong)
qed

text \<open>
  C21. Whatever was imported, broadcast and generated, in any order: the confirmed balance of an account is
  the sum of the outputs its addresses hold, and the unconfirmed balance is zero.
\<close>

theorem balances_are_sums:
  assumes "run_storage w ops empty_storage = Some s"
  shows "calculateDuffBalance w account Confirmed s = sum_list (map utxo_sum (account_addresses w account s)) \<and>
    calculateDuffBalance w account Unconfirmed s = 0 \<and>
    calculateDuffBalance w account Total s = calculateDuffBalance w account Confirmed s"
  using assms by (rule balance_is_sum)

text \<open>
  C23. The types a storage keeps, whatever was done: an address is mapped to the place of its own object, each
  place has one object and belongs to the wallet, and the transaction of every output an object holds is
  among the transactions of the address. On such a storage no import of a transaction throws.
\<close>

theorem storage_well_formed:
  assumes "run_storage w ops empty_storage = Some s"
  shows "distinct (keys (st_addresses s)) \<and>
    (\<forall>a k. map_of (st_mappedAddress s) a = Some k \<longrightarrow> (\<exists>ob. map_of (st_addresses s) k = Some ob \<and> ao_address ob = a)) \<and>
    (\<forall>k ob p out. map_of (st_addresses s) k = Some ob \<longrightarrow> key_wallet k = w \<and>
      (map_of (ao_utxos ob) p = Some out \<longrightarrow> fst p \<in> set (ao_transactions ob))) \<and>
    importTransaction t m s \<noteq> None"
proof -
  have ok: "storage_ok w s" by (rule storage_ok_run [OF assms])
  then have mapped: "mapped_ok s" by (simp add: storage_ok_def)
  obtain s' where "importTransaction t m s = Some s'" using imported_pointwise [OF mapped, of t m] by blast
  moreover have "key_wallet k = w \<and> (map_of (ao_utxos ob) p = Some out \<longrightarrow> fst p \<in> set (ao_transactions ob))"
    if "map_of (st_addresses s) k = Some ob" for k ob p out
  proof -
    have "key_wallet k = w" "utxos_known ob" using ok that by (simp_all add: storage_ok_def object_ok_def)
    then show ?thesis unfolding utxos_known_def by fastforce
  qed
  ultimately show ?thesis using ok mapped unfolding storage_ok_def mapped_ok_def by auto
qed

section \<open>A broadcast and the import of its transaction\<close>

text \<open>An input that spends an output of the wallet has the address of that output.\<close>

definition inputs_named :: "storage \<Rightarrow> wallet_tx \<Rightarrow> bool" where
  "inputs_named s t \<longleftrightarrow> list_all (\<lambda>(k, ob). list_all (\<lambda>vin. map_of (ao_utxos ob) (in_outpoint vin) = None \<or>
     (in_address vin = Some (ao_address ob) \<and> is_mapped s k ob)) (tx_inputs t)) (st_addresses s)"

definition spend_list :: "tx_input list \<Rightarrow> address_object \<Rightarrow> address_object" where
  "spend_list vins ob = fold (\<lambda>vin. spend_output (in_outpoint vin)) vins ob"

lemma utxos_spend_list:
  "map_of (ao_utxos (spend_list vins ob)) p = (if p \<in> in_outpoint ` set vins then None else map_of (ao_utxos ob) p)"
  by (induction vins arbitrary: ob) (auto simp: spend_list_def utxos_spend)

lemma spend_list_none:
  "(\<And>vin. vin \<in> set vins \<Longrightarrow> map_of (ao_utxos ob) (in_outpoint vin) = None) \<Longrightarrow> spend_list vins ob = ob"
  by (induction vins) (simp_all add: spend_list_def spend_output_def)

lemma spend_list_filter:
  assumes "\<And>vin. vin \<in> set vins \<Longrightarrow> \<not> P vin \<Longrightarrow> map_of (ao_utxos ob) (in_outpoint vin) = None"
  shows "spend_list vins ob = spend_list (filter P vins) ob"
  using assms
proof (induction vins arbitrary: ob)
  case (Cons vin vins)
  have "map_of (ao_utxos (spend_output (in_outpoint vin) ob)) (in_outpoint v) = None"
    if "v \<in> set vins" "\<not> P v" for v
    using Cons.prems that by (auto simp: utxos_spend)
  then have "spend_list vins (spend_output (in_outpoint vin) ob) =
      spend_list (filter P vins) (spend_output (in_outpoint vin) ob)" by (rule Cons.IH)
  moreover have "spend_output (in_outpoint vin) ob = ob" if "\<not> P vin"
    using Cons.prems that by (simp add: spend_output_def)
  ultimately show ?case by (auto simp: spend_list_def)
qed (simp add: spend_list_def)

lemma spend_used: "spend_output p (ob\<lparr>ao_used := b\<rparr>) = (spend_output p ob)\<lparr>ao_used := b\<rparr>"
  by (simp add: spend_output_def split: option.split)

lemma spend_list_used: "spend_list vins (ob\<lparr>ao_used := b\<rparr>) = (spend_list vins ob)\<lparr>ao_used := b\<rparr>"
  by (induction vins arbitrary: ob) (simp_all add: spend_list_def spend_used)

lemma change_inputs:
  "fold (change_object t) (map Vin vins) ob = (if vins = [] then ob else (spend_list vins ob)\<lparr>ao_used := True\<rparr>)"
proof (induction vins arbitrary: ob)
  case (Cons vin vins)
  have "spend_list (vin # vins) ob = spend_list vins (spend_output (in_outpoint vin) ob)" by (simp add: spend_list_def)
  then show ?case using Cons by (auto simp: spend_used spend_list_used) (simp add: spend_list_def)
qed simp

lemma spend_list_keeps [simp]:
  "ao_address (spend_list vins ob) = ao_address ob" "ao_transactions (spend_list vins ob) = ao_transactions ob"
  by (induction vins arbitrary: ob) (simp_all add: spend_list_def)

lemma object_after_spend:
  assumes "\<And>vin. vin \<in> set (tx_inputs t) \<Longrightarrow> in_address vin \<noteq> Some (ao_address ob) \<Longrightarrow> map_of (ao_utxos ob) (in_outpoint vin) = None"
    and "tx_hash t \<notin> set (ao_transactions ob)"
  shows "object_after t (spend_all t ob) = object_after t ob"
proof -
  have all: "spend_all t ob = spend_list (own_inputs t ob) ob"
    using spend_list_filter [of "tx_inputs t" "\<lambda>vin. in_address vin = Some (ao_address ob)" ob] assms(1)
    by (simp add: spend_all_def own_inputs_def spend_list_def)
  have own: "own_elements (tx_elements t) (spend_list vins ob) = own_elements (tx_elements t) ob" for vins
    by (simp add: own_elements_def)
  have again: "spend_list (own_inputs t ob) (spend_list (own_inputs t ob) ob) = spend_list (own_inputs t ob) ob"
    by (rule spend_list_none) (simp add: utxos_spend_list)
  have "fold (change_object t) (own_elements (tx_elements t) ob) (spend_list (own_inputs t ob) ob) =
      fold (change_object t) (own_elements (tx_elements t) ob) ob"
    by (simp add: own_elements_split change_inputs again) (simp add: spend_list_def)
  moreover have "spend_list (own_inputs t ob) ob = ob" if "own_elements (tx_elements t) ob = []"
    using that by (simp add: own_elements_split spend_list_def)
  ultimately show ?thesis
    using assms(2) by (simp add: object_after_def all own Let_def)
qed

text \<open>
  C24. Taking off what a broadcast spends and importing the transaction later leaves the addresses as the
  import alone would: nothing is taken off twice.
\<close>

theorem broadcast_then_import:
  assumes "run_storage w ops empty_storage = Some s" "inputs_named s t"
    and "list_all (\<lambda>(k, ob). tx_hash t \<notin> set (ao_transactions ob)) (st_addresses s)"
  shows "\<exists>s1 s2 s3. impactAffectedInputs w t s = Some s1 \<and> importTransaction t m s1 = Some s2 \<and>
    importTransaction t m s = Some s3 \<and> map_of (st_addresses s2) = map_of (st_addresses s3)"
proof -
  have ok: "storage_ok w s" by (rule storage_ok_run [OF assms(1)])
  then obtain s1 where s1: "impactAffectedInputs w t s = Some s1" "storage_ok w s1" "spent_in (spend_all t) s s1"
    using impact_spends by blast
  have m: "mapped_ok s" "mapped_ok s1" using ok s1(2) by (simp_all add: storage_ok_def)
  obtain s2 s3 where s2: "importTransaction t m s1 = Some s2" "\<And>k. map_of (st_addresses s2) k =
        map_option (\<lambda>ob. if is_mapped s1 k ob then object_after t ob else ob) (map_of (st_addresses s1) k)"
      and s3: "importTransaction t m s = Some s3" "\<And>k. map_of (st_addresses s3) k =
        map_option (\<lambda>ob. if is_mapped s k ob then object_after t ob else ob) (map_of (st_addresses s) k)"
    using imported_pointwise [OF m(1), of t m] imported_pointwise [OF m(2), of t m] by blast
  have "map_of (st_addresses s2) k = map_of (st_addresses s3) k" for k
  proof (cases "map_of (st_addresses s) k")
    case (Some ob)
    have entry: "(k, ob) \<in> set (st_addresses s)" using map_of_SomeD [OF Some] .
    have named: "map_of (ao_utxos ob) (in_outpoint vin) = None \<or> (in_address vin = Some (ao_address ob) \<and> is_mapped s k ob)"
      if "vin \<in> set (tx_inputs t)" for vin
      using assms(2) entry that by (fastforce simp: inputs_named_def list_all_iff)
    have address: "ao_address (spend_all t ob) = ao_address ob"
      using spend_list_keeps(1) [of "tx_inputs t" ob] by (simp add: spend_all_def spend_list_def)
    have mapped: "is_mapped s1 k (spend_all t ob) = is_mapped s k ob"
      using s1(3) by (simp add: is_mapped_def address spent_in_def)
    show ?thesis
    proof (cases "is_mapped s k ob")
      case True
      have "tx_hash t \<notin> set (ao_transactions ob)" using assms(3) entry by (auto simp: list_all_iff)
      then have "object_after t (spend_all t ob) = object_after t ob" using named by (intro object_after_spend) auto
      then show ?thesis using s1(3) Some True mapped by (simp add: s2 s3 spent_in_def)
    next
      case False
      have "spend_all t ob = ob"
        using spend_list_none [of "tx_inputs t" ob] named False by (auto simp: spend_all_def spend_list_def)
      then show ?thesis using s1(3) Some False mapped by (simp add: s2 s3 spent_in_def)
    qed
  next
    case None
    then show ?thesis using s1(3) by (simp add: s2 s3 spent_in_def)
  qed
  then show ?thesis using s1(1) s2(1) s3(1) by (auto simp: fun_eq_iff)
qed


section \<open>Witnesses\<close>

definition sample_path :: string where "sample_path = ''m/44'/1'/0'/0/0''"

definition sample_key :: address_key where "sample_key = AddressKey ''w'' External sample_path"

definition sample_storage :: storage where
  "sample_storage = \<lparr> st_transactions = [], st_metadata = [], st_heights = [], st_mappedAddress = [(''A'', sample_key)],
     st_addresses = [(sample_key, new_address_object sample_path 0 ''A'')], st_announced = [] \<rparr>"

definition funding_tx :: wallet_tx where
  "funding_tx = \<lparr> tx_hash = ''f'', tx_inputs = [\<lparr>in_address = None, in_outpoint = (''e'', 0)\<rparr>],
     tx_outputs = [\<lparr>out_address = Some ''A'', out_satoshis = 5\<rparr>, \<lparr>out_address = Some ''B'', out_satoshis = 3\<rparr>],
     tx_coinbaseHeight = None \<rparr>"

definition spending_tx :: wallet_tx where
  "spending_tx = \<lparr> tx_hash = ''s'', tx_inputs = [\<lparr>in_address = Some ''A'', in_outpoint = (''f'', 0)\<rparr>],
     tx_outputs = [\<lparr>out_address = Some ''A'', out_satoshis = 4\<rparr>], tx_coinbaseHeight = None \<rparr>"

lemma sample_fresh_wallet: "fresh_wallet sample_storage"
  by (simp add: fresh_wallet_def mapped_ok_def sample_storage_def new_address_object_def)

lemma sample_mapped: "map_of (st_mappedAddress sample_storage) ''A'' = Some sample_key"
  by (simp add: sample_storage_def)

theorem imported_wallet_holds_unspent_witness:
  "\<exists>s' ob. importTransactions [(funding_tx, None), (spending_tx, None)] sample_storage = Some s' \<and>
    map_of (st_addresses s') sample_key = Some ob \<and>
    map_of (ao_utxos ob) = unspent_of ''A'' (map fst [(funding_tx, None :: tx_metadata option), (spending_tx, None)]) \<and>
    distinct (keys (ao_utxos ob)) \<and> ao_balanceSat ob = utxo_sum ob"
proof (rule imported_wallet_holds_unspent [OF sample_fresh_wallet _ sample_mapped])
  show "well_ordered [] (map fst [(funding_tx, None :: tx_metadata option), (spending_tx, None)])" by code_simp
qed

theorem late_funding_counts_spent_witness:
  "\<exists>s' ob. importTransactions [(spending_tx, None), (funding_tx, None)] sample_storage = Some s' \<and>
    map_of (st_addresses s') sample_key = Some ob \<and>
    map_of (ao_utxos ob) (tx_hash funding_tx, 0) = Some (tx_outputs funding_tx ! 0)"
  by (rule late_funding_counts_spent [OF sample_fresh_wallet sample_mapped, where vin = "hd (tx_inputs spending_tx)"])
    (simp_all add: funding_tx_def spending_tx_def)

definition sample_ops :: "storage_op list" where
  "sample_ops = [NewAddress sample_path 0 ''A'', ImportTransaction funding_tx None, BroadcastTransaction spending_tx]"

theorem balances_are_sums_witness:
  "\<exists>s. run_storage ''w'' sample_ops empty_storage = Some s \<and>
    calculateDuffBalance ''w'' (Some 0) Confirmed s = sum_list (map utxo_sum (account_addresses ''w'' (Some 0) s))"
proof -
  have "run_storage ''w'' sample_ops empty_storage \<noteq> None" by code_simp
  then obtain s where "run_storage ''w'' sample_ops empty_storage = Some s" by auto
  then show ?thesis using balances_are_sums [of "''w''" sample_ops s "Some 0"] by auto
qed

definition funded_storage :: storage where
  "funded_storage = the (run_storage ''w'' (take 2 sample_ops) empty_storage)"

theorem broadcast_then_import_witness:
  "\<exists>s1 s2 s3. impactAffectedInputs ''w'' spending_tx funded_storage = Some s1 \<and> importTransaction spending_tx None s1 = Some s2 \<and>
    importTransaction spending_tx None funded_storage = Some s3 \<and> map_of (st_addresses s2) = map_of (st_addresses s3)"
proof (rule broadcast_then_import)
  show "run_storage ''w'' (take 2 sample_ops) empty_storage = Some funded_storage"
  proof -
    have "run_storage ''w'' (take 2 sample_ops) empty_storage \<noteq> None" by code_simp
    then show ?thesis by (simp add: funded_storage_def)
  qed
  show "inputs_named funded_storage spending_tx" by code_simp
  show "list_all (\<lambda>(k, ob). tx_hash spending_tx \<notin> set (ao_transactions ob)) (st_addresses funded_storage)" by code_simp
qed

theorem storage_well_formed_witness:
  "importTransaction spending_tx None funded_storage \<noteq> None \<and> distinct (keys (st_addresses funded_storage))"
proof -
  have "run_storage ''w'' (take 2 sample_ops) empty_storage \<noteq> None" by code_simp
  then have "run_storage ''w'' (take 2 sample_ops) empty_storage = Some funded_storage" by (simp add: funded_storage_def)
  from storage_well_formed [OF this, of spending_tx None] show ?thesis by simp
qed

end
