(* ===== verification/WalletAddresses.thy ===== *)
theory WalletAddresses
  imports WalletLedger "HOL-Library.Multiset"
begin

text \<open>
  The addresses of an account of the wallet library: their paths and generation
  (\<open>packages/wallet-lib/src/types/Account/methods/getAddress.js\<close>, \<open>generateAddress.js\<close>) and the gap of
  twenty unused addresses that is kept ahead of the last used one
  (\<open>packages/wallet-lib/src/utils/bip44\<close>).

  The keys of a wallet come from dashcore-lib: what address a path or a child has is a parameter.
\<close>

section \<open>Accounts and their addresses\<close>

datatype wallet_type = ADDRESS | PUBLICKEY | PRIVATEKEY | SINGLE_ADDRESS | HDWALLET | HDPUBLIC

record key_chain =
  kc_address :: string
  kc_publicKeyAddress :: string
  kc_forPath :: "string \<Rightarrow> string"
  kc_forChild :: "int \<Rightarrow> string"

record account =
  ac_walletId :: string
  ac_walletType :: wallet_type
  ac_index :: int
  ac_BIP44PATH :: string
  ac_keyChain :: key_chain

text \<open>The path of an account, by whether the network is the live one.\<close>

definition getBIP44Path :: "bool \<Rightarrow> int \<Rightarrow> string" where
  "getBIP44Path livenet accountIndex =
    (if livenet then ''m/44'/5'/'' else ''m/44'/1'/'') @ int_string accountIndex @ [CHR 0x27]"

definition getTypePathFromWalletType :: "account \<Rightarrow> address_type \<Rightarrow> int \<Rightarrow> address_type \<times> string" where
  "getTypePathFromWalletType acct t index =
    (let path = ac_BIP44PATH acct @ ''/'' @ (if t = External then ''0'' else ''1'') @ ''/'' @ int_string index
     in case ac_walletType acct of
          HDWALLET \<Rightarrow> (t, path)
        | HDPUBLIC \<Rightarrow> (External, path)
        | _ \<Rightarrow> (Misc, ''0''))"

text \<open>The address and index of a path; no index when the path has none.\<close>

definition derived_address :: "account \<Rightarrow> string \<Rightarrow> (int \<times> string) option" where
  "derived_address acct path =
    (let kc = ac_keyChain acct
     in case ac_walletType acct of
          ADDRESS \<Rightarrow> Some (0, kc_address kc)
        | PUBLICKEY \<Rightarrow> Some (0, kc_publicKeyAddress kc)
        | HDWALLET \<Rightarrow> map_option (\<lambda>i. (i, kc_forPath kc path)) (path_number path 5)
        | HDPUBLIC \<Rightarrow> map_option (\<lambda>i. (i, kc_forChild kc i)) (path_number path 5)
        | _ \<Rightarrow> Some (0, kc_forPath kc path))"

definition generateAddress :: "account \<Rightarrow> string \<Rightarrow> storage \<Rightarrow> (address_object \<times> storage) option" where
  "generateAddress acct path s =
    Option.bind (derived_address acct path) (\<lambda>(index, address).
      let ob = new_address_object path index address
      in map_option (Pair ob) (importAddress ob (ac_walletId acct) s))"

definition getAddress :: "account \<Rightarrow> int \<Rightarrow> address_type \<Rightarrow> storage \<Rightarrow> (address_object \<times> storage) option" where
  "getAddress acct index t s =
    (case getTypePathFromWalletType acct t index of (t', path) \<Rightarrow>
       (case map_of (st_addresses s) (AddressKey (ac_walletId acct) t' path) of
          Some ob \<Rightarrow> Some (ob, s)
        | None \<Rightarrow> generateAddress acct path s))"

section \<open>Missing indexes\<close>

fun gaps :: "int list \<Rightarrow> int list" where
  "gaps (x # y # xs) = [x + 1..y - 1] @ gaps (y # xs)"
| "gaps _ = []"

text \<open>\<open>None\<close> is a path whose index is \<open>NaN\<close>.\<close>

definition getMissingIndexes :: "string list \<Rightarrow> bool \<Rightarrow> int list option" where
  "getMissingIndexes paths fromOrigin =
    map_option (\<lambda>indexes.
      let sortedIndexes = sort indexes
      in sort (gaps sortedIndexes @
        (if fromOrigin \<and> sortedIndexes \<noteq> [] \<and> hd sortedIndexes > 0 then rev [0..hd sortedIndexes - 1] else [])))
      (those (map (\<lambda>p. path_number p 5) paths))"

definition isContiguousPath :: "string \<Rightarrow> string option \<Rightarrow> bool" where
  "isContiguousPath currPath prevPath =
    (case (path_number currPath 5, prevPath) of
       (None, _) \<Rightarrow> False
     | (Some i, None) \<Rightarrow> i = 0
     | (Some i, Some p) \<Rightarrow> path_number p 5 = Some (i - 1))"

section \<open>The gap limit\<close>

definition BIP44_ADDRESS_GAP :: int where "BIP44_ADDRESS_GAP = 20"

definition type_paths :: "string \<Rightarrow> address_type \<Rightarrow> storage \<Rightarrow> string list" where
  "type_paths w t s = map key_path (filter (\<lambda>k. key_wallet k = w \<and> key_type k = t) (keys (st_addresses s)))"

definition path_index :: "string \<Rightarrow> int" where
  "path_index p = (case path_number p 5 of None \<Rightarrow> 0 | Some i \<Rightarrow> i)"

definition account_paths :: "account \<Rightarrow> string list \<Rightarrow> string list" where
  "account_paths acct paths = sort_key path_index (filter (\<lambda>p. path_number p 3 = Some (ac_index acct)) paths)"

text \<open>The scan for the last used and the last generated index; \<open>None\<close> when it throws.\<close>

fun scan_addresses ::
    "(string \<Rightarrow> address_object option) \<Rightarrow> string list \<Rightarrow> string option \<Rightarrow> int \<times> int \<Rightarrow> (int \<times> int) option" where
  "scan_addresses get [] prevPath found = Some found"
| "scan_addresses get (path # paths) prevPath (lastUsed, lastGenerated) =
     (case get path of
        None \<Rightarrow> None
      | Some ob \<Rightarrow>
          if isContiguousPath path prevPath
          then scan_addresses get paths (Some path) (if ao_used ob then ao_index ob else lastUsed, ao_index ob)
          else None)"

definition generate_all :: "account \<Rightarrow> (int \<times> address_type) list \<Rightarrow> storage \<Rightarrow> storage option" where
  "generate_all acct requests s =
    fold (\<lambda>(index, t) st. Option.bind st (\<lambda>s. map_option snd (getAddress acct index t s))) requests (Some s)"

definition indexes_to_generate :: "(string \<Rightarrow> address_object option) \<Rightarrow> string list \<Rightarrow> int \<Rightarrow> int list" where
  "indexes_to_generate get paths number =
    (if number > 0
     then let lastExistingIndex = (if paths = [] then - 1
                else case get (last paths) of None \<Rightarrow> - 1 | Some ob \<Rightarrow> ao_index ob)
          in [lastExistingIndex + 1..lastExistingIndex + number]
     else [])"

definition stored_at :: "account \<Rightarrow> address_type \<Rightarrow> storage \<Rightarrow> string \<Rightarrow> address_object option" where
  "stored_at acct t s path = map_of (st_addresses s) (AddressKey (ac_walletId acct) t path)"

text \<open>
  \<open>ensureAddressesToGapLimit\<close>, with the addresses it generated, or \<open>None\<close> for the error that addresses
  are not contiguous, which it throws after it has generated the missing ones: the paths it scans are
  those from before.
\<close>

definition ensureAddressesToGapLimit :: "account \<Rightarrow> storage \<Rightarrow> (storage \<times> int option) option" where
  "ensureAddressesToGapLimit acct s =
    (let external = type_paths (ac_walletId acct) External s;
         internal = type_paths (ac_walletId acct) Internal s
     in Option.bind (getMissingIndexes external True) (\<lambda>missingExternal.
        Option.bind (getMissingIndexes internal True) (\<lambda>missingInternal.
        Option.bind (generate_all acct (map (\<lambda>i. (i, External)) missingExternal @ map (\<lambda>i. (i, Internal)) missingInternal) s) (\<lambda>s.
          let external = account_paths acct external; internal = account_paths acct internal;
              getExternal = stored_at acct External s; getInternal = stored_at acct Internal s
          in case (scan_addresses getExternal external None (- 1, - 1), scan_addresses getInternal internal None (- 1, - 1)) of
               (Some (usedExternal, lastExternal), Some (usedInternal, lastInternal)) \<Rightarrow>
                 (let newExternal = indexes_to_generate getExternal external (BIP44_ADDRESS_GAP - (lastExternal - usedExternal));
                      newInternal = indexes_to_generate getInternal internal (BIP44_ADDRESS_GAP - (lastInternal - usedInternal))
                  in map_option (\<lambda>s. (s, Some (int (length newExternal) + int (length newInternal))))
                    (generate_all acct (map (\<lambda>i. (i, External)) newExternal @ map (\<lambda>i. (i, Internal)) newInternal) s))
             | _ \<Rightarrow> Some (s, None)))))"

text \<open>\<open>Account.importTransactions\<close>: the import, and the gap for wallets with derived keys.\<close>

definition Account_importTransactions ::
    "account \<Rightarrow> (wallet_tx \<times> tx_metadata option) list \<Rightarrow> storage \<Rightarrow> (storage \<times> int option) option" where
  "Account_importTransactions acct txs s =
    Option.bind (importTransactions txs s) (\<lambda>s.
      if ac_walletType acct \<in> {HDWALLET, HDPUBLIC} then ensureAddressesToGapLimit acct s else Some (s, Some 0))"

section \<open>Missing indexes are those below the greatest\<close>

lemma gaps_bounds: "sorted xs \<Longrightarrow> i \<in> set (gaps xs) \<longleftrightarrow> xs \<noteq> [] \<and> hd xs < i \<and> i < last xs \<and> i \<notin> set xs"
proof (induction xs rule: gaps.induct)
  case (1 x y xs)
  have "y \<le> last (y # xs)" using 1(2) by (cases "xs = []") auto
  then show ?case using 1 by (cases "i < y") (auto simp: order_le_less)
qed auto

lemma distinct_gaps: "sorted xs \<Longrightarrow> distinct (gaps xs)"
proof (induction xs rule: gaps.induct)
  case (1 x y xs)
  then show ?case using gaps_bounds [of "y # xs"] by auto
qed auto

lemma sorted_last: "sorted xs \<Longrightarrow> i \<in> set xs \<Longrightarrow> i \<le> last (xs :: int list)"
  by (induction xs) auto

lemma those_Some: "those xs = Some ys \<longleftrightarrow> xs = map Some ys"
proof (induction xs arbitrary: ys)
  case (Cons x xs)
  then show ?case by (cases ys) (auto split: option.split)
qed auto

theorem missing_indexes_exact:
  assumes "map (\<lambda>p. path_number p 5) paths = map Some indexes" "indexes \<noteq> []" "list_all (\<lambda>i. 0 \<le> i) indexes"
  shows "getMissingIndexes paths True = Some (filter (\<lambda>i. i \<notin> set indexes) [0..Max (set indexes)])"
proof -
  let ?s = "sort indexes"
  let ?m = "gaps ?s @ (if ?s \<noteq> [] \<and> hd ?s > 0 then rev [0..hd ?s - 1] else [])"
  have s: "sorted ?s" "set ?s = set indexes" "?s \<noteq> []" using assms(2) by (simp_all flip: set_empty)
  have hd: "hd ?s \<in> set indexes" "\<And>i. i \<in> set indexes \<Longrightarrow> hd ?s \<le> i"
  proof -
    show "hd ?s \<in> set indexes" using hd_in_set [OF s(3)] s(2) by simp
    show "hd ?s \<le> i" if "i \<in> set indexes" for i
    proof -
      have "i \<in> set ?s" using that s(2) by simp
      then show ?thesis using s(1,3) by (cases ?s) auto
    qed
  qed
  have last: "last ?s = Max (set indexes)"
  proof (rule Max_eqI [symmetric])
    show "last ?s \<in> set indexes" using last_in_set [OF s(3)] s(2) by simp
    show "i \<le> last ?s" if "i \<in> set indexes" for i
      using sorted_last [OF s(1)] that s(2) by simp
  qed simp
  have nonneg: "0 \<le> hd ?s" using hd(1) assms(3) by (auto simp: list_all_iff)
  have top: "Max (set indexes) \<in> set indexes" "hd ?s \<le> Max (set indexes)" using hd assms(2) by simp_all
  have "i \<in> set ?m \<longleftrightarrow> i \<in> set (filter (\<lambda>i. i \<notin> set indexes) [0..Max (set indexes)])" for i
  proof -
    have "i \<in> set ?m \<longleftrightarrow> (hd ?s < i \<and> i < Max (set indexes) \<and> i \<notin> set indexes) \<or> (0 \<le> i \<and> i < hd ?s)"
      using gaps_bounds [OF s(1), of i] s(2,3) nonneg last by auto
    also have "\<dots> \<longleftrightarrow> 0 \<le> i \<and> i \<le> Max (set indexes) \<and> i \<notin> set indexes"
    proof -
      have "0 \<le> h \<Longrightarrow> h \<in> S \<Longrightarrow> m \<in> S \<Longrightarrow> h \<le> m \<Longrightarrow> (i \<in> S \<Longrightarrow> h \<le> i) \<Longrightarrow>
          (h < i \<and> i < m \<and> i \<notin> S) \<or> (0 \<le> i \<and> i < h) \<longleftrightarrow> 0 \<le> i \<and> i \<le> m \<and> i \<notin> S" for h m S
        by (cases "i = h"; cases "i = m") auto
      then show ?thesis using nonneg hd top by blast
    qed
    finally show ?thesis by auto
  qed
  then have "set ?m = set (filter (\<lambda>i. i \<notin> set indexes) [0..Max (set indexes)])" by blast
  moreover have "distinct ?m"
  proof -
    have "i \<in> set (gaps ?s) \<Longrightarrow> hd ?s < i" for i using gaps_bounds [OF s(1), of i] by blast
    then show ?thesis using distinct_gaps [OF s(1)] by fastforce
  qed
  ultimately have "sort ?m = filter (\<lambda>i. i \<notin> set indexes) [0..Max (set indexes)]"
    by (intro sorted_distinct_set_unique) (simp_all add: sorted_wrt_filter)
  then show ?thesis by (simp add: getMissingIndexes_def Let_def assms(1) those_Some [THEN iffD2])
qed


section \<open>Paths of an account\<close>

lemma digit_char: "m < 10 \<Longrightarrow> is_digit (char_of (48 + m)) \<and> (of_char (char_of (48 + m) :: char) :: nat) - 48 = m"
  by (simp add: is_digit_def of_char_of)

lemma nat_digits_value: "list_all is_digit (nat_digits n) \<and> digits_value (nat_digits n) = n \<and> nat_digits n \<noteq> []"
proof (induction n rule: nat_digits.induct)
  case (1 n)
  show ?case
  proof (cases "n < 10")
    case True
    then show ?thesis using digit_char [of n] by (subst (1 2 3) nat_digits.simps) (simp add: digits_value_def)
  next
    case False
    then have "nat_digits n = nat_digits (n div 10) @ [char_of (48 + n mod 10)]" by (subst nat_digits.simps) simp
    then show ?thesis using 1 False digit_char [of "n mod 10"] by (simp add: digits_value_def)
  qed
qed

lemma digit_no_separator: "is_digit c \<Longrightarrow> c \<noteq> CHR ''/'' \<and> c \<noteq> CHR ''-'' \<and> c \<noteq> CHR ''+'' \<and> c \<noteq> CHR '' '' \<and> c \<noteq> CHR 0x0A"
  by (auto simp: is_digit_def)

lemma int_string_digits:
  assumes "0 \<le> i"
  shows "list_all is_digit (int_string i)" "digits_value (int_string i) = nat i" "int_string i \<noteq> []"
  using assms nat_digits_value by (simp_all add: int_string_def)

lemma parse_digits_prefix:
  assumes "list_all is_digit ds" "ds \<noteq> []" "rest = [] \<or> \<not> is_digit (hd rest)"
  shows "parseInt (ds @ rest) = Some (int (digits_value ds))"
proof -
  obtain d ds' where ds: "ds = d # ds'" using assms(2) by (cases ds) auto
  have d: "is_digit d" using assms(1) ds by simp
  have "takeWhile is_digit (ds @ rest) = ds"
    using assms(1,3) by (cases rest) (auto simp: list_all_iff takeWhile_append)
  then show ?thesis using digit_no_separator [OF d] by (auto simp: parseInt_def ds Let_def)
qed

lemma split_on_no: "c \<notin> set s \<Longrightarrow> split_on c s = [s]"
  by (induction s) auto

lemma split_on_cons: "c \<notin> set s \<Longrightarrow> split_on c (s @ c # t) = s # split_on c t"
  by (induction s) auto

text \<open>The path of an account by \<open>BIP44\<close>: root, coin, account, chain and index.\<close>

definition bip44_account :: "account \<Rightarrow> bool" where
  "bip44_account acct \<longleftrightarrow> ac_walletType acct = HDWALLET \<and> ac_walletId acct \<noteq> [] \<and> 0 \<le> ac_index acct \<and>
     ac_BIP44PATH acct \<in> {getBIP44Path True (ac_index acct), getBIP44Path False (ac_index acct)}"

definition chain_path :: "account \<Rightarrow> address_type \<Rightarrow> int \<Rightarrow> string" where
  "chain_path acct t index =
    ac_BIP44PATH acct @ ''/'' @ (if t = External then ''0'' else ''1'') @ ''/'' @ int_string index"

lemma split_chain_path:
  assumes "bip44_account acct" "0 \<le> index"
  shows "\<exists>coin. split_on CHR ''/'' (chain_path acct t index) =
    [''m'', [CHR ''4'', CHR ''4'', CHR 0x27], coin, int_string (ac_index acct) @ [CHR 0x27],
     (if t = External then ''0'' else ''1''), int_string index]"
proof -
  have no: "CHR ''/'' \<notin> set (int_string i)" if "0 \<le> i" for i
    using int_string_digits(1) [OF that] digit_no_separator by (auto simp: list_all_iff)
  have "CHR ''/'' \<notin> set (int_string (ac_index acct) @ [CHR 0x27])"
    using no [of "ac_index acct"] assms(1) by (simp add: bip44_account_def)
  note split = split_on_cons [OF this, simplified] split_on_no [OF no [OF assms(2)]]
  show ?thesis
    using assms(1) by (auto simp: chain_path_def bip44_account_def getBIP44Path_def split)
qed

lemma chain_path_parts:
  assumes "bip44_account acct" "0 \<le> index" "t \<in> {External, Internal}"
  shows "path_number (chain_path acct t index) 5 = Some index"
    "path_number (chain_path acct t index) 3 = Some (ac_index acct)"
    "type_of_path (chain_path acct t index) = t"
    "chain_path acct t index \<noteq> []"
proof -
  have account: "0 \<le> ac_index acct" using assms(1) by (simp add: bip44_account_def)
  have apostrophe: "\<not> is_digit CHR 0x27" by (simp add: is_digit_def)
  obtain coin where parts: "split_on CHR ''/'' (chain_path acct t index) =
      [''m'', [CHR ''4'', CHR ''4'', CHR 0x27], coin, int_string (ac_index acct) @ [CHR 0x27],
       (if t = External then ''0'' else ''1''), int_string index]"
    using split_chain_path [OF assms(1,2)] by blast
  show "path_number (chain_path acct t index) 5 = Some index"
    using parse_digits_prefix [OF int_string_digits(1,3) [OF assms(2)], of "[]"] int_string_digits(2) [OF assms(2)] assms(2)
    by (simp add: path_number_def path_part_def parts)
  show "path_number (chain_path acct t index) 3 = Some (ac_index acct)"
    using parse_digits_prefix [OF int_string_digits(1,3) [OF account], of "[CHR 0x27]"] int_string_digits(2) [OF account]
      account apostrophe
    by (simp add: path_number_def path_part_def parts)
  show "type_of_path (chain_path acct t index) = t"
    using assms(3) by (auto simp: type_of_path_def path_part_def parts)
  show "chain_path acct t index \<noteq> []" by (simp add: chain_path_def)
qed


section \<open>New addresses\<close>

definition new_entry :: "account \<Rightarrow> address_type \<Rightarrow> int \<Rightarrow> address_key \<times> address_object" where
  "new_entry acct t index =
    (let path = chain_path acct t index
     in (AddressKey (ac_walletId acct) t path, new_address_object path index (kc_forPath (ac_keyChain acct) path)))"

lemma update_append: "map_of xs k = None \<Longrightarrow> AList.update k v xs = xs @ [(k, v)]"
  by (induction xs) (auto split: if_splits)

lemma import_new:
  assumes "map_of (st_addresses s) (AddressKey w (type_of_path path) path) = None" "w \<noteq> []" "path \<noteq> []"
  shows "\<exists>s'. importAddress (new_address_object path i addr) w s = Some s' \<and>
    st_addresses s' = st_addresses s @ [(AddressKey w (type_of_path path) path, new_address_object path i addr)]"
proof -
  let ?k = "AddressKey w (type_of_path path) path" and ?ob = "new_address_object path i addr"
  have fields: "ao_path ?ob = path" "ao_utxos ?ob = []" "ao_balanceSat ?ob = 0"
    by (simp_all add: new_address_object_def)
  have append: "AList.update ?k ?ob (st_addresses s) = st_addresses s @ [(?k, ?ob)]"
    using assms(1) by (rule update_append)
  show ?thesis
    using assms fields append
    by (auto simp: importAddress_def updateAddress_def Let_def account_zero_balance set_address_def)
qed

lemma chain_path_inject:
  assumes "bip44_account acct" "0 \<le> i" "0 \<le> j" "t \<in> {External, Internal}" "u \<in> {External, Internal}"
    and "chain_path acct t i = chain_path acct u j"
  shows "t = u \<and> i = j"
  using chain_path_parts [OF assms(1,2,4)] chain_path_parts [OF assms(1,3,5)] assms(6) by auto

lemma getAddress_new:
  assumes "bip44_account acct" "0 \<le> i" "t \<in> {External, Internal}" "stored_at acct t s (chain_path acct t i) = None"
  shows "\<exists>s'. map_option snd (getAddress acct i t s) = Some s' \<and> st_addresses s' = st_addresses s @ [new_entry acct t i]"
proof -
  note parts = chain_path_parts [OF assms(1-3)]
  have hd: "ac_walletType acct = HDWALLET" "ac_walletId acct \<noteq> []" using assms(1) by (simp_all add: bip44_account_def)
  have path: "getTypePathFromWalletType acct t i = (t, chain_path acct t i)"
    using hd assms(3) by (auto simp: getTypePathFromWalletType_def chain_path_def Let_def)
  have derived: "derived_address acct (chain_path acct t i) = Some (i, kc_forPath (ac_keyChain acct) (chain_path acct t i))"
    using hd parts by (simp add: derived_address_def Let_def)
  show ?thesis
    using assms(4) import_new [of s "ac_walletId acct" "chain_path acct t i" i] hd parts
    by (fastforce simp: getAddress_def path generateAddress_def derived stored_at_def new_entry_def Let_def)
qed

lemma new_entry_key: "fst (new_entry acct t i) = AddressKey (ac_walletId acct) t (chain_path acct t i)"
  by (simp add: new_entry_def Let_def)

lemma generate_all_new:
  assumes "bip44_account acct" "distinct requests"
    and "\<And>i t. (i, t) \<in> set requests \<Longrightarrow> 0 \<le> i \<and> t \<in> {External, Internal} \<and> stored_at acct t s (chain_path acct t i) = None"
  shows "\<exists>s'. generate_all acct requests s = Some s' \<and>
    st_addresses s' = st_addresses s @ map (\<lambda>(i, t). new_entry acct t i) requests"
  using assms(2,3)
proof (induction requests rule: rev_induct)
  case Nil
  then show ?case by (simp add: generate_all_def)
next
  case (snoc request requests)
  obtain i t where it: "request = (i, t)" by force
  have "\<exists>s'. generate_all acct requests s = Some s' \<and> st_addresses s' = st_addresses s @ map (\<lambda>(i, t). new_entry acct t i) requests"
    using snoc.prems by (intro snoc.IH) auto
  then obtain s' where s': "generate_all acct requests s = Some s'"
      "st_addresses s' = st_addresses s @ map (\<lambda>(i, t). new_entry acct t i) requests" by blast
  have new: "0 \<le> i" "t \<in> {External, Internal}" "stored_at acct t s (chain_path acct t i) = None"
    using snoc.prems(2) [of i t] it by auto
  have "AddressKey (ac_walletId acct) t (chain_path acct t i) \<notin> fst ` (\<lambda>(i, t). new_entry acct t i) ` set requests"
  proof
    assume "AddressKey (ac_walletId acct) t (chain_path acct t i) \<in> fst ` (\<lambda>(i, t). new_entry acct t i) ` set requests"
    then obtain j u where ju: "(j, u) \<in> set requests" "chain_path acct t i = chain_path acct u j"
      by (auto simp: new_entry_key)
    then have "t = u \<and> i = j"
      using snoc.prems(2) [of j u] new by (intro chain_path_inject [OF assms(1)]) auto
    then show False using ju snoc.prems(1) it by auto
  qed
  then have "stored_at acct t s' (chain_path acct t i) = None"
    using new(3) by (auto simp: stored_at_def s'(2) map_of_eq_None_iff image_image)
  then obtain s'' where "map_option snd (getAddress acct i t s') = Some s''" "st_addresses s'' = st_addresses s' @ [new_entry acct t i]"
    using getAddress_new [OF assms(1) new(1,2)] by blast
  then show ?case using s' it by (auto simp: generate_all_def)
qed

section \<open>Scanning contiguous addresses\<close>

definition is_used :: "(string \<Rightarrow> address_object option) \<Rightarrow> string \<Rightarrow> bool" where
  "is_used get p = (case get p of None \<Rightarrow> False | Some ob \<Rightarrow> ao_used ob)"

lemma scan_contiguous:
  assumes "map (\<lambda>p. path_number p 5) ps = map Some [k..k + int (length ps) - 1]"
    and "\<And>p. p \<in> set ps \<Longrightarrow> \<exists>ob. get p = Some ob \<and> ao_index ob = path_index p"
    and "case prev of None \<Rightarrow> k = 0 | Some q \<Rightarrow> path_number q 5 = Some (k - 1)"
  shows "scan_addresses get ps prev (u, g) =
    Some (fold (\<lambda>p u. if is_used get p then path_index p else u) ps u, if ps = [] then g else k + int (length ps) - 1)"
  using assms
proof (induction ps arbitrary: k prev u g)
  case (Cons p ps)
  have upto: "[k..k + int (length (p # ps)) - 1] = k # [k + 1..(k + 1) + int (length ps) - 1]"
    by (subst upto.simps) simp
  have p: "path_number p 5 = Some k" and rest: "map (\<lambda>p. path_number p 5) ps = map Some [k + 1..(k + 1) + int (length ps) - 1]"
    using Cons.prems(1) unfolding upto by simp_all
  obtain ob where ob: "get p = Some ob" "ao_index ob = path_index p" using Cons.prems(2) by auto
  have contiguous: "isContiguousPath p prev"
    using Cons.prems(3) p by (auto simp: isContiguousPath_def split: option.splits)
  have index: "path_index p = k" by (simp add: path_index_def p)
  have "scan_addresses get (p # ps) prev (u, g) =
      scan_addresses get ps (Some p) (if ao_used ob then k else u, k)"
    using ob contiguous index by simp
  also have "\<dots> = Some (fold (\<lambda>p u. if is_used get p then path_index p else u) ps (if ao_used ob then k else u),
      if ps = [] then k else (k + 1) + int (length ps) - 1)"
    using Cons.prems(2) p by (intro Cons.IH [OF rest]) auto
  finally show ?case using ob index by (auto simp: is_used_def)
qed simp

lemma foldr_max: "foldr max xs (max a b) = max a (foldr max xs (b :: int))"
  by (induction xs) auto

lemma fold_used:
  assumes "sorted (map path_index ps)" "\<And>p. p \<in> set ps \<Longrightarrow> u \<le> path_index p"
  shows "fold (\<lambda>p u. if is_used get p then path_index p else u) ps u =
    foldr max (map path_index (filter (is_used get) ps)) u"
  using assms
proof (induction ps arbitrary: u)
  case (Cons p ps)
  show ?case
  proof (cases "is_used get p")
    case True
    have "fold (\<lambda>p u. if is_used get p then path_index p else u) (p # ps) u =
        foldr max (map path_index (filter (is_used get) ps)) (path_index p)"
      using True Cons.prems by (auto intro: Cons.IH)
    also have "\<dots> = max (path_index p) (foldr max (map path_index (filter (is_used get) ps)) u)"
      using Cons.prems(2) [of p] foldr_max [of _ "path_index p" u] by (simp add: max_def)
    finally show ?thesis using True by simp
  next
    case False
    then show ?thesis using Cons by auto
  qed
qed simp


section \<open>The gap is kept\<close>

text \<open>
  A chain of an account with the indexes from 0 to \<open>n\<close> - 1, in a wallet whose chains of that type have
  no missing index, and the last index of it that was used.
\<close>

definition no_gap :: "int set \<Rightarrow> bool" where
  "no_gap is \<longleftrightarrow> (\<forall>i \<in> is. 0 \<le> i \<and> {0..i} \<subseteq> is)"

definition own_paths :: "account \<Rightarrow> address_type \<Rightarrow> storage \<Rightarrow> string list" where
  "own_paths acct t s = filter (\<lambda>p. path_number p 3 = Some (ac_index acct)) (type_paths (ac_walletId acct) t s)"

definition chain_ok :: "account \<Rightarrow> address_type \<Rightarrow> storage \<Rightarrow> int \<Rightarrow> bool" where
  "chain_ok acct t s n \<longleftrightarrow> 0 \<le> n \<and>
     (\<exists>indexes. map (\<lambda>p. path_number p 5) (type_paths (ac_walletId acct) t s) = map Some indexes \<and> no_gap (set indexes)) \<and>
     mset (map path_index (own_paths acct t s)) = mset [0..n - 1] \<and>
     (\<forall>p \<in> set (own_paths acct t s). \<exists>ob. stored_at acct t s p = Some ob \<and> ao_index ob = path_index p)"

definition last_used :: "account \<Rightarrow> address_type \<Rightarrow> storage \<Rightarrow> int" where
  "last_used acct t s = foldr max (map path_index (filter (is_used (stored_at acct t s))
     (account_paths acct (type_paths (ac_walletId acct) t s)))) (- 1)"

definition addresses_short :: "account \<Rightarrow> address_type \<Rightarrow> storage \<Rightarrow> int \<Rightarrow> int" where
  "addresses_short acct t s n = max 0 (BIP44_ADDRESS_GAP - (n - 1 - last_used acct t s))"

lemma in_type_paths: "p \<in> set (type_paths w t s) \<longleftrightarrow> AddressKey w t p \<in> set (keys (st_addresses s))"
proof
  assume "p \<in> set (type_paths w t s)"
  then obtain k where "k \<in> set (keys (st_addresses s))" "key_wallet k = w" "key_type k = t" "key_path k = p"
    by (auto simp: type_paths_def)
  then show "AddressKey w t p \<in> set (keys (st_addresses s))" by (metis address_key.collapse)
next
  assume "AddressKey w t p \<in> set (keys (st_addresses s))"
  then show "p \<in> set (type_paths w t s)" unfolding type_paths_def set_map set_filter by (intro image_eqI [of _ _ "AddressKey w t p"]) auto
qed

lemma nothing_missing:
  assumes "map (\<lambda>p. path_number p 5) paths = map Some indexes" "no_gap (set indexes)"
  shows "getMissingIndexes paths True = Some []"
proof (cases "indexes = []")
  case True
  then show ?thesis using assms(1) by (simp add: getMissingIndexes_def those_Some [THEN iffD2])
next
  case False
  have "list_all (\<lambda>i. 0 \<le> i) indexes" using assms(2) by (simp add: no_gap_def list_all_iff)
  moreover have "{0..Max (set indexes)} \<subseteq> set indexes" using assms(2) False by (simp add: no_gap_def)
  ultimately show ?thesis
    using missing_indexes_exact [OF assms(1) False] by (auto simp: filter_empty_conv)
qed

lemma account_paths_sorted:
  assumes "chain_ok acct t s n"
  shows "map (\<lambda>p. path_number p 5) (account_paths acct (type_paths (ac_walletId acct) t s)) = map Some [0..n - 1]"
    "map path_index (account_paths acct (type_paths (ac_walletId acct) t s)) = [0..n - 1]"
    "set (account_paths acct (type_paths (ac_walletId acct) t s)) = set (own_paths acct t s)"
    "int (length (account_paths acct (type_paths (ac_walletId acct) t s))) = n"
proof -
  let ?ps = "account_paths acct (type_paths (ac_walletId acct) t s)"
  have ps: "?ps = sort_key path_index (own_paths acct t s)" by (simp add: account_paths_def own_paths_def)
  have "mset (map path_index ?ps) = mset [0..n - 1]" using assms by (simp add: chain_ok_def ps)
  moreover have "sorted (map path_index ?ps)" by (simp add: ps)
  ultimately show indexes: "map path_index ?ps = [0..n - 1]"
    by (metis properties_for_sort sorted_sort_id sorted_upto)
  show set: "set ?ps = set (own_paths acct t s)" by (simp add: ps)
  have "path_number p 5 = Some (path_index p)" if "p \<in> set ?ps" for p
  proof -
    have "p \<in> set (type_paths (ac_walletId acct) t s)" using that set by (simp add: own_paths_def)
    then have "path_number p 5 \<in> set (map (\<lambda>p. path_number p 5) (type_paths (ac_walletId acct) t s))" by simp
    moreover obtain indexes where "map (\<lambda>p. path_number p 5) (type_paths (ac_walletId acct) t s) = map Some indexes"
      using assms by (auto simp: chain_ok_def)
    ultimately have "path_number p 5 \<in> set (map Some indexes)" by simp
    then obtain i where "path_number p 5 = Some i" by auto
    then show ?thesis by (simp add: path_index_def)
  qed
  then have "map (\<lambda>p. path_number p 5) ?ps = map Some (map path_index ?ps)" by simp
  then show "map (\<lambda>p. path_number p 5) ?ps = map Some [0..n - 1]" by (simp only: indexes)
  have "length ?ps = length [0..n - 1]" using arg_cong [OF indexes, of length] by simp
  then show "int (length ?ps) = n" using assms by (simp add: chain_ok_def)
qed

lemma scan_chain:
  assumes "chain_ok acct t s n"
  shows "scan_addresses (stored_at acct t s) (account_paths acct (type_paths (ac_walletId acct) t s)) None (- 1, - 1) =
    Some (last_used acct t s, n - 1)"
proof -
  let ?ps = "account_paths acct (type_paths (ac_walletId acct) t s)"
  note sorted = account_paths_sorted [OF assms]
  have objects: "\<exists>ob. stored_at acct t s p = Some ob \<and> ao_index ob = path_index p" if "p \<in> set ?ps" for p
    using assms that sorted(3) by (simp add: chain_ok_def)
  have "map (\<lambda>p. path_number p 5) ?ps = map Some [0..0 + int (length ?ps) - 1]" using sorted(1,4) by simp
  note scan = scan_contiguous [OF this objects, of None "- 1" "- 1", simplified]
  have "fold (\<lambda>p u. if is_used (stored_at acct t s) p then path_index p else u) ?ps (- 1) = last_used acct t s"
  proof -
    have "- 1 \<le> path_index p" if "p \<in> set ?ps" for p
    proof -
      have "path_index p \<in> set (map path_index ?ps)" using that by simp
      then show ?thesis by (simp only: sorted(2)) simp
    qed
    then show ?thesis unfolding last_used_def by (intro fold_used) (simp_all add: sorted(2))
  qed
  then show ?thesis using scan sorted(4) by auto
qed

lemma indexes_to_generate_chain:
  assumes "chain_ok acct t s n"
  shows "indexes_to_generate (stored_at acct t s) (account_paths acct (type_paths (ac_walletId acct) t s))
      (BIP44_ADDRESS_GAP - (n - 1 - last_used acct t s)) = [n..n + addresses_short acct t s n - 1]"
proof -
  let ?ps = "account_paths acct (type_paths (ac_walletId acct) t s)"
  note sorted = account_paths_sorted [OF assms]
  have "(if ?ps = [] then - 1 else case stored_at acct t s (last ?ps) of None \<Rightarrow> - 1 | Some ob \<Rightarrow> ao_index ob) = n - 1"
  proof (cases "?ps = []")
    case True
    then show ?thesis using sorted(4) by simp
  next
    case False
    have "path_index (last ?ps) = last [0..n - 1]" using sorted(2) False by (metis last_map)
    moreover have "[0..n - 1] = [0..n - 2] @ [n - 1]"
      using False sorted(4) upto_rec2 [of 0 "n - 1"] by (cases ?ps) auto
    moreover have "last ?ps \<in> set (own_paths acct t s)" using False sorted(3) last_in_set by blast
    ultimately show ?thesis using assms False by (auto simp: chain_ok_def)
  qed
  then show ?thesis by (simp add: indexes_to_generate_def addresses_short_def Let_def max_def)
qed


definition new_entries :: "account \<Rightarrow> address_type \<Rightarrow> int \<Rightarrow> int \<Rightarrow> (address_key \<times> address_object) list" where
  "new_entries acct t n e = map (new_entry acct t) [n..n + e - 1]"

lemma beyond_absent:
  assumes "bip44_account acct" "chain_ok acct t s n" "t \<in> {External, Internal}" "n \<le> i"
  shows "stored_at acct t s (chain_path acct t i) = None"
proof (rule ccontr)
  have nonneg: "0 \<le> i" using assms(2,4) by (simp add: chain_ok_def)
  note parts = chain_path_parts [OF assms(1) nonneg assms(3)]
  assume "stored_at acct t s (chain_path acct t i) \<noteq> None"
  then have "AddressKey (ac_walletId acct) t (chain_path acct t i) \<in> set (keys (st_addresses s))"
    by (auto simp: stored_at_def map_of_eq_None_iff)
  then have "chain_path acct t i \<in> set (own_paths acct t s)"
    using parts by (force simp: own_paths_def type_paths_def)
  then have "path_index (chain_path acct t i) \<in> set (map path_index (own_paths acct t s))" by simp
  also have "set (map path_index (own_paths acct t s)) = set [0..n - 1]"
    using assms(2) by (metis chain_ok_def set_mset_mset)
  finally show False using parts(1) assms(4) by (simp add: path_index_def)
qed

text \<open>
  After the check an account has the addresses it lacked to be twenty ahead of the last used one, on
  both chains, each the next of its chain and unused; nothing else of the addresses changes.
\<close>

theorem gap_limit_kept:
  assumes "bip44_account acct" "chain_ok acct External s n" "chain_ok acct Internal s m"
  shows "\<exists>s'. ensureAddressesToGapLimit acct s =
      Some (s', Some (addresses_short acct External s n + addresses_short acct Internal s m)) \<and>
    st_addresses s' = st_addresses s @ new_entries acct External n (addresses_short acct External s n) @
      new_entries acct Internal m (addresses_short acct Internal s m)"
proof -
  let ?e = "addresses_short acct External s n" and ?i = "addresses_short acct Internal s m"
  have missing: "getMissingIndexes (type_paths (ac_walletId acct) External s) True = Some []"
      "getMissingIndexes (type_paths (ac_walletId acct) Internal s) True = Some []"
    using assms(2,3) nothing_missing by (auto simp: chain_ok_def)
  let ?requests = "map (\<lambda>i. (i, External)) [n..n + ?e - 1] @ map (\<lambda>i. (i, Internal)) [m..m + ?i - 1]"
  have nonneg: "0 \<le> n" "0 \<le> m" "0 \<le> ?e" "0 \<le> ?i"
    using assms(2,3) by (simp_all add: chain_ok_def addresses_short_def)
  have "\<exists>s'. generate_all acct ?requests s = Some s' \<and> st_addresses s' = st_addresses s @ map (\<lambda>(i, t). new_entry acct t i) ?requests"
  proof (rule generate_all_new [OF assms(1)])
    show "distinct ?requests" by (auto simp: distinct_map inj_on_def)
    show "0 \<le> i \<and> t \<in> {External, Internal} \<and> stored_at acct t s (chain_path acct t i) = None"
      if "(i, t) \<in> set ?requests" for i t
      using that nonneg beyond_absent [OF assms(1,2)] beyond_absent [OF assms(1,3)] by auto
  qed
  then obtain s' where "generate_all acct ?requests s = Some s'"
      "st_addresses s' = st_addresses s @ map (\<lambda>(i, t). new_entry acct t i) ?requests" by blast
  moreover have "generate_all acct [] s = Some s" by (simp add: generate_all_def)
  ultimately show ?thesis
    using nonneg
    by (simp add: ensureAddressesToGapLimit_def missing scan_chain [OF assms(2)] scan_chain [OF assms(3)] Let_def
        indexes_to_generate_chain [OF assms(2)] indexes_to_generate_chain [OF assms(3)] new_entries_def o_def)
qed


section \<open>A second check finds nothing to do\<close>

lemma new_chain_types:
  assumes "bip44_account acct" "chain_ok acct t s n" "t \<in> {External, Internal}"
    and "st_addresses s' = st_addresses s @ new_entries acct External e ne @ new_entries acct Internal i ni"
    and "(if t = External then (e, ne) else (i, ni)) = (n, k)" "0 \<le> k"
  shows "type_paths (ac_walletId acct) t s' = type_paths (ac_walletId acct) t s @ map (chain_path acct t) [n..n + k - 1]"
proof -
  have "map key_path (filter (\<lambda>key. key_wallet key = ac_walletId acct \<and> key_type key = t) (keys (new_entries acct u j nj))) =
      (if u = t then map (chain_path acct t) [j..j + nj - 1] else [])" for u j nj
    by (simp add: new_entries_def o_def filter_map new_entry_key)
  then show ?thesis using assms(3,5) by (auto simp: type_paths_def assms(4))
qed

text \<open>What is stored at a path of the account after the check: as before, or new and unused.\<close>

lemma in_new_entries: "x \<in> set (new_entries acct t n e) \<Longrightarrow> 0 \<le> n \<Longrightarrow> \<exists>j. 0 \<le> j \<and> x = new_entry acct t j"
proof -
  assume "x \<in> set (new_entries acct t n e)" "0 \<le> n"
  then obtain j where "j \<in> {n..n + e - 1}" "x = new_entry acct t j"
    unfolding new_entries_def set_map set_upto by blast
  then show ?thesis using \<open>0 \<le> n\<close> by (intro exI [of _ j]) simp
qed

lemma stored_after:
  assumes "bip44_account acct" "st_addresses s' = st_addresses s @ new_entries acct External n e @ new_entries acct Internal m i"
    and "0 \<le> n" "0 \<le> m"
  shows "stored_at acct t s p = Some ob \<Longrightarrow> stored_at acct t s' p = Some ob"
    and "stored_at acct t s p = None \<Longrightarrow> stored_at acct t s' p = Some ob \<Longrightarrow> ao_index ob = path_index p \<and> \<not> ao_used ob"
proof -
  show "stored_at acct t s p = Some ob \<Longrightarrow> stored_at acct t s' p = Some ob"
    by (simp add: stored_at_def assms(2))
  assume "stored_at acct t s p = None" "stored_at acct t s' p = Some ob"
  then have "(AddressKey (ac_walletId acct) t p, ob) \<in> set (new_entries acct External n e @ new_entries acct Internal m i)"
    by (auto simp: stored_at_def assms(2) map_add_def split: option.splits dest!: map_of_SomeD)
  then consider j where "0 \<le> j" "(AddressKey (ac_walletId acct) t p, ob) = new_entry acct External j"
    | j where "0 \<le> j" "(AddressKey (ac_walletId acct) t p, ob) = new_entry acct Internal j"
    unfolding set_append using assms(3,4) in_new_entries by blast
  then show "ao_index ob = path_index p \<and> \<not> ao_used ob"
    using chain_path_parts(1) [OF assms(1), of _ External] chain_path_parts(1) [OF assms(1), of _ Internal]
    by cases (auto simp: new_entry_def Let_def new_address_object_def path_index_def)
qed

lemma foldr_max_Max: "foldr max xs (a :: int) = Max (insert a (set xs))"
proof (induction xs)
  case (Cons x xs)
  then show ?case by (simp add: insert_commute [of a x])
qed simp

lemma last_used_own:
  "last_used acct t s = Max (insert (- 1) (path_index ` {p \<in> set (own_paths acct t s). is_used (stored_at acct t s) p}))"
  by (simp add: last_used_def foldr_max_Max account_paths_def own_paths_def Collect_conj_eq Int_commute)

lemma chain_ok_extended:
  assumes "bip44_account acct" "chain_ok acct t s c" "t \<in> {External, Internal}" "0 \<le> n" "0 \<le> m" "0 \<le> k"
    and "st_addresses s' = st_addresses s @ new_entries acct External n e @ new_entries acct Internal m i"
    and "(if t = External then (n, e) else (m, i)) = (c, k)"
  shows "chain_ok acct t s' (c + k) \<and> last_used acct t s' = last_used acct t s"
proof -
  have nonneg: "0 \<le> c" using assms(2) by (simp add: chain_ok_def)
  have types: "type_paths (ac_walletId acct) t s' = type_paths (ac_walletId acct) t s @ map (chain_path acct t) [c..c + k - 1]"
    by (rule new_chain_types [OF assms(1-3,7,8,6)])
  have parts: "path_number (chain_path acct t j) 5 = Some j" "path_number (chain_path acct t j) 3 = Some (ac_index acct)"
    if "j \<in> set [c..c + k - 1]" for j
    using that chain_path_parts [OF assms(1) _ assms(3), of j] nonneg by auto
  have own: "own_paths acct t s' = own_paths acct t s @ map (chain_path acct t) [c..c + k - 1]"
  proof -
    have "filter (\<lambda>p. path_number p 3 = Some (ac_index acct)) (map (chain_path acct t) [c..c + k - 1]) =
        map (chain_path acct t) [c..c + k - 1]"
      using parts(2) by (intro filter_True) auto
    then show ?thesis by (simp add: own_paths_def types)
  qed
  have new_index: "map path_index (map (chain_path acct t) [c..c + k - 1]) = [c..c + k - 1]"
    using parts(1) by (auto simp: path_index_def intro!: map_idI)
  obtain indexes where indexes: "map (\<lambda>p. path_number p 5) (type_paths (ac_walletId acct) t s) = map Some indexes"
      "no_gap (set indexes)"
    using assms(2) by (auto simp: chain_ok_def)
  have mset: "mset (map path_index (own_paths acct t s)) = mset [0..c - 1]" using assms(2) by (simp add: chain_ok_def)
  have below: "{0..c - 1} \<subseteq> set indexes"
  proof -
    have range: "set (map path_index (own_paths acct t s)) = {0..c - 1}" using mset by (metis set_mset_mset set_upto)
    have "path_index p \<in> set indexes" if "p \<in> set (own_paths acct t s)" for p
    proof -
      have "path_number p 5 \<in> set (map (\<lambda>p. path_number p 5) (type_paths (ac_walletId acct) t s))"
        using that by (simp add: own_paths_def)
      then show ?thesis by (auto simp: indexes(1) path_index_def)
    qed
    then have "set (map path_index (own_paths acct t s)) \<subseteq> set indexes" by auto
    then show ?thesis by (simp only: range)
  qed
  have "map (\<lambda>p. path_number p 5) (type_paths (ac_walletId acct) t s') = map Some (indexes @ [c..c + k - 1])"
    using indexes(1) parts(1) by (simp add: types)
  moreover have "no_gap (set (indexes @ [c..c + k - 1]))"
    unfolding no_gap_def
  proof
    fix j
    assume "j \<in> set (indexes @ [c..c + k - 1])"
    then consider "j \<in> set indexes" | "c \<le> j" "j \<le> c + k - 1" by auto
    then show "0 \<le> j \<and> {0..j} \<subseteq> set (indexes @ [c..c + k - 1])"
    proof cases
      case 1
      then show ?thesis using indexes(2) by (auto simp: no_gap_def)
    next
      case 2
      have "x \<in> set indexes \<or> x \<in> {c..c + k - 1}" if "x \<in> {0..j}" for x
        using that 2 below by (cases "x < c") auto
      then have "{0..j} \<subseteq> set (indexes @ [c..c + k - 1])" unfolding set_append set_upto by blast
      then show ?thesis using 2(1) nonneg by simp
    qed
  qed
  moreover have "mset (map path_index (own_paths acct t s')) = mset [0..c + k - 1]"
  proof -
    have "[0..c + k - 1] = [0..c - 1] @ [c..c + k - 1]"
      using upto_split1 [of 0 c "c + k - 1"] nonneg assms(6) by (cases "k = 0") auto
    then show ?thesis using mset new_index by (simp add: own)
  qed
  moreover have objects: "\<exists>ob. stored_at acct t s' p = Some ob \<and> ao_index ob = path_index p" if "p \<in> set (own_paths acct t s')" for p
  proof (cases "stored_at acct t s p")
    case (Some ob)
    have "AddressKey (ac_walletId acct) t p \<in> set (keys (st_addresses s))"
      using map_of_SomeD [OF Some [unfolded stored_at_def]] by force
    then have "p \<in> set (type_paths (ac_walletId acct) t s)" by (simp only: in_type_paths)
    then have "p \<in> set (own_paths acct t s)" using that by (simp add: own_paths_def)
    then show ?thesis
      using assms(2) stored_after(1) [OF assms(1,7,4,5) Some] Some by (auto simp: chain_ok_def)
  next
    case None
    have "AddressKey (ac_walletId acct) t p \<in> set (keys (st_addresses s'))"
      using that by (simp only: own_paths_def in_type_paths set_filter mem_Collect_eq)
    then have "stored_at acct t s' p \<noteq> None" by (simp add: stored_at_def map_of_eq_None_iff)
    then show ?thesis using stored_after(2) [OF assms(1,7,4,5) None] by auto
  qed
  ultimately have "chain_ok acct t s' (c + k)"
    using nonneg assms(6) unfolding chain_ok_def by (intro conjI exI [of _ "indexes @ [c..c + k - 1]"] ballI) simp_all
  moreover have "{p \<in> set (own_paths acct t s'). is_used (stored_at acct t s') p} =
      {p \<in> set (own_paths acct t s). is_used (stored_at acct t s) p}"
  proof -
    have "is_used (stored_at acct t s') p = is_used (stored_at acct t s) p" for p
      using stored_after [OF assms(1,7,4,5), of t p]
      by (cases "stored_at acct t s p"; cases "stored_at acct t s' p") (auto simp: is_used_def)
    moreover have "\<not> is_used (stored_at acct t s) (chain_path acct t j)" if "j \<in> set [c..c + k - 1]" for j
      using that beyond_absent [OF assms(1-3), of j] by (simp add: is_used_def)
    ultimately show ?thesis by (auto simp: own)
  qed
  ultimately show ?thesis by (simp add: last_used_own)
qed

text \<open>
  C28. After a check there are twenty unused addresses after the last used one on both chains, and a second
  check finds nothing to do.
\<close>

theorem gap_limit_settled:
  assumes "bip44_account acct" "chain_ok acct External s n" "chain_ok acct Internal s m"
    and "ensureAddressesToGapLimit acct s = Some (s', Some generated)"
  shows "chain_ok acct External s' (n + addresses_short acct External s n) \<and>
    chain_ok acct Internal s' (m + addresses_short acct Internal s m) \<and>
    BIP44_ADDRESS_GAP \<le> n + addresses_short acct External s n - 1 - last_used acct External s' \<and>
    BIP44_ADDRESS_GAP \<le> m + addresses_short acct Internal s m - 1 - last_used acct Internal s' \<and>
    ensureAddressesToGapLimit acct s' = Some (s', Some 0)"
proof -
  let ?e = "addresses_short acct External s n" and ?i = "addresses_short acct Internal s m"
  have nonneg: "0 \<le> n" "0 \<le> m" "0 \<le> ?e" "0 \<le> ?i"
    using assms(2,3) by (simp_all add: chain_ok_def addresses_short_def)
  have added: "st_addresses s' = st_addresses s @ new_entries acct External n ?e @ new_entries acct Internal m ?i"
    using gap_limit_kept [OF assms(1-3)] assms(4) by auto
  have external: "chain_ok acct External s' (n + ?e) \<and> last_used acct External s' = last_used acct External s"
    by (rule chain_ok_extended [OF assms(1,2) _ nonneg(1,2,3) added]) simp_all
  have internal: "chain_ok acct Internal s' (m + ?i) \<and> last_used acct Internal s' = last_used acct Internal s"
    by (rule chain_ok_extended [OF assms(1,3) _ nonneg(1,2,4) added]) simp_all
  have none: "addresses_short acct External s' (n + ?e) = 0" "addresses_short acct Internal s' (m + ?i) = 0"
    using external internal by (simp_all add: addresses_short_def)
  have missing: "getMissingIndexes (type_paths (ac_walletId acct) External s') True = Some []"
      "getMissingIndexes (type_paths (ac_walletId acct) Internal s') True = Some []"
    using external internal nothing_missing by (auto simp: chain_ok_def)
  have "generate_all acct [] s' = Some s'" by (simp add: generate_all_def)
  then have "ensureAddressesToGapLimit acct s' = Some (s', Some 0)"
    using none
    by (simp add: ensureAddressesToGapLimit_def missing Let_def
        scan_chain [OF conjunct1 [OF external]] scan_chain [OF conjunct1 [OF internal]]
        indexes_to_generate_chain [OF conjunct1 [OF external]] indexes_to_generate_chain [OF conjunct1 [OF internal]])
  then show ?thesis using external internal by (simp add: addresses_short_def max_def)
qed


section \<open>A gap\<close>

text \<open>
  An account whose chain has a gap: the missing addresses are generated, and then the check throws,
  because it scans the paths it had read before.
\<close>

lemma scan_is_contiguous:
  assumes "scan_addresses get ps prev acc = Some found" "p \<in> set ps"
    and "case prev of None \<Rightarrow> k = 0 | Some q \<Rightarrow> path_number q 5 = Some (k - 1)"
  shows "\<exists>j. path_number p 5 = Some j \<and> k \<le> j \<and> (\<forall>i \<in> {k..j}. \<exists>q \<in> set ps. path_number q 5 = Some i)"
  using assms
proof (induction ps arbitrary: prev acc k)
  case (Cons q ps)
  obtain ob where ob: "get q = Some ob" "isContiguousPath q prev"
    using Cons.prems(1) by (cases acc) (auto split: option.splits if_splits)
  then have q: "path_number q 5 = Some k"
    using Cons.prems(3) by (auto simp: isContiguousPath_def split: option.splits)
  show ?case
  proof (cases "p = q")
    case True
    then show ?thesis using q by auto
  next
    case False
    obtain acc' where "scan_addresses get ps (Some q) acc' = Some found"
      using Cons.prems(1) by (cases acc) (auto split: option.splits if_splits)
    then obtain j where j: "path_number p 5 = Some j" "k + 1 \<le> j" "\<forall>i \<in> {k + 1..j}. \<exists>q \<in> set ps. path_number q 5 = Some i"
      using Cons.IH [of "Some q" acc' "k + 1"] Cons.prems(2) False q by auto
    have "\<exists>p \<in> set (q # ps). path_number p 5 = Some i" if "i \<in> {k..j}" for i
      using that j(3) q by (cases "i = k") auto
    then show ?thesis using j(1,2) by auto
  qed
qed simp

theorem gap_throws:
  assumes "p \<in> set (type_paths (ac_walletId acct) External s)" "path_number p 3 = Some (ac_index acct)"
    and "path_number p 5 = Some j" "0 \<le> i" "i < j"
    and "list_all (\<lambda>q. path_number q 3 = Some (ac_index acct) \<longrightarrow> path_number q 5 \<noteq> Some i)
      (type_paths (ac_walletId acct) External s)"
    and "ensureAddressesToGapLimit acct s = Some (s', outcome)"
  shows "outcome = None"
proof -
  let ?ps = "account_paths acct (type_paths (ac_walletId acct) External s)"
  have p: "p \<in> set ?ps" using assms(1,2) by (simp add: account_paths_def)
  have none: "scan_addresses get ?ps None (- 1, - 1) = None" for get
  proof (rule ccontr)
    assume "scan_addresses get ?ps None (- 1, - 1) \<noteq> None"
    then obtain found where "scan_addresses get ?ps None (- 1, - 1) = Some found" by auto
    then have "\<exists>q \<in> set ?ps. path_number q 5 = Some i"
      using scan_is_contiguous [of get ?ps None "(- 1, - 1)" found p 0] p assms(3-5) by auto
    then show False using assms(6) by (auto simp: account_paths_def list_all_iff)
  qed
  show ?thesis using assms(7) by (auto simp: ensureAddressesToGapLimit_def Let_def none bind_eq_Some_conv)
qed

section \<open>Wallets from a public key\<close>

text \<open>Both chains of a wallet that has only the extended public key have the same addresses.\<close>

lemma hdpublic_chains_share_addresses:
  assumes "ac_walletType acct = HDPUBLIC" "path_number p 5 = path_number q 5"
  shows "derived_address acct p = derived_address acct q"
  using assms by (simp add: derived_address_def Let_def)

section \<open>Witnesses\<close>

definition sample_account :: account where
  "sample_account = \<lparr> ac_walletId = ''w'', ac_walletType = HDWALLET, ac_index = 0, ac_BIP44PATH = getBIP44Path False 0,
     ac_keyChain = \<lparr> kc_address = [], kc_publicKeyAddress = [], kc_forPath = (\<lambda>p. p), kc_forChild = (\<lambda>_. []) \<rparr> \<rparr>"

lemma sample_bip44: "bip44_account sample_account"
  by (simp add: bip44_account_def sample_account_def)

lemma empty_chain: "chain_ok acct t empty_storage 0"
  by (simp add: chain_ok_def own_paths_def type_paths_def empty_storage_def no_gap_def)

lemma empty_short: "addresses_short acct t empty_storage 0 = 20"
  by (simp add: addresses_short_def last_used_own own_paths_def type_paths_def empty_storage_def BIP44_ADDRESS_GAP_def)

theorem gap_limit_kept_witness:
  "\<exists>s'. ensureAddressesToGapLimit sample_account empty_storage = Some (s', Some 40) \<and>
    st_addresses s' = new_entries sample_account External 0 20 @ new_entries sample_account Internal 0 20"
  using gap_limit_kept [OF sample_bip44 empty_chain empty_chain] by (simp add: empty_short) (simp add: empty_storage_def)

definition settled_storage :: storage where
  "settled_storage = fst (the (ensureAddressesToGapLimit sample_account empty_storage))"

theorem gap_limit_settled_witness:
  "chain_ok sample_account External settled_storage 20 \<and> chain_ok sample_account Internal settled_storage 20 \<and>
    ensureAddressesToGapLimit sample_account settled_storage = Some (settled_storage, Some 0)"
proof -
  have "ensureAddressesToGapLimit sample_account empty_storage = Some (settled_storage, Some 40)"
    using gap_limit_kept [OF sample_bip44 empty_chain empty_chain] by (auto simp: empty_short settled_storage_def)
  from gap_limit_settled [OF sample_bip44 empty_chain empty_chain this] show ?thesis by (simp add: empty_short)
qed

theorem missing_indexes_exact_witness:
  "getMissingIndexes (map (chain_path sample_account External) [4, 1]) True =
    Some (filter (\<lambda>i. i \<notin> set [4, 1]) [0..Max (set [4, 1 :: int])])"
  by (rule missing_indexes_exact) (simp_all add: chain_path_parts [OF sample_bip44])

definition gap_storage :: storage where
  "gap_storage = the (generate_all sample_account [(0, External), (2, External)] empty_storage)"

theorem gap_throws_witness:
  "\<exists>s'. ensureAddressesToGapLimit sample_account gap_storage = Some (s', None) \<and>
    stored_at sample_account External s' (chain_path sample_account External 1) \<noteq> None"
proof -
  let ?p = "chain_path sample_account External 2" and ?ps = "type_paths (ac_walletId sample_account) External gap_storage"
  have result: "ensureAddressesToGapLimit sample_account gap_storage \<noteq> None"
      "stored_at sample_account External (fst (the (ensureAddressesToGapLimit sample_account gap_storage)))
        (chain_path sample_account External 1) \<noteq> None"
    by code_simp+
  then obtain s' outcome where s': "ensureAddressesToGapLimit sample_account gap_storage = Some (s', outcome)" by auto
  have "?p \<in> set ?ps" by code_simp
  moreover have "list_all (\<lambda>q. path_number q 3 = Some (ac_index sample_account) \<longrightarrow> path_number q 5 \<noteq> Some 1) ?ps" by code_simp
  moreover have "path_number ?p 3 = Some (ac_index sample_account)" "path_number ?p 5 = Some 2"
    by (simp_all add: chain_path_parts [OF sample_bip44])
  ultimately have "outcome = None" using s' by (intro gap_throws [where i = 1 and j = 2]) simp_all
  then show ?thesis using result(2) s' by auto
qed

end
