(* ===== verification/CoinSelection.thy ===== *)
theory CoinSelection
  imports Complex_Main WalletAddresses "HOL-Library.Char_ord"
begin

text \<open>
  Choosing what a payment spends: the unspent outputs of an account
  (\<open>packages/wallet-lib/src/types/Account/methods/getUTXOS.js\<close>), the estimate of size and fee and the
  two strategies (\<open>packages/wallet-lib/src/utils/coinSelections\<close>), and the arguments and the fee of
  \<open>Account/methods/createTransaction.js\<close>.

  Amounts are rational, since an estimated fee can be a fraction. lodash's \<open>sortBy\<close> and the length of
  the script dashcore-lib builds for an address are parameters; so are the sizes dashcore-lib estimates.
\<close>

section \<open>Unspent outputs of an account\<close>

record unspent_output =
  uo_txId :: string
  uo_outputIndex :: nat
  uo_satoshis :: rat
  uo_address :: string

definition COINBASE_MATURITY :: int where "COINBASE_MATURITY = 100"

text \<open>
  Whether an output is held back. A coinbase without a payload always is; \<open>coinbaseMaturity\<close> that is
  \<open>undefined\<close> makes the comparison false.
\<close>

definition held_back :: "storage \<Rightarrow> int option \<Rightarrow> int \<Rightarrow> string \<Rightarrow> bool" where
  "held_back s coinbaseMaturity currentBlockHeight txid =
    (case Option.bind (map_of (st_transactions s) txid) tx_coinbaseHeight of
       None \<Rightarrow> False
     | Some None \<Rightarrow> True
     | Some (Some payloadHeight) \<Rightarrow>
         (let transactionHeight = (case Option.bind (map_of (st_metadata s) txid) md_height of None \<Rightarrow> payloadHeight | Some h \<Rightarrow> h)
          in case coinbaseMaturity of None \<Rightarrow> False | Some maturity \<Rightarrow> transactionHeight + maturity > currentBlockHeight))"

definition own_addresses :: "account \<Rightarrow> storage \<Rightarrow> address_object list" where
  "own_addresses acct s =
    concat (map (\<lambda>t. map snd (filter (\<lambda>(k, ob). key_wallet k = ac_walletId acct \<and> key_type k = t \<and>
        (ac_walletType acct \<in> {HDPUBLIC, HDWALLET} \<longrightarrow> prefix (ac_BIP44PATH acct) (key_path k))) (st_addresses s)))
      [External, Internal, Misc])"

definition address_utxos :: "address_object \<Rightarrow> unspent_output list" where
  "address_utxos ob = map (\<lambda>((txid, i), out). \<lparr> uo_txId = txid, uo_outputIndex = i,
     uo_satoshis = rat_of_int (out_satoshis out), uo_address = ao_address ob \<rparr>) (ao_utxos ob)"

definition getUTXOS :: "account \<Rightarrow> int option \<Rightarrow> int \<Rightarrow> storage \<Rightarrow> unspent_output list" where
  "getUTXOS acct coinbaseMaturity currentBlockHeight s =
    sort_key (\<lambda>u. - uo_satoshis u)
      (filter (\<lambda>u. \<not> held_back s coinbaseMaturity currentBlockHeight (uo_txId u))
        (concat (map address_utxos (own_addresses acct s))))"

section \<open>Size and fee\<close>

datatype fee_category = INSTANT | ZERO | ECONOMIC | NORMAL | PRIORITY

record payment =
  pm_address :: string
  pm_satoshis :: rat

definition INSTANT_FEE_PER_INPUTS :: rat where "INSTANT_FEE_PER_INPUTS = 10000"

definition FEES :: "fee_category \<Rightarrow> rat" where
  "FEES c = (case c of ZERO \<Rightarrow> 0 | ECONOMIC \<Rightarrow> 500 | PRIORITY \<Rightarrow> 10000 | _ \<Rightarrow> 1000)"

definition varIntSizeBytesFromLength :: "nat \<Rightarrow> nat" where
  "varIntSizeBytesFromLength l =
    (if l \<ge> 0xfd then if l \<ge> 0xffff then if l \<ge> 0xffffffff then 9 else 5 else 3 else 1)"

text \<open>An input is the outpoint, 36 and 4 bytes, a script of 100 bytes with its length, and the sequence.\<close>

definition calculateInputsSize :: "nat \<Rightarrow> nat" where
  "calculateInputsSize inputs =
    varIntSizeBytesFromLength inputs + inputs * (36 + 4 + varIntSizeBytesFromLength 100 + 100 + 4)"

definition calculateOutputsSize :: "(string \<Rightarrow> nat) \<Rightarrow> payment list \<Rightarrow> nat" where
  "calculateOutputsSize script_length outputs =
    varIntSizeBytesFromLength (length outputs) +
    sum_list (map (\<lambda>out. let l = script_length (pm_address out) in 8 + varIntSizeBytesFromLength l + l) outputs)"

record estimator =
  te_inputs :: "unspent_output list"
  te_outputs :: "payment list"
  te_feeCategory :: fee_category

definition getSize :: "(string \<Rightarrow> nat) \<Rightarrow> estimator \<Rightarrow> nat" where
  "getSize script_length te =
    4 + calculateInputsSize (length (te_inputs te)) + calculateOutputsSize script_length (te_outputs te) + 16 + 4"

definition estimateFees :: "(string \<Rightarrow> nat) \<Rightarrow> estimator \<Rightarrow> rat" where
  "estimateFees script_length te =
    (if te_feeCategory te = INSTANT then of_nat (length (te_inputs te)) * INSTANT_FEE_PER_INPUTS
     else of_nat (getSize script_length te) / 1000 * FEES (te_feeCategory te))"

definition getInValue :: "estimator \<Rightarrow> rat" where
  "getInValue te = sum_list (map uo_satoshis (te_inputs te))"

definition getOutValue :: "estimator \<Rightarrow> rat" where
  "getOutValue te = sum_list (map pm_satoshis (te_outputs te))"

definition reduceFeeFromOutput :: "rat \<Rightarrow> estimator \<Rightarrow> estimator" where
  "reduceFeeFromOutput amount te =
    (case te_outputs te of
       [] \<Rightarrow> te
     | out # outs \<Rightarrow> te\<lparr>te_outputs := out\<lparr>pm_satoshis := pm_satoshis out - amount\<rparr> # outs\<rparr>)"

section \<open>Strategies\<close>

text \<open>Outputs are taken while what they sum up to is below the threshold.\<close>

fun accumulate :: "rat \<Rightarrow> rat \<Rightarrow> unspent_output list \<Rightarrow> rat \<times> unspent_output list" where
  "accumulate threshold pending [] = (pending, [])"
| "accumulate threshold pending (u # us) =
     (if pending < threshold
      then (case accumulate threshold (pending + uo_satoshis u) us of (got, taken) \<Rightarrow> (got, u # taken))
      else accumulate threshold pending us)"

definition simplyAccumulateUtxos :: "unspent_output list \<Rightarrow> rat \<Rightarrow> unspent_output list option" where
  "simplyAccumulateUtxos utxos thresholdSatoshis =
    (case accumulate thresholdSatoshis 0 utxos of (pending, taken) \<Rightarrow>
       if pending < thresholdSatoshis then None else Some taken)"

record selection =
  sl_utxos :: "unspent_output list"
  sl_outputs :: "payment list"
  sl_feeCategory :: fee_category
  sl_estimatedFee :: rat
  sl_utxosValue :: rat

type_synonym sort_by = "string list \<Rightarrow> unspent_output list \<Rightarrow> unspent_output list"

definition accumulator ::
    "string list \<Rightarrow> sort_by \<Rightarrow> (string \<Rightarrow> nat) \<Rightarrow> unspent_output list \<Rightarrow> payment list \<Rightarrow> bool \<Rightarrow> fee_category \<Rightarrow> selection option" where
  "accumulator iteratees sortBy script_length utxosList outputsList deductFee feeCategory =
    (let te = \<lparr> te_inputs = [], te_outputs = outputsList, te_feeCategory = feeCategory \<rparr>
     in map_option (\<lambda>taken.
          let te = te\<lparr>te_inputs := taken\<rparr>; estimatedFee = estimateFees script_length te;
              te = (if deductFee \<and> getInValue te < getOutValue te + estimatedFee
                    then reduceFeeFromOutput ((getOutValue te + estimatedFee) - getInValue te) te else te)
          in \<lparr> sl_utxos = te_inputs te, sl_outputs = te_outputs te, sl_feeCategory = feeCategory,
               sl_estimatedFee = estimatedFee, sl_utxosValue = getInValue te \<rparr>)
        (simplyAccumulateUtxos (sortBy iteratees utxosList) (getOutValue te)))"

definition simpleDescendingAccumulator ::
    "sort_by \<Rightarrow> (string \<Rightarrow> nat) \<Rightarrow> unspent_output list \<Rightarrow> payment list \<Rightarrow> bool \<Rightarrow> fee_category \<Rightarrow> selection option" where
  "simpleDescendingAccumulator = accumulator [''-satoshis'', ''txId'', ''outputIndex'']"

definition simpleAscendingAccumulator ::
    "sort_by \<Rightarrow> (string \<Rightarrow> nat) \<Rightarrow> unspent_output list \<Rightarrow> payment list \<Rightarrow> bool \<Rightarrow> fee_category \<Rightarrow> selection option" where
  "simpleAscendingAccumulator = accumulator [''-satoshis'', ''txid'', ''outputIndex'']"

datatype selection_error =
    EmptyUtxos | EmptyOutputs | CoinSelectionUnsufficientUTXOS rat rat | UnsufficientUtxoAmount

definition coinSelection ::
    "(unspent_output list \<Rightarrow> payment list \<Rightarrow> bool \<Rightarrow> fee_category \<Rightarrow> selection option) \<Rightarrow>
      unspent_output list \<Rightarrow> payment list \<Rightarrow> bool \<Rightarrow> fee_category \<Rightarrow> selection_error + selection" where
  "coinSelection strategy utxosList outputsList deductFee feeCategory =
    (if utxosList = [] then Inl EmptyUtxos
     else if outputsList = [] then Inl EmptyOutputs
     else
       let utxosValue = sum_list (map uo_satoshis utxosList); outputValue = sum_list (map pm_satoshis outputsList)
       in if utxosValue < outputValue then Inl (CoinSelectionUnsufficientUTXOS utxosValue outputValue)
          else case strategy utxosList outputsList deductFee feeCategory of
                 None \<Rightarrow> Inl UnsufficientUtxoAmount
               | Some selection \<Rightarrow> Inr selection)"

section \<open>Creating a transaction\<close>

text \<open>What a caller may give, and the outputs and flags \<open>createTransaction\<close> makes of it.\<close>

record transaction_options =
  to_recipients :: "(string option \<times> rat option) list option"
  to_recipient :: string
  to_amount :: "rat option"
  to_satoshis :: "rat option"
  to_deductFee :: "bool option"
  to_isInstantSend :: bool
  to_utxos :: "unspent_output list option"

datatype create_error =
    InvalidRecipient | AmountExpected | RecipientExpected | CreateTransactionError selection_error

definition DUFFS_PER_DASH :: rat where "DUFFS_PER_DASH = 100000000"

text \<open>\<open>toFixed(0)\<close> rounds half away from zero.\<close>

definition dashToDuffs :: "rat \<Rightarrow> rat" where
  "dashToDuffs dash =
    (let duffs = dash * DUFFS_PER_DASH
     in rat_of_int (if duffs < 0 then - round (- duffs) else round duffs))"

definition present_amount :: "rat option \<Rightarrow> bool" where
  "present_amount a \<longleftrightarrow> a \<noteq> None \<and> a \<noteq> Some 0"

definition transaction_outputs :: "transaction_options \<Rightarrow> create_error + payment list" where
  "transaction_outputs opts =
    (case to_recipients opts of
       Some recipients \<Rightarrow>
         (if list_all (\<lambda>(address, satoshis). address \<noteq> None \<and> satoshis \<noteq> None) recipients
          then Inr (map (\<lambda>(address, satoshis). \<lparr> pm_address = the address, pm_satoshis = the satoshis \<rparr>) recipients)
          else Inl InvalidRecipient)
     | None \<Rightarrow>
         (if \<not> present_amount (to_amount opts) \<and> \<not> present_amount (to_satoshis opts) then Inl AmountExpected
          else if to_recipient opts = [] then Inl RecipientExpected
          else Inr [\<lparr> pm_address = to_recipient opts,
                      pm_satoshis = (if present_amount (to_satoshis opts) then the (to_satoshis opts)
                        else dashToDuffs (the (to_amount opts))) \<rparr>]))"

definition select_for_transaction ::
    "(unspent_output list \<Rightarrow> payment list \<Rightarrow> bool \<Rightarrow> fee_category \<Rightarrow> selection option) \<Rightarrow>
      unspent_output list \<Rightarrow> transaction_options \<Rightarrow> create_error + selection" where
  "select_for_transaction strategy utxos opts =
    rbind (transaction_outputs opts) (\<lambda>outputs.
      case coinSelection strategy (case to_utxos opts of None \<Rightarrow> utxos | Some us \<Rightarrow> us) outputs
          (case to_deductFee opts of None \<Rightarrow> True | Some b \<Rightarrow> b) (if to_isInstantSend opts then INSTANT else NORMAL) of
        Inl e \<Rightarrow> Inl (CreateTransactionError e)
      | Inr selection \<Rightarrow> Inr selection)"

text \<open>The fee is raised by the share that the output for the change adds to the size.\<close>

definition finalFees :: "rat \<Rightarrow> nat \<Rightarrow> nat \<Rightarrow> int" where
  "finalFees estimatedFee preChangeSize changeSize =
    \<lceil>estimatedFee + (of_nat changeSize * estimatedFee) / of_nat preChangeSize\<rceil>"

section \<open>Broadcasting a transaction\<close>

text \<open>
  What the transaction library says of a transaction, the transport, which rejects by \<open>None\<close>, and the
  errors. Text is parsed first, and then broadcast without the options.
\<close>

record transaction_library =
  lib_parse :: "string \<Rightarrow> wallet_tx option"
  lib_isFullySigned :: "wallet_tx \<Rightarrow> bool"
  lib_estimateSize :: "wallet_tx \<Rightarrow> nat"
  lib_getFee :: "wallet_tx \<Rightarrow> int"

datatype broadcast_error =
    ValidTransportLayerRequired | InvalidRawTransaction string | TransactionNotSigned | ExpectedMinimumFee int int
  | SendFailed | AffectedInputsFailed

definition minRelayFee :: "nat \<Rightarrow> rat \<Rightarrow> int" where
  "minRelayFee bytes rate = \<lceil>of_nat bytes / 1000 * rate\<rceil>"

definition broadcast_instance ::
    "transaction_library \<Rightarrow> (wallet_tx \<Rightarrow> string option) \<Rightarrow> rat \<Rightarrow> string \<Rightarrow> wallet_tx \<Rightarrow> bool \<Rightarrow> storage \<Rightarrow>
      (broadcast_error + string) \<times> storage" where
  "broadcast_instance lib send minRelayFeeRate walletId t skipFeeValidation s =
    (let minFee = minRelayFee (lib_estimateSize lib t) minRelayFeeRate
     in if \<not> lib_isFullySigned lib t then (Inl TransactionNotSigned, s)
        else if lib_getFee lib t < minFee \<and> \<not> skipFeeValidation then (Inl (ExpectedMinimumFee minFee (lib_getFee lib t)), s)
        else
          case send t of
            None \<Rightarrow> (Inl SendFailed, s)
          | Some txid \<Rightarrow>
              (case impactAffectedInputs walletId t s of
                 None \<Rightarrow> (Inl AffectedInputsFailed, s)
               | Some s \<Rightarrow> (Inr txid, s)))"

definition broadcastTransaction ::
    "transaction_library \<Rightarrow> (wallet_tx \<Rightarrow> string option) option \<Rightarrow> rat \<Rightarrow> string \<Rightarrow> tx_argument \<Rightarrow> bool \<Rightarrow> storage \<Rightarrow>
      (broadcast_error + string) \<times> storage" where
  "broadcastTransaction lib transport minRelayFeeRate walletId arg skipFeeValidation s =
    (case transport of
       None \<Rightarrow> (Inl ValidTransportLayerRequired, s)
     | Some send \<Rightarrow>
         (case arg of
            Instance t \<Rightarrow> broadcast_instance lib send minRelayFeeRate walletId t skipFeeValidation s
          | Stringified rawtx \<Rightarrow>
              (case lib_parse lib rawtx of
                 None \<Rightarrow> (Inl (InvalidRawTransaction rawtx), s)
               | Some t \<Rightarrow> broadcast_instance lib send minRelayFeeRate walletId t False s)))"

section \<open>Covering the outputs\<close>

lemma accumulate_reached: "\<not> p < threshold \<Longrightarrow> accumulate threshold p us = (p, [])"
  by (induction us) simp_all

lemma accumulate_prefix:
  assumes "accumulate threshold p us = (got, taken)"
  shows "(\<exists>rest. us = taken @ rest) \<and> got = p + sum_list (map uo_satoshis taken) \<and>
    (got < threshold \<longrightarrow> taken = us) \<and> (taken \<noteq> [] \<longrightarrow> p + sum_list (map uo_satoshis (butlast taken)) < threshold)"
  using assms
proof (induction us arbitrary: p got taken)
  case (Cons u us)
  show ?case
  proof (cases "p < threshold")
    case True
    then obtain taken' where t: "accumulate threshold (p + uo_satoshis u) us = (got, taken')" "taken = u # taken'"
      using Cons.prems by (auto split: prod.splits)
    then show ?thesis using Cons.IH [OF t(1)] True by (auto simp: add.assoc)
  next
    case False
    then show ?thesis using Cons.prems accumulate_reached [of p threshold "u # us"] by auto
  qed
qed simp


lemma simplyAccumulate_Some:
  assumes "simplyAccumulateUtxos us threshold = Some taken"
  shows "(\<exists>rest. us = taken @ rest) \<and> threshold \<le> sum_list (map uo_satoshis taken) \<and>
    (taken = [] \<or> sum_list (map uo_satoshis (butlast taken)) < threshold)"
proof -
  obtain got where "accumulate threshold 0 us = (got, taken)" "\<not> got < threshold"
    using assms by (auto simp: simplyAccumulateUtxos_def split: prod.splits if_splits)
  then show ?thesis using accumulate_prefix [of threshold 0 us got taken] by auto
qed

lemma simplyAccumulate_None: "simplyAccumulateUtxos us threshold = None \<Longrightarrow> sum_list (map uo_satoshis us) < threshold"
  using accumulate_prefix [of threshold 0 us] by (auto simp: simplyAccumulateUtxos_def split: prod.splits if_splits)

definition permutes :: "sort_by \<Rightarrow> bool" where
  "permutes sortBy \<longleftrightarrow> (\<forall>names us. mset (sortBy names us) = mset us)"

definition built_in :: "sort_by \<Rightarrow> (string \<Rightarrow> nat) \<Rightarrow>
    (unspent_output list \<Rightarrow> payment list \<Rightarrow> bool \<Rightarrow> fee_category \<Rightarrow> selection option) set" where
  "built_in sortBy script_length =
    {simpleDescendingAccumulator sortBy script_length, simpleAscendingAccumulator sortBy script_length}"

lemma built_in_accumulator:
  "strategy \<in> built_in sortBy script_length \<Longrightarrow> \<exists>names. strategy = accumulator names sortBy script_length"
  by (auto simp: built_in_def simpleDescendingAccumulator_def simpleAscendingAccumulator_def)

lemma sum_permuted: "mset xs = mset ys \<Longrightarrow> sum_list (map f xs) = sum_list (map (f :: 'a \<Rightarrow> rat) ys)"
  by (metis mset_map sum_mset_sum_list)


text \<open>A selection fails only when the outputs together do not cover the payments.\<close>

lemma selection_ok_iff:
  assumes "permutes sortBy" "strategy \<in> built_in sortBy script_length" "utxos \<noteq> []" "outputs \<noteq> []"
  shows "is_ok (coinSelection strategy utxos outputs deductFee category) \<longleftrightarrow>
    sum_list (map pm_satoshis outputs) \<le> sum_list (map uo_satoshis utxos)"
proof -
  obtain names where names: "strategy = accumulator names sortBy script_length"
    using built_in_accumulator [OF assms(2)] by blast
  have "mset (sortBy names utxos) = mset utxos" using assms(1) by (simp add: permutes_def)
  note same = sum_permuted [OF this, of uo_satoshis]
  show ?thesis
  proof (cases "sum_list (map uo_satoshis utxos) < sum_list (map pm_satoshis outputs)")
    case True
    then show ?thesis using assms(3,4) by (simp add: coinSelection_def Let_def)
  next
    case False
    have "simplyAccumulateUtxos (sortBy names utxos) (sum_list (map pm_satoshis outputs)) \<noteq> None"
      using simplyAccumulate_None [of "sortBy names utxos" "sum_list (map pm_satoshis outputs)"] False same by auto
    then show ?thesis using False assms(3,4)
      by (auto simp: coinSelection_def Let_def names accumulator_def getOutValue_def)
  qed
qed

section \<open>What the sorting compares\<close>

text \<open>
  lodash's documentation of \<open>sortBy\<close>: a stable sort by the values of the named properties, compared in
  turn. A property that an output has not is \<open>undefined\<close>, which equals itself and comes last.
\<close>

datatype property = Number rat | Text string | Undefined

instantiation property :: linorder
begin

fun less_eq_property :: "property \<Rightarrow> property \<Rightarrow> bool" where
  "less_eq_property (Number a) (Number b) = (a \<le> b)"
| "less_eq_property (Number a) _ = True"
| "less_eq_property (Text a) (Number b) = False"
| "less_eq_property (Text a) (Text b) = (a \<le> b)"
| "less_eq_property (Text a) Undefined = True"
| "less_eq_property Undefined p = (p = Undefined)"

definition less_property :: "property \<Rightarrow> property \<Rightarrow> bool" where
  "less_property p q \<longleftrightarrow> p \<le> q \<and> \<not> q \<le> (p :: property)"

instance
proof
  fix x y z :: property
  show "(x < y) = (x \<le> y \<and> \<not> y \<le> x)" by (simp add: less_property_def)
  show "x \<le> x" by (cases x) simp_all
  show "x \<le> y \<Longrightarrow> y \<le> z \<Longrightarrow> x \<le> z" by (cases x; cases y; cases z) auto
  show "x \<le> y \<Longrightarrow> y \<le> x \<Longrightarrow> x = y" by (cases x; cases y) auto
  show "x \<le> y \<or> y \<le> x" by (cases x; cases y) auto
qed

end

definition output_property :: "string \<Rightarrow> unspent_output \<Rightarrow> property" where
  "output_property name u =
    (if name = ''txId'' then Text (uo_txId u)
     else if name = ''outputIndex'' then Number (of_nat (uo_outputIndex u))
     else if name = ''satoshis'' then Number (uo_satoshis u)
     else if name = ''address'' then Text (uo_address u)
     else Undefined)"

definition sorts_as_documented :: "sort_by \<Rightarrow> bool" where
  "sorts_as_documented sortBy \<longleftrightarrow>
    (\<forall>names us. sortBy names us = sort_key (\<lambda>u. map (\<lambda>n. output_property n u) names) us)"

lemma documented_permutes: "sorts_as_documented sortBy \<Longrightarrow> permutes sortBy"
  by (simp add: sorts_as_documented_def permutes_def)

lemma insort_key_map: "insort_key f (h x) (map h xs) = map h (insort_key (\<lambda>x. f (h x)) x xs)"
  by (induction xs) auto

lemma sort_key_map: "sort_key f (map h xs) = map h (sort_key (\<lambda>x. f (h x)) xs)"
  by (induction xs) (simp_all add: insort_key_map)

text \<open>
  Both strategies sort by a property \<open>-satoshis\<close> that no output has: amounts play no part in the order,
  and the strategy named ascending, which misspells \<open>txId\<close> as well, sorts by the index alone.
\<close>

theorem amounts_do_not_order:
  assumes "sorts_as_documented sortBy"
  shows "sortBy [''-satoshis'', ''txId'', ''outputIndex''] (map (\<lambda>u. u\<lparr>uo_satoshis := amount u\<rparr>) us) =
      map (\<lambda>u. u\<lparr>uo_satoshis := amount u\<rparr>) (sortBy [''-satoshis'', ''txId'', ''outputIndex''] us) \<and>
    sortBy [''-satoshis'', ''txid'', ''outputIndex''] us = sort_key uo_outputIndex us"
proof -
  have key: "(\<lambda>u. map (\<lambda>n. output_property n (u\<lparr>uo_satoshis := amount u\<rparr>)) [''-satoshis'', ''txId'', ''outputIndex'']) =
      (\<lambda>u. map (\<lambda>n. output_property n u) [''-satoshis'', ''txId'', ''outputIndex''])"
    by (simp add: fun_eq_iff output_property_def)
  have "insort_key (\<lambda>u. map (\<lambda>n. output_property n u) [''-satoshis'', ''txid'', ''outputIndex'']) u us = insort_key uo_outputIndex u us"
    for u us
    by (induction us) (auto simp: output_property_def less_property_def)
  then have "sort_key (\<lambda>u. map (\<lambda>n. output_property n u) [''-satoshis'', ''txid'', ''outputIndex'']) us = sort_key uo_outputIndex us"
    by (induction us) simp_all
  then show ?thesis using assms unfolding sorts_as_documented_def by (simp only: sort_key_map key)
qed


section \<open>What an account can pay\<close>

text \<open>The paths of a wallet lie under the path of the account that they name.\<close>

definition paths_agree :: "account \<Rightarrow> storage \<Rightarrow> bool" where
  "paths_agree acct s \<longleftrightarrow> list_all (\<lambda>k. key_wallet k = ac_walletId acct \<longrightarrow>
     (prefix (ac_BIP44PATH acct) (key_path k) \<longleftrightarrow> path_account (key_path k) = Some (ac_index acct))) (keys (st_addresses s))"

lemma digits_prefix:
  assumes "list_all is_digit ds" "list_all is_digit ds'" "prefix (ds @ [CHR 0x27]) (ds' @ CHR 0x27 # rest)"
  shows "ds = ds'"
proof -
  obtain r where "ds' @ CHR 0x27 # rest = ds @ CHR 0x27 # r" using assms(3) by (auto simp: prefix_def)
  then have "takeWhile is_digit (ds' @ CHR 0x27 # rest) = takeWhile is_digit (ds @ CHR 0x27 # r)" by simp
  then show ?thesis using assms(1,2) by (simp add: takeWhile_append list_all_iff is_digit_def split: if_splits)
qed

lemma int_string_inject: "0 \<le> i \<Longrightarrow> 0 \<le> j \<Longrightarrow> int_string i = int_string j \<Longrightarrow> i = j"
  using int_string_digits(2) [of i] int_string_digits(2) [of j] by simp

text \<open>So it is for the addresses of accounts on one network.\<close>

lemma chain_paths_agree:
  assumes "bip44_account acct" "bip44_account acct'" "0 \<le> index" "t \<in> {External, Internal}"
    and "\<exists>livenet. ac_BIP44PATH acct = getBIP44Path livenet (ac_index acct) \<and> ac_BIP44PATH acct' = getBIP44Path livenet (ac_index acct')"
  shows "prefix (ac_BIP44PATH acct) (chain_path acct' t index) \<longleftrightarrow> path_account (chain_path acct' t index) = Some (ac_index acct)"
proof -
  have nonneg: "0 \<le> ac_index acct" "0 \<le> ac_index acct'" using assms(1,2) by (simp_all add: bip44_account_def)
  have "path_account (chain_path acct' t index) = Some (ac_index acct')"
    using chain_path_parts(2) [OF assms(2-4)] split_chain_path [OF assms(2,3), of t] by (auto simp: path_account_def)
  moreover have "prefix (ac_BIP44PATH acct) (chain_path acct' t index) \<longleftrightarrow> ac_index acct = ac_index acct'"
  proof
    assume "prefix (ac_BIP44PATH acct) (chain_path acct' t index)"
    then have "prefix (int_string (ac_index acct) @ [CHR 0x27])
        (int_string (ac_index acct') @ CHR 0x27 # ''/'' @ (if t = External then ''0'' else ''1'') @ ''/'' @ int_string index)"
      using assms(5) by (auto simp: getBIP44Path_def chain_path_def)
    then show "ac_index acct = ac_index acct'"
      using digits_prefix int_string_digits(1) nonneg int_string_inject by blast
  next
    assume "ac_index acct = ac_index acct'"
    then show "prefix (ac_BIP44PATH acct) (chain_path acct' t index)" using assms(5) by (auto simp: chain_path_def)
  qed
  ultimately show ?thesis by auto
qed

lemma sum_by_type:
  "(\<Sum>ob \<leftarrow> concat (map (\<lambda>t. map snd (filter (\<lambda>(k, ob). P k \<and> key_type k = t \<and> Q k) xs)) [External, Internal, Misc]). f ob) =
    (\<Sum>ob \<leftarrow> map snd (filter (\<lambda>(k, ob). P k \<and> Q k) xs). f ob :: rat)"
proof (induction xs)
  case (Cons x xs)
  obtain k ob where x: "x = (k, ob)" by force
  show ?case using Cons by (cases "key_type k") (auto simp: x)
qed simp

lemma sum_of_int: "sum_list (map (\<lambda>x. rat_of_int (f x)) xs) = rat_of_int (sum_list (map f xs))"
  by (induction xs) simp_all

lemma sum_concat: "sum_list (map f (concat xss)) = sum_list (map (\<lambda>xs. sum_list (map f xs)) xss)" for f :: "'a \<Rightarrow> rat"
  by (induction xss) simp_all

lemma address_utxos_sum: "sum_list (map uo_satoshis (address_utxos ob)) = rat_of_int (utxo_sum ob)"
proof -
  have "map uo_satoshis (address_utxos ob) = map (\<lambda>u. rat_of_int (out_satoshis (snd u))) (ao_utxos ob)"
    by (auto simp: address_utxos_def)
  then show ?thesis by (simp add: utxo_sum_def sum_of_int)
qed

text \<open>Without coinbase transactions the unspent outputs of an account sum up to its confirmed balance.\<close>

lemma utxos_sum_balance:
  assumes "run_storage (ac_walletId acct) ops empty_storage = Some s" "ac_walletType acct = HDWALLET" "paths_agree acct s"
    and "list_all (\<lambda>(h, t). tx_coinbaseHeight t = None) (st_transactions s)"
  shows "sum_list (map uo_satoshis (getUTXOS acct maturity height s)) =
    rat_of_int (calculateDuffBalance (ac_walletId acct) (Some (ac_index acct)) Confirmed s)"
proof -
  let ?xs = "concat (map address_utxos (own_addresses acct s))"
  have "Option.bind (map_of (st_transactions s) h) tx_coinbaseHeight = None" for h
    using assms(4) by (cases "map_of (st_transactions s) h") (auto simp: list_all_iff dest!: map_of_SomeD)
  then have "\<not> held_back s maturity height h" for h by (simp add: held_back_def)
  then have "getUTXOS acct maturity height s = sort_key (\<lambda>u. - uo_satoshis u) ?xs" by (simp add: getUTXOS_def)
  then have "sum_list (map uo_satoshis (getUTXOS acct maturity height s)) = sum_list (map uo_satoshis ?xs)"
    using sum_permuted [of "sort_key (\<lambda>u. - uo_satoshis u) ?xs" ?xs uo_satoshis] by simp
  also have "\<dots> = (\<Sum>ob \<leftarrow> own_addresses acct s. rat_of_int (utxo_sum ob))"
    by (simp add: sum_concat address_utxos_sum o_def)
  also have "\<dots> = (\<Sum>ob \<leftarrow> account_addresses (ac_walletId acct) (Some (ac_index acct)) s. rat_of_int (utxo_sum ob))"
  proof -
    have "filter (\<lambda>(k, ob). key_wallet k = ac_walletId acct \<and> prefix (ac_BIP44PATH acct) (key_path k)) (st_addresses s) =
        filter (\<lambda>(k, ob). key_wallet k = ac_walletId acct \<and> path_account (key_path k) = Some (ac_index acct)) (st_addresses s)"
      using assms(3) by (intro filter_cong) (auto simp: paths_agree_def list_all_iff)
    then show ?thesis
      using assms(2) sum_by_type [where P = "\<lambda>k. key_wallet k = ac_walletId acct" and Q = "\<lambda>k. prefix (ac_BIP44PATH acct) (key_path k)"
          and xs = "st_addresses s"]
      by (simp add: own_addresses_def account_addresses_def)
  qed
  also have "\<dots> = rat_of_int (calculateDuffBalance (ac_walletId acct) (Some (ac_index acct)) Confirmed s)"
    using balance_is_sum [OF assms(1)] by (simp add: sum_of_int)
  finally show ?thesis .
qed


text \<open>The fee of the transaction covers the estimate, and exceeds the share for the change by less than one.\<close>

lemma finalFees_bounds:
  assumes "0 \<le> estimatedFee" "0 < preChangeSize"
  shows "estimatedFee \<le> of_int (finalFees estimatedFee preChangeSize changeSize)"
    "of_int (finalFees estimatedFee preChangeSize changeSize) <
      estimatedFee + of_nat changeSize * estimatedFee / of_nat preChangeSize + 1"
proof -
  let ?x = "estimatedFee + of_nat changeSize * estimatedFee / of_nat preChangeSize"
  have "0 \<le> of_nat changeSize * estimatedFee / of_nat preChangeSize" using assms by simp
  moreover have "?x \<le> of_int \<lceil>?x\<rceil>" "of_int \<lceil>?x\<rceil> < ?x + 1" by linarith+
  ultimately show "estimatedFee \<le> of_int (finalFees estimatedFee preChangeSize changeSize)"
    "of_int (finalFees estimatedFee preChangeSize changeSize) <
      estimatedFee + of_nat changeSize * estimatedFee / of_nat preChangeSize + 1"
    unfolding finalFees_def by linarith+
qed


section \<open>A broadcast spends what it sent\<close>

text \<open>
  C27. On a storage the wallet built, a broadcast that is refused or not sent changes nothing, one that was
  sent cannot fail any more, and every address loses exactly the outputs that the transaction spends.
\<close>

theorem broadcast_spends_iff_sent:
  assumes "run_storage w ops empty_storage = Some s"
    and "broadcastTransaction lib (Some send) rate w (Instance t) skip s = (result, s')"
  shows "(\<forall>e. result = Inl e \<longrightarrow> s' = s \<and>
      (\<not> lib_isFullySigned lib t \<or> lib_getFee lib t < minRelayFee (lib_estimateSize lib t) rate \<and> \<not> skip \<or> send t = None)) \<and>
    (\<forall>txid. result = Inr txid \<longrightarrow> send t = Some txid \<and>
      (\<forall>k. map_of (st_addresses s') k =
        map_option (fold (\<lambda>vin. spend_output (in_outpoint vin)) (tx_inputs t)) (map_of (st_addresses s) k)))"
proof -
  have spend: "spend_all t = fold (\<lambda>vin. spend_output (in_outpoint vin)) (tx_inputs t)"
    by (rule ext) (simp add: spend_all_def)
  obtain s1 where "impactAffectedInputs w t s = Some s1" "spent_in (spend_all t) s s1"
    using impact_spends [OF storage_ok_run [OF assms(1)]] by blast
  then show ?thesis using assms(2)
    by (auto simp: broadcastTransaction_def broadcast_instance_def Let_def spent_in_def spend split: if_splits option.splits)
qed

section \<open>Witnesses\<close>

definition sample_sort :: sort_by where
  "sample_sort names us = sort_key (\<lambda>u. map (\<lambda>n. output_property n u) names) us"

definition sample_utxos :: "unspent_output list" where
  "sample_utxos = [\<lparr> uo_txId = ''b'', uo_outputIndex = 0, uo_satoshis = 5000, uo_address = ''A'' \<rparr>,
     \<lparr> uo_txId = ''a'', uo_outputIndex = 0, uo_satoshis = 300, uo_address = ''A'' \<rparr>]"

definition sample_payments :: "payment list" where
  "sample_payments = [\<lparr> pm_address = ''P'', pm_satoshis = 400 \<rparr>]"

lemma sample_sort_documented: "sorts_as_documented sample_sort"
  by (simp add: sorts_as_documented_def sample_sort_def)

definition sample_strategy :: "unspent_output list \<Rightarrow> payment list \<Rightarrow> bool \<Rightarrow> fee_category \<Rightarrow> selection option" where
  "sample_strategy = simpleDescendingAccumulator sample_sort (\<lambda>_. 25)"

lemma sample_strategy_built_in: "sample_strategy \<in> built_in sample_sort (\<lambda>_. 25)"
  by (simp add: sample_strategy_def built_in_def)


theorem amounts_do_not_order_witness:
  "sample_sort [''-satoshis'', ''txId'', ''outputIndex''] (map (\<lambda>u. u\<lparr>uo_satoshis := 0\<rparr>) sample_utxos) =
    map (\<lambda>u. u\<lparr>uo_satoshis := 0\<rparr>) (sample_sort [''-satoshis'', ''txId'', ''outputIndex''] sample_utxos)"
  using amounts_do_not_order [OF sample_sort_documented, of "\<lambda>_. 0" sample_utxos] by blast


text \<open>A payment below the fee is reduced below zero.\<close>

lemma small_payment_negative:
  "case coinSelection sample_strategy [\<lparr> uo_txId = ''b'', uo_outputIndex = 0, uo_satoshis = 100, uo_address = ''A'' \<rparr>]
      [\<lparr> pm_address = ''P'', pm_satoshis = 100 \<rparr>] True NORMAL of
    Inl e \<Rightarrow> False | Inr sel \<Rightarrow> pm_satoshis (hd (sl_outputs sel)) = - 105"
  by code_simp

definition sample_library :: transaction_library where
  "sample_library = \<lparr> lib_parse = (\<lambda>_. None), lib_isFullySigned = (\<lambda>_. True), lib_estimateSize = (\<lambda>_. 200), lib_getFee = (\<lambda>_. 200) \<rparr>"

theorem broadcast_spends_iff_sent_witness:
  "\<exists>s'. broadcastTransaction sample_library (Some (\<lambda>t. Some (tx_hash t))) 1000 ''w'' (Instance spending_tx) False funded_storage =
    (Inr (tx_hash spending_tx), s') \<and>
    map_of (st_addresses s') sample_key =
      map_option (fold (\<lambda>vin. spend_output (in_outpoint vin)) (tx_inputs spending_tx)) (map_of (st_addresses funded_storage) sample_key)"
proof -
  have "run_storage ''w'' (take 2 sample_ops) empty_storage \<noteq> None" by code_simp
  then have run: "run_storage ''w'' (take 2 sample_ops) empty_storage = Some funded_storage" by (simp add: funded_storage_def)
  obtain result s' where b: "broadcastTransaction sample_library (Some (\<lambda>t. Some (tx_hash t))) 1000 ''w'' (Instance spending_tx) False
      funded_storage = (result, s')" by fastforce
  note spends = broadcast_spends_iff_sent [OF run b]
  have "result = Inr (tx_hash spending_tx)"
    using spends by (cases result) (auto simp: sample_library_def minRelayFee_def)
  then show ?thesis using spends b by auto
qed

end
