(* ===== verification/WalletSync.thy ===== *)
theory WalletSync
  imports Prelude "HOL-Library.Sublist"
begin

text \<open>
  How a wallet follows the chain: the queue that processes the chunks of the transaction stream
  (\<open>packages/wallet-lib/src/utils/Queue/Queue.js\<close>), the synchronisation of the past with its restarts
  (\<open>packages/wallet-lib/src/plugins/Workers/TransactionSyncStreamWorker/methods/startHistoricalSync.js\<close>), and
  the order plugins are injected in (\<open>packages/wallet-lib/src/types/Account/_sortPlugins.js\<close>).
\<close>

section \<open>The queue of jobs\<close>

text \<open>
  A job runs until its promise settles. \<open>q_listeners\<close> counts the handlers that wait \<open>once\<close> for the next
  job to be enqueued; a running job is marked when the handler that started it goes on after it, and
  then registers such a handler if the queue is empty. Between two events all microtasks have run.
\<close>

record 'j queue =
  q_jobs :: "'j list"
  q_running :: "('j \<times> bool) list"
  q_listeners :: nat
  q_started :: "'j list"
  q_errors :: nat

definition new_Queue :: "'j queue" where
  "new_Queue = \<lparr> q_jobs = [], q_running = [], q_listeners = 1, q_started = [], q_errors = 0 \<rparr>"

text \<open>\<open>processNext\<close> starts the first job, if there is one.\<close>

definition processNext :: "bool \<Rightarrow> 'j queue \<Rightarrow> 'j queue" where
  "processNext goes_on q =
    (case q_jobs q of
       [] \<Rightarrow> q
     | j # js \<Rightarrow> q\<lparr>q_jobs := js, q_running := q_running q @ [(j, goes_on)], q_started := q_started q @ [j]\<rparr>)"

definition listen_if_empty :: "'j queue \<Rightarrow> 'j queue" where
  "listen_if_empty q = (if q_jobs q = [] then q\<lparr>q_listeners := Suc (q_listeners q)\<rparr> else q)"

definition enqueueJob :: "'j \<Rightarrow> 'j queue \<Rightarrow> 'j queue" where
  "enqueueJob j q =
    (processNext False ^^ q_listeners q) (q\<lparr>q_jobs := q_jobs q @ [j], q_listeners := 0\<rparr>)"

text \<open>
  A job that is done is announced: the next job is started, or, when there is none, a handler waits for
  one. Then the handler that had started the job goes on. After a job that failed only the latter happens.
\<close>

definition processOnProcessedEvent :: "'j queue \<Rightarrow> 'j queue" where
  "processOnProcessedEvent q = (if q_jobs q = [] then listen_if_empty q else processNext True q)"

definition settle_job :: "bool \<Rightarrow> 'j \<Rightarrow> 'j queue \<Rightarrow> 'j queue" where
  "settle_job ok j q =
    (case find (\<lambda>r. fst r = j) (q_running q) of
       None \<Rightarrow> q
     | Some r \<Rightarrow>
         (let q = q\<lparr>q_running := remove1 r (q_running q)\<rparr>;
              q = (if ok then processOnProcessedEvent q else q\<lparr>q_errors := Suc (q_errors q)\<rparr>)
          in if snd r then listen_if_empty q else q))"

datatype 'j queue_event = Enqueue 'j | Done 'j | Fails 'j

fun queue_step :: "'j queue_event \<Rightarrow> 'j queue \<Rightarrow> 'j queue" where
  "queue_step (Enqueue j) q = enqueueJob j q"
| "queue_step (Done j) q = settle_job True j q"
| "queue_step (Fails j) q = settle_job False j q"

definition run_queue :: "'j queue_event list \<Rightarrow> 'j queue" where
  "run_queue events = fold queue_step events new_Queue"

fun enqueued :: "'j queue_event list \<Rightarrow> 'j list" where
  "enqueued [] = []"
| "enqueued (Enqueue j # es) = j # enqueued es"
| "enqueued (_ # es) = enqueued es"

section \<open>Order and progress of jobs\<close>

lemma enqueued_append [simp]: "enqueued (xs @ ys) = enqueued xs @ enqueued ys"
  by (induction xs rule: enqueued.induct) auto

lemma run_queue_snoc: "run_queue (es @ [e]) = queue_step e (run_queue es)"
  by (simp add: run_queue_def)

definition all_jobs :: "'j queue \<Rightarrow> 'j list" where
  "all_jobs q = q_started q @ q_jobs q"

lemma all_jobs_processNext [simp]: "all_jobs (processNext b q) = all_jobs q"
  by (simp add: all_jobs_def processNext_def split: list.split)

lemma all_jobs_power [simp]: "all_jobs ((processNext b ^^ n) q) = all_jobs q"
  by (induction n) simp_all

lemma all_jobs_settle [simp]: "all_jobs (settle_job ok j q) = all_jobs q"
  by (simp add: settle_job_def listen_if_empty_def processOnProcessedEvent_def processNext_def all_jobs_def Let_def
      split: option.split list.split)

text \<open>Jobs are started in the order they were enqueued, each once.\<close>

lemma jobs_in_order:
  "q_started (run_queue events) @ q_jobs (run_queue events) = enqueued events"
proof (induction events rule: rev_induct)
  case Nil
  then show ?case by (simp add: run_queue_def new_Queue_def)
next
  case (snoc e es)
  have "all_jobs (queue_step e (run_queue es)) = all_jobs (run_queue es) @ enqueued [e]"
    by (cases e) (simp_all add: enqueueJob_def, simp add: all_jobs_def)
  then show ?case using snoc by (simp add: run_queue_snoc all_jobs_def)
qed

definition queue_ok :: "'j queue \<Rightarrow> bool" where
  "queue_ok q \<longleftrightarrow> (q_running q = [] \<longrightarrow> q_jobs q = [] \<and> 0 < q_listeners q) \<and> (q_jobs q \<noteq> [] \<longrightarrow> q_listeners q = 0)"

lemma running_processNext:
  "q_running q \<noteq> [] \<Longrightarrow> q_running (processNext b q) \<noteq> []" "q_jobs q \<noteq> [] \<Longrightarrow> q_running (processNext b q) \<noteq> []"
  by (simp_all add: processNext_def split: list.split)

lemma power_processNext:
  "q_listeners ((processNext b ^^ n) q) = q_listeners q"
  "length (q_jobs ((processNext b ^^ n) q)) = length (q_jobs q) - n"
  "q_running q \<noteq> [] \<Longrightarrow> q_running ((processNext b ^^ n) q) \<noteq> []"
  by (induction n) (auto simp: processNext_def split: list.split)

lemma queue_ok_enqueue:
  assumes "queue_ok q"
  shows "queue_ok (enqueueJob j q)"
proof (cases "q_listeners q")
  case 0
  then show ?thesis using assms by (auto simp: queue_ok_def enqueueJob_def)
next
  case (Suc n)
  let ?q = "q\<lparr>q_jobs := q_jobs q @ [j], q_listeners := 0\<rparr>"
  have "q_running ((processNext False ^^ Suc n) ?q) \<noteq> []"
    unfolding funpow_Suc_right o_apply by (intro power_processNext(3) running_processNext(2)) simp
  then show ?thesis using power_processNext(1) [of "Suc n" False ?q] by (simp add: queue_ok_def enqueueJob_def Suc del: funpow.simps)
qed

lemma queue_ok_done:
  assumes "queue_ok q"
  shows "queue_ok (settle_job True j q)"
proof (cases "find (\<lambda>r. fst r = j) (q_running q)")
  case (Some r)
  then show ?thesis using assms
    by (cases "q_jobs q") (auto simp: settle_job_def queue_ok_def Let_def processOnProcessedEvent_def listen_if_empty_def processNext_def)
qed (simp add: settle_job_def assms)

text \<open>
  C29. When no job fails and none is running, every job that was enqueued has been started, in order.
\<close>

theorem no_job_left_behind:
  assumes "list_all (\<lambda>e. \<not> (\<exists>j. e = Fails j)) events" "q_running (run_queue events) = []"
  shows "q_started (run_queue events) = enqueued events"
proof -
  have "queue_ok (run_queue events)" using assms(1)
  proof (induction events rule: rev_induct)
    case Nil
    then show ?case by (simp add: run_queue_def new_Queue_def queue_ok_def)
  next
    case (snoc e es)
    then show ?case by (cases e) (simp_all add: run_queue_snoc queue_ok_enqueue queue_ok_done)
  qed
  then show ?thesis using assms(2) jobs_in_order [of events] by (simp add: queue_ok_def)
qed

text \<open>
  But jobs do not wait for each other: the handler that started the second of three waiting jobs goes
  on when the third is running, finds the queue empty, and a fourth job is started beside the third.
\<close>

theorem jobs_run_side_by_side:
  assumes "distinct [a, b, c, d]"
  shows "map fst (q_running (run_queue [Enqueue a, Enqueue b, Enqueue c, Done a, Done b, Enqueue d])) = [c, d]"
  using assms
  by (simp add: run_queue_def new_Queue_def enqueueJob_def processNext_def settle_job_def processOnProcessedEvent_def
      listen_if_empty_def)

text \<open>After a job that failed with nothing waiting, no later job is ever started.\<close>

theorem failed_job_stalls_queue:
  "q_started (run_queue ([Enqueue a, Fails a] @ map Enqueue js)) = [a] \<and>
    q_running (run_queue ([Enqueue a, Fails a] @ map Enqueue js)) = []"
proof -
  have start: "run_queue [Enqueue a, Fails a] = \<lparr> q_jobs = [], q_running = [], q_listeners = 0, q_started = [a], q_errors = 1 \<rparr>"
    by (simp add: run_queue_def new_Queue_def enqueueJob_def processNext_def settle_job_def)
  have "fold queue_step (map Enqueue js) \<lparr> q_jobs = ks, q_running = [], q_listeners = 0, q_started = [a], q_errors = 1 \<rparr> =
      \<lparr> q_jobs = ks @ js, q_running = [], q_listeners = 0, q_started = [a], q_errors = 1 \<rparr>" for ks
    by (induction js arbitrary: ks) (simp_all add: enqueueJob_def)
  then have "run_queue ([Enqueue a, Fails a] @ map Enqueue js) =
      \<lparr> q_jobs = js, q_running = [], q_listeners = 0, q_started = [a], q_errors = 1 \<rparr>"
    using start by (simp add: run_queue_def)
  then show ?thesis by simp
qed

section \<open>Synchronising the past\<close>

text \<open>
  Each attempt asks for the best height and opens a stream, which ends, with whether new addresses were
  generated meanwhile, or fails with a code; \<open>stopped\<close> says that the worker's stream was set to null by
  then. An attempt that ends with new addresses is followed by the next, and then sets its own height.
  The requests for the best height are taken to be answered.
\<close>

datatype stream_end = StreamEnds bool | StreamFails int bool

record sync_state =
  sy_height :: int
  sy_counts :: "int list"
  sy_errors :: "int list"

definition GRPC_RETRY_ERRORS :: "int list" where "GRPC_RETRY_ERRORS = [4, 14, 13, 1, 2]"

definition CANCELLED :: int where "CANCELLED = 1"

definition synced_height :: "int \<Rightarrow> int" where
  "synced_height h = (if h = 0 then 1 else h)"

text \<open>\<open>None\<close> is a synchronisation that is still under way after the given attempts.\<close>

fun startHistoricalSync :: "(int \<times> stream_end) list \<Rightarrow> sync_state \<Rightarrow> sync_state option" where
  "startHistoricalSync [] s = None"
| "startHistoricalSync ((bestBlockHeight, end_of_stream) # attempts) s =
     (let last = synced_height (sy_height s);
          count = (if bestBlockHeight - last = 0 then 1 else bestBlockHeight - last);
          s = s\<lparr>sy_counts := sy_counts s @ [count]\<rparr>
      in case end_of_stream of
           StreamEnds gapLimitIsReached \<Rightarrow>
             (if gapLimitIsReached
              then map_option (\<lambda>s. s\<lparr>sy_height := bestBlockHeight\<rparr>) (startHistoricalSync attempts s)
              else Some (s\<lparr>sy_height := bestBlockHeight\<rparr>))
         | StreamFails code stopped \<Rightarrow>
             (if code \<in> set GRPC_RETRY_ERRORS
              then if stopped \<and> code = CANCELLED then Some s else startHistoricalSync attempts s
              else Some (s\<lparr>sy_errors := sy_errors s @ [code], sy_height := bestBlockHeight\<rparr>)))"

text \<open>
  With new addresses at each attempt the height that is kept is that of the first attempt, and all the
  attempts ask for the whole range again.
\<close>

theorem first_height_is_kept:
  assumes "synced_height (sy_height s) < best" "list_all (\<lambda>b. best \<le> b) bests"
  shows "\<exists>s'. startHistoricalSync (map (\<lambda>b. (b, StreamEnds True)) (best # bests) @ [(final, StreamEnds False)]) s = Some s' \<and>
    sy_height s' = best \<and> sy_errors s' = sy_errors s \<and>
    sy_counts s' = sy_counts s @ map (\<lambda>b. b - synced_height (sy_height s)) (best # bests) @
      [if final = synced_height (sy_height s) then 1 else final - synced_height (sy_height s)]"
proof -
  have inner: "\<exists>s'. startHistoricalSync (map (\<lambda>b. (b, StreamEnds True)) bs @ [(final, StreamEnds False)]) t = Some s' \<and>
      sy_errors s' = sy_errors t \<and> sy_counts s' = sy_counts t @ map (\<lambda>b. b - synced_height (sy_height t)) bs @
        [if final = synced_height (sy_height t) then 1 else final - synced_height (sy_height t)]"
    if "list_all (\<lambda>b. synced_height (sy_height t) < b) bs" for bs t
    using that
  proof (induction bs arbitrary: t)
    case (Cons b bs)
    let ?t = "t\<lparr>sy_counts := sy_counts t @ [b - synced_height (sy_height t)]\<rparr>"
    have "list_all (\<lambda>b. synced_height (sy_height ?t) < b) bs" using Cons.prems by simp
    from Cons.IH [OF this] show ?case using Cons.prems by (auto simp: Let_def)
  qed (simp add: Let_def)
  let ?s = "s\<lparr>sy_counts := sy_counts s @ [best - synced_height (sy_height s)]\<rparr>"
  have "list_all (\<lambda>b. synced_height (sy_height ?s) < b) bests" using assms by (auto simp: list_all_iff)
  from inner [OF this] show ?thesis using assms(1) by (auto simp: Let_def)
qed

text \<open>A failure that is not retried is reported, and yet the best height counts as synchronised.\<close>

theorem failed_sync_counts_as_synced:
  assumes "code \<notin> set GRPC_RETRY_ERRORS"
  shows "\<exists>s'. startHistoricalSync [(best, StreamFails code stopped)] s = Some s' \<and> sy_height s' = best \<and>
    sy_errors s' = sy_errors s @ [code]"
  using assms by (simp add: Let_def)

section \<open>The order of plugins\<close>

text \<open>
  A user's plugin is placed before the first of the plugins it wants to be before, else after all those
  it wants to be after, else at the end. Dependencies must be in the list when it is its turn.
\<close>

record plugin =
  pl_name :: string
  pl_before :: "string list"
  pl_after :: "string list"

datatype plugin_error = DependencyNotFound string | ConflictingOrder string

fun findIndex :: "string \<Rightarrow> plugin list \<Rightarrow> nat option" where
  "findIndex n [] = None"
| "findIndex n (p # ps) = (if pl_name p = n then Some 0 else map_option Suc (findIndex n ps))"

text \<open>
  The index before which to inject stays that of the first dependency: the test that should lower it
  compares the array of two names or more with a number, which is false.
\<close>

fun injectionBeforeIndex :: "plugin list \<Rightarrow> nat option \<Rightarrow> string list \<Rightarrow> plugin_error + nat option" where
  "injectionBeforeIndex ps i [] = Inr i"
| "injectionBeforeIndex ps i (d # ds) =
     (case findIndex d ps of
        None \<Rightarrow> Inl (DependencyNotFound d)
      | Some beforePluginIndex \<Rightarrow>
          injectionBeforeIndex ps (case i of None \<Rightarrow> Some beforePluginIndex | Some j \<Rightarrow> Some j) ds)"

fun injectionAfterIndex :: "plugin list \<Rightarrow> nat option \<Rightarrow> string list \<Rightarrow> plugin_error + nat option" where
  "injectionAfterIndex ps i [] = Inr i"
| "injectionAfterIndex ps i (d # ds) =
     (case findIndex d ps of
        None \<Rightarrow> Inl (DependencyNotFound d)
      | Some afterPluginIndex \<Rightarrow>
          injectionAfterIndex ps
            (case i of
               None \<Rightarrow> Some (afterPluginIndex + 1)
             | Some j \<Rightarrow> if j < afterPluginIndex + 1 then Some (afterPluginIndex + 1) else Some j) ds)"

definition injectionIndex :: "plugin \<Rightarrow> plugin list \<Rightarrow> plugin_error + nat" where
  "injectionIndex p ps =
    (case injectionBeforeIndex ps None (pl_before p) of
       Inl e \<Rightarrow> Inl e
     | Inr before \<Rightarrow>
         (case injectionAfterIndex ps None (pl_after p) of
            Inl e \<Rightarrow> Inl e
          | Inr after_index \<Rightarrow>
              (case (before, after_index) of
                 (Some b, Some a) \<Rightarrow> if b < a then Inl (ConflictingOrder (pl_name p)) else Inr b
               | (Some b, None) \<Rightarrow> Inr b
               | (None, Some a) \<Rightarrow> Inr a
               | (None, None) \<Rightarrow> Inr (length ps))))"

fun sortUserPlugins :: "plugin list \<Rightarrow> plugin list \<Rightarrow> plugin_error + plugin list" where
  "sortUserPlugins ps [] = Inr ps"
| "sortUserPlugins ps (p # users) =
     (case injectionIndex p ps of
        Inl e \<Rightarrow> Inl e
      | Inr i \<Rightarrow> sortUserPlugins (take i ps @ p # drop i ps) users)"

definition system_plugin :: "string \<Rightarrow> plugin" where
  "system_plugin n = \<lparr> pl_name = n, pl_before = [], pl_after = [] \<rparr>"

definition defaultPlugins :: "bool \<Rightarrow> bool \<Rightarrow> bool \<Rightarrow> plugin list" where
  "defaultPlugins injectDefaultPlugins offlineMode hd_wallet =
    (if injectDefaultPlugins \<and> \<not> offlineMode
     then map system_plugin ([''ChainPlugin'', ''TransactionSyncStreamWorker''] @
       (if hd_wallet then [''IdentitySyncWorker''] else []))
     else [])"

definition sortPlugins :: "bool \<Rightarrow> bool \<Rightarrow> bool \<Rightarrow> plugin list \<Rightarrow> plugin_error + plugin list" where
  "sortPlugins injectDefaultPlugins offlineMode hd_wallet = sortUserPlugins (defaultPlugins injectDefaultPlugins offlineMode hd_wallet)"

definition plugin_precedes :: "plugin list \<Rightarrow> string \<Rightarrow> string \<Rightarrow> bool" where
  "plugin_precedes ps m n = subseq [m, n] (map pl_name ps)"

lemma findIndex_Some:
  "findIndex n ps = Some i \<Longrightarrow> i < length ps \<and> pl_name (ps ! i) = n"
  by (induction n ps arbitrary: i rule: findIndex.induct) (auto split: if_splits)

lemma injectionBeforeIndex_Inr:
  "injectionBeforeIndex ps i ds = Inr r \<Longrightarrow>
    (case i of Some j \<Rightarrow> r = Some j | None \<Rightarrow> (case ds of [] \<Rightarrow> r = None | d # _ \<Rightarrow> r \<noteq> None \<and> r = findIndex d ps))"
  by (induction ps i ds rule: injectionBeforeIndex.induct) (auto split: option.splits list.splits)

lemma injectionAfterIndex_Inr:
  "injectionAfterIndex ps i ds = Inr r \<Longrightarrow>
    (r = None \<longleftrightarrow> i = None \<and> ds = []) \<and>
    (\<forall>a. r = Some a \<longrightarrow> (\<forall>j. i = Some j \<longrightarrow> j \<le> a) \<and> (\<forall>d\<in>set ds. \<exists>k. findIndex d ps = Some k \<and> k < a) \<and>
      (i = Some a \<or> (\<exists>d\<in>set ds. \<exists>k. findIndex d ps = Some k \<and> a = Suc k)))"
proof (induction ps i ds rule: injectionAfterIndex.induct)
  case (2 ps i d ds)
  then show ?case
    by (cases "findIndex d ps"; cases i) (fastforce split: if_splits)+
qed auto

lemma subseq_pair:
  assumes "m \<in> set xs" "n \<in> set ys"
  shows "subseq [m, n] (xs @ ys)"
  using list_emb_append_mono [of "(=)" "[m]" xs "[n]" ys] assms by (simp add: subseq_singleton_left)

lemma subseq_insert: "subseq xs (take i xs @ x # drop i xs)"
proof -
  have "subseq (take i xs @ drop i xs) (take i xs @ x # drop i xs)"
    by (rule list_emb_append_mono) (simp_all add: list_emb_Cons)
  then show ?thesis by simp
qed

lemma findIndex_in_take: "findIndex n ps = Some k \<Longrightarrow> k < i \<Longrightarrow> n \<in> set (take i (map pl_name ps))"
  using findIndex_Some [of n ps k] by (auto simp: set_conv_nth take_map [symmetric] intro!: exI [of _ k])

lemma findIndex_in_drop: "findIndex n ps = Some i \<Longrightarrow> n \<in> set (drop i (map pl_name ps))"
  using findIndex_Some [of n ps i] by (metis Cons_nth_drop_Suc length_map list.set_intros(1) nth_map)

lemma injected_in_order:
  assumes "injectionIndex p ps = Inr i"
  shows "(\<forall>d\<in>set (pl_after p). plugin_precedes (take i ps @ p # drop i ps) d (pl_name p)) \<and>
    (\<forall>d ds. pl_before p = d # ds \<longrightarrow> plugin_precedes (take i ps @ p # drop i ps) (pl_name p) d)"
proof -
  obtain b a where b: "injectionBeforeIndex ps None (pl_before p) = Inr b"
    and a: "injectionAfterIndex ps None (pl_after p) = Inr a"
    using assms by (auto simp: injectionIndex_def split: sum.splits)
  note before = injectionBeforeIndex_Inr [OF b] and after = injectionAfterIndex_Inr [OF a]
  have i: "b = Some i \<or> b = None" "a \<noteq> None \<longrightarrow> the a \<le> i"
    using assms by (auto simp: injectionIndex_def a b split: option.splits if_splits)
  have "plugin_precedes (take i ps @ p # drop i ps) d (pl_name p)" if d: "d \<in> set (pl_after p)" for d
  proof -
    have "a \<noteq> None" using after d by auto
    then obtain x where x: "a = Some x" by blast
    have "\<forall>d\<in>set (pl_after p). \<exists>k. findIndex d ps = Some k \<and> k < x" using conjunct2 [OF after] x by simp
    then obtain k where "findIndex d ps = Some k" "k < x" using d by blast
    then have "d \<in> set (take i (map pl_name ps))" using i(2) x by (intro findIndex_in_take [of _ _ k]) auto
    then show ?thesis unfolding plugin_precedes_def map_append by (intro subseq_pair) (simp_all add: take_map)
  qed
  moreover have "plugin_precedes (take i ps @ p # drop i ps) (pl_name p) d" if "pl_before p = d # ds" for d ds
  proof -
    have "findIndex d ps = Some i" using before that i(1) by auto
    then have "d \<in> set (drop i (map pl_name ps))" by (rule findIndex_in_drop)
    then show ?thesis
      using subseq_pair [of "pl_name p" "map pl_name (take i ps) @ [pl_name p]" d "map pl_name (drop i ps)"]
      by (simp add: plugin_precedes_def drop_map)
  qed
  ultimately show ?thesis by blast
qed

lemma plugins_kept: "sortUserPlugins ps users = Inr qs \<Longrightarrow> subseq (map pl_name ps) (map pl_name qs)"
proof (induction ps users rule: sortUserPlugins.induct)
  case (2 ps p users)
  then obtain i where "subseq (map pl_name (take i ps @ p # drop i ps)) (map pl_name qs)"
    by (auto split: sum.splits)
  then show ?case using subseq_insert [of "map pl_name ps" i "pl_name p"]
    by (metis (no_types, lifting) drop_map list.simps(9) map_append subseq_order.trans take_map)
qed simp

lemma plugins_in_order:
  assumes "sortUserPlugins ps users = Inr qs" "p \<in> set users"
  shows "(\<forall>d\<in>set (pl_after p). plugin_precedes qs d (pl_name p)) \<and>
    (\<forall>d ds. pl_before p = d # ds \<longrightarrow> plugin_precedes qs (pl_name p) d)"
  using assms
proof (induction ps users rule: sortUserPlugins.induct)
  case (2 ps u users)
  then obtain i where i: "injectionIndex u ps = Inr i" "sortUserPlugins (take i ps @ u # drop i ps) users = Inr qs"
    by (auto split: sum.splits)
  show ?case
  proof (cases "p \<in> set users")
    case True
    then show ?thesis using 2 i by simp
  next
    case False
    then show ?thesis using 2(3) injected_in_order [OF i(1)] plugins_kept [OF i(2)]
      by (auto simp: plugin_precedes_def intro: subseq_order.trans)
  qed
qed simp

text \<open>
  Accepted plugins: each comes after all the plugins it wants to be after and before the first of those
  it wants to be before, and the plugins of the system keep their order.
\<close>

theorem plugins_respect_dependencies:
  assumes "sortPlugins d off hd_wallet users = Inr qs" "p \<in> set users"
  shows "(\<forall>m\<in>set (pl_after p). plugin_precedes qs m (pl_name p)) \<and>
    (\<forall>m ms. pl_before p = m # ms \<longrightarrow> plugin_precedes qs (pl_name p) m) \<and>
    subseq (map pl_name (defaultPlugins d off hd_wallet)) (map pl_name qs)"
  using assms plugins_in_order [of "defaultPlugins d off hd_wallet" users qs p] plugins_kept [of "defaultPlugins d off hd_wallet" users qs]
  by (simp add: sortPlugins_def)

text \<open>But a plugin that wants to be before two others comes after one when that one is named last.\<close>

lemma second_before_is_ignored:
  "sortPlugins True False False [\<lparr> pl_name = ''Mine'', pl_before = [''TransactionSyncStreamWorker'', ''ChainPlugin''], pl_after = [] \<rparr>] =
    Inr [system_plugin ''ChainPlugin'', \<lparr> pl_name = ''Mine'', pl_before = [''TransactionSyncStreamWorker'', ''ChainPlugin''], pl_after = [] \<rparr>,
      system_plugin ''TransactionSyncStreamWorker'']"
  by (simp add: sortPlugins_def defaultPlugins_def system_plugin_def injectionIndex_def)

section \<open>Witnesses\<close>

definition sample_plugin :: plugin where
  "sample_plugin = \<lparr> pl_name = ''Mine'', pl_before = [''TransactionSyncStreamWorker''], pl_after = [''ChainPlugin''] \<rparr>"

definition sample_order :: "plugin list" where
  "sample_order = [system_plugin ''ChainPlugin'', sample_plugin, system_plugin ''TransactionSyncStreamWorker'']"

theorem plugins_respect_dependencies_witness:
  "sortPlugins True False False [sample_plugin] = Inr sample_order \<and>
    plugin_precedes sample_order ''ChainPlugin'' ''Mine'' \<and>
    plugin_precedes sample_order ''Mine'' ''TransactionSyncStreamWorker''"
proof -
  have sorted: "sortPlugins True False False [sample_plugin] = Inr sample_order"
    by (simp add: sortPlugins_def defaultPlugins_def system_plugin_def injectionIndex_def sample_plugin_def sample_order_def)
  from plugins_respect_dependencies [OF this, of sample_plugin]
  show ?thesis using sorted by (simp add: sample_plugin_def)
qed

theorem no_job_left_behind_witness:
  "q_started (run_queue [Enqueue (1::nat), Enqueue 2, Done 1, Done 2]) = [1, 2]"
  using no_job_left_behind [of "[Enqueue (1::nat), Enqueue 2, Done 1, Done 2]"]
  by (simp add: run_queue_def new_Queue_def enqueueJob_def processNext_def settle_job_def processOnProcessedEvent_def
      listen_if_empty_def)

theorem jobs_run_side_by_side_witness:
  "map fst (q_running (run_queue [Enqueue (1::nat), Enqueue 2, Enqueue 3, Done 1, Done 2, Enqueue 4])) = [3, 4]"
  by (rule jobs_run_side_by_side) simp

theorem first_height_is_kept_witness:
  "\<exists>s'. startHistoricalSync [(10, StreamEnds True), (12, StreamEnds False)] \<lparr> sy_height = 0, sy_counts = [], sy_errors = [] \<rparr> = Some s' \<and>
    sy_height s' = 10 \<and> sy_errors s' = [] \<and> sy_counts s' = [9, 11]"
  using first_height_is_kept [of "\<lparr> sy_height = 0, sy_counts = [], sy_errors = [] \<rparr>" 10 "[]" 12]
  by (simp add: synced_height_def)

theorem failed_sync_counts_as_synced_witness:
  "\<exists>s'. startHistoricalSync [(10, StreamFails 3 False)] \<lparr> sy_height = 0, sy_counts = [], sy_errors = [] \<rparr> = Some s' \<and>
    sy_height s' = 10 \<and> sy_errors s' = [3]"
  using failed_sync_counts_as_synced [of 3 10 False "\<lparr> sy_height = 0, sy_counts = [], sy_errors = [] \<rparr>"]
  by (simp add: GRPC_RETRY_ERRORS_def)

end
