(* ===== verification/DocumentFactory.thy ===== *)
theory DocumentFactory
  imports DataContractValidation "HOL-Library.Sublist"
begin

text \<open>
  Documents on the side of the client: \<open>js-dpp/lib/document\<close>. Which properties of a document are
  identifiers (\<open>dataContract/getBinaryPropertiesFromSchema.js\<close>), a document and its setters
  (\<open>Document.js\<close>), its validation, and the factory that creates documents and makes a batch of them
  (\<open>DocumentFactory.js\<close>), down to the objects that are sent to Drive.

  An identifier is the list of its bytes, like the buffer it is made from. \<open>lodash.get\<close> and \<open>lodash.set\<close>
  are parameters, as are time and entropy.
\<close>

section \<open>Binary properties\<close>

text \<open>
  \<open>Object.keys\<close> with the properties. What is neither object nor array has no property that is an
  object, and contributes nothing below.
\<close>

definition object_entries :: "js \<Rightarrow> dpp_error + (string \<times> js) list" where
  "object_entries v =
     (case v of
        JUndefined \<Rightarrow> Inl JsTypeError
      | JNull \<Rightarrow> Inl JsTypeError
      | JObj o' \<Rightarrow> Inr (js_entries o')
      | JArr xs \<Rightarrow> Inr (map (\<lambda>(i, x). (nat_digits i, x)) (enumerate 0 xs))
      | _ \<Rightarrow> Inr [])"

definition js_has_own :: "js \<Rightarrow> string \<Rightarrow> bool" where
  "js_has_own v name = (case v of JObj o' \<Rightarrow> map_of o' name \<noteq> None | _ \<Rightarrow> False)"

definition sub_path :: "string \<Rightarrow> string \<Rightarrow> string" where
  "sub_path path name = (if path = [] then name else path @ ''.'' @ name)"

definition item_path :: "string \<Rightarrow> nat \<Rightarrow> string" where
  "item_path path i = path @ ''['' @ nat_digits i @ '']''"

lemma js_member_smaller:
  "js_member v name = Inr x \<Longrightarrow> x \<noteq> JUndefined \<Longrightarrow> name \<notin> set object_prototype_names \<Longrightarrow> size x < size v"
proof (cases v)
  case (JObj o')
  assume "js_member v name = Inr x" "x \<noteq> JUndefined" "name \<notin> set object_prototype_names"
  then have "map_of o' name = Some x" using JObj by (auto simp: js_member_def Let_def split: option.splits)
  then have "(name, x) \<in> set o'" by (rule map_of_SomeD)
  then have "size_prod (\<lambda>_. 0) size (name, x) \<le> size_list (size_prod (\<lambda>_. 0) size) o'"
    by (rule size_list_estimation') simp
  then show ?thesis using JObj by simp
qed (auto simp: js_member_def Let_def)

lemma object_entries_smaller:
  assumes "object_entries v = Inr es" "(name, p) \<in> set es"
  shows "size p < size v"
proof (cases v)
  case (JObj o')
  then have "(name, p) \<in> set o'" using assms by (auto simp: object_entries_def)
  then have "size_prod (\<lambda>_. 0) size (name, p) \<le> size_list (size_prod (\<lambda>_. 0) size) o'"
    by (rule size_list_estimation') simp
  then show ?thesis using JObj by simp
next
  case (JArr xs)
  then have "p \<in> set xs" using assms by (auto simp: object_entries_def in_set_enumerate_eq)
  then show ?thesis using JArr by (auto simp: size_list_estimation' less_Suc_eq_le)
qed (use assms in \<open>auto simp: object_entries_def\<close>)

lemma schema_entries_smaller:
  assumes "js_member v ''properties'' = Inr ps" "object_entries ps = Inr es" "(name, p) \<in> set es"
  shows "size p < size v"
proof -
  have "ps \<noteq> JUndefined" using assms(2) by (auto simp: object_entries_def)
  then have "size ps < size v" using js_member_smaller [OF assms(1)] by (simp add: object_prototype_names_def)
  then show ?thesis using object_entries_smaller [OF assms(2,3)] by simp
qed

lemma items_smaller: "js_member v ''items'' = Inr items \<Longrightarrow> items = JUndefined \<or> size items < size v"
  using js_member_smaller [of v "''items''" items] by (auto simp: object_prototype_names_def)

text \<open>
  What one property at a path adds to the map: the properties below an object, below the objects of an
  array, below the items of a tuple, and itself if it is a byte array. Later entries replace earlier ones.
\<close>

function property_map :: "string \<Rightarrow> js \<Rightarrow> dpp_error + (string \<times> js) list" where
  "property_map path property =
     rbind (js_member property ''type'') (\<lambda>type.
     rbind (js_member property ''items'') (\<lambda>items.
     rbind (if type = JStr ''object'' \<and> js_has_own property ''properties''
            then rbind (js_member property ''properties'') (\<lambda>ps.
                 rbind (object_entries ps) (\<lambda>es.
                   rfold (\<lambda>m e. case e of (name, p) \<Rightarrow>
                     rbind (property_map (sub_path path name) p) (\<lambda>m'. Inr (set_all m' m))) [] es))
            else Inr []) (\<lambda>m.
     rbind (if type = JStr ''array'' \<and> js_truthy items
            then rbind (js_member items ''type'') (\<lambda>item_type.
              if item_type = JStr ''object'' \<and> js_has_own items ''properties''
              then rbind (js_member items ''properties'') (\<lambda>ps.
                   rbind (object_entries ps) (\<lambda>es.
                     rfold (\<lambda>m e. case e of (name, p) \<Rightarrow>
                       rbind (property_map (sub_path path name) p) (\<lambda>m'. Inr (set_all m' m))) m es))
              else Inr m)
            else Inr m) (\<lambda>m.
     rbind (case items of
              JArr xs \<Rightarrow>
                (if type = JStr ''array''
                 then rfold (\<lambda>m e. case e of (i, p) \<Rightarrow>
                     rbind (property_map (item_path path i) p) (\<lambda>m'. Inr (set_all m' m))) m (enumerate 0 xs)
                 else Inr m)
            | _ \<Rightarrow> Inr m) (\<lambda>m.
       Inr (if js_has_own property ''byteArray'' then AList.update path property m else m))))))"
  by pat_completeness auto
termination
proof (relation "measure (\<lambda>(path, property). size property)", goal_cases)
  case (2 path property type items ps es u y name p)
  then show ?case by (auto dest: schema_entries_smaller)
next
  case (3 path property type items m item_type ps es u y name p)
  then have "size p < size items" by (auto dest: schema_entries_smaller)
  then show ?case using items_smaller [of property items] 3 by (auto simp: js_member_def)
next
  case (4 path property type items m m' xs u y i p)
  then have "p \<in> set xs" "items = JArr xs" by (auto simp: in_set_enumerate_eq)
  then have "size p < size items" by (auto simp: size_list_estimation' less_Suc_eq_le)
  then show ?case using items_smaller [of property items] 4 by auto
qed simp

declare property_map.simps [simp del]

definition getBinaryPropertiesFromSchema :: "js \<Rightarrow> dpp_error + (string \<times> js) list" where
  "getBinaryPropertiesFromSchema documentSchema =
     rbind (js_member documentSchema ''properties'') (\<lambda>properties.
       if \<not> js_truthy properties then Inr []
       else rbind (object_entries properties) (\<lambda>es.
         rfold (\<lambda>m e. case e of (name, p) \<Rightarrow> rbind (property_map name p) (\<lambda>m'. Inr (set_all m' m))) [] es))"

section \<open>What the client relies on\<close>

text \<open>
  \<open>cl_get\<close> and \<open>cl_set\<close> are \<open>lodash.get\<close> and \<open>lodash.set\<close>; \<open>cl_schema\<close> says what ajv finds wrong with a
  document, given the contract enriched with the base schema and the type.
\<close>

record client_env =
  cl_env :: env
  cl_contracts :: contract_env
  cl_get :: "js \<Rightarrow> string \<Rightarrow> js"
  cl_set :: "js \<Rightarrow> string \<Rightarrow> js \<Rightarrow> js"
  cl_schema :: "enriched_contract \<Rightarrow> string \<Rightarrow> raw_transition \<Rightarrow> string list"
  cl_protocolVersion :: int

definition IDENTIFIER_MEDIA_TYPE :: string where
  "IDENTIFIER_MEDIA_TYPE = ''application/x.dash.dpp.identifier''"

definition getBinaryProperties :: "data_contract \<Rightarrow> string \<Rightarrow> dpp_error + (string \<times> js) list" where
  "getBinaryProperties c type =
     rbind (DataContract_getDocumentSchema c type) (\<lambda>s. getBinaryPropertiesFromSchema (cs_schema s))"

definition identifier_paths :: "data_contract \<Rightarrow> string \<Rightarrow> dpp_error + string list" where
  "identifier_paths c type =
     rbind (getBinaryProperties c type) (\<lambda>m.
       Inr (map fst (filter (\<lambda>(path, property). case property of
           JObj o' \<Rightarrow> map_of o' ''contentMediaType'' = Some (JStr IDENTIFIER_MEDIA_TYPE) | _ \<Rightarrow> False) (js_entries m))))"

section \<open>A document\<close>

text \<open>The fields that the raw document lacks are \<open>undefined\<close>; numbers are numbers.\<close>

record client_document =
  cd_protocolVersion :: int
  cd_id :: "buffer option"
  cd_type :: string
  cd_dataContractId :: "buffer option"
  cd_ownerId :: "buffer option"
  cd_revision :: int
  cd_createdAt :: "int option"
  cd_updatedAt :: "int option"
  cd_data :: "(string \<times> js) list"
  cd_entropy :: "buffer option"
  cd_dataContract :: data_contract

text \<open>
  \<open>set\<close>: the value becomes an identifier where the path is one, and so do the identifiers below it. What is
  below is found by whether the path of the identifier contains the given path anywhere.
\<close>

definition set_identifier :: "client_env \<Rightarrow> string \<Rightarrow> js \<Rightarrow> js \<Rightarrow> string \<Rightarrow> dpp_error + js" where
  "set_identifier ce path value clonedValue propertyPath =
     (if path = propertyPath then rbind (Identifier_from (cl_contracts ce) value) (\<lambda>b. Inr (JBuf b))
      else if sublist path propertyPath then
        (let partialPath = drop (length path + 1) propertyPath; buffer = cl_get ce clonedValue partialPath in
         if buffer = JUndefined then Inr clonedValue
         else rbind (Identifier_from (cl_contracts ce) buffer) (\<lambda>b. Inr (cl_set ce clonedValue partialPath (JBuf b))))
      else Inr clonedValue)"

definition set_property :: "client_env \<Rightarrow> (string \<times> js) list \<Rightarrow> string \<Rightarrow> js \<Rightarrow> (string \<times> js) list" where
  "set_property ce data path value = (case cl_set ce (JObj data) path value of JObj d \<Rightarrow> d | _ \<Rightarrow> data)"

definition Document_set ::
  "client_env \<Rightarrow> data_contract \<Rightarrow> string \<Rightarrow> string \<Rightarrow> js \<Rightarrow> (string \<times> js) list \<Rightarrow> dpp_error + (string \<times> js) list" where
  "Document_set ce c type path value data =
     rbind (identifier_paths c type) (\<lambda>paths.
     rbind (rfold (set_identifier ce path value) value paths) (\<lambda>clonedValue.
       Inr (set_property ce data path clonedValue)))"

definition Document_setData ::
  "client_env \<Rightarrow> data_contract \<Rightarrow> string \<Rightarrow> (string \<times> js) list \<Rightarrow> dpp_error + (string \<times> js) list" where
  "Document_setData ce c type data =
     rfold (\<lambda>d (name, value). Document_set ce c type name value d) [] (js_entries data)"

definition document_fields :: "string list" where
  "document_fields = [''$protocolVersion'', ''$id'', ''$type'', ''$dataContractId'', ''$ownerId'', ''$revision'',
     ''$createdAt'', ''$updatedAt'']"

definition raw_number :: "raw_transition \<Rightarrow> string \<Rightarrow> int" where
  "raw_number raw name = (case raw_get raw name of JNum n \<Rightarrow> n | _ \<Rightarrow> 0)"

definition raw_identifier :: "client_env \<Rightarrow> raw_transition \<Rightarrow> string \<Rightarrow> dpp_error + buffer option" where
  "raw_identifier ce raw name =
     (if has_own raw name then rbind (Identifier_from (cl_contracts ce) (raw_get raw name)) (\<lambda>b. Inr (Some b))
      else Inr None)"

definition new_Document :: "client_env \<Rightarrow> raw_transition \<Rightarrow> data_contract \<Rightarrow> dpp_error + client_document" where
  "new_Document ce raw c =
     rbind (raw_identifier ce raw ''$id'') (\<lambda>i.
     rbind (raw_identifier ce raw ''$dataContractId'') (\<lambda>cid.
     rbind (raw_identifier ce raw ''$ownerId'') (\<lambda>ownerId.
     rbind (Document_setData ce c (type_of raw) (filter (\<lambda>(name, _). name \<notin> set document_fields) raw)) (\<lambda>data.
       Inr \<lparr>cd_protocolVersion = raw_number raw ''$protocolVersion'', cd_id = i, cd_type = type_of raw,
            cd_dataContractId = cid, cd_ownerId = ownerId, cd_revision = raw_number raw ''$revision'',
            cd_createdAt = raw_time raw ''$createdAt'', cd_updatedAt = raw_time raw ''$updatedAt'',
            cd_data = data, cd_entropy = None, cd_dataContract = c\<rparr>))))"

definition time_entry :: "string \<Rightarrow> int option \<Rightarrow> (string \<times> js) list \<Rightarrow> (string \<times> js) list" where
  "time_entry name t raw = (case t of None \<Rightarrow> raw | Some n \<Rightarrow> AList.update name (JNum n) raw)"

text \<open>\<open>toObject\<close> calls methods of the identifiers, which throws where one is \<open>undefined\<close>.\<close>

definition Document_toObject :: "client_document \<Rightarrow> dpp_error + raw_transition" where
  "Document_toObject d =
     (case (cd_id d, cd_dataContractId d, cd_ownerId d) of
        (Some i, Some cid, Some ownerId) \<Rightarrow>
          Inr (set_all [(''$id'', JBuf i), (''$dataContractId'', JBuf cid), (''$ownerId'', JBuf ownerId)]
            (time_entry ''$updatedAt'' (cd_updatedAt d)
              (time_entry ''$createdAt'' (cd_createdAt d)
                (set_all (cd_data d)
                  [(''$protocolVersion'', JNum (cd_protocolVersion d)), (''$id'', JBuf i), (''$type'', JStr (cd_type d)),
                   (''$dataContractId'', JBuf cid), (''$ownerId'', JBuf ownerId), (''$revision'', JNum (cd_revision d))]))))
      | _ \<Rightarrow> Inl JsTypeError)"

section \<open>Validation\<close>

datatype document_error = MissingDocumentTypeError | DocumentConsensusError consensus_error

datatype factory_error =
    FactoryDpp dpp_error
  | InvalidDocumentTypeThrown string
  | InvalidDocumentError "document_error list"
  | InvalidActionNameError "string list"
  | NoDocumentsSuppliedError
  | MismatchOwnerIdsError
  | InvalidInitialRevisionError

definition in_factory :: "dpp_error + 'a \<Rightarrow> factory_error + 'a" where
  "in_factory r = (case r of Inl e \<Rightarrow> Inl (FactoryDpp e) | Inr a \<Rightarrow> Inr a)"

definition validateDocument :: "client_env \<Rightarrow> raw_transition \<Rightarrow> data_contract \<Rightarrow> dpp_error + document_error list" where
  "validateDocument ce raw c =
     (if \<not> has_own raw ''$type'' then Inr [MissingDocumentTypeError]
      else if \<not> DataContract_isDocumentDefined c (type_of raw) then
        Inr [DocumentConsensusError (InvalidDocumentTypeError (type_of raw) (dc_id c))]
      else
        rbind (enrichDataContractWithBaseSchema base_properties base_required 0 [] (dc_id c)
            (map (\<lambda>(type, s). (type, cs_schema s)) (dc_documents c))) (\<lambda>enriched.
          let schemaErrors = map JsonSchemaError (cl_schema ce enriched (type_of raw) raw) in
          if schemaErrors \<noteq> [] then Inr (map DocumentConsensusError schemaErrors)
          else rbind (validateProtocolVersion (cv_dppVersion (cl_contracts ce)) (raw_number raw ''$protocolVersion''))
            (\<lambda>r. Inr (map DocumentConsensusError (vr_errors r)))))"

definition fetchAndValidateDataContract :: "drive_state \<Rightarrow> raw_transition \<Rightarrow> document_error list + data_contract" where
  "fetchAndValidateDataContract s raw =
     (if \<not> has_own raw ''$dataContractId'' then Inl [DocumentConsensusError MissingDataContractIdError]
      else case raw_ident raw ''$dataContractId'' of
             Inl _ \<Rightarrow> Inl [DocumentConsensusError (InvalidIdentifierError ''$dataContractId'')]
           | Inr cid \<Rightarrow>
               (case fetchDataContract s cid of
                  None \<Rightarrow> Inl [DocumentConsensusError (DataContractNotPresentError cid)]
                | Some c \<Rightarrow> Inr c))"

section \<open>The factory\<close>

definition requires_field :: "contract_document_schema \<Rightarrow> string \<Rightarrow> dpp_error + bool" where
  "requires_field s name =
     rbind (js_member (cs_schema s) ''required'') (\<lambda>required.
       Inr (case required of JArr xs \<Rightarrow> JStr name \<in> set xs | _ \<Rightarrow> False))"

definition raw_new_document ::
  "client_env \<Rightarrow> data_contract \<Rightarrow> ident \<Rightarrow> string \<Rightarrow> (string \<times> js) list \<Rightarrow> buffer \<Rightarrow> raw_transition" where
  "raw_new_document ce c ownerId type data entropy =
     set_all data
       [(''$protocolVersion'', JNum (cl_protocolVersion ce)),
        (''$id'', JBuf (generateDocumentId (cl_env ce) (dc_id c) ownerId type entropy)), (''$type'', JStr type),
        (''$dataContractId'', JBuf (dc_id c)), (''$ownerId'', JBuf ownerId), (''$revision'', JNum INITIAL_REVISION)]"

definition create_document ::
  "client_env \<Rightarrow> data_contract \<Rightarrow> ident \<Rightarrow> string \<Rightarrow> (string \<times> js) list \<Rightarrow> buffer \<Rightarrow> int \<Rightarrow> factory_error + client_document" where
  "create_document ce c ownerId type data entropy now =
     (if \<not> DataContract_isDocumentDefined c type then Inl (InvalidDocumentTypeThrown type)
      else
        rbind (in_factory (DataContract_getDocumentSchema c type)) (\<lambda>schema.
        rbind (in_factory (requires_field schema ''$createdAt'')) (\<lambda>createdAt.
        rbind (in_factory (requires_field schema ''$updatedAt'')) (\<lambda>updatedAt.
          let raw = raw_new_document ce c ownerId type data entropy;
              raw = time_entry ''$createdAt'' (if createdAt then Some now else None) raw;
              raw = time_entry ''$updatedAt'' (if updatedAt then Some now else None) raw
          in rbind (in_factory (validateDocument ce raw c)) (\<lambda>errors.
             if errors \<noteq> [] then Inl (InvalidDocumentError errors)
             else rbind (in_factory (new_Document ce raw c)) (\<lambda>d.
               Inr (d\<lparr>cd_entropy := Some entropy\<rparr>)))))))"

definition createFromObject :: "client_env \<Rightarrow> drive_state \<Rightarrow> raw_transition \<Rightarrow> bool \<Rightarrow> factory_error + client_document" where
  "createFromObject ce s raw skipValidation =
     (case fetchAndValidateDataContract s raw of
        Inl errors \<Rightarrow> Inl (InvalidDocumentError errors)
      | Inr c \<Rightarrow>
          rbind (if skipValidation then Inr [] else in_factory (validateDocument ce raw c)) (\<lambda>errors.
            if errors \<noteq> [] then Inl (InvalidDocumentError errors) else in_factory (new_Document ce raw c)))"

definition createFromBuffer ::
  "client_env \<Rightarrow> (buffer \<Rightarrow> raw_transition option) \<Rightarrow> drive_state \<Rightarrow> buffer \<Rightarrow> bool \<Rightarrow> factory_error + client_document" where
  "createFromBuffer ce decode s bytes skipValidation =
     (if length bytes < 4 then Inl (InvalidDocumentError [DocumentConsensusError ProtocolVersionParsingError])
      else case decode (drop 4 bytes) of
             None \<Rightarrow> Inl (InvalidDocumentError [DocumentConsensusError SerializedObjectParsingError])
           | Some raw \<Rightarrow>
               createFromObject ce s
                 (AList.update ''$protocolVersion'' (JNum (\<Sum>i \<leftarrow> [0, 1, 2, 3]. uint (bytes ! i) * 256 ^ i)) raw) skipValidation)"

section \<open>A batch of documents\<close>

definition keep_fields :: "string list \<Rightarrow> raw_transition \<Rightarrow> raw_transition" where
  "keep_fields keysToStay raw = filter (\<lambda>(name, _). starts_with name ''$'' \<longrightarrow> name \<in> set keysToStay) raw"

definition raw_create :: "client_document \<Rightarrow> factory_error + raw_transition" where
  "raw_create d =
     (if cd_revision d \<noteq> INITIAL_REVISION then Inl InvalidInitialRevisionError
      else rbind (in_factory (Document_toObject d)) (\<lambda>raw.
        Inr (set_all [(''$action'', ACTION_CREATE),
            (''$entropy'', case cd_entropy d of None \<Rightarrow> JUndefined | Some e \<Rightarrow> JBuf e)]
          (keep_fields [''$id'', ''$type'', ''$dataContractId'', ''$createdAt'', ''$updatedAt''] raw))))"

definition raw_replace :: "int \<Rightarrow> client_document \<Rightarrow> factory_error + raw_transition" where
  "raw_replace now d =
     rbind (in_factory (Document_toObject d)) (\<lambda>raw.
       let raw = keep_fields [''$id'', ''$type'', ''$dataContractId'', ''$revision'', ''$updatedAt''] raw;
           raw = set_all [(''$action'', ACTION_REPLACE), (''$revision'', JNum (raw_number raw ''$revision'' + 1))] raw
       in Inr (if js_truthy (raw_get raw ''$updatedAt'') then AList.update ''$updatedAt'' (JNum now) raw else raw))"

definition identifier_value :: "buffer option \<Rightarrow> js" where
  "identifier_value i = (case i of None \<Rightarrow> JUndefined | Some b \<Rightarrow> JBuf b)"

definition raw_delete :: "client_document \<Rightarrow> factory_error + raw_transition" where
  "raw_delete d = Inr [(''$action'', ACTION_DELETE), (''$id'', identifier_value (cd_id d)), (''$type'', JStr (cd_type d)),
     (''$dataContractId'', identifier_value (cd_dataContractId d))]"

text \<open>
  The constructor of a transition makes identifiers of what its data holds at their paths, under the
  contract of a document that has its id, without which reading the paths throws.
\<close>

definition convert_identifier :: "client_env \<Rightarrow> (string \<times> js) list \<Rightarrow> string \<Rightarrow> dpp_error + (string \<times> js) list" where
  "convert_identifier ce data path =
     (let value = cl_get ce (JObj data) path in
      if value = JUndefined then Inr data
      else rbind (Identifier_from (cl_contracts ce) value) (\<lambda>b. Inr (set_property ce data path (JBuf b))))"

definition client_transition :: "client_env \<Rightarrow> data_contract list \<Rightarrow> raw_transition \<Rightarrow> dpp_error + document_transition" where
  "client_transition ce contracts raw =
     rbind (new_DocumentTransition raw) (\<lambda>t.
       if tr_action t = DELETE then Inr t
       else case find (\<lambda>c. dc_id c = tr_dataContractId t) (rev contracts) of
              None \<Rightarrow> Inl JsTypeError
            | Some c \<Rightarrow>
                rbind (identifier_paths c (tr_type t)) (\<lambda>paths.
                rbind (rfold (convert_identifier ce) (tr_data t) paths) (\<lambda>data. Inr (t\<lparr>tr_data := data\<rparr>))))"

definition action_names :: "string list" where "action_names = [''create'', ''replace'', ''delete'']"

definition documents_of :: "(string \<times> client_document list) list \<Rightarrow> string \<Rightarrow> client_document list" where
  "documents_of documents name = (case map_of documents name of None \<Rightarrow> [] | Some ds \<Rightarrow> ds)"

definition documents_batch ::
  "client_env \<Rightarrow> int \<Rightarrow> (string \<times> client_document list) list \<Rightarrow> factory_error + state_transition" where
  "documents_batch ce now documents =
     (let filteredKeys = filter (\<lambda>key. key \<notin> set action_names) (keys documents);
          documentsFlattened = concat (map snd documents) in
      if filteredKeys \<noteq> [] then Inl (InvalidActionNameError filteredKeys)
      else if documentsFlattened = [] then Inl NoDocumentsSuppliedError
      else case those (map cd_ownerId documentsFlattened) of
             None \<Rightarrow> Inl (FactoryDpp JsTypeError)
           | Some ownerIds \<Rightarrow>
               (if list_ex (\<lambda>i. i \<noteq> hd ownerIds) ownerIds then Inl MismatchOwnerIdsError
                else rbind (rmap raw_create (documents_of documents ''create'')) (\<lambda>creates.
                     rbind (rmap (raw_replace now) (documents_of documents ''replace'')) (\<lambda>replaces.
                     rbind (rmap raw_delete (documents_of documents ''delete'')) (\<lambda>deletes.
                     rbind (in_factory (rmap (client_transition ce (map cd_dataContract documentsFlattened))
                         (creates @ replaces @ deletes))) (\<lambda>transitions.
                       Inr (DocumentsBatchTransition
                         \<lparr>stb_protocolVersion = cl_protocolVersion ce, stb_signature = None, stb_signaturePublicKeyId = None\<rparr>
                         (hd ownerIds) transitions)))))))"

text \<open>What is sent: \<open>toObject\<close> of the transitions.\<close>

definition action_number :: "action \<Rightarrow> js" where
  "action_number a = (case a of CREATE \<Rightarrow> ACTION_CREATE | REPLACE \<Rightarrow> ACTION_REPLACE | DELETE \<Rightarrow> ACTION_DELETE)"

definition transition_toObject :: "document_transition \<Rightarrow> raw_transition" where
  "transition_toObject t =
     (let base = [(''$id'', JBuf (tr_id t)), (''$type'', JStr (tr_type t)), (''$action'', action_number (tr_action t)),
            (''$dataContractId'', JBuf (tr_dataContractId t))] in
      case tr_action t of
        CREATE \<Rightarrow> time_entry ''$updatedAt'' (tr_updatedAt t) (time_entry ''$createdAt'' (tr_createdAt t)
          (AList.update ''$entropy'' (JBuf (tr_entropy t)) (set_all (tr_data t) base)))
      | REPLACE \<Rightarrow> time_entry ''$updatedAt'' (tr_updatedAt t)
          (AList.update ''$revision'' (JNum (tr_revision t)) (set_all (tr_data t) base))
      | DELETE \<Rightarrow> base)"

section \<open>The objects of documents and transitions\<close>

definition data_ok :: "(string \<times> js) list \<Rightarrow> bool" where
  "data_ok data \<longleftrightarrow> distinct (keys data) \<and> list_all (\<lambda>name. \<not> starts_with name ''$'') (keys data)"

definition opt_time :: "string \<Rightarrow> int option \<Rightarrow> (string \<times> js) list" where
  "opt_time name t = (case t of None \<Rightarrow> [] | Some n \<Rightarrow> [(name, JNum n)])"

named_theorems raw_simps

lemma update_fresh: "k \<notin> set (keys m) \<Longrightarrow> AList.update k v m = m @ [(k, v)]"
  by (induction m) auto

lemma update_skip: "k \<notin> set (keys xs) \<Longrightarrow> AList.update k v (xs @ ys) = xs @ AList.update k v ys"
  by (induction xs) auto

lemma update_same: "map_of m k = Some v \<Longrightarrow> AList.update k v m = m"
  by (induction m) (auto split: if_splits)

lemma set_all_Nil [raw_simps]: "set_all [] m = m"
  by (simp add: set_all_def)

lemma set_all_Cons [raw_simps]: "set_all ((k, v) # kvs) m = set_all kvs (AList.update k v m)"
  by (simp add: set_all_def)

lemma data_no_field: "data_ok data \<Longrightarrow> starts_with name ''$'' \<Longrightarrow> name \<notin> set (keys data)"
  by (auto simp: data_ok_def list_all_iff)

lemma data_map_of [raw_simps]: "data_ok data \<Longrightarrow> starts_with name ''$'' \<Longrightarrow> map_of data name = None"
  using data_no_field by (simp add: map_of_eq_None_iff)

lemma starts_with_literal [raw_simps]:
  "starts_with (c # name) ''$'' \<longleftrightarrow> c = CHR ''$''" "\<not> starts_with [] ''$''"
  by (auto simp: starts_with_def)

lemma keep_append [raw_simps]: "keep_fields ks (xs @ ys) = keep_fields ks xs @ keep_fields ks ys"
  by (simp add: keep_fields_def)

lemma keep_Cons [raw_simps]:
  "keep_fields ks ((name, v) # xs) =
    (if starts_with name ''$'' \<longrightarrow> name \<in> set ks then (name, v) # keep_fields ks xs else keep_fields ks xs)"
  "keep_fields ks [] = []"
  by (simp_all add: keep_fields_def)

lemma keep_data [raw_simps]: "data_ok data \<Longrightarrow> keep_fields ks data = data"
  by (auto simp: keep_fields_def data_ok_def list_all_iff intro!: filter_True)

lemma filter_data [raw_simps]:
  "data_ok data \<Longrightarrow> filter (\<lambda>(name, _). \<not> starts_with name ''$'') data = data"
  by (auto simp: data_ok_def list_all_iff intro!: filter_True)

lemma set_all_data:
  assumes "data_ok data" "list_all (\<lambda>name. starts_with name ''$'') (keys base)" "distinct (keys base)"
  shows "set_all data base = base @ data"
  using assms data_no_field [OF assms(1)]
  by (intro set_all_fresh) (auto simp: data_ok_def list_all_iff)

lemma time_entry_fresh: "name \<notin> set (keys m) \<Longrightarrow> time_entry name t m = m @ opt_time name t"
  by (simp add: time_entry_def opt_time_def update_fresh split: option.split)

lemma keys_opt_time: "set (keys (opt_time name t)) \<subseteq> {name}"
  by (cases t) (simp_all add: opt_time_def)

text \<open>The object of a document whose fields are there.\<close>

definition fields_ok :: "client_document \<Rightarrow> bool" where
  "fields_ok d \<longleftrightarrow> data_ok (cd_data d) \<and>
     (case (cd_id d, cd_dataContractId d, cd_ownerId d) of
        (Some i, Some cid, Some ownerId) \<Rightarrow> length i = 32 \<and> length cid = 32
      | _ \<Rightarrow> False)"

lemma fields_ok_iff:
  "fields_ok d \<longleftrightarrow> data_ok (cd_data d) \<and>
     (\<exists>i cid ownerId. cd_id d = Some i \<and> length i = 32 \<and> cd_dataContractId d = Some cid \<and> length cid = 32 \<and> cd_ownerId d = Some ownerId)"
  by (auto simp: fields_ok_def split: option.splits)

lemma toObject_explicit:
  assumes "data_ok (cd_data d)" "cd_id d = Some i" "cd_dataContractId d = Some cid" "cd_ownerId d = Some ownerId"
  shows "Document_toObject d = Inr ([(''$protocolVersion'', JNum (cd_protocolVersion d)), (''$id'', JBuf i),
      (''$type'', JStr (cd_type d)), (''$dataContractId'', JBuf cid), (''$ownerId'', JBuf ownerId),
      (''$revision'', JNum (cd_revision d))] @ cd_data d @ opt_time ''$createdAt'' (cd_createdAt d) @
    opt_time ''$updatedAt'' (cd_updatedAt d))"
    (is "_ = Inr (?base @ _ @ _ @ _)")
proof -
  have no: "''$createdAt'' \<notin> set (keys (cd_data d))" "''$updatedAt'' \<notin> set (keys (cd_data d))"
    using data_no_field [OF assms(1)] by (simp_all add: raw_simps)
  have base: "set_all (cd_data d) ?base = ?base @ cd_data d"
    by (rule set_all_data [OF assms(1)]) (simp_all add: raw_simps)
  have created: "time_entry ''$createdAt'' (cd_createdAt d) (?base @ cd_data d) = ?base @ cd_data d @ opt_time ''$createdAt'' (cd_createdAt d)"
    using no by (subst time_entry_fresh) auto
  have updated: "time_entry ''$updatedAt'' (cd_updatedAt d) (?base @ cd_data d @ opt_time ''$createdAt'' (cd_createdAt d)) =
      ?base @ cd_data d @ opt_time ''$createdAt'' (cd_createdAt d) @ opt_time ''$updatedAt'' (cd_updatedAt d)"
    using no keys_opt_time [of "''$createdAt''" "cd_createdAt d"] by (subst time_entry_fresh) auto
  show ?thesis unfolding Document_toObject_def assms(2-4) option.case prod.case base created updated
    by (simp add: raw_simps)
qed

definition create_transition :: "client_document \<Rightarrow> document_transition" where
  "create_transition d =
     \<lparr>tr_action = CREATE, tr_id = the (cd_id d), tr_type = cd_type d, tr_dataContractId = the (cd_dataContractId d),
      tr_entropy = (case cd_entropy d of None \<Rightarrow> [] | Some e \<Rightarrow> e), tr_createdAt = cd_createdAt d,
      tr_updatedAt = cd_updatedAt d, tr_revision = 0, tr_data = cd_data d\<rparr>"

definition touched :: "int \<Rightarrow> int option \<Rightarrow> int option" where
  "touched now t = (case t of None \<Rightarrow> None | Some n \<Rightarrow> Some (if n = 0 then 0 else now))"

definition replace_transition :: "int \<Rightarrow> client_document \<Rightarrow> document_transition" where
  "replace_transition now d =
     \<lparr>tr_action = REPLACE, tr_id = the (cd_id d), tr_type = cd_type d, tr_dataContractId = the (cd_dataContractId d),
      tr_entropy = [], tr_createdAt = None, tr_updatedAt = touched now (cd_updatedAt d),
      tr_revision = cd_revision d + 1, tr_data = cd_data d\<rparr>"

definition removal_transition :: "client_document \<Rightarrow> document_transition" where
  "removal_transition d =
     \<lparr>tr_action = DELETE, tr_id = the (cd_id d), tr_type = cd_type d, tr_dataContractId = the (cd_dataContractId d),
      tr_entropy = [], tr_createdAt = None, tr_updatedAt = None, tr_revision = 0, tr_data = []\<rparr>"

lemma raw_create_transition:
  assumes "fields_ok d" "raw_create d = Inr raw"
  shows "new_DocumentTransition raw = Inr (create_transition d)"
proof -
  obtain i cid ownerId where d: "data_ok (cd_data d)" "cd_id d = Some i" "length i = 32" "cd_dataContractId d = Some cid"
      "length cid = 32" "cd_ownerId d = Some ownerId"
    using assms(1) by (auto simp: fields_ok_iff)
  let ?times = "opt_time ''$createdAt'' (cd_createdAt d) @ opt_time ''$updatedAt'' (cd_updatedAt d)"
  have no: "''$action'' \<notin> set (keys (cd_data d))" "''$entropy'' \<notin> set (keys (cd_data d))"
    using data_no_field [OF d(1)] by (simp_all add: raw_simps)
  have raw: "raw = [(''$id'', JBuf i), (''$type'', JStr (cd_type d)), (''$dataContractId'', JBuf cid)] @ cd_data d @ ?times @
      [(''$action'', ACTION_CREATE), (''$entropy'', case cd_entropy d of None \<Rightarrow> JUndefined | Some e \<Rightarrow> JBuf e)]"
    using assms(2) d(1) no
    by (cases "cd_createdAt d"; cases "cd_updatedAt d")
      (auto simp: raw_create_def toObject_explicit [OF d(1,2,4,6)] in_factory_def raw_simps opt_time_def update_fresh split: if_splits)
  show ?thesis unfolding raw using d(1,3,5)
    by (cases "cd_createdAt d"; cases "cd_updatedAt d"; cases "cd_entropy d")
      (simp_all add: new_DocumentTransition_def raw_action_def raw_ident_def raw_get_def raw_time_def type_of_def
        create_transition_def d(2,4) raw_simps opt_time_def map_of_append map_add_def ACTION_CREATE_def)
qed

lemma raw_replace_transition:
  assumes "fields_ok d" "raw_replace now d = Inr raw"
  shows "new_DocumentTransition raw = Inr (replace_transition now d)"
proof -
  obtain i cid ownerId where d: "data_ok (cd_data d)" "cd_id d = Some i" "length i = 32" "cd_dataContractId d = Some cid"
      "length cid = 32" "cd_ownerId d = Some ownerId"
    using assms(1) by (auto simp: fields_ok_iff)
  have no: "''$action'' \<notin> set (keys (cd_data d))" "''$updatedAt'' \<notin> set (keys (cd_data d))"
    using data_no_field [OF d(1)] by (simp_all add: raw_simps)
  have raw: "raw = [(''$id'', JBuf i), (''$type'', JStr (cd_type d)), (''$dataContractId'', JBuf cid),
      (''$revision'', JNum (cd_revision d + 1))] @ cd_data d @ opt_time ''$updatedAt'' (touched now (cd_updatedAt d)) @
      [(''$action'', ACTION_REPLACE)]"
    using assms(2) d(1) no
    by (cases "cd_createdAt d"; cases "cd_updatedAt d")
      (auto simp: raw_replace_def Let_def toObject_explicit [OF d(1,2,4,6)] in_factory_def raw_simps opt_time_def touched_def
        update_fresh update_skip raw_number_def raw_get_def map_of_append map_add_def split: if_splits)
  show ?thesis unfolding raw using d(1,3,5)
    by (cases "touched now (cd_updatedAt d)")
      (simp_all add: new_DocumentTransition_def raw_action_def raw_ident_def raw_get_def raw_time_def type_of_def
        replace_transition_def d(2,4) raw_simps opt_time_def map_of_append map_add_def ACTION_REPLACE_def ACTION_CREATE_def)
qed

lemma raw_delete_transition:
  assumes "fields_ok d" "raw_delete d = Inr raw"
  shows "new_DocumentTransition raw = Inr (removal_transition d)"
  using assms
  by (auto simp: fields_ok_iff raw_delete_def identifier_value_def new_DocumentTransition_def raw_action_def raw_ident_def
      raw_get_def type_of_def removal_transition_def ACTION_DELETE_def ACTION_REPLACE_def ACTION_CREATE_def)

text \<open>Sending a transition and reading it again gives the transition.\<close>

definition transition_ok :: "document_transition \<Rightarrow> bool" where
  "transition_ok t \<longleftrightarrow> length (tr_id t) = 32 \<and> length (tr_dataContractId t) = 32 \<and> data_ok (tr_data t) \<and>
     (tr_action t = CREATE \<longrightarrow> tr_revision t = 0) \<and> (tr_action t = REPLACE \<longrightarrow> tr_entropy t = [] \<and> tr_createdAt t = None) \<and>
     (tr_action t = DELETE \<longrightarrow> tr_entropy t = [] \<and> tr_createdAt t = None \<and> tr_updatedAt t = None \<and> tr_revision t = 0 \<and> tr_data t = [])"

definition transition_base :: "document_transition \<Rightarrow> raw_transition" where
  "transition_base t = [(''$id'', JBuf (tr_id t)), (''$type'', JStr (tr_type t)), (''$action'', action_number (tr_action t)),
     (''$dataContractId'', JBuf (tr_dataContractId t))]"

lemma set_all_base: "data_ok (tr_data t) \<Longrightarrow> set_all (tr_data t) (transition_base t) = transition_base t @ tr_data t"
  by (intro set_all_data) (simp_all add: raw_simps transition_base_def)

lemma toObject_create:
  assumes "data_ok (tr_data t)" "tr_action t = CREATE"
  shows "transition_toObject t = transition_base t @ tr_data t @ [(''$entropy'', JBuf (tr_entropy t))] @
    opt_time ''$createdAt'' (tr_createdAt t) @ opt_time ''$updatedAt'' (tr_updatedAt t)"
proof -
  have "''$entropy'' \<notin> set (keys (tr_data t))" "''$createdAt'' \<notin> set (keys (tr_data t))" "''$updatedAt'' \<notin> set (keys (tr_data t))"
    using data_no_field [OF assms(1)] by (simp_all add: raw_simps)
  moreover have "transition_toObject t = time_entry ''$updatedAt'' (tr_updatedAt t) (time_entry ''$createdAt'' (tr_createdAt t)
      (AList.update ''$entropy'' (JBuf (tr_entropy t)) (set_all (tr_data t) (transition_base t))))"
    by (simp add: transition_toObject_def transition_base_def assms(2))
  ultimately show ?thesis unfolding set_all_base [OF assms(1)]
    by (cases "tr_createdAt t"; cases "tr_updatedAt t") (simp_all add: transition_base_def update_fresh time_entry_def opt_time_def)
qed

lemma toObject_replace:
  assumes "data_ok (tr_data t)" "tr_action t = REPLACE"
  shows "transition_toObject t = transition_base t @ tr_data t @ [(''$revision'', JNum (tr_revision t))] @
    opt_time ''$updatedAt'' (tr_updatedAt t)"
proof -
  have "''$revision'' \<notin> set (keys (tr_data t))" "''$updatedAt'' \<notin> set (keys (tr_data t))"
    using data_no_field [OF assms(1)] by (simp_all add: raw_simps)
  moreover have "transition_toObject t = time_entry ''$updatedAt'' (tr_updatedAt t)
      (AList.update ''$revision'' (JNum (tr_revision t)) (set_all (tr_data t) (transition_base t)))"
    by (simp add: transition_toObject_def transition_base_def assms(2))
  ultimately show ?thesis unfolding set_all_base [OF assms(1)]
    by (cases "tr_updatedAt t") (simp_all add: transition_base_def update_fresh time_entry_def opt_time_def)
qed

lemma toObject_transition:
  assumes "transition_ok t"
  shows "new_DocumentTransition (transition_toObject t) = Inr t"
proof -
  have data: "data_ok (tr_data t)" using assms by (simp add: transition_ok_def)
  show ?thesis
  proof (cases "tr_action t")
    case CREATE
    show ?thesis unfolding toObject_create [OF data CREATE] using assms data CREATE
      by (cases "tr_createdAt t"; cases "tr_updatedAt t")
        (auto simp: new_DocumentTransition_def raw_action_def raw_ident_def raw_get_def raw_time_def type_of_def
          transition_base_def transition_ok_def raw_simps opt_time_def map_of_append map_add_def action_number_def)
  next
    case REPLACE
    show ?thesis unfolding toObject_replace [OF data REPLACE] using assms data REPLACE
      by (cases "tr_updatedAt t")
        (auto simp: new_DocumentTransition_def raw_action_def raw_ident_def raw_get_def raw_time_def type_of_def
          transition_base_def transition_ok_def raw_simps opt_time_def map_of_append map_add_def action_number_def
          ACTION_REPLACE_def ACTION_CREATE_def)
  next
    case DELETE
    then show ?thesis using assms
      by (auto simp: transition_toObject_def new_DocumentTransition_def raw_action_def raw_ident_def raw_get_def raw_time_def
          type_of_def transition_ok_def action_number_def ACTION_DELETE_def ACTION_REPLACE_def ACTION_CREATE_def)
  qed
qed

lemma document_transitions_ok:
  assumes "fields_ok d"
  shows "transition_ok (create_transition d)" "transition_ok (replace_transition now d)" "transition_ok (removal_transition d)"
  using assms
  by (auto simp: fields_ok_iff transition_ok_def create_transition_def replace_transition_def removal_transition_def data_ok_def)

section \<open>From a client's documents to the store of Drive\<close>

text \<open>
  What the client relies on of lodash: a plain name is a property of the object, and setting what is
  there changes nothing.
\<close>

definition plain_name :: "string \<Rightarrow> bool" where
  "plain_name name \<longleftrightarrow> CHR ''.'' \<notin> set name \<and> CHR ''['' \<notin> set name \<and> name \<noteq> ''__proto__''"

definition lodash_documented :: "client_env \<Rightarrow> bool" where
  "lodash_documented ce \<longleftrightarrow>
     (\<forall>data name v. plain_name name \<longrightarrow> cl_set ce (JObj data) name v = JObj (AList.update name v data)) \<and>
     (\<forall>v path. cl_get ce v path \<noteq> JUndefined \<longrightarrow> cl_set ce v path (cl_get ce v path) = v)"

text \<open>A document whose fields are there and whose identifier properties hold identifiers.\<close>

definition holds_identifiers :: "client_env \<Rightarrow> data_contract \<Rightarrow> string \<Rightarrow> (string \<times> js) list \<Rightarrow> bool" where
  "holds_identifiers ce c type data \<longleftrightarrow>
     (case identifier_paths c type of
        Inl _ \<Rightarrow> False
      | Inr paths \<Rightarrow> list_all (\<lambda>path. case cl_get ce (JObj data) path of
            JUndefined \<Rightarrow> True | JBuf b \<Rightarrow> length b = 32 | _ \<Rightarrow> False) paths)"

definition document_ok :: "client_env \<Rightarrow> client_document \<Rightarrow> bool" where
  "document_ok ce d \<longleftrightarrow> fields_ok d \<and> cd_dataContractId d = Some (dc_id (cd_dataContract d)) \<and>
     holds_identifiers ce (cd_dataContract d) (cd_type d) (cd_data d)"

definition batch_ok :: "client_env \<Rightarrow> client_document list \<Rightarrow> bool" where
  "batch_ok ce ds \<longleftrightarrow> list_all (document_ok ce) ds \<and>
     list_all (\<lambda>d. list_all (\<lambda>d'. dc_id (cd_dataContract d') = dc_id (cd_dataContract d) \<longrightarrow>
       cd_dataContract d' = cd_dataContract d) ds) ds"

lemma convert_same:
  assumes "lodash_documented ce"
    and "case cl_get ce (JObj data) path of JUndefined \<Rightarrow> True | JBuf b \<Rightarrow> length b = 32 | _ \<Rightarrow> False"
  shows "convert_identifier ce data path = Inr data"
proof (cases "cl_get ce (JObj data) path = JUndefined")
  case False
  then obtain b where b: "cl_get ce (JObj data) path = JBuf b" "length b = 32" using assms(2) by (auto split: js.splits)
  then have "cl_set ce (JObj data) path (JBuf b) = JObj data" using assms(1) unfolding lodash_documented_def by (metis js.distinct(9))
  then show ?thesis using b by (simp add: convert_identifier_def Identifier_from_def set_property_def Let_def)
qed (simp add: convert_identifier_def)

lemma client_transition_same:
  assumes "lodash_documented ce" "new_DocumentTransition raw = Inr t"
    and "tr_action t \<noteq> DELETE \<longrightarrow> tr_dataContractId t = dc_id c \<and> holds_identifiers ce c (tr_type t) (tr_data t)"
    and "c \<in> set contracts" "\<forall>c'\<in>set contracts. dc_id c' = dc_id c \<longrightarrow> c' = c"
  shows "client_transition ce contracts raw = Inr t"
proof (cases "tr_action t = DELETE")
  case False
  then have t: "tr_dataContractId t = dc_id c" "holds_identifiers ce c (tr_type t) (tr_data t)" using assms(3) by auto
  have "find (\<lambda>c'. dc_id c' = tr_dataContractId t) (rev contracts) = Some c"
    using assms(4,5) t(1)
    by (cases "find (\<lambda>c'. dc_id c' = tr_dataContractId t) (rev contracts)")
      (auto simp: find_None_iff find_Some_iff rev_nth)
  moreover obtain paths where paths: "identifier_paths c (tr_type t) = Inr paths"
      "list_all (\<lambda>path. convert_identifier ce (tr_data t) path = Inr (tr_data t)) paths"
    using t(2) convert_same [OF assms(1)] by (fastforce simp: holds_identifiers_def list_all_iff split: sum.splits)
  moreover have "rfold (convert_identifier ce) (tr_data t) paths = Inr (tr_data t)"
    using paths(2) by (induction paths) simp_all
  ultimately show ?thesis using assms(2) False by (simp add: client_transition_def)
qed (simp add: client_transition_def assms(2))

lemma rmap_images:
  assumes "rmap f xs = Inr ys" "\<And>x y. x \<in> set xs \<Longrightarrow> f x = Inr y \<Longrightarrow> g y = Inr (h x)"
  shows "rmap g ys = Inr (map h xs)"
  using assms
proof (induction xs arbitrary: ys)
  case (Cons x xs)
  then obtain y zs where "f x = Inr y" "rmap f xs = Inr zs" "ys = y # zs" by (auto simp: rbind_eq_Inr_iff)
  moreover have "g y = Inr (h x)" using Cons.prems(2) calculation(1) by simp
  moreover have "rmap g zs = Inr (map h xs)" using Cons.IH [OF calculation(2)] Cons.prems(2) by simp
  ultimately show ?case by simp
qed simp

lemma rmap_append: "rmap f (xs @ ys) = rbind (rmap f xs) (\<lambda>us. rbind (rmap f ys) (\<lambda>vs. Inr (us @ vs)))"
  by (induction xs) (auto simp: rbind_def split: sum.splits)

definition batch_documents :: "(string \<times> client_document list) list \<Rightarrow> client_document list" where
  "batch_documents documents = documents_of documents ''create'' @ documents_of documents ''replace'' @ documents_of documents ''delete''"

definition batch_transitions :: "int \<Rightarrow> (string \<times> client_document list) list \<Rightarrow> document_transition list" where
  "batch_transitions now documents =
     map create_transition (documents_of documents ''create'') @
     map (replace_transition now) (documents_of documents ''replace'') @
     map removal_transition (documents_of documents ''delete'')"

lemma documents_of_given: "d \<in> set (documents_of documents name) \<Longrightarrow> d \<in> set (concat (map snd documents))"
  by (cases "map_of documents name") (auto simp: documents_of_def dest: map_of_SomeD intro: bexI [of _ "(name, _)"])

lemma in_factory_Inr: "in_factory r = Inr a \<longleftrightarrow> r = Inr a"
  by (cases r) (simp_all add: in_factory_def)

lemma rmap_id: "(\<And>x. x \<in> set xs \<Longrightarrow> f x = Inr x) \<Longrightarrow> rmap f xs = Inr xs"
  by (induction xs) simp_all

lemma rmap_map: "rmap f (map g xs) = rmap (\<lambda>x. f (g x)) xs"
  by (induction xs) simp_all

lemma those_Some_map: "those xs = Some ys \<Longrightarrow> xs = map Some ys"
  by (induction xs arbitrary: ys) (auto split: option.splits)

lemma documents_batch_explicit:
  assumes "documents_batch ce now documents = Inr st" "lodash_documented ce" "batch_ok ce (concat (map snd documents))"
  shows "\<exists>b owner. st = DocumentsBatchTransition b owner (batch_transitions now documents) \<and>
    stb_protocolVersion b = cl_protocolVersion ce \<and>
    (\<forall>d \<in> set (batch_documents documents). cd_ownerId d = Some owner) \<and>
    (\<forall>d \<in> set (documents_of documents ''create''). cd_revision d = INITIAL_REVISION)"
proof -
  let ?ds = "concat (map snd documents)" and ?b = "\<lparr>stb_protocolVersion = cl_protocolVersion ce, stb_signature = None, stb_signaturePublicKeyId = None\<rparr>"
  obtain ownerIds where owners: "those (map cd_ownerId ?ds) = Some ownerIds" "list_all (\<lambda>i. i = hd ownerIds) ownerIds"
    and rest: "rbind (rmap raw_create (documents_of documents ''create'')) (\<lambda>creates.
        rbind (rmap (raw_replace now) (documents_of documents ''replace'')) (\<lambda>replaces.
        rbind (rmap raw_delete (documents_of documents ''delete'')) (\<lambda>deletes.
        rbind (in_factory (rmap (client_transition ce (map cd_dataContract ?ds)) (creates @ replaces @ deletes))) (\<lambda>transitions.
          Inr (DocumentsBatchTransition ?b (hd ownerIds) transitions))))) = Inr st"
    using assms(1)
    by (auto simp: documents_batch_def Let_def list_ex_iff list_all_iff split: if_splits option.splits)
  obtain creates replaces deletes ts where raws: "rmap raw_create (documents_of documents ''create'') = Inr creates"
      "rmap (raw_replace now) (documents_of documents ''replace'') = Inr replaces"
      "rmap raw_delete (documents_of documents ''delete'') = Inr deletes" and
    ts: "rmap (client_transition ce (map cd_dataContract ?ds)) (creates @ replaces @ deletes) = Inr ts" and
    st: "st = DocumentsBatchTransition ?b (hd ownerIds) ts"
    using rest unfolding rbind_eq_Inr_iff in_factory_Inr by blast
  have ok: "fields_ok d" "cd_dataContractId d = Some (dc_id (cd_dataContract d))"
      "holds_identifiers ce (cd_dataContract d) (cd_type d) (cd_data d)" "cd_dataContract d \<in> set (map cd_dataContract ?ds)"
      "\<forall>c \<in> set (map cd_dataContract ?ds). dc_id c = dc_id (cd_dataContract d) \<longrightarrow> c = cd_dataContract d"
    if "d \<in> set (documents_of documents name)" for d name
    using documents_of_given [OF that] assms(3) by (auto simp: batch_ok_def document_ok_def list_all_iff)
  let ?T = "client_transition ce (map cd_dataContract ?ds)"
  have "rmap ?T creates = Inr (map create_transition (documents_of documents ''create''))"
  proof (rule rmap_images [OF raws(1)])
    fix d y assume d: "d \<in> set (documents_of documents ''create'')" "raw_create d = Inr y"
    show "?T y = Inr (create_transition d)"
      by (rule client_transition_same [OF assms(2) raw_create_transition [OF ok(1) [OF d(1)] d(2)] _ ok(4,5) [OF d(1)]])
        (simp add: create_transition_def ok(2,3) [OF d(1)])
  qed
  moreover have "rmap ?T replaces = Inr (map (replace_transition now) (documents_of documents ''replace''))"
  proof (rule rmap_images [OF raws(2)])
    fix d y assume d: "d \<in> set (documents_of documents ''replace'')" "raw_replace now d = Inr y"
    show "?T y = Inr (replace_transition now d)"
      by (rule client_transition_same [OF assms(2) raw_replace_transition [OF ok(1) [OF d(1)] d(2)] _ ok(4,5) [OF d(1)]])
        (simp add: replace_transition_def ok(2,3) [OF d(1)])
  qed
  moreover have "rmap ?T deletes = Inr (map removal_transition (documents_of documents ''delete''))"
  proof (rule rmap_images [OF raws(3)])
    fix d y assume d: "d \<in> set (documents_of documents ''delete'')" "raw_delete d = Inr y"
    show "?T y = Inr (removal_transition d)"
      by (rule client_transition_same [OF assms(2) raw_delete_transition [OF ok(1) [OF d(1)] d(2)] _ ok(4,5) [OF d(1)]])
        (simp add: removal_transition_def)
  qed
  ultimately have "ts = batch_transitions now documents" using ts by (simp add: rmap_append batch_transitions_def)
  moreover have "cd_ownerId d = Some (hd ownerIds)" if "d \<in> set (batch_documents documents)" for d
  proof -
    have "d \<in> set ?ds" using that documents_of_given by (fastforce simp: batch_documents_def)
    then obtain k where k: "k < length ?ds" "d = ?ds ! k" by (metis in_set_conv_nth)
    have "map cd_ownerId ?ds = map Some ownerIds" using owners(1) by (rule those_Some_map)
    then have "cd_ownerId d = Some (ownerIds ! k)" "k < length ownerIds" using k by (metis length_map nth_map)+
    then show ?thesis using owners(2) by (simp add: list_all_length)
  qed
  moreover have "cd_revision d = INITIAL_REVISION" if "d \<in> set (documents_of documents ''create'')" for d
  proof -
    have "raw_create d \<noteq> Inl InvalidInitialRevisionError"
      using raws(1) that by (metis in_set_conv_nth rmap_nth sum.distinct(1))
    then show ?thesis by (auto simp: raw_create_def split: if_splits)
  qed
  ultimately show ?thesis using st by auto
qed

definition plain_document :: "client_document \<Rightarrow> document" where
  "plain_document d =
     \<lparr>doc_protocolVersion = cd_protocolVersion d, doc_id = the (cd_id d), doc_type = cd_type d,
      doc_dataContractId = the (cd_dataContractId d), doc_ownerId = the (cd_ownerId d), doc_revision = cd_revision d,
      doc_createdAt = cd_createdAt d, doc_updatedAt = cd_updatedAt d, doc_data = cd_data d\<rparr>"

definition next_version :: "int \<Rightarrow> client_document \<Rightarrow> document \<Rightarrow> document" where
  "next_version now d stored =
     stored\<lparr>doc_revision := cd_revision d + 1, doc_data := cd_data d,
       doc_updatedAt := (case cd_updatedAt d of None \<Rightarrow> doc_updatedAt stored | Some n \<Rightarrow> Some (if n = 0 then 0 else now))\<rparr>"

lemma batch_transition_ids: "map tr_id (batch_transitions now documents) = map (\<lambda>d. the (cd_id d)) (batch_documents documents)"
  by (simp add: batch_transitions_def batch_documents_def create_transition_def replace_transition_def removal_transition_def o_def)

lemma batch_transitions_sent:
  assumes "batch_ok ce (concat (map snd documents))"
  shows "rmap new_DocumentTransition (map transition_toObject (batch_transitions now documents)) = Inr (batch_transitions now documents)"
proof -
  have "transition_ok t" if "t \<in> set (batch_transitions now documents)" for t
    using that assms documents_of_given document_transitions_ok
    by (auto simp: batch_transitions_def batch_ok_def document_ok_def list_all_iff) blast+
  then show ?thesis unfolding rmap_map by (intro rmap_id) (simp add: toObject_transition)
qed

text \<open>
  C12. The batch that a client makes of its documents reaches Drive as it was made, and when Drive applies it,
  the store holds the created documents as the client has them, the replaced ones with the client's data
  and the next revision, and none of the deleted ones.
\<close>

theorem client_documents_reach_store:
  assumes "documents_batch ce now documents = Inr st" "lodash_documented ce" "batch_ok ce (concat (map snd documents))"
    and "distinct (map (\<lambda>d. the (cd_id d)) (batch_documents documents))"
    and "list_all (\<lambda>d. cd_protocolVersion d = cl_protocolVersion ce) (documents_of documents ''create'')"
    and "fetch_documented F s"
  shows "\<exists>b owner ts. st = DocumentsBatchTransition b owner ts \<and>
    rmap new_DocumentTransition (map transition_toObject ts) = Inr ts \<and>
    (\<forall>s'. applyDocumentsBatchTransition env F True b owner ts s = Inr s' \<longrightarrow>
      (\<forall>d \<in> set (documents_of documents ''create''). doc_view s' (the (cd_id d)) = Some (plain_document d)) \<and>
      (\<forall>d \<in> set (documents_of documents ''replace''). doc_view s' (the (cd_id d)) =
        map_option (next_version now d) (doc_view s (the (cd_id d)))) \<and>
      (\<forall>d \<in> set (documents_of documents ''delete''). doc_committed s (the (cd_id d)) \<longrightarrow> doc_view s' (the (cd_id d)) = None) \<and>
      (\<forall>i. i \<notin> (\<lambda>d. the (cd_id d)) ` set (batch_documents documents) \<longrightarrow> doc_view s' i = doc_view s i))"
proof -
  obtain b owner where st: "st = DocumentsBatchTransition b owner (batch_transitions now documents)"
      "stb_protocolVersion b = cl_protocolVersion ce" and owner: "\<forall>d \<in> set (batch_documents documents). cd_ownerId d = Some owner"
    and first: "\<forall>d \<in> set (documents_of documents ''create''). cd_revision d = INITIAL_REVISION"
    using documents_batch_explicit [OF assms(1-3)] by blast
  let ?effect = "\<lambda>s'. (\<forall>d \<in> set (documents_of documents ''create''). doc_view s' (the (cd_id d)) = Some (plain_document d)) \<and>
      (\<forall>d \<in> set (documents_of documents ''replace''). doc_view s' (the (cd_id d)) =
        map_option (next_version now d) (doc_view s (the (cd_id d)))) \<and>
      (\<forall>d \<in> set (documents_of documents ''delete''). doc_committed s (the (cd_id d)) \<longrightarrow> doc_view s' (the (cd_id d)) = None) \<and>
      (\<forall>i. i \<notin> (\<lambda>d. the (cd_id d)) ` set (batch_documents documents) \<longrightarrow> doc_view s' i = doc_view s i)"
  have "?effect s'"
    if run: "applyDocumentsBatchTransition env F True b owner (batch_transitions now documents) s = Inr s'" for s'
  proof -
    have "distinct (map tr_id (batch_transitions now documents))" using assms(4) by (simp add: batch_transition_ids)
    note eff = apply_batch_effect [OF assms(6) this run]
    have ids: "tr_id ` set (batch_transitions now documents) = (\<lambda>d. the (cd_id d)) ` set (batch_documents documents)"
      using batch_transition_ids by (metis set_map)
    have effect: "doc_view s' (tr_id t) = transition_effect (stb_protocolVersion b) owner s t"
      if "t \<in> set (batch_transitions now documents)" for t
      using eff that by blast
    have "doc_view s' (the (cd_id d)) = Some (plain_document d)" if d: "d \<in> set (documents_of documents ''create'')" for d
    proof -
      have "doc_view s' (tr_id (create_transition d)) = transition_effect (stb_protocolVersion b) owner s (create_transition d)"
        using d by (intro effect) (simp add: batch_transitions_def)
      also have "\<dots> = Some (plain_document d)"
        using assms(5) owner first d st(2)
        by (auto simp: transition_effect_def create_transition_def created_document_def plain_document_def list_all_iff batch_documents_def)
      finally show ?thesis by (simp add: create_transition_def)
    qed
    moreover have "doc_view s' (the (cd_id d)) = map_option (next_version now d) (doc_view s (the (cd_id d)))"
      if d: "d \<in> set (documents_of documents ''replace'')" for d
    proof -
      have "doc_view s' (tr_id (replace_transition now d)) = transition_effect (stb_protocolVersion b) owner s (replace_transition now d)"
        using d by (intro effect) (simp add: batch_transitions_def)
      also have "\<dots> = map_option (next_version now d) (doc_view s (the (cd_id d)))"
        by (cases "cd_updatedAt d"; cases "doc_view s (the (cd_id d))")
          (simp_all add: transition_effect_def replace_transition_def touched_def replaced_document_def next_version_def)
      finally show ?thesis by (simp add: replace_transition_def)
    qed
    moreover have "doc_view s' (the (cd_id d)) = None"
      if d: "d \<in> set (documents_of documents ''delete'')" "doc_committed s (the (cd_id d))" for d
    proof -
      have "doc_view s' (tr_id (removal_transition d)) = transition_effect (stb_protocolVersion b) owner s (removal_transition d)"
        using d by (intro effect) (simp add: batch_transitions_def)
      then show ?thesis using d(2) by (simp add: removal_transition_def transition_effect_def)
    qed
    moreover have "\<forall>i. i \<notin> (\<lambda>d. the (cd_id d)) ` set (batch_documents documents) \<longrightarrow> doc_view s' i = doc_view s i"
      by (rule conjunct1 [OF eff, unfolded ids])
    ultimately show ?thesis by (intro conjI ballI impI) (simp_all only:)
  qed
  then have "\<forall>s'. applyDocumentsBatchTransition env F True b owner (batch_transitions now documents) s = Inr s' \<longrightarrow>
      ?effect s'"
    by (intro allI impI)
  then show ?thesis using batch_transitions_sent [OF assms(3), of now] st(1)
    by (intro exI [of _ b] exI [of _ owner] exI [of _ "batch_transitions now documents"] conjI)
qed

section \<open>Created documents\<close>

lemma Document_set_keys:
  assumes "lodash_documented ce" "plain_name name" "Document_set ce c type name v data = Inr data'"
  shows "\<exists>v'. data' = AList.update name v' data"
  using assms
  by (auto simp: Document_set_def lodash_documented_def set_property_def rbind_eq_Inr_iff)

lemma setData_keys:
  assumes "lodash_documented ce" "list_all plain_name (keys entries)"
    and "rfold (\<lambda>d (name, v). Document_set ce c type name v d) data entries = Inr data'" "distinct (keys data)"
  shows "distinct (keys data') \<and> set (keys data') = set (keys data) \<union> set (keys entries)"
  using assms(2-)
proof (induction entries arbitrary: data)
  case (Cons e entries)
  obtain name v where e: "e = (name, v)" by force
  obtain d where d: "Document_set ce c type name v data = Inr d"
      and rest: "rfold (\<lambda>d (name, v). Document_set ce c type name v d) d entries = Inr data'"
    using Cons.prems(2) e by (auto simp: rbind_eq_Inr_iff)
  obtain v' where v': "d = AList.update name v' data" using Document_set_keys [OF assms(1) _ d] Cons.prems(1) e by auto
  then have "distinct (keys d)" "set (keys d) = insert name (set (keys data))"
    using Cons.prems(3) by (simp_all add: distinct_update dom_update)
  then show ?case using Cons.IH [OF _ rest] Cons.prems(1) e by auto
qed simp

lemma created_fields:
  assumes "create_document ce c owner type data entropy now = Inr d" "lodash_documented ce" "data_ok data"
    and "list_all plain_name (keys data)"
  shows "fields_ok d \<and> cd_id d = Some (generateDocumentId (cl_env ce) (dc_id c) owner type entropy) \<and> cd_type d = type \<and>
    cd_dataContractId d = Some (dc_id c) \<and> cd_ownerId d = Some owner \<and> cd_revision d = INITIAL_REVISION \<and>
    cd_protocolVersion d = cl_protocolVersion ce \<and> cd_entropy d = Some entropy \<and> cd_dataContract d = c"
proof -
  let ?id = "generateDocumentId (cl_env ce) (dc_id c) owner type entropy"
  obtain tc tu raw d0 where raw: "raw = time_entry ''$updatedAt'' tu (time_entry ''$createdAt'' tc (raw_new_document ce c owner type data entropy))"
      and d0: "new_Document ce raw c = Inr d0" and d: "d = d0\<lparr>cd_entropy := Some entropy\<rparr>"
    using assms(1)
    by (auto simp: create_document_def Let_def rbind_eq_Inr_iff in_factory_Inr split: if_splits)
  let ?base = "[(''$protocolVersion'', JNum (cl_protocolVersion ce)), (''$id'', JBuf ?id), (''$type'', JStr type),
        (''$dataContractId'', JBuf (dc_id c)), (''$ownerId'', JBuf owner), (''$revision'', JNum INITIAL_REVISION)]"
  have no: "''$createdAt'' \<notin> set (keys data)" "''$updatedAt'' \<notin> set (keys data)"
    using data_no_field [OF assms(3)] by (simp_all add: raw_simps)
  have base: "set_all data ?base = ?base @ data"
    by (rule set_all_data [OF assms(3)]) (simp_all add: raw_simps)
  have explicit: "raw = ?base @ data @ opt_time ''$createdAt'' tc @ opt_time ''$updatedAt'' tu"
    unfolding raw raw_new_document_def base using no
    by (cases tc; cases tu) (simp_all add: time_entry_def opt_time_def update_fresh)
  have own: "filter (\<lambda>(name, _). name \<notin> set document_fields) raw = data"
  proof -
    have "filter (\<lambda>(name, _). name \<notin> set document_fields) data = data"
      using assms(3) by (intro filter_True) (auto simp: data_ok_def list_all_iff document_fields_def raw_simps)
    then show ?thesis unfolding explicit by (cases tc; cases tu) (simp_all add: document_fields_def opt_time_def)
  qed
  obtain data' where data': "Document_setData ce c (type_of raw) data = Inr data'"
      and "cd_data d0 = data'" "cd_id d0 = Some ?id" "length ?id = 32" "cd_dataContractId d0 = Some (dc_id c)" "length (dc_id c) = 32"
        "cd_ownerId d0 = Some owner" "cd_type d0 = type" "cd_revision d0 = INITIAL_REVISION"
        "cd_protocolVersion d0 = cl_protocolVersion ce" "cd_dataContract d0 = c"
    using d0 unfolding new_Document_def own
    by (auto simp: rbind_eq_Inr_iff explicit raw_identifier_def has_own_def raw_get_def Identifier_from_def Let_def
        type_of_def raw_number_def map_of_append map_add_def data_map_of [OF assms(3)] raw_simps split: if_splits)
  moreover have "data_ok data'"
  proof -
    have "list_all plain_name (keys (js_entries data))" using assms(4) by (auto simp: list_all_iff)
    from setData_keys [OF assms(2) this data' [unfolded Document_setData_def]]
    have "distinct (keys data')" "set (keys data') = set (keys data)" by auto
    then show ?thesis using assms(3) by (auto simp: data_ok_def list_all_iff)
  qed
  ultimately show ?thesis by (simp add: d fields_ok_iff)
qed

text \<open>
  C13. A document that the client creates gets an id that Drive accepts: making its transition succeeds, and
  what is sent passes the check of how ids are generated.
\<close>

theorem created_id_accepted:
  assumes "create_document ce c owner type data entropy now = Inr d" "lodash_documented ce" "data_ok data"
    and "list_all plain_name (keys data)"
  shows "\<exists>raw t. raw_create d = Inr raw \<and> new_DocumentTransition raw = Inr t \<and>
    validate_id_generation (cl_env ce) c owner (transition_toObject t) = Inr []"
proof -
  note d = created_fields [OF assms]
  then have ok: "fields_ok d" by blast
  then have data: "data_ok (tr_data (create_transition d))" by (simp add: fields_ok_iff create_transition_def)
  have "\<exists>obj. Document_toObject d = Inr obj" using d by (auto simp: Document_toObject_def)
  then obtain raw where raw: "raw_create d = Inr raw" using d by (auto simp: raw_create_def in_factory_def)
  have action: "tr_action (create_transition d) = CREATE" by (simp add: create_transition_def)
  have "validate_id_generation (cl_env ce) c owner (transition_toObject (create_transition d)) = Inr []"
    unfolding toObject_create [OF data action] using d data
    by (auto simp: validate_id_generation_def raw_get_def type_of_def transition_base_def create_transition_def
        map_of_append map_add_def raw_simps opt_time_def split: option.splits)
  then show ?thesis using raw raw_create_transition [OF ok raw] by blast
qed

section \<open>Witnesses\<close>

definition sample_client :: client_env where
  "sample_client = \<lparr>cl_env = sample_env\<lparr>e_hash := (\<lambda>b. take 32 (rev b))\<rparr>, cl_contracts = sample_contract_env,
     cl_get = (\<lambda>v name. case v of JObj o' \<Rightarrow> (if plain_name name then (case map_of o' name of None \<Rightarrow> JUndefined | Some x \<Rightarrow> x) else JUndefined)
       | _ \<Rightarrow> JUndefined),
     cl_set = (\<lambda>v name x. case v of JObj o' \<Rightarrow> (if plain_name name then JObj (AList.update name x o') else v) | _ \<Rightarrow> v),
     cl_schema = (\<lambda>_ _ _. []), cl_protocolVersion = 1\<rparr>"

lemma sample_client_lodash: "lodash_documented sample_client"
  by (auto simp: lodash_documented_def sample_client_def update_same split: js.splits option.splits)

definition message_contract :: data_contract where
  "message_contract = contract_with (JObj [(''type'', JStr ''object''),
     (''properties'', JObj [(''text'', JObj [(''type'', JStr ''string'')]), (''toUserId'', identifier_schema),
       (''to'', JObj [(''type'', JStr ''object'')])]),
     (''required'', JArr [JStr ''$createdAt''])])"

definition message_data :: "(string \<times> js) list" where
  "message_data = [(''text'', JStr ''hello''), (''toUserId'', JBuf (replicate 32 5))]"

definition sample_document :: client_document where
  "sample_document = projr (create_document sample_client message_contract (replicate 32 9) ''note'' message_data (replicate 32 3) 1000)"

lemma sample_created:
  "create_document sample_client message_contract (replicate 32 9) ''note'' message_data (replicate 32 3) 1000 = Inr sample_document"
proof -
  have "is_ok (create_document sample_client message_contract (replicate 32 9) ''note'' message_data (replicate 32 3) 1000)"
    by code_simp
  then show ?thesis by (auto simp: sample_document_def is_ok_iff)
qed

lemma sample_data_ok: "data_ok message_data \<and> list_all plain_name (keys message_data)"
  by code_simp

theorem created_id_accepted_witness:
  "\<exists>raw t. raw_create sample_document = Inr raw \<and> new_DocumentTransition raw = Inr t \<and>
    validate_id_generation (cl_env sample_client) message_contract (replicate 32 9) (transition_toObject t) = Inr []"
  using created_id_accepted [OF sample_created sample_client_lodash] sample_data_ok by blast

definition message_state :: drive_state where
  "message_state = DocumentsBatch.sample_state\<lparr>ds_dataContracts := \<lparr>vs_db = [(dc_id message_contract, message_contract)], vs_tx = []\<rparr>\<rparr>"

lemma message_state_documented: "fetch_documented sample_fetch message_state"
proof (rule sample_fetch_documented)
  have "doc_view message_state i = doc_view DocumentsBatch.sample_state i" for i by (simp add: doc_view_def message_state_def)
  then show "documents_keyed message_state" using DocumentsBatch.sample_state_keyed by (simp add: documents_keyed_def)
qed

definition sample_batch :: "(string \<times> client_document list) list" where
  "sample_batch = [(''create'', [sample_document])]"

theorem client_documents_reach_store_witness:
  "\<exists>b owner ts s'. documents_batch sample_client 2000 sample_batch = Inr (DocumentsBatchTransition b owner ts) \<and>
    applyDocumentsBatchTransition sample_env sample_fetch True b owner ts message_state = Inr s' \<and>
    doc_view s' (the (cd_id sample_document)) = Some (plain_document sample_document)"
proof -
  have made: "is_ok (documents_batch sample_client 2000 sample_batch)" by code_simp
  then obtain st where st: "documents_batch sample_client 2000 sample_batch = Inr st" by (auto simp: is_ok_iff)
  have ok: "batch_ok sample_client (concat (map snd sample_batch))" by code_simp
  have ids: "distinct (map (\<lambda>d. the (cd_id d)) (batch_documents sample_batch))" by code_simp
  have version: "list_all (\<lambda>d. cd_protocolVersion d = cl_protocolVersion sample_client) (documents_of sample_batch ''create'')"
    by code_simp
  have applies: "case documents_batch sample_client 2000 sample_batch of
      Inr (DocumentsBatchTransition b owner ts) \<Rightarrow> is_ok (applyDocumentsBatchTransition sample_env sample_fetch True b owner ts message_state)
    | _ \<Rightarrow> False" by code_simp
  have one: "documents_of sample_batch ''create'' = [sample_document]" by (simp add: documents_of_def sample_batch_def)
  from client_documents_reach_store [OF st sample_client_lodash ok ids version message_state_documented, where env = sample_env]
  show ?thesis
  proof (elim exE conjE, goal_cases)
    case (1 b owner ts)
    obtain s' where run: "applyDocumentsBatchTransition sample_env sample_fetch True b owner ts message_state = Inr s'"
      using applies unfolding st 1(1) by (auto simp: is_ok_iff)
    from 1(3) [rule_format, OF run] have "doc_view s' (the (cd_id sample_document)) = Some (plain_document sample_document)"
      unfolding one by simp
    then show ?case using st run unfolding 1(1) by blast
  qed
qed

text \<open>
  Two ways to go wrong. A property whose name is part of the name of an identifier is searched for that
  identifier. And what the data names \<open>$ownerId\<close> replaces the owner, under which the id was generated.
\<close>

lemma overlapping_name_refused:
  "Document_set sample_client message_contract ''note'' ''to'' (JObj [(''serId'', JStr ''x'')]) [] =
    Inl (JsError ''Non-base58 character'')"
  by code_simp

lemma data_replaces_owner:
  "map_of (raw_new_document ce c owner type [(''$ownerId'', JBuf other)] entropy) ''$ownerId'' = Some (JBuf other) \<and>
    map_of (raw_new_document ce c owner type [(''$ownerId'', JBuf other)] entropy) ''$id'' =
      Some (JBuf (generateDocumentId (cl_env ce) (dc_id c) owner type entropy))"
  by (simp add: raw_new_document_def raw_simps)

end
