(* ===== verification/EntityFactories.thy ===== *)
theory EntityFactories
  imports DocumentFactory
begin

text \<open>
  Identities and data contracts on the side of the client: \<open>js-dpp/lib/identity/IdentityFactory.js\<close> and
  \<open>js-dpp/lib/dataContract/DataContractFactory.js\<close>, with what Drive makes of their state transitions.
  Entropy and the public keys of the caller are arguments.
\<close>

definition unsigned_base :: "int \<Rightarrow> st_base" where
  "unsigned_base protocolVersion = \<lparr>stb_protocolVersion = protocolVersion, stb_signature = None, stb_signaturePublicKeyId = None\<rparr>"

definition Identifier_of :: "buffer \<Rightarrow> dpp_error + ident" where
  "Identifier_of b = (if length b = 32 then Inr b else Inl (JsError ''Identifier must be 32 long''))"

section \<open>Data contracts\<close>

definition DEFAULT_SCHEMA :: string where
  "DEFAULT_SCHEMA = ''https://schema.dash.org/dpp-0-4-0/meta/data-contract''"

definition create_contract ::
  "int \<Rightarrow> env \<Rightarrow> buffer \<Rightarrow> (string \<times> contract_document_schema) list \<Rightarrow> buffer \<Rightarrow> dpp_error + data_contract \<times> buffer" where
  "create_contract protocolVersion env ownerId documents entropy =
     rbind (Identifier_of (generateDataContractId env ownerId entropy)) (\<lambda>dataContractId.
     rbind (Identifier_of ownerId) (\<lambda>ownerId.
       Inr (\<lparr>dc_protocolVersion = protocolVersion, dc_id = dataContractId, dc_ownerId = ownerId, dc_schema = DEFAULT_SCHEMA,
             dc_documents = documents, dc_defs = []\<rparr>, entropy)))"

definition contract_transition :: "int \<Rightarrow> data_contract \<times> buffer \<Rightarrow> state_transition" where
  "contract_transition protocolVersion created =
     DataContractCreateTransition (unsigned_base protocolVersion) (fst created) (snd created)"

text \<open>
  The contract that a client creates has an id that Drive accepts: the validation of its transition is
  the validation of the transition's shape, version and contract alone.
\<close>

theorem contract_id_accepted:
  assumes "create_contract v env ownerId documents entropy = Inr created"
    and "contract_transition v created = DataContractCreateTransition b c entropy'"
  shows "validateDataContractCreateTransitionBasic env sc validate dppVersion b c entropy' =
    and_then (Inr (JsonSchemaValidator_validate (sc_transition sc (contract_transition v created)) :: unit validation_result))
      (\<lambda>_. and_then (validateProtocolVersion dppVersion v) (\<lambda>_. and_then (validate c) (\<lambda>_. Inr (new_ValidationResult :: unit validation_result))))"
  using assms
  by (auto simp: create_contract_def contract_transition_def Identifier_of_def rbind_eq_Inr_iff unsigned_base_def
      validateDataContractCreateTransitionBasic_def Let_def split: if_splits)

section \<open>Identities\<close>

definition create_identity :: "int \<Rightarrow> env \<Rightarrow> asset_lock_proof \<Rightarrow> buffer list \<Rightarrow> dpp_error + identity" where
  "create_identity protocolVersion env p publicKeys =
     rbind (AssetLockProof_createIdentifier env p) (\<lambda>i.
     rbind (Identifier_of i) (\<lambda>i.
       Inr \<lparr>id_protocolVersion = protocolVersion, id_id = i,
            id_publicKeys = map (\<lambda>(n, publicKey). \<lparr>pk_id = int n, pk_type = ECDSA_SECP256K1, pk_data = publicKey\<rparr>)
              (enumerate 0 publicKeys),
            id_balance = 0, id_revision = 0\<rparr>))"

definition identity_create_transition :: "int \<Rightarrow> asset_lock_proof \<Rightarrow> identity \<Rightarrow> state_transition" where
  "identity_create_transition protocolVersion p i = IdentityCreateTransition (unsigned_base protocolVersion) p (id_publicKeys i)"

definition identity_topup_transition :: "int \<Rightarrow> buffer \<Rightarrow> asset_lock_proof \<Rightarrow> dpp_error + state_transition" where
  "identity_topup_transition protocolVersion identityId p =
     rbind (Identifier_of identityId) (\<lambda>i. Inr (IdentityTopUpTransition (unsigned_base protocolVersion) p i))"

text \<open>
  C14. When Drive applies the transition a client made for its new identity, it stores the identity that the
  client has, with the locked credits as its balance, and finds it by each of its public keys.
\<close>

theorem client_identity_stored:
  assumes "create_identity v env p publicKeys = Inr identity"
    and "identity_create_transition v p identity = IdentityCreateTransition b p' ks"
    and "applyIdentityCreateTransition env True b p' ks s = Inr s'"
  shows "\<exists>out satoshis. fetchAssetLockTransactionOutput env p = Inr out \<and> output_satoshis out = Inr satoshis \<and>
    fetchIdentity True s' (id_id identity) = Some (identity\<lparr>id_balance := convertSatoshiToCredits satoshis\<rparr>) \<and>
    fetchIdentityIdsByPublicKeyHashes True s' (map (e_publicKeyHash env) publicKeys) =
      replicate (length publicKeys) (Some (id_id identity))"
proof -
  obtain i where i: "AssetLockProof_createIdentifier env p = Inr i" "id_id identity = i"
      "identity = \<lparr>id_protocolVersion = v, id_id = i, id_publicKeys = id_publicKeys identity, id_balance = 0, id_revision = 0\<rparr>"
    using assms(1) by (auto simp: create_identity_def rbind_eq_Inr_iff Identifier_of_def split: if_splits)
  have hashes: "map (\<lambda>k. e_publicKeyHash env (pk_data k)) (id_publicKeys identity) = map (e_publicKeyHash env) publicKeys"
    using assms(1)
    by (auto simp: create_identity_def rbind_eq_Inr_iff Identifier_of_def enumerate_eq_zip split: if_splits intro!: nth_equalityI)
  have t: "p' = p" "ks = id_publicKeys identity" "stb_protocolVersion b = v"
    using assms(2) by (auto simp: identity_create_transition_def unsigned_base_def)
  have funded: "identity\<lparr>id_balance := x\<rparr> = \<lparr>id_protocolVersion = v, id_id = i, id_publicKeys = id_publicKeys identity,
      id_balance = x, id_revision = 0\<rparr>" for x
    by (subst i(3)) simp
  obtain out satoshis outPoint where out: "fetchAssetLockTransactionOutput env p = Inr out" "output_satoshis out = Inr satoshis" and
    s': "s' = markAssetLockTransactionOutPointAsUsed True outPoint (storeIdentityPublicKeyHashes True i
      (map (e_publicKeyHash env) publicKeys) (storeIdentity True (identity\<lparr>id_balance := convertSatoshiToCredits satoshis\<rparr>) s))"
    using assms(3) i(1) hashes unfolding t
    by (auto simp: applyIdentityCreateTransition_def rbind_eq_Inr_iff Let_def t funded)
  have "fetchIdentity True s' i = Some (identity\<lparr>id_balance := convertSatoshiToCredits satoshis\<rparr>)"
    using i(2) by (simp add: s' fetchIdentity_def storeIdentity_def storeIdentityPublicKeyHashes_def
      markAssetLockTransactionOutPointAsUsed_def vstore_view.lookup_insert)
  moreover have "fetchIdentityIdsByPublicKeyHashes True s' (map (e_publicKeyHash env) publicKeys) = replicate (length publicKeys) (Some i)"
    by (auto simp: s' fetchIdentityIdsByPublicKeyHashes_def storeIdentityPublicKeyHashes_def
      markAssetLockTransactionOutPointAsUsed_def vstore_view.lookup_insert_each intro!: nth_equalityI)
  ultimately show ?thesis using out i(2) by blast
qed

section \<open>Witnesses\<close>

definition short_hash_env :: env where
  "short_hash_env = sample_env\<lparr>e_hash := (\<lambda>b. take 32 (b @ replicate 32 0))\<rparr>"

definition sample_identity :: identity where
  "sample_identity = projr (create_identity 1 short_hash_env (ChainAssetLockProof 1 [4]) [[5], [6]])"

theorem client_identity_stored_witness:
  "\<exists>s'. applyIdentityCreateTransition short_hash_env True (unsigned_base 1) (ChainAssetLockProof 1 [4])
      (id_publicKeys sample_identity) empty_state = Inr s' \<and>
    fetchIdentityIdsByPublicKeyHashes True s' [[5], [6]] = [Some (id_id sample_identity), Some (id_id sample_identity)]"
proof -
  have "is_ok (create_identity 1 short_hash_env (ChainAssetLockProof 1 [4]) [[5], [6]])" by code_simp
  then have created: "create_identity 1 short_hash_env (ChainAssetLockProof 1 [4]) [[5], [6]] = Inr sample_identity"
    by (auto simp: sample_identity_def is_ok_iff)
  have "is_ok (applyIdentityCreateTransition short_hash_env True (unsigned_base 1) (ChainAssetLockProof 1 [4])
      (id_publicKeys sample_identity) empty_state)" by code_simp
  then obtain s' where s': "applyIdentityCreateTransition short_hash_env True (unsigned_base 1) (ChainAssetLockProof 1 [4])
      (id_publicKeys sample_identity) empty_state = Inr s'" by (auto simp: is_ok_iff)
  have "map (e_publicKeyHash short_hash_env) [[5], [6]] = [[5], [6]]" by (simp add: short_hash_env_def sample_env_def)
  then show ?thesis using client_identity_stored [OF created _ s'] s'
    by (auto simp: identity_create_transition_def numeral_2_eq_2)
qed

definition open_schemas :: schemas where
  "open_schemas = \<lparr>sc_transition = \<lambda>_. [], sc_publicKey = \<lambda>_. [], sc_proof = \<lambda>_. []\<rparr>"

definition created_contract :: "data_contract \<times> buffer" where
  "created_contract = projr (create_contract 1 short_hash_env (replicate 32 9) [] [3])"

theorem contract_id_accepted_witness:
  "run_valid (validateDataContractCreateTransitionBasic short_hash_env open_schemas (\<lambda>_. Inr new_ValidationResult) 1
    (unsigned_base 1) (fst created_contract) (snd created_contract))"
proof -
  have "is_ok (create_contract 1 short_hash_env (replicate 32 9) [] [3])" by code_simp
  then have created: "create_contract 1 short_hash_env (replicate 32 9) [] [3] = Inr created_contract"
    by (auto simp: created_contract_def is_ok_iff)
  have "run_valid (and_then (Inr (JsonSchemaValidator_validate (sc_transition open_schemas (contract_transition 1 created_contract))
      :: unit validation_result)) (\<lambda>_. and_then (validateProtocolVersion 1 1) (\<lambda>_. and_then (Inr (new_ValidationResult :: unit validation_result))
      (\<lambda>_. Inr (new_ValidationResult :: unit validation_result)))))" by code_simp
  then show ?thesis
    unfolding contract_id_accepted [OF created contract_transition_def [of 1 created_contract]] .
qed

end
