(* ===== verification/Spec2Isabelle.thy ===== *)
theory Spec2Isabelle
  imports MerkDb StoreTransactions DocumentQuery MongoQuery StateRepository IdentityTransitions
    DataTriggers BatchBasicValidation DocumentsBatch BlockContext StateTransitions DeliverTx
    CoreChain Validators AbciHandlers BlockLifecycle RootTree DocumentRepository Queries
    DataContractValidation AbciServer TransactionsFilter DapiClient ErrorTransport
    TendermintEvents TransactionWaiting PlatformEndpoints CoreEndpoints WalletStorage WalletLedger
    WalletAddresses CoinSelection WalletSync DocumentFactory EntityFactories
begin

text \<open>
  \<^bold>\<open>Dash Platform: the replicated state machine and the way of clients to it\<close>

  The repository holds the packages of Dash Platform. \<open>packages/js-drive\<close> is the state machine
  that Tenderdash drives through ABCI; it keeps identities, data contracts and documents.
  \<open>packages/js-dpp\<close> is the protocol: the shape of state transitions, their validation and what
  they do. \<open>packages/js-abci\<close> is the server that speaks ABCI with Tenderdash, \<open>packages/dapi\<close> the
  server that clients ask over gRPC and JSON-RPC, \<open>packages/js-dapi-client\<close> the library they ask
  it with, \<open>packages/wallet-lib\<close> the wallet over that library. This development models what js-drive does with a block from its first request to
  its commit, how it starts again, how it answers queries, all of js-dpp that runs inside it,
  the way of a request from a client through DAPI to Drive and back, and what the wallet makes of the
  transactions it is sent. Below, \<open>D\<close> is
  \<open>src/packages/js-drive/lib\<close> and \<open>P\<close> is \<open>src/packages/js-dpp/lib\<close>.

  \<^bold>\<open>The parts and the theories\<close>

  \<^item> \<open>Prelude\<close>, \<open>DriveErrors\<close>, \<open>Interfaces\<close>: bytes and results (\<open>rbind\<close>, \<open>rmap\<close>, \<open>rfold\<close> over
    \<open>error + value\<close>), the exceptions of js-drive, and the interfaces as locales: \<open>kv_store\<close> (what
    is read after a write), \<open>tx_protocol\<close> (start before commit or abort) and, in
    \<open>StateRepository\<close>, \<open>identity_ledger\<close> (how a write of an identity moves the total balance).
    Each is interpreted on the stores and transactions of the model.
  \<^item> \<open>MerkDb\<close> (\<open>D/merkDb\<close>): the authenticated store under an overlay of pending writes, its
    transactions and their object form. \<open>RootTree\<close> (\<open>D/rootTree\<close> and the leaves): the tree over the
    six stores, its root hash and proofs.
  \<^item> \<open>StoreTransactions\<close> (\<open>D/blockExecution/BlockExecutionStoreTransactions.js\<close>, \<open>D/mongoDb\<close>,
    \<open>D/fileDb\<close>): the transaction of a block over all stores, with its partial failures.
  \<^item> \<open>JsValues\<close>, \<open>DocumentQuery\<close>, \<open>MongoQuery\<close>, \<open>DocumentRepository\<close> (\<open>D/document\<close>): values and
    queries of clients, their validation against the indices of a contract, their translation for
    MongoDB, and the documents in the store and in its index.
  \<^item> \<open>DppValues\<close>, \<open>StateRepository\<close> (\<open>P\<close>, \<open>D/dpp\<close>, \<open>D/identity\<close>, \<open>D/dataContract\<close>): the values of the
    protocol and the state they are kept in. A store (\<open>vstore\<close>) is what is committed (\<open>vs_db\<close>) and the
    writes of the running transaction (\<open>vs_tx\<close>).
  \<^item> \<open>IdentityTransitions\<close> (\<open>P/identity\<close>), \<open>DataTriggers\<close> (\<open>P/dataTrigger\<close>), \<open>BatchBasicValidation\<close>
    and \<open>DocumentsBatch\<close> (\<open>P/document/stateTransition\<close>), \<open>StateTransitions\<close>
    (\<open>P/stateTransition\<close>, \<open>P/dataContract/stateTransition\<close>): validation and effect of every state
    transition, and their common path: decoding, dispatch, signature, fee.
  \<^item> \<open>BlockContext\<close> (\<open>D/blockExecution/BlockExecutionContext*.js\<close>, \<open>D/creditsDistributionPool\<close>):
    what is known of the running block, and the pool of fees.
  \<^item> \<open>DeliverTx\<close> (\<open>D/abci/handlers/deliverTxHandlerFactory.js\<close>, \<open>checkTx\<close>, \<open>D/abci/errors\<close>),
    \<open>AbciHandlers\<close> (the other handlers and \<open>D/featureFlag\<close>), \<open>CoreChain\<close> (\<open>D/core\<close>) and
    \<open>Validators\<close> (\<open>D/validator\<close>): the requests of Tenderdash over the state \<open>node\<close> of a process.
  \<^item> \<open>BlockLifecycle\<close>: those handlers composed as Tenderdash composes them, as the step relation
    \<open>node_reachable\<close>: a genesis, executed blocks, abandoned blocks, restarts.
  \<^item> \<open>Queries\<close> (\<open>D/abci/handlers/query\<close>): the reads of clients from the previous stores.
  \<^item> \<open>DataContractValidation\<close> (\<open>P/dataContract\<close>): which contracts are valid: depth, patterns, the
    documents' schemas enriched and compiled, indices and the properties they name.
  \<^item> \<open>DocumentFactory\<close>, \<open>EntityFactories\<close> (\<open>P/document/Document.js\<close>, \<open>P/document/DocumentFactory.js\<close>,
    \<open>P/dataContract/getBinaryPropertiesFromSchema.js\<close>, \<open>P/identity/IdentityFactory.js\<close>,
    \<open>P/dataContract/DataContractFactory.js\<close>): documents, identities and contracts as a client makes them, and
    the state transitions it makes of them, composed with what Drive does with these.
  \<^item> \<open>AbciServer\<close> (\<open>packages/js-abci/lib\<close>): a connection of Tenderdash as the step relation
    \<open>connection_step\<close> over chunks of bytes and settled handlers, framing and closing included.
  \<^item> \<open>DapiClient\<close> (\<open>packages/js-dapi-client/lib\<close>: transports, address providers): choice of a node,
    bans, retries, and the masternode list that addresses come from. \<open>ErrorTransport\<close>
    (\<open>packages/dapi/lib/grpcServer\<close>, \<open>packages/js-grpc-common/lib\<close>, \<open>createGrpcTransportError.js\<close>): an error of
    Drive on its way to the client.
  \<^item> \<open>TransactionsFilter\<close> (\<open>packages/dapi/lib/transactionsFilter\<close>, the stream of transactions with
    proofs): bloom filters, the cache of blocks and transactions that wait to be sent, the past in batches.
  \<^item> \<open>TendermintEvents\<close> and \<open>TransactionWaiting\<close> (\<open>packages/dapi/lib/externalApis/tenderdash\<close>): the
    connection to Tenderdash's events (\<open>ws_step\<close>) and the wait for a transaction and the block after it
    (\<open>wait_step\<close>), composed with Drive's proofs.
  \<^item> \<open>PlatformEndpoints\<close> and \<open>CoreEndpoints\<close> (\<open>packages/dapi/lib/grpcServer/handlers\<close>,
    \<open>packages/dapi/lib/rpcServer\<close>, \<open>packages/js-dapi-client/lib/methods\<close>): a method of the client, the
    handler in DAPI, its request to Drive or Core, and the answer as the client reads it.
  \<^item> \<open>WalletStorage\<close>, \<open>WalletLedger\<close> (\<open>packages/wallet-lib/src/types/Storage/methods\<close>): addresses with
    the outputs they hold, the import and broadcast of transactions, and the ledger they amount to.
    \<open>WalletAddresses\<close> (\<open>types/Account/methods\<close>, \<open>utils/bip44\<close>): paths, generated addresses, the gap
    limit. \<open>CoinSelection\<close> (\<open>getUTXOS\<close>, \<open>createTransaction\<close>, \<open>broadcastTransaction\<close>,
    \<open>utils/coinSelections\<close>): what can be spent, and how. \<open>WalletSync\<close> (\<open>utils/Queue\<close>,
    \<open>startHistoricalSync.js\<close>, \<open>_sortPlugins.js\<close>): the queue of jobs (\<open>queue_step\<close>), the restarts of a
    synchronisation, the order of plugins.

  Errors are values: \<open>drive_error\<close> and \<open>dpp_error\<close> are what is thrown, consensus errors are the lists
  that validation returns, and \<open>abci_result\<close> says whether a handler answered or the process
  stopped. A state is returned with an error wherever the code changes it before throwing.

  \<^bold>\<open>What the lemmas show\<close>

  \<^item> Money: over a block balances and fees grow by exactly what asset locks mint, no balance gets
    negative, an asset lock is spent once (\<open>DeliverTx\<close>, \<open>IdentityTransitions\<close>), and over a whole
    block balances and pool grow by what was minted (\<open>BlockLifecycle\<close>).
  \<^item> Atomicity: a commit publishes the view of the transaction, a rejected transaction changes
    nothing, partial failures are characterised (\<open>MerkDb\<close>, \<open>StoreTransactions\<close>, \<open>BlockLifecycle\<close>).
  \<^item> History: in every reachable state the stores hold what the last commit left and the previous
    stores what the commit before left, and a restart resumes there (\<open>BlockLifecycle\<close>).
  \<^item> Documents: a batch that is valid does what it says, cannot be replayed, and system documents
    obey their contracts (\<open>DocumentsBatch\<close>, \<open>DataTriggers\<close>, \<open>BatchBasicValidation\<close>).
  \<^item> Queries: what validation accepts is what an index can answer, no condition is lost on the way to
    MongoDB, a search returns stored documents, proofs convince of exactly what is stored, and which
    block an answer is about (\<open>DocumentQuery\<close>, \<open>MongoQuery\<close>, \<open>DocumentRepository\<close>, \<open>RootTree\<close>,
    \<open>Queries\<close>).
  \<^item> The Core chain: when waiting ends, which chain lock is known, that the masternode list is built
    without gaps, and which validators a rotation yields (\<open>CoreChain\<close>, \<open>Validators\<close>).
  \<^item> Contracts: validity as declarative conditions, and the shapes on which validation throws
    (\<open>DataContractValidation\<close>).
  \<^item> Connections: requests of Tenderdash are served in order, each once, whatever the chunks
    (\<open>AbciServer\<close>); an event subscription survives failures (\<open>TendermintEvents\<close>); a wait ends, and with the right
    result (\<open>TransactionWaiting\<close>); transactions are sent before the merkle block that proves them
    (\<open>TransactionsFilter\<close>); retries are bounded and use other nodes (\<open>DapiClient\<close>).
  \<^item> End to end: what a client asks is what Drive is asked, what it reads is what Drive stores, an error of
    Drive arrives as the error of its code (\<open>PlatformEndpoints\<close>, \<open>CoreEndpoints\<close>, \<open>ErrorTransport\<close>), and
    the documents and identities a client makes are those that Drive then stores (\<open>DocumentFactory\<close>,
    \<open>EntityFactories\<close>).
  \<^item> Wallet: balances are the sums of what addresses hold, and after any ordered history they hold the
    unspent outputs; what the balance says can be paid, and no more; twenty unused addresses are always
    ahead; a broadcast spends what it sent; jobs start in order (\<open>WalletLedger\<close>, \<open>CoinSelection\<close>,
    \<open>WalletAddresses\<close>, \<open>WalletSync\<close>).

  \<^bold>\<open>Bounds\<close>

  JavaScript numbers are unbounded integers here, and rationals where the wallet computes fees; none of the modelled arithmetic is specified
  beyond the safe integers, but for the length of a message (\<open>AbciServer\<close>), where shifts are taken
  at 32 bits. Buffers are lists of bytes. No definition uses fuel that could run out: most loops run over finite
  data; those that wait for Core (\<open>CoreChain\<close>) run over the given sequence of Core's answers, with
  \<open>None\<close> when it does not end; a request with retries (\<open>request_loop\<close>) and the update of the
  masternode list are \<open>partial_function\<close>s, with theorems that they return; and a method of the client counts
  the three attempts that its source makes (\<open>attempts_from\<close>).

  \<^bold>\<open>Parameters\<close>

  The native merk database, MongoDB, LevelDB, Core's RPC and ZMQ, Tenderdash's RPC and events, CBOR,
  protobuf and gRPC on the wire, the package ws, bloom filters, signatures, key derivation, ajv and lodash
  are not in the repository. They are arguments (\<open>env\<close>, \<open>client_env\<close>, \<open>platform\<close>, \<open>node_config\<close>, \<open>mongo_client\<close>, \<open>merk\<close>,
  \<open>merkle_package\<close>, \<open>bloom_api\<close>, \<open>key_chain\<close>, \<open>transaction_library\<close>, \<open>sort_by\<close>, the answers of each attempt), and what the code relies on is a
  named predicate on them (such as \<open>mongo_documented\<close>, \<open>merk_proofs_documented\<close>, \<open>wire_documented\<close>,
  \<open>codec_documented\<close>, \<open>decodes\<close>, \<open>permutes\<close>, \<open>lodash_documented\<close>), each with an instance.

  \<^bold>\<open>Not modelled\<close>

  Dependency injection, start-up and logs of js-drive and DAPI; the wallet's keys and signatures, which are
  calls of the bitcore packages, its persistence and its transport; the facades of js-dpp, which only wire
  its factories; dashmate, which runs docker services; generated gRPC code; TypeScript; JSON schemas of
  system contracts.
\<close>

end
